(* ===== verification/Js_Prelude.thy ===== *)
theory Js_Prelude
  imports Complex_Main "HOL-Library.List_Lexorder"
begin

text \<open>
  The part of JavaScript that the modelled modules share: strings as lists of
  UTF-16 code units, dynamic values, the string functions of the standard
  library, \<open>Set\<close> order, and the few library services that depend on data tables
  (case tables, number printing, JSON texts), which are collected in one
  environment record. The generic lemmas on them are proved here once.
\<close>

named_theorems js_str "facts about the string functions"

section \<open>Strings\<close>

text \<open>
  A string is the list of its UTF-16 code units, so \<open>length\<close> is the
  \<open>length\<close> property of JavaScript. An ASCII literal of the source is written
  \<open>lit ''...''\<close>; a text outside ASCII is written as its code units.
\<close>

type_synonym jstring = "nat list"

definition lit :: "string \<Rightarrow> jstring" where
  "lit s = map of_char s"

lemma lit_inj [simp]: "lit s = lit t \<longleftrightarrow> s = t"
  unfolding lit_def by (rule inj_map_eq_map) (simp add: inj_def)

lemma lit_Nil [simp]: "lit [] = []"
  by (simp add: lit_def)

lemma lit_eq_Nil [simp]: "lit s = [] \<longleftrightarrow> s = []" "[] = lit s \<longleftrightarrow> s = []"
  by (auto simp: lit_def)

lemma length_lit [simp]: "length (lit s) = length s"
  by (simp add: lit_def)

subsection \<open>White space and trimming\<close>

definition js_ws :: "nat \<Rightarrow> bool" where
  \<comment> \<open>WhiteSpace and LineTerminator of ECMAScript; also the class \<open>\\s\<close> of its regular expressions\<close>
  "js_ws c \<longleftrightarrow> (9 \<le> c \<and> c \<le> 13) \<or> c = 32 \<or> c = 160 \<or> c = 5760 \<or> (8192 \<le> c \<and> c \<le> 8202)
     \<or> c = 8232 \<or> c = 8233 \<or> c = 8239 \<or> c = 8287 \<or> c = 12288 \<or> c = 65279"

definition js_trim :: "jstring \<Rightarrow> jstring" where
  "js_trim s = rev (dropWhile js_ws (rev (dropWhile js_ws s)))"

lemma js_trim_Nil [simp]: "js_trim [] = []"
  by (simp add: js_trim_def)

lemma set_js_trim: "set (js_trim s) \<subseteq> set s"
  unfolding js_trim_def by (auto dest!: set_dropWhileD)

lemma length_js_trim [js_str]: "length (js_trim s) \<le> length s"
  unfolding js_trim_def
  by (metis dual_order.trans length_dropWhile_le length_rev)

lemma all_ws_dropWhile: "(\<forall>c\<in>set (dropWhile p s). p c) \<longleftrightarrow> (\<forall>c\<in>set s. p c)"
  by (induction s) auto

lemma js_trim_eq_Nil: "js_trim s = [] \<longleftrightarrow> (\<forall>c\<in>set s. js_ws c)"
  by (simp add: js_trim_def all_ws_dropWhile)

lemma js_trim_fixed: "s \<noteq> [] \<Longrightarrow> \<not> js_ws (hd s) \<Longrightarrow> \<not> js_ws (last s) \<Longrightarrow> js_trim s = s"
  unfolding js_trim_def
  by (metis dropWhile_eq_self_iff hd_rev rev_rev_ident)

lemma js_trim_ends:
  assumes "js_trim s \<noteq> []"
  shows "\<not> js_ws (hd (js_trim s))" and "\<not> js_ws (last (js_trim s))"
proof -
  let ?d = "dropWhile js_ws s"
  have ne: "dropWhile js_ws (rev ?d) \<noteq> []" using assms by (simp add: js_trim_def)
  then have "\<not> js_ws (hd (dropWhile js_ws (rev ?d)))" by (rule hd_dropWhile)
  then show "\<not> js_ws (last (js_trim s))" using ne by (simp add: js_trim_def last_rev)
  obtain p where p: "?d = js_trim s @ p"
  proof -
    have "rev ?d = takeWhile js_ws (rev ?d) @ dropWhile js_ws (rev ?d)" by simp
    then have "?d = rev (dropWhile js_ws (rev ?d)) @ rev (takeWhile js_ws (rev ?d))"
      by (metis rev_append rev_rev_ident)
    then show ?thesis using that by (simp add: js_trim_def)
  qed
  have "?d \<noteq> []" using assms p by auto
  then have "\<not> js_ws (hd ?d)" by (rule hd_dropWhile)
  then show "\<not> js_ws (hd (js_trim s))" using p assms by simp
qed

lemma js_trim_idem [simp]: "js_trim (js_trim s) = js_trim s"
proof (cases "js_trim s = []")
  case False
  from False js_trim_ends [OF False] show ?thesis by (rule js_trim_fixed)
qed simp

subsection \<open>Searching\<close>

definition js_starts_with :: "jstring \<Rightarrow> jstring \<Rightarrow> bool" where
  "js_starts_with s p \<longleftrightarrow> take (length p) s = p"

lemma js_starts_with_iff: "js_starts_with s p \<longleftrightarrow> (\<exists>u. s = p @ u)"
  by (metis append_eq_conv_conj append_take_drop_id js_starts_with_def)

fun js_includes :: "jstring \<Rightarrow> jstring \<Rightarrow> bool" where
  "js_includes [] t \<longleftrightarrow> t = []"
| "js_includes (c # s) t \<longleftrightarrow> js_starts_with (c # s) t \<or> js_includes s t"

lemma js_includes_iff: "js_includes s t \<longleftrightarrow> (\<exists>u v. s = u @ t @ v)"
proof (induction s)
  case Nil
  then show ?case by auto
next
  case (Cons c s)
  have "(\<exists>u v. c # s = u @ t @ v) \<longleftrightarrow> (\<exists>v. c # s = t @ v) \<or> (\<exists>u v. s = u @ t @ v)"
    by (metis append_Cons append_Nil list.exhaust list.inject)
  with Cons show ?case by (simp add: js_starts_with_iff)
qed

lemma js_includes_char: "js_includes s [c] \<longleftrightarrow> c \<in> set s"
  by (simp add: js_includes_iff in_set_conv_decomp)

fun js_index_of :: "nat \<Rightarrow> jstring \<Rightarrow> nat option" where
  "js_index_of c [] = None"
| "js_index_of c (d # s) = (if c = d then Some 0 else map_option Suc (js_index_of c s))"

lemma js_index_of_None: "js_index_of c s = None \<longleftrightarrow> c \<notin> set s"
  by (induction s) auto

lemma js_index_of_Some:
  "js_index_of c s = Some i \<longleftrightarrow> i < length s \<and> s ! i = c \<and> c \<notin> set (take i s)"
proof (induction s arbitrary: i)
  case Nil
  then show ?case by simp
next
  case (Cons d s)
  then show ?case by (cases i) auto
qed

subsection \<open>Splitting and joining\<close>

fun js_join :: "jstring \<Rightarrow> jstring list \<Rightarrow> jstring" where
  "js_join sep [] = []"
| "js_join sep [x] = x"
| "js_join sep (x # y # xs) = x @ sep @ js_join sep (y # xs)"

lemma js_join_Cons: "xs \<noteq> [] \<Longrightarrow> js_join sep (x # xs) = x @ sep @ js_join sep xs"
  by (cases xs) auto

lemma set_js_join: "set (js_join sep xs) \<subseteq> set sep \<union> (\<Union>x\<in>set xs. set x)"
  by (induction sep xs rule: js_join.induct) auto

fun js_split :: "nat \<Rightarrow> jstring \<Rightarrow> jstring list" where
  "js_split c [] = [[]]"
| "js_split c (d # s) =
     (if d = c then [] # js_split c s
      else (d # hd (js_split c s)) # tl (js_split c s))"

lemma js_split_ne [simp]: "js_split c s \<noteq> []"
  by (cases s) auto

lemma js_split_join: "js_join [c] (js_split c s) = s"
proof (induction s)
  case Nil
  then show ?case by simp
next
  case (Cons d s)
  obtain y ys where sp: "js_split c s = y # ys"
    by (meson js_split_ne neq_Nil_conv)
  with Cons show ?case by (cases ys) auto
qed

lemma js_split_no_sep: "x \<in> set (js_split c s) \<Longrightarrow> c \<notin> set x"
proof (induction s arbitrary: x)
  case Nil
  then show ?case by simp
next
  case (Cons d s)
  obtain y ys where "js_split c s = y # ys"
    by (meson js_split_ne neq_Nil_conv)
  with Cons show ?case by (auto split: if_splits)
qed

lemma js_split_single: "c \<notin> set s \<Longrightarrow> js_split c s = [s]"
  by (induction s) auto

lemma js_split_append_sep: "c \<notin> set x \<Longrightarrow> js_split c (x @ c # s) = x # js_split c s"
  by (induction x) auto

section \<open>The order of a \<open>Set\<close>\<close>

text \<open>\<open>[...new Set(xs)]\<close>: the distinct elements in the order of their first occurrence.\<close>

definition js_unique :: "'a list \<Rightarrow> 'a list" where
  "js_unique xs = rev (remdups (rev xs))"

lemma set_js_unique [simp]: "set (js_unique xs) = set xs"
  by (simp add: js_unique_def)

lemma distinct_js_unique [simp]: "distinct (js_unique xs)"
  by (simp add: js_unique_def)

lemma js_unique_distinct: "distinct xs \<Longrightarrow> js_unique xs = xs"
  by (simp add: js_unique_def distinct_remdups_id)

lemma js_unique_idem [simp]: "js_unique (js_unique xs) = js_unique xs"
  by (rule js_unique_distinct) simp

lemma js_unique_Nil [simp]: "js_unique [] = []" "js_unique xs = [] \<longleftrightarrow> xs = []"
  by (auto simp: js_unique_def)

section \<open>Decimal numbers\<close>

fun show_nat :: "nat \<Rightarrow> jstring" where
  "show_nat n = (if n < 10 then [48 + n] else show_nat (n div 10) @ [48 + n mod 10])"

declare show_nat.simps [simp del]

definition is_digit :: "nat \<Rightarrow> bool" where
  "is_digit c \<longleftrightarrow> 48 \<le> c \<and> c \<le> 57"

fun read_nat :: "nat \<Rightarrow> jstring \<Rightarrow> nat" where
  "read_nat a [] = a"
| "read_nat a (c # s) = read_nat (10 * a + (c - 48)) s"

lemma read_nat_snoc: "read_nat a (s @ [c]) = 10 * read_nat a s + (c - 48)"
  by (induction s arbitrary: a) auto

lemma read_show_nat: "read_nat 0 (show_nat n) = n"
proof (induction n rule: show_nat.induct)
  case (1 n)
  then show ?case
    by (cases "n < 10") (simp_all add: show_nat.simps [of n] read_nat_snoc)
qed

lemma show_nat_inj [simp]: "show_nat m = show_nat n \<longleftrightarrow> m = n"
  by (metis read_show_nat)

lemma show_nat_digits: "c \<in> set (show_nat n) \<Longrightarrow> is_digit c"
proof (induction n rule: show_nat.induct)
  case (1 n)
  then show ?case
    by (cases "n < 10") (auto simp: show_nat.simps [of n] is_digit_def)
qed

lemma show_nat_ne [simp]: "show_nat n \<noteq> []"
  by (subst show_nat.simps) simp

definition pad2 :: "nat \<Rightarrow> jstring" where
  \<comment> \<open>\<open>String(n).padStart(2, "0")\<close>\<close>
  "pad2 n = (let s = show_nat n in if length s < 2 then 48 # s else s)"

section \<open>UTF-8 size\<close>

text \<open>
  \<open>Buffer.byteLength(s, "utf8")\<close>: a surrogate pair takes four bytes, any other
  unit three at most (an unpaired surrogate is replaced by U+FFFD).
\<close>

definition is_high :: "nat \<Rightarrow> bool" where "is_high c \<longleftrightarrow> 55296 \<le> c \<and> c \<le> 56319"
definition is_low :: "nat \<Rightarrow> bool" where "is_low c \<longleftrightarrow> 56320 \<le> c \<and> c \<le> 57343"

fun utf8_length :: "jstring \<Rightarrow> nat" where
  "utf8_length [] = 0"
| "utf8_length [c] = (if c < 128 then 1 else if c < 2048 then 2 else 3)"
| "utf8_length (c # d # s) =
     (if is_high c \<and> is_low d then 4 + utf8_length s
      else (if c < 128 then 1 else if c < 2048 then 2 else 3) + utf8_length (d # s))"

lemma utf8_length_bounds: "length s \<le> utf8_length s \<and> utf8_length s \<le> 3 * length s"
  by (induction s rule: utf8_length.induct) auto

section \<open>Dynamic values\<close>

text \<open>
  The values that reach the code from JSON texts, from the renderer process or from
  an editor. Integers and fractions are exact; a double is one of the rationals.
\<close>

datatype jsval =
    JUndef
  | JNull
  | JBool bool
  | JNum rat
  | JNaN
  | JInf bool
  | JStr jstring
  | JArr "jsval list"
  | JObj "(jstring \<times> jsval) list"

primrec truthy :: "jsval \<Rightarrow> bool" where
  "truthy JUndef = False"
| "truthy JNull = False"
| "truthy (JBool b) = b"
| "truthy (JNum q) = (q \<noteq> 0)"
| "truthy JNaN = False"
| "truthy (JInf b) = True"
| "truthy (JStr s) = (s \<noteq> [])"
| "truthy (JArr xs) = True"
| "truthy (JObj ps) = True"

definition nullish :: "jsval \<Rightarrow> bool" where
  "nullish v \<longleftrightarrow> v = JUndef \<or> v = JNull"

definition js_or :: "jsval \<Rightarrow> jsval \<Rightarrow> jsval" where
  "js_or a b = (if truthy a then a else b)"

definition js_coalesce :: "jsval \<Rightarrow> jsval \<Rightarrow> jsval" where
  \<comment> \<open>the operator \<open>??\<close>\<close>
  "js_coalesce a b = (if nullish a then b else a)"

primrec own_prop :: "jsval \<Rightarrow> jstring \<Rightarrow> jsval" where
  "own_prop JUndef k = JUndef"
| "own_prop JNull k = JUndef"
| "own_prop (JBool b) k = JUndef"
| "own_prop (JNum q) k = JUndef"
| "own_prop JNaN k = JUndef"
| "own_prop (JInf b) k = JUndef"
| "own_prop (JStr s) k = JUndef"
| "own_prop (JArr xs) k = JUndef"
| "own_prop (JObj ps) k = (case map_of ps k of None \<Rightarrow> JUndef | Some v \<Rightarrow> v)"

text \<open>
  \<open>v.k\<close> raises a TypeError on \<open>undefined\<close> and \<open>null\<close>, where \<open>v?.k\<close> is \<open>undefined\<close>.
  The property names the code reads (\<open>detail\<close>, \<open>accessToken\<close>, \<open>models\<close>, ...) are not
  properties of the wrapper prototypes, so a read on a primitive is \<open>undefined\<close>.
\<close>

definition js_get :: "jsval \<Rightarrow> jstring \<Rightarrow> jsval option" where
  "js_get v k = (if nullish v then None else Some (own_prop v k))"

definition js_opt :: "jsval \<Rightarrow> jstring \<Rightarrow> jsval" where
  "js_opt v k = own_prop v k"

primrec is_str :: "jsval \<Rightarrow> bool" where
  "is_str JUndef = False" | "is_str JNull = False" | "is_str (JBool b) = False"
| "is_str (JNum q) = False" | "is_str JNaN = False" | "is_str (JInf b) = False"
| "is_str (JStr s) = True" | "is_str (JArr xs) = False" | "is_str (JObj ps) = False"

definition is_bool :: "jsval \<Rightarrow> bool" where
  "is_bool v \<longleftrightarrow> v = JBool True \<or> v = JBool False"

primrec str_of :: "jsval \<Rightarrow> jstring" where
  "str_of JUndef = []" | "str_of JNull = []" | "str_of (JBool b) = []"
| "str_of (JNum q) = []" | "str_of JNaN = []" | "str_of (JInf b) = []"
| "str_of (JStr s) = s" | "str_of (JArr xs) = []" | "str_of (JObj ps) = []"

primrec arr_of :: "jsval \<Rightarrow> jsval list option" where
  "arr_of JUndef = None" | "arr_of JNull = None" | "arr_of (JBool b) = None"
| "arr_of (JNum q) = None" | "arr_of JNaN = None" | "arr_of (JInf b) = None"
| "arr_of (JStr s) = None" | "arr_of (JArr xs) = Some xs" | "arr_of (JObj ps) = None"

lemma is_str_iff: "is_str v \<longleftrightarrow> (\<exists>s. v = JStr s)"
  by (cases v) auto

lemma arr_of_Some [simp]: "arr_of v = Some xs \<longleftrightarrow> v = JArr xs"
  by (cases v) auto

section \<open>The environment\<close>

text \<open>
  What the code takes from tables of the platform: the case mappings of
  strings outside ASCII, the printed form of numbers that are not integers, the JSON
  reader and the JSON writer (compact, and indented by two). Nothing is assumed about them here; a theorem that needs
  a property of one states it.
\<close>

record js_env =
  env_lower :: "jstring \<Rightarrow> jstring"
  env_upper :: "jstring \<Rightarrow> jstring"
  env_num :: "rat \<Rightarrow> jstring"
  env_parse :: "jstring \<Rightarrow> jsval option"
  env_stringify :: "jsval \<Rightarrow> jstring option"
  env_pretty :: "jsval \<Rightarrow> jstring"

definition sample_env :: "jsval \<Rightarrow> js_env" where
  \<comment> \<open>a closed environment for concrete evaluations: every JSON text reads as the given value\<close>
  "sample_env v = \<lparr>env_lower = (\<lambda>s. s), env_upper = (\<lambda>s. s), env_num = (\<lambda>q. []), env_parse = (\<lambda>s. Some v),
     env_stringify = (\<lambda>x. Some []), env_pretty = (\<lambda>x. [])\<rparr>"

definition is_ascii :: "jstring \<Rightarrow> bool" where
  "is_ascii s \<longleftrightarrow> (\<forall>c\<in>set s. c < 128)"

definition ascii_lower :: "nat \<Rightarrow> nat" where
  "ascii_lower c = (if 65 \<le> c \<and> c \<le> 90 then c + 32 else c)"

definition ascii_upper :: "nat \<Rightarrow> nat" where
  "ascii_upper c = (if 97 \<le> c \<and> c \<le> 122 then c - 32 else c)"

definition js_lower :: "js_env \<Rightarrow> jstring \<Rightarrow> jstring" where
  "js_lower E s = (if is_ascii s then map ascii_lower s else env_lower E s)"

definition js_upper :: "js_env \<Rightarrow> jstring \<Rightarrow> jstring" where
  "js_upper E s = (if is_ascii s then map ascii_upper s else env_upper E s)"

lemma ascii_lower_idem [simp]: "ascii_lower (ascii_lower c) = ascii_lower c"
  by (simp add: ascii_lower_def)

lemma js_lower_ascii_idem: "is_ascii s \<Longrightarrow> js_lower E (js_lower E s) = js_lower E s"
  by (auto simp: js_lower_def is_ascii_def ascii_lower_def)

definition show_int :: "int \<Rightarrow> jstring" where
  "show_int i = (if i < 0 then 45 # show_nat (nat (- i)) else show_nat (nat i))"

definition js_num_string :: "js_env \<Rightarrow> rat \<Rightarrow> jstring" where
  \<comment> \<open>integers below \<open>10\<^sup>2\<^sup>1\<close> print in decimal; fractions and larger numbers by the platform\<close>
  "js_num_string E q =
     (if of_int \<lfloor>q\<rfloor> = q \<and> \<bar>q\<bar> < 1000000000000000000000 then show_int \<lfloor>q\<rfloor> else env_num E q)"

fun js_string :: "js_env \<Rightarrow> jsval \<Rightarrow> jstring" where
  \<comment> \<open>\<open>String(v)\<close>; an array joins its elements with commas, \<open>null\<close> and \<open>undefined\<close> there being empty\<close>
  "js_string E JUndef = lit ''undefined''"
| "js_string E JNull = lit ''null''"
| "js_string E (JBool b) = (if b then lit ''true'' else lit ''false'')"
| "js_string E (JNum q) = js_num_string E q"
| "js_string E JNaN = lit ''NaN''"
| "js_string E (JInf b) = (if b then lit ''Infinity'' else lit ''-Infinity'')"
| "js_string E (JStr s) = s"
| "js_string E (JArr xs) =
     js_join (lit '','') (map (\<lambda>x. if nullish x then [] else js_string E x) xs)"
| "js_string E (JObj ps) = lit ''[object Object]''"

section \<open>Inherited properties\<close>

text \<open>The names every object inherits from \<open>Object.prototype\<close>.\<close>

definition object_prototype_names :: "jstring list" where
  "object_prototype_names =
     map lit [''constructor'', ''__defineGetter__'', ''__defineSetter__'', ''hasOwnProperty'',
       ''__lookupGetter__'', ''__lookupSetter__'', ''isPrototypeOf'', ''propertyIsEnumerable'',
       ''toString'', ''valueOf'', ''__proto__'', ''toLocaleString'']"

definition inherited_name :: "jstring \<Rightarrow> bool" where
  "inherited_name k \<longleftrightarrow> k \<in> set object_prototype_names"

section \<open>Shapes of strings\<close>

definition email_char :: "nat \<Rightarrow> bool" where
  "email_char c \<longleftrightarrow> \<not> js_ws c \<and> c \<noteq> 64"

definition email_domain :: "jstring \<Rightarrow> bool" where
  \<comment> \<open>a dot that is neither the first nor the last unit\<close>
  "email_domain d \<longleftrightarrow> list_all email_char d \<and> 46 \<in> set (butlast (tl d))"

definition email_shape :: "jstring \<Rightarrow> bool" where
  \<comment> \<open>the regular expression \<open>^[^\s@]+@[^\s@]+\.[^\s@]+$\<close>\<close>
  "email_shape s \<longleftrightarrow>
     (let l = takeWhile email_char s
      in l \<noteq> [] \<and> (case drop (length l) s of [] \<Rightarrow> False | c # d \<Rightarrow> c = 64 \<and> email_domain d))"

lemma butlast_tl_mem: "x \<in> set (butlast (tl d)) \<longleftrightarrow> (\<exists>a b. a \<noteq> [] \<and> b \<noteq> [] \<and> d = a @ x # b)"
proof
  assume x: "x \<in> set (butlast (tl d))"
  then obtain u v where uv: "butlast (tl d) = u @ x # v" by (meson split_list)
  from x have "tl d \<noteq> []" by auto
  then have "d = (hd d # u) @ x # (v @ [last (tl d)])"
    using uv append_butlast_last_id [of "tl d"] by (cases d) auto
  then show "\<exists>a b. a \<noteq> [] \<and> b \<noteq> [] \<and> d = a @ x # b" by blast
next
  assume "\<exists>a b. a \<noteq> [] \<and> b \<noteq> [] \<and> d = a @ x # b"
  then obtain a b where "a \<noteq> []" "b \<noteq> []" "d = a @ x # b" by blast
  then show "x \<in> set (butlast (tl d))" by (cases a) (auto simp: butlast_append)
qed

lemma email_shape_iff:
  "email_shape s \<longleftrightarrow> (\<exists>l a b. s = l @ 64 # a @ 46 # b \<and> l \<noteq> [] \<and> a \<noteq> [] \<and> b \<noteq> []
     \<and> list_all email_char (l @ a @ b))"
proof
  assume e: "email_shape s"
  define l where "l = takeWhile email_char s"
  from e obtain d where d: "drop (length l) s = 64 # d" "l \<noteq> []" "email_domain d"
    by (auto simp: email_shape_def Let_def l_def split: list.splits)
  then obtain a b where ab: "a \<noteq> []" "b \<noteq> []" "d = a @ 46 # b"
    by (auto simp: email_domain_def butlast_tl_mem)
  have "s = l @ 64 # d"
    using d(1) takeWhile_dropWhile_id [of email_char s] unfolding l_def by (metis dropWhile_eq_drop)
  moreover have "list_all email_char l" by (auto simp: l_def list_all_iff dest: set_takeWhileD)
  ultimately show "\<exists>l a b. s = l @ 64 # a @ 46 # b \<and> l \<noteq> [] \<and> a \<noteq> [] \<and> b \<noteq> []
     \<and> list_all email_char (l @ a @ b)"
    using ab d(2,3) by (intro exI [of _ l] exI [of _ a] exI [of _ b]) (auto simp: email_domain_def)
next
  assume "\<exists>l a b. s = l @ 64 # a @ 46 # b \<and> l \<noteq> [] \<and> a \<noteq> [] \<and> b \<noteq> []
     \<and> list_all email_char (l @ a @ b)"
  then obtain l a b where s: "s = l @ 64 # a @ 46 # b" "l \<noteq> []" "a \<noteq> []" "b \<noteq> []"
    "list_all email_char (l @ a @ b)" by blast
  have "\<forall>c\<in>set l. email_char c" using s(5) by (simp add: list_all_iff)
  then have "takeWhile email_char s = l @ takeWhile email_char (64 # a @ 46 # b)"
    unfolding s(1) by (simp add: takeWhile_append2)
  then have "takeWhile email_char s = l" by (simp add: email_char_def)
  moreover have "email_domain (a @ 46 # b)"
  proof -
    have "46 \<in> set (butlast (tl (a @ 46 # b)))" unfolding butlast_tl_mem using s(3,4) by blast
    moreover have "email_char 46" by (simp add: email_char_def js_ws_def)
    ultimately show ?thesis using s(5) by (simp add: email_domain_def)
  qed
  ultimately show "email_shape s" using s by (simp add: email_shape_def)
qed

section \<open>Results\<close>

definition is_ok :: "'e + 'a \<Rightarrow> bool" where
  "is_ok r \<longleftrightarrow> (case r of Inl e \<Rightarrow> False | Inr x \<Rightarrow> True)"

lemma is_ok_simps [simp]: "\<not> is_ok (Inl e)" "is_ok (Inr x)"
  by (simp_all add: is_ok_def)

lemma is_ok_iff: "is_ok r \<longleftrightarrow> (\<exists>x. r = Inr x)"
  by (cases r) auto

definition bind_r :: "'e + 'a \<Rightarrow> ('a \<Rightarrow> 'e + 'b) \<Rightarrow> 'e + 'b" where
  \<comment> \<open>go on unless the first part raised\<close>
  "bind_r r f = (case r of Inl e \<Rightarrow> Inl e | Inr x \<Rightarrow> f x)"

lemma bind_r_simps [simp]: "bind_r (Inl e) f = Inl e" "bind_r (Inr x) f = f x"
  by (simp_all add: bind_r_def)

lemma bind_r_ok: "bind_r r f = Inr y \<longleftrightarrow> (\<exists>x. r = Inr x \<and> f x = Inr y)"
  by (cases r) auto

definition check_r :: "bool \<Rightarrow> 'e \<Rightarrow> 'e + unit" where
  \<comment> \<open>\<open>if (!ok) throw e\<close>\<close>
  "check_r ok e = (if ok then Inr () else Inl e)"

lemma check_r_ok [simp]: "check_r ok e = Inr u \<longleftrightarrow> ok" "check_r True e = Inr ()" "check_r False e = Inl e"
  by (simp_all add: check_r_def)

fun map_r :: "('a \<Rightarrow> 'e + 'b) \<Rightarrow> 'a list \<Rightarrow> 'e + 'b list" where
  \<comment> \<open>\<open>xs.map(f)\<close> with a callback that may raise: the first raise wins\<close>
  "map_r f [] = Inr []"
| "map_r f (x # xs) =
     (case f x of Inl e \<Rightarrow> Inl e
      | Inr y \<Rightarrow> (case map_r f xs of Inl e \<Rightarrow> Inl e | Inr ys \<Rightarrow> Inr (y # ys)))"

lemma map_r_ok: "map_r f xs = Inr ys \<longleftrightarrow> list_all2 (\<lambda>x y. f x = Inr y) xs ys"
proof (induction xs arbitrary: ys)
  case Nil
  then show ?case by auto
next
  case (Cons x xs)
  show ?case
  proof (cases "map_r f xs")
    case (Inl e)
    with Cons have "\<not> list_all2 (\<lambda>x y. f x = Inr y) xs zs" for zs by simp
    with Inl show ?thesis by (cases ys) (auto split: sum.splits)
  next
    case (Inr zs)
    then have "list_all2 (\<lambda>x y. f x = Inr y) xs ws \<longleftrightarrow> ws = zs" for ws
      using Cons.IH [of ws] by auto
    with Inr show ?thesis by (cases ys) (auto split: sum.splits)
  qed
qed

lemma map_r_Inr: "map_r (\<lambda>x. Inr (f x)) xs = Inr (map f xs)"
  by (induction xs) simp_all

lemma filter_by_zip: "map fst (filter snd (zip xs (map P xs))) = filter P xs"
  by (induction xs) simp_all

lemma map_r_length: "map_r f xs = Inr ys \<Longrightarrow> length ys = length xs"
  by (auto simp: map_r_ok dest: list_all2_lengthD)

section \<open>The order of strings\<close>

text \<open>
  The operator \<open><\<close> on strings compares code units lexicographically, which is the order of lists. On digits of equal
  length it is the order of the numbers.
\<close>

lemma read_nat_acc: "read_nat a s = a * 10 ^ length s + read_nat 0 s"
proof (induction s arbitrary: a)
  case (Cons c s)
  from Cons [of "10 * a + (c - 48)"] Cons [of "c - 48"] show ?case by (simp add: algebra_simps)
qed simp

lemma read_nat_bound: "list_all is_digit s \<Longrightarrow> read_nat 0 s < 10 ^ length s"
proof (induction s)
  case (Cons c s)
  then have "read_nat 0 s < 10 ^ length s" "c - 48 \<le> 9" by (auto simp: is_digit_def)
  then have "(c - 48) * 10 ^ length s + read_nat 0 s < 9 * 10 ^ length s + 10 ^ length s"
    by (meson add_le_less_mono mult_le_mono1)
  then show ?case by (simp add: read_nat_acc [of "c - 48"])
qed simp

lemma digits_less_iff:
  assumes "length s = length t" "list_all is_digit s" "list_all is_digit t"
  shows "s < t \<longleftrightarrow> read_nat 0 s < read_nat 0 t"
  using assms
proof (induction s t rule: list_induct2)
  case (Cons c s d t)
  then have b: "read_nat 0 s < 10 ^ length t" "read_nat 0 t < 10 ^ length t"
    using read_nat_bound [of s] read_nat_bound [of t] by auto
  have val: "read_nat 0 (c # s) = (c - 48) * 10 ^ length t + read_nat 0 s"
    "read_nat 0 (d # t) = (d - 48) * 10 ^ length t + read_nat 0 t"
    using Cons.hyps(1) read_nat_acc [of "c - 48" s] read_nat_acc [of "d - 48" t] by simp_all
  have less: "x * 10 ^ length t + u < y * 10 ^ length t + v" if "x < y" "u < 10 ^ length t" for x y u v :: nat
  proof -
    have "x * 10 ^ length t + u < Suc x * 10 ^ length t" using that(2) by simp
    also have "\<dots> \<le> y * 10 ^ length t" using that(1) by (intro mult_le_mono1) simp
    finally show ?thesis by simp
  qed
  have cd: "48 \<le> c" "48 \<le> d" using Cons.prems by (auto simp: is_digit_def)
  consider "c < d" | "c = d" | "d < c" by linarith
  then show ?case
  proof cases
    case 1
    then have "c - 48 < d - 48" using cd by simp
    with less [OF this b(1)] 1 show ?thesis unfolding val by simp
  next
    case 2
    with Cons show ?thesis unfolding val by auto
  next
    case 3
    then have "d - 48 < c - 48" using cd by simp
    with less [OF this b(2)] 3 show ?thesis unfolding val by (simp add: not_less_iff_gr_or_eq)
  qed
qed simp

end
