(* ===== verification/Interfaces.thy ===== *)
theory Interfaces
  imports Js_Prelude "HOL-Library.Multiset"
begin

text \<open>
  The contracts that several components share, as locales: a session epoch that makes old
  contexts stale, a gate that admits one action at a time, and a text escaper whose output
  cannot break out of the markup around it. What a client may conclude from a contract is
  proved here, once; the components interpret the locales on their own definitions.
\<close>

section \<open>Session epochs\<close>

locale epoch_session =
  fixes step :: "'s \<Rightarrow> 's \<Rightarrow> bool"
    and epoch :: "'s \<Rightarrow> nat"
    and epoch_of :: "'c \<Rightarrow> nat"
    and live :: "'s \<Rightarrow> 'c \<Rightarrow> bool"
  assumes step_epoch: "step s s' \<Longrightarrow> epoch s \<le> epoch s'"
    and live_epoch: "live s c \<Longrightarrow> epoch_of c = epoch s"
begin

lemma steps_epoch: "step\<^sup>*\<^sup>* s s' \<Longrightarrow> epoch s \<le> epoch s'"
  by (induction rule: rtranclp_induct) (auto dest: step_epoch)

lemma stale_stays_stale:
  assumes "step\<^sup>*\<^sup>* s s'" and "epoch_of c < epoch s"
  shows "epoch_of c < epoch s'"
  using steps_epoch [OF assms(1)] assms(2) by simp

lemma stale_never_live:
  assumes "step\<^sup>*\<^sup>* s s'" and "epoch_of c < epoch s"
  shows "\<not> live s' c"
  using stale_stays_stale [OF assms] live_epoch by fastforce

text \<open>A log that a step extends only by contexts live at that step gets no entry of a stale context.\<close>

lemma stale_log_frozen:
  assumes tr: "\<And>s s'. step s s' \<Longrightarrow> tr s' = tr s \<or> (\<exists>c x. live s c \<and> tr s' = tr s @ [(c, x)])"
    and steps: "step\<^sup>*\<^sup>* s s'" and stale: "epoch_of c < epoch s"
  shows "filter (\<lambda>(d, x). d = c) (tr s') = filter (\<lambda>(d, x). d = c) (tr s)"
  using steps
proof (induction rule: rtranclp_induct)
  case base
  show ?case by simp
next
  case (step t u)
  from step.hyps(1) stale have "\<not> live t c" by (rule stale_never_live)
  with step.IH tr [OF step.hyps(2)] show ?case by auto
qed

end

section \<open>Action gates\<close>

locale action_gate =
  fixes try_enter :: "'s \<Rightarrow> bool \<times> 's"
    and release :: "'s \<Rightarrow> 's"
    and reset :: "'s \<Rightarrow> 's"
    and busy :: "'s \<Rightarrow> bool"
  assumes enter_free: "\<not> busy s \<Longrightarrow> fst (try_enter s) \<and> busy (snd (try_enter s))"
    and enter_busy: "busy s \<Longrightarrow> try_enter s = (False, s)"
    and release_free: "\<not> busy (release s)"
    and reset_free: "\<not> busy (reset s)"
begin

text \<open>A call of the gate by its user: \<open>True\<close> for \<open>tryEnter\<close>, \<open>False\<close> for \<open>release\<close> or \<open>reset\<close>.\<close>

fun admitted :: "bool list \<Rightarrow> 's \<Rightarrow> nat" where
  \<comment> \<open>how many \<open>tryEnter\<close> calls of the sequence were admitted\<close>
  "admitted [] s = 0"
| "admitted (True # cs) s =
     (if fst (try_enter s) then 1 else 0) + admitted cs (snd (try_enter s))"
| "admitted (False # cs) s = admitted cs (release s)"

lemma admitted_busy_enters: "busy s \<Longrightarrow> admitted (replicate n True) s = 0"
  by (induction n arbitrary: s) (auto simp: enter_busy)

lemma admitted_enters: "\<not> busy s \<Longrightarrow> admitted (replicate (Suc n) True) s = 1"
  using enter_free [of s] admitted_busy_enters by auto

lemma admitted_bound: "admitted cs s \<le> length (filter Not cs) + (if busy s then 0 else 1)"
proof (induction cs arbitrary: s)
  case Nil
  then show ?case by simp
next
  case (Cons c cs)
  show ?case
  proof (cases c)
    case True
    then show ?thesis
      using Cons.IH [of "snd (try_enter s)"] enter_free [of s] enter_busy [of s]
      by (cases "busy s") auto
  next
    case False
    then show ?thesis using Cons.IH [of "release s"] release_free [of s] by simp
  qed
qed

end

section \<open>Escapers\<close>

text \<open>
  The characters that end a text or an attribute value in HTML: the ampersand is left out,
  since it introduces the entities an escaper writes.
\<close>

definition markup_chars :: "nat set" where
  "markup_chars = {34, 39, 60, 62}"

locale html_escaper =
  fixes esc :: "jstring \<Rightarrow> jstring"
  assumes esc_safe: "set (esc s) \<inter> markup_chars = {}"
    and esc_append: "esc (s @ t) = esc s @ esc t"
begin

lemma esc_Nil: "esc [] = []"
  using esc_append [of "[]" "[]"] by simp

lemma esc_no_tag: "60 \<notin> set (esc s)" "62 \<notin> set (esc s)" "34 \<notin> set (esc s)" "39 \<notin> set (esc s)"
  using esc_safe [of s] by (auto simp: markup_chars_def)

text \<open>The markup around an escaped text is all the markup there is.\<close>

lemma esc_markup_between:
  "filter (\<lambda>c. c \<in> markup_chars) (a @ esc s @ b) = filter (\<lambda>c. c \<in> markup_chars) (a @ b)"
  using esc_safe [of s] by (auto simp: filter_empty_conv)

lemma esc_attribute_ends:
  \<comment> \<open>an attribute value written between double quotes ends where the code closes it\<close>
  "takeWhile (\<lambda>c. c \<noteq> 34) (esc s @ 34 # b) = esc s"
  using esc_no_tag by (induction "esc s" arbitrary: s) (auto simp: takeWhile_append)

end

section \<open>Moving an entry of a list\<close>

text \<open>
  An entry, found by its key, changes places with its neighbour in the given direction; at the ends and for an
  unknown key nothing happens.
\<close>

fun index_by :: "('a \<Rightarrow> jstring) \<Rightarrow> jstring \<Rightarrow> 'a list \<Rightarrow> nat option" where
  "index_by key k [] = None"
| "index_by key k (x # xs) = (if key x = k then Some 0 else map_option Suc (index_by key k xs))"

lemma index_by_Some: "index_by key k xs = Some i \<Longrightarrow> i < length xs \<and> key (xs ! i) = k"
  by (induction xs arbitrary: i) (auto split: if_splits)

lemma index_by_distinct:
  "distinct (map key xs) \<Longrightarrow> i < length xs \<Longrightarrow> index_by key (key (xs ! i)) xs = Some i"
  by (induction xs arbitrary: i) (auto simp: nth_Cons dest: nth_mem split: nat.splits)

definition swap_at :: "nat \<Rightarrow> nat \<Rightarrow> 'a list \<Rightarrow> 'a list" where
  \<comment> \<open>\<open>[xs[i], xs[j]] = [xs[j], xs[i]]\<close>\<close>
  "swap_at i j xs = xs[i := xs ! j, j := xs ! i]"

lemma length_swap_at [simp]: "length (swap_at i j xs) = length xs"
  by (simp add: swap_at_def)

lemma swap_at_twice: "i < length xs \<Longrightarrow> j < length xs \<Longrightarrow> swap_at j i (swap_at i j xs) = xs"
  unfolding swap_at_def by (rule nth_equalityI) (auto simp: nth_list_update)

lemma mset_swap_at: "i < length xs \<Longrightarrow> j < length xs \<Longrightarrow> mset (swap_at i j xs) = mset xs"
  unfolding swap_at_def by (rule mset_swap)

lemma map_swap_at: "i < length xs \<Longrightarrow> j < length xs \<Longrightarrow> map f (swap_at i j xs) = swap_at i j (map f xs)"
  by (simp add: swap_at_def map_update)

locale neighbour_mover =
  fixes key :: "'a \<Rightarrow> jstring" and move :: "'a list \<Rightarrow> jstring \<Rightarrow> int \<Rightarrow> 'a list"
  assumes move_inside: "index_by key k xs = Some i \<Longrightarrow> 0 \<le> int i + d \<Longrightarrow> int i + d < int (length xs) \<Longrightarrow>
      move xs k d = swap_at i (nat (int i + d)) xs"
    and move_outside: "(\<forall>i. index_by key k xs = Some i \<longrightarrow> \<not> (0 \<le> int i + d \<and> int i + d < int (length xs))) \<Longrightarrow> move xs k d = xs"
begin

lemma move_cases:
  obtains (same) "move xs k d = xs"
  | (swapped) i where "index_by key k xs = Some i" "i < length xs" "0 \<le> int i + d" "nat (int i + d) < length xs"
      "move xs k d = swap_at i (nat (int i + d)) xs"
proof (cases "\<exists>i. index_by key k xs = Some i \<and> 0 \<le> int i + d \<and> int i + d < int (length xs)")
  case True
  then obtain i where i: "index_by key k xs = Some i" "0 \<le> int i + d" "int i + d < int (length xs)" by blast
  from index_by_Some [OF i(1)] i(2,3) move_inside [OF i] swapped [OF i(1)] show ?thesis by simp
next
  case False
  then show ?thesis using move_outside same by blast
qed

text \<open>No entry is lost or doubled by any sequence of moves.\<close>

lemma move_mset: "mset (move xs k d) = mset xs"
  by (cases rule: move_cases [of xs k d]) (simp_all add: mset_swap_at)

fun moves :: "(jstring \<times> int) list \<Rightarrow> 'a list \<Rightarrow> 'a list" where
  "moves [] xs = xs"
| "moves ((k, d) # ms) xs = moves ms (move xs k d)"

lemma moves_mset: "mset (moves ms xs) = mset xs"
  by (induction ms xs rule: moves.induct) (simp_all add: move_mset)

lemma moves_distinct: "distinct (map key xs) \<Longrightarrow> distinct (map key (moves ms xs))"
  by (metis mset_eq_imp_distinct_iff mset_map moves_mset)

text \<open>Moving back undoes a move that took place.\<close>

lemma move_back:
  assumes d: "distinct (map key xs)" and changed: "move xs k d \<noteq> xs"
  shows "move (move xs k d) k (- d) = xs"
proof (cases rule: move_cases [of xs k d])
  case same
  with changed show ?thesis by simp
next
  case (swapped i)
  let ?j = "nat (int i + d)"
  have "key (swap_at i ?j xs ! ?j) = k"
    using index_by_Some [OF swapped(1)] swapped(2,4) by (auto simp: swap_at_def nth_list_update)
  moreover have "distinct (map key (swap_at i ?j xs))"
    using d mset_swap_at [OF swapped(2,4)] by (metis mset_eq_imp_distinct_iff mset_map)
  ultimately have "index_by key k (swap_at i ?j xs) = Some ?j"
    using index_by_distinct [of key "swap_at i ?j xs" ?j] swapped(4) by simp
  then have "move (swap_at i ?j xs) k (- d) = swap_at ?j (nat (int ?j + - d)) (swap_at i ?j xs)"
    using swapped(2,3) by (intro move_inside) auto
  moreover have "nat (int ?j + - d) = i" using swapped(3) by simp
  ultimately show ?thesis using swapped(2,4,5) by (simp add: swap_at_twice)
qed

end

end
