(* ===== verification/Auth_Session.thy ===== *)
theory Auth_Session
  imports Interfaces
begin

text \<open>
  The session layer of the mobile client (\<open>frontend/mobile-app/auth-session.js\<close>): the JSON
  request helper, the controller that numbers login attempts by a generation counter, and
  the adapter that guards every response by the session in which it was asked for.
  An \<open>async\<close> function is cut at its \<open>await\<close>s: each piece between two of them runs without
  interruption and is one definition; what runs in between is left to the step relation at
  the end, in which the pieces of any number of logins, requests and logouts interleave.
\<close>

section \<open>Requests\<close>

definition company_email_domain :: jstring where
  "company_email_domain = lit ''moaworks.sinsan.kr''"

definition session_invalidation_statuses :: "nat list" where
  "session_invalidation_statuses = [401, 403]"

definition normalizeLoginIdentifier :: "js_env \<Rightarrow> jsval \<Rightarrow> jstring" where
  "normalizeLoginIdentifier E v =
     (let identifier = js_trim (js_string E (js_or v (JStr [])))
      in if identifier = [] \<or> js_includes identifier (lit ''@'') then identifier
         else identifier @ lit ''@'' @ company_email_domain)"

text \<open>
  The texts shown to the user: the two session messages, the fallback text, a text sent by
  the server, a text given by the caller, and the text of an exception raised by the
  platform (a network failure, a TypeError).
\<close>

datatype err_text =
    SessionForbidden
  | SessionExpired
  | RequestFailed
  | ServerText jsval
  | PlainText jstring
  | NativeText

definition sessionMessageFor :: "nat \<Rightarrow> err_text" where
  "sessionMessageFor status = (if status = 403 then SessionForbidden else SessionExpired)"

record req_error =
  err_message :: err_text
  err_status :: "nat option"
  err_detail :: jsval
  err_invalidated :: bool

definition native_error :: req_error where
  \<comment> \<open>raised by the platform: it carries none of the fields the helper adds\<close>
  "native_error = \<lparr>err_message = NativeText, err_status = None, err_detail = JUndef,
     err_invalidated = False\<rparr>"

definition isSessionInvalidatedError :: "req_error option \<Rightarrow> bool" where
  "isSessionInvalidatedError e = (case e of None \<Rightarrow> False | Some x \<Rightarrow> err_invalidated x)"

record request_init =
  init_method :: "jstring option"
  init_headers :: "(jstring \<times> jstring) list"
  init_body :: "jstring option"

definition merge_headers :: "(jstring \<times> jstring) list \<Rightarrow> (jstring \<times> jstring) list \<Rightarrow> (jstring \<times> jstring) list" where
  \<comment> \<open>\<open>{...a, ...b}\<close>: a key of \<open>b\<close> replaces the value of \<open>a\<close>\<close>
  "merge_headers a b = filter (\<lambda>(k, v). map_of b k = None) a @ b"

definition request_descriptor :: "jstring \<Rightarrow> jstring \<Rightarrow> request_init \<Rightarrow> jstring \<times> request_init" where
  "request_descriptor apiBase path i =
     (apiBase @ path,
      i\<lparr>init_headers := merge_headers [(lit ''Content-Type'', lit ''application/json'')] (init_headers i)\<rparr>)"

record http_response =
  resp_ok :: bool
  resp_status :: nat
  resp_raw :: jstring

datatype fetch_outcome = Rejected | Responded http_response

definition response_data :: "js_env \<Rightarrow> http_response \<Rightarrow> jsval" where
  "response_data E r =
     (if resp_raw r = [] then JObj []
      else case env_parse E (resp_raw r) of None \<Rightarrow> JObj [] | Some d \<Rightarrow> d)"

definition failure_text :: "jsval \<Rightarrow> jsval \<Rightarrow> err_text" where
  "failure_text detail data =
     (let u = js_or (js_opt detail (lit ''userMessage'')) (own_prop data (lit ''userMessage''))
      in if truthy u then ServerText u else RequestFailed)"

definition requestJson :: "js_env \<Rightarrow> bool \<Rightarrow> fetch_outcome \<Rightarrow> req_error + jsval" where
  "requestJson E invalidateSessionOnAuthFailure outcome =
     (case outcome of Rejected \<Rightarrow> Inl native_error
      | Responded r \<Rightarrow>
          (let data = response_data E r
           in if \<not> resp_ok r then
                (let sessionInvalidated = (invalidateSessionOnAuthFailure
                       \<and> resp_status r \<in> set session_invalidation_statuses)
                 in case js_get data (lit ''detail'') of
                      None \<Rightarrow> Inl native_error
                    | Some detail \<Rightarrow>
                        Inl \<lparr>err_message = (if sessionInvalidated then sessionMessageFor (resp_status r)
                                            else failure_text detail data),
                             err_status = Some (resp_status r), err_detail = detail,
                             err_invalidated = sessionInvalidated\<rparr>)
              else Inr data))"

lemma requestJson_invalidated:
  "requestJson E flag out = Inl e \<Longrightarrow> err_invalidated e \<Longrightarrow>
     flag \<and> (\<exists>r. out = Responded r \<and> \<not> resp_ok r \<and> resp_status r \<in> {401, 403}
       \<and> response_data E r \<noteq> JNull \<and> err_message e = sessionMessageFor (resp_status r))"
  by (auto simp: requestJson_def Let_def native_error_def session_invalidation_statuses_def
        js_get_def nullish_def split: fetch_outcome.splits if_splits option.splits)

section \<open>The controller\<close>

text \<open>
  The variables of \<open>createAuthSessionController\<close>, and the calls it made to its two
  callbacks: \<open>committed\<close> (generation, token, user) and \<open>cleared\<close> (message), latest last.
  A token is whatever the server sent in \<open>accessToken\<close>; no token is the empty string.
\<close>

record session_context =
  ctx_generation :: nat
  ctx_token :: jsval

record auth_state =
  generation :: nat
  activeToken :: jsval
  committed :: "(nat \<times> jsval \<times> jsval) list"
  cleared :: "err_text list"

type_synonym attempt = nat

definition createAuthSessionController :: auth_state where
  "createAuthSessionController = \<lparr>generation = 0, activeToken = JStr [], committed = [], cleared = []\<rparr>"

definition beginLogin :: "auth_state \<Rightarrow> attempt \<times> auth_state" where
  "beginLogin s = (Suc (generation s), s\<lparr>generation := Suc (generation s), activeToken := JStr []\<rparr>)"

definition isAttemptCurrent :: "auth_state \<Rightarrow> attempt option \<Rightarrow> bool" where
  "isAttemptCurrent s a = (case a of None \<Rightarrow> False | Some g \<Rightarrow> g = generation s)"

definition commitLogin :: "auth_state \<Rightarrow> attempt option \<Rightarrow> jsval \<Rightarrow> jsval \<Rightarrow> session_context option \<times> auth_state" where
  "commitLogin s a token user =
     (if \<not> isAttemptCurrent s a then (None, s)
      else (Some \<lparr>ctx_generation = generation s, ctx_token = token\<rparr>,
            s\<lparr>activeToken := token, committed := committed s @ [(generation s, token, user)]\<rparr>))"

definition capture :: "auth_state \<Rightarrow> jsval option \<Rightarrow> session_context" where
  \<comment> \<open>the parameter defaults to the active token\<close>
  "capture s token =
     \<lparr>ctx_generation = generation s, ctx_token = (case token of None \<Rightarrow> activeToken s | Some t \<Rightarrow> t)\<rparr>"

definition isCurrent :: "auth_state \<Rightarrow> session_context option \<Rightarrow> bool" where
  "isCurrent s c = (case c of None \<Rightarrow> False
     | Some x \<Rightarrow> ctx_generation x = generation s \<and> ctx_token x = activeToken s)"

definition logout :: "auth_state \<Rightarrow> err_text \<Rightarrow> auth_state" where
  "logout s message = s\<lparr>generation := Suc (generation s), activeToken := JStr [],
     cleared := cleared s @ [message]\<rparr>"

definition clearAttemptIfCurrent :: "auth_state \<Rightarrow> attempt option \<Rightarrow> err_text \<Rightarrow> bool \<times> auth_state" where
  "clearAttemptIfCurrent s a message =
     (if \<not> isAttemptCurrent s a then (False, s) else (True, logout s message))"

definition clearSessionIfCurrent :: "auth_state \<Rightarrow> session_context option \<Rightarrow> err_text \<Rightarrow> bool \<times> auth_state" where
  "clearSessionIfCurrent s c message =
     (if \<not> isCurrent s c then (False, s) else (True, logout s message))"

text \<open>\<open>requestForSession\<close> and \<open>requestForAttempt\<close>, once the response is there: the result and the flag \<open>sessionCleared\<close>.\<close>

definition requestForSession ::
  "js_env \<Rightarrow> auth_state \<Rightarrow> session_context option \<Rightarrow> fetch_outcome \<Rightarrow> (req_error \<times> bool + jsval) \<times> auth_state" where
  "requestForSession E s c out =
     (case requestJson E True out of
        Inr data \<Rightarrow> (Inr data, s)
      | Inl e \<Rightarrow>
          if isSessionInvalidatedError (Some e)
          then (let (cl, s') = clearSessionIfCurrent s c (err_message e) in (Inl (e, cl), s'))
          else (Inl (e, False), s))"

definition requestForAttempt ::
  "js_env \<Rightarrow> auth_state \<Rightarrow> attempt option \<Rightarrow> fetch_outcome \<Rightarrow> (req_error \<times> bool + jsval) \<times> auth_state" where
  "requestForAttempt E s a out =
     (case requestJson E True out of
        Inr data \<Rightarrow> (Inr data, s)
      | Inl e \<Rightarrow>
          if isSessionInvalidatedError (Some e)
          then (let (cl, s') = clearAttemptIfCurrent s a (err_message e) in (Inl (e, cl), s'))
          else (Inl (e, False), s))"

text \<open>
  A call of \<open>login\<close> and where it is suspended: at the login request, at the profile request
  (with the body of the login response), after the profile request settled in
  \<open>requestForAttempt\<close> but before \<open>login\<close> itself resumes, or finished.
\<close>

datatype login_result =
    NotCommitted
  | CommittedAs session_context jsval jsval
  | Raised req_error "attempt option"

datatype login_phase =
    AwaitLogin attempt
  | AwaitMe attempt jsval
  | MeSettled attempt jsval "req_error \<times> bool + jsval"
  | Finished login_result

definition login_payload :: "js_env \<Rightarrow> jsval \<Rightarrow> jsval \<Rightarrow> jsval" where
  "login_payload E identifier password =
     JObj [(lit ''email'', JStr (normalizeLoginIdentifier E identifier)), (lit ''password'', password)]"

definition login_start :: "auth_state \<Rightarrow> login_phase \<times> auth_state" where
  "login_start s = (let (a, s') = beginLogin s in (AwaitLogin a, s'))"

definition login_receive :: "js_env \<Rightarrow> auth_state \<Rightarrow> attempt \<Rightarrow> fetch_outcome \<Rightarrow> login_phase" where
  "login_receive E s a out =
     (case requestJson E False out of
        Inl e \<Rightarrow> if \<not> isAttemptCurrent s (Some a) then Finished NotCommitted
                 else Finished (Raised e (Some a))
      | Inr body \<Rightarrow>
          if \<not> isAttemptCurrent s (Some a) then Finished NotCommitted
          else (case js_get body (lit ''accessToken'') of
                  None \<Rightarrow> Finished (Raised native_error (Some a))
                | Some token \<Rightarrow> AwaitMe a body))"

definition me_receive ::
  "js_env \<Rightarrow> auth_state \<Rightarrow> attempt \<Rightarrow> jsval \<Rightarrow> fetch_outcome \<Rightarrow> login_phase \<times> auth_state" where
  "me_receive E s a body out =
     (let (r, s') = requestForAttempt E s (Some a) out in (MeSettled a body r, s'))"

definition login_resume ::
  "auth_state \<Rightarrow> attempt \<Rightarrow> jsval \<Rightarrow> (req_error \<times> bool + jsval) \<Rightarrow> login_phase \<times> auth_state" where
  "login_resume s a body r =
     (case r of
        Inl (e, sessionCleared) \<Rightarrow>
          if \<not> sessionCleared \<and> \<not> isAttemptCurrent s (Some a) then (Finished NotCommitted, s)
          else (Finished (Raised e (Some a)), s)
      | Inr me \<Rightarrow>
          if \<not> isAttemptCurrent s (Some a) then (Finished NotCommitted, s)
          else (case (js_get body (lit ''accessToken''), js_get me (lit ''user'')) of
                  (Some token, Some user) \<Rightarrow>
                    (case commitLogin s (Some a) token user of
                       (Some c, s') \<Rightarrow> (Finished (CommittedAs c body me), s')
                     | (None, s') \<Rightarrow> (Finished NotCommitted, s'))
                | _ \<Rightarrow> (Finished (Raised native_error None), s)))"

section \<open>The adapter\<close>

definition createClearedMobileSessionState :: "err_text \<Rightarrow> (jstring \<times> jsval) list \<times> err_text" where
  "createClearedMobileSessionState message =
    ([(lit ''token'', JStr []), (lit ''user'', JNull), (lit ''password'', JStr []),
      (lit ''documents'', JArr []),
      (lit ''createForm'', JObj [(lit ''title'', JStr []), (lit ''content'', JStr []), (lit ''approverUserIds'', JStr [])]),
      (lit ''notifications'', JArr []), (lit ''notificationSummary'', JNull), (lit ''notificationError'', JStr []),
      (lit ''activeTab'', JStr (lit ''home'')),
      (lit ''mailItems'', JArr []), (lit ''selectedMailId'', JStr []), (lit ''selectedMailDetail'', JNull),
      (lit ''mailError'', JStr []), (lit ''mailQuery'', JStr []), (lit ''mailFilter'', JStr (lit ''all'')),
      (lit ''rooms'', JArr []), (lit ''selectedRoomId'', JStr []), (lit ''roomMessages'', JArr []),
      (lit ''chatDraft'', JStr []), (lit ''chatError'', JStr []), (lit ''chatTranslationPending'', JBool False),
      (lit ''files'', JArr []), (lit ''fileError'', JStr []),
      (lit ''calendars'', JArr []), (lit ''schedules'', JArr []), (lit ''scheduleError'', JStr []),
      (lit ''scheduleForm'', JObj [(lit ''title'', JStr []), (lit ''startsAt'', JStr []), (lit ''endsAt'', JStr []),
         (lit ''description'', JStr []), (lit ''location'', JStr [])]),
      (lit ''directoryUsers'', JArr []), (lit ''directoryQuery'', JStr []), (lit ''directoryError'', JStr []),
      (lit ''directoryBusyUserId'', JStr []),
      (lit ''businessSearchQuery'', JStr []), (lit ''businessSearchSelectedResultId'', JStr []),
      (lit ''businessSearchWarnings'', JArr []),
      (lit ''actionReason'', JStr [54869, 51064]),
      (lit ''personalAiProviders'', JArr []), (lit ''llmProvider'', JStr (lit ''openai'')), (lit ''llmModel'', JStr []),
      (lit ''llmModels'', JArr []), (lit ''llmConfigSource'', JStr (lit ''unconfigured'')), (lit ''llmApiKey'', JStr []),
      (lit ''llmApiKeyConfigured'', JBool False), (lit ''llmConnectionStatus'', JStr (lit ''unconfigured'')),
      (lit ''personalAiTestReady'', JBool False), (lit ''personalAiConfigDirty'', JBool False),
      (lit ''llmLastTestedAt'', JNull), (lit ''personalAiError'', JStr []), (lit ''personalAiPendingAction'', JStr []),
      (lit ''aiDraft'', JStr []), (lit ''aiMessages'', JArr [])],
     message)"

definition onSessionReset_calls :: "auth_state \<Rightarrow> ((jstring \<times> jsval) list \<times> err_text) list" where
  \<comment> \<open>\<open>createMobileSessionAdapter\<close> hands every \<open>onSessionCleared(message)\<close> on as a reset of the whole screen state\<close>
  "onSessionReset_calls s = map createClearedMobileSessionState (cleared s)"

datatype 'v applied = NotApplied 'v | Applied 'v

definition applyProtectedResponse :: "auth_state \<Rightarrow> session_context option \<Rightarrow> 'v \<Rightarrow> ('v \<Rightarrow> 'u \<Rightarrow> 'u) \<Rightarrow> 'u \<Rightarrow> 'v applied \<times> 'u" where
  \<comment> \<open>once \<open>await operation()\<close> returned \<open>value\<close>; \<open>apply\<close> acts on the screen state\<close>
  "applyProtectedResponse s c value apply u =
     (if \<not> isCurrent s c then (NotApplied value, u) else (Applied value, apply value u))"

datatype initial_result = InitialApplied bool | InitialRaised "req_error \<times> session_context option"

fun runInitialRequests :: "session_context option \<Rightarrow> (auth_state \<Rightarrow> (req_error + unit) \<times> auth_state) list \<Rightarrow>
    auth_state \<Rightarrow> initial_result \<times> auth_state" where
  \<comment> \<open>a task maps the controller state at its start to that at its end, whatever ran meanwhile included\<close>
  "runInitialRequests c [] s = (InitialApplied True, s)"
| "runInitialRequests c (task # tasks) s =
     (case task s of
        (Inl e, s') \<Rightarrow>
          if \<not> isCurrent s' c then (InitialApplied False, s') else (InitialRaised (e, c), s')
      | (Inr _, s') \<Rightarrow>
          if \<not> isCurrent s' c then (InitialApplied False, s') else runInitialRequests c tasks s')"

section \<open>Interleaved runs\<close>

text \<open>
  The mobile client at work: the controller, every \<open>login\<close> call ever made with the point it
  has reached, and the responses that \<open>applyProtectedResponse\<close> let through, each with the
  generation and token of that moment. A step is one uninterrupted piece: of any login, of a
  request made with any context whatsoever, or a logout.
\<close>

record world =
  ctl :: auth_state
  logins :: "login_phase list"
  applied_log :: "(session_context \<times> nat \<times> jsval) list"

definition init_world :: world where
  "init_world = \<lparr>ctl = createAuthSessionController, logins = [], applied_log = []\<rparr>"

definition set_login :: "world \<Rightarrow> nat \<Rightarrow> login_phase \<times> auth_state \<Rightarrow> world" where
  "set_login w i r = w\<lparr>ctl := snd r, logins := (logins w)[i := fst r]\<rparr>"

inductive auth_step :: "js_env \<Rightarrow> world \<Rightarrow> world \<Rightarrow> bool" for E where
  start_login: "auth_step E w (w\<lparr>ctl := snd (login_start (ctl w)),
      logins := logins w @ [fst (login_start (ctl w))]\<rparr>)"
| login_response: "i < length (logins w) \<Longrightarrow> logins w ! i = AwaitLogin a \<Longrightarrow>
    auth_step E w (set_login w i (login_receive E (ctl w) a out, ctl w))"
| me_response: "i < length (logins w) \<Longrightarrow> logins w ! i = AwaitMe a body \<Longrightarrow>
    auth_step E w (set_login w i (me_receive E (ctl w) a body out))"
| resume_login: "i < length (logins w) \<Longrightarrow> logins w ! i = MeSettled a body r \<Longrightarrow>
    auth_step E w (set_login w i (login_resume (ctl w) a body r))"
| session_response: "auth_step E w (w\<lparr>ctl := snd (requestForSession E (ctl w) c out)\<rparr>)"
| apply_response: "isCurrent (ctl w) (Some c) \<Longrightarrow>
    auth_step E w (w\<lparr>applied_log := applied_log w @ [(c, generation (ctl w), activeToken (ctl w))]\<rparr>)"
| sign_out: "auth_step E w (w\<lparr>ctl := logout (ctl w) message\<rparr>)"

inductive_cases auth_step_cases [consumes 1]: "auth_step E w w'"

lemmas auth_ops = beginLogin_def isAttemptCurrent_def commitLogin_def isCurrent_def logout_def
  clearAttemptIfCurrent_def clearSessionIfCurrent_def login_start_def Let_def

lemma requestForSession_state:
  "snd (requestForSession E s c out) = s \<or>
   (isCurrent s c \<and> (\<exists>m. snd (requestForSession E s c out) = logout s m))"
  by (auto simp: requestForSession_def clearSessionIfCurrent_def Let_def split: sum.splits)

lemma requestForAttempt_state:
  "snd (requestForAttempt E s a out) = s \<or>
   (isAttemptCurrent s a \<and> (\<exists>m. snd (requestForAttempt E s a out) = logout s m))"
  by (auto simp: requestForAttempt_def clearAttemptIfCurrent_def Let_def split: sum.splits)

lemma me_receive_phase: "\<exists>r. fst (me_receive E s a body out) = MeSettled a body r"
  by (simp add: me_receive_def split: prod.splits)

lemma me_receive_state:
  "snd (me_receive E s a body out) = s \<or>
   (isAttemptCurrent s (Some a) \<and> (\<exists>m. snd (me_receive E s a body out) = logout s m))"
  using requestForAttempt_state [of E s "Some a" out]
  by (auto simp: me_receive_def split: prod.splits)

lemma login_resume_cases:
  "(\<exists>res. login_resume s a body r = (Finished res, s) \<and> (\<forall>c b m. res \<noteq> CommittedAs c b m)) \<or>
   (\<exists>token user c me. a = generation s \<and> c = \<lparr>ctx_generation = a, ctx_token = token\<rparr>
      \<and> login_resume s a body r = (Finished (CommittedAs c body me),
          s\<lparr>activeToken := token, committed := committed s @ [(a, token, user)]\<rparr>))"
  by (auto simp: login_resume_def auth_ops split: sum.splits option.splits prod.splits)

fun pending :: "login_phase \<Rightarrow> attempt option" where
  "pending (AwaitLogin a) = Some a"
| "pending (AwaitMe a body) = Some a"
| "pending (MeSettled a body r) = Some a"
| "pending (Finished res) = None"

lemma login_receive_pending:
  "pending (login_receive E s a out) = Some a \<or> pending (login_receive E s a out) = None"
  by (auto simp: login_receive_def split: sum.splits option.splits)

lemma login_receive_not_committed: "login_receive E s a out \<noteq> Finished (CommittedAs c b m)"
  by (auto simp: login_receive_def split: sum.splits option.splits if_splits)

text \<open>
  The invariant: attempts and commits are numbered by generations already passed, no two
  unfinished logins share an attempt, no attempt commits twice, and the token in use is the
  one committed in the current generation.
\<close>

definition auth_inv :: "world \<Rightarrow> bool" where
  "auth_inv w \<longleftrightarrow>
     (\<forall>g t u. (g, t, u) \<in> set (committed (ctl w)) \<longrightarrow> g \<le> generation (ctl w))
   \<and> distinct (map fst (committed (ctl w)))
   \<and> (\<forall>i a. i < length (logins w) \<longrightarrow> pending (logins w ! i) = Some a \<longrightarrow>
        a \<le> generation (ctl w) \<and> (\<forall>t u. (a, t, u) \<notin> set (committed (ctl w))))
   \<and> (\<forall>i j a. i < length (logins w) \<longrightarrow> pending (logins w ! i) = Some a \<longrightarrow>
        j < length (logins w) \<longrightarrow> pending (logins w ! j) = Some a \<longrightarrow> j = i)
   \<and> (activeToken (ctl w) \<noteq> JStr [] \<longrightarrow>
        (\<exists>u. (generation (ctl w), activeToken (ctl w), u) \<in> set (committed (ctl w))))
   \<and> (\<forall>t u. (generation (ctl w), t, u) \<in> set (committed (ctl w)) \<longrightarrow> t = activeToken (ctl w))"

lemma auth_invD:
  assumes "auth_inv w"
  shows "\<And>g t u. (g, t, u) \<in> set (committed (ctl w)) \<Longrightarrow> g \<le> generation (ctl w)"
    and "distinct (map fst (committed (ctl w)))"
    and "\<And>i a. i < length (logins w) \<Longrightarrow> pending (logins w ! i) = Some a \<Longrightarrow> a \<le> generation (ctl w)"
    and "\<And>i j a. i < length (logins w) \<Longrightarrow> pending (logins w ! i) = Some a \<Longrightarrow>
           j < length (logins w) \<Longrightarrow> pending (logins w ! j) = Some a \<Longrightarrow> j = i"
    and "activeToken (ctl w) \<noteq> JStr [] \<Longrightarrow>
           \<exists>u. (generation (ctl w), activeToken (ctl w), u) \<in> set (committed (ctl w))"
    and "\<And>t u. (generation (ctl w), t, u) \<in> set (committed (ctl w)) \<Longrightarrow> t = activeToken (ctl w)"
    and "\<And>i a t u. i < length (logins w) \<Longrightarrow> pending (logins w ! i) = Some a \<Longrightarrow>
           (a, t, u) \<notin> set (committed (ctl w))"
proof -
  note c1 = assms [unfolded auth_inv_def]
  note c2 = c1 [THEN conjunct2] note c3 = c2 [THEN conjunct2] note c4 = c3 [THEN conjunct2]
  note c5 = c4 [THEN conjunct2] note c6 = c5 [THEN conjunct2]
  show "\<And>g t u. (g, t, u) \<in> set (committed (ctl w)) \<Longrightarrow> g \<le> generation (ctl w)"
    using c1 [THEN conjunct1] by blast
  show "distinct (map fst (committed (ctl w)))" by (rule c2 [THEN conjunct1])
  show "\<And>i a. i < length (logins w) \<Longrightarrow> pending (logins w ! i) = Some a \<Longrightarrow> a \<le> generation (ctl w)"
    and "\<And>i a t u. i < length (logins w) \<Longrightarrow> pending (logins w ! i) = Some a \<Longrightarrow>
           (a, t, u) \<notin> set (committed (ctl w))"
    using c3 [THEN conjunct1] by blast+
  show "\<And>i j a. i < length (logins w) \<Longrightarrow> pending (logins w ! i) = Some a \<Longrightarrow>
           j < length (logins w) \<Longrightarrow> pending (logins w ! j) = Some a \<Longrightarrow> j = i"
    using c4 [THEN conjunct1] by blast
  show "activeToken (ctl w) \<noteq> JStr [] \<Longrightarrow>
           \<exists>u. (generation (ctl w), activeToken (ctl w), u) \<in> set (committed (ctl w))"
    using c5 [THEN conjunct1] by blast
  show "\<And>t u. (generation (ctl w), t, u) \<in> set (committed (ctl w)) \<Longrightarrow> t = activeToken (ctl w)"
    using c6 by blast
qed

lemma auth_invI:
  assumes "\<And>g t u. (g, t, u) \<in> set (committed (ctl w)) \<Longrightarrow> g \<le> generation (ctl w)"
    and "distinct (map fst (committed (ctl w)))"
    and "\<And>i a. i < length (logins w) \<Longrightarrow> pending (logins w ! i) = Some a \<Longrightarrow>
           a \<le> generation (ctl w) \<and> (\<forall>t u. (a, t, u) \<notin> set (committed (ctl w)))"
    and "\<And>i j a. i < length (logins w) \<Longrightarrow> pending (logins w ! i) = Some a \<Longrightarrow>
           j < length (logins w) \<Longrightarrow> pending (logins w ! j) = Some a \<Longrightarrow> j = i"
    and "activeToken (ctl w) \<noteq> JStr [] \<Longrightarrow>
           \<exists>u. (generation (ctl w), activeToken (ctl w), u) \<in> set (committed (ctl w))"
    and "\<And>t u. (generation (ctl w), t, u) \<in> set (committed (ctl w)) \<Longrightarrow> t = activeToken (ctl w)"
  shows "auth_inv w"
  unfolding auth_inv_def
  by (intro conjI allI impI; (elim assms(1) assms(3) assms(4) assms(6) | use assms(2) in assumption
        | use assms(5) in blast | use assms(3) in blast))

lemma auth_inv_init: "auth_inv init_world"
  by (simp add: auth_inv_def init_world_def createAuthSessionController_def)

lemma no_commit_ahead: "auth_inv w \<Longrightarrow> (Suc (generation (ctl w)), t, u) \<notin> set (committed (ctl w))"
  by (auto dest: auth_invD(1))

lemma pending_not_committed:
  "auth_inv w \<Longrightarrow> i < length (logins w) \<Longrightarrow> pending (logins w ! i) = Some a \<Longrightarrow>
     (a, t, u) \<notin> set (committed (ctl w))"
  by (rule auth_invD(7))

lemma auth_inv_logout:
  assumes "auth_inv w"
  shows "auth_inv (w\<lparr>ctl := logout (ctl w) m\<rparr>)"
proof (rule auth_invI, goal_cases)
  case (1 g t u)
  then show ?case using auth_invD(1) [OF assms] by (auto simp: logout_def le_SucI)
next
  case 2
  then show ?case using auth_invD(2) [OF assms] by (simp add: logout_def)
next
  case (3 i a)
  then show ?case using auth_invD(3) [OF assms, of i a] pending_not_committed [OF assms, of i a]
    by (simp add: logout_def le_SucI)
next
  case (4 i j a)
  then show ?case using auth_invD(4) [OF assms, of i a j] by simp
next
  case 5
  then show ?case by (simp add: logout_def)
next
  case (6 t u)
  then show ?case using no_commit_ahead [OF assms] by (simp add: logout_def)
qed

lemma auth_inv_begin:
  assumes "auth_inv w"
  shows "auth_inv (w\<lparr>ctl := snd (login_start (ctl w)), logins := logins w @ [fst (login_start (ctl w))]\<rparr>)"
proof -
  have old: "a \<le> generation (ctl w)" if "i < length (logins w)" "pending (logins w ! i) = Some a" for i a
    using auth_invD(3) [OF assms that] by simp
  show ?thesis
  proof (rule auth_invI, goal_cases)
    case (1 g t u)
    then show ?case using auth_invD(1) [OF assms] by (auto simp: login_start_def beginLogin_def le_SucI)
  next
    case 2
    then show ?case using auth_invD(2) [OF assms] by (simp add: login_start_def beginLogin_def)
  next
    case (3 i a)
    then show ?case
      using old [of i a] pending_not_committed [OF assms, of i a] no_commit_ahead [OF assms]
      by (cases "i < length (logins w)") (auto simp: login_start_def beginLogin_def nth_append)
  next
    case (4 i j a)
    then show ?case using auth_invD(4) [OF assms, of i a j] old [of i a] old [of j a]
      by (cases "i < length (logins w)"; cases "j < length (logins w)")
        (auto simp: login_start_def beginLogin_def nth_append)
  next
    case 5
    then show ?case by (simp add: login_start_def beginLogin_def)
  next
    case (6 t u)
    then show ?case using no_commit_ahead [OF assms] by (simp add: login_start_def beginLogin_def)
  qed
qed

lemma auth_inv_phase:
  assumes "auth_inv w" and "i < length (logins w)"
    and "pending p = None \<or> pending p = pending (logins w ! i)"
  shows "auth_inv (w\<lparr>logins := (logins w)[i := p]\<rparr>)"
proof -
  have sub: "pending (logins w ! j) = Some a"
    if "pending ((logins w)[i := p] ! j) = Some a" "j < length (logins w)" for j a
    using that assms(2,3) by (cases "j = i") auto
  show ?thesis
  proof (rule auth_invI, goal_cases)
    case (3 j a)
    from sub [of j a] 3 have "pending (logins w ! j) = Some a" by simp
    with 3 show ?case using auth_invD(3,7) [OF assms(1), of j a] by simp
  next
    case (4 j k a)
    with sub [of j a] sub [of k a] show ?case using auth_invD(4) [OF assms(1), of j a k] by simp
  next
    case (1 g t u) then show ?case using auth_invD(1) [OF assms(1)] by simp
  next
    case 2 then show ?case using auth_invD(2) [OF assms(1)] by simp
  next
    case 5 then show ?case using auth_invD(5) [OF assms(1)] by simp
  next
    case (6 t u) then show ?case using auth_invD(6) [OF assms(1)] by simp
  qed
qed

lemma auth_inv_commit:
  assumes inv: "auth_inv w" and i: "i < length (logins w)"
    and pa: "pending (logins w ! i) = Some a" and cur: "a = generation (ctl w)"
  shows "auth_inv (w\<lparr>ctl := (ctl w)\<lparr>activeToken := t, committed := committed (ctl w) @ [(a, t, u)]\<rparr>,
     logins := (logins w)[i := Finished res]\<rparr>)"
proof -
  have new: "(a, t', u') \<notin> set (committed (ctl w))" for t' u'
    using pending_not_committed [OF inv i pa] .
  have other: "j \<noteq> i \<and> b \<noteq> a \<and> pending (logins w ! j) = Some b"
    if "pending ((logins w)[i := Finished res] ! j) = Some b" "j < length (logins w)" for j b
  proof -
    from that(1) i have ji: "j \<noteq> i" by auto
    with that(1) have pj: "pending (logins w ! j) = Some b" by simp
    with ji show ?thesis using auth_invD(4) [OF inv i pa that(2)] by blast
  qed
  show ?thesis
  proof (rule auth_invI, goal_cases)
    case (1 g t' u')
    then show ?case using auth_invD(1) [OF inv] cur by auto
  next
    case 2
    have "a \<notin> fst ` set (committed (ctl w))" using new by (auto simp: image_iff)
    then show ?case using auth_invD(2) [OF inv] by simp
  next
    case (3 j b)
    then show ?case
      using other [of j b] auth_invD(3) [OF inv, of j b] pending_not_committed [OF inv, of j b]
      by simp
  next
    case (4 j k b)
    then show ?case using other [of j b] other [of k b] auth_invD(4) [OF inv, of j b k] by simp
  next
    case 5
    then show ?case using cur by auto
  next
    case (6 t' u')
    then show ?case using new cur by auto
  qed
qed

lemma auth_inv_applied: "auth_inv (w\<lparr>applied_log := l\<rparr>) = auth_inv w"
  by (cases w) (simp only: auth_inv_def world.simps)

lemma auth_step_inv: "auth_step E w w' \<Longrightarrow> auth_inv w \<Longrightarrow> auth_inv w'"
proof (induction rule: auth_step.induct)
  case (start_login w)
  then show ?case by (rule auth_inv_begin)
next
  case (login_response i w a out)
  then show ?case using auth_inv_phase [of w i "login_receive E (ctl w) a out"]
      login_receive_pending [of E "ctl w" a out] by (auto simp: set_login_def)
next
  case (me_response i w a body out)
  obtain r where r: "fst (me_receive E (ctl w) a body out) = MeSettled a body r"
    using me_receive_phase by blast
  from me_receive_state [of E "ctl w" a body out] show ?case
  proof (elim disjE conjE exE)
    assume "snd (me_receive E (ctl w) a body out) = ctl w"
    then show ?thesis using auth_inv_phase [of w i "MeSettled a body r"] me_response r by (simp add: set_login_def)
  next
    fix m assume "snd (me_receive E (ctl w) a body out) = logout (ctl w) m"
    then show ?thesis using auth_inv_phase [OF auth_inv_logout [of w m], of i "MeSettled a body r"] me_response r
      by (simp add: set_login_def)
  qed
next
  case (resume_login i w a body r)
  from login_resume_cases [of "ctl w" a body r] show ?case
  proof (elim disjE exE conjE)
    fix res assume "login_resume (ctl w) a body r = (Finished res, ctl w)"
    then show ?thesis using resume_login auth_inv_phase [of w i "Finished res"]
      by (simp add: set_login_def)
  next
    fix token user c me
    assume "a = generation (ctl w)" and "login_resume (ctl w) a body r = (Finished (CommittedAs c body me),
          (ctl w)\<lparr>activeToken := token, committed := committed (ctl w) @ [(a, token, user)]\<rparr>)"
    then show ?thesis using resume_login auth_inv_commit [of w i a]
      by (simp add: set_login_def)
  qed
next
  case (session_response w c out)
  then show ?case using requestForSession_state [of E "ctl w" c out] auth_inv_logout [of w] by auto
next
  case (apply_response w c)
  then show ?case by (simp only: auth_inv_applied)
next
  case (sign_out w message)
  then show ?case by (simp only: auth_inv_logout)
qed

lemma auth_steps_inv: "(auth_step E)\<^sup>*\<^sup>* w w' \<Longrightarrow> auth_inv w \<Longrightarrow> auth_inv w'"
  by (induction rule: rtranclp_induct) (auto intro: auth_step_inv)

section \<open>The session guard as an epoch\<close>

lemma login_resume_state:
  "snd (login_resume s a body r) = s \<or>
   (a = generation s \<and> (\<exists>t u. snd (login_resume s a body r) =
      s\<lparr>activeToken := t, committed := committed s @ [(a, t, u)]\<rparr>))"
  using login_resume_cases [of s a body r] by (metis snd_conv)

lemma auth_step_ctl:
  "auth_step E w w' \<Longrightarrow> ctl w' = ctl w \<or> (\<exists>m. ctl w' = logout (ctl w) m)
     \<or> ctl w' = snd (beginLogin (ctl w))
     \<or> (\<exists>t u. ctl w' = (ctl w)\<lparr>activeToken := t,
            committed := committed (ctl w) @ [(generation (ctl w), t, u)]\<rparr>)"
proof (induction rule: auth_step.induct)
  case (start_login w)
  then show ?case by (simp add: login_start_def split: prod.splits)
next
  case (me_response i w a body out)
  then show ?case using me_receive_state [of E "ctl w" a body out] by (auto simp: set_login_def)
next
  case (resume_login i w a body r)
  then show ?case using login_resume_state [of "ctl w" a body r] by (auto simp: set_login_def)
next
  case (session_response w c out)
  then show ?case using requestForSession_state [of E "ctl w" c out] by auto
qed (auto simp: set_login_def)

interpretation auth_epoch: epoch_session "auth_step E" "\<lambda>w. generation (ctl w)" ctx_generation
    "\<lambda>w c. isCurrent (ctl w) (Some c)" for E
proof unfold_locales
  fix w w' assume "auth_step E w w'"
  then show "generation (ctl w) \<le> generation (ctl w')"
    using auth_step_ctl by (fastforce simp: logout_def beginLogin_def)
next
  fix w c assume "isCurrent (ctl w) (Some c)"
  then show "ctx_generation c = generation (ctl w)" by (simp add: isCurrent_def)
qed

lemma auth_step_log:
  "auth_step E w w' \<Longrightarrow> applied_log w' = applied_log w
     \<or> (\<exists>c x. isCurrent (ctl w) (Some c) \<and> applied_log w' = applied_log w @ [(c, x)])"
  by (induction rule: auth_step.induct) (auto simp: set_login_def)

lemma auth_step_committed:
  assumes "auth_step E w w'"
  shows "committed (ctl w') = committed (ctl w)
     \<or> (\<exists>t u. committed (ctl w') = committed (ctl w) @ [(generation (ctl w), t, u)])"
  using auth_step_ctl [OF assms] by (auto simp: logout_def beginLogin_def)

lemma auth_step_phase:
  assumes "auth_step E w w'" and "i < length (logins w)"
  shows "i < length (logins w') \<and>
    (logins w' ! i = logins w ! i
     \<or> (\<exists>a. pending (logins w ! i) = Some a \<and>
          (pending (logins w' ! i) = Some a
           \<or> (\<exists>res. logins w' ! i = Finished res
                \<and> (\<forall>c b m. res = CommittedAs c b m \<longrightarrow>
                      a = generation (ctl w) \<and> ctx_generation c = a
                      \<and> isCurrent (ctl w') (Some c)
                      \<and> (\<exists>u. (ctx_generation c, ctx_token c, u) \<in> set (committed (ctl w'))))))))"
  using assms
proof (induction rule: auth_step.induct)
  case (start_login w)
  then show ?case by (simp add: nth_append)
next
  case (login_response j w a out)
  then show ?case
  proof (cases "j = i")
    case True
    then show ?thesis using login_response login_receive_pending [of E "ctl w" a out]
        login_receive_not_committed [of E "ctl w" a out]
      by (cases "login_receive E (ctl w) a out") (auto simp: set_login_def)
  qed (simp add: set_login_def)
next
  case (me_response j w a body out)
  then show ?case using me_receive_phase [of E "ctl w" a body out]
    by (cases "j = i") (auto simp: set_login_def)
next
  case (resume_login j w a body r)
  then show ?case using login_resume_cases [of "ctl w" a body r]
    by (cases "j = i") (auto simp: set_login_def isCurrent_def)
qed auto

text \<open>Every finished login that reports success did commit its token.\<close>

definition finished_inv :: "world \<Rightarrow> bool" where
  "finished_inv w \<longleftrightarrow> (\<forall>i c b m. i < length (logins w) \<longrightarrow> logins w ! i = Finished (CommittedAs c b m) \<longrightarrow>
     (\<exists>u. (ctx_generation c, ctx_token c, u) \<in> set (committed (ctl w))))"

lemma finished_invD: "finished_inv w \<Longrightarrow> i < length (logins w) \<Longrightarrow> logins w ! i = Finished (CommittedAs c b m) \<Longrightarrow>
     \<exists>u. (ctx_generation c, ctx_token c, u) \<in> set (committed (ctl w))"
  unfolding finished_inv_def by blast

lemma auth_step_length: "auth_step E w w' \<Longrightarrow> length (logins w') = length (logins w)
   \<or> (length (logins w') = Suc (length (logins w)) \<and> (\<exists>a. logins w' ! length (logins w) = AwaitLogin a))"
  by (induction rule: auth_step.induct) (auto simp: set_login_def login_start_def beginLogin_def)

lemma finished_step_inv:
  assumes step: "auth_step E w w'" and inv: "finished_inv w"
  shows "finished_inv w'"
  unfolding finished_inv_def
proof (intro allI impI)
  fix i c b m assume i: "i < length (logins w')" and f: "logins w' ! i = Finished (CommittedAs c b m)"
  have mono: "set (committed (ctl w)) \<subseteq> set (committed (ctl w'))"
    using auth_step_committed [OF step] by auto
  show "\<exists>u. (ctx_generation c, ctx_token c, u) \<in> set (committed (ctl w'))"
  proof (cases "i < length (logins w)")
    case True
    from auth_step_phase [OF step True] f show ?thesis
      using finished_invD [OF inv True, of c b m] mono by (auto, metis subsetD)
  next
    case False
    with i f auth_step_length [OF step] have "i = length (logins w)" by auto
    with f auth_step_length [OF step] i show ?thesis by auto
  qed
qed

lemma reachable_invs:
  assumes "(auth_step E)\<^sup>*\<^sup>* init_world w"
  shows "auth_inv w \<and> finished_inv w"
  using assms
proof (induction rule: rtranclp_induct)
  case base
  then show ?case using auth_inv_init by (simp add: finished_inv_def init_world_def)
next
  case (step w w')
  then show ?case using auth_step_inv finished_step_inv by blast
qed

lemma superseded_run:
  assumes steps: "(auth_step E)\<^sup>*\<^sup>* w w'" and inv: "auth_inv w" and i: "i < length (logins w)"
    and pa: "pending (logins w ! i) = Some a" and old: "a < generation (ctl w)"
  shows "i < length (logins w') \<and> (pending (logins w' ! i) = Some a \<or>
           (\<exists>res. logins w' ! i = Finished res \<and> (\<forall>c b m. res \<noteq> CommittedAs c b m)))
     \<and> (\<forall>t u. (a, t, u) \<notin> set (committed (ctl w')))"
  using steps
proof (induction rule: rtranclp_induct)
  case base
  then show ?case using i pa auth_invD(7) [OF inv i pa] by simp
next
  case (step v v')
  have gen: "a < generation (ctl v)" using auth_epoch.steps_epoch [OF step.hyps(1)] old by simp
  have "(a, t, u) \<notin> set (committed (ctl v'))" for t u
    using auth_step_committed [OF step.hyps(2)] step.IH gen by auto
  moreover have "i < length (logins v') \<and> (pending (logins v' ! i) = Some a \<or>
           (\<exists>res. logins v' ! i = Finished res \<and> (\<forall>c b m. res \<noteq> CommittedAs c b m)))"
    using auth_step_phase [OF step.hyps(2), of i] step.IH gen by auto
  ultimately show ?case by blast
qed

lemma commits_kept: "(auth_step E)\<^sup>*\<^sup>* w w' \<Longrightarrow> \<exists>later. committed (ctl w') = committed (ctl w) @ later"
proof (induction rule: rtranclp_induct)
  case (step v v')
  then show ?case using auth_step_committed [OF step.hyps(2)] by (metis append_assoc)
qed simp

lemma commits_ascend:
  assumes "(auth_step E)\<^sup>*\<^sup>* init_world w"
  shows "sorted_wrt (<) (map fst (committed (ctl w)))"
  using assms
proof (induction rule: rtranclp_induct)
  case base
  show ?case by (simp add: init_world_def createAuthSessionController_def)
next
  case (step w w')
  have inv: "auth_inv w" "auth_inv w'"
    using reachable_invs [OF step.hyps(1)] auth_step_inv [OF step.hyps(2)] by simp_all
  from auth_step_committed [OF step.hyps(2)] show ?case
  proof
    assume "committed (ctl w') = committed (ctl w)"
    then show ?thesis using step.IH by simp
  next
    assume "\<exists>t u. committed (ctl w') = committed (ctl w) @ [(generation (ctl w), t, u)]"
    then obtain t u where c: "committed (ctl w') = committed (ctl w) @ [(generation (ctl w), t, u)]" by blast
    have "g < generation (ctl w)" if "(g, t', u') \<in> set (committed (ctl w))" for g t' u'
      using auth_invD(1) [OF inv(1) that] auth_invD(2) [OF inv(2)] that unfolding c by (force simp: le_less)
    then show ?thesis using step.IH unfolding c by (auto simp: sorted_wrt_append)
  qed
qed

lemma latest_commit:
  assumes "sorted_wrt (<) (map fst cs)" "(g, x) \<in> set cs" "\<And>h t u. (h, t, u) \<in> set cs \<Longrightarrow> h \<le> g"
  shows "cs \<noteq> [] \<and> last cs = (g :: nat, x :: 'a \<times> 'b)"
proof (cases cs rule: rev_cases)
  case (snoc ys y)
  obtain h t u where y: "y = (h, t, u)" by (cases y)
  have "h \<le> g" by (rule assms(3) [of h t u]) (simp add: snoc y)
  with assms(1,2) show ?thesis by (force simp: snoc y sorted_wrt_append)
qed (use assms(2) in simp)

section \<open>Sample runs\<close>

definition sample_body :: jsval where
  "sample_body = JObj [(lit ''accessToken'', JStr (lit ''t'')), (lit ''user'', JStr (lit ''u''))]"

definition sample_ok :: fetch_outcome where
  "sample_ok = Responded \<lparr>resp_ok = True, resp_status = 200, resp_raw = lit ''{}''\<rparr>"

definition sample_started :: world where
  "sample_started = \<lparr>ctl = \<lparr>generation = 1, activeToken = JStr [], committed = [], cleared = []\<rparr>,
     logins = [AwaitLogin 1], applied_log = []\<rparr>"

definition sample_signed_out :: world where
  "sample_signed_out = \<lparr>ctl = \<lparr>generation = 2, activeToken = JStr [], committed = [], cleared = [PlainText []]\<rparr>,
     logins = [AwaitLogin 1], applied_log = []\<rparr>"

definition sample_committed :: world where
  "sample_committed = \<lparr>ctl = \<lparr>generation = 1, activeToken = JStr (lit ''t''),
       committed = [(1, JStr (lit ''t''), JStr (lit ''u''))], cleared = []\<rparr>,
     logins = [Finished (CommittedAs \<lparr>ctx_generation = 1, ctx_token = JStr (lit ''t'')\<rparr> sample_body sample_body)],
     applied_log = []\<rparr>"

lemma sample_started_reachable: "(auth_step E)\<^sup>*\<^sup>* init_world sample_started"
  using auth_step.start_login [of E init_world]
  by (simp add: init_world_def createAuthSessionController_def sample_started_def login_start_def
      beginLogin_def r_into_rtranclp)

lemma sample_signed_out_step: "auth_step E sample_started sample_signed_out"
  using auth_step.sign_out [of E sample_started "PlainText []"]
  by (simp add: sample_started_def sample_signed_out_def logout_def numeral_2_eq_2)

lemma sample_response: "requestJson (sample_env sample_body) flag sample_ok = Inr sample_body"
  by (simp add: requestJson_def sample_ok_def response_data_def sample_env_def)

lemma sample_body_fields:
  "js_get sample_body (lit ''accessToken'') = Some (JStr (lit ''t''))"
  "js_get sample_body (lit ''user'') = Some (JStr (lit ''u''))"
  by (simp_all add: js_get_def nullish_def sample_body_def)

lemma sample_committed_reachable: "(auth_step (sample_env sample_body))\<^sup>*\<^sup>* init_world sample_committed"
proof -
  let ?E = "sample_env sample_body"
  let ?w1 = "sample_started\<lparr>logins := [AwaitMe 1 sample_body]\<rparr>"
  let ?w2 = "sample_started\<lparr>logins := [MeSettled 1 sample_body (Inr sample_body)]\<rparr>"
  have "auth_step ?E sample_started ?w1"
    using auth_step.login_response [of 0 sample_started 1 ?E sample_ok]
    by (simp add: sample_started_def set_login_def login_receive_def sample_response isAttemptCurrent_def
        sample_body_fields)
  moreover have "auth_step ?E ?w1 ?w2"
    using auth_step.me_response [of 0 ?w1 1 sample_body ?E sample_ok]
    by (simp add: sample_started_def set_login_def me_receive_def requestForAttempt_def sample_response)
  moreover have "auth_step ?E ?w2 sample_committed"
    using auth_step.resume_login [of 0 ?w2 1 sample_body "Inr sample_body" ?E]
    by (simp add: sample_started_def sample_committed_def set_login_def login_resume_def auth_ops sample_body_fields)
  ultimately show ?thesis using sample_started_reachable [of ?E] by (meson rtranclp.rtrancl_into_rtrancl)
qed

section \<open>Properties\<close>

text \<open>C1. In every reachable state of the mobile client, whatever the interleaving of logins, session
  requests and logouts: a token is in use only if it is the one of the latest login that was committed, under the number
  that is current; logins are committed under growing numbers, none twice; and every \<open>login\<close> call that reports success did
  commit exactly the token of the context it returns. From such a state on the number never falls, no commit is forgotten,
  and a token in use is replaced or dropped only under a larger number.\<close>

theorem auth_session_safe:
  assumes "(auth_step E)\<^sup>*\<^sup>* init_world w" and "(auth_step E)\<^sup>*\<^sup>* w w'"
  shows "sorted_wrt (<) (map fst (committed (ctl w)))
     \<and> (activeToken (ctl w) \<noteq> JStr [] \<longrightarrow>
          committed (ctl w) \<noteq> [] \<and> (\<exists>user. last (committed (ctl w)) = (generation (ctl w), activeToken (ctl w), user)))
     \<and> (\<forall>i c login me. i < length (logins w) \<longrightarrow> logins w ! i = Finished (CommittedAs c login me) \<longrightarrow>
          (\<exists>user. (ctx_generation c, ctx_token c, user) \<in> set (committed (ctl w))))
     \<and> generation (ctl w) \<le> generation (ctl w') \<and> (\<exists>later. committed (ctl w') = committed (ctl w) @ later)
     \<and> (activeToken (ctl w) \<noteq> JStr [] \<and> activeToken (ctl w') \<noteq> activeToken (ctl w)
          \<longrightarrow> generation (ctl w) < generation (ctl w'))"
proof -
  have inv: "auth_inv w" and fin: "finished_inv w" using reachable_invs [OF assms(1)] by simp_all
  have asc: "sorted_wrt (<) (map fst (committed (ctl w)))" using assms(1) by (rule commits_ascend)
  have gen: "generation (ctl w) \<le> generation (ctl w')" using assms(2) by (rule auth_epoch.steps_epoch)
  obtain later where later: "committed (ctl w') = committed (ctl w) @ later" using commits_kept [OF assms(2)] by blast
  have "auth_inv w'" using assms(2) inv by (rule auth_steps_inv)
  then have "activeToken (ctl w') = activeToken (ctl w)"
    if "activeToken (ctl w) \<noteq> JStr []" "generation (ctl w') = generation (ctl w)"
    using auth_invD(5) [OF inv that(1)] auth_invD(6) [of w'] later that(2) by fastforce
  moreover have "committed (ctl w) \<noteq> [] \<and> (\<exists>user. last (committed (ctl w)) = (generation (ctl w), activeToken (ctl w), user))"
    if "activeToken (ctl w) \<noteq> JStr []"
    using auth_invD(5) [OF inv that] latest_commit [OF asc _ auth_invD(1) [OF inv]] by fastforce
  ultimately show ?thesis using asc gen later finished_invD [OF fin] by (metis le_neq_implies_less)
qed

theorem auth_session_safe_witness:
  "(auth_step (sample_env sample_body))\<^sup>*\<^sup>* init_world sample_committed
   \<and> (\<exists>user. last (committed (ctl sample_committed)) = (1, JStr (lit ''t''), user))"
  using sample_committed_reachable auth_session_safe [OF sample_committed_reachable rtranclp.rtrancl_refl]
  by (auto simp: sample_committed_def)

text \<open>A login that was overtaken (by a logout, a later login or an invalidated session) never
  commits: from the moment the generation has moved past its attempt, no interleaving lets the
  call succeed and no token is ever committed for it.\<close>

theorem superseded_login_never_commits:
  assumes "(auth_step E)\<^sup>*\<^sup>* init_world w" and "i < length (logins w)"
    and "pending (logins w ! i) = Some a" and "a < generation (ctl w)"
    and "(auth_step E)\<^sup>*\<^sup>* w w'"
  shows "\<not> (\<exists>c login me. logins w' ! i = Finished (CommittedAs c login me))
     \<and> (\<forall>token user. (a, token, user) \<notin> set (committed (ctl w')))"
  using superseded_run [OF assms(5) _ assms(2-4)] reachable_invs [OF assms(1)] by auto

theorem superseded_login_never_commits_witness:
  "pending (logins sample_signed_out ! 0) = Some 1 \<and> 1 < generation (ctl sample_signed_out)
   \<and> \<not> (\<exists>c login me. logins sample_signed_out ! 0 = Finished (CommittedAs c login me))"
proof -
  have "(auth_step (sample_env sample_body))\<^sup>*\<^sup>* init_world sample_signed_out"
    using sample_started_reachable sample_signed_out_step by (rule rtranclp.rtrancl_into_rtrancl)
  from superseded_login_never_commits [OF this, of 0 1 sample_signed_out]
  show ?thesis by (simp add: sample_signed_out_def)
qed

text \<open>A response clears the session exactly when it is an authorization failure (401 or 403) of a
  request made in the session that is still current; then the flag \<open>sessionCleared\<close> is set. Any
  other response, a late 401 of an earlier session in particular, leaves the controller as it was.\<close>

theorem requestForSession_clears_iff:
  "(snd (requestForSession E s c out) \<noteq> s \<longleftrightarrow>
      isCurrent s c \<and> (\<exists>e. requestJson E True out = Inl e \<and> err_invalidated e))
   \<and> ((\<exists>e. fst (requestForSession E s c out) = Inl (e, True)) \<longleftrightarrow> snd (requestForSession E s c out) \<noteq> s)"
proof -
  have ne: "logout s m \<noteq> s" for m
  proof
    assume "logout s m = s"
    then have "generation (logout s m) = generation s" by simp
    then show False by (simp add: logout_def)
  qed
  show ?thesis
    using ne by (auto simp: requestForSession_def clearSessionIfCurrent_def isSessionInvalidatedError_def
        split: sum.splits)
qed

text \<open>C2. A context of an earlier session is never current again, and no response guarded by it is
  applied to the screen state from then on, in any continuation of the run.\<close>

theorem stale_responses_never_applied:
  assumes "ctx_generation c < generation (ctl w)" and "(auth_step E)\<^sup>*\<^sup>* w w'"
  shows "\<not> isCurrent (ctl w') (Some c)
     \<and> fst (applyProtectedResponse (ctl w') (Some c) value apply screen) = NotApplied value
     \<and> snd (applyProtectedResponse (ctl w') (Some c) value apply screen) = screen
     \<and> filter (\<lambda>(d, x). d = c) (applied_log w') = filter (\<lambda>(d, x). d = c) (applied_log w)"
proof -
  have "\<not> isCurrent (ctl w') (Some c)" by (rule auth_epoch.stale_never_live [OF assms(2,1)])
  moreover have "filter (\<lambda>(d, x). d = c) (applied_log w') = filter (\<lambda>(d, x). d = c) (applied_log w)"
    by (rule auth_epoch.stale_log_frozen [OF auth_step_log assms(2,1)])
  ultimately show ?thesis by (simp add: applyProtectedResponse_def)
qed

theorem stale_responses_never_applied_witness:
  "ctx_generation \<lparr>ctx_generation = 1, ctx_token = JStr []\<rparr> < generation (ctl sample_signed_out)
   \<and> \<not> isCurrent (ctl sample_signed_out) (Some \<lparr>ctx_generation = 1, ctx_token = JStr []\<rparr>)"
  using stale_responses_never_applied [of "\<lparr>ctx_generation = 1, ctx_token = JStr []\<rparr>" sample_signed_out
      "sample_env sample_body" sample_signed_out "()" "\<lambda>_ u. u" "()"]
  by (simp add: sample_signed_out_def)

text \<open>One \<open>login\<close> call with nothing in between: the pieces composed in the order of the code.\<close>

definition login_alone :: "js_env \<Rightarrow> auth_state \<Rightarrow> fetch_outcome \<Rightarrow> fetch_outcome \<Rightarrow> login_phase \<times> auth_state" where
  "login_alone E s out1 out2 =
     (case login_start s of (p, s1) \<Rightarrow>
        (case p of AwaitLogin a \<Rightarrow>
           (case login_receive E s1 a out1 of
              AwaitMe b body \<Rightarrow>
                (case me_receive E s1 b body out2 of
                   (MeSettled d body' r, s2) \<Rightarrow> login_resume s2 d body' r
                 | (p', s2) \<Rightarrow> (p', s2))
            | p' \<Rightarrow> (p', s1))
         | _ \<Rightarrow> (p, s1)))"

text \<open>C3. A login that nothing overtakes, with a login response that is an object holding an access
  token and a profile response that is an object, succeeds: the call returns the new context, which
  is current, and the controller holds and has committed exactly that token and user.\<close>

theorem login_succeeds:
  assumes "out1 = Responded r1" "resp_ok r1" "response_data E r1 = JObj ps" "map_of ps (lit ''accessToken'') = Some token"
    and "out2 = Responded r2" "resp_ok r2" "response_data E r2 = JObj qs"
  shows "\<exists>c s'. login_alone E s out1 out2 = (Finished (CommittedAs c (JObj ps) (JObj qs)), s')
     \<and> isCurrent s' (Some c) \<and> ctx_token c = token \<and> activeToken s' = token
     \<and> committed s' = committed s @ [(Suc (generation s), token, own_prop (JObj qs) (lit ''user''))]
     \<and> cleared s' = cleared s"
proof -
  have r1: "requestJson E False out1 = Inr (JObj ps)" and r2: "requestJson E True out2 = Inr (JObj qs)"
    using assms by (simp_all add: requestJson_def)
  show ?thesis
    using r1 r2 assms(4)
    by (simp add: login_alone_def login_receive_def me_receive_def requestForAttempt_def login_resume_def
        auth_ops js_get_def nullish_def)
qed

theorem login_succeeds_witness:
  "\<exists>c s'. login_alone (sample_env sample_body) createAuthSessionController sample_ok sample_ok
       = (Finished (CommittedAs c sample_body sample_body), s') \<and> isCurrent s' (Some c)"
proof -
  have "response_data (sample_env sample_body) r = sample_body" if "resp_raw r \<noteq> []" for r
    using that by (simp add: response_data_def sample_env_def)
  then show ?thesis
    using login_succeeds [OF sample_ok_def _ _ _ sample_ok_def, of "sample_env sample_body" _
        "JStr (lit ''t'')" _ createAuthSessionController]
    unfolding sample_body_def by fastforce
qed

text \<open>An exception to the promise that an authorization failure ends the session: a 401 or 403 whose
  body is the JSON text \<open>null\<close> makes the helper raise a TypeError before it marks the error, so the
  session of the request stays as it is, token included.\<close>

theorem null_body_keeps_session:
  assumes "\<not> resp_ok r" "resp_status r = 401 \<or> resp_status r = 403" "response_data E r = JNull"
  shows "requestForSession E s c (Responded r) = (Inl (native_error, False), s)"
  using assms
  by (simp add: requestForSession_def requestJson_def Let_def js_get_def nullish_def
      isSessionInvalidatedError_def native_error_def)

theorem null_body_keeps_session_witness:
  "requestForSession (sample_env JNull) createAuthSessionController
     (Some \<lparr>ctx_generation = 0, ctx_token = JStr []\<rparr>)
     (Responded \<lparr>resp_ok = False, resp_status = 401, resp_raw = lit ''null''\<rparr>)
   = (Inl (native_error, False), createAuthSessionController)"
  by (rule null_body_keeps_session) (simp_all add: response_data_def sample_env_def)

end
