(* ===== verification/Api_Broker.thy ===== *)
theory Api_Broker
  imports Interfaces
begin

text \<open>
  The process that talks to the server for the desktop client
  (\<open>frontend/desktop-client/electron/api-broker.js\<close>): the allowlist of endpoints, the checks on
  method, path, body and credentials, and the broker, which alone holds the session credential.
  As in the mobile session layer an \<open>async\<close> operation is cut at its \<open>await\<close>; operations in
  flight interleave with each other and with a logout.
\<close>

section \<open>Endpoints\<close>

text \<open>The regular expressions of the endpoints are sequences of literal texts, alternatives and classes.\<close>

datatype ptok =
    Text jstring
  | OneOf "jstring list"
  | Ident
  | Digits13

definition ident_char :: "nat \<Rightarrow> bool" where
  \<comment> \<open>the class \<open>[A-Za-z0-9_-]\<close>\<close>
  "ident_char c \<longleftrightarrow> (65 \<le> c \<and> c \<le> 90) \<or> (97 \<le> c \<and> c \<le> 122) \<or> is_digit c \<or> c = 95 \<or> c = 45"

primrec pmatch :: "ptok list \<Rightarrow> jstring \<Rightarrow> bool" where
  "pmatch [] s = (s = [])"
| "pmatch (t # ts) s =
     (case t of
        Text p \<Rightarrow> js_starts_with s p \<and> pmatch ts (drop (length p) s)
      | OneOf ps \<Rightarrow> list_ex (\<lambda>p. js_starts_with s p \<and> pmatch ts (drop (length p) s)) ps
      | Ident \<Rightarrow> list_ex (\<lambda>k. list_all ident_char (take k s) \<and> pmatch ts (drop k s)) [1..<Suc (length s)]
      | Digits13 \<Rightarrow> list_ex (\<lambda>k. k \<le> length s \<and> list_all is_digit (take k s) \<and> pmatch ts (drop k s)) [1, 2, 3])"

record endpoint =
  ep_pattern :: "ptok list"
  ep_methods :: "jstring list"
  ep_public :: bool

definition GET :: jstring where "GET = lit ''GET''"
definition POST :: jstring where "POST = lit ''POST''"

definition ENDPOINTS :: "endpoint list" where
  "ENDPOINTS =
    [\<lparr>ep_pattern = [Text (lit ''/ui-contract'')], ep_methods = [GET], ep_public = True\<rparr>,
     \<lparr>ep_pattern = [Text (lit ''/auth/me'')], ep_methods = [GET], ep_public = False\<rparr>,
     \<lparr>ep_pattern = [Text (lit ''/notifications/summary'')], ep_methods = [GET], ep_public = False\<rparr>,
     \<lparr>ep_pattern = [Text (lit ''/notifications?limit=''), Digits13], ep_methods = [GET], ep_public = False\<rparr>,
     \<lparr>ep_pattern = [Text (lit ''/notifications/''), Ident, Text (lit ''/ack'')], ep_methods = [POST], ep_public = False\<rparr>,
     \<lparr>ep_pattern = [Text (lit ''/mail/''), OneOf [lit ''inbox'', lit ''sent'']], ep_methods = [GET], ep_public = False\<rparr>,
     \<lparr>ep_pattern = [Text (lit ''/mail/''), Ident], ep_methods = [GET], ep_public = False\<rparr>,
     \<lparr>ep_pattern = [Text (lit ''/mail/''), Ident, Text (lit ''/''), OneOf [lit ''read'', lit ''star'']],
        ep_methods = [POST], ep_public = False\<rparr>,
     \<lparr>ep_pattern = [Text (lit ''/messenger/rooms'')], ep_methods = [GET], ep_public = False\<rparr>,
     \<lparr>ep_pattern = [Text (lit ''/messenger/rooms/''), Ident, Text (lit ''/messages'')],
        ep_methods = [GET, POST], ep_public = False\<rparr>,
     \<lparr>ep_pattern = [Text (lit ''/messenger/rooms/''), Ident, Text (lit ''/read'')], ep_methods = [POST], ep_public = False\<rparr>,
     \<lparr>ep_pattern = [Text (lit ''/approvals'')], ep_methods = [GET, POST], ep_public = False\<rparr>,
     \<lparr>ep_pattern = [Text (lit ''/approvals/audit-logs'')], ep_methods = [GET], ep_public = False\<rparr>,
     \<lparr>ep_pattern = [Text (lit ''/approvals/''), Ident, Text (lit ''/''),
          OneOf [lit ''submit'', lit ''withdraw'', lit ''redraft'', lit ''approve'', lit ''reject'']],
        ep_methods = [POST], ep_public = False\<rparr>]"

text \<open>The exceptions of the broker; \<open>Native\<close> is one raised by the platform.\<close>

datatype broker_error =
    Method_Not_Allowed
  | Base_Not_Allowed
  | Path_Not_Allowed
  | Body_Not_Json
  | Request_Too_Large
  | Email_Invalid
  | Login_Input_Invalid
  | Fetch_Unavailable
  | Response_Too_Large
  | Response_Not_Json
  | Request_Failed nat
  | Login_Required
  | Login_Response_Invalid
  | Native

definition normalizeMethod :: "js_env \<Rightarrow> jsval \<Rightarrow> broker_error + jstring" where
  "normalizeMethod E m =
     (let normalized = js_upper E (js_string E (js_or m (JStr GET)))
      in if normalized = [] \<or> \<not> list_all (\<lambda>c. 65 \<le> c \<and> c \<le> 90) normalized then Inl Method_Not_Allowed
         else Inr normalized)"




definition matchEndpoint :: "jsval \<Rightarrow> jstring \<Rightarrow> broker_error + endpoint" where
  "matchEndpoint requestPath m =
     (case requestPath of
        JStr p \<Rightarrow>
          if \<not> js_starts_with p (lit ''/'') \<or> js_starts_with p (lit ''//'')
             \<or> js_includes p [92] \<or> js_includes p (lit ''..'') then Inl Path_Not_Allowed
          else (case List.find (\<lambda>e. pmatch (ep_pattern e) p) ENDPOINTS of
                  None \<Rightarrow> Inl Path_Not_Allowed
                | Some e \<Rightarrow> if m \<notin> set (ep_methods e) then Inl Method_Not_Allowed else Inr e)
      | _ \<Rightarrow> Inl Path_Not_Allowed)"

definition serializeBody :: "js_env \<Rightarrow> jsval \<Rightarrow> nat \<Rightarrow> broker_error + jstring option" where
  "serializeBody E body maxRequestBytes =
     (if nullish body then Inr None
      else (case (if is_str body then Some (str_of body) else env_stringify E body) of
              None \<Rightarrow> Inl Body_Not_Json
            | Some serialized \<Rightarrow>
                if env_parse E serialized = None then Inl Body_Not_Json
                else if maxRequestBytes < utf8_length serialized then Inl Request_Too_Large
                else Inr (Some serialized)))"

definition validateCredentials :: "js_env \<Rightarrow> jsval \<Rightarrow> broker_error + jstring \<times> jstring" where
  "validateCredentials E credentials =
     (let email = js_trim (js_string E (js_or (js_opt credentials (lit ''email'')) (JStr [])));
          password = js_string E (js_or (js_opt credentials (lit ''password'')) (JStr []))
      in if \<not> email_shape email \<or> 254 < length email then Inl Email_Invalid
         else if password = [] \<or> 1024 < length password then Inl Login_Input_Invalid
         else Inr (email, password))"

section \<open>The broker\<close>



record broker =
  apiBase :: jstring
  maxRequestBytes :: nat
  maxResponseBytes :: nat
  sessionCredential :: jstring



record response =
  rs_ok :: bool
  rs_status :: nat
  rs_text :: jstring

definition readResponse :: "js_env \<Rightarrow> broker \<Rightarrow> response \<Rightarrow> (broker_error + jsval) \<times> broker" where
  "readResponse E b r =
     (if maxResponseBytes b < utf8_length (rs_text r) then (Inl Response_Too_Large, b)
      else (case (if rs_text r = [] then Some (JObj []) else env_parse E (rs_text r)) of
              None \<Rightarrow> (Inl Response_Not_Json, b)
            | Some body \<Rightarrow>
                if \<not> rs_ok r then
                  (Inl (Request_Failed (rs_status r)),
                   if rs_status r = 401 \<or> rs_status r = 423 then b\<lparr>sessionCredential := []\<rparr> else b)
                else (Inr body, b)))"

record http_call =
  call_url :: jstring
  call_method :: jstring
  call_headers :: "(jstring \<times> jstring) list"
  call_body :: "jstring option"
  call_redirect :: jstring

definition perform_start ::
  "js_env \<Rightarrow> broker \<Rightarrow> jstring \<Rightarrow> jstring \<Rightarrow> jsval \<Rightarrow> bool \<Rightarrow> broker_error + http_call" where
  \<comment> \<open>\<open>perform\<close> up to the call of \<open>fetchImpl\<close>\<close>
  "perform_start E b requestPath m body includeSession =
     (case serializeBody E body (maxRequestBytes b) of
        Inl e \<Rightarrow> Inl e
      | Inr serializedBody \<Rightarrow>
          if includeSession \<and> sessionCredential b = [] then Inl Login_Required
          else Inr \<lparr>call_url = apiBase b @ requestPath, call_method = m,
             call_headers = [(lit ''Content-Type'', lit ''application/json''),
                             (lit ''Accept'', lit ''application/json'')]
               @ (if includeSession then [(lit ''Authorization'', lit ''Bearer '' @ sessionCredential b)] else []),
             call_body = serializedBody, call_redirect = lit ''error''\<rparr>)"

definition perform_finish :: "js_env \<Rightarrow> broker \<Rightarrow> response option \<Rightarrow> (broker_error + jsval) \<times> broker" where
  \<comment> \<open>the rest of \<open>perform\<close>; \<open>None\<close> is a fetch that failed\<close>
  "perform_finish E b r = (case r of None \<Rightarrow> (Inl Native, b) | Some x \<Rightarrow> readResponse E b x)"

definition login_start :: "js_env \<Rightarrow> broker \<Rightarrow> jsval \<Rightarrow> broker_error + http_call" where
  "login_start E b credentials =
     (case validateCredentials E credentials of
        Inl e \<Rightarrow> Inl e
      | Inr (email, password) \<Rightarrow>
          perform_start E b (lit ''/auth/login'') POST
            (JObj [(lit ''email'', JStr email), (lit ''password'', JStr password)]) False)"

definition login_finish :: "js_env \<Rightarrow> broker \<Rightarrow> response option \<Rightarrow> (broker_error + bool) \<times> broker" where
  \<comment> \<open>the value is the field \<open>authenticated\<close>\<close>
  "login_finish E b r =
     (case perform_finish E b r of
        (Inl e, b') \<Rightarrow> (Inl e, b')
      | (Inr body, b') \<Rightarrow>
          (case js_get body (lit ''accessToken'') of
             None \<Rightarrow> (Inl Native, b')
           | Some token \<Rightarrow>
               (let nextCredential = (if is_str token then str_of token else [])
                in if nextCredential = [] \<or> 16384 < length nextCredential
                   then (Inl Login_Response_Invalid, b')
                   else (Inr True, b'\<lparr>sessionCredential := nextCredential\<rparr>))))"

definition request_start :: "js_env \<Rightarrow> broker \<Rightarrow> jsval \<Rightarrow> broker_error + http_call" where
  "request_start E b input =
     (case normalizeMethod E (js_opt input (lit ''method'')) of
        Inl e \<Rightarrow> Inl e
      | Inr m \<Rightarrow>
          (case matchEndpoint (js_opt input (lit ''path'')) m of
             Inl e \<Rightarrow> Inl e
           | Inr endpoint \<Rightarrow>
               perform_start E b (str_of (own_prop input (lit ''path''))) m
                 (own_prop input (lit ''body'')) (\<not> ep_public endpoint)))"

definition logout :: "broker \<Rightarrow> bool \<times> broker" where
  "logout b = (False, b\<lparr>sessionCredential := []\<rparr>)"

definition clearSession :: "broker \<Rightarrow> broker" where
  "clearSession b = b\<lparr>sessionCredential := []\<rparr>"

definition hasSession :: "broker \<Rightarrow> bool" where
  "hasSession b \<longleftrightarrow> sessionCredential b \<noteq> []"

section \<open>What the allowlist admits\<close>











section \<open>Interleaved runs\<close>

text \<open>
  The broker with the operations in flight (\<open>None\<close> once settled, \<open>Some True\<close> a login,
  \<open>Some False\<close> a request) and the calls of \<open>fetchImpl\<close> it made.
\<close>

record desk =
  brk :: broker
  flights :: "bool option list"
  calls :: "http_call list"

inductive broker_step :: "js_env \<Rightarrow> desk \<Rightarrow> desk \<Rightarrow> bool" for E where
  begin_login: "login_start E (brk w) credentials = Inr c \<Longrightarrow>
     broker_step E w (w\<lparr>flights := flights w @ [Some True], calls := calls w @ [c]\<rparr>)"
| begin_request: "request_start E (brk w) input = Inr c \<Longrightarrow>
     broker_step E w (w\<lparr>flights := flights w @ [Some False], calls := calls w @ [c]\<rparr>)"
| settle_login: "i < length (flights w) \<Longrightarrow> flights w ! i = Some True \<Longrightarrow>
     broker_step E w (w\<lparr>brk := snd (login_finish E (brk w) r), flights := (flights w)[i := None]\<rparr>)"
| settle_request: "i < length (flights w) \<Longrightarrow> flights w ! i = Some False \<Longrightarrow>
     broker_step E w (w\<lparr>brk := snd (perform_finish E (brk w) r), flights := (flights w)[i := None]\<rparr>)"
| sign_out: "broker_step E w (w\<lparr>brk := snd (logout (brk w))\<rparr>)"














section \<open>Properties\<close>



definition sample_broker :: broker where
  "sample_broker = \<lparr>apiBase = lit ''https://h/api'', maxRequestBytes = 262144, maxResponseBytes = 2097152,
     sessionCredential = []\<rparr>"






text \<open>A response ends the broker's session exactly when it is a refusal with status 401 or 423 whose
  text is within the size limit and empty or JSON; a refusal that cannot be read leaves the
  credential in place, and no response gives a value unless the server accepted the request.\<close>

theorem readResponse_effect:
  "(sessionCredential b \<noteq> [] \<longrightarrow>
      (hasSession (snd (readResponse E b r)) \<longleftrightarrow>
        \<not> (\<not> rs_ok r \<and> rs_status r \<in> {401, 423} \<and> utf8_length (rs_text r) \<le> maxResponseBytes b
           \<and> (rs_text r = [] \<or> env_parse E (rs_text r) \<noteq> None))))
   \<and> (is_ok (fst (readResponse E b r)) \<longrightarrow> rs_ok r \<and> snd (readResponse E b r) = b)"
  by (auto simp: readResponse_def hasSession_def split: option.splits)

theorem readResponse_effect_witness:
  "\<not> hasSession (snd (readResponse (sample_env JNull) (sample_broker\<lparr>sessionCredential := lit ''t''\<rparr>)
      \<lparr>rs_ok = False, rs_status = 401, rs_text = []\<rparr>))"
  using readResponse_effect [of "sample_broker\<lparr>sessionCredential := lit ''t''\<rparr>" "sample_env JNull"
      "\<lparr>rs_ok = False, rs_status = 401, rs_text = []\<rparr>"]
  by (simp add: sample_broker_def)

text \<open>Unlike the mobile controller the broker does not tie a response to the session it was asked in:
  a request in flight when the user signs out and in again ends the new session when it comes back
  with 401, and a login in flight when the user signs out signs the user in afterwards.\<close>

theorem broker_sessions_not_tied:
  assumes "i < length (flights w)" and "flights w ! i = Some login"
    and "env_parse E t = Some (JObj [(lit ''accessToken'', JStr (lit ''t''))])" and "t \<noteq> []"
    and "utf8_length t \<le> maxResponseBytes (brk w)"
  shows "if login
    then \<exists>w'. broker_step E (w\<lparr>brk := snd (logout (brk w))\<rparr>) w' \<and> hasSession (brk w')
    else \<exists>w'. broker_step E (w\<lparr>brk := (brk w)\<lparr>sessionCredential := newer\<rparr>\<rparr>) w' \<and> \<not> hasSession (brk w')"
proof (cases login)
  case False
  let ?w = "w\<lparr>brk := (brk w)\<lparr>sessionCredential := newer\<rparr>\<rparr>"
  let ?r = "Some \<lparr>rs_ok = False, rs_status = 401, rs_text = []\<rparr>"
  let ?v = "?w\<lparr>brk := snd (perform_finish E (brk ?w) ?r), flights := (flights ?w)[i := None]\<rparr>"
  have "broker_step E ?w ?v"
    using assms False by (intro broker_step.settle_request) auto
  moreover have "\<not> hasSession (brk ?v)" by (simp add: perform_finish_def readResponse_def hasSession_def)
  ultimately show ?thesis using False by auto
next
  case True
  let ?w = "w\<lparr>brk := snd (logout (brk w))\<rparr>"
  let ?r = "Some \<lparr>rs_ok = True, rs_status = 200, rs_text = t\<rparr>"
  let ?v = "?w\<lparr>brk := snd (login_finish E (brk ?w) ?r), flights := (flights ?w)[i := None]\<rparr>"
  have "broker_step E ?w ?v"
    using assms True by (intro broker_step.settle_login) auto
  moreover have "hasSession (brk ?v)"
    using assms by (simp add: login_finish_def perform_finish_def readResponse_def hasSession_def
        logout_def js_get_def nullish_def)
  ultimately show ?thesis using True by auto
qed

theorem broker_sessions_not_tied_witness:
  "\<exists>w'. broker_step (sample_env (JObj [(lit ''accessToken'', JStr (lit ''t''))]))
      \<lparr>brk = sample_broker, flights = [Some True], calls = []\<rparr> w' \<and> hasSession (brk w')"
proof -
  have "(\<lparr>brk = sample_broker, flights = [Some True], calls = []\<rparr>)\<lparr>brk := snd (logout sample_broker)\<rparr>
      = \<lparr>brk = sample_broker, flights = [Some True], calls = []\<rparr>"
    by (simp add: logout_def sample_broker_def)
  then show ?thesis
    using broker_sessions_not_tied [of 0 "\<lparr>brk = sample_broker, flights = [Some True], calls = []\<rparr>" True
        "sample_env (JObj [(lit ''accessToken'', JStr (lit ''t''))])" "[123]"]
    by (simp add: sample_env_def sample_broker_def)
qed

end
