(* ===== verification/Archive_Service.thy ===== *)
theory Archive_Service
  imports Interfaces
begin

text \<open>
  Local archives of the desktop client (\<open>frontend/desktop-client/electron/archive-service.js\<close> and
  the archive handlers of \<open>main.js\<close>): checking a request of the renderer, rendering a
  conversation as HTML, and writing the file the user chose.
\<close>

section \<open>Escaping\<close>

definition replaceAll :: "nat \<Rightarrow> jstring \<Rightarrow> jstring \<Rightarrow> jstring" where
  \<comment> \<open>\<open>s.replaceAll(c, r)\<close> for a pattern of one unit\<close>
  "replaceAll c r s = concat (map (\<lambda>x. if x = c then r else [x]) s)"

definition escape_text :: "jstring \<Rightarrow> jstring" where
  "escape_text s =
     replaceAll 39 (lit ''&#39;'') (replaceAll 34 (lit ''&quot;'') (replaceAll 62 (lit ''&gt;'')
       (replaceAll 60 (lit ''&lt;'') (replaceAll 38 (lit ''&amp;'') s))))"

definition escapeHtml :: "js_env \<Rightarrow> jsval \<Rightarrow> jstring" where
  "escapeHtml E v = escape_text (js_string E (js_coalesce v (JStr [])))"

lemma replaceAll_append [simp]: "replaceAll c r (s @ t) = replaceAll c r s @ replaceAll c r t"
  by (simp add: replaceAll_def)

lemma replaceAll_Nil [simp]: "replaceAll c r [] = []"
  by (simp add: replaceAll_def)

lemma replaceAll_Cons: "replaceAll c r (x # s) = (if x = c then r else [x]) @ replaceAll c r s"
  by (simp add: replaceAll_def)

definition html_entity :: "nat \<Rightarrow> jstring" where
  "html_entity c = (if c = 38 then lit ''&amp;'' else if c = 60 then lit ''&lt;'' else if c = 62 then lit ''&gt;''
     else if c = 34 then lit ''&quot;'' else if c = 39 then lit ''&#39;'' else [c])"

text \<open>The five passes over the text replace each character once.\<close>

lemma escape_text_entities: "escape_text s = concat (map html_entity s)"
proof (induction s)
  case Nil
  then show ?case by (simp add: escape_text_def)
next
  case (Cons c s)
  have "escape_text (c # s) = escape_text [c] @ escape_text s"
    by (simp add: escape_text_def flip: replaceAll_append)
  moreover have "escape_text [c] = html_entity c"
    by (simp add: escape_text_def html_entity_def replaceAll_Cons lit_def)
  ultimately show ?case using Cons.IH by simp
qed

lemma html_entity_safe: "set (html_entity c) \<inter> markup_chars = {}"
  by (auto simp: html_entity_def markup_chars_def lit_def)

interpretation archive_esc: html_escaper escape_text
proof unfold_locales
  fix s t
  show "set (escape_text s) \<inter> markup_chars = {}"
    using html_entity_safe by (auto simp: escape_text_entities)
  show "escape_text (s @ t) = escape_text s @ escape_text t"
    by (simp add: escape_text_entities)
qed

section \<open>Paths\<close>

text \<open>The functions of Node's \<open>path\<close> module the code uses, for both kinds of platform.\<close>

datatype os = Posix | Windows

definition is_sep :: "os \<Rightarrow> nat \<Rightarrow> bool" where
  "is_sep os c \<longleftrightarrow> c = 47 \<or> (os = Windows \<and> c = 92)"

definition drive_letter :: "jstring \<Rightarrow> bool" where
  "drive_letter s \<longleftrightarrow> 2 \<le> length s \<and> s ! 1 = 58 \<and> ((65 \<le> s ! 0 \<and> s ! 0 \<le> 90) \<or> (97 \<le> s ! 0 \<and> s ! 0 \<le> 122))"

definition path_basename :: "os \<Rightarrow> jstring \<Rightarrow> jstring" where
  "path_basename os s =
     (let t = (if os = Windows \<and> drive_letter s then drop 2 s else s)
      in rev (takeWhile (\<lambda>c. \<not> is_sep os c) (dropWhile (is_sep os) (rev t))))"

definition path_extname :: "os \<Rightarrow> jstring \<Rightarrow> jstring" where
  "path_extname os s =
     (let b = path_basename os s; n = length (takeWhile (\<lambda>c. c \<noteq> 46) (rev b))
      in if 46 \<notin> set b \<or> Suc n = length b \<or> b = lit ''..'' then [] else drop (length b - Suc n) b)"

definition path_isAbsolute :: "os \<Rightarrow> jstring \<Rightarrow> bool" where
  "path_isAbsolute os s \<longleftrightarrow> (s \<noteq> [] \<and> is_sep os (hd s)) \<or>
     (os = Windows \<and> drive_letter s \<and> 3 \<le> length s \<and> is_sep os (s ! 2))"

section \<open>Checking a request\<close>

definition MAX_ARCHIVE_BYTES :: nat where "MAX_ARCHIVE_BYTES = 10 * 1024 * 1024"

datatype archive_error =
    Field_Invalid string
  | Payload_Invalid
  | Mail_Schema_Invalid
  | Messenger_Schema_Invalid
  | Format_Not_Allowed
  | Name_Invalid
  | Extension_Mismatch
  | Archive_Too_Large
  | Path_Not_Absolute
  | Target_Extension_Mismatch
  | Write_Failed
  | Type_Error

definition validateText :: "jsval \<Rightarrow> string \<Rightarrow> nat \<Rightarrow> archive_error + unit" where
  "validateText v field maxLength =
     (if \<not> is_str v \<or> maxLength < length (str_of v) then Inl (Field_Invalid field) else Inr ())"

definition and_then :: "archive_error + unit \<Rightarrow> archive_error + unit \<Rightarrow> archive_error + unit" where
  "and_then a b = (case a of Inl e \<Rightarrow> Inl e | Inr _ \<Rightarrow> b)"

fun for_each :: "(jsval \<Rightarrow> archive_error + unit) \<Rightarrow> jsval list \<Rightarrow> archive_error + unit" where
  "for_each f [] = Inr ()"
| "for_each f (x # xs) = and_then (f x) (for_each f xs)"

lemma and_then_ok [simp]: "and_then a b = Inr u \<longleftrightarrow> a = Inr () \<and> b = Inr ()"
  by (cases a) (auto simp: and_then_def)

lemma for_each_ok [simp]: "for_each f xs = Inr u \<longleftrightarrow> (\<forall>x\<in>set xs. f x = Inr ())"
  by (induction xs) auto

definition message_sender :: "jsval \<Rightarrow> jsval" where
  "message_sender m = js_coalesce (js_opt m (lit ''senderName'')) (js_coalesce (js_opt m (lit ''sender'')) (JStr []))"

definition message_body :: "jsval \<Rightarrow> jsval" where
  "message_body m = js_coalesce (js_opt m (lit ''bodyText'')) (js_coalesce (js_opt m (lit ''text'')) (JStr []))"

definition message_time :: "jsval \<Rightarrow> jsval" where
  "message_time m = js_coalesce (js_opt m (lit ''createdAt'')) (js_coalesce (js_opt m (lit ''sentAt'')) (JStr []))"

definition validate_mail :: "jsval \<Rightarrow> archive_error + unit" where
  "validate_mail mail =
     and_then (validateText (js_opt mail (lit ''messageId'')) ''messageId'' 512)
    (and_then (validateText (js_or (js_opt mail (lit ''subject'')) (JStr [])) ''subject'' 20000)
              (validateText (js_or (js_opt mail (lit ''sender'')) (JStr [])) ''sender'' 1024))"

definition validate_message :: "jsval \<Rightarrow> archive_error + unit" where
  "validate_message message =
     and_then (validateText (message_sender message) ''senderName'' 1024)
    (and_then (validateText (message_body message) ''bodyText'' 20000)
              (validateText (message_time message) ''createdAt'' 128))"

definition validatePayload :: "jstring \<Rightarrow> jsval \<Rightarrow> archive_error + unit" where
  "validatePayload kind payload =
     (case payload of
        JObj ps \<Rightarrow>
          if kind = lit ''mail'' then
            (case own_prop payload (lit ''mails'') of
               JArr mails \<Rightarrow>
                 if own_prop payload (lit ''archiveType'') \<noteq> JStr (lit ''mail.local-archive'') \<or> 5000 < length mails
                 then Inl Mail_Schema_Invalid else for_each validate_mail mails
             | _ \<Rightarrow> Inl Mail_Schema_Invalid)
          else
            (case own_prop payload (lit ''messages'') of
               JArr messages \<Rightarrow>
                 if own_prop payload (lit ''archiveType'') \<noteq> JStr (lit ''messenger.conversation'')
                    \<or> 10000 < length messages
                 then Inl Messenger_Schema_Invalid
                 else and_then (validateText (own_prop payload (lit ''channelName'')) ''channelName'' 1024)
                        (for_each validate_message messages)
             | _ \<Rightarrow> Inl Messenger_Schema_Invalid)
      | _ \<Rightarrow> Inl Payload_Invalid)"

text \<open>
  The table of formats. A lookup \<open>ARCHIVE_CONTRACTS[kind][format]\<close> also sees what an object
  inherits (\<open>constructor\<close> and the like); \<open>inherited kind format\<close> says that such a lookup finds
  something, which is then no file extension.
\<close>

definition ARCHIVE_CONTRACTS :: "(jstring \<times> (jstring \<times> jstring) list) list" where
  "ARCHIVE_CONTRACTS =
     [(lit ''mail'', [(lit ''json'', lit ''.json'')]),
      (lit ''messenger'', [(lit ''json'', lit ''.json''), (lit ''html'', lit ''.html'')])]"

definition contract_extension :: "jstring \<Rightarrow> jstring \<Rightarrow> jstring option" where
  "contract_extension kind format = (case map_of ARCHIVE_CONTRACTS kind of None \<Rightarrow> None | Some c \<Rightarrow> map_of c format)"

definition reserved_name_chars :: "nat list" where
  "reserved_name_chars = [60, 62, 58, 34, 47, 92, 124, 63, 42, 0]"

record archive_request =
  ar_kind :: jstring
  ar_format :: jstring
  ar_extension :: jstring
  ar_name :: jstring
  ar_payload :: jsval

definition validateArchiveRequest ::
  "js_env \<Rightarrow> os \<Rightarrow> (jstring \<Rightarrow> jstring \<Rightarrow> bool) \<Rightarrow> jsval \<Rightarrow> archive_error + archive_request" where
  "validateArchiveRequest E os inherited request =
     (let kind = js_string E (js_or (js_opt request (lit ''kind'')) (JStr []));
          format = js_lower E (js_string E (js_or (js_opt request (lit ''format'')) (JStr [])));
          extension = contract_extension kind format;
          name = js_string E (js_or (js_opt request (lit ''suggestedFileName'')) (JStr []));
          payload = js_opt request (lit ''payload'')
      in if extension = None \<and> \<not> inherited kind format then Inl Format_Not_Allowed
         else if name = [] \<or> name \<noteq> path_basename os name \<or> js_includes name (lit ''..'')
              \<or> list_ex (\<lambda>c. c \<in> set reserved_name_chars) name then Inl Name_Invalid
         else (case extension of
                 None \<Rightarrow> Inl Extension_Mismatch
               | Some ext \<Rightarrow>
                   if js_lower E (path_extname os name) \<noteq> ext then Inl Extension_Mismatch
                   else (case env_stringify E payload of
                           None \<Rightarrow> Inl Archive_Too_Large
                         | Some raw \<Rightarrow>
                             if raw = [] \<or> MAX_ARCHIVE_BYTES < utf8_length raw then Inl Archive_Too_Large
                             else (case validatePayload kind payload of
                                     Inl e \<Rightarrow> Inl e
                                   | Inr _ \<Rightarrow> Inr \<lparr>ar_kind = kind, ar_format = format, ar_extension = ext,
                                       ar_name = name, ar_payload = payload\<rparr>))))"

section \<open>Rendering and saving\<close>

definition render_row :: "js_env \<Rightarrow> jsval \<Rightarrow> jstring" where
  "render_row E message =
     lit ''<li><strong>'' @ escapeHtml E (message_sender message) @ lit ''</strong> <span>''
     @ escapeHtml E (message_time message) @ lit ''</span><p>'' @ escapeHtml E (message_body message)
     @ lit ''</p></li>''"

definition conversation_page :: "jstring \<Rightarrow> jstring list \<Rightarrow> jstring" where
  "conversation_page title rows =
     lit ''<!doctype html><html lang='' @ [34] @ lit ''ko'' @ [34] @ lit ''><head><meta charset='' @ [34]
     @ lit ''utf-8'' @ [34] @ lit ''><title>'' @ title @ lit ''</title></head><body><h1>'' @ title
     @ lit ''</h1><ul>'' @ concat rows @ lit ''</ul></body></html>''"

definition payload_messages :: "jsval \<Rightarrow> jsval list" where
  "payload_messages payload = (case own_prop payload (lit ''messages'') of JArr xs \<Rightarrow> xs | _ \<Rightarrow> [])"

definition renderConversationHtml :: "js_env \<Rightarrow> jsval \<Rightarrow> archive_error + jstring" where
  \<comment> \<open>called on a checked payload, whose \<open>messages\<close> is an array; reading a field of a \<open>null\<close> message raises\<close>
  "renderConversationHtml E payload =
     (if list_ex nullish (payload_messages payload) then Inl Type_Error
      else Inr (conversation_page (escapeHtml E (own_prop payload (lit ''channelName'')))
                  (map (render_row E) (payload_messages payload))))"

definition serializeArchive ::
  "js_env \<Rightarrow> os \<Rightarrow> (jstring \<Rightarrow> jstring \<Rightarrow> bool) \<Rightarrow> jsval \<Rightarrow> archive_error + jstring" where
  "serializeArchive E os inherited request =
     (case validateArchiveRequest E os inherited request of
        Inl e \<Rightarrow> Inl e
      | Inr validated \<Rightarrow>
          (case (if ar_format validated = lit ''html'' then renderConversationHtml E (ar_payload validated)
                 else Inr (env_pretty E (ar_payload validated))) of
             Inl e \<Rightarrow> Inl e
           | Inr content \<Rightarrow>
               if MAX_ARCHIVE_BYTES < utf8_length content then Inl Archive_Too_Large else Inr content))"

text \<open>The save dialog: \<open>None\<close> when it was cancelled, else the path; \<open>writable\<close>: the write succeeds.\<close>

record save_result =
  saved :: bool
  saved_path :: jstring
  saved_bytes :: nat

definition saveArchive ::
  "js_env \<Rightarrow> os \<Rightarrow> (jstring \<Rightarrow> jstring \<Rightarrow> bool) \<Rightarrow> jsval \<Rightarrow> jstring option \<Rightarrow> bool \<Rightarrow>
     (archive_error + save_result) \<times> (jstring \<times> jstring) list" where
  \<comment> \<open>the result, and the files written as pairs of path and content\<close>
  "saveArchive E os inherited request dialog writable =
     (case validateArchiveRequest E os inherited request of
        Inl e \<Rightarrow> (Inl e, [])
      | Inr validated \<Rightarrow>
          (case serializeArchive E os inherited request of
             Inl e \<Rightarrow> (Inl e, [])
           | Inr content \<Rightarrow>
               (case dialog of
                  None \<Rightarrow> (Inr \<lparr>saved = False, saved_path = [], saved_bytes = 0\<rparr>, [])
                | Some filePath \<Rightarrow>
                    if filePath = [] then (Inr \<lparr>saved = False, saved_path = [], saved_bytes = 0\<rparr>, [])
                    else if \<not> path_isAbsolute os filePath then (Inl Path_Not_Absolute, [])
                    else if js_lower E (path_extname os filePath) \<noteq> ar_extension validated
                         then (Inl Target_Extension_Mismatch, [])
                    else if \<not> writable then (Inl Write_Failed, [])
                    else (Inr \<lparr>saved = True, saved_path = filePath, saved_bytes = utf8_length content\<rparr>,
                          [(filePath, content)]))))"

text \<open>The two handlers of the main process share the variable \<open>lastArchivePath\<close>.\<close>

definition archive_save_handler ::
  "js_env \<Rightarrow> os \<Rightarrow> (jstring \<Rightarrow> jstring \<Rightarrow> bool) \<Rightarrow> jsval \<Rightarrow> jstring option \<Rightarrow> bool \<Rightarrow> jstring \<Rightarrow>
     (archive_error + save_result) \<times> jstring" where
  "archive_save_handler E os inherited request dialog writable lastArchivePath =
     (case fst (saveArchive E os inherited request dialog writable) of
        Inl e \<Rightarrow> (Inl e, lastArchivePath)
      | Inr result \<Rightarrow> (Inr result, if saved result then saved_path result else lastArchivePath))"

definition archive_show_handler :: "os \<Rightarrow> jstring \<Rightarrow> bool \<times> jstring" where
  \<comment> \<open>\<open>shown\<close> and \<open>fileName\<close>\<close>
  "archive_show_handler os lastArchivePath =
     (if lastArchivePath = [] then (False, []) else (True, path_basename os lastArchivePath))"

section \<open>Properties\<close>

lemma contract_extension_Some:
  "contract_extension kind format = Some ext \<longleftrightarrow>
     (kind = lit ''mail'' \<and> format = lit ''json'' \<and> ext = lit ''.json'')
   \<or> (kind = lit ''messenger'' \<and> format = lit ''json'' \<and> ext = lit ''.json'')
   \<or> (kind = lit ''messenger'' \<and> format = lit ''html'' \<and> ext = lit ''.html'')"
  by (auto simp: contract_extension_def ARCHIVE_CONTRACTS_def split: if_splits)

lemma validateArchiveRequest_ok:
  assumes "validateArchiveRequest E os inherited request = Inr a"
  shows "contract_extension (ar_kind a) (ar_format a) = Some (ar_extension a)"
    and "ar_name a \<noteq> []" "ar_name a = path_basename os (ar_name a)" "\<not> js_includes (ar_name a) (lit ''..'')"
    and "\<forall>c\<in>set (ar_name a). c \<notin> set reserved_name_chars"
    and "js_lower E (path_extname os (ar_name a)) = ar_extension a"
    and "\<exists>raw. env_stringify E (ar_payload a) = Some raw \<and> utf8_length raw \<le> MAX_ARCHIVE_BYTES"
    and "validatePayload (ar_kind a) (ar_payload a) = Inr ()"
  using assms
  by (auto simp: validateArchiveRequest_def Let_def list_ex_iff split: if_splits option.splits sum.splits)

lemma basename_plain:
  assumes "set s \<inter> {47, 58, 92} = {}"
  shows "path_basename os s = s"
proof -
  have sep: "\<forall>c\<in>set (rev s). \<not> is_sep os c" using assms by (auto simp: is_sep_def)
  have drive: "\<not> drive_letter s"
  proof
    assume "drive_letter s"
    then have "s ! 1 = 58" "1 < length s" by (simp_all add: drive_letter_def)
    then have "58 \<in> set s" by (metis nth_mem)
    with assms show False by simp
  qed
  have "dropWhile (is_sep os) (rev s) = rev s" using sep by (cases "rev s") auto
  moreover have "takeWhile (\<lambda>c. \<not> is_sep os c) (rev s) = rev s" using sep by (rule iffD2 [OF takeWhile_eq_all_conv])
  ultimately have "rev (takeWhile (\<lambda>c. \<not> is_sep os c) (dropWhile (is_sep os) (rev s))) = s" by (simp only: rev_rev_ident)
  then show ?thesis using drive by (simp add: path_basename_def)
qed

lemma reserved_names: "set reserved_name_chars = {60, 62, 58, 34, 47, 92, 124, 63, 42, 0}"
  by (simp only: reserved_name_chars_def list.set)

lemma plain_name:
  "n = [] \<or> n \<noteq> path_basename os n \<or> js_includes n dots \<or> list_ex (\<lambda>c. c \<in> set reserved_name_chars) n
     \<longleftrightarrow> \<not> (n \<noteq> [] \<and> \<not> js_includes n dots \<and> set n \<inter> set reserved_name_chars = {})"
proof -
  have "{47, 58, 92} \<subseteq> set reserved_name_chars" by (simp add: reserved_names)
  then have "path_basename os n = n" if "set n \<inter> set reserved_name_chars = {}"
    using that by (intro basename_plain) fast
  then show ?thesis by (auto simp: list_ex_iff)
qed

text \<open>The schema of archives, in terms of the texts they hold.\<close>

definition text_within :: "nat \<Rightarrow> jsval \<Rightarrow> bool" where
  "text_within n v \<longleftrightarrow> (\<exists>s. v = JStr s \<and> length s \<le> n)"

definition text_of_first :: "nat \<Rightarrow> jsval list \<Rightarrow> bool" where
  \<comment> \<open>the first value that is given is such a text, or none is given\<close>
  "text_of_first n vs \<longleftrightarrow> (\<forall>v. List.find (\<lambda>v. \<not> nullish v) vs = Some v \<longrightarrow> text_within n v)"

definition mail_entry :: "jsval \<Rightarrow> bool" where
  "mail_entry m \<longleftrightarrow> text_within 512 (own_prop m (lit ''messageId''))
     \<and> (truthy (own_prop m (lit ''subject'')) \<longrightarrow> text_within 20000 (own_prop m (lit ''subject'')))
     \<and> (truthy (own_prop m (lit ''sender'')) \<longrightarrow> text_within 1024 (own_prop m (lit ''sender'')))"

definition message_entry :: "jsval \<Rightarrow> bool" where
  "message_entry m \<longleftrightarrow> text_of_first 1024 [own_prop m (lit ''senderName''), own_prop m (lit ''sender'')]
     \<and> text_of_first 20000 [own_prop m (lit ''bodyText''), own_prop m (lit ''text'')]
     \<and> text_of_first 128 [own_prop m (lit ''createdAt''), own_prop m (lit ''sentAt'')]"

definition archive_schema :: "jstring \<Rightarrow> jsval \<Rightarrow> bool" where
  "archive_schema kind payload \<longleftrightarrow>
     (if kind = lit ''mail''
      then \<exists>mails. own_prop payload (lit ''archiveType'') = JStr (lit ''mail.local-archive'')
             \<and> own_prop payload (lit ''mails'') = JArr mails \<and> length mails \<le> 5000 \<and> list_all mail_entry mails
      else \<exists>messages. own_prop payload (lit ''archiveType'') = JStr (lit ''messenger.conversation'')
             \<and> text_within 1024 (own_prop payload (lit ''channelName''))
             \<and> own_prop payload (lit ''messages'') = JArr messages \<and> length messages \<le> 10000 \<and> list_all message_entry messages)"

lemma validateText_ok: "validateText v field n = Inr u \<longleftrightarrow> text_within n v"
  by (cases v) (auto simp: validateText_def text_within_def)

lemma text_within_Nil [simp]: "text_within n (JStr [])"
  by (simp add: text_within_def)

lemma text_within_or: "text_within n (js_or v (JStr [])) \<longleftrightarrow> (truthy v \<longrightarrow> text_within n v)"
  by (simp add: js_or_def)

lemma text_within_first: "text_within n (js_coalesce a (js_coalesce b (JStr []))) \<longleftrightarrow> text_of_first n [a, b]"
  by (simp add: js_coalesce_def text_of_first_def)

lemma archive_field: "own_prop v k \<noteq> JUndef \<Longrightarrow> (\<exists>ps. v = JObj ps) \<or> (\<exists>s. v = JStr s) \<or> (\<exists>xs. v = JArr xs)"
  by (cases v) auto

lemma validatePayload_ok: "validatePayload kind payload = Inr () \<longleftrightarrow> (\<exists>ps. payload = JObj ps) \<and> archive_schema kind payload"
proof -
  have mail: "validate_mail m = Inr () \<longleftrightarrow> mail_entry m" for m
    by (simp add: validate_mail_def mail_entry_def validateText_ok text_within_or js_opt_def)
  have message: "validate_message m = Inr () \<longleftrightarrow> message_entry m" for m
    by (simp add: validate_message_def message_entry_def message_sender_def message_body_def message_time_def
        validateText_ok text_within_first js_opt_def)
  show ?thesis
  proof (cases payload)
    case (JObj ps)
    show ?thesis
    proof (cases "kind = lit ''mail''")
      case True
      then show ?thesis
        by (cases "own_prop payload (lit ''mails'')")
          (auto simp: JObj validatePayload_def archive_schema_def mail list_all_iff)
    next
      case False
      then show ?thesis
        by (cases "own_prop payload (lit ''messages'')")
          (auto simp: JObj validatePayload_def archive_schema_def message list_all_iff validateText_ok)
    qed
  qed (auto simp: validatePayload_def)
qed

text \<open>C5. The main process accepts exactly these archives: of one of the three combinations of kind and format; under the
  name of a plain file, without separators, drive, reserved characters or two dots in a row, with the extension of its
  format; with an object as payload, whose JSON has at most 10 MiB and whose texts keep the schema of its kind: at most 5000
  mails, each with an identifier of at most 512 units and, where they are given, a subject of at most 20000 and a sender of
  at most 1024; or a channel of at most 1024 units and at most 10000 messages, of whose alternative fields the first that is
  given is a sender of at most 1024, a text of at most 20000 and a time of at most 128 units. What is accepted is what was
  asked for.\<close>

theorem accepted_archive_request:
  "validateArchiveRequest E os inherited request =
       Inr \<lparr>ar_kind = kind, ar_format = format, ar_extension = ext, ar_name = name, ar_payload = payload\<rparr> \<longleftrightarrow>
     kind = js_string E (js_or (own_prop request (lit ''kind'')) (JStr []))
   \<and> format = js_lower E (js_string E (js_or (own_prop request (lit ''format'')) (JStr [])))
   \<and> name = js_string E (js_or (own_prop request (lit ''suggestedFileName'')) (JStr []))
   \<and> payload = own_prop request (lit ''payload'')
   \<and> (kind, format, ext) \<in>
       {(lit ''mail'', lit ''json'', lit ''.json''), (lit ''messenger'', lit ''json'', lit ''.json''),
        (lit ''messenger'', lit ''html'', lit ''.html'')}
   \<and> name \<noteq> [] \<and> \<not> js_includes name (lit ''..'') \<and> set name \<inter> {60, 62, 58, 34, 47, 92, 124, 63, 42, 0} = {}
   \<and> js_lower E (path_extname os name) = ext
   \<and> (\<exists>raw. env_stringify E payload = Some raw \<and> raw \<noteq> [] \<and> utf8_length raw \<le> 10485760)
   \<and> (\<exists>ps. payload = JObj ps) \<and> archive_schema kind payload" (is "?accepted \<longleftrightarrow> ?fits")
proof -
  define k f n p where fields: "k = js_string E (js_or (own_prop request (lit ''kind'')) (JStr []))"
    "f = js_lower E (js_string E (js_or (own_prop request (lit ''format'')) (JStr [])))"
    "n = js_string E (js_or (own_prop request (lit ''suggestedFileName'')) (JStr []))"
    "p = own_prop request (lit ''payload'')"
  have allowed: "contract_extension kind format = Some ext \<longleftrightarrow> (kind, format, ext) \<in>
       {(lit ''mail'', lit ''json'', lit ''.json''), (lit ''messenger'', lit ''json'', lit ''.json''),
        (lit ''messenger'', lit ''html'', lit ''.html'')}" by (simp add: contract_extension_Some)
  have "?accepted \<longleftrightarrow> kind = k \<and> format = f \<and> name = n \<and> payload = p \<and> contract_extension k f = Some ext
      \<and> (n \<noteq> [] \<and> \<not> js_includes n (lit ''..'') \<and> set n \<inter> set reserved_name_chars = {})
      \<and> js_lower E (path_extname os n) = ext
      \<and> (\<exists>raw. env_stringify E p = Some raw \<and> raw \<noteq> [] \<and> utf8_length raw \<le> 10485760) \<and> validatePayload k p = Inr ()"
    unfolding validateArchiveRequest_def Let_def js_opt_def fields [symmetric] plain_name MAX_ARCHIVE_BYTES_def
    by (auto split: if_splits option.splits sum.splits)
  also have "\<dots> \<longleftrightarrow> ?fits"
    unfolding fields [symmetric] allowed [symmetric] validatePayload_ok reserved_names [symmetric] by blast
  finally show ?thesis .
qed

definition sample_payload :: jsval where
  "sample_payload = JObj [(lit ''archiveType'', JStr (lit ''messenger.conversation'')),
     (lit ''channelName'', JStr (lit ''a'')),
     (lit ''messages'', JArr [JObj [(lit ''sender'', JStr (lit ''<b>''))]])]"

definition sample_archive :: jsval where
  "sample_archive = JObj [(lit ''kind'', JStr (lit ''messenger'')), (lit ''format'', JStr (lit ''html'')),
     (lit ''suggestedFileName'', JStr (lit ''a.html'')), (lit ''payload'', sample_payload)]"

definition archive_env :: js_env where
  "archive_env = (sample_env JNull)\<lparr>env_stringify := (\<lambda>v. Some (lit ''{}''))\<rparr>"

lemma sample_payload_valid: "validatePayload (lit ''messenger'') sample_payload = Inr ()"
  by (simp add: validatePayload_def sample_payload_def validate_message_def validateText_def message_sender_def
      message_body_def message_time_def js_opt_def js_coalesce_def nullish_def)

lemma sample_archive_valid:
  "validateArchiveRequest archive_env Windows (\<lambda>k f. False) sample_archive =
     Inr \<lparr>ar_kind = lit ''messenger'', ar_format = lit ''html'', ar_extension = lit ''.html'',
          ar_name = lit ''a.html'', ar_payload = sample_payload\<rparr>"
proof -
  have fields: "js_string E (js_or (js_opt sample_archive (lit ''kind'')) (JStr [])) = lit ''messenger''"
    "js_string E (js_or (js_opt sample_archive (lit ''format'')) (JStr [])) = lit ''html''"
    "js_string E (js_or (js_opt sample_archive (lit ''suggestedFileName'')) (JStr [])) = lit ''a.html''"
    "js_opt sample_archive (lit ''payload'') = sample_payload" for E
    by (simp_all add: sample_archive_def js_opt_def js_or_def)
  have "js_lower archive_env (lit ''html'') = lit ''html''"
    "js_lower archive_env (path_extname Windows (lit ''a.html'')) = lit ''.html''"
    "path_basename Windows (lit ''a.html'') = lit ''a.html''"
    "\<not> js_includes (lit ''a.html'') (lit ''..'')"
    "\<not> list_ex (\<lambda>c. c \<in> set reserved_name_chars) (lit ''a.html'')"
    by code_simp+
  moreover have "contract_extension (lit ''messenger'') (lit ''html'') = Some (lit ''.html'')"
    by (simp add: contract_extension_Some)
  moreover have "env_stringify archive_env v = Some (lit ''{}'')" "utf8_length (lit ''{}'') = 2" for v
    by (simp_all add: archive_env_def lit_def is_high_def is_low_def)
  ultimately show ?thesis
    unfolding validateArchiveRequest_def Let_def fields
    by (simp add: sample_payload_valid MAX_ARCHIVE_BYTES_def)
qed

text \<open>The text of a page with all contents left out.\<close>

definition markup_of :: "jstring \<Rightarrow> jstring" where
  "markup_of s = filter (\<lambda>c. c \<in> markup_chars) s"

lemma markup_of_append [simp]: "markup_of (s @ t) = markup_of s @ markup_of t"
  by (simp add: markup_of_def)

lemma markup_of_Cons: "markup_of (c # s) = (if c \<in> markup_chars then c # markup_of s else markup_of s)"
  by (simp add: markup_of_def)

lemma markup_of_escaped [simp]: "markup_of (escapeHtml E v) = []"
  using archive_esc.esc_safe by (auto simp: escapeHtml_def markup_of_def filter_empty_conv)

lemma markup_of_concat: "(\<And>x. x \<in> set xs \<Longrightarrow> markup_of x = m) \<Longrightarrow> markup_of (concat xs) = concat (replicate (length xs) m)"
  by (induction xs) (auto simp: markup_of_def)

definition row_markup :: jstring where
  "row_markup = markup_of (lit ''<li><strong></strong> <span></span><p></p></li>'')"

lemma markup_of_row: "markup_of (render_row E m) = row_markup"
proof -
  have "markup_of (render_row E m) = markup_of (lit ''<li><strong>'') @ markup_of (lit ''</strong> <span>'')
     @ markup_of (lit ''</span><p>'') @ markup_of (lit ''</p></li>'')"
    by (simp add: render_row_def)
  also have "\<dots> = row_markup"
    unfolding row_markup_def markup_of_append [symmetric] by (simp add: lit_def)
  finally show ?thesis .
qed

text \<open>C6. The HTML export of a conversation cannot be injected into: whatever the channel name, the senders,
  times and texts are, the characters that make up tags and attributes in the page are those of the
  empty page and of one fixed list item per message.\<close>

theorem conversation_html_injection_free:
  assumes "renderConversationHtml E payload = Inr page"
  shows "markup_of page = markup_of (conversation_page [] [concat (replicate (length (payload_messages payload)) row_markup)])"
proof -
  have idem: "markup_of (markup_of s) = markup_of s" for s by (simp add: markup_of_def)
  have row: "markup_of row_markup = row_markup" by (simp add: row_markup_def idem)
  have "markup_of (concat (replicate n row_markup)) = concat (replicate n row_markup)" for n
    by (induction n) (simp_all add: row, simp add: markup_of_def)
  moreover have "markup_of (concat (map (render_row E) xs)) = concat (replicate (length xs) row_markup)" for xs
    using markup_of_concat [of "map (render_row E) xs" row_markup] markup_of_row by auto
  ultimately show ?thesis
    using assms by (auto simp: renderConversationHtml_def conversation_page_def markup_of_Cons split: if_splits)
qed

theorem conversation_html_injection_free_witness:
  "\<exists>page. renderConversationHtml archive_env sample_payload = Inr page
     \<and> markup_of page = markup_of (conversation_page [] [row_markup])"
proof -
  obtain page where p: "renderConversationHtml archive_env sample_payload = Inr page"
    by (simp add: renderConversationHtml_def sample_payload_def payload_messages_def nullish_def)
  from conversation_html_injection_free [OF p] p show ?thesis
    by (simp add: sample_payload_def payload_messages_def)
qed

text \<open>Saving writes at most one file. It writes exactly when the request is accepted, its content is at
  most 10 MiB, and the user chose an absolute path with the extension of the format; the file then
  holds the serialized archive and the result names it with its size. Nothing is written otherwise.\<close>

theorem saveArchive_writes:
  "snd (saveArchive E os inherited request dialog writable) =
     (case (serializeArchive E os inherited request, dialog) of
        (Inr content, Some filePath) \<Rightarrow>
          if filePath \<noteq> [] \<and> path_isAbsolute os filePath \<and> writable
             \<and> (\<exists>a. validateArchiveRequest E os inherited request = Inr a
                   \<and> js_lower E (path_extname os filePath) = ar_extension a)
          then [(filePath, content)] else []
      | _ \<Rightarrow> [])
   \<and> (\<forall>path content. snd (saveArchive E os inherited request dialog writable) = [(path, content)] \<longrightarrow>
        utf8_length content \<le> 10485760
        \<and> fst (saveArchive E os inherited request dialog writable) =
            Inr \<lparr>saved = True, saved_path = path, saved_bytes = utf8_length content\<rparr>)"
  by (auto simp: saveArchive_def serializeArchive_def MAX_ARCHIVE_BYTES_def
      split: sum.splits option.splits if_splits)

theorem saveArchive_writes_witness:
  "\<exists>content. snd (saveArchive archive_env Windows (\<lambda>k f. False) sample_archive (Some (lit ''C:/a.html'')) True)
      = [(lit ''C:/a.html'', content)] \<and> utf8_length content \<le> 10485760"
proof -
  obtain page where page: "renderConversationHtml archive_env sample_payload = Inr page"
    by (simp add: renderConversationHtml_def sample_payload_def payload_messages_def nullish_def)
  have "case renderConversationHtml archive_env sample_payload of Inl e \<Rightarrow> False | Inr p \<Rightarrow> length p < 400"
    by code_simp
  with page utf8_length_bounds [of page] have "utf8_length page \<le> MAX_ARCHIVE_BYTES"
    by (simp add: MAX_ARCHIVE_BYTES_def)
  with page have "serializeArchive archive_env Windows (\<lambda>k f. False) sample_archive = Inr page"
    by (simp add: serializeArchive_def sample_archive_valid)
  moreover have "path_isAbsolute Windows (lit ''C:/a.html'')"
    "js_lower archive_env (path_extname Windows (lit ''C:/a.html'')) = lit ''.html''"
    by code_simp+
  ultimately have "snd (saveArchive archive_env Windows (\<lambda>k f. False) sample_archive (Some (lit ''C:/a.html'')) True)
      = [(lit ''C:/a.html'', page)]"
    using saveArchive_writes [of archive_env Windows "\<lambda>k f. False" sample_archive "Some (lit ''C:/a.html'')" True]
    by (simp add: sample_archive_valid)
  then show ?thesis
    using saveArchive_writes [of archive_env Windows "\<lambda>k f. False" sample_archive "Some (lit ''C:/a.html'')" True]
    by blast
qed

end
