(* ===== verification/Subagent_State.thy ===== *)
theory Subagent_State
  imports Interfaces
begin

text \<open>
  The task register of the designer and developer agents (\<open>scripts/moaworks-subagent-state.mjs\<close>): a
  command line tool whose commands move a task through its states, keep the write locks of the two
  agents, count formal failures per issue and append every change to the history of the task.
\<close>

section \<open>The files\<close>

text \<open>
  An absolute path is the list of its segments (POSIX). The repository is at \<open>repo\<close>; the documents are files or
  directories in it. The tool's own files are kept apart: the state, the handoff text and the last
  result of each task, under the id the tool builds their path from.
\<close>

type_synonym segments = "jstring list"

datatype file_node = File jstring | Directory

datatype agent_error =
    Missing_Argument jstring
  | Bad_Id
  | Unknown_Task
  | Already_Registered
  | Outside_Repository
  | File_Missing
  | Read_Failed
  | Wrong_Task
  | Wrong_Issue
  | Wrong_Outcome
  | Wrong_Status
  | Wrong_Decision
  | Usage
  | Type_Error

fun normalize_from :: "segments \<Rightarrow> segments \<Rightarrow> segments" where
  "normalize_from acc [] = acc"
| "normalize_from acc (s # ss) =
     (if s = [] \<or> s = lit ''.'' then normalize_from acc ss
      else if s = lit ''..'' then normalize_from (butlast acc) ss
      else normalize_from (acc @ [s]) ss)"

definition path_resolve :: "segments \<Rightarrow> jstring \<Rightarrow> segments" where
  \<comment> \<open>\<open>path.resolve(repo, input)\<close>\<close>
  "path_resolve repo input =
     (if js_starts_with input (lit ''/'') then normalize_from [] (js_split 47 input)
      else normalize_from repo (js_split 47 input))"

fun relative_segments :: "segments \<Rightarrow> segments \<Rightarrow> segments" where
  "relative_segments [] to = to"
| "relative_segments (x # xs) [] = replicate (Suc (length xs)) (lit ''..'')"
| "relative_segments (x # xs) (y # ys) =
     (if x = y then relative_segments xs ys else replicate (Suc (length xs)) (lit ''..'') @ y # ys)"

definition path_relative :: "segments \<Rightarrow> segments \<Rightarrow> jstring" where
  \<comment> \<open>\<open>path.relative(from, to)\<close>\<close>
  "path_relative from to = js_join (lit ''/'') (relative_segments from to)"

definition slashes :: "jstring \<Rightarrow> jstring" where
  "slashes s = map (\<lambda>c. if c = 92 then 47 else c) s"

section \<open>Tasks\<close>

datatype task_status =
    READY | RUNNING | USER_APPROVAL_REQUIRED | DESIGN_REVIEW_REQUIRED | RESUME_REQUIRED
  | INVALID_FAILURE_REPORT | REWORK_REQUIRED | DIRECT_IMPLEMENTATION_REQUIRED | REWORK_READY
  | COMPLETE | COMPLETE_WITH_MINOR_FOLLOWUP
  | No_Status        \<comment> \<open>the state file has no status: a function was stored, which JSON leaves out\<close>
  | Object_Status    \<comment> \<open>the status is an empty object\<close>

datatype owner = OWOUL1 | OWOUL2

text \<open>
  A failure count starts at 0. Under an issue id that every object inherits a property for, it is the text of
  that property instead, and adding 1 appends to the text.
\<close>

datatype failure_count = Count nat | Count_Text

datatype run_event =
    INITIALIZED
  | AGENT_BOUND jstring
  | DISPATCHED
  | USER_APPROVAL_RECORDED jsval
  | SUCCESS_RECORDED
  | INTERRUPTION_RECORDED jsval
  | INVALID_REPORT_RECORDED "jstring list"
  | FORMAL_FAILURE_RECORDED failure_count
  | THIRD_FAILURE_TAKEOVER failure_count
  | REWORK_INSTRUCTIONS_UPDATED
  | DEVELOPER_RESUMED "jstring option"
  | DESIGN_REVIEW_COMPLETED jstring

record task_state =
  task_id :: jstring
  issue_id :: jstring
  status :: task_status
  current_owner :: owner
  agent_id :: "jstring option"
  approved_design_paths :: "jstring list"
  execution_plan_paths :: "jstring list"
  workorder_path :: jstring
  worker_prompt_path :: jstring
  issue_failures :: "(jstring \<times> failure_count) list"
  developer_can_write :: bool
  designer_can_write :: bool
  created_at :: nat
  updated_at :: nat
  history :: "(nat \<times> run_event) list"

record agent_world =
  files :: "segments \<Rightarrow> file_node option"
  states :: "jstring \<Rightarrow> task_state option"
  handoffs :: "jstring \<Rightarrow> jstring option"
  results :: "jstring \<Rightarrow> jstring option"

datatype cmd_output = No_Output | Handoff_Path segments | State_Printed task_state

section \<open>Arguments\<close>

datatype arg_value = Flag | Value jstring

text \<open>
  The positional arguments are gone once an option of the name \<open>_\<close> has overwritten their list: \<open>None\<close>; a later positional
  argument then raises.
\<close>

record cli_args =
  positional :: "jstring list option"
  options :: "jstring \<Rightarrow> arg_value option"

definition set_option :: "jstring \<Rightarrow> arg_value \<Rightarrow> cli_args \<Rightarrow> cli_args" where
  "set_option key v r =
     (if key = lit ''_'' then r\<lparr>positional := None\<rparr> else r\<lparr>options := (options r)(key \<mapsto> v)\<rparr>)"

definition is_option :: "jstring \<Rightarrow> bool" where
  "is_option s \<longleftrightarrow> js_starts_with s (lit ''--'')"

fun argsOf_from :: "cli_args \<Rightarrow> jstring list \<Rightarrow> agent_error + cli_args" where
  "argsOf_from r [] = Inr r"
| "argsOf_from r [v] =
     (if \<not> is_option v
      then (case positional r of None \<Rightarrow> Inl Type_Error | Some ps \<Rightarrow> Inr (r\<lparr>positional := Some (ps @ [v])\<rparr>))
      else Inr (set_option (drop 2 v) Flag r))"
| "argsOf_from r (v # w # rest) =
     (if \<not> is_option v
      then (case positional r of None \<Rightarrow> Inl Type_Error
            | Some ps \<Rightarrow> argsOf_from (r\<lparr>positional := Some (ps @ [v])\<rparr>) (w # rest))
      else if w = [] \<or> is_option w then argsOf_from (set_option (drop 2 v) Flag r) (w # rest)
      else argsOf_from (set_option (drop 2 v) (Value w) r) rest)"

definition argsOf :: "jstring list \<Rightarrow> agent_error + cli_args" where
  "argsOf argv = argsOf_from \<lparr>positional = Some [], options = (\<lambda>k. None)\<rparr> argv"

definition required :: "cli_args \<Rightarrow> jstring \<Rightarrow> agent_error + jstring" where
  "required args key = (case options args key of Some (Value v) \<Rightarrow> Inr v | _ \<Rightarrow> Inl (Missing_Argument key))"

definition id_char :: "nat \<Rightarrow> bool" where
  "id_char c \<longleftrightarrow> (65 \<le> c \<and> c \<le> 90) \<or> (97 \<le> c \<and> c \<le> 122) \<or> (48 \<le> c \<and> c \<le> 57) \<or> c = 46 \<or> c = 95 \<or> c = 45"

definition safeId :: "jstring \<Rightarrow> agent_error + jstring" where
  "safeId v = (if v \<noteq> [] \<and> list_all id_char v then Inr v else Inl Bad_Id)"

definition splitPaths :: "arg_value option \<Rightarrow> jstring list" where
  "splitPaths v = (case v of Some (Value s) \<Rightarrow> filter (\<lambda>x. x \<noteq> []) (map js_trim (js_split 44 s)) | _ \<Rightarrow> [])"

section \<open>Paths and stored state\<close>

definition baseDir :: "segments \<Rightarrow> segments" where
  "baseDir repo = repo @ [lit ''.agents'', lit ''moaworks-subagent'']"

definition runsDir :: "segments \<Rightarrow> segments" where
  "runsDir repo = baseDir repo @ [lit ''runs'']"

definition runDir :: "segments \<Rightarrow> jstring \<Rightarrow> agent_error + segments" where
  "runDir repo taskId = bind_r (safeId taskId) (\<lambda>i. Inr (normalize_from (runsDir repo) [i]))"

definition loadState :: "agent_world \<Rightarrow> jstring \<Rightarrow> agent_error + task_state" where
  "loadState w taskId = bind_r (safeId taskId)
     (\<lambda>i. case states w i of None \<Rightarrow> Inl Unknown_Task | Some st \<Rightarrow> Inr st)"

definition writeState :: "task_state \<Rightarrow> agent_world \<Rightarrow> agent_world" where
  "writeState st w = w\<lparr>states := (states w)(task_id st \<mapsto> st)\<rparr>"

definition saveState :: "nat \<Rightarrow> task_state \<Rightarrow> run_event \<Rightarrow> agent_world \<Rightarrow> agent_world" where
  "saveState now st ev w = writeState (st\<lparr>updated_at := now, history := history st @ [(now, ev)]\<rparr>) w"

definition resolveRepoFile :: "segments \<Rightarrow> agent_world \<Rightarrow> jstring \<Rightarrow> agent_error + segments \<times> jstring" where
  \<comment> \<open>the fields \<open>absolute\<close> and \<open>relative\<close>\<close>
  "resolveRepoFile repo w input =
     (let absolute = path_resolve repo input; relative = path_relative repo absolute
      in if js_starts_with relative (lit ''..'') \<or> js_starts_with relative (lit ''/'') then Inl Outside_Repository
         else if files w absolute = None then Inl File_Missing
         else Inr (absolute, slashes relative))"

definition read_text :: "agent_world \<Rightarrow> segments \<Rightarrow> agent_error + jstring" where
  "read_text w p = (case files w p of Some (File s) \<Rightarrow> Inr s | _ \<Rightarrow> Inl Read_Failed)"

text \<open>The Korean headings of a handoff text.\<close>

definition heading_id :: jstring where "heading_id = [51089, 50629, 32, 49885, 48324, 51088]"
definition heading_unassigned :: jstring where "heading_unassigned = [48120, 54624, 45817]"
definition heading_document :: jstring where "heading_document = [51204, 45804, 32, 47928, 49436, 58, 32]"
definition heading_result :: jstring where
  "heading_result = [44208, 44284, 32, 51228, 52636, 10, 10, 45, 32, 51089, 50629, 51088, 32, 48372, 44256, 49436,
     32, 51089, 49457, 10, 45, 32, 44396, 51312, 54868, 32, 44208, 44284, 58, 32]"
definition handoff_rules :: jstring where
  "handoff_rules = [10, 45, 32, 51089, 50629, 51088, 32, 48372, 44256, 32, 51204, 32, 51473, 45800, 32, 44552, 51648, 10,
     45, 32, 51473, 45800, 32, 49884, 32] @ lit ''outcome'' @ [51008, 32] @ lit ''INTERRUPTED''
     @ [51060, 47728, 32, 51116, 44060, 32, 51648, 51216, 51012, 32, 48152, 46300, 49884, 32, 44592, 47197]"

definition document_section :: "segments \<Rightarrow> agent_world \<Rightarrow> jstring \<Rightarrow> agent_error + jstring" where
  "document_section repo w file =
     bind_r (read_text w (normalize_from repo (js_split 47 file)))
       (\<lambda>s. Inr (lit ''# '' @ heading_document @ file @ [10, 10] @ js_trim s))"

definition renderHandoff :: "segments \<Rightarrow> task_state \<Rightarrow> agent_world \<Rightarrow> agent_error + agent_world" where
  "renderHandoff repo st w =
     bind_r (read_text w (baseDir repo @ [lit ''owoul2-developer-prompt.md''])) (\<lambda>prompt.
     bind_r (map_r (document_section repo w)
               (approved_design_paths st @ execution_plan_paths st @ [workorder_path st, worker_prompt_path st])) (\<lambda>documents.
     bind_r (runDir repo (task_id st)) (\<lambda>dir.
       let sections =
             [js_trim prompt,
              lit ''# '' @ heading_id @ [10, 10] @ lit ''- taskId: '' @ task_id st @ [10] @ lit ''- issueId: '' @ issue_id st
                @ [10] @ lit ''- agentId: '' @ (case agent_id st of None \<Rightarrow> heading_unassigned | Some a \<Rightarrow> a)]
             @ documents
             @ [lit ''# '' @ heading_result @ slashes (path_relative repo (dir @ [lit ''result.latest.json'']))
                @ handoff_rules]
       in Inr (w\<lparr>handoffs := (handoffs w)(task_id st \<mapsto> js_join ([10, 10] @ lit ''---'' @ [10, 10]) sections @ [10])\<rparr>))))"

section \<open>The commands\<close>

text \<open>A command returns its output and the new world; a command that fails has changed nothing, except \<open>init\<close>.\<close>

definition repo_file_list :: "segments \<Rightarrow> agent_world \<Rightarrow> arg_value option \<Rightarrow> agent_error + jstring list" where
  "repo_file_list repo w v = map_r (\<lambda>x. bind_r (resolveRepoFile repo w x) (\<lambda>r. Inr (snd r))) (splitPaths v)"

definition initialState ::
  "segments \<Rightarrow> nat \<Rightarrow> cli_args \<Rightarrow> agent_world \<Rightarrow> agent_error + segments \<times> task_state" where
  \<comment> \<open>the first half of \<open>commandInit\<close>: the checks, and the state it writes\<close>
  "initialState repo now args w =
     bind_r (required args (lit ''task-id'')) (\<lambda>t. bind_r (safeId t) (\<lambda>taskId.
     bind_r (required args (lit ''issue-id'')) (\<lambda>i. bind_r (safeId i) (\<lambda>issueId.
     bind_r (required args (lit ''workorder'')) (\<lambda>wo. bind_r (resolveRepoFile repo w wo) (\<lambda>workorder.
     bind_r (required args (lit ''worker-prompt'')) (\<lambda>wp. bind_r (resolveRepoFile repo w wp) (\<lambda>workerPrompt.
     bind_r (repo_file_list repo w (options args (lit ''design''))) (\<lambda>designs.
     bind_r (repo_file_list repo w (options args (lit ''plan''))) (\<lambda>plans.
     bind_r (runDir repo taskId) (\<lambda>directory.
     bind_r (check_r (states w taskId = None) Already_Registered) (\<lambda>_.
       Inr (directory,
         \<lparr>task_id = taskId, issue_id = issueId, status = READY, current_owner = OWOUL1, agent_id = None,
          approved_design_paths = designs, execution_plan_paths = plans, workorder_path = snd workorder,
          worker_prompt_path = snd workerPrompt, issue_failures = [], developer_can_write = False,
          designer_can_write = False, created_at = now, updated_at = now,
          history = [(now, INITIALIZED)]\<rparr>)))))))))))))"

definition commandInit ::
  "segments \<Rightarrow> nat \<Rightarrow> cli_args \<Rightarrow> agent_world \<Rightarrow> (agent_error + cmd_output) \<times> agent_world" where
  "commandInit repo now args w =
     (case initialState repo now args w of
        Inl e \<Rightarrow> (Inl e, w)
      | Inr (directory, st) \<Rightarrow>
          (case renderHandoff repo st (writeState st w) of
             Inl e \<Rightarrow> (Inl e, writeState st w)
           | Inr w1 \<Rightarrow> (Inr (Handoff_Path (directory @ [lit ''handoff.md''])), w1)))"

definition commandBindAgent :: "nat \<Rightarrow> cli_args \<Rightarrow> agent_world \<Rightarrow> agent_error + cmd_output \<times> agent_world" where
  "commandBindAgent now args w =
     bind_r (required args (lit ''task-id'')) (\<lambda>t. bind_r (loadState w t) (\<lambda>st.
     bind_r (required args (lit ''agent-id'')) (\<lambda>a.
       Inr (No_Output, saveState now (st\<lparr>agent_id := Some a\<rparr>) (AGENT_BOUND a) w))))"

definition commandDispatch :: "segments \<Rightarrow> nat \<Rightarrow> cli_args \<Rightarrow> agent_world \<Rightarrow> agent_error + cmd_output \<times> agent_world" where
  "commandDispatch repo now args w =
     bind_r (required args (lit ''task-id'')) (\<lambda>t. bind_r (loadState w t) (\<lambda>st.
       let st1 = st\<lparr>status := RUNNING, current_owner := OWOUL2, developer_can_write := True,
                   designer_can_write := False\<rparr>
       in bind_r (renderHandoff repo st1 w) (\<lambda>w1.
          bind_r (runDir repo (task_id st1)) (\<lambda>dir.
            Inr (Handoff_Path (dir @ [lit ''handoff.md'']), saveState now st1 DISPATCHED w1)))))"

definition text_missing :: "jsval \<Rightarrow> bool" where
  "text_missing v \<longleftrightarrow> \<not> is_str v \<or> js_trim (str_of v) = []"

definition list_missing :: "jsval \<Rightarrow> bool" where
  "list_missing v \<longleftrightarrow> (case arr_of v of None \<Rightarrow> True | Some xs \<Rightarrow> xs = [])"

definition validateFormalFailure :: "jsval \<Rightarrow> jstring list" where
  "validateFormalFailure result =
     filter (\<lambda>key. text_missing (own_prop result key))
       [lit ''directCause'', lit ''currentState'', lit ''remediationProposal'', lit ''reportPath'']
     @ filter (\<lambda>key. list_missing (own_prop result key))
       [lit ''evidence'', lit ''attemptedAlternatives'', lit ''remaining'']"

definition failure_lookup :: "(jstring \<times> failure_count) list \<Rightarrow> jstring \<Rightarrow> failure_count" where
  \<comment> \<open>\<open>state.issueFailures[issueId] ?? 0\<close>\<close>
  "failure_lookup fs k = (case map_of fs k of Some c \<Rightarrow> c | None \<Rightarrow> if inherited_name k then Count_Text else Count 0)"

fun count_next :: "failure_count \<Rightarrow> failure_count" where
  "count_next (Count n) = Count (n + 1)"
| "count_next Count_Text = Count_Text"

fun below_three :: "failure_count \<Rightarrow> bool" where
  "below_three (Count n) = (n < 3)"
| "below_three Count_Text = False"

definition failure_store :: "jstring \<Rightarrow> failure_count \<Rightarrow> (jstring \<times> failure_count) list \<Rightarrow> (jstring \<times> failure_count) list" where
  \<comment> \<open>assigning a text to \<open>__proto__\<close> does nothing\<close>
  "failure_store k c fs = (if k = lit ''__proto__'' then fs else (k, c) # filter (\<lambda>p. fst p \<noteq> k) fs)"

definition recordOutcome :: "nat \<Rightarrow> task_state \<Rightarrow> jsval \<Rightarrow> agent_world \<Rightarrow> agent_world" where
  \<comment> \<open>the second half of \<open>commandRecord\<close>, after the checks and the copy\<close>
  "recordOutcome now st0 result w =
     (let st = st0\<lparr>developer_can_write := False, designer_can_write := False, current_owner := OWOUL1\<rparr>;
          outcome = own_prop result (lit ''outcome'')
      in if truthy (own_prop result (lit ''scopeChange'')) \<or> truthy (own_prop result (lit ''requirementChange''))
            \<or> truthy (own_prop result (lit ''majorRiskChange''))
         then saveState now (st\<lparr>status := USER_APPROVAL_REQUIRED\<rparr>) (USER_APPROVAL_RECORDED outcome) w
         else if outcome = JStr (lit ''SUCCESS'')
         then saveState now (st\<lparr>status := DESIGN_REVIEW_REQUIRED\<rparr>) SUCCESS_RECORDED w
         else if outcome = JStr (lit ''INTERRUPTED'')
         then saveState now (st\<lparr>status := RESUME_REQUIRED\<rparr>)
                (INTERRUPTION_RECORDED (js_coalesce (own_prop result (lit ''resumePoint'')) JNull)) w
         else (let missing = validateFormalFailure result
               in if missing \<noteq> []
                  then saveState now (st\<lparr>status := INVALID_FAILURE_REPORT\<rparr>) (INVALID_REPORT_RECORDED missing) w
                  else (let count = count_next (failure_lookup (issue_failures st) (issue_id st));
                            st1 = st\<lparr>issue_failures := failure_store (issue_id st) count (issue_failures st)\<rparr>
                        in if below_three count
                           then saveState now (st1\<lparr>status := REWORK_REQUIRED\<rparr>) (FORMAL_FAILURE_RECORDED count) w
                           else saveState now (st1\<lparr>status := DIRECT_IMPLEMENTATION_REQUIRED,
                                                   designer_can_write := True\<rparr>) (THIRD_FAILURE_TAKEOVER count) w)))"

definition commandRecord ::
  "js_env \<Rightarrow> segments \<Rightarrow> nat \<Rightarrow> cli_args \<Rightarrow> agent_world \<Rightarrow> agent_error + cmd_output \<times> agent_world" where
  "commandRecord E repo now args w =
     bind_r (required args (lit ''task-id'')) (\<lambda>t. bind_r (loadState w t) (\<lambda>st.
     bind_r (required args (lit ''result'')) (\<lambda>r. bind_r (resolveRepoFile repo w r) (\<lambda>resultFile.
     bind_r (read_text w (fst resultFile)) (\<lambda>raw.
     bind_r (case env_parse E raw of None \<Rightarrow> Inl Read_Failed | Some v \<Rightarrow> Inr v) (\<lambda>result.
     bind_r (check_r (\<not> nullish result) Type_Error) (\<lambda>_.
     bind_r (check_r (own_prop result (lit ''taskId'') = JStr (task_id st)) Wrong_Task) (\<lambda>_.
     bind_r (check_r (own_prop result (lit ''issueId'') = JStr (issue_id st)) Wrong_Issue) (\<lambda>_.
     bind_r (check_r (own_prop result (lit ''outcome'')
               \<in> {JStr (lit ''SUCCESS''), JStr (lit ''FORMAL_FAILURE''), JStr (lit ''INTERRUPTED'')}) Wrong_Outcome) (\<lambda>_.
       Inr (No_Output, recordOutcome now st result
              (w\<lparr>results := (results w)(task_id st \<mapsto> raw)\<rparr>))))))))))))"

definition commandRework :: "segments \<Rightarrow> nat \<Rightarrow> cli_args \<Rightarrow> agent_world \<Rightarrow> agent_error + cmd_output \<times> agent_world" where
  "commandRework repo now args w =
     bind_r (required args (lit ''task-id'')) (\<lambda>t. bind_r (loadState w t) (\<lambda>st.
     bind_r (check_r (status st \<in> {REWORK_REQUIRED, INVALID_FAILURE_REPORT}) Wrong_Status) (\<lambda>_.
     bind_r (required args (lit ''workorder'')) (\<lambda>wo. bind_r (resolveRepoFile repo w wo) (\<lambda>workorder.
     bind_r (required args (lit ''worker-prompt'')) (\<lambda>wp. bind_r (resolveRepoFile repo w wp) (\<lambda>prompt.
       let st1 = st\<lparr>workorder_path := snd workorder, worker_prompt_path := snd prompt, status := REWORK_READY,
                   current_owner := OWOUL1, developer_can_write := False, designer_can_write := False\<rparr>
       in bind_r (renderHandoff repo st1 w) (\<lambda>w1.
          bind_r (runDir repo (task_id st1)) (\<lambda>dir.
            Inr (Handoff_Path (dir @ [lit ''handoff.md'']), saveState now st1 REWORK_INSTRUCTIONS_UPDATED w1))))))))))"

definition commandResume :: "nat \<Rightarrow> cli_args \<Rightarrow> agent_world \<Rightarrow> agent_error + cmd_output \<times> agent_world" where
  "commandResume now args w =
     bind_r (required args (lit ''task-id'')) (\<lambda>t. bind_r (loadState w t) (\<lambda>st.
     bind_r (check_r (status st \<in> {RESUME_REQUIRED, REWORK_READY}) Wrong_Status) (\<lambda>_.
       Inr (No_Output, saveState now
         (st\<lparr>status := RUNNING, current_owner := OWOUL2, developer_can_write := True, designer_can_write := False\<rparr>)
         (DEVELOPER_RESUMED (agent_id st)) w))))"

definition review_statuses :: "(jstring \<times> task_status) list" where
  "review_statuses = [(lit ''approved'', COMPLETE), (lit ''major-remediation'', REWORK_REQUIRED),
     (lit ''minor-followup'', COMPLETE_WITH_MINOR_FOLLOWUP)]"

definition review_status :: "jstring \<Rightarrow> task_status option" where
  \<comment> \<open>\<open>statuses[decision]\<close>, inherited properties included; all but \<open>__proto__\<close> are functions\<close>
  "review_status decision =
     (case map_of review_statuses decision of
        Some s \<Rightarrow> Some s
      | None \<Rightarrow> if \<not> inherited_name decision then None
                else if decision = lit ''__proto__'' then Some Object_Status else Some No_Status)"

definition commandReview :: "nat \<Rightarrow> cli_args \<Rightarrow> agent_world \<Rightarrow> agent_error + cmd_output \<times> agent_world" where
  "commandReview now args w =
     bind_r (required args (lit ''task-id'')) (\<lambda>t. bind_r (loadState w t) (\<lambda>st.
     bind_r (check_r (status st = DESIGN_REVIEW_REQUIRED) Wrong_Status) (\<lambda>_.
     bind_r (required args (lit ''decision'')) (\<lambda>decision.
       case review_status decision of
         None \<Rightarrow> Inl Wrong_Decision
       | Some s \<Rightarrow> Inr (No_Output, saveState now
           (st\<lparr>status := s, current_owner := OWOUL1, developer_can_write := False, designer_can_write := False\<rparr>)
           (DESIGN_REVIEW_COMPLETED decision) w)))))"

definition commandStatus :: "cli_args \<Rightarrow> agent_world \<Rightarrow> agent_error + cmd_output \<times> agent_world" where
  "commandStatus args w =
     bind_r (required args (lit ''task-id'')) (\<lambda>t. bind_r (loadState w t) (\<lambda>st. Inr (State_Printed st, w)))"

definition keep :: "agent_world \<Rightarrow> agent_error + cmd_output \<times> agent_world \<Rightarrow> (agent_error + cmd_output) \<times> agent_world" where
  \<comment> \<open>a command that fails exits before it writes\<close>
  "keep w r = (case r of Inl e \<Rightarrow> (Inl e, w) | Inr (x, w1) \<Rightarrow> (Inr x, w1))"

definition run_command ::
  "js_env \<Rightarrow> segments \<Rightarrow> nat \<Rightarrow> jstring list \<Rightarrow> agent_world \<Rightarrow> (agent_error + cmd_output) \<times> agent_world" where
  "run_command E repo now argv w =
     (case argsOf argv of
        Inl e \<Rightarrow> (Inl e, w)
      | Inr args \<Rightarrow>
          (case positional args of
             Some (command # _) \<Rightarrow>
               if command = lit ''init'' then commandInit repo now args w
               else if command = lit ''bind-agent'' then keep w (commandBindAgent now args w)
               else if command = lit ''dispatch'' then keep w (commandDispatch repo now args w)
               else if command = lit ''record'' then keep w (commandRecord E repo now args w)
               else if command = lit ''rework'' then keep w (commandRework repo now args w)
               else if command = lit ''resume'' then keep w (commandResume now args w)
               else if command = lit ''review'' then keep w (commandReview now args w)
               else if command = lit ''status'' then keep w (commandStatus args w)
               else if command \<in> {lit ''__proto__'', lit ''__defineGetter__'', lit ''__defineSetter__''} then (Inl Type_Error, w)
               else if inherited_name command then (Inr No_Output, w)
               else (Inl Usage, w)
           | _ \<Rightarrow> (Inl Usage, w)))"

section \<open>What a history means\<close>

text \<open>
  The abstract register: a task is what its history says. \<open>apply_event\<close> tells which events may follow in a state
  and what they change; \<open>replay\<close> runs a whole history.
\<close>

record run_view =
  v_status :: task_status
  v_owner :: owner
  v_developer :: bool
  v_designer :: bool
  v_agent :: "jstring option"
  v_count :: failure_count

definition task_view :: "task_state \<Rightarrow> run_view" where
  "task_view st = \<lparr>v_status = status st, v_owner = current_owner st, v_developer = developer_can_write st,
     v_designer = designer_can_write st, v_agent = agent_id st,
     v_count = failure_lookup (issue_failures st) (issue_id st)\<rparr>"

definition designer_turn :: "task_status \<Rightarrow> bool \<Rightarrow> run_view \<Rightarrow> run_view" where
  "designer_turn s lock v = v\<lparr>v_status := s, v_owner := OWOUL1, v_developer := False, v_designer := lock\<rparr>"

definition developer_turn :: "run_view \<Rightarrow> run_view" where
  "developer_turn v = v\<lparr>v_status := RUNNING, v_owner := OWOUL2, v_developer := True, v_designer := False\<rparr>"

fun apply_event :: "run_event \<Rightarrow> run_view \<Rightarrow> run_view option" where
  "apply_event INITIALIZED v = None"
| "apply_event (AGENT_BOUND a) v = Some (v\<lparr>v_agent := Some a\<rparr>)"
| "apply_event DISPATCHED v = Some (developer_turn v)"
| "apply_event (USER_APPROVAL_RECORDED x) v = Some (designer_turn USER_APPROVAL_REQUIRED False v)"
| "apply_event SUCCESS_RECORDED v = Some (designer_turn DESIGN_REVIEW_REQUIRED False v)"
| "apply_event (INTERRUPTION_RECORDED x) v = Some (designer_turn RESUME_REQUIRED False v)"
| "apply_event (INVALID_REPORT_RECORDED m) v = Some (designer_turn INVALID_FAILURE_REPORT False v)"
| "apply_event (FORMAL_FAILURE_RECORDED c) v =
     (if c = count_next (v_count v) \<and> below_three c
      then Some ((designer_turn REWORK_REQUIRED False v)\<lparr>v_count := c\<rparr>) else None)"
| "apply_event (THIRD_FAILURE_TAKEOVER c) v =
     (if c = count_next (v_count v) \<and> \<not> below_three c
      then Some ((designer_turn DIRECT_IMPLEMENTATION_REQUIRED True v)\<lparr>v_count := c\<rparr>) else None)"
| "apply_event REWORK_INSTRUCTIONS_UPDATED v =
     (if v_status v \<in> {REWORK_REQUIRED, INVALID_FAILURE_REPORT} then Some (designer_turn REWORK_READY False v) else None)"
| "apply_event (DEVELOPER_RESUMED a) v =
     (if v_status v \<in> {RESUME_REQUIRED, REWORK_READY} \<and> a = v_agent v then Some (developer_turn v) else None)"
| "apply_event (DESIGN_REVIEW_COMPLETED d) v =
     (if v_status v = DESIGN_REVIEW_REQUIRED
      then (case review_status d of None \<Rightarrow> None | Some s \<Rightarrow> Some (designer_turn s False v)) else None)"

fun apply_events :: "run_event list \<Rightarrow> run_view \<Rightarrow> run_view option" where
  "apply_events [] v = Some v"
| "apply_events (e # es) v = (case apply_event e v of None \<Rightarrow> None | Some v1 \<Rightarrow> apply_events es v1)"

definition fresh_view :: "jstring \<Rightarrow> run_view" where
  "fresh_view issue = \<lparr>v_status = READY, v_owner = OWOUL1, v_developer = False, v_designer = False,
     v_agent = None, v_count = failure_lookup [] issue\<rparr>"

definition replay :: "jstring \<Rightarrow> run_event list \<Rightarrow> run_view option" where
  "replay issue es = (case es of INITIALIZED # r \<Rightarrow> apply_events r (fresh_view issue) | _ \<Rightarrow> None)"

inductive agent_step :: "js_env \<Rightarrow> segments \<Rightarrow> agent_world \<Rightarrow> agent_world \<Rightarrow> bool" for E repo where
  command: "agent_step E repo w (snd (run_command E repo now argv w))"
| documents: "agent_step E repo w (w\<lparr>files := fs\<rparr>)"

section \<open>Lemmas\<close>

lemma apply_events_snoc:
  "apply_events (es @ [e]) v = (case apply_events es v of None \<Rightarrow> None | Some v1 \<Rightarrow> apply_event e v1)"
  by (induction es arbitrary: v) (auto split: option.splits)

lemma replay_snoc:
  assumes "replay issue es = Some v"
  shows "replay issue (es @ [e]) = apply_event e v"
  using assms by (auto simp: replay_def apply_events_snoc split: list.splits run_event.splits)

lemma replay_induct [consumes 1, case_names fresh event]:
  assumes "replay issue es = Some v"
    and "P [INITIALIZED] (fresh_view issue)"
    and "\<And>es e v v1. P es v \<Longrightarrow> replay issue es = Some v \<Longrightarrow> apply_event e v = Some v1 \<Longrightarrow> P (es @ [e]) v1"
  shows "P es v"
  using assms(1)
proof (induction es arbitrary: v rule: rev_induct)
  case Nil
  then show ?case by (simp add: replay_def)
next
  case (snoc e es)
  show ?case
  proof (cases "es = []")
    case True
    with snoc.prems show ?thesis
      using assms(2) by (auto simp: replay_def split: run_event.splits)
  next
    case False
    then obtain u where u: "replay issue es = Some u"
      using snoc.prems by (cases es) (auto simp: replay_def apply_events_snoc split: option.splits run_event.splits)
    with snoc.prems have "apply_event e u = Some v" by (simp add: replay_snoc)
    with assms(3) snoc.IH [OF u] u show ?thesis by blast
  qed
qed

lemma failure_store_lookup:
  assumes "map_of fs (lit ''__proto__'') = None"
  shows "failure_lookup (failure_store k (count_next (failure_lookup fs k)) fs) k = count_next (failure_lookup fs k)"
  using assms
  by (auto simp: failure_lookup_def failure_store_def inherited_name_def object_prototype_names_def)

lemma map_of_filter_other: "k \<noteq> j \<Longrightarrow> map_of (filter (\<lambda>p. fst p \<noteq> k) fs) j = map_of fs j"
  by (induction fs) auto

lemma failure_store_proto:
  "map_of fs (lit ''__proto__'') = None \<Longrightarrow> map_of (failure_store k c fs) (lit ''__proto__'') = None"
  by (auto simp: failure_store_def map_of_filter_other)

definition task_ok :: "jstring \<Rightarrow> task_state \<Rightarrow> bool" where
  "task_ok k st \<longleftrightarrow> task_id st = k \<and> map_of (issue_failures st) (lit ''__proto__'') = None
     \<and> replay (issue_id st) (map snd (history st)) = Some (task_view st)"

definition world_ok :: "agent_world \<Rightarrow> bool" where
  "world_ok w \<longleftrightarrow> (\<forall>k st. states w k = Some st \<longrightarrow> task_ok k st)"

lemma saveState_states:
  "states (saveState now st ev w) =
     (states w)(task_id st \<mapsto> st\<lparr>updated_at := now, history := history st @ [(now, ev)]\<rparr>)"
  by (simp add: saveState_def writeState_def)

lemma saveState_ok:
  assumes w: "world_ok w" and old: "states w0 k = Some st" "world_ok w0"
    and same: "task_id st1 = task_id st" "issue_id st1 = issue_id st" "history st1 = history st"
    and proto: "map_of (issue_failures st1) (lit ''__proto__'') = None"
    and ev: "apply_event ev (task_view st) = Some (task_view st1)"
  shows "world_ok (saveState now st1 ev w)"
proof -
  have "task_ok k st" using old by (simp add: world_ok_def)
  with same proto ev have "task_ok k (st1\<lparr>updated_at := now, history := history st1 @ [(now, ev)]\<rparr>)"
    by (auto simp: task_ok_def replay_snoc task_view_def)
  moreover have "task_id st1 = k" using \<open>task_ok k st\<close> same by (simp add: task_ok_def)
  ultimately show ?thesis using w by (simp add: world_ok_def saveState_states)
qed

lemma loadState_ok: "loadState w t = Inr st \<longleftrightarrow> safeId t = Inr t \<and> states w t = Some st"
  by (auto simp: loadState_def bind_r_ok safeId_def split: option.splits if_splits)

lemma renderHandoff_states:
  "renderHandoff repo st w = Inr w1 \<Longrightarrow> states w1 = states w \<and> files w1 = files w \<and> results w1 = results w"
  by (auto simp: renderHandoff_def bind_r_ok Let_def)

lemma world_ok_states: "states w1 = states w \<Longrightarrow> world_ok w1 \<longleftrightarrow> world_ok w"
  by (simp add: world_ok_def)

lemma task_ok_of: "world_ok w \<Longrightarrow> loadState w t = Inr st \<Longrightarrow> task_ok t st"
  by (simp add: world_ok_def loadState_ok)

lemma proto_of: "task_ok k st \<Longrightarrow> map_of (issue_failures st) (lit ''__proto__'') = None"
  by (simp add: task_ok_def)

lemma loaded_proto:
  "loadState w t = Inr st \<Longrightarrow> world_ok w \<Longrightarrow> map_of (issue_failures st) (lit ''__proto__'') = None"
  using task_ok_of proto_of by blast

text \<open>A command that loads a task and saves it with one more event.\<close>

lemma loaded_save_ok:
  assumes "world_ok w" "loadState w t = Inr st" "states w1 = states w"
    and "task_id st1 = task_id st" "issue_id st1 = issue_id st" "history st1 = history st"
    and "map_of (issue_failures st1) (lit ''__proto__'') = None"
    and "apply_event ev (task_view st) = Some (task_view st1)"
  shows "world_ok (saveState now st1 ev w1)"
  using assms by (intro saveState_ok [of w1 w t st st1]) (auto simp: world_ok_def loadState_ok)

lemmas turn_defs = task_view_def designer_turn_def developer_turn_def

lemma commandBindAgent_ok:
  "world_ok w \<Longrightarrow> commandBindAgent now args w = Inr (out, w1) \<Longrightarrow> world_ok w1"
  by (auto simp: commandBindAgent_def bind_r_ok split: option.splits dest!: renderHandoff_states)
    (rule loaded_save_ok, assumption, assumption, auto simp: turn_defs dest: loaded_proto)+

lemma commandDispatch_ok:
  "world_ok w \<Longrightarrow> commandDispatch repo now args w = Inr (out, w1) \<Longrightarrow> world_ok w1"
  by (auto simp: commandDispatch_def bind_r_ok Let_def split: option.splits dest!: renderHandoff_states)
    (rule loaded_save_ok, assumption, assumption, auto simp: turn_defs dest: loaded_proto)+

lemma commandRework_ok:
  "world_ok w \<Longrightarrow> commandRework repo now args w = Inr (out, w1) \<Longrightarrow> world_ok w1"
  by (auto simp: commandRework_def bind_r_ok Let_def split: option.splits dest!: renderHandoff_states)
    (rule loaded_save_ok, assumption, assumption, auto simp: turn_defs dest: loaded_proto)+

lemma commandResume_ok:
  "world_ok w \<Longrightarrow> commandResume now args w = Inr (out, w1) \<Longrightarrow> world_ok w1"
  by (auto simp: commandResume_def bind_r_ok split: option.splits dest!: renderHandoff_states)
    (rule loaded_save_ok, assumption, assumption, auto simp: turn_defs dest: loaded_proto)+

lemma commandReview_ok:
  "world_ok w \<Longrightarrow> commandReview now args w = Inr (out, w1) \<Longrightarrow> world_ok w1"
  by (auto simp: commandReview_def bind_r_ok split: option.splits dest!: renderHandoff_states)
    (rule loaded_save_ok, assumption, assumption, auto simp: turn_defs dest: loaded_proto)+

lemma commandStatus_ok: "commandStatus args w = Inr (out, w1) \<Longrightarrow> w1 = w"
  by (auto simp: commandStatus_def bind_r_ok)

lemma recordOutcome_ok:
  assumes "world_ok w" "loadState w t = Inr st" "states w1 = states w"
  shows "world_ok (recordOutcome now st result w1)"
  using assms proto_of [OF task_ok_of [OF assms(1,2)]]
  by (auto simp: recordOutcome_def Let_def turn_defs failure_store_lookup failure_store_proto
      intro!: loaded_save_ok [OF assms])

lemma commandRecord_ok:
  "world_ok w \<Longrightarrow> commandRecord E repo now args w = Inr (out, w1) \<Longrightarrow> world_ok w1"
  by (auto simp: commandRecord_def bind_r_ok intro!: recordOutcome_ok)

lemma initialState_ok:
  "initialState repo now args w = Inr (d, st) \<Longrightarrow>
     states w (task_id st) = None \<and> task_ok (task_id st) st \<and> status st = READY"
  by (auto simp: initialState_def bind_r_ok task_ok_def replay_def fresh_view_def task_view_def)

lemma commandInit_ok:
  assumes "world_ok w"
  shows "world_ok (snd (commandInit repo now args w))"
proof (cases "initialState repo now args w")
  case (Inl e)
  with assms show ?thesis by (simp add: commandInit_def)
next
  case (Inr r)
  obtain d st where r: "r = (d, st)" by (cases r)
  with Inr have "task_ok (task_id st) st" by (auto dest: initialState_ok)
  then have "world_ok (writeState st w)" using assms by (simp add: world_ok_def writeState_def)
  then show ?thesis
    using Inr r by (auto simp: commandInit_def world_ok_def dest: renderHandoff_states split: sum.splits)
qed

lemma keep_ok: "world_ok w \<Longrightarrow> (\<And>out w1. r = Inr (out, w1) \<Longrightarrow> world_ok w1) \<Longrightarrow> world_ok (snd (keep w r))"
  by (cases r) (auto simp: keep_def)

lemma run_command_ok: "world_ok w \<Longrightarrow> world_ok (snd (run_command E repo now argv w))"
  unfolding run_command_def
  by (auto split: sum.splits option.splits list.splits intro: commandInit_ok
      intro!: keep_ok elim: commandBindAgent_ok commandDispatch_ok commandRecord_ok commandRework_ok
        commandResume_ok commandReview_ok dest: commandStatus_ok)

lemma reachable_ok:
  assumes "(agent_step E repo)\<^sup>*\<^sup>* w0 w" and "states w0 = (\<lambda>k. None)"
  shows "world_ok w"
  using assms(1)
proof (induction rule: rtranclp_induct)
  case base
  show ?case using assms(2) by (simp add: world_ok_def)
next
  case (step u v)
  from step.hyps(2) step.IH show ?case
    by (cases rule: agent_step.cases) (auto intro: run_command_ok simp: world_ok_states [of "u\<lparr>files := fs\<rparr>" u for fs])
qed

section \<open>Properties of histories\<close>

definition is_failure :: "run_event \<Rightarrow> bool" where
  "is_failure e = (case e of FORMAL_FAILURE_RECORDED c \<Rightarrow> True | THIRD_FAILURE_TAKEOVER c \<Rightarrow> True | _ \<Rightarrow> False)"

definition formal_failures :: "run_event list \<Rightarrow> nat" where
  "formal_failures es = length (filter is_failure es)"

lemma formal_failures_snoc [simp]:
  "formal_failures (es @ [e]) = formal_failures es + (if is_failure e then 1 else 0)"
  by (simp add: formal_failures_def)

definition view_locks :: "run_view \<Rightarrow> bool" where
  "view_locks v \<longleftrightarrow> (v_developer v \<longleftrightarrow> v_status v = RUNNING) \<and> (v_designer v \<longleftrightarrow> v_status v = DIRECT_IMPLEMENTATION_REQUIRED)
     \<and> (v_owner v = OWOUL2 \<longleftrightarrow> v_status v = RUNNING)"

lemma review_status_turn:
  assumes "review_status d = Some s"
  shows "s \<noteq> RUNNING \<and> s \<noteq> DIRECT_IMPLEMENTATION_REQUIRED \<and> s \<noteq> DESIGN_REVIEW_REQUIRED"
  using assms by (auto simp: review_status_def review_statuses_def split: if_splits)

lemma apply_event_locks: "apply_event e v = Some v1 \<Longrightarrow> view_locks v \<Longrightarrow> view_locks v1"
  by (cases e) (auto simp: view_locks_def designer_turn_def developer_turn_def
      dest: review_status_turn split: if_splits option.splits)

lemma replay_locks: "replay issue es = Some v \<Longrightarrow> view_locks v"
proof (induction rule: replay_induct)
  case fresh
  show ?case by (simp add: fresh_view_def view_locks_def)
next
  case (event es e v v1)
  then show ?case by (blast intro: apply_event_locks)
qed

lemma apply_event_count:
  assumes "apply_event e v = Some v1" "v_count v = Count n"
  shows "v_count v1 = Count (if is_failure e then Suc n else n)"
  using assms by (cases e) (auto simp: is_failure_def designer_turn_def developer_turn_def
      split: if_splits option.splits)

lemma replay_count:
  assumes "replay issue es = Some v" and "\<not> inherited_name issue"
  shows "v_count v = Count (formal_failures es)"
  using assms(1)
proof (induction rule: replay_induct)
  case fresh
  show ?case using assms(2) by (simp add: fresh_view_def failure_lookup_def formal_failures_def is_failure_def)
next
  case (event es e v v1)
  then show ?case using apply_event_count [of e v v1] by (simp add: formal_failures_def)
qed

lemma apply_event_count_text:
  assumes "apply_event e v = Some v1" "v_count v = Count_Text"
  shows "v_count v1 = Count_Text"
  using assms by (cases e) (auto simp: designer_turn_def developer_turn_def split: if_splits option.splits)

lemma replay_count_text:
  assumes "replay issue es = Some v" and "inherited_name issue"
  shows "v_count v = Count_Text"
  using assms(1)
proof (induction rule: replay_induct)
  case fresh
  show ?case using assms(2) by (simp add: fresh_view_def failure_lookup_def)
next
  case (event es e v v1)
  then show ?case by (blast intro: apply_event_count_text)
qed

text \<open>The shape of the history of a reviewed task, with the bindings of agents left out.\<close>

definition is_binding :: "run_event \<Rightarrow> bool" where
  "is_binding e = (case e of AGENT_BOUND a \<Rightarrow> True | _ \<Rightarrow> False)"

definition last_events :: "run_event list \<Rightarrow> run_event list" where
  "last_events es = filter (\<lambda>e. \<not> is_binding e) es"

definition view_reviewed :: "run_event list \<Rightarrow> run_view \<Rightarrow> bool" where
  "view_reviewed es v \<longleftrightarrow>
     (v_status v = DESIGN_REVIEW_REQUIRED \<longrightarrow> (\<exists>pre. last_events es = pre @ [SUCCESS_RECORDED]))
   \<and> (v_status v \<in> {COMPLETE, COMPLETE_WITH_MINOR_FOLLOWUP} \<longrightarrow>
        (\<exists>pre d. last_events es = pre @ [SUCCESS_RECORDED, DESIGN_REVIEW_COMPLETED d] \<and> review_status d = Some (v_status v)))"

lemma replay_reviewed: "replay issue es = Some v \<Longrightarrow> view_reviewed es v"
proof (induction rule: replay_induct)
  case fresh
  show ?case by (simp add: view_reviewed_def fresh_view_def)
next
  case (event es e v v1)
  then show ?case
    by (cases e) (auto simp: view_reviewed_def last_events_def is_binding_def designer_turn_def developer_turn_def
        dest: review_status_turn split: if_splits option.splits)
qed

section \<open>Properties\<close>

text \<open>A small repository, in which one task is registered.\<close>

definition sample_world :: agent_world where
  "sample_world = \<lparr>files = (\<lambda>p. Some (File [])), states = (\<lambda>k. None), handoffs = (\<lambda>k. None), results = (\<lambda>k. None)\<rparr>"

definition sample_task :: task_state where
  "sample_task = \<lparr>task_id = lit ''a'', issue_id = lit ''b'', status = READY, current_owner = OWOUL1, agent_id = None,
     approved_design_paths = [], execution_plan_paths = [], workorder_path = lit ''w'', worker_prompt_path = lit ''p'',
     issue_failures = [], developer_can_write = False, designer_can_write = False, created_at = 0, updated_at = 0,
     history = [(0, INITIALIZED)]\<rparr>"

definition registered_world :: agent_world where
  "registered_world = snd (run_command (sample_env JNull) [lit ''r''] 0
     (map lit [''init'', ''--task-id'', ''a'', ''--issue-id'', ''b'', ''--workorder'', ''w'', ''--worker-prompt'', ''p''])
     sample_world)"

definition sample_failure :: jsval where
  "sample_failure = JObj ((lit ''outcome'', JStr (lit ''FORMAL_FAILURE''))
     # map (\<lambda>k. (lit k, JStr (lit ''x''))) [''directCause'', ''currentState'', ''remediationProposal'', ''reportPath'']
     @ map (\<lambda>k. (lit k, JArr [JNull])) [''evidence'', ''attemptedAlternatives'', ''remaining''])"

lemma sample_reachable: "(agent_step (sample_env JNull) [lit ''r''])\<^sup>*\<^sup>* sample_world registered_world"
  unfolding registered_world_def by (intro r_into_rtranclp agent_step.command)

lemma commandInit_states:
  "initialState repo now args w = Inr (d, st) \<Longrightarrow> states (snd (commandInit repo now args w)) = (states w)(task_id st \<mapsto> st)"
  by (auto simp: commandInit_def writeState_def dest: renderHandoff_states split: sum.splits)

lemma sample_registered: "states registered_world (lit ''a'') = Some sample_task"
proof -
  let ?argv = "map lit [''init'', ''--task-id'', ''a'', ''--issue-id'', ''b'', ''--workorder'', ''w'', ''--worker-prompt'', ''p'']"
  have states_sample: "states sample_world = (\<lambda>k. None)" by (simp add: sample_world_def)
  define args where "args = \<lparr>positional = Some [lit ''init''], options = [lit ''task-id'' \<mapsto> Value (lit ''a''),
     lit ''issue-id'' \<mapsto> Value (lit ''b''), lit ''workorder'' \<mapsto> Value (lit ''w''), lit ''worker-prompt'' \<mapsto> Value (lit ''p'')]\<rparr>"
  have "argsOf ?argv = Inr args"
    by (simp add: args_def argsOf_def is_option_def js_starts_with_def set_option_def lit_def)
  note args = this args_def
  have found: "resolveRepoFile [lit ''r''] sample_world (lit ''w'') = Inr ([lit ''r'', lit ''w''], lit ''w'')"
    "resolveRepoFile [lit ''r''] sample_world (lit ''p'') = Inr ([lit ''r'', lit ''p''], lit ''p'')"
    by code_simp+
  have "safeId (lit ''a'') = Inr (lit ''a'')" "safeId (lit ''b'') = Inr (lit ''b'')" by code_simp+
  then have "initialState [lit ''r''] 0 args sample_world = Inr ([lit ''r'', lit ''.agents'', lit ''moaworks-subagent'', lit ''runs'', lit ''a''], sample_task)"
    by (simp add: initialState_def args found required_def repo_file_list_def splitPaths_def runDir_def runsDir_def
        baseDir_def sample_task_def states_sample)
  note init = commandInit_states [OF this]
  have "run_command E [lit ''r''] 0 ?argv sample_world = commandInit [lit ''r''] 0 args sample_world" for E
    unfolding run_command_def args(1) by (simp add: args_def)
  then show ?thesis
    unfolding registered_world_def using init by (simp add: sample_task_def)
qed

text \<open>C7. The history of a task is an exact record: whatever commands were run, by whomever and over whatever
  documents, each registered task is under its own id and its status, owner, write locks, agent and
  failure count are what replaying its history gives, every event being allowed where it stands.\<close>

theorem history_determines_task:
  assumes "(agent_step E repo)\<^sup>*\<^sup>* w0 w" and "states w0 = (\<lambda>k. None)" and "states w k = Some st"
  shows "task_id st = k \<and> replay (issue_id st) (map snd (history st)) = Some (task_view st)"
  using reachable_ok [OF assms(1,2)] assms(3) by (auto simp: world_ok_def task_ok_def)

theorem history_determines_task_witness:
  "replay (lit ''b'') [INITIALIZED] = Some (task_view sample_task)"
  using history_determines_task [OF sample_reachable _ sample_registered]
  by (simp add: sample_world_def sample_task_def)

text \<open>C8. The two agents never hold the write lock together: the developer may write exactly while the task is
  running (and then owns it), the designer exactly after taking the implementation over. A task is
  complete only when the last two events, bindings apart, are a recorded success and the review
  decision that completes it.\<close>

theorem write_locks_exclusive:
  assumes "(agent_step E repo)\<^sup>*\<^sup>* w0 w" and "states w0 = (\<lambda>k. None)" and "states w k = Some st"
  shows "(developer_can_write st \<longleftrightarrow> status st = RUNNING)
    \<and> (designer_can_write st \<longleftrightarrow> status st = DIRECT_IMPLEMENTATION_REQUIRED)
    \<and> (current_owner st = OWOUL2 \<longleftrightarrow> status st = RUNNING)
    \<and> (status st \<in> {COMPLETE, COMPLETE_WITH_MINOR_FOLLOWUP} \<longrightarrow>
        (\<exists>pre d. last_events (map snd (history st)) = pre @ [SUCCESS_RECORDED, DESIGN_REVIEW_COMPLETED d]
               \<and> review_status d = Some (status st)))"
proof -
  have r: "replay (issue_id st) (map snd (history st)) = Some (task_view st)"
    using reachable_ok [OF assms(1,2)] assms(3) by (auto simp: world_ok_def task_ok_def)
  show ?thesis
    using replay_locks [OF r] replay_reviewed [OF r]
    by (simp add: view_locks_def view_reviewed_def task_view_def)
qed

theorem write_locks_exclusive_witness: "\<not> developer_can_write sample_task \<and> \<not> designer_can_write sample_task"
proof -
  have "status sample_task = READY" by (simp add: sample_task_def)
  with write_locks_exclusive [OF sample_reachable _ sample_registered] show ?thesis
    by (auto simp: sample_world_def)
qed

definition formal_failure_result :: "jsval \<Rightarrow> bool" where
  "formal_failure_result r \<longleftrightarrow> own_prop r (lit ''outcome'') = JStr (lit ''FORMAL_FAILURE'')
     \<and> \<not> truthy (own_prop r (lit ''scopeChange'')) \<and> \<not> truthy (own_prop r (lit ''requirementChange''))
     \<and> \<not> truthy (own_prop r (lit ''majorRiskChange'')) \<and> validateFormalFailure r = []"

lemma recordOutcome_failure:
  assumes "formal_failure_result r" and "task_ok k st"
  shows "\<exists>st1. states (recordOutcome now st r w) k = Some st1
    \<and> (let c = count_next (failure_lookup (issue_failures st) (issue_id st)) in
        status st1 = (if below_three c then REWORK_REQUIRED else DIRECT_IMPLEMENTATION_REQUIRED)
      \<and> designer_can_write st1 = (\<not> below_three c) \<and> \<not> developer_can_write st1
      \<and> map snd (history st1) = map snd (history st) @
          [if below_three c then FORMAL_FAILURE_RECORDED c else THIRD_FAILURE_TAKEOVER c])"
  using assms by (auto simp: recordOutcome_def formal_failure_result_def Let_def saveState_states task_ok_def)

text \<open>The third failure hands the work over: recording a complete formal failure of a task with an ordinary
  issue id, whose history has \<open>n\<close> failures already, asks for rework while \<open>n + 1 < 3\<close> and otherwise
  makes the designer the only one who may write. Reports with missing parts, interruptions and
  successes are not counted.\<close>

theorem third_failure_takeover:
  assumes "(agent_step E repo)\<^sup>*\<^sup>* w0 w" and "states w0 = (\<lambda>k. None)" and "states w k = Some st"
    and "\<not> inherited_name (issue_id st)" and "formal_failure_result r"
  shows "\<exists>st1. states (recordOutcome now st r w) k = Some st1
    \<and> formal_failures (map snd (history st1)) = formal_failures (map snd (history st)) + 1
    \<and> (if formal_failures (map snd (history st)) + 1 < 3
       then status st1 = REWORK_REQUIRED \<and> \<not> designer_can_write st1 \<and> \<not> developer_can_write st1
       else status st1 = DIRECT_IMPLEMENTATION_REQUIRED \<and> designer_can_write st1 \<and> \<not> developer_can_write st1)"
proof -
  have ok: "task_ok k st" using reachable_ok [OF assms(1,2)] assms(3) by (simp add: world_ok_def)
  then have "replay (issue_id st) (map snd (history st)) = Some (task_view st)" by (simp add: task_ok_def)
  then have "failure_lookup (issue_failures st) (issue_id st) = Count (formal_failures (map snd (history st)))"
    using replay_count assms(4) by (fastforce simp: task_view_def)
  with recordOutcome_failure [OF assms(5) ok, of now w] show ?thesis
    by (auto simp: Let_def is_failure_def split: if_splits)
qed

theorem third_failure_takeover_witness:
  "\<exists>st1. states (recordOutcome 1 sample_task sample_failure registered_world) (lit ''a'') = Some st1
     \<and> status st1 = REWORK_REQUIRED"
proof -
  have "\<not> inherited_name (issue_id sample_task)"
    by (simp add: inherited_name_def object_prototype_names_def sample_task_def)
  moreover have "formal_failure_result sample_failure"
    by (simp add: formal_failure_result_def sample_failure_def validateFormalFailure_def text_missing_def list_missing_def
        js_trim_def lit_def js_ws_def)
  moreover have "formal_failures (map snd (history sample_task)) = 0"
    by (simp add: sample_task_def formal_failures_def is_failure_def)
  ultimately show ?thesis
    using third_failure_takeover [OF sample_reachable _ sample_registered, of sample_failure 1]
    by (auto simp: sample_world_def)
qed

text \<open>Names that every JavaScript object inherits defeat two guards. A task whose issue id is such a name is taken
  over on its first formal failure, since the count starts from a text and is never below three; and
  a review accepts such a name as its decision, which leaves the task without a proper status.\<close>

theorem inherited_names_defeat_guards:
  assumes "inherited_name name"
  shows "(task_ok k st \<and> issue_id st = name \<and> formal_failures (map snd (history st)) = 0 \<and> formal_failure_result r \<longrightarrow>
      (\<exists>st1. states (recordOutcome now st r w) k = Some st1
             \<and> status st1 = DIRECT_IMPLEMENTATION_REQUIRED \<and> designer_can_write st1))
    \<and> review_status name \<in> {Some No_Status, Some Object_Status}"
proof -
  have none: "map_of review_statuses name = None"
    using assms by (auto simp: inherited_name_def object_prototype_names_def review_statuses_def)
  note text_count = replay_count_text [OF _ assms]
  have "\<exists>st1. states (recordOutcome now st r w) k = Some st1
             \<and> status st1 = DIRECT_IMPLEMENTATION_REQUIRED \<and> designer_can_write st1"
    if t: "task_ok k st" "issue_id st = name" and r: "formal_failure_result r"
  proof -
    have "replay name (map snd (history st)) = Some (task_view st)" using t by (simp add: task_ok_def)
    from text_count [OF this] have "failure_lookup (issue_failures st) (issue_id st) = Count_Text"
      by (simp add: task_view_def)
    with recordOutcome_failure [OF r t(1), of now w] show ?thesis by (auto simp: Let_def)
  qed
  moreover have "review_status name \<in> {Some No_Status, Some Object_Status}"
    using none assms by (simp add: review_status_def)
  ultimately show ?thesis by blast
qed

theorem inherited_names_defeat_guards_witness:
  "review_status (lit ''toString'') \<in> {Some No_Status, Some Object_Status}"
proof -
  have "inherited_name (lit ''toString'')" by (simp add: inherited_name_def object_prototype_names_def)
  from inherited_names_defeat_guards [OF this] show ?thesis by blast
qed

definition plain_segment :: "jstring \<Rightarrow> bool" where
  "plain_segment s \<longleftrightarrow> s \<noteq> [] \<and> s \<noteq> lit ''.'' \<and> s \<noteq> lit ''..''"

lemma normalize_from_clean:
  assumes "list_all plain_segment acc"
  shows "list_all plain_segment (normalize_from acc ss)"
  using assms
proof (induction acc ss rule: normalize_from.induct)
  case (2 acc s ss)
  have "list_all plain_segment (butlast acc)"
    using "2.prems" by (auto simp: list_all_iff dest: in_set_butlastD)
  with 2 show ?case by (auto simp: plain_segment_def [of s])
qed simp

lemma relative_inside:
  "\<not> js_starts_with (path_relative from to) (lit ''..'') \<Longrightarrow> \<exists>r. to = from @ r \<and> relative_segments from to = r"
proof (induction "from" "to" rule: relative_segments.induct)
  case (2 x xs)
  then show ?case by (cases xs) (auto simp: path_relative_def js_starts_with_iff lit_def)
next
  case (3 x xs y ys)
  have "x = y"
  proof (rule ccontr)
    assume ne: "x \<noteq> y"
    have "js_starts_with (js_join (lit ''/'') (replicate (Suc n) (lit ''..'') @ y # ys)) (lit ''..'')" for n
      by (cases n) (auto simp: js_starts_with_iff)
    with 3(2) ne show False by (simp add: path_relative_def)
  qed
  with 3 show ?case by (auto simp: path_relative_def)
qed simp

text \<open>C9. A document the tool accepts lies in the repository: its absolute path extends the repository's by plain
  segments (no dots, nothing empty), it exists, and the name kept in the task is that extension. The directory of a
  run is a child of \<open>runs\<close> for every accepted task id but \<open>.\<close> and \<open>..\<close>; these two are accepted as
  well and put the files of the task into \<open>runs\<close> itself and into the directory above.\<close>

theorem documents_in_repository:
  assumes "list_all plain_segment repo"
    and "resolveRepoFile repo w input = Inr (absolute, relative)" and "safeId taskId = Inr i"
  shows "files w absolute \<noteq> None
    \<and> (\<exists>segs. absolute = repo @ segs \<and> relative = slashes (js_join (lit ''/'') segs)
        \<and> list_all plain_segment segs)
    \<and> runDir repo taskId = Inr (if taskId = lit ''.'' then runsDir repo
                                else if taskId = lit ''..'' then baseDir repo else runsDir repo @ [taskId])"
proof -
  have a: "absolute = path_resolve repo input" "files w absolute \<noteq> None" "relative = slashes (path_relative repo absolute)"
    "\<not> js_starts_with (path_relative repo absolute) (lit ''..'')"
    using assms(2) by (auto simp: resolveRepoFile_def Let_def split: if_splits)
  obtain r where r: "absolute = repo @ r" "relative_segments repo absolute = r"
    using relative_inside [OF a(4)] by blast
  have "list_all plain_segment absolute"
    unfolding a(1) path_resolve_def using assms(1) by (auto intro!: normalize_from_clean)
  moreover have "runDir repo taskId = Inr (if taskId = lit ''.'' then runsDir repo
                                else if taskId = lit ''..'' then baseDir repo else runsDir repo @ [taskId])"
    using assms(3) by (auto simp: runDir_def safeId_def runsDir_def baseDir_def butlast_append split: if_splits)
  moreover have "list_all plain_segment r"
    using calculation(1) unfolding r(1) by simp
  moreover have "relative = slashes (js_join (lit ''/'') r)" using a(3) r(2) by (simp add: path_relative_def)
  ultimately show ?thesis using a(2) r(1) by blast
qed

theorem documents_in_repository_witness:
  "\<exists>segs. [lit ''r'', lit ''a'', lit ''b''] = [lit ''r''] @ segs \<and> list_all plain_segment segs"
proof -
  have "list_all plain_segment [lit ''r'']" by (simp add: plain_segment_def)
  moreover have "resolveRepoFile [lit ''r''] sample_world (lit ''./a//b'') = Inr ([lit ''r'', lit ''a'', lit ''b''], lit ''a/b'')"
    by code_simp
  moreover have "safeId (lit ''..'') = Inr (lit ''..'')" by code_simp
  ultimately show ?thesis using documents_in_repository by blast
qed

end
