(* ===== verification/Personal_Ai.thy ===== *)
theory Personal_Ai
  imports Interfaces
begin

text \<open>
  The personal assistant: the readers of server responses, the payload builders and the action gate
  of the mobile client (\<open>frontend/mobile-app/personal-ai-api.js\<close>), and the same functions as
  the web client writes them (\<open>frontend/user-web/src/personalAi.ts\<close>, names prefixed by \<open>web_\<close>).
\<close>

section \<open>Checks\<close>

datatype ai_error =
    Malformed_Response
  | Provider_Or_Model_Invalid
  | Api_Key_Invalid
  | Prompt_Empty
  | Prompt_Too_Long
  | History_Invalid

definition PERSONAL_AI_CONNECTION_STATUSES :: "jstring list" where
  "PERSONAL_AI_CONNECTION_STATUSES = map lit [''unconfigured'', ''untested'', ''ready'', ''error'']"

definition PERSONAL_AI_CONFIG_SOURCES :: "jstring list" where
  "PERSONAL_AI_CONFIG_SOURCES = map lit [''personal'', ''admin_default'', ''unconfigured'']"

definition MAX_CHAT_MESSAGES :: nat where "MAX_CHAT_MESSAGES = 20"
definition MAX_CHAT_MESSAGE_CHARACTERS :: nat where "MAX_CHAT_MESSAGE_CHARACTERS = 8000"
definition MAX_CHAT_TOTAL_CHARACTERS :: nat where "MAX_CHAT_TOTAL_CHARACTERS = 32000"

definition set_has :: "jstring list \<Rightarrow> jsval \<Rightarrow> bool" where
  "set_has xs v \<longleftrightarrow> is_str v \<and> str_of v \<in> set xs"

definition isNullableString :: "jsval \<Rightarrow> bool" where
  "isNullableString v \<longleftrightarrow> v = JNull \<or> is_str v"

definition provider_char :: "nat \<Rightarrow> bool" where
  "provider_char c \<longleftrightarrow> (97 \<le> c \<and> c \<le> 122) \<or> (48 \<le> c \<and> c \<le> 57) \<or> c = 45"

definition isLowercaseProvider :: "js_env \<Rightarrow> bool \<Rightarrow> jsval \<Rightarrow> bool" where
  "isLowercaseProvider E allowEmpty v \<longleftrightarrow>
     (if \<not> is_str v then False
      else if allowEmpty \<and> str_of v = [] then True
      else str_of v \<noteq> [] \<and> str_of v = js_lower E (js_trim (str_of v)) \<and> list_all provider_char (str_of v))"

definition filled :: "jsval \<Rightarrow> bool" where
  \<comment> \<open>a string that is not empty\<close>
  "filled v \<longleftrightarrow> is_str v \<and> str_of v \<noteq> []"

section \<open>Reading responses\<close>

record ai_provider_option =
  po_provider :: jstring
  po_label :: jstring
  po_apiKeyRequired :: bool

definition read_provider_option :: "js_env \<Rightarrow> jsval \<Rightarrow> ai_error + ai_provider_option" where
  "read_provider_option E opt =
     (let label = own_prop opt (lit ''label''); key = own_prop opt (lit ''apiKeyRequired'')
      in if \<not> truthy opt \<or> \<not> isLowercaseProvider E False (own_prop opt (lit ''provider'')) \<or> \<not> is_str label
            \<or> js_trim (str_of label) = [] \<or> \<not> is_bool key
         then Inl Malformed_Response
         else Inr \<lparr>po_provider = str_of (own_prop opt (lit ''provider'')), po_label = js_trim (str_of label),
                   po_apiKeyRequired = truthy key\<rparr>)"

definition readPersonalAiProviders :: "js_env \<Rightarrow> jsval \<Rightarrow> ai_error + ai_provider_option list" where
  "readPersonalAiProviders E body =
     (case arr_of (own_prop body (lit ''providers'')) of
        None \<Rightarrow> Inl Malformed_Response
      | Some xs \<Rightarrow> if truthy body then map_r (read_provider_option E) xs else Inl Malformed_Response)"

record ai_config =
  cf_provider :: jstring
  cf_model :: jstring
  cf_apiKeyConfigured :: bool
  cf_connectionStatus :: jstring
  cf_lastTestCode :: jsval
  cf_lastTestedAt :: jsval
  cf_configSource :: jstring

definition readPersonalAiConfig :: "js_env \<Rightarrow> jsval \<Rightarrow> ai_error + ai_config" where
  "readPersonalAiConfig E body =
     (let provider = own_prop body (lit ''provider''); model = own_prop body (lit ''model'');
          key = own_prop body (lit ''apiKeyConfigured''); st = own_prop body (lit ''connectionStatus'');
          source = own_prop body (lit ''configSource'');
          code = js_coalesce (own_prop body (lit ''lastTestCode'')) JNull;
          tested = js_coalesce (own_prop body (lit ''lastTestedAt'')) JNull
      in if \<not> truthy body \<or> \<not> isLowercaseProvider E True provider \<or> \<not> is_str model \<or> \<not> is_bool key
            \<or> \<not> set_has PERSONAL_AI_CONNECTION_STATUSES st \<or> \<not> set_has PERSONAL_AI_CONFIG_SOURCES source
            \<or> \<not> isNullableString code \<or> \<not> isNullableString tested
         then Inl Malformed_Response
         else Inr \<lparr>cf_provider = str_of provider, cf_model = str_of model, cf_apiKeyConfigured = truthy key,
                   cf_connectionStatus = str_of st, cf_lastTestCode = code, cf_lastTestedAt = tested,
                   cf_configSource = str_of source\<rparr>)"

definition bad_model :: "jsval \<Rightarrow> bool" where
  "bad_model m \<longleftrightarrow> \<not> is_str m \<or> js_trim (str_of m) = [] \<or> str_of m \<noteq> js_trim (str_of m)"

definition model_list_ok :: "js_env \<Rightarrow> jsval \<Rightarrow> bool" where
  "model_list_ok E body \<longleftrightarrow>
     is_bool (own_prop body (lit ''success'')) \<and> isLowercaseProvider E False (own_prop body (lit ''provider''))
   \<and> (case arr_of (own_prop body (lit ''models'')) of
        None \<Rightarrow> False
      | Some models \<Rightarrow> \<not> list_ex bad_model models
          \<and> (truthy (own_prop body (lit ''success'')) \<longleftrightarrow> models \<noteq> []))
   \<and> filled (own_prop body (lit ''code'')) \<and> filled (own_prop body (lit ''message''))
   \<and> filled (own_prop body (lit ''loadedAt''))"

definition models_of :: "jsval \<Rightarrow> jsval list" where
  "models_of body = (case arr_of (own_prop body (lit ''models'')) of None \<Rightarrow> [] | Some xs \<Rightarrow> xs)"

definition with_prop :: "jsval \<Rightarrow> jstring \<Rightarrow> jsval \<Rightarrow> jsval" where
  \<comment> \<open>\<open>{...v, k: x}\<close> for a key \<open>v\<close> has\<close>
  "with_prop v k x = (case v of JObj ps \<Rightarrow> JObj (map (\<lambda>(j, y). (j, if j = k then x else y)) ps) | _ \<Rightarrow> JObj [(k, x)])"

definition readPersonalAiModelList :: "js_env \<Rightarrow> jsval \<Rightarrow> ai_error + jsval" where
  "readPersonalAiModelList E body =
     (if \<not> truthy body \<or> \<not> model_list_ok E body then Inl Malformed_Response
      else Inr (with_prop body (lit ''models'') (JArr (js_unique (models_of body)))))"

definition isPersonalAiConfigReady :: "ai_config option \<Rightarrow> bool" where
  "isPersonalAiConfigReady config =
     (case config of None \<Rightarrow> False
      | Some c \<Rightarrow> cf_configSource c = lit ''admin_default'' \<and> cf_connectionStatus c = lit ''ready'')"

record ai_test =
  ct_success :: bool
  ct_provider :: jstring
  ct_model :: jstring
  ct_code :: jstring
  ct_message :: jstring
  ct_connectionStatus :: jstring
  ct_testedAt :: jstring

definition connection_test_ok :: "js_env \<Rightarrow> jsval \<Rightarrow> bool" where
  "connection_test_ok E body \<longleftrightarrow>
     is_bool (own_prop body (lit ''success'')) \<and> isLowercaseProvider E False (own_prop body (lit ''provider''))
   \<and> filled (own_prop body (lit ''model'')) \<and> filled (own_prop body (lit ''code''))
   \<and> filled (own_prop body (lit ''message''))
   \<and> set_has PERSONAL_AI_CONNECTION_STATUSES (own_prop body (lit ''connectionStatus''))
   \<and> filled (own_prop body (lit ''testedAt''))
   \<and> (own_prop body (lit ''success'') = JBool (own_prop body (lit ''connectionStatus'') = JStr (lit ''ready'')))"

definition connection_test_of :: "jsval \<Rightarrow> ai_test" where
  "connection_test_of body =
     \<lparr>ct_success = truthy (own_prop body (lit ''success'')), ct_provider = str_of (own_prop body (lit ''provider'')),
      ct_model = str_of (own_prop body (lit ''model'')), ct_code = str_of (own_prop body (lit ''code'')),
      ct_message = str_of (own_prop body (lit ''message'')),
      ct_connectionStatus = str_of (own_prop body (lit ''connectionStatus'')),
      ct_testedAt = str_of (own_prop body (lit ''testedAt''))\<rparr>"

definition readPersonalAiConnectionTest :: "js_env \<Rightarrow> jsval \<Rightarrow> ai_error + ai_test" where
  "readPersonalAiConnectionTest E body =
     (if \<not> truthy body \<or> \<not> connection_test_ok E body then Inl Malformed_Response
      else Inr (connection_test_of body))"

record ai_answer =
  an_provider :: jstring
  an_model :: jstring
  an_content :: jstring
  an_generatedAt :: jstring

definition readPersonalAiChatResponse :: "js_env \<Rightarrow> jsval \<Rightarrow> ai_error + ai_answer" where
  "readPersonalAiChatResponse E body =
     (let message = js_opt body (lit ''message''); content = own_prop message (lit ''content'')
      in if \<not> truthy body \<or> \<not> isLowercaseProvider E False (own_prop body (lit ''provider''))
            \<or> \<not> filled (own_prop body (lit ''model'')) \<or> \<not> truthy message
            \<or> own_prop message (lit ''role'') \<noteq> JStr (lit ''assistant'') \<or> \<not> filled content
            \<or> MAX_CHAT_MESSAGE_CHARACTERS < length (str_of content) \<or> \<not> filled (own_prop body (lit ''generatedAt''))
         then Inl Malformed_Response
         else Inr \<lparr>an_provider = str_of (own_prop body (lit ''provider'')), an_model = str_of (own_prop body (lit ''model'')),
                   an_content = str_of content, an_generatedAt = str_of (own_prop body (lit ''generatedAt''))\<rparr>)"

definition personalAiErrorMessage :: "jsval \<Rightarrow> jstring option" where
  \<comment> \<open>\<open>None\<close> is the fixed text \<open>SAFE_REQUEST_ERROR\<close>\<close>
  "personalAiErrorMessage error =
     (let m = js_opt (js_opt error (lit ''detail'')) (lit ''userMessage'')
      in if is_str m \<and> js_trim (str_of m) \<noteq> [] \<and> length (str_of m) \<le> 500 then Some (js_trim (str_of m)) else None)"

section \<open>Payloads\<close>

record ai_config_payload =
  pl_provider :: jstring
  pl_model :: jstring
  pl_apiKey :: "jstring option"

definition buildPersonalAiConfigPayload ::
  "js_env \<Rightarrow> jsval \<Rightarrow> jsval \<Rightarrow> jsval \<Rightarrow> ai_error + ai_config_payload" where
  "buildPersonalAiConfigPayload E provider model apiKeyDraft =
     (let p = js_lower E (js_trim (js_string E (js_or provider (JStr []))));
          m = js_trim (js_string E (js_or model (JStr [])));
          k = js_trim (js_string E (js_or apiKeyDraft (JStr [])))
      in if \<not> isLowercaseProvider E False (JStr p) \<or> m = [] \<or> 200 < length m then Inl Provider_Or_Model_Invalid
         else if 1000 < length k then Inl Api_Key_Invalid
         else Inr \<lparr>pl_provider = p, pl_model = m, pl_apiKey = (if k \<noteq> [] then Some k else None)\<rparr>)"

datatype ai_role = User | Assistant

record ai_message =
  msg_role :: ai_role
  msg_content :: jstring

definition role_of :: "jsval \<Rightarrow> ai_role option" where
  "role_of v = (if v = JStr (lit ''user'') then Some User else if v = JStr (lit ''assistant'') then Some Assistant else None)"

definition normalize_item :: "js_env \<Rightarrow> jsval \<Rightarrow> ai_error + ai_message" where
  "normalize_item E item =
     (let content = js_string E (js_coalesce (js_opt item (lit ''content''))
                      (js_coalesce (js_opt item (lit ''body'')) (JStr [])))
      in case role_of (js_opt item (lit ''role'')) of
           None \<Rightarrow> Inl History_Invalid
         | Some r \<Rightarrow> if content = [] \<or> MAX_CHAT_MESSAGE_CHARACTERS < length content then Inl History_Invalid
                     else Inr \<lparr>msg_role = r, msg_content = content\<rparr>)"

definition total_characters :: "ai_message list \<Rightarrow> nat" where
  "total_characters ms = sum_list (map (\<lambda>m. length (msg_content m)) ms)"

fun drop_oldest :: "ai_message list \<Rightarrow> ai_message list" where
  \<comment> \<open>the loop that shifts messages out until the total fits\<close>
  "drop_oldest (m # n # ms) =
     (if MAX_CHAT_TOTAL_CHARACTERS < total_characters (m # n # ms) then drop_oldest (n # ms) else m # n # ms)"
| "drop_oldest ms = ms"

definition last_messages :: "ai_message list \<Rightarrow> ai_message list" where
  \<comment> \<open>\<open>slice(-20)\<close>\<close>
  "last_messages ms = drop (length ms - MAX_CHAT_MESSAGES) ms"

definition history_items :: "jsval \<Rightarrow> jsval list" where
  "history_items history = (case arr_of history of None \<Rightarrow> [] | Some xs \<Rightarrow> xs)"

definition buildPersonalAiChatPayload :: "js_env \<Rightarrow> jsval \<Rightarrow> jsval \<Rightarrow> ai_error + ai_message list" where
  "buildPersonalAiChatPayload E history prompt =
     (let content = js_trim (js_string E (js_or prompt (JStr [])))
      in if content = [] then Inl Prompt_Empty
         else if MAX_CHAT_MESSAGE_CHARACTERS < length content then Inl Prompt_Too_Long
         else bind_r (map_r (normalize_item E) (history_items history)) (\<lambda>normalized.
                Inr (drop_oldest (last_messages (normalized @ [\<lparr>msg_role = User, msg_content = content\<rparr>])))))"

section \<open>The action gate\<close>

text \<open>Every ticket is a fresh object; \<open>ticket_id\<close> is its identity.\<close>

record ai_ticket =
  ticket_id :: nat
  ticket_action :: jstring
  ticket_generation :: nat

record ai_gate =
  generation :: nat
  activeTicket :: "ai_ticket option"
  issued :: nat

definition createPersonalAiActionGate :: ai_gate where
  "createPersonalAiActionGate = \<lparr>generation = 0, activeTicket = None, issued = 0\<rparr>"

definition tryEnter :: "jstring \<Rightarrow> ai_gate \<Rightarrow> ai_ticket option \<times> ai_gate" where
  "tryEnter action g =
     (case activeTicket g of
        Some t \<Rightarrow> (None, g)
      | None \<Rightarrow> (let t = \<lparr>ticket_id = issued g, ticket_action = action, ticket_generation = generation g\<rparr>
                in (Some t, g\<lparr>activeTicket := Some t, issued := Suc (issued g)\<rparr>)))"

definition release :: "ai_ticket option \<Rightarrow> ai_gate \<Rightarrow> ai_gate" where
  "release t g = (if map_option ticket_id t = map_option ticket_id (activeTicket g) then g\<lparr>activeTicket := None\<rparr> else g)"

definition reset :: "ai_gate \<Rightarrow> ai_gate" where
  "reset g = g\<lparr>generation := Suc (generation g), activeTicket := None\<rparr>"

definition isBusy :: "jstring \<Rightarrow> ai_gate \<Rightarrow> bool" where
  "isBusy action g = (case activeTicket g of None \<Rightarrow> False | Some t \<Rightarrow> action = [] \<or> ticket_action t = action)"

interpretation ai_gate: action_gate
  "\<lambda>g. (fst (tryEnter a g) \<noteq> None, snd (tryEnter a g))" "\<lambda>g. release (activeTicket g) g" reset "isBusy []"
  for a
  by unfold_locales (auto simp: tryEnter_def release_def reset_def isBusy_def Let_def split: option.splits)

section \<open>The web client\<close>

definition isRecord :: "jsval \<Rightarrow> bool" where
  "isRecord v = (case v of JObj ps \<Rightarrow> True | JArr xs \<Rightarrow> True | _ \<Rightarrow> False)"

definition web_isLowercaseProvider :: "js_env \<Rightarrow> bool \<Rightarrow> jsval \<Rightarrow> bool" where
  "web_isLowercaseProvider E allowEmpty v \<longleftrightarrow>
     is_str v \<and> ((allowEmpty \<and> str_of v = [])
       \<or> (0 < length (str_of v) \<and> str_of v = js_lower E (js_trim (str_of v)) \<and> list_all provider_char (str_of v)))"

definition web_normalizeMessage :: "js_env \<Rightarrow> jsval \<Rightarrow> ai_error + ai_message" where
  "web_normalizeMessage E message =
     (let content = js_string E (js_coalesce (js_opt message (lit ''content'')) (JStr []))
      in case role_of (js_opt message (lit ''role'')) of
           None \<Rightarrow> Inl History_Invalid
         | Some r \<Rightarrow> if content = [] \<or> 8000 < length content then Inl History_Invalid
                     else Inr \<lparr>msg_role = r, msg_content = content\<rparr>)"

definition message_value :: "ai_message \<Rightarrow> jsval" where
  \<comment> \<open>a normalized message as the object it is\<close>
  "message_value m = JObj [(lit ''role'', JStr (case msg_role m of User \<Rightarrow> lit ''user'' | Assistant \<Rightarrow> lit ''assistant'')),
     (lit ''content'', JStr (msg_content m))]"

definition web_normalizeMessages :: "js_env \<Rightarrow> jsval \<Rightarrow> ai_error + ai_message list" where
  "web_normalizeMessages E messages = map_r (web_normalizeMessage E) (history_items messages)"

definition web_limitPersonalAiMessages :: "js_env \<Rightarrow> jsval \<Rightarrow> ai_error + ai_message list" where
  "web_limitPersonalAiMessages E messages =
     bind_r (web_normalizeMessages E messages) (\<lambda>ms. Inr (drop_oldest (last_messages ms)))"

definition web_buildPersonalAiChatPayload :: "js_env \<Rightarrow> jsval \<Rightarrow> jstring \<Rightarrow> ai_error + ai_message list" where
  "web_buildPersonalAiChatPayload E history prompt =
     (let content = js_trim prompt
      in if content = [] then Inl Prompt_Empty
         else if 8000 < length content then Inl Prompt_Too_Long
         else bind_r (web_normalizeMessages E history) (\<lambda>ms.
                web_limitPersonalAiMessages E
                  (JArr (map message_value (ms @ [\<lparr>msg_role = User, msg_content = content\<rparr>])))))"

definition web_read_provider_option :: "js_env \<Rightarrow> jsval \<Rightarrow> ai_error + ai_provider_option" where
  "web_read_provider_option E opt =
     (let label = own_prop opt (lit ''label''); key = own_prop opt (lit ''apiKeyRequired'')
      in if \<not> isRecord opt \<or> \<not> web_isLowercaseProvider E False (own_prop opt (lit ''provider'')) \<or> \<not> is_str label
            \<or> js_trim (str_of label) = [] \<or> \<not> is_bool key
         then Inl Malformed_Response
         else Inr \<lparr>po_provider = str_of (own_prop opt (lit ''provider'')), po_label = js_trim (str_of label),
                   po_apiKeyRequired = truthy key\<rparr>)"

definition web_readPersonalAiProviders :: "js_env \<Rightarrow> jsval \<Rightarrow> ai_error + ai_provider_option list" where
  "web_readPersonalAiProviders E body =
     (case arr_of (own_prop body (lit ''providers'')) of
        None \<Rightarrow> Inl Malformed_Response
      | Some xs \<Rightarrow> if isRecord body then map_r (web_read_provider_option E) xs else Inl Malformed_Response)"

definition string_or_null :: "jsval \<Rightarrow> jsval" where
  "string_or_null v = (if is_str v then v else JNull)"

definition web_readPersonalAiConfig :: "js_env \<Rightarrow> jsval \<Rightarrow> ai_error + ai_config" where
  "web_readPersonalAiConfig E body =
     (let provider = own_prop body (lit ''provider''); model = own_prop body (lit ''model'');
          key = own_prop body (lit ''apiKeyConfigured''); st = own_prop body (lit ''connectionStatus'');
          source = own_prop body (lit ''configSource'');
          code = own_prop body (lit ''lastTestCode''); tested = own_prop body (lit ''lastTestedAt'')
      in if \<not> isRecord body \<or> \<not> web_isLowercaseProvider E True provider \<or> \<not> is_str model \<or> \<not> is_bool key
            \<or> \<not> set_has PERSONAL_AI_CONNECTION_STATUSES st \<or> \<not> set_has PERSONAL_AI_CONFIG_SOURCES source
            \<or> \<not> isNullableString (js_coalesce code JNull) \<or> \<not> isNullableString (js_coalesce tested JNull)
         then Inl Malformed_Response
         else Inr \<lparr>cf_provider = str_of provider, cf_model = str_of model, cf_apiKeyConfigured = truthy key,
                   cf_connectionStatus = str_of st, cf_lastTestCode = string_or_null code,
                   cf_lastTestedAt = string_or_null tested, cf_configSource = str_of source\<rparr>)"

record ai_model_list =
  ml_success :: bool
  ml_provider :: jstring
  ml_models :: "jsval list"
  ml_code :: jstring
  ml_message :: jstring
  ml_loadedAt :: jstring

definition web_readPersonalAiModelList :: "js_env \<Rightarrow> jsval \<Rightarrow> ai_error + ai_model_list" where
  "web_readPersonalAiModelList E body =
     (if \<not> isRecord body \<or> \<not> model_list_ok E body then Inl Malformed_Response
      else Inr \<lparr>ml_success = truthy (own_prop body (lit ''success'')), ml_provider = str_of (own_prop body (lit ''provider'')),
                ml_models = js_unique (models_of body), ml_code = str_of (own_prop body (lit ''code'')),
                ml_message = str_of (own_prop body (lit ''message'')),
                ml_loadedAt = str_of (own_prop body (lit ''loadedAt''))\<rparr>)"

definition web_readPersonalAiConnectionTest :: "js_env \<Rightarrow> jsval \<Rightarrow> ai_error + jsval" where
  "web_readPersonalAiConnectionTest E body =
     (if \<not> isRecord body \<or> \<not> connection_test_ok E body then Inl Malformed_Response else Inr body)"

definition web_readPersonalAiChatResponse :: "js_env \<Rightarrow> jsval \<Rightarrow> ai_error + ai_answer" where
  "web_readPersonalAiChatResponse E body =
     (let message = (if isRecord body \<and> isRecord (own_prop body (lit ''message'')) then own_prop body (lit ''message'') else JNull);
          content = own_prop message (lit ''content'')
      in if \<not> isRecord body \<or> \<not> web_isLowercaseProvider E False (own_prop body (lit ''provider''))
            \<or> \<not> filled (own_prop body (lit ''model'')) \<or> \<not> truthy message
            \<or> own_prop message (lit ''role'') \<noteq> JStr (lit ''assistant'') \<or> \<not> filled content
            \<or> 8000 < length (str_of content) \<or> \<not> filled (own_prop body (lit ''generatedAt''))
         then Inl Malformed_Response
         else Inr \<lparr>an_provider = str_of (own_prop body (lit ''provider'')), an_model = str_of (own_prop body (lit ''model'')),
                   an_content = str_of content, an_generatedAt = str_of (own_prop body (lit ''generatedAt''))\<rparr>)"

section \<open>Both clients\<close>

lemma web_isLowercaseProvider_eq: "web_isLowercaseProvider = isLowercaseProvider"
  by (intro ext) (auto simp: web_isLowercaseProvider_def isLowercaseProvider_def)

lemma own_prop_record: "own_prop v k \<noteq> JUndef \<Longrightarrow> truthy v \<and> isRecord v"
  by (cases v) (auto simp: isRecord_def)

lemma provider_record: "isLowercaseProvider E a (own_prop v k) \<Longrightarrow> truthy v \<and> isRecord v"
  using own_prop_record [of v k] by (cases "own_prop v k = JUndef") (auto simp: isLowercaseProvider_def)

lemma arr_record: "own_prop v k = JArr xs \<Longrightarrow> truthy v \<and> isRecord v"
  using own_prop_record [of v k] by auto

lemma role_record: "own_prop v k = JStr s \<Longrightarrow> truthy v \<and> isRecord v"
  using own_prop_record [of v k] by auto

lemma nullable_coalesce: "isNullableString (js_coalesce v JNull) \<Longrightarrow> js_coalesce v JNull = string_or_null v"
  by (auto simp: isNullableString_def js_coalesce_def string_or_null_def nullish_def split: if_splits)

lemma read_provider_option_eq: "web_read_provider_option E = read_provider_option E"
  by (intro ext) (auto simp: web_read_provider_option_def read_provider_option_def Let_def
      web_isLowercaseProvider_eq dest: provider_record)

lemma readPersonalAiProviders_eq: "web_readPersonalAiProviders E body = readPersonalAiProviders E body"
  by (auto simp: web_readPersonalAiProviders_def readPersonalAiProviders_def read_provider_option_eq
      dest: arr_record split: option.splits)

lemma readPersonalAiConfig_eq: "web_readPersonalAiConfig E body = readPersonalAiConfig E body"
proof (cases "isLowercaseProvider E True (own_prop body (lit ''provider''))")
  case False
  then show ?thesis
    by (simp add: web_readPersonalAiConfig_def readPersonalAiConfig_def Let_def web_isLowercaseProvider_eq)
next
  case True
  with provider_record [OF this] show ?thesis
    by (auto simp: web_readPersonalAiConfig_def readPersonalAiConfig_def Let_def web_isLowercaseProvider_eq
        intro!: nullable_coalesce [symmetric])
qed

lemma readPersonalAiChatResponse_eq: "web_readPersonalAiChatResponse E body = readPersonalAiChatResponse E body"
proof (cases "isLowercaseProvider E False (own_prop body (lit ''provider''))
    \<and> own_prop (own_prop body (lit ''message'')) (lit ''role'') = JStr (lit ''assistant'')")
  case True
  with provider_record [of E False body "lit ''provider''"] role_record [of "own_prop body (lit ''message'')" "lit ''role''" "lit ''assistant''"]
  show ?thesis
    by (simp add: web_readPersonalAiChatResponse_def readPersonalAiChatResponse_def Let_def
        web_isLowercaseProvider_eq js_opt_def MAX_CHAT_MESSAGE_CHARACTERS_def)
next
  case False
  then show ?thesis
    by (auto simp: web_readPersonalAiChatResponse_def readPersonalAiChatResponse_def Let_def
        web_isLowercaseProvider_eq js_opt_def)
qed

definition model_list_view :: "jsval \<Rightarrow> ai_model_list" where
  \<comment> \<open>the fields of a model list that its type names\<close>
  "model_list_view v =
     \<lparr>ml_success = truthy (own_prop v (lit ''success'')), ml_provider = str_of (own_prop v (lit ''provider'')),
      ml_models = models_of v, ml_code = str_of (own_prop v (lit ''code'')),
      ml_message = str_of (own_prop v (lit ''message'')), ml_loadedAt = str_of (own_prop v (lit ''loadedAt''))\<rparr>"

lemma own_prop_with_prop:
  assumes "own_prop v k \<noteq> JUndef"
  shows "own_prop (with_prop v k x) j = (if j = k then x else own_prop v j)"
proof -
  obtain ps where v: "v = JObj ps" using assms by (cases v) auto
  have "map_of (map (\<lambda>(j, y). (j, if j = k then x else y)) ps) j =
     map_option (\<lambda>y. if j = k then x else y) (map_of ps j)" for j
    by (induction ps) auto
  then show ?thesis using assms v by (auto simp: with_prop_def split: option.splits)
qed

lemma readPersonalAiModelList_view:
  "map_sum id model_list_view (readPersonalAiModelList E body) = web_readPersonalAiModelList E body"
proof (cases "model_list_ok E body")
  case True
  then have r: "truthy body \<and> isRecord body" "own_prop body (lit ''models'') \<noteq> JUndef"
    using provider_record by (auto simp: model_list_ok_def split: option.splits)
  note p = own_prop_with_prop [OF r(2)]
  have "models_of (with_prop body (lit ''models'') (JArr xs)) = xs" for xs
    unfolding models_of_def p by simp
  with True r(1) show ?thesis
    by (simp add: readPersonalAiModelList_def web_readPersonalAiModelList_def model_list_view_def p)
next
  case False
  then show ?thesis by (simp add: readPersonalAiModelList_def web_readPersonalAiModelList_def)
qed

lemma readPersonalAiConnectionTest_view:
  "map_sum id connection_test_of (web_readPersonalAiConnectionTest E body) = readPersonalAiConnectionTest E body"
proof (cases "connection_test_ok E body")
  case True
  then have "truthy body \<and> isRecord body" using provider_record by (auto simp: connection_test_ok_def)
  with True show ?thesis by (simp add: readPersonalAiConnectionTest_def web_readPersonalAiConnectionTest_def)
next
  case False
  then show ?thesis by (simp add: readPersonalAiConnectionTest_def web_readPersonalAiConnectionTest_def)
qed

section \<open>Payload lemmas\<close>

definition message_ok :: "ai_message \<Rightarrow> bool" where
  "message_ok m \<longleftrightarrow> msg_content m \<noteq> [] \<and> length (msg_content m) \<le> MAX_CHAT_MESSAGE_CHARACTERS"

lemma drop_oldest_suffix: "\<exists>old. ms = old @ drop_oldest ms"
proof (induction ms rule: drop_oldest.induct)
  case (1 m n ms)
  show ?case
  proof (cases "MAX_CHAT_TOTAL_CHARACTERS < total_characters (m # n # ms)")
    case True
    with 1 obtain old where "n # ms = old @ drop_oldest (n # ms)" by blast
    then have "m # n # ms = (m # old) @ drop_oldest (m # n # ms)" using True by simp
    then show ?thesis by blast
  qed simp
qed auto

lemma drop_oldest_ne: "ms \<noteq> [] \<Longrightarrow> drop_oldest ms \<noteq> []"
  by (induction ms rule: drop_oldest.induct) auto

lemma drop_oldest_total:
  "\<forall>m\<in>set ms. message_ok m \<Longrightarrow> total_characters (drop_oldest ms) \<le> MAX_CHAT_TOTAL_CHARACTERS"
  by (induction ms rule: drop_oldest.induct)
    (auto simp: total_characters_def message_ok_def MAX_CHAT_MESSAGE_CHARACTERS_def MAX_CHAT_TOTAL_CHARACTERS_def)

text \<open>The loop shifts no message out that would have fitted.\<close>

lemma drop_oldest_longest:
  "ms = old @ m # drop_oldest ms \<Longrightarrow> MAX_CHAT_TOTAL_CHARACTERS < total_characters (m # drop_oldest ms)"
proof (induction ms arbitrary: old rule: drop_oldest.induct)
  case (1 a b ms)
  show ?case
  proof (cases "MAX_CHAT_TOTAL_CHARACTERS < total_characters (a # b # ms)")
    case True
    obtain u where u: "b # ms = u @ drop_oldest (b # ms)" using drop_oldest_suffix by blast
    show ?thesis
    proof (cases old)
      case Nil
      with 1(2) True show ?thesis by simp
    next
      case (Cons c old1)
      with 1(2) True have "b # ms = old1 @ m # drop_oldest (b # ms)" by simp
      from 1(1) [OF True this] True show ?thesis by simp
    qed
  next
    case False
    with 1(2) have "length (a # b # ms) = length old + Suc (length (a # b # ms))"
      by (metis drop_oldest.simps(1) length_Cons length_append)
    then show ?thesis by simp
  qed
qed auto

lemma normalize_item_ok: "normalize_item E x = Inr m \<Longrightarrow> message_ok m"
  by (auto simp: normalize_item_def message_ok_def Let_def split: option.splits if_splits)

lemma map_r_all: "map_r f xs = Inr ys \<Longrightarrow> (\<And>x y. f x = Inr y \<Longrightarrow> P y) \<Longrightarrow> y \<in> set ys \<Longrightarrow> P y"
  by (auto simp: map_r_ok list_all2_conv_all_nth in_set_conv_nth)

lemma normalized_ok: "map_r (normalize_item E) xs = Inr ms \<Longrightarrow> m \<in> set ms \<Longrightarrow> message_ok m"
  by (erule map_r_all) (rule normalize_item_ok)

section \<open>Properties\<close>

text \<open>C10. The mobile and the web client read every response of the server alike: providers, configuration and
  answers are equal, errors included; a connection test and a model list are accepted by both or by
  neither, with the same fields.\<close>

theorem clients_read_alike:
  "web_readPersonalAiProviders E body = readPersonalAiProviders E body
   \<and> web_readPersonalAiConfig E body = readPersonalAiConfig E body
   \<and> web_readPersonalAiChatResponse E body = readPersonalAiChatResponse E body
   \<and> map_sum id connection_test_of (web_readPersonalAiConnectionTest E body) = readPersonalAiConnectionTest E body
   \<and> map_sum id model_list_view (readPersonalAiModelList E body) = web_readPersonalAiModelList E body"
  by (simp add: readPersonalAiProviders_eq readPersonalAiConfig_eq readPersonalAiChatResponse_eq
      readPersonalAiConnectionTest_view readPersonalAiModelList_view)

text \<open>C11. A chat payload respects the limits of the server and loses nothing it could keep: its messages are the
  end of the checked history followed by the trimmed prompt, at most 20 with at most 8,000
  characters each and 32,000 together, and the message before the first one sent would exceed one
  of the two totals.\<close>

theorem chat_payload_limits:
  assumes "buildPersonalAiChatPayload E history prompt = Inr messages"
  shows "\<exists>items old content.
      map_r (normalize_item E) (history_items history) = Inr items
    \<and> content = js_trim (js_string E (js_or prompt (JStr [])))
    \<and> items @ [\<lparr>msg_role = User, msg_content = content\<rparr>] = old @ messages
    \<and> messages \<noteq> [] \<and> length messages \<le> 20
    \<and> (\<forall>m\<in>set messages. msg_content m \<noteq> [] \<and> length (msg_content m) \<le> 8000)
    \<and> total_characters messages \<le> 32000
    \<and> (old \<noteq> [] \<longrightarrow> length messages = 20 \<or> 32000 < total_characters (last old # messages))"
proof -
  define content where "content = js_trim (js_string E (js_or prompt (JStr [])))"
  obtain items where items: "map_r (normalize_item E) (history_items history) = Inr items"
    and content: "content \<noteq> []" "length content \<le> MAX_CHAT_MESSAGE_CHARACTERS"
    and messages: "messages = drop_oldest (last_messages (items @ [\<lparr>msg_role = User, msg_content = content\<rparr>]))"
    using assms
    by (auto simp: buildPersonalAiChatPayload_def Let_def bind_r_ok content_def split: if_splits)
  define all where "all = items @ [\<lparr>msg_role = User, msg_content = content\<rparr>]"
  define recent where "recent = last_messages all"
  have ok: "\<forall>m\<in>set all. message_ok m"
    using normalized_ok [OF items] content by (auto simp: all_def message_ok_def)
  define older where "older = take (length all - MAX_CHAT_MESSAGES) all"
  have r: "all = older @ recent" "length recent \<le> 20" "recent \<noteq> []" "older \<noteq> [] \<longrightarrow> length recent = 20"
    by (auto simp: older_def recent_def last_messages_def MAX_CHAT_MESSAGES_def all_def)
  obtain out where out: "recent = out @ messages"
    using drop_oldest_suffix [of recent] messages by (auto simp: recent_def all_def)
  have m: "messages = drop_oldest recent" using messages by (simp add: recent_def all_def)
  have "messages \<noteq> []" using drop_oldest_ne [OF r(3)] m by simp
  moreover have "length messages \<le> 20" using r(2) out by simp
  moreover have "\<forall>m\<in>set messages. message_ok m" using ok r(1) out by auto
  moreover have "total_characters messages \<le> MAX_CHAT_TOTAL_CHARACTERS"
    unfolding m using ok r(1) by (intro drop_oldest_total) auto
  moreover have "length messages = 20 \<or> MAX_CHAT_TOTAL_CHARACTERS < total_characters (last (older @ out) # messages)"
    if "older @ out \<noteq> []"
  proof (cases "out = []")
    case True
    with that r(4) out show ?thesis by simp
  next
    case False
    then have "recent = (butlast out @ [last out]) @ drop_oldest recent" using out m by (metis append_butlast_last_id)
    then have "recent = butlast out @ last out # drop_oldest recent" by simp
    from drop_oldest_longest [OF this] m False show ?thesis by simp
  qed
  ultimately show ?thesis
    using items r(1) out
    by (intro exI [of _ items] exI [of _ "older @ out"] exI [of _ content])
      (auto simp: content_def all_def message_ok_def MAX_CHAT_MESSAGE_CHARACTERS_def MAX_CHAT_TOTAL_CHARACTERS_def)
qed

theorem chat_payload_limits_witness:
  "\<exists>messages. buildPersonalAiChatPayload (sample_env JNull) JNull (JStr (lit '' hi '')) = Inr messages
     \<and> length messages \<le> 20 \<and> total_characters messages \<le> 32000"
proof -
  have trim: "js_trim (lit '' hi '') = lit ''hi''"
    by (simp add: js_trim_def lit_def js_ws_def)
  have "buildPersonalAiChatPayload (sample_env JNull) JNull (JStr (lit '' hi ''))
      = Inr [\<lparr>msg_role = User, msg_content = lit ''hi''\<rparr>]"
    by (simp add: buildPersonalAiChatPayload_def js_or_def trim history_items_def last_messages_def
        MAX_CHAT_MESSAGE_CHARACTERS_def MAX_CHAT_MESSAGES_def)
  note payload = this
  from chat_payload_limits [OF payload]
  have "length [\<lparr>msg_role = User, msg_content = lit ''hi''\<rparr>] \<le> 20
      \<and> total_characters [\<lparr>msg_role = User, msg_content = lit ''hi''\<rparr>] \<le> 32000"
    by (elim exE conjE) (rule conjI)
  with payload show ?thesis by (intro exI conjI) simp_all
qed

lemma web_normalizeMessage_eq:
  assumes "nullish (js_opt item (lit ''content'')) \<longrightarrow> nullish (js_opt item (lit ''body''))"
  shows "web_normalizeMessage E item = normalize_item E item"
  using assms
  by (auto simp: web_normalizeMessage_def normalize_item_def Let_def MAX_CHAT_MESSAGE_CHARACTERS_def js_coalesce_def
      split: option.splits)

lemma map_r_cong: "(\<And>x. x \<in> set xs \<Longrightarrow> f x = g x) \<Longrightarrow> map_r f xs = map_r g xs"
  by (induction xs) (auto split: sum.splits)

lemma web_normalize_message_value: "message_ok m \<Longrightarrow> web_normalizeMessage E (message_value m) = Inr m"
  by (cases m; cases "msg_role m")
    (auto simp: web_normalizeMessage_def message_value_def js_opt_def js_coalesce_def nullish_def role_of_def
      message_ok_def MAX_CHAT_MESSAGE_CHARACTERS_def)

lemma map_r_message_values:
  "\<forall>m\<in>set ms. message_ok m \<Longrightarrow> map_r (web_normalizeMessage E) (map message_value ms) = Inr ms"
  by (induction ms) (auto simp: web_normalize_message_value)

text \<open>C12. On a history whose items carry their text as \<open>content\<close> (the mobile client also takes \<open>body\<close>), both clients build
  the same chat payload, errors included; the web client's second pass over the messages changes nothing.\<close>

theorem clients_send_alike:
  assumes "\<forall>item\<in>set (history_items history).
      nullish (js_opt item (lit ''content'')) \<longrightarrow> nullish (js_opt item (lit ''body''))"
  shows "web_buildPersonalAiChatPayload E history prompt = buildPersonalAiChatPayload E history (JStr prompt)"
proof -
  have norm: "web_normalizeMessages E history = map_r (normalize_item E) (history_items history)"
    unfolding web_normalizeMessages_def using assms by (intro map_r_cong web_normalizeMessage_eq) blast
  have limit: "web_limitPersonalAiMessages E (JArr (map message_value ms)) = Inr (drop_oldest (last_messages ms))"
    if "\<forall>m\<in>set ms. message_ok m" for ms
    using map_r_message_values [OF that]
    by (simp add: web_limitPersonalAiMessages_def web_normalizeMessages_def history_items_def)
  have "js_string E (js_or (JStr prompt) (JStr [])) = prompt" by (simp add: js_or_def)
  moreover have "web_limitPersonalAiMessages E (JArr (map message_value (ms @ [\<lparr>msg_role = User, msg_content = c\<rparr>])))
      = Inr (drop_oldest (last_messages (ms @ [\<lparr>msg_role = User, msg_content = c\<rparr>])))"
    if "map_r (normalize_item E) (history_items history) = Inr ms" "c \<noteq> []" "length c \<le> 8000" for ms c
    using normalized_ok [OF that(1)] that(2,3)
    by (intro limit) (auto simp: message_ok_def MAX_CHAT_MESSAGE_CHARACTERS_def)
  ultimately show ?thesis
    by (auto simp: web_buildPersonalAiChatPayload_def buildPersonalAiChatPayload_def Let_def norm bind_r_def
        MAX_CHAT_MESSAGE_CHARACTERS_def split: sum.splits)
qed

theorem clients_send_alike_witness:
  "web_buildPersonalAiChatPayload (sample_env JNull) (JArr [JObj [(lit ''content'', JStr (lit ''a''))]]) (lit ''b'')
     = buildPersonalAiChatPayload (sample_env JNull) (JArr [JObj [(lit ''content'', JStr (lit ''a''))]]) (JStr (lit ''b''))"
  by (rule clients_send_alike) (simp add: history_items_def js_opt_def nullish_def)

text \<open>The action gate admits one action at a time and cannot be opened by an old ticket: of any number of
  entries without a release only the first gets a ticket, and once the gate was reset and entered
  again, releasing a ticket issued before leaves the new action in place.\<close>

theorem action_gate_exclusive:
  assumes "activeTicket g = None" and "ticket_id old < issued g"
  shows "ai_gate.admitted a (replicate (Suc n) True) g = 1
    \<and> fst (tryEnter a g) \<noteq> None
    \<and> fst (tryEnter b (snd (tryEnter a g))) = None
    \<and> release (Some old) (snd (tryEnter a g)) = snd (tryEnter a g)
    \<and> activeTicket (release (fst (tryEnter a g)) (snd (tryEnter a g))) = None"
proof -
  have "ai_gate.admitted a (replicate (Suc n) True) g = 1"
    using assms(1) by (intro ai_gate.admitted_enters) (simp add: isBusy_def)
  with assms show ?thesis by (auto simp: tryEnter_def release_def Let_def)
qed

theorem action_gate_exclusive_witness:
  "\<exists>old. fst (tryEnter (lit ''chat'') createPersonalAiActionGate) = Some old
     \<and> (let g = reset (snd (tryEnter (lit ''chat'') createPersonalAiActionGate))
        in release (Some old) (snd (tryEnter (lit ''test'') g)) = snd (tryEnter (lit ''test'') g))"
proof -
  define g where "g = reset (snd (tryEnter (lit ''chat'') createPersonalAiActionGate))"
  obtain old where old: "fst (tryEnter (lit ''chat'') createPersonalAiActionGate) = Some old" "ticket_id old = 0"
    by (simp add: tryEnter_def createPersonalAiActionGate_def Let_def)
  have "activeTicket g = None" "issued g = 1"
    by (simp_all add: g_def reset_def tryEnter_def createPersonalAiActionGate_def Let_def)
  with old action_gate_exclusive [of g old "lit ''test''" 0 "[]"] show ?thesis by (simp add: g_def Let_def)
qed

end
