(* ===== verification/Mail_Rich_Text.thy ===== *)
theory Mail_Rich_Text
  imports Archive_Service "HOL-Library.AList"
begin

text \<open>
  Rich mail bodies (\<open>frontend/user-web/src/mailRichText.ts\<close>): the check of an editor document against the
  mail schema, its rendering as HTML and as plain text, and the extraction and replacement of
  its texts for translation. A document is a JSON value, as the editor delivers it. The URL parser of the
  platform is a parameter: \<open>U s\<close> is the protocol of \<open>new URL(s)\<close>, \<open>None\<close> when that raises.
\<close>

section \<open>The schema\<close>

datatype rich_error =
    Node_Not_Allowed
  | Placement_Not_Allowed
  | Property_Not_Allowed
  | Text_Node_Invalid
  | Mark_List_Invalid
  | Mark_Not_Allowed
  | Mark_Attrs_Invalid
  | Mark_Duplicate
  | Text_Property_On_Node
  | Attrs_Invalid
  | Integer_Out_Of_Range
  | Color_Unsafe
  | Link_Unsafe
  | Link_Attribute_Not_Allowed
  | Font_Not_Allowed
  | Alignment_Not_Allowed
  | Heading_Level_Not_Allowed
  | Column_Width_Unsafe
  | Content_Id_Invalid
  | Content_Id_Duplicate
  | Image_Source_Not_Allowed
  | Image_Alt_Invalid
  | Leaf_With_Content
  | Content_Invalid
  | Content_Empty
  | List_Item_Without_Paragraph
  | Not_A_Document
  | Segment_Count
  | Segment_Invalid
  | Segment_Order

definition allowedNodeTypes :: "jstring list" where
  "allowedNodeTypes = map lit [''doc'', ''paragraph'', ''heading'', ''text'', ''hardBreak'', ''bulletList'',
     ''orderedList'', ''listItem'', ''blockquote'', ''horizontalRule'', ''table'', ''tableRow'', ''tableHeader'',
     ''tableCell'', ''image'']"

definition allowedMarkTypes :: "jstring list" where
  "allowedMarkTypes = map lit [''bold'', ''italic'', ''underline'', ''strike'', ''textStyle'', ''highlight'', ''link'']"

definition blockNodeTypes :: "jstring list" where
  "blockNodeTypes = map lit [''paragraph'', ''heading'', ''bulletList'', ''orderedList'', ''blockquote'',
     ''horizontalRule'', ''table'', ''image'']"

definition allowedChildrenByParent :: "(jstring \<times> jstring list) list" where
  "allowedChildrenByParent =
     [(lit ''doc'', blockNodeTypes),
      (lit ''paragraph'', map lit [''text'', ''hardBreak'', ''image'']),
      (lit ''heading'', map lit [''text'', ''hardBreak'']),
      (lit ''bulletList'', map lit [''listItem'']),
      (lit ''orderedList'', map lit [''listItem'']),
      (lit ''listItem'', blockNodeTypes),
      (lit ''blockquote'', blockNodeTypes),
      (lit ''table'', map lit [''tableRow'']),
      (lit ''tableRow'', map lit [''tableHeader'', ''tableCell'']),
      (lit ''tableHeader'', blockNodeTypes),
      (lit ''tableCell'', blockNodeTypes)]"

definition allowedFonts :: "jstring list" where
  "allowedFonts = [47569, 51008, 32, 44256, 46357] # map lit [''Arial'', ''Georgia'', ''Times New Roman'', ''monospace'']"

definition allowedFontSizes :: "jstring list" where
  "allowedFontSizes = map lit [''10px'', ''12px'', ''14px'', ''16px'', ''18px'', ''24px'', ''32px'']"

definition allowedLineHeights :: "jstring list" where
  "allowedLineHeights = map lit [''1'', ''1.15'', ''1.5'', ''1.75'', ''2'']"

definition allowedTextAlignments :: "jstring list" where
  "allowedTextAlignments = map lit [''left'', ''center'', ''right'', ''justify'']"

definition nonEmptyContainerTypes :: "jstring list" where
  "nonEmptyContainerTypes = map lit [''doc'', ''bulletList'', ''orderedList'', ''listItem'', ''blockquote'', ''table'',
     ''tableRow'', ''tableHeader'', ''tableCell'']"

definition defaultHighlightColor :: jstring where "defaultHighlightColor = lit ''#ffff00''"

subsection \<open>Patterns\<close>

definition hex_digit :: "nat \<Rightarrow> bool" where
  "hex_digit c \<longleftrightarrow> is_digit c \<or> (97 \<le> ascii_lower c \<and> ascii_lower c \<le> 102)"

definition color_number :: "jstring \<Rightarrow> bool" where
  \<comment> \<open>\<open>25[0-5]|2[0-4]\d|1?\d?\d\<close>\<close>
  "color_number s \<longleftrightarrow> list_all is_digit s \<and> s \<noteq> []
     \<and> (length s \<le> 2 \<or> (length s = 3 \<and> (hd s = 49 \<or> (hd s = 50 \<and> read_nat 0 s \<le> 255))))"

definition colorPattern :: "jstring \<Rightarrow> bool" where
  "colorPattern s \<longleftrightarrow>
     (length s = 7 \<and> hd s = 35 \<and> list_all hex_digit (tl s))
   \<or> (map ascii_lower (take 4 s) = lit ''rgb('' \<and> 5 \<le> length s \<and> last s = 41
      \<and> length (js_split 44 (butlast (drop 4 s))) = 3
      \<and> list_all (\<lambda>p. color_number (js_trim p)) (js_split 44 (butlast (drop 4 s))))"

definition alnum :: "nat \<Rightarrow> bool" where
  "alnum c \<longleftrightarrow> is_digit c \<or> (65 \<le> c \<and> c \<le> 90) \<or> (97 \<le> c \<and> c \<le> 122)"

definition cid_char :: "nat \<Rightarrow> bool" where
  "cid_char c \<longleftrightarrow> alnum c \<or> c \<in> set [33, 35, 36, 37, 38, 39, 42, 43, 45, 47, 61, 63, 94, 95, 96, 123, 124, 125, 126]"

definition domain_label :: "jstring \<Rightarrow> bool" where
  "domain_label s \<longleftrightarrow> s \<noteq> [] \<and> length s \<le> 63 \<and> list_all (\<lambda>c. alnum c \<or> c = 45) s \<and> alnum (hd s) \<and> alnum (last s)"

definition contentIdPattern :: "jstring \<Rightarrow> bool" where
  "contentIdPattern s \<longleftrightarrow>
     (case js_split 64 s of
        [l, d] \<Rightarrow> list_all (\<lambda>a. a \<noteq> [] \<and> list_all cid_char a) (js_split 46 l)
          \<and> 2 \<le> length (js_split 46 d) \<and> list_all domain_label (js_split 46 d)
      | _ \<Rightarrow> False)"

section \<open>Reading attributes\<close>

definition is_record :: "jsval \<Rightarrow> bool" where
  "is_record v = (case v of JObj ps \<Rightarrow> True | _ \<Rightarrow> False)"

primrec obj_entries :: "jsval \<Rightarrow> (jstring \<times> jsval) list" where
  "obj_entries JUndef = []" | "obj_entries JNull = []" | "obj_entries (JBool b) = []"
| "obj_entries (JNum q) = []" | "obj_entries JNaN = []" | "obj_entries (JInf b) = []"
| "obj_entries (JStr s) = []" | "obj_entries (JArr xs) = []" | "obj_entries (JObj ps) = ps"

definition assertOnlyKeys :: "jsval \<Rightarrow> string list \<Rightarrow> rich_error + unit" where
  "assertOnlyKeys v allowed =
     check_r (list_all (\<lambda>(k, x). k \<in> lit ` set allowed \<or> nullish x) (obj_entries v)) Property_Not_Allowed"

definition readAttrs :: "jsval \<Rightarrow> rich_error + jsval" where
  "readAttrs node =
     (let a = own_prop node (lit ''attrs'')
      in if nullish a then Inr (JObj []) else if \<not> is_record a then Inl Attrs_Invalid else Inr a)"

definition is_integer :: "jsval \<Rightarrow> bool" where
  "is_integer v = (case v of JNum q \<Rightarrow> of_int \<lfloor>q\<rfloor> = q | _ \<Rightarrow> False)"

definition num_of :: "jsval \<Rightarrow> rat" where
  "num_of v = (case v of JNum q \<Rightarrow> q | _ \<Rightarrow> 0)"

definition readPositiveInteger :: "jsval \<Rightarrow> rat \<Rightarrow> rich_error + unit" where
  "readPositiveInteger v maximum =
     check_r (nullish v \<or> (is_integer v \<and> 1 \<le> num_of v \<and> num_of v \<le> maximum)) Integer_Out_Of_Range"

definition readSafeColor :: "jsval \<Rightarrow> rich_error + unit" where
  "readSafeColor v = check_r (nullish v \<or> (is_str v \<and> colorPattern (str_of v))) Color_Unsafe"

definition href_char :: "nat \<Rightarrow> bool" where
  "href_char c \<longleftrightarrow> 31 < c \<and> c \<noteq> 127 \<and> \<not> js_ws c"

definition href_scheme :: "jstring \<Rightarrow> bool" where
  "href_scheme s \<longleftrightarrow> (\<exists>p\<in>set [''http://'', ''https://'', ''mailto:'']. map ascii_lower (take (length p) s) = lit p)"

definition readSafeHref :: "(jstring \<Rightarrow> jstring option) \<Rightarrow> jsval \<Rightarrow> rich_error + unit" where
  "readSafeHref U v =
     bind_r (check_r (is_str v \<and> list_all href_char (str_of v)) Link_Unsafe) (\<lambda>_.
     bind_r (check_r (href_scheme (str_of v)) Link_Unsafe) (\<lambda>_.
       (case U (str_of v) of
          None \<Rightarrow> Inl Link_Unsafe
        | Some protocol \<Rightarrow> check_r (protocol \<in> set [lit ''http:'', lit ''https:'', lit ''mailto:'']) Link_Unsafe)))"

definition one_of :: "js_env \<Rightarrow> jsval \<Rightarrow> jstring list \<Rightarrow> bool" where
  \<comment> \<open>absent, or a value whose text is in the list\<close>
  "one_of E v allowed \<longleftrightarrow> nullish v \<or> js_string E v \<in> set allowed"

section \<open>Checking a document\<close>

definition mark_attrs :: "jsval \<Rightarrow> jsval" where
  "mark_attrs mark = (let a = own_prop mark (lit ''attrs'') in if nullish a then JObj [] else a)"

definition validateMark :: "js_env \<Rightarrow> (jstring \<Rightarrow> jstring option) \<Rightarrow> jsval \<Rightarrow> rich_error + unit" where
  "validateMark E U mark =
     (let t = own_prop mark (lit ''type''); attrs = mark_attrs mark
      in bind_r (check_r (is_record mark \<and> is_str t \<and> str_of t \<in> set allowedMarkTypes) Mark_Not_Allowed) (\<lambda>_.
         bind_r (assertOnlyKeys mark [''type'', ''attrs'']) (\<lambda>_.
         bind_r (check_r (is_record attrs) Mark_Attrs_Invalid) (\<lambda>_.
           if str_of t \<in> set [lit ''bold'', lit ''italic'', lit ''underline'', lit ''strike'']
           then assertOnlyKeys attrs []
           else if str_of t = lit ''link'' then
             bind_r (assertOnlyKeys attrs [''href'', ''target'', ''rel'', ''class'']) (\<lambda>_.
             bind_r (readSafeHref U (own_prop attrs (lit ''href''))) (\<lambda>_.
               check_r (list_all (\<lambda>k. nullish (own_prop attrs (lit k))) [''target'', ''rel'', ''class''])
                 Link_Attribute_Not_Allowed))
           else if str_of t = lit ''highlight'' then
             bind_r (assertOnlyKeys attrs [''color'']) (\<lambda>_. readSafeColor (own_prop attrs (lit ''color'')))
           else
             bind_r (assertOnlyKeys attrs [''fontFamily'', ''fontSize'', ''lineHeight'', ''color'']) (\<lambda>_.
             bind_r (check_r (one_of E (own_prop attrs (lit ''fontFamily'')) allowedFonts) Font_Not_Allowed) (\<lambda>_.
             bind_r (check_r (one_of E (own_prop attrs (lit ''fontSize'')) allowedFontSizes) Font_Not_Allowed) (\<lambda>_.
             bind_r (check_r (one_of E (own_prop attrs (lit ''lineHeight'')) allowedLineHeights) Font_Not_Allowed) (\<lambda>_.
               readSafeColor (own_prop attrs (lit ''color''))))))))))"

fun fold_r :: "('s \<Rightarrow> 'a \<Rightarrow> 'e + 's) \<Rightarrow> 's \<Rightarrow> 'a list \<Rightarrow> 'e + 's" where
  "fold_r f s [] = Inr s"
| "fold_r f s (x # xs) = bind_r (f s x) (\<lambda>t. fold_r f t xs)"

definition validate_marks :: "js_env \<Rightarrow> (jstring \<Rightarrow> jstring option) \<Rightarrow> jsval list \<Rightarrow> rich_error + jsval list" where
  "validate_marks E U marks =
     fold_r (\<lambda>markTypes mark.
       bind_r (validateMark E U mark) (\<lambda>_.
       bind_r (check_r (own_prop mark (lit ''type'') \<notin> set markTypes) Mark_Duplicate) (\<lambda>_.
         Inr (own_prop mark (lit ''type'') # markTypes)))) [] marks"

definition validate_text :: "js_env \<Rightarrow> (jstring \<Rightarrow> jstring option) \<Rightarrow> jsval \<Rightarrow> rich_error + unit" where
  "validate_text E U node =
     bind_r (check_r (is_str (own_prop node (lit ''text'')) \<and> own_prop node (lit ''content'') = JUndef
               \<and> own_prop node (lit ''attrs'') = JUndef) Text_Node_Invalid) (\<lambda>_.
       if own_prop node (lit ''marks'') = JUndef then Inr ()
       else (case arr_of (own_prop node (lit ''marks'')) of
               None \<Rightarrow> Inl Mark_List_Invalid
             | Some marks \<Rightarrow> bind_r (validate_marks E U marks) (\<lambda>_. Inr ())))"

definition check_alignment :: "js_env \<Rightarrow> jsval \<Rightarrow> rich_error + unit" where
  "check_alignment E attrs =
     check_r (one_of E (own_prop attrs (lit ''textAlign'')) allowedTextAlignments) Alignment_Not_Allowed"

definition col_width_ok :: "jsval \<Rightarrow> bool" where
  "col_width_ok v \<longleftrightarrow> nullish v \<or>
     (case arr_of v of None \<Rightarrow> False
      | Some xs \<Rightarrow> list_all (\<lambda>x. is_integer x \<and> 1 \<le> num_of x \<and> num_of x \<le> 4096) xs)"

definition validate_image :: "jsval \<Rightarrow> jstring list \<Rightarrow> rich_error + jstring list" where
  "validate_image attrs contentIds =
     (let cid = own_prop attrs (lit ''contentId''); src = own_prop attrs (lit ''src''); alt = own_prop attrs (lit ''alt'')
      in bind_r (assertOnlyKeys attrs [''contentId'', ''src'', ''alt'', ''width'', ''height'', ''title'']) (\<lambda>_.
         bind_r (check_r (is_str cid \<and> contentIdPattern (str_of cid)) Content_Id_Invalid) (\<lambda>_.
         bind_r (check_r (str_of cid \<notin> set contentIds) Content_Id_Duplicate) (\<lambda>_.
         bind_r (check_r (nullish src \<or> src = JStr (lit ''cid:'' @ str_of cid)) Image_Source_Not_Allowed) (\<lambda>_.
         bind_r (check_r (nullish alt \<or> is_str alt) Image_Alt_Invalid) (\<lambda>_.
         bind_r (check_r (nullish (own_prop attrs (lit ''title''))) Image_Alt_Invalid) (\<lambda>_.
         bind_r (readPositiveInteger (own_prop attrs (lit ''width'')) 4096) (\<lambda>_.
         bind_r (readPositiveInteger (own_prop attrs (lit ''height'')) 4096) (\<lambda>_.
           Inr (contentIds @ [str_of cid]))))))))))"

definition validate_attrs :: "js_env \<Rightarrow> jstring \<Rightarrow> jsval \<Rightarrow> jstring list \<Rightarrow> rich_error + jstring list" where
  "validate_attrs E t attrs contentIds =
     (if t = lit ''doc'' then bind_r (assertOnlyKeys attrs []) (\<lambda>_. Inr contentIds)
      else if t \<in> set [lit ''paragraph'', lit ''blockquote''] then
        bind_r (assertOnlyKeys attrs [''textAlign'']) (\<lambda>_. bind_r (check_alignment E attrs) (\<lambda>_. Inr contentIds))
      else if t = lit ''heading'' then
        bind_r (assertOnlyKeys attrs [''level'', ''textAlign'']) (\<lambda>_.
        bind_r (check_r (own_prop attrs (lit ''level'') \<in> set [JNum 1, JNum 2, JNum 3]) Heading_Level_Not_Allowed) (\<lambda>_.
        bind_r (check_alignment E attrs) (\<lambda>_. Inr contentIds)))
      else if t = lit ''orderedList'' then
        bind_r (assertOnlyKeys attrs [''start'']) (\<lambda>_.
        bind_r (readPositiveInteger (own_prop attrs (lit ''start'')) 1000000) (\<lambda>_. Inr contentIds))
      else if t \<in> set [lit ''tableCell'', lit ''tableHeader''] then
        bind_r (assertOnlyKeys attrs [''colspan'', ''rowspan'', ''textAlign'', ''colwidth'']) (\<lambda>_.
        bind_r (readPositiveInteger (own_prop attrs (lit ''colspan'')) 100) (\<lambda>_.
        bind_r (readPositiveInteger (own_prop attrs (lit ''rowspan'')) 100) (\<lambda>_.
        bind_r (check_r (col_width_ok (own_prop attrs (lit ''colwidth''))) Column_Width_Unsafe) (\<lambda>_.
        bind_r (check_alignment E attrs) (\<lambda>_. Inr contentIds)))))
      else if t = lit ''image'' then validate_image attrs contentIds
      else bind_r (assertOnlyKeys attrs []) (\<lambda>_. Inr contentIds))"

definition node_type :: "jsval \<Rightarrow> jstring" where
  "node_type node = str_of (own_prop node (lit ''type''))"

definition node_content :: "jsval \<Rightarrow> jsval list" where
  "node_content node = (case arr_of (own_prop node (lit ''content'')) of None \<Rightarrow> [] | Some xs \<Rightarrow> xs)"

definition is_leaf :: "jstring \<Rightarrow> bool" where
  "is_leaf t \<longleftrightarrow> t \<in> set [lit ''image'', lit ''hardBreak'', lit ''horizontalRule'']"

definition check_type :: "jsval \<Rightarrow> jstring option \<Rightarrow> rich_error + unit" where
  "check_type node parentType =
     bind_r (check_r (is_record node \<and> is_str (own_prop node (lit ''type'')) \<and> node_type node \<in> set allowedNodeTypes)
               Node_Not_Allowed) (\<lambda>_.
     bind_r (check_r (case parentType of None \<Rightarrow> True
               | Some p \<Rightarrow> (case map_of allowedChildrenByParent p of None \<Rightarrow> False | Some ts \<Rightarrow> node_type node \<in> set ts))
               Placement_Not_Allowed) (\<lambda>_.
       assertOnlyKeys node [''type'', ''attrs'', ''content'', ''marks'', ''text'']))"

definition check_content :: "jsval \<Rightarrow> rich_error + unit" where
  "check_content node =
     bind_r (check_r (own_prop node (lit ''content'') = JUndef \<or> arr_of (own_prop node (lit ''content'')) \<noteq> None)
               Content_Invalid) (\<lambda>_.
     bind_r (check_r (\<not> (node_type node \<in> set nonEmptyContainerTypes \<and> node_content node = [])) Content_Empty) (\<lambda>_.
       check_r (node_type node = lit ''listItem'' \<longrightarrow>
           (case node_content node of [] \<Rightarrow> False
            | c # cs \<Rightarrow> is_record c \<and> own_prop c (lit ''type'') = JStr (lit ''paragraph''))) List_Item_Without_Paragraph))"

lemma size_prop_less: "map_of ps k = Some v \<Longrightarrow> size v < size (JObj ps)"
proof (induction ps)
  case (Cons p ps)
  then show ?case by (cases p) (auto split: if_splits)
qed simp

lemma size_content [termination_simp]: "c \<in> set (node_content node) \<Longrightarrow> size c < size node"
proof -
  assume c: "c \<in> set (node_content node)"
  then obtain xs where xs: "own_prop node (lit ''content'') = JArr xs" "c \<in> set xs"
    by (cases "arr_of (own_prop node (lit ''content''))") (auto simp: node_content_def)
  then obtain ps where ps: "node = JObj ps" by (cases node) auto
  with xs have "map_of ps (lit ''content'') = Some (JArr xs)" by (auto split: option.splits)
  from size_prop_less [OF this] have "size (JArr xs) < size node" using ps by simp
  moreover have "size c < size (JArr xs)" using xs(2) by (induction xs) auto
  ultimately show ?thesis by simp
qed

lemma size_content_enum [termination_simp]: "(i, c) \<in> set (enumerate n (node_content node)) \<Longrightarrow> size c < size node"
  by (rule size_content) (auto simp: enumerate_eq_zip dest: set_zip_rightD)

lemma fold_r_cong [fundef_cong]:
  "xs = ys \<Longrightarrow> s = t \<Longrightarrow> (\<And>x u. x \<in> set ys \<Longrightarrow> f u x = g u x) \<Longrightarrow> fold_r f s xs = fold_r g t ys"
  by (induction ys arbitrary: xs s t) (auto simp: bind_r_def split: sum.splits)

lemma bind_r_cong [fundef_cong]:
  "r = q \<Longrightarrow> (\<And>x. q = Inr x \<Longrightarrow> f x = g x) \<Longrightarrow> bind_r r f = bind_r q g"
  by (cases q) auto

text \<open>The path argument of the source only serves the texts of errors and is left out.\<close>

fun validateNode ::
  "js_env \<Rightarrow> (jstring \<Rightarrow> jstring option) \<Rightarrow> jsval \<Rightarrow> jstring list \<Rightarrow> jstring option \<Rightarrow> rich_error + jstring list" where
  "validateNode E U node contentIds parentType =
     bind_r (check_type node parentType) (\<lambda>_.
       if node_type node = lit ''text'' then bind_r (validate_text E U node) (\<lambda>_. Inr contentIds)
       else
         bind_r (check_r (own_prop node (lit ''text'') = JUndef \<and> own_prop node (lit ''marks'') = JUndef)
                   Text_Property_On_Node) (\<lambda>_.
         bind_r (readAttrs node) (\<lambda>attrs.
         bind_r (validate_attrs E (node_type node) attrs contentIds) (\<lambda>ids.
           if is_leaf (node_type node)
           then bind_r (check_r (own_prop node (lit ''content'') = JUndef) Leaf_With_Content) (\<lambda>_. Inr ids)
           else
             bind_r (check_content node) (\<lambda>_.
               fold_r (\<lambda>ids child. validateNode E U child ids (Some (node_type node))) ids (node_content node))))))"

declare validateNode.simps [simp del]

definition validateDocument :: "js_env \<Rightarrow> (jstring \<Rightarrow> jstring option) \<Rightarrow> jsval \<Rightarrow> rich_error + jstring list" where
  "validateDocument E U doc =
     bind_r (validateNode E U doc [] None) (\<lambda>contentIds.
     bind_r (check_r (node_type doc = lit ''doc'' \<and> arr_of (own_prop doc (lit ''content'')) \<noteq> None) Not_A_Document)
       (\<lambda>_. Inr contentIds))"

section \<open>Rendering\<close>

definition entities :: "(nat \<times> jstring) list" where
  "entities = [(38, lit ''&amp;''), (60, lit ''&lt;''), (62, lit ''&gt;''), (34, lit ''&quot;''), (39, lit ''&#39;'')]"

definition rich_escape :: "jstring \<Rightarrow> jstring" where
  "rich_escape s = concat (map (\<lambda>c. case map_of entities c of None \<Rightarrow> [c] | Some e \<Rightarrow> e) s)"

definition quoted :: "string \<Rightarrow> jstring \<Rightarrow> jstring" where
  \<comment> \<open>an attribute with a space before it\<close>
  "quoted name v = 32 # lit name @ [61, 34] @ v @ [34]"

definition styleAttribute :: "(string \<times> jstring option) list \<Rightarrow> jstring" where
  "styleAttribute styles =
     (let v = js_join (lit '';'')
                (concat (map (\<lambda>(n, x). case x of None \<Rightarrow> [] | Some y \<Rightarrow> if y = [] then [] else [lit n @ lit '':'' @ y]) styles))
      in if v = [] then [] else quoted ''style'' (rich_escape v))"

definition nodeTextAlignStyle :: "js_env \<Rightarrow> jsval \<Rightarrow> jstring" where
  "nodeTextAlignStyle E attrs =
     (let a = own_prop attrs (lit ''textAlign'')
      in styleAttribute [(''text-align'', if nullish a then None else Some (js_string E a))])"

definition set_string :: "js_env \<Rightarrow> jsval \<Rightarrow> jstring option" where
  \<comment> \<open>\<open>v ? String(v) : undefined\<close>\<close>
  "set_string E v = (if truthy v then Some (js_string E v) else None)"

definition element :: "string \<Rightarrow> jstring \<Rightarrow> jstring \<Rightarrow> jstring" where
  "element tag attributes body =
     lit ''<'' @ lit tag @ attributes @ lit ''>'' @ body @ lit ''</'' @ lit tag @ lit ''>''"

definition apply_mark :: "js_env \<Rightarrow> jstring \<Rightarrow> jsval \<Rightarrow> jstring" where
  "apply_mark E html mark =
     (let t = own_prop mark (lit ''type'');
          attrs = (if is_record (own_prop mark (lit ''attrs'')) then own_prop mark (lit ''attrs'') else JObj [])
      in if t = JStr (lit ''bold'') then element ''strong'' [] html
         else if t = JStr (lit ''italic'') then element ''em'' [] html
         else if t = JStr (lit ''underline'') then element ''u'' [] html
         else if t = JStr (lit ''strike'') then element ''s'' [] html
         else if t = JStr (lit ''link'') then
           element ''a'' (quoted ''href'' (rich_escape (js_string E (own_prop attrs (lit ''href''))))
                          @ quoted ''rel'' (lit ''noopener noreferrer'')) html
         else if t = JStr (lit ''highlight'') then
           element ''span'' (styleAttribute [(''background-color'',
             Some (if truthy (own_prop attrs (lit ''color'')) then js_string E (own_prop attrs (lit ''color''))
                   else defaultHighlightColor))]) html
         else if t = JStr (lit ''textStyle'') then
           element ''span'' (styleAttribute
             [(''font-family'', set_string E (own_prop attrs (lit ''fontFamily''))),
              (''font-size'', set_string E (own_prop attrs (lit ''fontSize''))),
              (''line-height'', set_string E (own_prop attrs (lit ''lineHeight''))),
              (''color'', set_string E (own_prop attrs (lit ''color'')))]) html
         else html)"

definition node_text :: "jsval \<Rightarrow> jstring" where
  "node_text node = str_of (own_prop node (lit ''text''))"

definition node_marks :: "jsval \<Rightarrow> jsval list" where
  "node_marks node = (case arr_of (own_prop node (lit ''marks'')) of None \<Rightarrow> [] | Some xs \<Rightarrow> xs)"

definition renderMarkedText :: "js_env \<Rightarrow> jstring \<Rightarrow> jsval list \<Rightarrow> jstring" where
  "renderMarkedText E t marks = foldl (apply_mark E) (rich_escape t) marks"

definition number_attribute :: "js_env \<Rightarrow> string \<Rightarrow> jsval \<Rightarrow> jstring" where
  \<comment> \<open>written when the value is set and is not 1\<close>
  "number_attribute E name v = (if truthy v \<and> v \<noteq> JNum 1 then quoted name (js_string E v) else [])"

definition size_attribute :: "js_env \<Rightarrow> string \<Rightarrow> jsval \<Rightarrow> jstring" where
  "size_attribute E name v = (if truthy v then quoted name (js_string E v) else [])"

definition default_alt :: jstring where "default_alt = [48376, 47928, 32, 51060, 48120, 51648]"

definition image_alt :: "jsval \<Rightarrow> jstring" where
  "image_alt attrs =
     (let a = own_prop attrs (lit ''alt'') in if is_str a \<and> js_trim (str_of a) \<noteq> [] then js_trim (str_of a) else default_alt)"

definition render_node :: "js_env \<Rightarrow> jstring \<Rightarrow> jsval \<Rightarrow> jstring \<Rightarrow> rich_error + jstring" where
  \<comment> \<open>the \<open>switch\<close> of \<open>renderHtml\<close>\<close>
  "render_node E t attrs children =
     (if t = lit ''doc'' then Inr children
      else if t = lit ''paragraph'' then Inr (element ''p'' (nodeTextAlignStyle E attrs) children)
      else if t = lit ''heading'' then
        (let h = lit ''h'' @ js_string E (own_prop attrs (lit ''level''))
         in Inr (lit ''<'' @ h @ nodeTextAlignStyle E attrs @ lit ''>'' @ children @ lit ''</'' @ h @ lit ''>''))
      else if t = lit ''hardBreak'' then Inr (lit ''<br>'')
      else if t = lit ''bulletList'' then Inr (element ''ul'' [] children)
      else if t = lit ''orderedList'' then
        Inr (element ''ol'' (number_attribute E ''start'' (own_prop attrs (lit ''start''))) children)
      else if t = lit ''listItem'' then Inr (element ''li'' [] children)
      else if t = lit ''blockquote'' then Inr (element ''blockquote'' (nodeTextAlignStyle E attrs) children)
      else if t = lit ''horizontalRule'' then Inr (lit ''<hr>'')
      else if t = lit ''table'' then Inr (element ''table'' [] children)
      else if t = lit ''tableRow'' then Inr (element ''tr'' [] children)
      else if t = lit ''tableHeader'' \<or> t = lit ''tableCell'' then
        Inr (element (if t = lit ''tableHeader'' then ''th'' else ''td'')
          (number_attribute E ''colspan'' (own_prop attrs (lit ''colspan''))
           @ number_attribute E ''rowspan'' (own_prop attrs (lit ''rowspan''))
           @ nodeTextAlignStyle E attrs) children)
      else if t = lit ''image'' then
        Inr (lit ''<img'' @ quoted ''src'' (lit ''cid:'' @ rich_escape (js_string E (own_prop attrs (lit ''contentId''))))
             @ quoted ''alt'' (rich_escape (image_alt attrs))
             @ size_attribute E ''width'' (own_prop attrs (lit ''width''))
             @ size_attribute E ''height'' (own_prop attrs (lit ''height'')) @ lit ''>'')
      else Inl Node_Not_Allowed)"

lemma map_r_cong2 [fundef_cong]:
  "xs = ys \<Longrightarrow> (\<And>x. x \<in> set ys \<Longrightarrow> f x = g x) \<Longrightarrow> map_r f xs = map_r g ys"
  by (induction ys arbitrary: xs) (auto split: sum.splits)

fun renderHtml :: "js_env \<Rightarrow> jsval \<Rightarrow> rich_error + jstring" where
  "renderHtml E node =
     (if node_type node = lit ''text'' then Inr (renderMarkedText E (node_text node) (node_marks node))
      else bind_r (readAttrs node) (\<lambda>attrs.
           bind_r (map_r (renderHtml E) (node_content node)) (\<lambda>children.
             render_node E (node_type node) attrs (concat children))))"

declare renderHtml.simps [simp del]

definition list_item_lines :: "jstring \<Rightarrow> jstring \<Rightarrow> jstring" where
  \<comment> \<open>the item after its marker, its further lines indented\<close>
  "list_item_lines marker body =
     (let lines = js_split 10 body
      in marker @ lit '' '' @ hd lines @ concat (map (\<lambda>l. 10 # lit ''  '' @ l) (tl lines)))"

definition list_start :: "jsval \<Rightarrow> jstring \<Rightarrow> rat" where
  "list_start attrs t =
     (if t = lit ''orderedList'' then num_of (js_coalesce (own_prop attrs (lit ''start'')) (JNum 1)) else 1)"

fun renderPlain :: "js_env \<Rightarrow> jsval \<Rightarrow> jstring" where
  \<comment> \<open>called on a checked document only, whose attributes can be read\<close>
  "renderPlain E node =
     (let t = node_type node;
          attrs = own_prop node (lit ''attrs'');
          children = map (renderPlain E) (node_content node)
      in if t = lit ''text'' then node_text node
         else if t = lit ''image'' then [91, 51060, 48120, 51648, 58, 32] @ image_alt attrs @ [93]
         else if t = lit ''hardBreak'' then [10]
         else if t = lit ''horizontalRule'' then lit ''---''
         else if t = lit ''bulletList'' \<or> t = lit ''orderedList'' then
           js_join [10] (map (\<lambda>(i, body). list_item_lines
               (if t = lit ''bulletList'' then lit ''-'' else js_num_string E (list_start attrs t + of_nat i) @ lit ''.'') body)
             (enumerate 0 children))
         else if t = lit ''tableRow'' then js_join [9] children
         else if t \<in> set [lit ''table'', lit ''listItem'', lit ''tableHeader'', lit ''tableCell'', lit ''blockquote'', lit ''doc'']
         then js_join [10] children
         else concat children)"

declare renderPlain.simps [simp del]

text \<open>The four steps of \<open>normalizePlainText\<close>.\<close>

fun unify_newlines :: "jstring \<Rightarrow> jstring" where
  "unify_newlines [] = []"
| "unify_newlines [c] = [if c = 13 then 10 else c]"
| "unify_newlines (c # d # s) =
     (if c = 13 then (if d = 10 then 10 # unify_newlines s else 10 # unify_newlines (d # s))
      else c # unify_newlines (d # s))"

definition blank :: "nat \<Rightarrow> bool" where "blank c \<longleftrightarrow> c = 32 \<or> c = 9"

fun strip_line_ends :: "jstring \<Rightarrow> jstring" where
  "strip_line_ends [] = []"
| "strip_line_ends (c # s) =
     (if blank c \<and> (case dropWhile blank s of [] \<Rightarrow> False | d # u \<Rightarrow> d = 10) then strip_line_ends s
      else c # strip_line_ends s)"

fun limit_newlines :: "jstring \<Rightarrow> jstring" where
  "limit_newlines (a # b # c # s) =
     (if a = 10 \<and> b = 10 \<and> c = 10 then limit_newlines (b # c # s) else a # limit_newlines (b # c # s))"
| "limit_newlines s = s"

definition normalizePlainText :: "jstring \<Rightarrow> jstring" where
  "normalizePlainText s = js_trim (limit_newlines (strip_line_ends (unify_newlines s)))"

record projection =
  bodyHtml :: jstring
  bodyText :: jstring
  contentIds :: "jstring list"

definition projectMailDocument ::
  "js_env \<Rightarrow> (jstring \<Rightarrow> jstring option) \<Rightarrow> jsval \<Rightarrow> rich_error + projection" where
  "projectMailDocument E U doc =
     bind_r (validateDocument E U doc) (\<lambda>ids.
     bind_r (renderHtml E doc) (\<lambda>html.
       Inr \<lparr>bodyHtml = html, bodyText = normalizePlainText (renderPlain E doc), contentIds = ids\<rparr>))"

section \<open>Translation segments\<close>

type_synonym segment = "jstring \<times> jstring"

definition path_id :: "nat list \<Rightarrow> jstring" where
  "path_id path = js_join (lit ''.'') (map show_nat path)"

fun collectTextNodes :: "jsval \<Rightarrow> nat list \<Rightarrow> segment list" where
  \<comment> \<open>the segments it pushes, in order\<close>
  "collectTextNodes node path =
     (if node_type node = lit ''text'' then [(path_id path, node_text node)]
      else concat (map (\<lambda>(i, child). collectTextNodes child (path @ [i])) (enumerate 0 (node_content node))))"

declare collectTextNodes.simps [simp del]

definition set_prop :: "jsval \<Rightarrow> jstring \<Rightarrow> jsval \<Rightarrow> jsval" where
  \<comment> \<open>assignment to a property of an object\<close>
  "set_prop v k x = (case v of JObj ps \<Rightarrow> JObj (AList.update k x ps) | _ \<Rightarrow> v)"

fun replaceTextNodes :: "jsval \<Rightarrow> nat list \<Rightarrow> (jstring \<Rightarrow> jstring option) \<Rightarrow> jsval" where
  \<comment> \<open>the copy after the in-place replacement\<close>
  "replaceTextNodes node path replacements =
     (if node_type node = lit ''text''
      then set_prop node (lit ''text'') (case replacements (path_id path) of None \<Rightarrow> JUndef | Some t \<Rightarrow> JStr t)
      else if node_content node = [] then node
      else set_prop node (lit ''content'')
             (JArr (map (\<lambda>(i, child). replaceTextNodes child (path @ [i]) replacements) (enumerate 0 (node_content node)))))"

declare replaceTextNodes.simps [simp del]

definition extractTranslationSegments ::
  "js_env \<Rightarrow> (jstring \<Rightarrow> jstring option) \<Rightarrow> jsval \<Rightarrow> rich_error + jsval \<times> segment list" where
  "extractTranslationSegments E U doc =
     bind_r (validateDocument E U doc) (\<lambda>_. Inr (doc, collectTextNodes doc []))"

definition check_segments :: "jsval list \<Rightarrow> segment list \<Rightarrow> rich_error + jstring list" where
  "check_segments items expected =
     fold_r (\<lambda>seen (item, e).
       bind_r (check_r (is_record item \<and> is_str (own_prop item (lit ''id'')) \<and> is_str (own_prop item (lit ''text'')))
                 Segment_Invalid) (\<lambda>_.
       bind_r (check_r (str_of (own_prop item (lit ''id'')) \<notin> set seen \<and> str_of (own_prop item (lit ''id'')) = fst e)
                 Segment_Order) (\<lambda>_.
         Inr (str_of (own_prop item (lit ''id'')) # seen)))) [] (zip items expected)"

definition item_pair :: "jsval \<Rightarrow> segment" where
  "item_pair item = (str_of (own_prop item (lit ''id'')), str_of (own_prop item (lit ''text'')))"

definition applyTranslatedSegments ::
  "js_env \<Rightarrow> (jstring \<Rightarrow> jstring option) \<Rightarrow> jsval \<Rightarrow> jsval \<Rightarrow> rich_error + jsval" where
  "applyTranslatedSegments E U doc items =
     bind_r (validateDocument E U doc) (\<lambda>_.
       let expected = collectTextNodes doc []
       in (case arr_of items of
             None \<Rightarrow> Inl Segment_Count
           | Some xs \<Rightarrow>
               bind_r (check_r (length xs = length expected) Segment_Count) (\<lambda>_.
               bind_r (check_segments xs expected) (\<lambda>_.
                 Inr (replaceTextNodes doc [] (map_of (rev (map item_pair xs))))))))"

section \<open>Lemmas on checked documents\<close>

lemma validateNode_cases:
  assumes "validateNode E U node ids parent = Inr ids1"
  obtains (plain) "node_type node = lit ''text''" "check_type node parent = Inr ()" "validate_text E U node = Inr ()" "ids1 = ids"
  | (leaf) attrs where "node_type node \<noteq> lit ''text''" "check_type node parent = Inr ()" "readAttrs node = Inr attrs"
      "validate_attrs E (node_type node) attrs ids = Inr ids1" "is_leaf (node_type node)" "node_content node = []"
  | (branch) attrs ids2 where "node_type node \<noteq> lit ''text''" "check_type node parent = Inr ()" "readAttrs node = Inr attrs"
      "validate_attrs E (node_type node) attrs ids = Inr ids2" "\<not> is_leaf (node_type node)" "check_content node = Inr ()"
      "fold_r (\<lambda>ids child. validateNode E U child ids (Some (node_type node))) ids2 (node_content node) = Inr ids1"
  using assms
  by (subst (asm) validateNode.simps) (auto simp: bind_r_ok node_content_def split: if_splits)

lemma fold_r_Inr_induct:
  assumes "fold_r f s xs = Inr t" and "P [] s"
    and "\<And>ys x u v. set ys \<subseteq> set xs \<Longrightarrow> x \<in> set xs \<Longrightarrow> P ys u \<Longrightarrow> f u x = Inr v \<Longrightarrow> P (ys @ [x]) v"
  shows "P xs t"
proof -
  have "P (pre @ ys) t" if "fold_r f u ys = Inr t" "P pre u" "pre @ ys = xs" for pre ys u
    using that
  proof (induction ys arbitrary: pre u)
    case Nil
    then show ?case by simp
  next
    case (Cons y ys)
    then obtain v where v: "f u y = Inr v" "fold_r f v ys = Inr t" by (auto simp: bind_r_ok)
    have "P (pre @ [y]) v"
    proof (rule assms(3) [OF _ _ Cons.prems(2) v(1)])
      show "set pre \<subseteq> set xs" and "y \<in> set xs" using Cons.prems(3) by auto
    qed
    from Cons.IH [OF v(2) this] Cons.prems(3) show ?case by simp
  qed
  from this [of s xs "[]"] assms(1,2) show ?thesis by simp
qed

lemma fold_r_all:
  assumes "fold_r f s xs = Inr t" and "x \<in> set xs"
  shows "\<exists>u v. f u x = Inr v"
  using assms by (induction xs arbitrary: s) (auto simp: bind_r_ok)

lemma escapers_equal: "rich_escape s = escape_text s"
proof -
  have "(case map_of entities c of None \<Rightarrow> [c] | Some e \<Rightarrow> e) = html_entity c" for c
    by (simp add: entities_def html_entity_def)
  then show ?thesis by (simp add: rich_escape_def escape_text_entities)
qed

interpretation rich_esc: html_escaper rich_escape
proof unfold_locales
  fix s t
  show "set (rich_escape s) \<inter> markup_chars = {}"
    unfolding escapers_equal by (rule archive_esc.esc_safe)
  show "rich_escape (s @ t) = rich_escape s @ rich_escape t"
    unfolding escapers_equal by (rule archive_esc.esc_append)
qed

subsection \<open>Content ids\<close>

fun image_ids :: "jsval \<Rightarrow> jstring list" where
  \<comment> \<open>the content ids of the images of a document, in reading order\<close>
  "image_ids node =
     (if node_type node = lit ''text'' then []
      else if node_type node = lit ''image'' then [str_of (own_prop (own_prop node (lit ''attrs'')) (lit ''contentId''))]
      else concat (map image_ids (node_content node)))"

declare image_ids.simps [simp del]

lemma validate_image_ok:
  "validate_image attrs ids = Inr ids1 \<Longrightarrow> is_str (own_prop attrs (lit ''contentId''))
     \<and> contentIdPattern (str_of (own_prop attrs (lit ''contentId'')))
     \<and> str_of (own_prop attrs (lit ''contentId'')) \<notin> set ids
     \<and> ids1 = ids @ [str_of (own_prop attrs (lit ''contentId''))]"
  by (auto simp: validate_image_def Let_def bind_r_ok)

lemma validate_attrs_ids:
  assumes "validate_attrs E t attrs ids = Inr ids1"
  shows "ids1 = ids @ (if t = lit ''image'' then [str_of (own_prop attrs (lit ''contentId''))] else [])
    \<and> (distinct ids \<longrightarrow> distinct ids1)"
proof (cases "t = lit ''image''")
  case True
  with assms have "validate_image attrs ids = Inr ids1" by (simp add: validate_attrs_def)
  from validate_image_ok [OF this] True show ?thesis by simp
next
  case False
  with assms show ?thesis by (auto simp: validate_attrs_def bind_r_ok split: if_splits)
qed

lemma readAttrs_ok:
  "readAttrs node = Inr attrs \<Longrightarrow> attrs = (if nullish (own_prop node (lit ''attrs'')) then JObj [] else own_prop node (lit ''attrs''))"
  by (auto simp: readAttrs_def Let_def split: if_splits)

lemma own_prop_nullish: "nullish v \<Longrightarrow> own_prop v k = JUndef"
  by (auto simp: nullish_def)

lemma readAttrs_prop: "readAttrs node = Inr attrs \<Longrightarrow> own_prop attrs k = own_prop (own_prop node (lit ''attrs'')) k"
  by (auto dest!: readAttrs_ok simp: own_prop_nullish)

lemma validateNode_ids:
  "validateNode E U node ids parent = Inr ids1 \<Longrightarrow> ids1 = ids @ image_ids node \<and> (distinct ids \<longrightarrow> distinct ids1)"
proof (induction node arbitrary: ids ids1 parent rule: image_ids.induct)
  case (1 node)
  from 1(2) show ?case
  proof (cases rule: validateNode_cases)
    case plain
    then show ?thesis by (simp add: image_ids.simps)
  next
    case (leaf attrs)
    have "image_ids node = (if node_type node = lit ''image'' then [str_of (own_prop attrs (lit ''contentId''))] else [])"
      using leaf by (simp add: image_ids.simps [of node] readAttrs_prop)
    note images = this
    show ?thesis unfolding images by (rule validate_attrs_ids [OF leaf(4)])
  next
    case (branch attrs ids2)
    have t: "node_type node \<noteq> lit ''image''" using branch(5) by (auto simp: is_leaf_def)
    have a: "ids2 = ids" using validate_attrs_ids [OF branch(4)] t by simp
    have "ids1 = ids @ concat (map image_ids (node_content node)) \<and> (distinct ids \<longrightarrow> distinct ids1)"
    proof (rule fold_r_Inr_induct [OF branch(7)])
      show "ids2 = ids @ concat (map image_ids []) \<and> (distinct ids \<longrightarrow> distinct ids2)" using a by simp
    next
      fix ys x u v
      assume x: "x \<in> set (node_content node)" and u: "u = ids @ concat (map image_ids ys) \<and> (distinct ids \<longrightarrow> distinct u)"
        and v: "validateNode E U x u (Some (node_type node)) = Inr v"
      from 1(1) [OF branch(1) t x v] have "v = u @ image_ids x" "distinct u \<longrightarrow> distinct v" by blast+
      moreover from u have "u = ids @ concat (map image_ids ys)" "distinct ids \<longrightarrow> distinct u" by blast+
      ultimately have "v = ids @ concat (map image_ids (ys @ [x]))" "distinct ids \<longrightarrow> distinct v" by (simp, blast)
      then show "v = ids @ concat (map image_ids (ys @ [x])) \<and> (distinct ids \<longrightarrow> distinct v)" by blast
    qed
    moreover have "image_ids node = concat (map image_ids (node_content node))"
      using branch(1) t by (simp add: image_ids.simps [of node])
    ultimately show ?thesis by metis
  qed
qed

subsection \<open>The grammar of the HTML that is written\<close>

text \<open>
  Well-nested HTML with safe attributes only: the values contain no character that could end
  them, links go to web and mail addresses, images to parts of the mail, and style declarations
  are of the listed kinds.
\<close>

definition safe_declaration :: "string \<times> jstring \<Rightarrow> bool" where
  "safe_declaration d \<longleftrightarrow>
     (fst d = ''text-align'' \<and> snd d \<in> set allowedTextAlignments)
   \<or> (fst d = ''font-family'' \<and> snd d \<in> set allowedFonts)
   \<or> (fst d = ''font-size'' \<and> snd d \<in> set allowedFontSizes)
   \<or> (fst d = ''line-height'' \<and> snd d \<in> set allowedLineHeights)
   \<or> (fst d \<in> {''color'', ''background-color''} \<and> colorPattern (snd d))"

definition declarations_text :: "(string \<times> jstring) list \<Rightarrow> jstring" where
  "declarations_text ds = js_join (lit '';'') (map (\<lambda>(n, x). lit n @ lit '':'' @ x) ds)"

definition safe_attribute :: "string \<times> jstring \<Rightarrow> bool" where
  "safe_attribute a \<longleftrightarrow> set (snd a) \<inter> markup_chars = {} \<and>
     ((fst a = ''style'' \<and> (\<exists>ds. list_all safe_declaration ds \<and> snd a = rich_escape (declarations_text ds)))
    \<or> (fst a = ''href'' \<and> (\<exists>u. href_scheme u \<and> list_all href_char u \<and> snd a = rich_escape u))
    \<or> (fst a = ''src'' \<and> (\<exists>c. contentIdPattern c \<and> snd a = lit ''cid:'' @ rich_escape c))
    \<or> fst a \<in> {''rel'', ''alt''}
    \<or> (fst a \<in> {''start'', ''colspan'', ''rowspan'', ''width'', ''height''} \<and> list_all is_digit (snd a)))"

definition attributes_text :: "(string \<times> jstring) list \<Rightarrow> jstring" where
  "attributes_text as = concat (map (\<lambda>(n, v). quoted n v) as)"

definition safe_elements :: "string set" where
  "safe_elements = {''p'', ''h1'', ''h2'', ''h3'', ''ul'', ''ol'', ''li'', ''blockquote'', ''table'', ''tr'', ''th'', ''td'',
     ''strong'', ''em'', ''u'', ''s'', ''a'', ''span''}"

inductive safe_html :: "jstring \<Rightarrow> bool" where
  characters: "set s \<inter> markup_chars = {} \<Longrightarrow> safe_html s"
| element: "tag \<in> safe_elements \<Longrightarrow> list_all safe_attribute as \<Longrightarrow> safe_html body \<Longrightarrow>
     safe_html (element tag (attributes_text as) body)"
| void: "tag \<in> {''br'', ''hr'', ''img''} \<Longrightarrow> list_all safe_attribute as \<Longrightarrow>
     safe_html (lit ''<'' @ lit tag @ attributes_text as @ lit ''>'')"
| append: "safe_html s \<Longrightarrow> safe_html t \<Longrightarrow> safe_html (s @ t)"

lemma attributes_text_append: "attributes_text (as @ bs) = attributes_text as @ attributes_text bs"
  by (simp add: attributes_text_def)

lemma safe_html_Nil: "safe_html []"
  by (rule safe_html.characters) simp

lemma safe_html_concat: "(\<And>x. x \<in> set xs \<Longrightarrow> safe_html x) \<Longrightarrow> safe_html (concat xs)"
  by (induction xs) (auto intro: safe_html.append safe_html_Nil)

definition safe_attributes :: "jstring \<Rightarrow> bool" where
  "safe_attributes s \<longleftrightarrow> (\<exists>as. list_all safe_attribute as \<and> s = attributes_text as)"

lemma safe_attributes_Nil [intro, simp]: "safe_attributes []"
  unfolding safe_attributes_def by (rule exI [of _ "[]"]) (simp add: attributes_text_def)

lemma safe_attributes_append [intro]: "safe_attributes s \<Longrightarrow> safe_attributes t \<Longrightarrow> safe_attributes (s @ t)"
  unfolding safe_attributes_def
  by (elim exE, rename_tac as bs, rule_tac x = "as @ bs" in exI) (simp add: attributes_text_append)

lemma safe_attributes_one: "safe_attribute (n, v) \<Longrightarrow> safe_attributes (quoted n v)"
  unfolding safe_attributes_def by (rule exI [of _ "[(n, v)]"]) (simp add: attributes_text_def)

lemma safe_element:
  "tag \<in> safe_elements \<Longrightarrow> safe_attributes as \<Longrightarrow> safe_html body \<Longrightarrow> safe_html (element tag as body)"
  unfolding safe_attributes_def by (auto intro: safe_html.element)

subsection \<open>Safe attributes are written\<close>

lemma markup_lit: "set s \<inter> markup_chars = {} \<longleftrightarrow> list_all (\<lambda>c. c \<noteq> 34 \<and> c \<noteq> 39 \<and> c \<noteq> 60 \<and> c \<noteq> 62) s"
  by (auto simp: list_all_iff markup_chars_def)

lemma digits_no_markup: "list_all is_digit s \<Longrightarrow> set s \<inter> markup_chars = {}"
  by (auto simp: list_all_iff markup_chars_def is_digit_def)

lemma positive_integer_digits:
  assumes "is_integer v" "1 \<le> num_of v" "num_of v \<le> 1000000"
  shows "list_all is_digit (js_string E v)"
proof -
  from assms obtain q where v: "v = JNum q" "of_int \<lfloor>q\<rfloor> = q" by (auto simp: is_integer_def split: jsval.splits)
  with assms have "1 \<le> q" "q \<le> 1000000" by (simp_all add: num_of_def)
  then have "js_num_string E q = show_int \<lfloor>q\<rfloor>" using v by (simp add: js_num_string_def)
  moreover have "1 \<le> \<lfloor>q\<rfloor>" using \<open>1 \<le> q\<close> by linarith
  ultimately show ?thesis using v(1) by (simp add: show_int_def list_all_iff show_nat_digits)
qed

lemma readPositiveInteger_digits:
  assumes "readPositiveInteger v m = Inr ()" "m \<le> 1000000" "truthy v"
  shows "list_all is_digit (js_string E v)"
  using assms by (intro positive_integer_digits) (auto simp: readPositiveInteger_def nullish_def)

lemma safe_number:
  assumes "readPositiveInteger v m = Inr ()" "m \<le> 1000000" "n \<in> {''start'', ''colspan'', ''rowspan'', ''width'', ''height''}"
  shows "safe_attributes (number_attribute E n v)" "safe_attributes (size_attribute E n v)"
proof -
  have "safe_attributes (quoted n (js_string E v))" if "truthy v"
    using readPositiveInteger_digits [OF assms(1,2) that] assms(3)
    by (intro safe_attributes_one) (auto simp: safe_attribute_def dest: digits_no_markup)
  then show "safe_attributes (number_attribute E n v)" "safe_attributes (size_attribute E n v)"
    by (auto simp: number_attribute_def size_attribute_def)
qed

lemma styleAttribute_safe:
  assumes "\<And>n x. (n, Some x) \<in> set styles \<Longrightarrow> x \<noteq> [] \<Longrightarrow> safe_declaration (n, x)"
  shows "safe_attributes (styleAttribute styles)"
proof -
  define ds where "ds = concat (map (\<lambda>(n, x). case x of None \<Rightarrow> [] | Some y \<Rightarrow> if y = [] then [] else [(n, y)]) styles)"
  have "concat (map (\<lambda>(n, x). case x of None \<Rightarrow> [] | Some y \<Rightarrow> if y = [] then [] else [lit n @ lit '':'' @ y]) styles)
      = map (\<lambda>(n, x). lit n @ lit '':'' @ x) ds"
    unfolding ds_def by (induction styles) (auto split: option.splits)
  then have s: "styleAttribute styles =
      (if declarations_text ds = [] then [] else quoted ''style'' (rich_escape (declarations_text ds)))"
    by (simp add: styleAttribute_def declarations_text_def Let_def)
  have "list_all safe_declaration ds"
    using assms by (auto simp: ds_def list_all_iff split: option.splits if_splits)
  then have "safe_attribute (''style'', rich_escape (declarations_text ds))"
    using rich_esc.esc_safe by (auto simp: safe_attribute_def)
  then show ?thesis unfolding s by (auto intro: safe_attributes_one)
qed

lemma alignment_safe: "check_alignment E attrs = Inr () \<Longrightarrow> safe_attributes (nodeTextAlignStyle E attrs)"
  unfolding nodeTextAlignStyle_def Let_def
  by (rule styleAttribute_safe) (auto simp: check_alignment_def one_of_def safe_declaration_def split: if_splits)

lemma color_cases: "readSafeColor v = Inr () \<Longrightarrow> truthy v \<Longrightarrow> v = JStr (str_of v) \<and> colorPattern (js_string E v)"
  by (cases v) (auto simp: readSafeColor_def nullish_def)

lemma readSafeHref_ok:
  "readSafeHref U v = Inr () \<Longrightarrow> is_str v \<and> list_all href_char (str_of v) \<and> href_scheme (str_of v)"
  by (auto simp: readSafeHref_def bind_r_ok split: option.splits)

subsection \<open>Marks\<close>

lemma set_string_one_of:
  "one_of E v allowed \<Longrightarrow> set_string E v = Some x \<Longrightarrow> x \<in> set allowed"
  by (auto simp: one_of_def set_string_def nullish_def split: if_splits)

lemma mark_attrs_prop:
  assumes "is_record (mark_attrs mark)"
  shows "own_prop (if is_record (own_prop mark (lit ''attrs'')) then own_prop mark (lit ''attrs'') else JObj []) k
    = own_prop (mark_attrs mark) k"
  using assms by (auto simp: mark_attrs_def Let_def nullish_def is_record_def)

lemma apply_mark_safe:
  assumes "validateMark E U mark = Inr ()" and "safe_html html"
  shows "safe_html (apply_mark E html mark)"
proof -
  define attrs where "attrs = mark_attrs mark"
  define t where "t = own_prop mark (lit ''type'')"
  have r: "is_record attrs" "t = JStr (str_of t)"
    using assms(1) by (auto simp: validateMark_def Let_def bind_r_ok attrs_def t_def is_str_iff)
  note p = mark_attrs_prop [OF r(1) [unfolded attrs_def], folded attrs_def]
  have link: "readSafeHref U (own_prop attrs (lit ''href'')) = Inr ()" if "t = JStr (lit ''link'')"
    using assms(1) that by (auto simp: validateMark_def Let_def bind_r_ok attrs_def t_def)
  have high: "readSafeColor (own_prop attrs (lit ''color'')) = Inr ()" if "t = JStr (lit ''highlight'')"
    using assms(1) that by (auto simp: validateMark_def Let_def bind_r_ok attrs_def t_def)
  have style: "one_of E (own_prop attrs (lit ''fontFamily'')) allowedFonts
      \<and> one_of E (own_prop attrs (lit ''fontSize'')) allowedFontSizes
      \<and> one_of E (own_prop attrs (lit ''lineHeight'')) allowedLineHeights
      \<and> readSafeColor (own_prop attrs (lit ''color'')) = Inr ()" if "t = JStr (lit ''textStyle'')"
    using assms(1) that by (auto simp: validateMark_def Let_def bind_r_ok attrs_def t_def)
  have tags: "''strong'' \<in> safe_elements" "''em'' \<in> safe_elements" "''u'' \<in> safe_elements" "''s'' \<in> safe_elements"
    "''a'' \<in> safe_elements" "''span'' \<in> safe_elements" by (simp_all add: safe_elements_def)
  have href_ok: "\<exists>u. own_prop attrs (lit ''href'') = JStr u \<and> list_all href_char u \<and> href_scheme u" if "t = JStr (lit ''link'')"
    using readSafeHref_ok [OF link [OF that]] by (auto simp: is_str_iff)
  have href: "safe_attributes (quoted ''href'' (rich_escape (js_string E (own_prop attrs (lit ''href''))))
      @ quoted ''rel'' (lit ''noopener noreferrer''))" if "t = JStr (lit ''link'')"
  proof (intro safe_attributes_append safe_attributes_one)
    obtain u where u: "own_prop attrs (lit ''href'') = JStr u" "list_all href_char u" "href_scheme u"
      using href_ok \<open>t = JStr (lit ''link'')\<close> by blast
    then show "safe_attribute (''href'', rich_escape (js_string E (own_prop attrs (lit ''href''))))"
      using rich_esc.esc_safe by (auto simp: safe_attribute_def)
    show "safe_attribute (''rel'', lit ''noopener noreferrer'')"
      by (simp add: safe_attribute_def markup_chars_def lit_def)
  qed
  have highlight: "safe_attributes (styleAttribute [(''background-color'',
       Some (if truthy (own_prop attrs (lit ''color'')) then js_string E (own_prop attrs (lit ''color''))
             else defaultHighlightColor))])" if "t = JStr (lit ''highlight'')"
  proof (rule styleAttribute_safe)
    have "colorPattern defaultHighlightColor"
      by (simp add: colorPattern_def defaultHighlightColor_def lit_def hex_digit_def is_digit_def ascii_lower_def)
    with color_cases [OF high [OF that]]
    show "safe_declaration (n, x)" if "(n, Some x) \<in> set [(''background-color'',
       Some (if truthy (own_prop attrs (lit ''color'')) then js_string E (own_prop attrs (lit ''color''))
             else defaultHighlightColor))]" for n x
      using that by (auto simp: safe_declaration_def)
  qed
  have text_style: "safe_attributes (styleAttribute
       [(''font-family'', set_string E (own_prop attrs (lit ''fontFamily''))),
        (''font-size'', set_string E (own_prop attrs (lit ''fontSize''))),
        (''line-height'', set_string E (own_prop attrs (lit ''lineHeight''))),
        (''color'', set_string E (own_prop attrs (lit ''color'')))])" if "t = JStr (lit ''textStyle'')"
  proof (rule styleAttribute_safe)
    note st = style [OF that]
    have "Some x = set_string E v \<Longrightarrow> readSafeColor v = Inr () \<Longrightarrow> colorPattern x" for x v
      using color_cases [of v] by (auto simp: set_string_def split: if_splits)
    moreover have "Some x = set_string E v \<Longrightarrow> one_of E v allowed \<Longrightarrow> x \<in> set allowed" for x v allowed
      by (rule set_string_one_of [OF _ sym])
    ultimately show "safe_declaration (n, x)" if "(n, Some x) \<in> set
       [(''font-family'', set_string E (own_prop attrs (lit ''fontFamily''))),
        (''font-size'', set_string E (own_prop attrs (lit ''fontSize''))),
        (''line-height'', set_string E (own_prop attrs (lit ''lineHeight''))),
        (''color'', set_string E (own_prop attrs (lit ''color'')))]" for n x
      using that st unfolding safe_declaration_def by (simp, elim disjE; simp)
  qed
  show ?thesis
    unfolding apply_mark_def Let_def p t_def [symmetric]
    using assms(2) tags href highlight text_style by (auto intro: safe_element)
qed

subsection \<open>Nodes\<close>

lemma renderMarkedText_safe:
  assumes "\<And>m. m \<in> set marks \<Longrightarrow> validateMark E U m = Inr ()"
  shows "safe_html (renderMarkedText E t marks)"
proof -
  have "safe_html (foldl (apply_mark E) html marks)" if "safe_html html" for html
    using that assms by (induction marks arbitrary: html) (auto intro: apply_mark_safe)
  then show ?thesis
    using rich_esc.esc_safe by (auto simp: renderMarkedText_def intro: safe_html.characters)
qed

lemma validate_text_marks:
  assumes "validate_text E U node = Inr ()" and "m \<in> set (node_marks node)"
  shows "validateMark E U m = Inr ()"
proof -
  from assms have "\<exists>ts. validate_marks E U (node_marks node) = Inr ts"
    by (auto simp: validate_text_def node_marks_def bind_r_ok split: if_splits option.splits)
  then obtain ts where "validate_marks E U (node_marks node) = Inr ts" by blast
  from fold_r_all [OF this [unfolded validate_marks_def] assms(2)] show ?thesis by (auto simp: bind_r_ok)
qed

lemma alignment_of_attrs:
  assumes "validate_attrs E t attrs ids = Inr ids1"
    and "t \<in> {lit ''paragraph'', lit ''blockquote'', lit ''heading'', lit ''tableHeader'', lit ''tableCell''}"
  shows "safe_attributes (nodeTextAlignStyle E attrs)"
  using assms by (intro alignment_safe) (auto simp: validate_attrs_def bind_r_ok)

lemma image_safe:
  assumes "validate_image attrs ids = Inr ids1"
  shows "safe_html (lit ''<img'' @ quoted ''src'' (lit ''cid:'' @ rich_escape (js_string E (own_prop attrs (lit ''contentId''))))
             @ quoted ''alt'' (rich_escape (image_alt attrs))
             @ size_attribute E ''width'' (own_prop attrs (lit ''width''))
             @ size_attribute E ''height'' (own_prop attrs (lit ''height'')) @ lit ''>'')"
proof -
  have nums: "readPositiveInteger (own_prop attrs (lit ''width'')) 4096 = Inr ()"
    "readPositiveInteger (own_prop attrs (lit ''height'')) 4096 = Inr ()"
    using assms by (auto simp: validate_image_def Let_def bind_r_ok)
  obtain c where c: "own_prop attrs (lit ''contentId'') = JStr c" "contentIdPattern c"
    using validate_image_ok [OF assms] by (auto simp: is_str_iff)
  have "safe_attribute (''src'', lit ''cid:'' @ rich_escape c)" "safe_attribute (''alt'', rich_escape (image_alt attrs))"
    using c(2) rich_esc.esc_safe [of c] rich_esc.esc_safe [of "image_alt attrs"]
    by (auto simp: safe_attribute_def markup_chars_def lit_def)
  then have "safe_attributes (quoted ''src'' (lit ''cid:'' @ rich_escape c) @ quoted ''alt'' (rich_escape (image_alt attrs))
             @ size_attribute E ''width'' (own_prop attrs (lit ''width''))
             @ size_attribute E ''height'' (own_prop attrs (lit ''height'')))"
    using nums by (intro safe_attributes_append) (auto intro: safe_attributes_one safe_number)
  then obtain as where as: "list_all safe_attribute as" "attributes_text as =
      quoted ''src'' (lit ''cid:'' @ rich_escape c) @ quoted ''alt'' (rich_escape (image_alt attrs))
             @ size_attribute E ''width'' (own_prop attrs (lit ''width''))
             @ size_attribute E ''height'' (own_prop attrs (lit ''height''))"
    unfolding safe_attributes_def by metis
  from safe_html.void [of "''img''", OF _ as(1)] show ?thesis
    unfolding as(2) c(1) by (simp add: lit_def)
qed

lemma void_safe: "safe_html (lit ''<br>'')" "safe_html (lit ''<hr>'')"
  using safe_html.void [of "''br''" "[]"] safe_html.void [of "''hr''" "[]"]
  by (simp_all add: attributes_text_def lit_def)

lemma heading_safe:
  assumes "validate_attrs E (lit ''heading'') attrs ids = Inr ids1" and "safe_html children"
  shows "safe_html (lit ''<'' @ (lit ''h'' @ js_string E (own_prop attrs (lit ''level''))) @ nodeTextAlignStyle E attrs
     @ lit ''>'' @ children @ lit ''</'' @ (lit ''h'' @ js_string E (own_prop attrs (lit ''level''))) @ lit ''>'')"
proof -
  have "own_prop attrs (lit ''level'') \<in> {JNum 1, JNum 2, JNum 3}"
    using assms(1) by (auto simp: validate_attrs_def bind_r_ok)
  then have "js_string E (own_prop attrs (lit ''level'')) \<in> {lit ''1'', lit ''2'', lit ''3''}"
    by (auto simp: js_num_string_def show_int_def show_nat.simps lit_def)
  then obtain h where h: "h \<in> safe_elements" "lit ''h'' @ js_string E (own_prop attrs (lit ''level'')) = lit h"
    by (elim insertE emptyE; simp add: safe_elements_def; metis append_Cons append_Nil lit_def list.map(1) list.map(2))
  have "safe_attributes (nodeTextAlignStyle E attrs)" using alignment_of_attrs [OF assms(1)] by simp
  from safe_element [OF h(1) this assms(2)] show ?thesis unfolding h(2) element_def .
qed

lemma render_node_safe:
  assumes "validate_attrs E t attrs ids = Inr ids1" and "t \<in> set allowedNodeTypes" "t \<noteq> lit ''text''"
    and "safe_html children"
  shows "\<exists>html. render_node E t attrs children = Inr html \<and> safe_html html"
proof -
  have tags: "''p'' \<in> safe_elements" "''ul'' \<in> safe_elements" "''ol'' \<in> safe_elements" "''li'' \<in> safe_elements"
    "''blockquote'' \<in> safe_elements" "''table'' \<in> safe_elements" "''tr'' \<in> safe_elements" "''th'' \<in> safe_elements"
    "''td'' \<in> safe_elements" by (simp_all add: safe_elements_def)
  note align = alignment_of_attrs [OF assms(1)]
  have ol: "safe_attributes (number_attribute E ''start'' (own_prop attrs (lit ''start'')))" if "t = lit ''orderedList''"
    using assms(1) that by (intro safe_number(1) [where m = 1000000]) (auto simp: validate_attrs_def bind_r_ok)
  have cell: "safe_attributes (number_attribute E ''colspan'' (own_prop attrs (lit ''colspan''))
           @ number_attribute E ''rowspan'' (own_prop attrs (lit ''rowspan'')) @ nodeTextAlignStyle E attrs)"
    if "t = lit ''tableHeader'' \<or> t = lit ''tableCell''"
    using assms(1) that align
    by (intro safe_attributes_append safe_number(1) [where m = 100]) (auto simp: validate_attrs_def bind_r_ok)
  have img: "validate_image attrs ids = Inr ids1" if "t = lit ''image''"
    using assms(1) that by (simp add: validate_attrs_def)
  note heading = heading_safe [OF _ assms(4)]
  consider "t \<in> {lit ''doc'', lit ''hardBreak'', lit ''horizontalRule''}" | "t \<in> {lit ''paragraph'', lit ''blockquote''}"
    | "t = lit ''heading''" | "t \<in> {lit ''bulletList'', lit ''listItem'', lit ''table'', lit ''tableRow''}"
    | "t = lit ''orderedList''" | "t = lit ''tableHeader'' \<or> t = lit ''tableCell''" | "t = lit ''image''"
    using assms(2,3) by (auto simp: allowedNodeTypes_def)
  then show ?thesis
  proof cases
    case 1
    then show ?thesis using assms(4) void_safe by (auto simp: render_node_def)
  next
    case 2
    then show ?thesis using assms(4) align tags by (auto simp: render_node_def intro!: safe_element)
  next
    case 3
    then show ?thesis using heading [of E attrs ids ids1] assms(1) by (simp add: render_node_def Let_def)
  next
    case 4
    then show ?thesis using assms(4) tags by (auto simp: render_node_def intro!: safe_element)
  next
    case 5
    then show ?thesis using assms(4) ol tags by (auto simp: render_node_def intro!: safe_element)
  next
    case 6
    then show ?thesis using assms(4) cell tags by (auto simp: render_node_def intro!: safe_element)
  next
    case 7
    then show ?thesis using image_safe [OF img [OF 7]] by (simp add: render_node_def)
  qed
qed

lemma check_type_allowed: "check_type node parent = Inr () \<Longrightarrow> node_type node \<in> set allowedNodeTypes"
  by (auto simp: check_type_def bind_r_ok)

lemma renderHtml_safe:
  "validateNode E U node ids parent = Inr ids1 \<Longrightarrow> \<exists>html. renderHtml E node = Inr html \<and> safe_html html"
proof (induction E node arbitrary: ids ids1 parent rule: renderHtml.induct)
  case (1 E node)
  from 1(2) show ?case
  proof (cases rule: validateNode_cases)
    case plain
    then show ?thesis
      by (auto simp: renderHtml.simps [of E node] intro: renderMarkedText_safe validate_text_marks)
  next
    case (leaf attrs)
    from render_node_safe [OF leaf(4) check_type_allowed [OF leaf(2)] leaf(1) safe_html_Nil] show ?thesis
      using leaf by (simp add: renderHtml.simps [of E node])
  next
    case (branch attrs ids2)
    have each: "\<exists>html. renderHtml E c = Inr html \<and> safe_html html" if "c \<in> set (node_content node)" for c
      using fold_r_all [OF branch(7) that] 1(1) [OF branch(1) branch(3) that] by blast
    then have "\<exists>hs. map_r (renderHtml E) cs = Inr hs \<and> (\<forall>h\<in>set hs. safe_html h)"
      if "set cs \<subseteq> set (node_content node)" for cs
      using that by (induction cs) (fastforce split: sum.splits)+
    then obtain hs where hs: "map_r (renderHtml E) (node_content node) = Inr hs" "\<forall>h\<in>set hs. safe_html h"
      by blast
    have "safe_html (concat hs)" using hs(2) by (auto intro: safe_html_concat)
    from render_node_safe [OF branch(4) check_type_allowed [OF branch(2)] branch(1) this] show ?thesis
      using branch hs(1) by (simp add: renderHtml.simps [of E node])
  qed
qed

subsection \<open>Plain text\<close>

lemma unify_no_cr: "13 \<notin> set (unify_newlines s)"
  by (induction s rule: unify_newlines.induct) auto

lemma strip_subset: "set (strip_line_ends s) \<subseteq> set s"
  by (induction s) auto

lemma limit_subset: "set (limit_newlines s) \<subseteq> set s"
  by (induction s rule: limit_newlines.induct) auto

lemma strip_starts_newline:
  "strip_line_ends s = 10 # u \<Longrightarrow> \<exists>v. dropWhile blank s = 10 # v"
  by (induction s arbitrary: u) (auto simp: blank_def split: if_splits list.splits)

lemma includes_two_Cons:
  "js_includes (c # s) [a, b] \<longleftrightarrow> (c = a \<and> (\<exists>u. s = b # u)) \<or> js_includes s [a, b]"
  by (auto simp: js_starts_with_iff)

lemma strip_no_blank: "blank a \<Longrightarrow> \<not> js_includes (strip_line_ends s) [a, 10]"
proof (induction s)
  case (Cons c s)
  have "\<not> (c = a \<and> (\<exists>u. strip_line_ends s = 10 # u))"
    if "\<not> (blank c \<and> (case dropWhile blank s of [] \<Rightarrow> False | d # u \<Rightarrow> d = 10))"
    using that strip_starts_newline [of s] Cons.prems by auto
  with Cons show ?case by (auto simp del: js_includes.simps simp: includes_two_Cons)
qed simp

lemma limit_head: "\<exists>u. limit_newlines (c # s) = c # u"
proof (induction s arbitrary: c)
  case (Cons d s)
  then show ?case by (cases s) auto
qed simp

lemma limit_starts_two:
  assumes "limit_newlines s = 10 # 10 # u"
  shows "\<exists>v. s = 10 # 10 # v"
  using assms
proof (induction s rule: limit_newlines.induct)
  case (1 a b c s)
  from limit_head [of b "c # s"] obtain w where "limit_newlines (b # c # s) = b # w" by blast
  with 1 show ?case by (auto split: if_splits)
qed auto

lemma limit_two: "js_includes (limit_newlines s) [a, 10] \<Longrightarrow> a \<noteq> 10 \<Longrightarrow> js_includes s [a, 10]"
proof (induction s rule: limit_newlines.induct)
  case (1 x b c s)
  from limit_head [of b "c # s"] obtain w where w: "limit_newlines (b # c # s) = b # w" by blast
  show ?case
  proof (cases "x = 10 \<and> b = 10 \<and> c = 10")
    case True
    with 1 show ?thesis by (auto simp: js_starts_with_def)
  next
    case False
    with 1(3) have "js_includes (x # limit_newlines (b # c # s)) [a, 10]" by simp
    then have "(x = a \<and> b = 10) \<or> js_includes (limit_newlines (b # c # s)) [a, 10]"
      unfolding includes_two_Cons by (auto simp: w)
    with 1(2) [OF False] 1(4) show ?thesis unfolding includes_two_Cons [of x] by auto
  qed
qed auto

lemma limit_three: "\<not> js_includes (limit_newlines s) [10, 10, 10]"
proof (induction s rule: limit_newlines.induct)
  case (1 a b c s)
  have three: "js_includes (x # t) [10, 10, 10] \<longleftrightarrow> (x = 10 \<and> (\<exists>u. t = 10 # 10 # u)) \<or> js_includes t [10, 10, 10]" for x t
    by (auto simp: js_starts_with_iff)
  show ?case
  proof (cases "a = 10 \<and> b = 10 \<and> c = 10")
    case False
    then have "\<not> (a = 10 \<and> (\<exists>u. limit_newlines (b # c # s) = 10 # 10 # u))"
      using limit_starts_two by fastforce
    with 1(2) [OF False] have "\<not> js_includes (a # limit_newlines (b # c # s)) [10, 10, 10]"
      unfolding three by blast
    moreover have "limit_newlines (a # b # c # s) = a # limit_newlines (b # c # s)" using False by auto
    ultimately show ?thesis by simp
  qed (use 1 in simp)
qed (auto simp: js_starts_with_def)

lemma js_trim_infix: "\<exists>p q. s = p @ js_trim s @ q"
proof -
  let ?d = "dropWhile js_ws s"
  have "s = takeWhile js_ws s @ ?d" by simp
  moreover have "?d = js_trim s @ rev (takeWhile js_ws (rev ?d))"
    unfolding js_trim_def by (metis rev_append rev_rev_ident takeWhile_dropWhile_id)
  ultimately show ?thesis by metis
qed

lemma includes_infix: "js_includes t x \<Longrightarrow> js_includes (p @ t @ q) x"
  unfolding js_includes_iff by (metis append.assoc)

lemma trim_includes: "js_includes (js_trim s) x \<Longrightarrow> js_includes s x"
  using js_trim_infix [of s] includes_infix by metis

subsection \<open>Segments\<close>

lemma js_split_join_inverse:
  "xs \<noteq> [] \<Longrightarrow> (\<And>x. x \<in> set xs \<Longrightarrow> c \<notin> set x) \<Longrightarrow> js_split c (js_join [c] xs) = xs"
proof (induction xs)
  case (Cons x xs)
  then show ?case by (cases xs) (auto simp: js_split_single js_split_append_sep)
qed simp

lemma path_id_split: "path \<noteq> [] \<Longrightarrow> js_split 46 (path_id path) = map show_nat path"
proof -
  assume "path \<noteq> []"
  moreover have "lit ''.'' = [46]" by (simp add: lit_def)
  moreover have "46 \<notin> set (show_nat n)" for n using show_nat_digits [of 46 n] by (auto simp: is_digit_def)
  ultimately show ?thesis unfolding path_id_def by (auto intro!: js_split_join_inverse)
qed

lemma path_id_inj: "path_id p = path_id q \<longleftrightarrow> p = q"
proof
  assume eq: "path_id p = path_id q"
  have empty: "path_id r = [] \<longleftrightarrow> r = []" for r
  proof
    assume e: "path_id r = []"
    show "r = []"
    proof (rule ccontr)
      assume "r \<noteq> []"
      from path_id_split [OF this] e have "map show_nat r = [[]]" by simp
      then show False by auto
    qed
  qed (simp add: path_id_def)
  show "p = q"
  proof (cases "p = []")
    case True
    with eq empty show ?thesis by metis
  next
    case False
    with eq empty have "q \<noteq> []" by metis
    with False eq have "map show_nat p = map show_nat q" by (metis path_id_split)
    then show ?thesis by (rule map_injective) (simp add: inj_def)
  qed
qed simp

fun text_paths :: "jsval \<Rightarrow> nat list list" where
  "text_paths node =
     (if node_type node = lit ''text'' then [[]]
      else concat (map (\<lambda>(i, child). map ((#) i) (text_paths child)) (enumerate 0 (node_content node))))"

declare text_paths.simps [simp del]

lemma map_fst_concat: "map f (concat xss) = concat (map (map f) xss)"
  by (rule map_concat)

lemma collect_ids: "map fst (collectTextNodes node path) = map (\<lambda>q. path_id (path @ q)) (text_paths node)"
proof (induction node path rule: collectTextNodes.induct)
  case (1 node path)
  show ?case
  proof (cases "node_type node = lit ''text''")
    case True
    then show ?thesis by (simp add: collectTextNodes.simps [of node] text_paths.simps [of node])
  next
    case False
    have "map fst (collectTextNodes c (path @ [i])) = map (\<lambda>q. path_id (path @ q)) (map ((#) i) (text_paths c))"
      if "(i, c) \<in> set (enumerate 0 (node_content node))" for i c
      using 1 [OF False that refl] by simp
    with False show ?thesis
      by (simp add: collectTextNodes.simps [of node] text_paths.simps [of node] map_concat comp_def case_prod_beta'
          cong: map_cong)
  qed
qed

lemma distinct_enumerated:
  assumes "\<And>c. c \<in> set cs \<Longrightarrow> distinct (f c)"
  shows "distinct (concat (map (\<lambda>(i, c). map ((#) i) (f c)) (enumerate n cs)))"
  using assms
proof (induction cs arbitrary: n)
  case (Cons c cs)
  have heads: "\<exists>i q. x = i # q \<and> Suc n \<le> i"
    if "x \<in> set (concat (map (\<lambda>(i, c). map ((#) i) (f c)) (enumerate (Suc n) cs)))" for x
    using that by (auto simp: in_set_enumerate_eq)
  have "set (map ((#) n) (f c)) \<inter> set (concat (map (\<lambda>(i, c). map ((#) i) (f c)) (enumerate (Suc n) cs))) = {}"
    using heads by fastforce
  moreover have "distinct (map ((#) n) (f c))" using Cons.prems by (simp add: distinct_map)
  moreover have "distinct (concat (map (\<lambda>(i, c). map ((#) i) (f c)) (enumerate (Suc n) cs)))"
    using Cons by simp
  ultimately show ?case by (simp only: enumerate_simps list.map concat.simps distinct_append prod.case)
qed simp

lemma distinct_text_paths: "distinct (text_paths node)"
proof (induction node rule: text_paths.induct)
  case (1 node)
  show ?case
  proof (cases "node_type node = lit ''text''")
    case False
    have "distinct (text_paths c)" if c: "c \<in> set (node_content node)" for c
    proof -
      from c obtain i where "i < length (node_content node)" "node_content node ! i = c" by (auto simp: in_set_conv_nth)
      then have "(i, c) \<in> set (enumerate 0 (node_content node))" by (auto simp: in_set_enumerate_eq)
      from 1 [OF False this refl] show ?thesis .
    qed
    with False show ?thesis by (simp add: text_paths.simps [of node] distinct_enumerated)
  qed (simp add: text_paths.simps [of node])
qed

lemma distinct_segment_ids: "distinct (map fst (collectTextNodes node path))"
  unfolding collect_ids by (simp add: distinct_map distinct_text_paths inj_on_def path_id_inj)

lemma text_record: "node_type node = lit ''text'' \<Longrightarrow> \<exists>ps. node = JObj ps"
  by (cases node) (auto simp: node_type_def)

lemma content_record: "node_content node \<noteq> [] \<Longrightarrow> \<exists>ps. node = JObj ps"
  by (cases node) (auto simp: node_content_def)

lemma own_prop_set_prop: "own_prop (set_prop (JObj ps) k x) j = (if j = k then x else own_prop (JObj ps) j)"
  by (simp add: set_prop_def AList.update_conv')

lemma set_prop_same: "own_prop (JObj ps) k = x \<Longrightarrow> x \<noteq> JUndef \<Longrightarrow> set_prop (JObj ps) k x = JObj ps"
  by (auto simp: set_prop_def intro: AList.update_triv split: option.splits)

lemma enumerate_map_enumerate:
  "enumerate n (map (\<lambda>(i, x). f i x) (enumerate n xs)) = map (\<lambda>(i, x). (i, f i x)) (enumerate n xs)"
  by (induction xs arbitrary: n) auto

definition replaced :: "(jstring \<Rightarrow> jstring option) \<Rightarrow> nat list \<Rightarrow> jsval list \<Rightarrow> jsval list" where
  "replaced R path cs = map (\<lambda>(i, child). replaceTextNodes child (path @ [i]) R) (enumerate 0 cs)"

lemma replace_text_eq:
  "node_type node = lit ''text'' \<Longrightarrow> replaceTextNodes node path R =
     set_prop node (lit ''text'') (case R (path_id path) of None \<Rightarrow> JUndef | Some t \<Rightarrow> JStr t)"
  by (subst replaceTextNodes.simps) simp

lemma replace_node_eq:
  "node_type node \<noteq> lit ''text'' \<Longrightarrow> replaceTextNodes node path R =
     (if node_content node = [] then node
      else set_prop node (lit ''content'') (JArr (replaced R path (node_content node))))"
  by (subst replaceTextNodes.simps) (simp add: replaced_def)

lemma replace_branch:
  assumes "node_type node \<noteq> lit ''text''" and "node_content node \<noteq> []"
  obtains ps where "node = JObj ps" "replaceTextNodes node path R = set_prop (JObj ps) (lit ''content'') (JArr (replaced R path (node_content node)))"
  using content_record [OF assms(2)] replace_node_eq [OF assms(1)] assms(2) by fastforce

lemma replace_branch_other:
  assumes "node_type node \<noteq> lit ''text''" and "j \<noteq> lit ''content''"
  shows "own_prop (replaceTextNodes node path R) j = own_prop node j"
proof (cases "node_content node = []")
  case True
  then show ?thesis using assms(1) by (simp add: replace_node_eq)
next
  case False
  obtain ps where ps: "node = JObj ps"
      "replaceTextNodes node path R = set_prop (JObj ps) (lit ''content'') (JArr (replaced R path (node_content node)))"
    by (rule replace_branch [OF assms(1) False])
  show ?thesis unfolding ps(2) own_prop_set_prop using assms(2) by (simp add: ps(1))
qed

lemma replace_branch_props:
  assumes "node_type node \<noteq> lit ''text''"
  shows "node_type (replaceTextNodes node path R) = node_type node"
    and "node_content (replaceTextNodes node path R) = replaced R path (node_content node)"
proof -
  show "node_type (replaceTextNodes node path R) = node_type node"
    unfolding node_type_def by (simp add: replace_branch_other [OF assms])
  show "node_content (replaceTextNodes node path R) = replaced R path (node_content node)"
  proof (cases "node_content node = []")
    case True
    then show ?thesis using assms by (simp add: replace_node_eq replaced_def)
  next
    case False
    obtain ps where "node = JObj ps"
      and r: "replaceTextNodes node path R = set_prop (JObj ps) (lit ''content'') (JArr (replaced R path (node_content node)))"
      by (rule replace_branch [OF assms False])
    show ?thesis unfolding r node_content_def [of "set_prop a b c" for a b c] own_prop_set_prop by simp
  qed
qed

lemma replace_text_other:
  assumes "node_type node = lit ''text''" and "j \<noteq> lit ''text''"
  shows "own_prop (replaceTextNodes node path R) j = own_prop node j"
  using text_record [OF assms(1)] assms
  by (elim exE) (simp add: replace_text_eq own_prop_set_prop del: own_prop.simps)

lemma replace_text_props:
  assumes "node_type node = lit ''text''"
  shows "node_type (replaceTextNodes node path R) = lit ''text''"
    and "own_prop (replaceTextNodes node path R) (lit ''text'') =
      (case R (path_id path) of None \<Rightarrow> JUndef | Some t \<Rightarrow> JStr t)"
proof -
  show "node_type (replaceTextNodes node path R) = lit ''text''"
    using assms unfolding node_type_def by (simp add: replace_text_other [OF assms])
  show "own_prop (replaceTextNodes node path R) (lit ''text'') =
      (case R (path_id path) of None \<Rightarrow> JUndef | Some t \<Rightarrow> JStr t)"
    using text_record [OF assms] assms
    by (elim exE) (simp add: replace_text_eq own_prop_set_prop del: own_prop.simps)
qed

text \<open>What is collected after a replacement are the replacements, under the same ids.\<close>

lemma collect_replaced:
  "collectTextNodes (replaceTextNodes node path R) path =
     map (\<lambda>(i, t). (i, case R i of None \<Rightarrow> [] | Some u \<Rightarrow> u)) (collectTextNodes node path)"
proof (induction node path rule: collectTextNodes.induct)
  case (1 node path)
  show ?case
  proof (cases "node_type node = lit ''text''")
    case True
    then show ?thesis
      using replace_text_props [OF True, of path R]
      by (simp add: collectTextNodes.simps [of node] collectTextNodes.simps [of "replaceTextNodes node path R"]
          node_text_def split: option.splits)
  next
    case False
    let ?g = "\<lambda>(i, t). (i, case R i of None \<Rightarrow> [] | Some u \<Rightarrow> u)"
    note p = replace_branch_props [OF False, of path R]
    have "collectTextNodes (replaceTextNodes node path R) path =
        concat (map (\<lambda>(i, child). collectTextNodes child (path @ [i])) (enumerate 0 (replaced R path (node_content node))))"
      using False p(1,2) by (simp add: collectTextNodes.simps [of "replaceTextNodes node path R"])
    also have "\<dots> = concat (map (\<lambda>(i, child). collectTextNodes (replaceTextNodes child (path @ [i]) R) (path @ [i]))
        (enumerate 0 (node_content node)))"
      unfolding replaced_def enumerate_map_enumerate by (simp add: comp_def case_prod_beta')
    also have "\<dots> = concat (map (\<lambda>(i, child). map ?g (collectTextNodes child (path @ [i]))) (enumerate 0 (node_content node)))"
      using 1 [OF False _ refl] by (intro arg_cong [where f = concat] map_cong) auto
    also have "\<dots> = map ?g (collectTextNodes node path)"
      using False by (simp add: collectTextNodes.simps [of node] map_concat comp_def case_prod_beta')
    finally show ?thesis .
  qed
qed

lemma segment_ids_child:
  assumes "node_type node \<noteq> lit ''text''" and "(i, c) \<in> set (enumerate 0 (node_content node))"
  shows "set (collectTextNodes c (path @ [i])) \<subseteq> set (collectTextNodes node path)"
  using assms by (fastforce simp: collectTextNodes.simps [of node])

lemma enumerate_mem: "(i, c) \<in> set (enumerate n cs) \<Longrightarrow> c \<in> set cs"
  by (auto simp: enumerate_eq_zip dest: set_zip_rightD)

lemma map_enumerate_id:
  assumes "\<And>i c. (i, c) \<in> set (enumerate 0 cs) \<Longrightarrow> f i c = c"
  shows "map (\<lambda>(i, c). f i c) (enumerate 0 cs) = cs"
proof -
  have "map (\<lambda>(i, c). f i c) (enumerate 0 cs) = map snd (enumerate 0 cs)"
    using assms by (intro map_cong) auto
  then show ?thesis by simp
qed

text \<open>Replacing every text by itself changes nothing.\<close>

lemma replace_same:
  "validateNode E U node ids parent = Inr ids1 \<Longrightarrow> \<forall>(i, t)\<in>set (collectTextNodes node path). R i = Some t
   \<Longrightarrow> replaceTextNodes node path R = node"
proof (induction node path R arbitrary: ids ids1 parent rule: replaceTextNodes.induct)
  case (1 node path R)
  from 1(2) show ?case
  proof (cases rule: validateNode_cases)
    case plain
    obtain ps where ps: "node = JObj ps" using text_record [OF plain(1)] by blast
    have "own_prop node (lit ''text'') = JStr (node_text node)"
      using plain(3) by (auto simp: validate_text_def bind_r_ok node_text_def is_str_iff)
    moreover have "R (path_id path) = Some (node_text node)"
      using 1(3) plain(1) by (simp add: collectTextNodes.simps [of node])
    ultimately show ?thesis
      using plain(1) set_prop_same [of ps "lit ''text''" "JStr (node_text (JObj ps))"]
      by (simp add: replace_text_eq ps del: own_prop.simps)
  next
    case (leaf attrs)
    then show ?thesis by (simp add: replace_node_eq)
  next
    case (branch attrs ids2)
    show ?thesis
    proof (cases "node_content node = []")
      case True
      with branch(1) show ?thesis by (simp add: replace_node_eq)
    next
      case False
      have "replaceTextNodes c (path @ [i]) R = c" if ic: "(i, c) \<in> set (enumerate 0 (node_content node))" for i c
      proof -
        obtain u v where "validateNode E U c u (Some (node_type node)) = Inr v"
          using fold_r_all [OF branch(7) enumerate_mem [OF ic]] by blast
        moreover have "\<forall>(i, t)\<in>set (collectTextNodes c (path @ [i])). R i = Some t"
          using 1(3) segment_ids_child [OF branch(1) ic, of path] by blast
        ultimately show ?thesis by (rule 1(1) [OF branch(1) False ic refl])
      qed
      then have "replaced R path (node_content node) = node_content node"
        unfolding replaced_def by (rule map_enumerate_id)
      moreover obtain ps where "node = JObj ps"
        "replaceTextNodes node path R = set_prop (JObj ps) (lit ''content'') (JArr (replaced R path (node_content node)))"
        by (rule replace_branch [OF branch(1) False])
      moreover have content: "own_prop node (lit ''content'') = JArr (node_content node)"
        using False by (cases "arr_of (own_prop node (lit ''content''))") (auto simp: node_content_def)
      moreover have "JArr (node_content node) \<noteq> JUndef" by simp
      ultimately show ?thesis by (metis set_prop_same)
    qed
  qed
qed

text \<open>A document stays valid when its texts are replaced.\<close>

lemma entries_set_prop:
  "(k, x) \<in> set (obj_entries (set_prop v j y)) \<Longrightarrow> (k, x) \<in> set (obj_entries v) \<or> k = j"
proof (cases v)
  case (JObj ps)
  have "(k, x) \<in> set (AList.update j y ps) \<Longrightarrow> (k, x) \<in> set ps \<or> k = j"
    by (induction ps) (auto split: if_splits)
  moreover assume "(k, x) \<in> set (obj_entries (set_prop v j y))"
  ultimately show ?thesis using JObj by (simp add: set_prop_def)
qed (auto simp: set_prop_def)

lemma assertOnlyKeys_set_prop:
  assumes "assertOnlyKeys v allowed = Inr ()" and "j \<in> lit ` set allowed"
  shows "assertOnlyKeys (set_prop v j y) allowed = Inr ()"
proof -
  have "k \<in> lit ` set allowed \<or> nullish x" if "(k, x) \<in> set (obj_entries (set_prop v j y))" for k x
    using entries_set_prop [OF that] assms by (auto simp: assertOnlyKeys_def list_all_iff)
  then show ?thesis by (auto simp: assertOnlyKeys_def list_all_iff)
qed

lemma replaced_is_set_prop:
  "\<exists>j y. replaceTextNodes node path R = node \<or>
     (j \<in> {lit ''text'', lit ''content''} \<and> replaceTextNodes node path R = set_prop node j y)"
  by (cases "node_type node = lit ''text''") (auto simp: replace_text_eq replace_node_eq)

lemma is_record_set_prop: "is_record (set_prop v j y) = is_record v"
  by (cases v) (simp_all add: is_record_def set_prop_def)

lemma replaced_record: "is_record (replaceTextNodes node path R) = is_record node"
  using replaced_is_set_prop [of node path R] by (auto simp: is_record_set_prop)

lemma replaced_type: "own_prop (replaceTextNodes node path R) (lit ''type'') = own_prop node (lit ''type'')"
  by (cases "node_type node = lit ''text''") (simp_all add: replace_text_other replace_branch_other)

lemma check_type_replaced:
  assumes "check_type node parent = Inr ()"
  shows "check_type (replaceTextNodes node path R) parent = Inr ()"
proof -
  have keys: "assertOnlyKeys node [''type'', ''attrs'', ''content'', ''marks'', ''text''] = Inr ()"
    using assms by (auto simp: check_type_def bind_r_ok)
  have "assertOnlyKeys (replaceTextNodes node path R) [''type'', ''attrs'', ''content'', ''marks'', ''text''] = Inr ()"
    using replaced_is_set_prop [of node path R] assertOnlyKeys_set_prop [OF keys] keys by (elim exE disjE) auto
  with assms show ?thesis
    unfolding check_type_def node_type_def replaced_record replaced_type by (auto simp: bind_r_ok)
qed

lemma fold_r_all2:
  assumes "list_all2 (\<lambda>x y. \<forall>u v. f u x = Inr v \<longrightarrow> g u y = Inr v) xs ys" and "fold_r f s xs = Inr t"
  shows "fold_r g s ys = Inr t"
  using assms by (induction arbitrary: s rule: list_all2_induct) (auto simp: bind_r_ok)

lemma replaced_all2:
  assumes "\<And>i c. (i, c) \<in> set (enumerate 0 cs) \<Longrightarrow> P c (replaceTextNodes c (path @ [i]) R)"
  shows "list_all2 P cs (replaced R path cs)"
  unfolding list_all2_conv_all_nth replaced_def
proof (intro conjI allI impI)
  fix i assume i: "i < length cs"
  then have "(i, cs ! i) \<in> set (enumerate 0 cs)" by (simp add: in_set_enumerate_eq)
  from assms [OF this] i show "P (cs ! i) (map (\<lambda>(i, child). replaceTextNodes child (path @ [i]) R) (enumerate 0 cs) ! i)"
    by (simp add: nth_enumerate_eq)
qed simp

lemma check_content_replaced:
  assumes "check_content node = Inr ()" and "node_type node \<noteq> lit ''text''"
  shows "check_content (replaceTextNodes node path R) = Inr ()"
proof -
  note p = replace_branch_props [OF assms(2), of path R]
  have "own_prop (replaceTextNodes node path R) (lit ''content'') = JUndef
      \<or> arr_of (own_prop (replaceTextNodes node path R) (lit ''content'')) \<noteq> None"
  proof (cases "node_content node = []")
    case True
    then show ?thesis using assms by (auto simp: replace_node_eq check_content_def bind_r_ok)
  next
    case False
    obtain ps where "node = JObj ps"
      and r: "replaceTextNodes node path R = set_prop (JObj ps) (lit ''content'') (JArr (replaced R path (node_content node)))"
      by (rule replace_branch [OF assms(2) False])
    show ?thesis unfolding r own_prop_set_prop by simp
  qed
  moreover have "replaced R path (node_content node) = [] \<longleftrightarrow> node_content node = []"
    by (cases "node_content node") (simp_all add: replaced_def)
  moreover have "case replaced R path (node_content node) of [] \<Rightarrow> False
      | c # cs \<Rightarrow> is_record c \<and> own_prop c (lit ''type'') = JStr (lit ''paragraph'')"
    if "case node_content node of [] \<Rightarrow> False | c # cs \<Rightarrow> is_record c \<and> own_prop c (lit ''type'') = JStr (lit ''paragraph'')"
    using that by (cases "node_content node") (auto simp: replaced_def replaced_record replaced_type)
  ultimately show ?thesis
    using assms(1) unfolding check_content_def p by (auto simp: bind_r_ok)
qed

lemma validate_replaced:
  "validateNode E U node ids parent = Inr ids1 \<Longrightarrow> \<forall>(i, t)\<in>set (collectTextNodes node path). R i \<noteq> None
   \<Longrightarrow> validateNode E U (replaceTextNodes node path R) ids parent = Inr ids1"
proof (induction node path R arbitrary: ids ids1 parent rule: replaceTextNodes.induct)
  case (1 node path R)
  let ?r = "replaceTextNodes node path R"
  from 1(2) show ?case
  proof (cases rule: validateNode_cases)
    case plain
    obtain t where "R (path_id path) = Some t"
      using 1(3) plain(1) by (auto simp: collectTextNodes.simps [of node])
    then have "validate_text E U ?r = Inr ()"
      using plain(3) replace_text_props(2) [OF plain(1), of path R]
      by (simp add: validate_text_def bind_r_ok replace_text_other [OF plain(1)] split: if_splits)
    with plain check_type_replaced [OF plain(2)] replace_text_props(1) [OF plain(1)] show ?thesis
      by (simp add: validateNode.simps [of E U ?r])
  next
    case (leaf attrs)
    then show ?thesis using 1(2) by (simp add: replace_node_eq)
  next
    case (branch attrs ids2)
    show ?thesis
    proof (cases "node_content node = []")
      case True
      with branch(1) 1(2) show ?thesis by (simp add: replace_node_eq)
    next
      case False
      note p = replace_branch_props [OF branch(1), of path R]
      have "list_all2 (\<lambda>x y. \<forall>u v. validateNode E U x u (Some (node_type node)) = Inr v
          \<longrightarrow> validateNode E U y u (Some (node_type node)) = Inr v) (node_content node) (replaced R path (node_content node))"
      proof (rule replaced_all2, intro allI impI)
        fix i c u v
        assume ic: "(i, c) \<in> set (enumerate 0 (node_content node))"
          and v: "validateNode E U c u (Some (node_type node)) = Inr v"
        have "\<forall>(i, t)\<in>set (collectTextNodes c (path @ [i])). R i \<noteq> None"
          using 1(3) segment_ids_child [OF branch(1) ic, of path] by blast
        then show "validateNode E U (replaceTextNodes c (path @ [i]) R) u (Some (node_type node)) = Inr v"
          by (rule 1(1) [OF branch(1) False ic refl v])
      qed
      from fold_r_all2 [OF this branch(7)]
      have "fold_r (\<lambda>ids child. validateNode E U child ids (Some (node_type ?r))) ids2 (node_content ?r) = Inr ids1"
        unfolding p .
      moreover have "own_prop ?r (lit ''text'') = JUndef \<and> own_prop ?r (lit ''marks'') = JUndef"
        using 1(2) branch(1) by (simp add: replace_branch_other) (subst (asm) validateNode.simps, auto simp: bind_r_ok)
      moreover have "readAttrs ?r = Inr attrs"
        using branch(1,3) by (simp add: readAttrs_def replace_branch_other)
      ultimately show ?thesis
        using branch p(1) check_type_replaced [OF branch(2), of path R] check_content_replaced [OF branch(6,1), of path R]
        by (simp add: validateNode.simps [of E U ?r])
    qed
  qed
qed

definition segment_value :: "segment \<Rightarrow> jsval" where
  "segment_value seg = JObj [(lit ''id'', JStr (fst seg)), (lit ''text'', JStr (snd seg))]"

lemma item_pair_segment [simp]: "item_pair (segment_value seg) = seg"
  by (simp add: item_pair_def segment_value_def)

lemma check_segments_ids:
  assumes "check_segments items expected = Inr seen" and "length items = length expected"
  shows "map fst (map item_pair items) = map fst expected"
proof -
  have "map fst (map item_pair xs) = map fst ys"
    if "fold_r (\<lambda>seen (item, e).
       bind_r (check_r (is_record item \<and> is_str (own_prop item (lit ''id'')) \<and> is_str (own_prop item (lit ''text'')))
                 Segment_Invalid) (\<lambda>_.
       bind_r (check_r (str_of (own_prop item (lit ''id'')) \<notin> set seen \<and> str_of (own_prop item (lit ''id'')) = fst e)
                 Segment_Order) (\<lambda>_.
         Inr (str_of (own_prop item (lit ''id'')) # seen)))) s (zip xs ys) = Inr t" "length xs = length ys"
    for s t and xs :: "jsval list" and ys :: "segment list"
    using that(2,1) by (induction xs ys arbitrary: s rule: list_induct2) (auto simp: bind_r_ok item_pair_def)
  with assms show ?thesis unfolding check_segments_def by blast
qed

lemma check_segments_same:
  assumes "distinct (map fst segs)"
  shows "\<exists>seen. check_segments (map segment_value segs) segs = Inr seen"
proof -
  have "\<exists>t. fold_r (\<lambda>seen (item, e).
       bind_r (check_r (is_record item \<and> is_str (own_prop item (lit ''id'')) \<and> is_str (own_prop item (lit ''text'')))
                 Segment_Invalid) (\<lambda>_.
       bind_r (check_r (str_of (own_prop item (lit ''id'')) \<notin> set seen \<and> str_of (own_prop item (lit ''id'')) = fst e)
                 Segment_Order) (\<lambda>_.
         Inr (str_of (own_prop item (lit ''id'')) # seen)))) s (zip (map segment_value segs) segs) = Inr t"
    if "set s \<inter> fst ` set segs = {}" for s
    using that assms
  proof (induction segs arbitrary: s)
    case (Cons seg segs)
    then have "set (fst seg # s) \<inter> fst ` set segs = {}" by auto
    from Cons.IH [OF this] Cons.prems show ?case
      by (auto simp: segment_value_def is_record_def check_r_def)
  qed simp
  from this [of "[]"] show ?thesis unfolding check_segments_def by simp
qed

lemma validateDocument_node:
  "validateDocument E U doc = Inr ids \<longleftrightarrow> validateNode E U doc [] None = Inr ids
     \<and> node_type doc = lit ''doc'' \<and> arr_of (own_prop doc (lit ''content'')) \<noteq> None"
  by (auto simp: validateDocument_def bind_r_ok)

section \<open>Properties\<close>

text \<open>C13. Every document the check accepts can be projected, and the HTML cannot be used for an attack: it is well nested,
  built from the listed elements only, and in every attribute a value without quotes or angle
  brackets: links lead to web or mail addresses, images to parts of the mail by a proper content id,
  styles are allowed declarations, sizes are digits. The content ids are those of the images in reading
  order, each once.\<close>

theorem accepted_mail_projected_safely:
  assumes "validateDocument E U doc = Inr ids"
  shows "\<exists>pr. projectMailDocument E U doc = Inr pr \<and> safe_html (bodyHtml pr)
    \<and> contentIds pr = image_ids doc \<and> distinct (contentIds pr)"
proof -
  have v: "validateNode E U doc [] None = Inr ids" using assms by (simp add: validateDocument_node)
  obtain html where html: "renderHtml E doc = Inr html" "safe_html html"
    using renderHtml_safe [OF v] by blast
  have "ids = image_ids doc \<and> distinct ids" using validateNode_ids [OF v] by auto
  with html assms show ?thesis by (auto simp: projectMailDocument_def)
qed

definition sample_mail :: jsval where
  "sample_mail = JObj [(lit ''type'', JStr (lit ''doc'')), (lit ''content'', JArr
     [JObj [(lit ''type'', JStr (lit ''paragraph'')), (lit ''content'', JArr
        [JObj [(lit ''type'', JStr (lit ''text'')), (lit ''text'', JStr (lit ''<b>'')),
               (lit ''marks'', JArr [JObj [(lit ''type'', JStr (lit ''bold''))]])],
         JObj [(lit ''type'', JStr (lit ''image'')), (lit ''attrs'', JObj [(lit ''contentId'', JStr (lit ''a@b.c''))])]])]])]"

lemma sample_mail_valid: "validateDocument (sample_env JNull) (\<lambda>s. None) sample_mail = Inr [lit ''a@b.c'']"
  by code_simp

theorem accepted_mail_projected_safely_witness:
  "\<exists>pr. projectMailDocument (sample_env JNull) (\<lambda>s. None) sample_mail = Inr pr \<and> safe_html (bodyHtml pr)"
  using accepted_mail_projected_safely [OF sample_mail_valid] by blast

text \<open>The plain text of a mail is in normal form, whatever text it is made from: no carriage returns, no blanks before a
  line end, never two empty lines in a row, and no white space at its ends.\<close>

theorem plain_text_normal:
  "13 \<notin> set (normalizePlainText s)
   \<and> \<not> js_includes (normalizePlainText s) (lit '' '' @ [10]) \<and> \<not> js_includes (normalizePlainText s) [9, 10]
   \<and> \<not> js_includes (normalizePlainText s) [10, 10, 10]
   \<and> js_trim (normalizePlainText s) = normalizePlainText s"
proof -
  let ?u = "unify_newlines s"
  have "13 \<notin> set (normalizePlainText s)"
    using set_js_trim limit_subset strip_subset unify_no_cr unfolding normalizePlainText_def by blast
  moreover have "\<not> js_includes (normalizePlainText s) [a, 10]" if "blank a" for a
  proof
    assume "js_includes (normalizePlainText s) [a, 10]"
    then have "js_includes (strip_line_ends ?u) [a, 10]"
      using that unfolding normalizePlainText_def by (auto simp: blank_def dest!: trim_includes intro!: limit_two)
    with strip_no_blank [OF that] show False by blast
  qed
  moreover have "\<not> js_includes (normalizePlainText s) [10, 10, 10]"
    unfolding normalizePlainText_def using trim_includes limit_three by blast
  ultimately show ?thesis by (simp add: normalizePlainText_def blank_def lit_def)
qed

text \<open>C14. Extracting the texts of a mail and applying them unchanged gives the mail back; every text has an id
  of its own.\<close>

theorem segments_apply_unchanged:
  assumes "extractTranslationSegments E U doc = Inr (copy, segs)"
  shows "copy = doc \<and> distinct (map fst segs)
    \<and> applyTranslatedSegments E U doc (JArr (map segment_value segs)) = Inr doc"
proof -
  obtain ids where ids: "validateDocument E U doc = Inr ids" and c: "copy = doc" "segs = collectTextNodes doc []"
    using assms by (cases "validateDocument E U doc") (simp_all add: extractTranslationSegments_def, metis)
  have d: "distinct (map fst segs)" unfolding c by (rule distinct_segment_ids)
  obtain seen where seen: "check_segments (map segment_value segs) segs = Inr seen"
    using check_segments_same [OF d] by blast
  have "map_of (rev segs) i = Some t" if "(i, t) \<in> set segs" for i t
    using that d by (intro map_of_is_SomeI) (auto simp: rev_map [symmetric])
  then have "replaceTextNodes doc [] (map_of (rev segs)) = doc"
    using ids c by (intro replace_same [of E U doc "[]" None ids]) (auto simp: validateDocument_node)
  moreover have "map item_pair (map segment_value segs) = segs" by (simp add: comp_def)
  ultimately show ?thesis
    using ids c d seen by (simp add: applyTranslatedSegments_def Let_def)
qed

theorem segments_apply_unchanged_witness:
  "applyTranslatedSegments (sample_env JNull) (\<lambda>s. None) sample_mail
     (JArr (map segment_value (collectTextNodes sample_mail []))) = Inr sample_mail"
proof -
  have "extractTranslationSegments (sample_env JNull) (\<lambda>s. None) sample_mail
      = Inr (sample_mail, collectTextNodes sample_mail [])"
    by (simp add: extractTranslationSegments_def sample_mail_valid)
  from segments_apply_unchanged [OF this] show ?thesis by blast
qed

lemma applied_facts:
  assumes "applyTranslatedSegments E U doc items = Inr doc1"
  shows "\<exists>xs. items = JArr xs \<and> map fst (map item_pair xs) = map fst (collectTextNodes doc [])
    \<and> extractTranslationSegments E U doc1 = Inr (doc1, map item_pair xs)
    \<and> validateDocument E U doc1 = validateDocument E U doc"
proof -
  obtain ids xs seen where ids: "validateDocument E U doc = Inr ids" and xs: "items = JArr xs"
    and len: "length xs = length (collectTextNodes doc [])" and seen: "check_segments xs (collectTextNodes doc []) = Inr seen"
    and doc1: "doc1 = replaceTextNodes doc [] (map_of (rev (map item_pair xs)))"
    using assms by (auto simp: applyTranslatedSegments_def bind_r_ok Let_def split: option.splits)
  define segs where "segs = map item_pair xs"
  define R where "R = map_of (rev segs)"
  have fst_eq: "map fst segs = map fst (collectTextNodes doc [])"
    unfolding segs_def by (rule check_segments_ids [OF seen len])
  then have d: "distinct (map fst segs)" by (simp add: distinct_segment_ids)
  have R: "R i = Some t" if "(i, t) \<in> set segs" for i t
    using that d unfolding R_def by (intro map_of_is_SomeI) (auto simp: rev_map [symmetric])
  have "collectTextNodes doc1 [] = map (\<lambda>i. (i, case R i of None \<Rightarrow> [] | Some u \<Rightarrow> u)) (map fst (collectTextNodes doc []))"
    unfolding doc1 segs_def [symmetric] R_def [symmetric] collect_replaced by (simp add: comp_def case_prod_beta')
  also have "\<dots> = map (\<lambda>(i, t). (i, case R i of None \<Rightarrow> [] | Some u \<Rightarrow> u)) segs"
    unfolding fst_eq [symmetric] by (simp add: comp_def case_prod_beta')
  also have "\<dots> = map id segs" using R by (intro map_cong) auto
  finally have collected: "collectTextNodes doc1 [] = segs" by simp
  have v: "validateNode E U doc [] None = Inr ids" "node_type doc = lit ''doc''" using ids by (simp_all add: validateDocument_node)
  have "R i \<noteq> None" if "(i, t) \<in> set (collectTextNodes doc [])" for i t
  proof -
    have "i \<in> fst ` set (collectTextNodes doc [])" using that by force
    then have "i \<in> set (map fst segs)" unfolding fst_eq by simp
    then obtain u where "(i, u) \<in> set segs" by auto
    from R [OF this] show ?thesis by simp
  qed
  then have "\<forall>(i, t)\<in>set (collectTextNodes doc []). R i \<noteq> None" by blast
  from validate_replaced [OF v(1) this] have v1: "validateNode E U doc1 [] None = Inr ids"
    unfolding doc1 R_def segs_def .
  have "node_type doc \<noteq> lit ''text''" using v(2) by simp
  then have t: "node_type doc1 = lit ''doc''" using v(2) replace_branch_props(1) unfolding doc1 by simp
  have "arr_of (own_prop doc1 (lit ''content'')) \<noteq> None"
  proof (cases "node_content doc = []")
    case True
    then show ?thesis using ids v(2) unfolding doc1 by (auto simp: replace_node_eq validateDocument_node)
  next
    case False
    obtain ps where "doc1 = set_prop (JObj ps) (lit ''content'')
        (JArr (replaced (map_of (rev (map item_pair xs))) [] (node_content doc)))"
      unfolding doc1 by (rule replace_branch [OF \<open>node_type doc \<noteq> lit ''text''\<close> False])
    then show ?thesis by (simp only: own_prop_set_prop) simp
  qed
  with v1 t have "validateDocument E U doc1 = Inr ids" by (simp add: validateDocument_node)
  with xs fst_eq collected ids show ?thesis by (simp add: extractTranslationSegments_def segs_def)
qed

text \<open>Applied translations change the texts and nothing else: the items must be the segments of the mail in order, the
  new mail is valid with the same images, and extracting from it gives exactly the items that were
  applied.\<close>

theorem applied_segments_extracted:
  assumes "applyTranslatedSegments E U doc items = Inr doc1"
  shows "\<exists>xs. items = JArr xs \<and> map fst (map item_pair xs) = map fst (collectTextNodes doc [])
    \<and> extractTranslationSegments E U doc1 = Inr (doc1, map item_pair xs)
    \<and> validateDocument E U doc1 = validateDocument E U doc"
  using applied_facts [OF assms] .

theorem applied_segments_extracted_witness:
  "\<exists>doc1. applyTranslatedSegments (sample_env JNull) (\<lambda>s. None) sample_mail
       (JArr [segment_value (lit ''0.0'', lit ''hi'')]) = Inr doc1
     \<and> extractTranslationSegments (sample_env JNull) (\<lambda>s. None) doc1 = Inr (doc1, [(lit ''0.0'', lit ''hi'')])"
proof -
  have "is_ok (applyTranslatedSegments (sample_env JNull) (\<lambda>s. None) sample_mail
       (JArr [segment_value (lit ''0.0'', lit ''hi'')]))" by code_simp
  then obtain doc1 where a: "applyTranslatedSegments (sample_env JNull) (\<lambda>s. None) sample_mail
       (JArr [segment_value (lit ''0.0'', lit ''hi'')]) = Inr doc1" by (auto simp: is_ok_iff)
  from applied_segments_extracted [OF a] a show ?thesis by auto
qed

end
