(* ===== verification/Business_Search.thy ===== *)
theory Business_Search
  imports Js_Prelude "HOL-Library.Product_Lexorder" "HOL-Library.Sublist"
begin

text \<open>
  The search over the summaries a mobile client has loaded (\<open>frontend/mobile-app/business-search.js\<close>) and the list of
  sources that failed to load. The Unicode tables are a parameter: \<open>N s\<close> is
  \<open>s.normalize("NFKC").toLocaleLowerCase("ko-KR")\<close>; nothing is assumed about it.
\<close>

section \<open>Texts\<close>

fun collapse_ws :: "jstring \<Rightarrow> jstring" where
  \<comment> \<open>\<open>replace(/\s+/gu, " ")\<close>\<close>
  "collapse_ws [] = []"
| "collapse_ws [c] = [if js_ws c then 32 else c]"
| "collapse_ws (c # d # s) =
     (if js_ws c then (if js_ws d then collapse_ws (d # s) else 32 # collapse_ws (d # s))
      else c # collapse_ws (d # s))"

definition searchable :: "jsval \<Rightarrow> bool" where
  \<comment> \<open>a string or a number\<close>
  "searchable v = (case v of JStr s \<Rightarrow> True | JNum q \<Rightarrow> True | JNaN \<Rightarrow> True | JInf b \<Rightarrow> True | _ \<Rightarrow> False)"

definition normalizeBusinessSearchText :: "js_env \<Rightarrow> (jstring \<Rightarrow> jstring) \<Rightarrow> jsval \<Rightarrow> jstring" where
  "normalizeBusinessSearchText E N v =
     (if \<not> searchable v then [] else js_trim (collapse_ws (N (js_string E v))))"

definition displayText :: "js_env \<Rightarrow> jsval \<Rightarrow> jstring" where
  "displayText E v = (if \<not> searchable v then [] else js_trim (collapse_ws (js_string E v)))"

section \<open>Records\<close>

datatype category = Mail | Approval | Messenger | Schedule | Directory | Document_File

fun categoryOrder :: "category \<Rightarrow> nat" where
  "categoryOrder Mail = 0"
| "categoryOrder Approval = 1"
| "categoryOrder Messenger = 2"
| "categoryOrder Schedule = 3"
| "categoryOrder Directory = 4"
| "categoryOrder Document_File = 5"

lemma categoryOrder_inj: "categoryOrder a = categoryOrder b \<longleftrightarrow> a = b"
  by (cases a; cases b) simp_all

instantiation category :: linorder
begin

definition less_eq_category :: "category \<Rightarrow> category \<Rightarrow> bool" where
  "less_eq_category a b \<longleftrightarrow> categoryOrder a \<le> categoryOrder b"

definition less_category :: "category \<Rightarrow> category \<Rightarrow> bool" where
  "less_category a b \<longleftrightarrow> categoryOrder a < categoryOrder b"

instance
  by intro_classes (auto simp: less_eq_category_def less_category_def categoryOrder_inj)

end

record search_result =
  sr_category :: category
  sr_id :: jstring
  sr_title :: jstring
  sr_summary :: jstring
  sr_screen :: jstring

record search_record =
  rec_result :: search_result
  rec_index :: jstring

definition filled_texts :: "jstring list \<Rightarrow> jstring list" where
  "filled_texts xs = filter (\<lambda>x. x \<noteq> []) xs"

definition safeRecord ::
  "js_env \<Rightarrow> (jstring \<Rightarrow> jstring) \<Rightarrow> category \<Rightarrow> jsval \<Rightarrow> jsval \<Rightarrow> jsval list \<Rightarrow> string \<Rightarrow> jsval list \<Rightarrow> search_record option" where
  "safeRecord E N category idValue titleValue summaryValues targetScreen indexValues =
     (let i = displayText E idValue; t = displayText E titleValue
      in if i = [] \<or> t = [] then None
         else Some \<lparr>rec_result = \<lparr>sr_category = category, sr_id = i, sr_title = t,
                      sr_summary = js_join [32, 183, 32] (filled_texts (map (displayText E) summaryValues)),
                      sr_screen = lit targetScreen\<rparr>,
                    rec_index = normalizeBusinessSearchText E N
                      (JStr (js_join (lit '' '') (filled_texts (t # map (displayText E) indexValues))))\<rparr>)"

definition sourceItems :: "jsval \<Rightarrow> jsval list" where
  "sourceItems v = (case arr_of v of None \<Rightarrow> [] | Some xs \<Rightarrow> xs)"

definition is_object :: "jsval \<Rightarrow> bool" where
  "is_object v = (case v of JObj ps \<Rightarrow> True | JArr xs \<Rightarrow> True | _ \<Rightarrow> False)"

definition field :: "jsval \<Rightarrow> string \<Rightarrow> jsval" where
  "field item k = own_prop item (lit k)"

definition no_recent_message :: jstring where
  "no_recent_message = [52572, 44540, 32, 47700, 49884, 51648, 32, 50630, 51020]"

section \<open>The records of each source\<close>

definition mail_record :: "js_env \<Rightarrow> (jstring \<Rightarrow> jstring) \<Rightarrow> jsval \<Rightarrow> search_record option" where
  "mail_record E N item =
     (let p = displayText E (field item ''preview'');
          preview = JStr (if p \<noteq> [] then p else displayText E (field item ''snippet''))
      in safeRecord E N Mail (field item ''mailId'') (field item ''subject'') [field item ''senderEmail'', preview] ''mail''
           [field item ''senderEmail'', preview])"

definition approval_record :: "js_env \<Rightarrow> (jstring \<Rightarrow> jstring) \<Rightarrow> jsval \<Rightarrow> search_record option" where
  "approval_record E N item =
     safeRecord E N Approval (field item ''id'') (field item ''title'') [field item ''creatorUserName'', field item ''status'']
       ''approval'' [field item ''creatorUserName'', field item ''status'']"

definition room_record :: "js_env \<Rightarrow> (jstring \<Rightarrow> jstring) \<Rightarrow> jsval \<Rightarrow> search_record option" where
  "room_record E N item =
     (let lastMessage = displayText E (field item ''lastMessage'')
      in safeRecord E N Messenger (field item ''roomId'') (field item ''roomName'')
           [JStr (if lastMessage \<noteq> [] then lastMessage else no_recent_message)] ''chat'' [JStr lastMessage])"

definition schedule_record :: "js_env \<Rightarrow> (jstring \<Rightarrow> jstring) \<Rightarrow> jsval \<Rightarrow> search_record option" where
  "schedule_record E N item =
     safeRecord E N Schedule (field item ''id'') (field item ''title'')
       [field item ''starts_at'', field item ''location'', field item ''description''] ''calendar''
       [field item ''starts_at'', field item ''ends_at'', field item ''location'', field item ''description'']"

definition directory_record :: "js_env \<Rightarrow> (jstring \<Rightarrow> jstring) \<Rightarrow> jsval \<Rightarrow> search_record option" where
  "directory_record E N item =
     safeRecord E N Directory (field item ''id'') (field item ''name'')
       [field item ''department_name'', field item ''role_name'', field item ''email''] ''directory''
       [field item ''department_name'', field item ''role_name'', field item ''email'']"

definition file_record :: "js_env \<Rightarrow> (jstring \<Rightarrow> jstring) \<Rightarrow> jsval \<Rightarrow> search_record option" where
  "file_record E N item =
     safeRecord E N Document_File (field item ''id'') (field item ''file_name'')
       [field item ''content_type'', field item ''status''] ''files'' [field item ''content_type'', field item ''status'']"

section \<open>The search\<close>

definition source_records ::
  "(jsval \<Rightarrow> search_record option) \<Rightarrow> jsval \<Rightarrow> search_record list" where
  \<comment> \<open>the loop over one source: items that are no objects are skipped, and items without id or title\<close>
  "source_records f v = List.map_filter f (filter is_object (sourceItems v))"

definition all_records :: "js_env \<Rightarrow> (jstring \<Rightarrow> jstring) \<Rightarrow> jsval \<Rightarrow> search_record list" where
  "all_records E N sources =
     source_records (mail_record E N) (field sources ''mailItems'')
     @ source_records (approval_record E N) (field sources ''documents'')
     @ source_records (room_record E N) (field sources ''rooms'')
     @ source_records (schedule_record E N) (field sources ''schedules'')
     @ source_records (directory_record E N) (field sources ''directoryUsers'')
     @ source_records (file_record E N) (field sources ''files'')"

definition query_tokens :: "js_env \<Rightarrow> (jstring \<Rightarrow> jstring) \<Rightarrow> jsval \<Rightarrow> jstring list" where
  "query_tokens E N query = filled_texts (js_split 32 (normalizeBusinessSearchText E N query))"

definition sort_position :: "js_env \<Rightarrow> (jstring \<Rightarrow> jstring) \<Rightarrow> search_result \<Rightarrow> category \<times> jstring \<times> jstring" where
  "sort_position E N r = (sr_category r, normalizeBusinessSearchText E N (JStr (sr_title r)), sr_id r)"


definition searchLoadedBusinessSummaries ::
  "js_env \<Rightarrow> (jstring \<Rightarrow> jstring) \<Rightarrow> jsval \<Rightarrow> jsval \<Rightarrow> search_result list option" where
  \<comment> \<open>\<open>None\<close>: reading a source of \<open>null\<close> raises; \<open>undefined\<close> is replaced by no sources\<close>
  "searchLoadedBusinessSummaries E N query sources =
     (let tokens = query_tokens E N query
      in if tokens = [] then Some []
         else if sources = JNull then None
         else Some (take 50 (sort_key (sort_position E N)
                (map rec_result (filter (\<lambda>r. \<forall>t\<in>set tokens. js_includes (rec_index r) t) (all_records E N sources))))))"

section \<open>Warnings\<close>

definition businessSearchSourceOrder :: "jstring list" where
  "businessSearchSourceOrder = map lit [''mail'', ''approval'', ''messenger'', ''schedule'', ''directory'', ''file'']"

definition known_warnings :: "jsval \<Rightarrow> jstring list" where
  "known_warnings v = map str_of (filter (\<lambda>x. is_str x \<and> str_of x \<in> set businessSearchSourceOrder) (sourceItems v))"

definition updateBusinessSearchWarnings :: "jsval \<Rightarrow> jsval \<Rightarrow> bool \<Rightarrow> jstring list" where
  "updateBusinessSearchWarnings currentWarnings source failed =
     (if \<not> (is_str source \<and> str_of source \<in> set businessSearchSourceOrder) then known_warnings currentWarnings
      else (let next = (if failed then insert (str_of source) (set (known_warnings currentWarnings))
                        else set (known_warnings currentWarnings) - {str_of source})
            in filter (\<lambda>x. x \<in> next) businessSearchSourceOrder))"

section \<open>Properties\<close>


lemma search_mem:
  assumes "searchLoadedBusinessSummaries E N query sources = Some rs" and "r \<in> set rs"
  shows "\<exists>x\<in>set (all_records E N sources). r = rec_result x
      \<and> (\<forall>t\<in>set (query_tokens E N query). js_includes (rec_index x) t)"
  using assms by (fastforce simp: searchLoadedBusinessSummaries_def Let_def split: if_splits dest: in_set_takeD)










text \<open>The list of failed sources names known sources only, in their fixed order and each once; after an update the
  updated source is listed exactly when it failed, and every other source as before.\<close>

theorem search_warnings:
  assumes "is_str source" and "str_of source \<in> set businessSearchSourceOrder"
  shows "subseq (updateBusinessSearchWarnings current source failed) businessSearchSourceOrder
    \<and> (str_of source \<in> set (updateBusinessSearchWarnings current source failed) \<longleftrightarrow> failed)
    \<and> (\<forall>x. x \<noteq> str_of source \<longrightarrow>
         (x \<in> set (updateBusinessSearchWarnings current source failed) \<longleftrightarrow> x \<in> set (known_warnings current)))
    \<and> distinct (updateBusinessSearchWarnings current source failed)"
proof -
  have "set (known_warnings current) \<subseteq> set businessSearchSourceOrder" by (auto simp: known_warnings_def)
  moreover have "distinct businessSearchSourceOrder" by (simp add: businessSearchSourceOrder_def)
  ultimately show ?thesis
    using assms by (auto simp: updateBusinessSearchWarnings_def Let_def subseq_filter_left)
qed

theorem search_warnings_witness:
  "lit ''mail'' \<in> set (updateBusinessSearchWarnings JNull (JStr (lit ''mail'')) True)"
proof -
  have "is_str (JStr (lit ''mail''))" "str_of (JStr (lit ''mail'')) \<in> set businessSearchSourceOrder"
    by (simp_all add: businessSearchSourceOrder_def)
  from search_warnings [OF this, of JNull True] show ?thesis by simp
qed

end
