(* ===== verification/Approval.thy ===== *)
theory Approval
  imports Interfaces "HOL-Library.Sublist"
begin

text \<open>
  Approvals in the web client: sorting documents into the menus, drafts and attachments, approval lines, actions and
  their opinions, delegation (\<open>frontend/user-web/src/approvalShell.ts\<close>, \<open>approvalCompose.ts\<close>, \<open>approvalAction.ts\<close>,
  \<open>approvalDelegation.ts\<close>, \<open>approvalDetail.ts\<close>, \<open>approvalPreferences.ts\<close>), and the order of the user's
  calendars (\<open>calendarSettings.ts\<close>), which moves entries by the same code.
\<close>

section \<open>Documents\<close>

record approval_line =
  ln_sequence :: int
  ln_approverUserId :: jstring
  ln_approverUserName :: jstring
  ln_decidedByUserId :: "jstring option"
  ln_status :: jstring

record approval_document =
  ad_id :: jstring
  ad_title :: jstring
  ad_status :: jstring
  ad_creatorUserId :: jstring
  ad_creatorUserName :: jstring
  ad_currentLineIndex :: "int option"
  ad_lines :: "approval_line list"
  ad_canCurrentUserAct :: bool
  ad_currentUserAudienceType :: "jstring option"
  ad_currentUserReadAt :: "jstring option"
  ad_currentUserDepartmentMember :: bool
  ad_deletedForCurrentUser :: bool
  ad_permanentlyDeletedForCurrentUser :: bool

definition set_text :: "jstring option \<Rightarrow> bool" where
  \<comment> \<open>an optional string counts as set when it is there and not empty\<close>
  "set_text x \<longleftrightarrow> x \<noteq> None \<and> x \<noteq> Some []"

definition current_line :: "approval_document \<Rightarrow> approval_line option" where
  "current_line doc =
     (case ad_currentLineIndex doc of None \<Rightarrow> None
      | Some i \<Rightarrow> find (\<lambda>l. ln_sequence l = i) (ad_lines doc))"

definition isPending :: "jstring \<Rightarrow> approval_document \<Rightarrow> bool" where
  "isPending actor doc \<longleftrightarrow> ad_status doc = lit ''submitted''
     \<and> (ad_canCurrentUserAct doc \<or> map_option ln_approverUserId (current_line doc) = Some actor)
     \<and> map_option ln_status (current_line doc) = Some (lit ''pending'')"

definition isScheduled :: "jstring \<Rightarrow> approval_document \<Rightarrow> bool" where
  "isScheduled actor doc \<longleftrightarrow> ad_status doc = lit ''submitted'' \<and>
     (case ad_currentLineIndex doc of None \<Rightarrow> False
      | Some i \<Rightarrow> list_ex (\<lambda>l. (ln_approverUserId l = actor \<or> ln_decidedByUserId l = Some actor)
           \<and> ln_status l = lit ''pending'' \<and> i < ln_sequence l) (ad_lines doc))"

definition isReceived :: "jstring \<Rightarrow> approval_document \<Rightarrow> bool" where
  "isReceived actor doc \<longleftrightarrow> ad_creatorUserId doc \<noteq> actor
     \<and> list_ex (\<lambda>l. ln_approverUserId l = actor \<and> (ln_status l = lit ''approved'' \<or> ln_status l = lit ''rejected''))
         (ad_lines doc)"

record document_groups =
  g_pending :: "approval_document list"
  g_received :: "approval_document list"
  g_reference :: "approval_document list"
  g_scheduled :: "approval_document list"
  g_personal :: "approval_document list"
  g_department :: "approval_document list"
  g_trash :: "approval_document list"

definition empty_groups :: document_groups where
  "empty_groups = \<lparr>g_pending = [], g_received = [], g_reference = [], g_scheduled = [], g_personal = [],
     g_department = [], g_trash = []\<rparr>"

definition push_if :: "bool \<Rightarrow> approval_document \<Rightarrow> approval_document list \<Rightarrow> approval_document list" where
  "push_if b doc docs = (if b then docs @ [doc] else docs)"

definition classify_step :: "jstring \<Rightarrow> document_groups \<Rightarrow> approval_document \<Rightarrow> document_groups" where
  \<comment> \<open>the body of the loop\<close>
  "classify_step actor g doc =
     (if ad_permanentlyDeletedForCurrentUser doc then g
      else if ad_deletedForCurrentUser doc then g\<lparr>g_trash := g_trash g @ [doc]\<rparr>
      else g\<lparr>g_pending := push_if (isPending actor doc) doc (g_pending g),
             g_received := push_if (isReceived actor doc) doc (g_received g),
             g_reference := push_if (set_text (ad_currentUserAudienceType doc) \<and> \<not> set_text (ad_currentUserReadAt doc)) doc (g_reference g),
             g_scheduled := push_if (isScheduled actor doc) doc (g_scheduled g),
             g_personal := push_if (ad_creatorUserId doc = actor) doc (g_personal g),
             g_department := push_if (ad_currentUserDepartmentMember doc) doc (g_department g)\<rparr>)"

definition classifyApprovalDocuments :: "approval_document list \<Rightarrow> jstring \<Rightarrow> document_groups" where
  "classifyApprovalDocuments documents actor =
     (if actor = [] then empty_groups else foldl (classify_step actor) empty_groups documents)"

datatype menu = Trash | Pending | Reference | Received | Scheduled | Personal | Department

fun group_of :: "menu \<Rightarrow> document_groups \<Rightarrow> approval_document list" where
  "group_of Trash g = g_trash g"
| "group_of Pending g = g_pending g"
| "group_of Reference g = g_reference g"
| "group_of Received g = g_received g"
| "group_of Scheduled g = g_scheduled g"
| "group_of Personal g = g_personal g"
| "group_of Department g = g_department g"

definition menu_order :: "menu list" where
  "menu_order = [Trash, Pending, Reference, Received, Scheduled, Personal, Department]"

definition findApprovalDocumentMenu :: "approval_document \<Rightarrow> jstring \<Rightarrow> menu option" where
  "findApprovalDocumentMenu doc actor =
     (let groups = classifyApprovalDocuments [doc] actor in find (\<lambda>k. group_of k groups \<noteq> []) menu_order)"

datatype post_action = Create | Edit | Submit | Withdraw | Redraft | Approve | Reject

definition resolveApprovalPostActionTarget ::
  "post_action \<Rightarrow> jstring \<Rightarrow> approval_document option \<Rightarrow> jstring \<Rightarrow> menu option \<times> jstring" where
  "resolveApprovalPostActionTarget action documentId postActionDocument actor =
     (if action \<in> {Create, Edit, Submit, Withdraw, Redraft} then (Some Personal, documentId)
      else (case postActionDocument of None \<Rightarrow> None | Some d \<Rightarrow> findApprovalDocumentMenu d actor, documentId))"

section \<open>The list and its selection\<close>

definition filterApprovalDocuments :: "js_env \<Rightarrow> approval_document list \<Rightarrow> jstring \<Rightarrow> jstring \<Rightarrow> approval_document list" where
  "filterApprovalDocuments E documents st search =
     (let keyword = js_lower E (js_trim search)
      in filter (\<lambda>doc.
           if st \<noteq> lit ''all'' \<and> ad_status doc \<noteq> st then False
           else (let approver = (case current_line doc of None \<Rightarrow> [] | Some l \<Rightarrow> ln_approverUserName l)
                 in keyword = [] \<or> js_includes (js_lower E (ad_title doc @ lit '' '' @ ad_creatorUserName doc @ lit '' '' @ approver)) keyword))
         documents)"

definition resolveApprovalSelection :: "jstring \<Rightarrow> approval_document list \<Rightarrow> jstring" where
  "resolveApprovalSelection selectedId documents =
     (if selectedId \<noteq> [] \<and> list_ex (\<lambda>d. ad_id d = selectedId) documents then selectedId
      else (case documents of [] \<Rightarrow> [] | d # ds \<Rightarrow> ad_id d))"

section \<open>Drafts and attachments\<close>

definition APPROVAL_ATTACHMENT_MAX_COUNT :: int where "APPROVAL_ATTACHMENT_MAX_COUNT = 10"
definition APPROVAL_ATTACHMENT_MAX_FILE_BYTES :: int where "APPROVAL_ATTACHMENT_MAX_FILE_BYTES = 10 * 1024 * 1024"
definition APPROVAL_ATTACHMENT_MAX_TOTAL_BYTES :: int where "APPROVAL_ATTACHMENT_MAX_TOTAL_BYTES = 25 * 1024 * 1024"

datatype draft_error = Title_Missing | Title_Too_Long | Content_Missing | Content_Too_Long | Too_Many_Files | Too_Many_Bytes

record draft_summary =
  df_title :: jstring
  df_content :: jstring
  df_attachmentCount :: int
  df_attachmentBytes :: int

definition validateApprovalDraft :: "draft_summary \<Rightarrow> draft_error list" where
  "validateApprovalDraft d =
     (if js_trim (df_title d) = [] then [Title_Missing] else if 200 < length (js_trim (df_title d)) then [Title_Too_Long] else [])
     @ (if js_trim (df_content d) = [] then [Content_Missing]
        else if 20000 < length (js_trim (df_content d)) then [Content_Too_Long] else [])
     @ (if APPROVAL_ATTACHMENT_MAX_COUNT < df_attachmentCount d then [Too_Many_Files] else [])
     @ (if APPROVAL_ATTACHMENT_MAX_TOTAL_BYTES < df_attachmentBytes d then [Too_Many_Bytes] else [])"

datatype file_check = Files_Ok | File_Empty | File_Too_Large | Files_Too_Many | Files_Too_Large

definition validateApprovalFiles :: "int list \<Rightarrow> int \<Rightarrow> int \<Rightarrow> file_check" where
  \<comment> \<open>of the files only their sizes matter\<close>
  "validateApprovalFiles sizes currentCount currentBytes =
     (if list_ex (\<lambda>s. s \<le> 0) sizes then File_Empty
      else if list_ex (\<lambda>s. APPROVAL_ATTACHMENT_MAX_FILE_BYTES < s) sizes then File_Too_Large
      else if APPROVAL_ATTACHMENT_MAX_COUNT < currentCount + int (length sizes) then Files_Too_Many
      else if APPROVAL_ATTACHMENT_MAX_TOTAL_BYTES < currentBytes + sum_list sizes then Files_Too_Large
      else Files_Ok)"

section \<open>The order of approvers and of calendars\<close>

definition moveApprovalApprover :: "jstring list \<Rightarrow> jstring \<Rightarrow> int \<Rightarrow> jstring list" where
  "moveApprovalApprover ids userId direction =
     (let index = (case index_by id userId ids of None \<Rightarrow> -1 | Some i \<Rightarrow> int i); nextIndex = index + direction
      in if index < 0 \<or> nextIndex < 0 \<or> int (length ids) \<le> nextIndex then ids
         else swap_at (nat index) (nat nextIndex) ids)"

record calendar_entry =
  cal_id :: jstring
  cal_name :: jstring

definition moveOwnedCalendar :: "calendar_entry list \<Rightarrow> jstring \<Rightarrow> int \<Rightarrow> calendar_entry list" where
  "moveOwnedCalendar items calendarId direction =
     (let index = (case index_by cal_id calendarId items of None \<Rightarrow> -1 | Some i \<Rightarrow> int i); target = index + direction
      in if index < 0 \<or> target < 0 \<or> int (length items) \<le> target then items
         else swap_at (nat index) (nat target) items)"

definition initialSelectedCalendarIds :: "calendar_entry list \<Rightarrow> (jstring \<times> calendar_entry) list \<Rightarrow> jstring list" where
  \<comment> \<open>the subscriptions with their status\<close>
  "initialSelectedCalendarIds owned subscriptions =
     map cal_id owned @ map (\<lambda>s. cal_id (snd s)) (filter (\<lambda>s. fst s = lit ''active'') subscriptions)"

definition canEditSchedule :: "jstring \<Rightarrow> bool \<Rightarrow> jstring \<Rightarrow> bool" where
  "canEditSchedule scheduleOwner canEdit ownerUserId \<longleftrightarrow> canEdit \<and> scheduleOwner = ownerUserId"

interpretation approver_order: neighbour_mover id moveApprovalApprover
  by unfold_locales (auto simp: moveApprovalApprover_def Let_def split: option.splits)

interpretation calendar_order: neighbour_mover cal_id moveOwnedCalendar
  by unfold_locales (auto simp: moveOwnedCalendar_def Let_def split: option.splits)

section \<open>Actions and delegation\<close>

datatype approval_action = A_Submit | A_Approve | A_Reject | A_Withdraw | A_Redraft

datatype tone = Primary | Success | Danger | Warning

text \<open>Of the configuration of an action, its tone and whether it needs an opinion; the texts shown are left out.\<close>

fun action_config :: "approval_action \<Rightarrow> tone \<times> bool" where
  "action_config A_Submit = (Primary, False)"
| "action_config A_Approve = (Success, True)"
| "action_config A_Reject = (Danger, True)"
| "action_config A_Withdraw = (Warning, False)"
| "action_config A_Redraft = (Primary, False)"

record action_target =
  at_documentId :: jstring
  at_title :: jstring
  at_status :: jstring
  at_currentApproverName :: jstring
  at_currentLineIndex :: "int option"
  at_lineCount :: nat

definition buildApprovalActionTarget :: "approval_document \<Rightarrow> action_target" where
  "buildApprovalActionTarget doc =
     \<lparr>at_documentId = ad_id doc, at_title = ad_title doc, at_status = ad_status doc,
      at_currentApproverName = (case current_line doc of None \<Rightarrow> lit ''-'' | Some l \<Rightarrow> ln_approverUserName l),
      at_currentLineIndex = ad_currentLineIndex doc, at_lineCount = length (ad_lines doc)\<rparr>"

datatype opinion_check = Opinion_Ok | Approve_Opinion_Missing | Reject_Opinion_Missing | Opinion_Too_Long

definition validateApprovalActionOpinion :: "approval_action \<Rightarrow> jstring \<Rightarrow> opinion_check" where
  "validateApprovalActionOpinion action opinion =
     (if \<not> snd (action_config action) then Opinion_Ok
      else if js_trim opinion = [] then (if action = A_Approve then Approve_Opinion_Missing else Reject_Opinion_Missing)
      else if 500 < length (js_trim opinion) then Opinion_Too_Long
      else Opinion_Ok)"

record delegation_draft =
  dl_delegateUserId :: jstring
  dl_startDate :: jstring
  dl_endDate :: jstring
  dl_reason :: jstring
  dl_enabled :: bool

datatype delegation_check =
  Delegation_Ok | Period_Missing | End_Before_Start | Delegate_Missing | Reason_Missing | Reason_Too_Long

definition validateApprovalDelegation :: "delegation_draft \<Rightarrow> delegation_check" where
  "validateApprovalDelegation v =
     (if dl_startDate v = [] \<or> dl_endDate v = [] then Period_Missing
      else if dl_endDate v < dl_startDate v then End_Before_Start
      else if dl_delegateUserId v = [] then Delegate_Missing
      else if js_trim (dl_reason v) = [] then Reason_Missing
      else if 500 < length (js_trim (dl_reason v)) then Reason_Too_Long
      else Delegation_Ok)"

datatype image_display = Thumbnail | Original | Filename

definition shouldPreviewApprovalAttachment :: "js_env \<Rightarrow> jstring \<Rightarrow> image_display \<Rightarrow> bool" where
  "shouldPreviewApprovalAttachment E contentType display \<longleftrightarrow>
     js_starts_with (js_lower E contentType) (lit ''image/'') \<and> display \<noteq> Filename"

section \<open>Lemmas\<close>






text \<open>Attaching files batch by batch: a batch the check refuses is not attached.\<close>

fun attach :: "int list list \<Rightarrow> int list \<Rightarrow> int list" where
  "attach [] attached = attached"
| "attach (batch # batches) attached =
     (if validateApprovalFiles batch (int (length attached)) (sum_list attached) = Files_Ok
      then attach batches (attached @ batch) else attach batches attached)"

lemma files_ok_iff:
  "validateApprovalFiles sizes n b = Files_Ok \<longleftrightarrow>
     (\<forall>s\<in>set sizes. 0 < s \<and> s \<le> APPROVAL_ATTACHMENT_MAX_FILE_BYTES)
     \<and> n + int (length sizes) \<le> APPROVAL_ATTACHMENT_MAX_COUNT \<and> b + sum_list sizes \<le> APPROVAL_ATTACHMENT_MAX_TOTAL_BYTES"
  by (auto simp: validateApprovalFiles_def list_ex_iff not_le not_less)

definition attachments_ok :: "int list \<Rightarrow> bool" where
  "attachments_ok sizes \<longleftrightarrow> (\<forall>s\<in>set sizes. 0 < s \<and> s \<le> APPROVAL_ATTACHMENT_MAX_FILE_BYTES)
     \<and> int (length sizes) \<le> APPROVAL_ATTACHMENT_MAX_COUNT \<and> sum_list sizes \<le> APPROVAL_ATTACHMENT_MAX_TOTAL_BYTES"

lemma attach_ok: "attachments_ok attached \<Longrightarrow> attachments_ok (attach batches attached)"
proof (induction batches attached rule: attach.induct)
  case (2 batch batches attached)
  show ?case
  proof (cases "validateApprovalFiles batch (int (length attached)) (sum_list attached) = Files_Ok")
    case True
    then have "attachments_ok (attached @ batch)"
      using 2(3) unfolding files_ok_iff attachments_ok_def by (simp add: ball_Un)
    with 2(1) True show ?thesis by simp
  next
    case False
    with 2(2,3) show ?thesis by simp
  qed
qed simp

section \<open>Properties\<close>










text \<open>Attachments stay within the limits: whatever batches of files are offered one after the other, the files attached
  are at most ten, each of 1 byte to 10 MiB, 25 MiB together; so the final check of the draft never
  complains about them.\<close>

theorem attachments_within_limits:
  "length (attach batches []) \<le> 10 \<and> sum_list (attach batches []) \<le> 26214400
   \<and> list_all (\<lambda>s. 0 < s \<and> s \<le> 10485760) (attach batches [])
   \<and> (\<forall>title content. set (validateApprovalDraft \<lparr>df_title = title, df_content = content,
         df_attachmentCount = int (length (attach batches [])), df_attachmentBytes = sum_list (attach batches [])\<rparr>)
        \<inter> {Too_Many_Files, Too_Many_Bytes} = {})"
proof -
  have "attachments_ok []" by (simp add: attachments_ok_def APPROVAL_ATTACHMENT_MAX_COUNT_def APPROVAL_ATTACHMENT_MAX_TOTAL_BYTES_def)
  then have "attachments_ok (attach batches [])" by (rule attach_ok)
  then show ?thesis
    by (auto simp: attachments_ok_def validateApprovalDraft_def list_all_iff APPROVAL_ATTACHMENT_MAX_COUNT_def
        APPROVAL_ATTACHMENT_MAX_TOTAL_BYTES_def APPROVAL_ATTACHMENT_MAX_FILE_BYTES_def)
qed

text \<open>Reordering loses nothing: any sequence of moves of approvers, and of calendars, keeps every entry as often as it
  was there, and in a list without doubles a move that changed it is undone by the move in the other
  direction.\<close>

theorem reordering_keeps_entries:
  "mset (approver_order.moves ms ids) = mset ids
   \<and> mset (calendar_order.moves ms calendars) = mset calendars
   \<and> (distinct ids \<and> moveApprovalApprover ids userId direction \<noteq> ids \<longrightarrow>
        moveApprovalApprover (moveApprovalApprover ids userId direction) userId (- direction) = ids)
   \<and> (distinct (map cal_id calendars) \<and> moveOwnedCalendar calendars calendarId direction \<noteq> calendars \<longrightarrow>
        moveOwnedCalendar (moveOwnedCalendar calendars calendarId direction) calendarId (- direction) = calendars)"
  using approver_order.moves_mset [of ms ids] calendar_order.moves_mset [of ms calendars]
    approver_order.move_back [of ids] calendar_order.move_back [of calendars]
  by simp

theorem reordering_keeps_entries_witness:
  "moveApprovalApprover (moveApprovalApprover [lit ''a'', lit ''b''] (lit ''a'') 1) (lit ''a'') (- 1) = [lit ''a'', lit ''b'']"
proof -
  have "moveApprovalApprover [lit ''a'', lit ''b''] (lit ''a'') 1 = [lit ''b'', lit ''a'']"
    by (simp add: moveApprovalApprover_def swap_at_def)
  then show ?thesis
    using reordering_keeps_entries [of "[]" "[lit ''a'', lit ''b'']" "[]" "lit ''a''" 1 "[]"] by simp
qed

end
