(* ===== verification/Js_Date.thy ===== *)
theory Js_Date
  imports Js_Prelude
begin

text \<open>
  The dates of JavaScript: days and milliseconds since 1970, the Gregorian calendar as ECMAScript defines it
  (\<open>DayFromYear\<close>, \<open>MakeDay\<close>, \<open>YearFromTime\<close>), \<open>Date.UTC\<close> with its reading of the years 0 to 99, the range of
  valid dates, \<open>toISOString\<close>, and the fields of an instant in a time zone. Time zones, the reader of date
  strings and the locale tables are a parameter. The lemmas show that days and civil dates correspond one to one.
\<close>

section \<open>Years\<close>

definition leap :: "int \<Rightarrow> bool" where
  "leap y \<longleftrightarrow> y mod 4 = 0 \<and> (y mod 100 \<noteq> 0 \<or> y mod 400 = 0)"

definition day_from_year :: "int \<Rightarrow> int" where
  "day_from_year y = 365 * (y - 1970) + (y - 1969) div 4 - (y - 1901) div 100 + (y - 1601) div 400"

lemma div_step:
  assumes "0 < (k::int)"
  shows "(x + 1) div k = x div k + (if (x + 1) mod k = 0 then 1 else 0)"
proof -
  define q r where "q = x div k" and "r = x mod k"
  have x: "x + 1 = (r + 1) + k * q" unfolding q_def r_def by simp
  have r: "0 \<le> r" "r < k" using assms by (simp_all add: r_def)
  have "(x + 1) div k = (r + 1) div k + q" "(x + 1) mod k = (r + 1) mod k"
    unfolding x using assms by simp_all
  moreover have "(r + 1) div k = (if (r + 1) mod k = 0 then 1 else 0)"
  proof (cases "r + 1 = k")
    case False
    then have "r + 1 < k" using r by simp
    then show ?thesis using r by (simp add: div_pos_pos_trivial mod_pos_pos_trivial)
  qed (use assms in simp)
  ultimately show ?thesis by (simp add: q_def)
qed

lemma mod_shift: "(y - a) mod k = 0 \<longleftrightarrow> y mod k = a mod (k::int)"
  by (simp add: mod_eq_dvd_iff dvd_eq_mod_eq_0)

lemma day_from_year_Suc: "day_from_year (y + 1) = day_from_year y + (if leap y then 366 else 365)"
proof -
  have 1: "(y - 1968) div 4 = (y - 1969) div 4 + (if y mod 4 = 0 then 1 else 0)"
    using div_step [of 4 "y - 1969"] mod_shift [of y 1968 4] by simp
  have 2: "(y - 1900) div 100 = (y - 1901) div 100 + (if y mod 100 = 0 then 1 else 0)"
    using div_step [of 100 "y - 1901"] mod_shift [of y 1900 100] by simp
  have 3: "(y - 1600) div 400 = (y - 1601) div 400 + (if y mod 400 = 0 then 1 else 0)"
    using div_step [of 400 "y - 1601"] mod_shift [of y 1600 400] by simp
  have 4: "y mod 400 = 0 \<Longrightarrow> y mod 100 = 0" "y mod 100 = 0 \<Longrightarrow> y mod 4 = 0"
    unfolding mod_eq_0_iff_dvd by (auto elim: dvd_trans [rotated])
  have shift: "y + 1 - 1969 = y - 1968" "y + 1 - 1901 = y - 1900" "y + 1 - 1601 = y - 1600" by simp_all
  have "365 * (y + 1 - 1970) = 365 * (y - 1970) + 365" by simp
  then show ?thesis
    unfolding day_from_year_def leap_def shift 1 2 3 using 4
    by (cases "y mod 400 = 0"; cases "y mod 100 = 0"; cases "y mod 4 = 0") simp_all
qed

lemma day_from_year_step: "day_from_year y + 365 \<le> day_from_year (y + 1)" "day_from_year (y + 1) \<le> day_from_year y + 366"
  by (simp_all add: day_from_year_Suc)

lemma day_from_year_add: "day_from_year y + 365 * int n \<le> day_from_year (y + int n)"
proof (induction n)
  case (Suc n)
  then show ?case using day_from_year_step(1) [of "y + int n"] by (simp add: algebra_simps)
qed simp

lemma day_from_year_mono: "x \<le> y \<Longrightarrow> day_from_year x \<le> day_from_year y"
  using day_from_year_add [of x "nat (y - x)"] by simp

lemma day_from_year_less: "x < y \<Longrightarrow> day_from_year (x + 1) \<le> day_from_year y"
  by (rule day_from_year_mono) simp

lemma year_unique:
  assumes "day_from_year x \<le> d" "d < day_from_year (x + 1)" "day_from_year y \<le> d" "d < day_from_year (y + 1)"
  shows "x = y"
  using assms day_from_year_less [of x y] day_from_year_less [of y x] by force

text \<open>The year of a day: four hundred years have 146097 days, which estimates the year up to one.\<close>

definition year_from_day :: "int \<Rightarrow> int" where
  "year_from_day d =
     (let y = 1970 + 400 * d div 146097
      in if day_from_year (y + 1) \<le> d then y + 1 else if day_from_year y \<le> d then y else y - 1)"

lemma div_between: "0 < k \<Longrightarrow> k * (x div k) \<le> x \<and> x < k * (x div k) + (k::int)"
  by (smt (verit, best) mult_div_mod_eq pos_mod_bound pos_mod_sign)

lemma day_from_year_bounds:
  "146097 * (y - 1970) - 700 \<le> 400 * day_from_year y" "400 * day_from_year y \<le> 146097 * (y - 1970) + 800"
proof -
  define a b c where "a = (y - 1969) div 4" and "b = (y - 1901) div 100" and "c = (y - 1601) div 400"
  note q = div_between [of 4 "y - 1969"] div_between [of 100 "y - 1901"] div_between [of 400 "y - 1601"]
  show "146097 * (y - 1970) - 700 \<le> 400 * day_from_year y" "400 * day_from_year y \<le> 146097 * (y - 1970) + 800"
    unfolding day_from_year_def a_def [symmetric] b_def [symmetric] c_def [symmetric]
    using q [folded a_def b_def c_def] by simp_all
qed

lemma year_from_day: "day_from_year (year_from_day d) \<le> d \<and> d < day_from_year (year_from_day d + 1)"
proof -
  define y where "y = 1970 + 400 * d div 146097"
  have "146097 * (y - 1970) \<le> 400 * d" "400 * d < 146097 * (y - 1969)"
    using div_between [of 146097 "400 * d"] unfolding y_def by auto
  moreover have "400 * day_from_year (y - 1) \<le> 146097 * (y - 1970) - 145297"
    "146097 * (y - 1970) + 291494 \<le> 400 * day_from_year (y + 2)"
    using day_from_year_bounds(2) [of "y - 1"] day_from_year_bounds(1) [of "y + 2"] by (simp_all add: algebra_simps)
  ultimately have "400 * day_from_year (y - 1) \<le> 400 * d" "400 * d < 400 * day_from_year (y + 2)"
    by (simp_all add: algebra_simps)
  then have "day_from_year (y - 1) \<le> d" "d < day_from_year (y + 2)" by simp_all
  then show ?thesis
    unfolding year_from_day_def Let_def y_def [symmetric] by (auto simp: add.commute)
qed

section \<open>Months\<close>

definition month_starts :: "int list" where
  "month_starts = [0, 31, 59, 90, 120, 151, 181, 212, 243, 273, 304, 334]"

definition month_start :: "bool \<Rightarrow> int \<Rightarrow> int" where
  \<comment> \<open>the day of the year on which the month with index \<open>m\<close> (0 to 11) begins\<close>
  "month_start l m = month_starts ! nat m + (if l \<and> 2 \<le> m then 1 else 0)"

definition days_in :: "bool \<Rightarrow> int \<Rightarrow> int" where
  "days_in l m = (if m = 1 then (if l then 29 else 28) else if m \<in> {3, 5, 8, 10} then 30 else 31)"

definition month_index :: "bool \<Rightarrow> int \<Rightarrow> int" where
  "month_index l n = int (length (filter (\<lambda>m. month_start l m \<le> n) [1, 2, 3, 4, 5, 6, 7, 8, 9, 10, 11]))"

lemma index_cases:
  assumes "0 \<le> m" "m < (12::int)"
  obtains "m = 0" | "m = 1" | "m = 2" | "m = 3" | "m = 4" | "m = 5" | "m = 6" | "m = 7" | "m = 8" | "m = 9"
    | "m = 10" | "m = 11"
proof -
  have "m \<in> set [0..11]" using assms by simp
  then have "m \<in> {0, 1, 2, 3, 4, 5, 6, 7, 8, 9, 10, 11}" by (simp del: set_upto add: upto.simps [of 0] upto.simps [of 1])
  then show ?thesis using that by blast
qed

lemma month_start_table [simp]:
  "month_start l 0 = 0" "month_start l 1 = 31" "month_start l 2 = (if l then 60 else 59)"
  "month_start l 3 = (if l then 91 else 90)" "month_start l 4 = (if l then 121 else 120)"
  "month_start l 5 = (if l then 152 else 151)" "month_start l 6 = (if l then 182 else 181)"
  "month_start l 7 = (if l then 213 else 212)" "month_start l 8 = (if l then 244 else 243)"
  "month_start l 9 = (if l then 274 else 273)" "month_start l 10 = (if l then 305 else 304)"
  "month_start l 11 = (if l then 335 else 334)"
  by (simp_all add: month_start_def month_starts_def)

lemma month_index_start:
  assumes "0 \<le> m" "m < 12" "0 \<le> k" "k < days_in l m"
  shows "month_index l (month_start l m + k) = m"
  using assms(1,2)
  by (rule index_cases) (use assms in \<open>simp_all add: month_index_def days_in_def split: if_splits\<close>)

lemma month_index_bounds: "0 \<le> month_index l n \<and> month_index l n < 12"
  unfolding month_index_def using length_filter_le [of "\<lambda>m. month_start l m \<le> n" "[1, 2, 3, 4, 5, 6, 7, 8, 9, 10, 11]"]
  by simp

lemma month_index_step:
  assumes "0 \<le> n" "n < (if l then 366 else 365)"
  shows "(\<exists>m. 0 \<le> m \<and> m < 12 \<and> month_start l m \<le> n \<and> n < month_start l m + days_in l m)"
proof -
  consider "n < month_start l 1" | "month_start l 1 \<le> n" "n < month_start l 2" | "month_start l 2 \<le> n" "n < month_start l 3"
    | "month_start l 3 \<le> n" "n < month_start l 4" | "month_start l 4 \<le> n" "n < month_start l 5"
    | "month_start l 5 \<le> n" "n < month_start l 6" | "month_start l 6 \<le> n" "n < month_start l 7"
    | "month_start l 7 \<le> n" "n < month_start l 8" | "month_start l 8 \<le> n" "n < month_start l 9"
    | "month_start l 9 \<le> n" "n < month_start l 10" | "month_start l 10 \<le> n" "n < month_start l 11"
    | "month_start l 11 \<le> n" by linarith
  then show ?thesis
  proof cases
    case 1 then show ?thesis using assms by (intro exI [of _ 0]) (simp add: days_in_def)
  next
    case 2 then show ?thesis by (intro exI [of _ 1]) (auto simp: days_in_def)
  next
    case 3 then show ?thesis by (intro exI [of _ 2]) (auto simp: days_in_def)
  next
    case 4 then show ?thesis by (intro exI [of _ 3]) (auto simp: days_in_def)
  next
    case 5 then show ?thesis by (intro exI [of _ 4]) (auto simp: days_in_def)
  next
    case 6 then show ?thesis by (intro exI [of _ 5]) (auto simp: days_in_def)
  next
    case 7 then show ?thesis by (intro exI [of _ 6]) (auto simp: days_in_def)
  next
    case 8 then show ?thesis by (intro exI [of _ 7]) (auto simp: days_in_def)
  next
    case 9 then show ?thesis by (intro exI [of _ 8]) (auto simp: days_in_def)
  next
    case 10 then show ?thesis by (intro exI [of _ 9]) (auto simp: days_in_def)
  next
    case 11 then show ?thesis by (intro exI [of _ 10]) (auto simp: days_in_def)
  next
    case 12 then show ?thesis using assms by (intro exI [of _ 11]) (auto simp: days_in_def split: if_splits)
  qed
qed

lemma month_index_day:
  assumes "0 \<le> n" "n < (if l then 366 else 365)"
  shows "month_start l (month_index l n) \<le> n \<and> n < month_start l (month_index l n) + days_in l (month_index l n)"
proof -
  obtain m where m: "0 \<le> m" "m < 12" "month_start l m \<le> n" "n < month_start l m + days_in l m"
    using month_index_step [OF assms] by blast
  then have "month_index l n = m" using month_index_start [of m "n - month_start l m" l] by simp
  with m show ?thesis by simp
qed

section \<open>Days and civil dates\<close>

definition civil_day :: "int \<Rightarrow> int \<Rightarrow> int \<Rightarrow> int" where
  \<comment> \<open>the day number of a year, a month index (0 to 11) and a day of the month\<close>
  "civil_day y m d = day_from_year y + month_start (leap y) m + d - 1"

definition make_day :: "int \<Rightarrow> int \<Rightarrow> int \<Rightarrow> int" where
  \<comment> \<open>\<open>MakeDay\<close>: month indices outside 0 to 11 carry into the year, any day is counted from the first\<close>
  "make_day y m d = civil_day (y + m div 12) (m mod 12) d"

definition utc_year :: "int \<Rightarrow> int" where "utc_year n = year_from_day n"
definition utc_month :: "int \<Rightarrow> int" where
  "utc_month n = month_index (leap (utc_year n)) (n - day_from_year (utc_year n))"
definition utc_date :: "int \<Rightarrow> int" where
  "utc_date n = n - day_from_year (utc_year n) - month_start (leap (utc_year n)) (utc_month n) + 1"
definition week_day :: "int \<Rightarrow> int" where "week_day n = (n + 4) mod 7"

definition valid_civil :: "int \<Rightarrow> int \<Rightarrow> int \<Rightarrow> bool" where
  "valid_civil y m d \<longleftrightarrow> 0 \<le> m \<and> m < 12 \<and> 1 \<le> d \<and> d \<le> days_in (leap y) m"

lemma days_in_bounds: "28 \<le> days_in l m \<and> days_in l m \<le> 31"
  by (simp add: days_in_def)

lemma month_end: "0 \<le> m \<Longrightarrow> m < 11 \<Longrightarrow> month_start l (m + 1) = month_start l m + days_in l m"
  by (rule index_cases [of m]) (auto simp: days_in_def)

lemma month_ends_in_year:
  "0 \<le> m \<Longrightarrow> m < 12 \<Longrightarrow> 0 \<le> month_start l m \<and> month_start l m + days_in l m \<le> (if l then 366 else 365)"
  by (rule index_cases [of m]) (auto simp: days_in_def)

lemma civil_day_in_year:
  assumes "valid_civil y m d"
  shows "day_from_year y \<le> civil_day y m d \<and> civil_day y m d < day_from_year (y + 1)"
  using assms month_ends_in_year [of m "leap y"] unfolding valid_civil_def civil_day_def day_from_year_Suc by auto

lemma utc_fields_civil:
  assumes "valid_civil y m d"
  shows "utc_year (civil_day y m d) = y" "utc_month (civil_day y m d) = m" "utc_date (civil_day y m d) = d"
proof -
  show y: "utc_year (civil_day y m d) = y"
    unfolding utc_year_def
    using year_unique [of _ "civil_day y m d" y] year_from_day civil_day_in_year [OF assms] by blast
  show m: "utc_month (civil_day y m d) = m"
    unfolding utc_month_def y using assms month_index_start [of m "d - 1" "leap y"]
    by (simp add: civil_day_def valid_civil_def)
  show "utc_date (civil_day y m d) = d"
    unfolding utc_date_def y m by (simp add: civil_day_def)
qed

lemma civil_day_utc: "civil_day (utc_year n) (utc_month n) (utc_date n) = n"
  by (simp add: civil_day_def utc_date_def)

lemma valid_utc: "valid_civil (utc_year n) (utc_month n) (utc_date n)"
proof -
  have y: "day_from_year (utc_year n) \<le> n" "n < day_from_year (utc_year n + 1)"
    using year_from_day [of n] by (simp_all add: utc_year_def)
  show ?thesis
    using month_index_day [of "n - day_from_year (utc_year n)" "leap (utc_year n)"] y
      month_index_bounds [of "leap (utc_year n)" "n - day_from_year (utc_year n)"]
    unfolding valid_civil_def utc_date_def utc_month_def day_from_year_Suc by auto
qed

lemma utc_month_range: "0 \<le> utc_month n \<and> utc_month n < 12"
  using valid_utc [of n] by (simp add: valid_civil_def)

lemma utc_date_range: "1 \<le> utc_date n \<and> utc_date n \<le> 31"
  using valid_utc [of n] days_in_bounds [of "leap (utc_year n)" "utc_month n"] by (auto simp: valid_civil_def)

lemma make_day_civil: "0 \<le> m \<Longrightarrow> m < 12 \<Longrightarrow> make_day y m d = civil_day y m d"
  by (simp add: make_day_def div_pos_pos_trivial mod_pos_pos_trivial)

lemma make_day_utc: "make_day (utc_year n) (utc_month n) (utc_date n) = n"
  using make_day_civil utc_month_range civil_day_utc by simp

lemma make_day_add: "make_day y m (d + k) = make_day y m d + k"
  by (simp add: make_day_def civil_day_def)

lemma make_day_carry: "make_day y (m + 12 * k) d = make_day (y + k) m d"
proof -
  have "(m + 12 * k) div 12 = m div 12 + k" "(m + 12 * k) mod 12 = m mod 12" by simp_all
  then show ?thesis unfolding make_day_def by (simp add: ac_simps)
qed

text \<open>The day before the first of the next month is the last of this one: \<open>Date.UTC(y, m + 1, 0)\<close>.\<close>

lemma make_day_last:
  assumes "0 \<le> m" "m < 12"
  shows "make_day y (m + 1) 0 = civil_day y m (days_in (leap y) m)"
proof (cases "m = 11")
  case True
  then have "make_day y (m + 1) 0 = civil_day (y + 1) 0 0" by (simp add: make_day_def)
  then show ?thesis using True by (simp add: civil_day_def day_from_year_Suc days_in_def)
next
  case False
  then show ?thesis
    using assms month_end [of m "leap y"] by (simp add: make_day_civil civil_day_def)
qed

lemma utc_last_day:
  "0 \<le> m \<Longrightarrow> m < 12 \<Longrightarrow> utc_date (make_day y (m + 1) 0) = days_in (leap y) m"
  using utc_fields_civil(3) [of y m "days_in (leap y) m"] days_in_bounds [of "leap y" m]
  by (simp add: make_day_last valid_civil_def)

lemma utc_year_mono: "m \<le> n \<Longrightarrow> utc_year m \<le> utc_year n"
  using year_from_day [of m] year_from_day [of n] day_from_year_less [of "utc_year n" "utc_year m"]
  unfolding utc_year_def by linarith

lemma utc_year_ge: "utc_year n \<ge> y \<longleftrightarrow> day_from_year y \<le> n"
proof
  assume "y \<le> utc_year n"
  then have "day_from_year y \<le> day_from_year (utc_year n)" by (rule day_from_year_mono)
  with year_from_day [of n] show "day_from_year y \<le> n" by (simp add: utc_year_def)
next
  assume "day_from_year y \<le> n"
  with year_from_day [of n] have "day_from_year y < day_from_year (utc_year n + 1)" by (simp add: utc_year_def)
  then show "y \<le> utc_year n" using day_from_year_mono [of "utc_year n + 1" y] by linarith
qed

section \<open>Instants\<close>

text \<open>A \<open>Date\<close> is its time value in milliseconds, \<open>None\<close> for an invalid one.\<close>

type_synonym jsdate = "int option"

definition time_clip :: "int \<Rightarrow> jsdate" where
  "time_clip t = (if \<bar>t\<bar> \<le> 8640000000000000 then Some t else None)"

definition date_utc :: "int \<Rightarrow> int \<Rightarrow> int \<Rightarrow> int \<Rightarrow> int \<Rightarrow> int \<Rightarrow> jsdate" where
  \<comment> \<open>\<open>Date.UTC(y, m, d, h, mi, s)\<close>, which reads the years 0 to 99 as 1900 to 1999\<close>
  "date_utc y m d h mi s =
     time_clip (86400000 * make_day (if 0 \<le> y \<and> y \<le> 99 then 1900 + y else y) m d + 3600000 * h + 60000 * mi + 1000 * s)"

definition show_padded :: "nat \<Rightarrow> nat \<Rightarrow> jstring" where
  "show_padded k n = (let s = show_nat n in replicate (k - length s) 48 @ s)"

definition iso_year :: "int \<Rightarrow> jstring" where
  "iso_year y =
     (if 0 \<le> y \<and> y \<le> 9999 then show_padded 4 (nat y)
      else (if y < 0 then 45 else 43) # show_padded 6 (nat \<bar>y\<bar>))"

definition iso_string :: "int \<Rightarrow> jstring" where
  \<comment> \<open>\<open>toISOString\<close> of a valid date\<close>
  "iso_string t =
     (let n = t div 86400000; r = t mod 86400000
      in iso_year (utc_year n) @ 45 # show_padded 2 (nat (utc_month n + 1)) @ 45 # show_padded 2 (nat (utc_date n))
         @ 84 # show_padded 2 (nat (r div 3600000)) @ 58 # show_padded 2 (nat (r div 60000 mod 60))
         @ 58 # show_padded 2 (nat (r div 1000 mod 60)) @ 46 # show_padded 3 (nat (r mod 1000)) @ [90])"

subsection \<open>Reading printed instants\<close>

text \<open>
  A reader for the texts of \<open>toISOString\<close>: an instance of the law the code relies on, that \<open>new Date\<close> reads back
  what \<open>toISOString\<close> wrote.
\<close>

definition read_iso_year :: "jstring \<Rightarrow> int" where
  "read_iso_year ys =
     (case ys of [] \<Rightarrow> 0
      | c # ds \<Rightarrow> if c = 45 then - int (read_nat 0 ds) else if c = 43 then int (read_nat 0 ds) else int (read_nat 0 ys))"

definition read_iso :: "jstring \<Rightarrow> jsdate" where
  "read_iso s =
     (let k = length s - 20; r = drop k s; num = (\<lambda>i n. int (read_nat 0 (take n (drop i r))))
      in time_clip (86400000 * make_day (read_iso_year (take k s)) (num 1 2 - 1) (num 4 2)
           + 3600000 * num 7 2 + 60000 * num 10 2 + 1000 * num 13 2 + num 16 3))"

lemma length_show_nat: "0 < k \<Longrightarrow> n < 10 ^ k \<Longrightarrow> length (show_nat n) \<le> k"
proof (induction k arbitrary: n)
  case (Suc k)
  show ?case
  proof (cases "n < 10")
    case True
    then show ?thesis by (subst show_nat.simps) simp
  next
    case False
    then have "k \<noteq> 0" using Suc.prems by (cases k) simp_all
    moreover have "n div 10 < 10 ^ k" using Suc.prems by (simp add: div_less_iff_less_mult)
    ultimately have "length (show_nat (n div 10)) \<le> k" using Suc.IH by blast
    then show ?thesis using False by (subst show_nat.simps) simp
  qed
qed simp

lemma length_show_padded: "0 < k \<Longrightarrow> n < 10 ^ k \<Longrightarrow> length (show_padded k n) = k"
  using length_show_nat [of k n] by (simp add: show_padded_def Let_def)

lemma read_leading_zeros: "read_nat 0 (replicate k 48 @ s) = read_nat 0 s"
  by (induction k) simp_all

lemma read_show_padded: "read_nat 0 (show_padded k n) = n"
  by (simp add: show_padded_def Let_def read_leading_zeros read_show_nat)

lemma padded_digits: "c \<in> set (show_padded k n) \<Longrightarrow> is_digit c"
  using show_nat_digits [of c n] by (auto simp: show_padded_def Let_def is_digit_def split: if_splits)

lemma read_iso_year: "read_iso_year (iso_year y) = y"
proof (cases "0 \<le> y \<and> y \<le> 9999")
  case True
  show ?thesis
  proof (cases "show_padded 4 (nat y)")
    case Nil
    then show ?thesis by (simp add: show_padded_def Let_def)
  next
    case (Cons c cs)
    with True read_show_padded [of 4 "nat y"] padded_digits [of c 4 "nat y"] show ?thesis
      by (auto simp: iso_year_def read_iso_year_def is_digit_def)
  qed
qed (auto simp: iso_year_def read_iso_year_def read_show_padded)

lemma read_iso_parts:
  assumes "length A = 2" "length B = 2" "length C = 2" "length D = 2" "length F = 2" "length G = 3"
  shows "read_iso (Y @ 45 # A @ 45 # B @ 84 # C @ 58 # D @ 58 # F @ 46 # G @ [90]) =
    time_clip (86400000 * make_day (read_iso_year Y) (int (read_nat 0 A) - 1) (int (read_nat 0 B))
      + 3600000 * int (read_nat 0 C) + 60000 * int (read_nat 0 D) + 1000 * int (read_nat 0 F) + int (read_nat 0 G))"
  using assms by (simp add: read_iso_def Let_def numeral_eq_Suc)

lemma parts_of_ms:
  "3600000 * (r div 3600000) + 60000 * (r div 60000 mod 60) + 1000 * (r div 1000 mod 60) + r mod 1000 = (r::int)"
proof -
  have "1000 * (r div 1000) + r mod 1000 = r" by simp
  moreover have "60 * (r div 1000 div 60) + r div 1000 mod 60 = r div 1000" by simp
  moreover have "60 * (r div 60000 div 60) + r div 60000 mod 60 = r div 60000" by simp
  moreover have "r div 1000 div 60 = r div 60000" "r div 60000 div 60 = r div 3600000"
    by (simp_all add: zdiv_zmult2_eq [symmetric])
  ultimately show ?thesis by linarith
qed

lemma read_iso_string:
  assumes "\<bar>t\<bar> \<le> 8640000000000000"
  shows "read_iso (iso_string t) = Some t"
proof -
  define n r where "n = t div 86400000" and "r = t mod 86400000"
  have r: "0 \<le> r" "r < 86400000" by (simp_all add: r_def)
  have h: "0 \<le> r div 3600000" "r div 3600000 < 24"
    using r div_between [of 3600000 r] by (simp_all add: pos_imp_zdiv_nonneg_iff)
  have b: "nat (utc_month n + 1) < 10 ^ 2" "nat (utc_date n) < 10 ^ 2" "nat (r div 3600000) < 10 ^ 2"
    "nat (r div 60000 mod 60) < 10 ^ 2" "nat (r div 1000 mod 60) < 10 ^ 2" "nat (r mod 1000) < 10 ^ 3"
  proof -
    have small: "nat x < 100" if "x < 100" for x using that by simp
    have m: "r div 60000 mod 60 < 60" "r div 1000 mod 60 < 60" "r mod 1000 < 1000" by simp_all
    have "utc_month n + 1 < 100" "utc_date n < 100" using utc_month_range [of n] utc_date_range [of n] by linarith+
    then show "nat (utc_month n + 1) < 10 ^ 2" "nat (utc_date n) < 10 ^ 2" using small by simp_all
    show "nat (r div 3600000) < 10 ^ 2" using small [of "r div 3600000"] h(2) by simp
    have "nat (r div 60000 mod 60) < 100" by (rule small, rule less_trans [OF m(1)]) simp
    then show "nat (r div 60000 mod 60) < 10 ^ 2" by simp
    have "nat (r div 1000 mod 60) < 100" by (rule small, rule less_trans [OF m(2)]) simp
    then show "nat (r div 1000 mod 60) < 10 ^ 2" by simp
    show "nat (r mod 1000) < 10 ^ 3" using m(3) by simp
  qed
  note len = b [THEN length_show_padded [OF zero_less_numeral]]
  have nums: "int (nat (utc_month n + 1)) - 1 = utc_month n" "int (nat (utc_date n)) = utc_date n"
    "int (nat (r div 3600000)) = r div 3600000" "int (nat (r div 60000 mod 60)) = r div 60000 mod 60"
    "int (nat (r div 1000 mod 60)) = r div 1000 mod 60" "int (nat (r mod 1000)) = r mod 1000"
    using utc_month_range [of n] utc_date_range [of n] h by simp_all
  have "read_iso (iso_string t) = time_clip (86400000 * make_day (utc_year n) (utc_month n) (utc_date n)
      + 3600000 * (r div 3600000) + 60000 * (r div 60000 mod 60) + 1000 * (r div 1000 mod 60) + r mod 1000)"
    unfolding iso_string_def Let_def n_def [symmetric] r_def [symmetric]
    by (simp only: read_iso_parts [OF len] read_show_padded read_iso_year nums)
  also have "\<dots> = time_clip (86400000 * n + r)" using parts_of_ms [of r] by (simp add: make_day_utc add.assoc)
  also have "\<dots> = Some t" using assms by (simp add: n_def r_def time_clip_def)
  finally show ?thesis .
qed

section \<open>Time zones\<close>

datatype date_error = Range_error | Message_error jstring

text \<open>
  The zone data: which names are zones, the offset of a zone from UTC at an instant, in seconds, and the reader of
  date strings (\<open>Date.parse\<close>).
\<close>

record zone_env =
  valid_zone :: "jstring \<Rightarrow> bool"
  zone_offset :: "jstring \<Rightarrow> int \<Rightarrow> int"
  parse_date :: "jstring \<Rightarrow> jsdate"

record date_parts =
  p_year :: int
  p_month :: int
  p_day :: int
  p_hour :: int
  p_minute :: int
  p_second :: int

definition shown_year :: "int \<Rightarrow> int" where
  \<comment> \<open>\<open>Intl\<close> prints the year within its era: 1 BC is the year 1\<close>
  "shown_year y = (if y \<le> 0 then 1 - y else y)"

definition fields_of_second :: "int \<Rightarrow> date_parts" where
  "fields_of_second s =
     (let n = s div 86400; r = s mod 86400
      in \<lparr>p_year = shown_year (utc_year n), p_month = utc_month n + 1, p_day = utc_date n,
          p_hour = r div 3600, p_minute = r div 60 mod 60, p_second = r mod 60\<rparr>)"

definition local_second :: "zone_env \<Rightarrow> jstring \<Rightarrow> int \<Rightarrow> int" where
  "local_second Z z t = t div 1000 + zone_offset Z z t"

definition format_parts :: "zone_env \<Rightarrow> jsdate \<Rightarrow> jstring \<Rightarrow> date_error + date_parts" where
  \<comment> \<open>\<open>new Intl.DateTimeFormat(..., {timeZone: z, ...}).formatToParts(d)\<close>, the fields read as numbers\<close>
  "format_parts Z d z =
     (if \<not> valid_zone Z z then Inl Range_error
      else case d of None \<Rightarrow> Inl Range_error | Some t \<Rightarrow> Inr (fields_of_second (local_second Z z t)))"

definition utc_of_parts :: "date_parts \<Rightarrow> jsdate" where
  "utc_of_parts p = date_utc (p_year p) (p_month p - 1) (p_day p) (p_hour p) (p_minute p) (p_second p)"

definition in_era :: "int \<Rightarrow> bool" where
  \<comment> \<open>seconds of wall clocks from the year 101 up to two days before the end of the range of dates\<close>
  "in_era s \<longleftrightarrow> 86400 * day_from_year 101 \<le> s \<and> s \<le> 8640000000000 - 172800"

lemma parts_of_second:
  "86400 * (s div 86400) + 3600 * (s mod 86400 div 3600) + 60 * (s mod 86400 div 60 mod 60) + s mod 86400 mod 60 = (s::int)"
proof -
  have "60 * (s mod 86400 div 60) + s mod 86400 mod 60 = s mod 86400" by simp
  moreover have "s mod 86400 div 3600 = s mod 86400 div 60 div 60" by (simp add: zdiv_zmult2_eq [symmetric])
  moreover have "60 * (s mod 86400 div 60 div 60) + s mod 86400 div 60 mod 60 = s mod 86400 div 60" by simp
  moreover have "86400 * (s div 86400) + s mod 86400 = s" by simp
  ultimately show ?thesis by linarith
qed

lemma utc_of_fields:
  assumes "86400 * day_from_year 100 \<le> s" "s \<le> 8640000000000"
  shows "utc_of_parts (fields_of_second s) = Some (1000 * s)"
proof -
  have "day_from_year 100 \<le> s div 86400" using zdiv_mono1 [OF assms(1), of 86400] by simp
  then have y: "100 \<le> utc_year (s div 86400)" by (simp add: utc_year_ge)
  have "day_from_year 100 = - 683003" by (simp add: day_from_year_def)
  then have r: "\<bar>1000 * s\<bar> \<le> 8640000000000000" using assms by simp
  have "86400000 * (s div 86400) + 3600000 * (s mod 86400 div 3600) + 60000 * (s mod 86400 div 60 mod 60)
      + 1000 * (s mod 86400 mod 60) = 1000 * s"
    using parts_of_second [of s] by linarith
  with y r show ?thesis
    by (simp add: utc_of_parts_def fields_of_second_def Let_def shown_year_def date_utc_def make_day_utc time_clip_def)
qed

end
