(* ===== verification/Local_Time.thy ===== *)
theory Local_Time
  imports Js_Date
begin

text \<open>
  Conversions between instants and the wall clock of a time zone (\<open>user-web/src/calendar.ts\<close>: \<open>safeTimezone\<close>,
  \<open>partsInTimeZone\<close>, \<open>timezoneOffsetMs\<close>, \<open>zonedDate\<close>; \<open>user-web/src/scheduleForm.ts\<close>: \<open>localParts\<close>,
  \<open>utcToLocalDateTime\<close>, \<open>localDateTimeToUtc\<close>). Both modules look for the instant with a given wall clock by three
  correction steps. The lemmas show that the loops compute the same, and that three steps suffice around one change
  of the offset: the instant is found whenever there is one.
\<close>

section \<open>The calendar's conversion\<close>

definition DEFAULT_CALENDAR_TIMEZONE :: jstring where
  "DEFAULT_CALENDAR_TIMEZONE = lit ''Asia/Seoul''"

definition safeTimezone :: "zone_env \<Rightarrow> jstring \<Rightarrow> jstring" where
  "safeTimezone Z z = (if valid_zone Z z then z else DEFAULT_CALENDAR_TIMEZONE)"

definition partsInTimeZone :: "zone_env \<Rightarrow> jsdate \<Rightarrow> jstring \<Rightarrow> date_error + date_parts" where
  "partsInTimeZone Z d z = format_parts Z d z"

definition date_minus :: "jsdate \<Rightarrow> jsdate \<Rightarrow> int option" where
  \<comment> \<open>the difference of two time values, NaN when one of them is\<close>
  "date_minus a b = (case a of None \<Rightarrow> None | Some x \<Rightarrow> (case b of None \<Rightarrow> None | Some y \<Rightarrow> Some (x - y)))"

definition new_date :: "int option \<Rightarrow> jsdate" where
  "new_date v = (case v of None \<Rightarrow> None | Some t \<Rightarrow> time_clip t)"

definition timezoneOffsetMs :: "zone_env \<Rightarrow> jsdate \<Rightarrow> jstring \<Rightarrow> date_error + int option" where
  "timezoneOffsetMs Z d z = bind_r (partsInTimeZone Z d z) (\<lambda>p. Inr (date_minus (utc_of_parts p) d))"

definition zoned_step :: "zone_env \<Rightarrow> jstring \<Rightarrow> jsdate \<Rightarrow> jsdate \<Rightarrow> date_error + jsdate" where
  \<comment> \<open>one round of the loop: \<open>new Date(target - timezoneOffsetMs(candidate, timezone))\<close>\<close>
  "zoned_step Z z target c = bind_r (timezoneOffsetMs Z c z) (\<lambda>v. Inr (new_date (date_minus target v)))"

definition zonedDate :: "zone_env \<Rightarrow> date_parts \<Rightarrow> jstring \<Rightarrow> date_error + jsdate" where
  "zonedDate Z p z0 =
     (let z = safeTimezone Z z0; target = utc_of_parts p
      in bind_r (zoned_step Z z target target)
           (\<lambda>c. bind_r (zoned_step Z z target c) (zoned_step Z z target)))"

section \<open>The form's conversion\<close>

definition localParts :: "zone_env \<Rightarrow> jsdate \<Rightarrow> jstring \<Rightarrow> date_error + date_parts" where
  "localParts Z d z = format_parts Z d z"

definition pad2_int :: "int \<Rightarrow> jstring" where
  \<comment> \<open>\<open>String(n).padStart(2, "0")\<close> of a number that is not negative\<close>
  "pad2_int n = pad2 (nat n)"

definition render_local :: "date_parts \<Rightarrow> jstring" where
  "render_local p =
     show_int (p_year p) @ 45 # pad2_int (p_month p) @ 45 # pad2_int (p_day p) @ 84 # pad2_int (p_hour p)
       @ 58 # pad2_int (p_minute p)"

definition utcToLocalDateTime :: "zone_env \<Rightarrow> jsdate \<Rightarrow> jstring \<Rightarrow> date_error + jstring" where
  "utcToLocalDateTime Z d z = bind_r (localParts Z d z) (\<lambda>p. Inr (render_local p))"

definition localPattern :: "jstring \<Rightarrow> bool" where
  \<comment> \<open>the regular expression \<open>^(\d{4})-(\d{2})-(\d{2})T(\d{2}):(\d{2})$\<close>\<close>
  "localPattern v \<longleftrightarrow>
     length v = 16 \<and> list_all (\<lambda>i. is_digit (v ! i)) [0, 1, 2, 3, 5, 6, 8, 9, 11, 12, 14, 15]
     \<and> v ! 4 = 45 \<and> v ! 7 = 45 \<and> v ! 10 = 84 \<and> v ! 13 = 58"

definition number_at :: "nat \<Rightarrow> nat \<Rightarrow> jstring \<Rightarrow> int" where
  "number_at i k v = int (read_nat 0 (take k (drop i v)))"

definition local_match :: "jstring \<Rightarrow> date_parts option" where
  \<comment> \<open>\<open>localPattern.exec(value)?.slice(1).map(Number)\<close>, the seconds being zero\<close>
  "local_match v =
     (if localPattern v
      then Some \<lparr>p_year = number_at 0 4 v, p_month = number_at 5 2 v, p_day = number_at 8 2 v,
        p_hour = number_at 11 2 v, p_minute = number_at 14 2 v, p_second = 0\<rparr>
      else None)"

definition local_step :: "zone_env \<Rightarrow> jstring \<Rightarrow> int option \<Rightarrow> int option \<Rightarrow> date_error + int option" where
  \<comment> \<open>one round of the loop: \<open>candidate += wallClock - rendered\<close>\<close>
  "local_step Z z wall c =
     bind_r (localParts Z (new_date c) z)
       (\<lambda>p. Inr (case c of None \<Rightarrow> None | Some x \<Rightarrow> map_option ((+) x) (date_minus wall (utc_of_parts p))))"

definition date_message :: jstring where
  \<comment> \<open>the message that asks to check the date and the time\<close>
  "date_message = [45216, 51676, 50752, 32, 49884, 44036, 51012, 32, 54869, 51064, 54616, 49464, 50836, 46]"

definition gap_message :: jstring where
  \<comment> \<open>the message that the local time does not exist in the zone\<close>
  "gap_message = [49440, 53469, 54620, 32, 49884, 44036, 45824, 50640, 32, 51316, 51116, 54616, 51648, 32, 50506, 45716, 32,
     54788, 51648, 32, 49884, 44033, 51077, 45768, 45796, 46]"

definition localDateTimeToUtc :: "zone_env \<Rightarrow> jstring \<Rightarrow> jstring \<Rightarrow> date_error + jstring" where
  "localDateTimeToUtc Z v z =
     (case local_match v of
        None \<Rightarrow> Inl (Message_error date_message)
      | Some p \<Rightarrow>
          (let wall = utc_of_parts p
           in bind_r (local_step Z z wall wall) (\<lambda>c1. bind_r (local_step Z z wall c1) (\<lambda>c2. bind_r (local_step Z z wall c2)
                (\<lambda>c3. bind_r (utcToLocalDateTime Z (new_date c3) z)
                   (\<lambda>r. if r \<noteq> v then Inl (Message_error gap_message)
                        else (case new_date c3 of None \<Rightarrow> Inl Range_error | Some t \<Rightarrow> Inr (iso_string t))))))))"

section \<open>Both loops compute the same\<close>

lemma local_step_zoned:
  assumes "valid_zone Z z"
  shows "bind_r (local_step Z z wall c) (\<lambda>x. Inr (new_date x)) = zoned_step Z z wall (new_date c)"
proof -
  have "new_date (case c of None \<Rightarrow> None | Some x \<Rightarrow> map_option ((+) x) (date_minus wall u))
      = new_date (date_minus wall (date_minus u (Some t)))" if "new_date c = Some t" for u t
  proof -
    from that have c: "c = Some t" by (auto simp: new_date_def time_clip_def split: option.splits if_splits)
    show ?thesis unfolding c by (cases wall; cases u) (simp_all add: date_minus_def new_date_def algebra_simps)
  qed
  then show ?thesis
    using assms
    by (cases "new_date c")
      (simp_all add: local_step_def zoned_step_def timezoneOffsetMs_def partsInTimeZone_def localParts_def format_parts_def)
qed

lemma local_loop_zoned:
  assumes "valid_zone Z z" "local_step Z z wall wall = Inr c1" "local_step Z z wall c1 = Inr c2"
    "local_step Z z wall c2 = Inr c3" "new_date wall = wall"
  shows "bind_r (zoned_step Z z wall wall) (\<lambda>c. bind_r (zoned_step Z z wall c) (zoned_step Z z wall)) = Inr (new_date c3)"
proof -
  have "zoned_step Z z wall wall = Inr (new_date c1)"
    using local_step_zoned [OF assms(1), of wall wall] assms(2,5) by simp
  moreover have "zoned_step Z z wall (new_date c1) = Inr (new_date c2)"
    using local_step_zoned [OF assms(1), of wall c1] assms(3) by simp
  moreover have "zoned_step Z z wall (new_date c2) = Inr (new_date c3)"
    using local_step_zoned [OF assms(1), of wall c2] assms(4) by simp
  ultimately show ?thesis by simp
qed

lemma utc_of_parts_clipped: "new_date (utc_of_parts p) = utc_of_parts p"
  by (auto simp: utc_of_parts_def date_utc_def new_date_def time_clip_def)

lemma conversion_inversion:
  assumes "localDateTimeToUtc Z v z = Inr s"
  obtains p t where "local_match v = Some p" "valid_zone Z z" "zonedDate Z p z = Inr (Some t)" "s = iso_string t"
    "utcToLocalDateTime Z (Some t) z = Inr v"
proof -
  from assms obtain p where p: "local_match v = Some p" by (auto simp: localDateTimeToUtc_def split: option.splits)
  define wall where "wall = utc_of_parts p"
  from assms p obtain c1 c2 c3 where c: "local_step Z z wall wall = Inr c1" "local_step Z z wall c1 = Inr c2"
    "local_step Z z wall c2 = Inr c3"
    and r: "utcToLocalDateTime Z (new_date c3) z = Inr v"
    and s: "(case new_date c3 of None \<Rightarrow> Inl Range_error | Some t \<Rightarrow> Inr (iso_string t)) = Inr s"
    by (auto simp: localDateTimeToUtc_def wall_def Let_def bind_r_ok split: if_splits)
  from s obtain t where t: "new_date c3 = Some t" "s = iso_string t" by (auto split: option.splits)
  have z: "valid_zone Z z" using r by (auto simp: utcToLocalDateTime_def localParts_def format_parts_def split: if_splits)
  have "zonedDate Z p z = Inr (Some t)"
    using local_loop_zoned [OF z c] utc_of_parts_clipped [of p] z t(1)
    by (simp add: zonedDate_def safeTimezone_def wall_def)
  then show ?thesis using that p z t r by simp
qed

section \<open>Three steps suffice\<close>

text \<open>
  Offsets are less than a day, and around a wall clock the offset changes at most once: the two facts about zones
  that the search for an instant relies on. Both are stated for whole seconds.
\<close>

definition offset_at :: "zone_env \<Rightarrow> jstring \<Rightarrow> int \<Rightarrow> int" where
  "offset_at Z z k = zone_offset Z z (1000 * k)"

definition bounded_zone :: "zone_env \<Rightarrow> jstring \<Rightarrow> bool" where
  "bounded_zone Z z \<longleftrightarrow> (\<forall>t. \<bar>zone_offset Z z t\<bar> < 86400)"

definition one_change :: "zone_env \<Rightarrow> jstring \<Rightarrow> int \<Rightarrow> bool" where
  \<comment> \<open>within a day of the second \<open>w\<close> the offset changes at most once\<close>
  "one_change Z z w \<longleftrightarrow> (\<exists>T a b. \<forall>k. \<bar>k - w\<bar> < 86400 \<longrightarrow> offset_at Z z k = (if k < T then a else b))"

definition correct_wall :: "zone_env \<Rightarrow> jstring \<Rightarrow> int \<Rightarrow> int" where
  \<comment> \<open>the three corrections, in whole seconds\<close>
  "correct_wall Z z w = w - offset_at Z z (w - offset_at Z z (w - offset_at Z z w))"

lemma offset_bound: "bounded_zone Z z \<Longrightarrow> \<bar>offset_at Z z k\<bar> < 86400"
  by (simp add: bounded_zone_def offset_at_def)

lemma correct_wall_near: "bounded_zone Z z \<Longrightarrow> \<bar>correct_wall Z z w - w\<bar> < 86400"
  using offset_bound [of Z z] by (simp add: correct_wall_def abs_minus_commute)

lemma correct_wall_finds:
  assumes b: "bounded_zone Z z" and one: "one_change Z z w" and k: "k + offset_at Z z k = w"
  shows "correct_wall Z z w + offset_at Z z (correct_wall Z z w) = w"
proof -
  obtain T p q where c: "\<And>j. \<bar>j - w\<bar> < 86400 \<Longrightarrow> offset_at Z z j = (if j < T then p else q)"
    using one unfolding one_change_def by blast
  define f where "f = offset_at Z z"
  have near: "\<bar>(w - f j) - w\<bar> < 86400" for j using offset_bound [OF b, of j] by (simp add: f_def)
  have val: "f (w - f j) = (if w - f j < T then p else q)" for j using c [OF near [of j]] by (simp add: f_def)
  have f0: "f w = (if w < T then p else q)" using c [of w] by (simp add: f_def)
  have kw: "k = w - f k" using k by (simp add: f_def)
  have fk: "f k = (if k < T then p else q)" using val [of k] kw by simp
  have "f (w - f (w - f (w - f w))) = f (w - f (w - f w))"
  proof (cases "k < T")
    case True
    then have "w - p < T" using fk kw by simp
    then show ?thesis using f0 val [of w] val [of "w - f w"] val [of "w - f (w - f w)"] by (auto split: if_splits)
  next
    case False
    then have "\<not> w - q < T" using fk kw by simp
    then show ?thesis using f0 val [of w] val [of "w - f w"] val [of "w - f (w - f w)"] by (auto split: if_splits)
  qed
  then show ?thesis by (simp add: correct_wall_def f_def)
qed

lemma correct_wall_steady:
  assumes "bounded_zone Z z" and "\<And>k. \<bar>k - w\<bar> < 86400 \<Longrightarrow> offset_at Z z k = a"
  shows "correct_wall Z z w = w - a"
  using assms(2) [of "w - offset_at Z z (w - offset_at Z z w)"] offset_bound [OF assms(1)]
  by (simp add: correct_wall_def)

lemma format_parts_second:
  "valid_zone Z z \<Longrightarrow> format_parts Z (Some (1000 * k)) z = Inr (fields_of_second (k + offset_at Z z k))"
  by (simp add: format_parts_def local_second_def offset_at_def)

lemma first_second: "day_from_year 101 = - 682638" "day_from_year 100 = - 683003"
  by (simp_all add: day_from_year_def)

lemma near_era:
  assumes "in_era w" "\<bar>k - w\<bar> < 86400"
  shows "86400 * day_from_year 100 \<le> k + x \<or> \<bar>x\<bar> \<ge> 86400" "k + x \<le> 8640000000000 \<or> \<bar>x\<bar> \<ge> 86400"
    "new_date (Some (1000 * k)) = Some (1000 * k)"
proof -
  have w: "- 58979923200 \<le> w" "w \<le> 8639999827200" using assms(1) by (simp_all add: in_era_def first_second)
  then show "86400 * day_from_year 100 \<le> k + x \<or> \<bar>x\<bar> \<ge> 86400" "k + x \<le> 8640000000000 \<or> \<bar>x\<bar> \<ge> 86400"
    using assms(2) unfolding first_second by linarith+
  have "\<bar>1000 * k\<bar> \<le> 8640000000000000" using w assms(2) by linarith
  then show "new_date (Some (1000 * k)) = Some (1000 * k)" by (simp add: new_date_def time_clip_def)
qed

lemma zoned_step_second:
  assumes "valid_zone Z z" "bounded_zone Z z" "in_era w" "\<bar>k - w\<bar> < 86400"
  shows "zoned_step Z z (Some (1000 * w)) (Some (1000 * k)) = Inr (Some (1000 * (w - offset_at Z z k)))"
proof -
  have o: "\<bar>offset_at Z z k\<bar> < 86400" using offset_bound [OF assms(2)] .
  have "86400 * day_from_year 100 \<le> k + offset_at Z z k" "k + offset_at Z z k \<le> 8640000000000"
    using near_era [OF assms(3,4)] o by (meson not_le)+
  then have u: "utc_of_parts (fields_of_second (k + offset_at Z z k)) = Some (1000 * (k + offset_at Z z k))"
    by (rule utc_of_fields)
  have "new_date (date_minus (Some (1000 * w)) (date_minus (Some (1000 * (k + offset_at Z z k))) (Some (1000 * k))))
      = new_date (Some (1000 * (w - offset_at Z z k)))"
    by (simp add: date_minus_def)
  also have "\<dots> = Some (1000 * (w - offset_at Z z k))" by (rule near_era(3) [OF assms(3)]) (use o in simp)
  finally show ?thesis
    unfolding zoned_step_def timezoneOffsetMs_def partsInTimeZone_def format_parts_second [OF assms(1)] bind_r_simps u
    by simp
qed

lemma local_step_second:
  assumes "valid_zone Z z" "bounded_zone Z z" "in_era w" "\<bar>k - w\<bar> < 86400"
  shows "local_step Z z (Some (1000 * w)) (Some (1000 * k)) = Inr (Some (1000 * (w - offset_at Z z k)))"
proof -
  have o: "\<bar>offset_at Z z k\<bar> < 86400" using offset_bound [OF assms(2)] .
  have "86400 * day_from_year 100 \<le> k + offset_at Z z k" "k + offset_at Z z k \<le> 8640000000000"
    using near_era [OF assms(3,4)] o by (meson not_le)+
  then have u: "utc_of_parts (fields_of_second (k + offset_at Z z k)) = Some (1000 * (k + offset_at Z z k))"
    by (rule utc_of_fields)
  have "new_date (Some (1000 * k)) = Some (1000 * k)"
    by (rule near_era(3) [OF assms(3,4)])
  then show ?thesis
    unfolding local_step_def localParts_def by (simp only: format_parts_second [OF assms(1)] bind_r_simps u) (simp add: date_minus_def)
qed

lemma zonedDate_second:
  assumes "valid_zone Z z" "bounded_zone Z z" "in_era w" "utc_of_parts p = Some (1000 * w)"
  shows "zonedDate Z p z = Inr (Some (1000 * correct_wall Z z w))"
  using zoned_step_second [OF assms(1-3), of w] zoned_step_second [OF assms(1-3), of "w - offset_at Z z w"]
    zoned_step_second [OF assms(1-3), of "w - offset_at Z z (w - offset_at Z z w)"] offset_bound [OF assms(2)] assms(1,4)
  by (simp add: zonedDate_def safeTimezone_def correct_wall_def)

lemma render_local_second: "utcToLocalDateTime Z (Some (1000 * k)) z
    = (if valid_zone Z z then Inr (render_local (fields_of_second (k + offset_at Z z k))) else Inl Range_error)"
  by (simp add: utcToLocalDateTime_def localParts_def format_parts_def local_second_def offset_at_def)

lemma conversion_second:
  assumes z: "valid_zone Z z" "bounded_zone Z z" and w: "in_era w"
    and v: "local_match v = Some p" "utc_of_parts p = Some (1000 * w)"
  shows "localDateTimeToUtc Z v z =
    (let k = correct_wall Z z w
     in if render_local (fields_of_second (k + offset_at Z z k)) = v then Inr (iso_string (1000 * k))
        else Inl (Message_error gap_message))"
proof -
  define k where "k = correct_wall Z z w"
  have near: "\<bar>k - w\<bar> < 86400" unfolding k_def by (rule correct_wall_near [OF z(2)])
  have "new_date (Some (1000 * k)) = Some (1000 * k)"
    by (rule near_era(3) [OF w near])
  moreover have s1: "local_step Z z (Some (1000 * w)) (Some (1000 * w)) = Inr (Some (1000 * (w - offset_at Z z w)))"
    by (rule local_step_second [OF z w]) simp
  moreover have s2: "local_step Z z (Some (1000 * w)) (Some (1000 * (w - offset_at Z z j)))
      = Inr (Some (1000 * (w - offset_at Z z (w - offset_at Z z j))))" for j
    by (rule local_step_second [OF z w]) (use offset_bound [OF z(2), of j] in simp)
  ultimately show ?thesis
    unfolding localDateTimeToUtc_def v option.case Let_def s1 bind_r_simps s2 correct_wall_def [symmetric] k_def [symmetric]
    using z(1) by (simp add: render_local_second)
qed

section \<open>Printed wall clocks\<close>

lemma digit_string: "n < 10 \<Longrightarrow> show_nat n = [48 + n]"
  by (subst show_nat.simps) simp

lemma pad2_digits: "n < 100 \<Longrightarrow> pad2 n = [48 + n div 10, 48 + n mod 10]"
  by (cases "n < 10") (simp_all add: pad2_def digit_string show_nat.simps [of n])

lemma read_pad2: "n < 100 \<Longrightarrow> read_nat 0 [48 + n div 10, 48 + n mod 10] = n"
  by simp

lemma list4: "length xs = 4 \<Longrightarrow> \<exists>a b c d. xs = [a, b, c, d]"
proof -
  assume "length xs = 4"
  then have "length xs = Suc (Suc (Suc (Suc 0)))" by simp
  then show ?thesis unfolding length_Suc_conv by auto
qed

lemma match_rendered:
  assumes "0 \<le> p_year p" "0 \<le> p_month p" "p_month p < 100" "0 \<le> p_day p" "p_day p < 100"
    "0 \<le> p_hour p" "p_hour p < 100" "0 \<le> p_minute p" "p_minute p < 100"
    and "localPattern (render_local p)"
  shows "local_match (render_local p) = Some (p\<lparr>p_second := 0\<rparr>)"
proof -
  define y m d h mi where n: "y = nat (p_year p)" "m = nat (p_month p)" "d = nat (p_day p)" "h = nat (p_hour p)"
    "mi = nat (p_minute p)"
  have b: "m < 100" "d < 100" "h < 100" "mi < 100" using assms n by auto
  have r: "render_local p = show_nat y @ 45 # [48 + m div 10, 48 + m mod 10] @ 45 # [48 + d div 10, 48 + d mod 10]
      @ 84 # [48 + h div 10, 48 + h mod 10] @ 58 # [48 + mi div 10, 48 + mi mod 10]"
    using assms(1) b by (simp add: render_local_def pad2_int_def n [symmetric] pad2_digits show_int_def)
  have "length (show_nat y) = 4" using assms(10) unfolding localPattern_def r by simp
  then obtain a b c e where Y: "show_nat y = [a, b, c, e]" using list4 by blast
  have ry: "read_nat 0 [a, b, c, e] = y" using read_show_nat [of y] Y by simp
  have "number_at 0 4 (render_local p) = int y" unfolding r Y number_at_def using ry by simp
  moreover have "number_at 5 2 (render_local p) = int m" unfolding r Y number_at_def using read_pad2 [OF \<open>m < 100\<close>] by simp
  moreover have "number_at 8 2 (render_local p) = int d" unfolding r Y number_at_def using read_pad2 [OF \<open>d < 100\<close>] by simp
  moreover have "number_at 11 2 (render_local p) = int h" unfolding r Y number_at_def using read_pad2 [OF \<open>h < 100\<close>] by simp
  moreover have "number_at 14 2 (render_local p) = int mi" unfolding r Y number_at_def using read_pad2 [OF \<open>mi < 100\<close>] by simp
  ultimately show ?thesis using assms by (simp add: local_match_def n)
qed

lemma fields_range:
  "0 \<le> p_year (fields_of_second s)" "1 \<le> p_month (fields_of_second s)" "p_month (fields_of_second s) \<le> 12"
  "1 \<le> p_day (fields_of_second s)" "p_day (fields_of_second s) \<le> 31"
  "0 \<le> p_hour (fields_of_second s)" "p_hour (fields_of_second s) < 24"
  "0 \<le> p_minute (fields_of_second s)" "p_minute (fields_of_second s) < 60"
proof -
  have r: "0 \<le> s mod 86400" "s mod 86400 < 86400" by simp_all
  then have "s mod 86400 div 3600 < 24" "0 \<le> s mod 86400 div 3600"
    using div_between [of 3600 "s mod 86400"] by (simp_all add: pos_imp_zdiv_nonneg_iff)
  then show "0 \<le> p_hour (fields_of_second s)" "p_hour (fields_of_second s) < 24"
    by (simp_all add: fields_of_second_def Let_def)
  show "0 \<le> p_minute (fields_of_second s)" "p_minute (fields_of_second s) < 60"
    by (simp_all add: fields_of_second_def Let_def)
  show "0 \<le> p_year (fields_of_second s)" by (simp add: fields_of_second_def Let_def shown_year_def)
  show "1 \<le> p_month (fields_of_second s)" "p_month (fields_of_second s) \<le> 12"
    using utc_month_range [of "s div 86400"] by (simp_all add: fields_of_second_def Let_def)
  show "1 \<le> p_day (fields_of_second s)" "p_day (fields_of_second s) \<le> 31"
    using utc_date_range [of "s div 86400"] by (simp_all add: fields_of_second_def Let_def)
qed

lemma match_fields:
  "localPattern (render_local (fields_of_second s)) \<Longrightarrow>
     local_match (render_local (fields_of_second s)) = Some (fields_of_second s\<lparr>p_second := 0\<rparr>)"
  using fields_range [of s] by (intro match_rendered) auto

lemma full_minute: "s mod 60 = 0 \<Longrightarrow> fields_of_second s\<lparr>p_second := 0\<rparr> = fields_of_second s"
  by (simp add: fields_of_second_def Let_def mod_mod_cancel)

section \<open>The properties\<close>

lemma conversion_complete:
  assumes z: "valid_zone Z z" "bounded_zone Z z" and one: "one_change Z z w"
    and w: "in_era w" "w mod 60 = 0" and k: "k + offset_at Z z k = w"
    and v: "localPattern v" "utcToLocalDateTime Z (Some (1000 * k)) z = Inr v"
  shows "localDateTimeToUtc Z v z = Inr (iso_string (1000 * correct_wall Z z w))"
proof -
  have r: "v = render_local (fields_of_second w)" using v(2) z(1) k by (simp add: render_local_second)
  have m: "local_match v = Some (fields_of_second w)"
    using match_fields [of w] v(1) full_minute [OF w(2)] by (simp add: r)
  have "day_from_year 100 \<le> day_from_year 101" by (simp add: first_second)
  then have "86400 * day_from_year 100 \<le> w" "w \<le> 8640000000000" using w(1) by (auto simp: in_era_def)
  then have "utc_of_parts (fields_of_second w) = Some (1000 * w)" by (rule utc_of_fields)
  from conversion_second [OF z w(1) m this] correct_wall_finds [OF z(2) one k]
  show ?thesis by (simp add: r)
qed

text \<open>Zones for evaluations: a fixed offset, and one that advances by an hour at a given second.\<close>

definition sample_zone :: "int \<Rightarrow> int \<Rightarrow> int \<Rightarrow> zone_env" where
  "sample_zone T a b = \<lparr>valid_zone = (\<lambda>z. True), zone_offset = (\<lambda>z t. if t < 1000 * T then a else b), parse_date = (\<lambda>s. None)\<rparr>"

lemma sample_zone_simps [simp]:
  "valid_zone (sample_zone T a b) z" "offset_at (sample_zone T a b) z k = (if k < T then a else b)"
  "parse_date (sample_zone T a b) s = None" "zone_offset (sample_zone T a b) z t = (if t < 1000 * T then a else b)"
  by (simp_all add: sample_zone_def offset_at_def)

lemma sample_zone_bounded: "\<bar>a\<bar> < 86400 \<Longrightarrow> \<bar>b\<bar> < 86400 \<Longrightarrow> bounded_zone (sample_zone T a b) z"
  by (simp add: bounded_zone_def)

lemma sample_zone_one_change: "one_change (sample_zone T a b) z w"
  unfolding one_change_def by (intro exI [of _ T] exI [of _ a] exI [of _ b]) simp

text \<open>C17. Reading a local date and time: an accepted value is answered by an instant whose local time in the zone is the
  value itself, and the calendar computes the same instant for the same fields; and whenever some instant of the zone shows the value (at a full minute), the three corrections find
  one with the same wall clock, provided the offset changes at most once within a day of it. A value that is not a
  local date and time is refused with the message about the input.\<close>

theorem local_time_conversion:
  assumes "valid_zone Z z" "bounded_zone Z z" "one_change Z z (k + offset_at Z z k)"
  shows "(\<forall>s. localDateTimeToUtc Z v z = Inr s \<longrightarrow>
      (\<exists>p t. s = iso_string t \<and> utcToLocalDateTime Z (Some t) z = Inr v
        \<and> local_match v = Some p \<and> zonedDate Z p z = Inr (Some t)))
    \<and> (localPattern v \<and> utcToLocalDateTime Z (Some (1000 * k)) z = Inr v
        \<and> in_era (k + offset_at Z z k) \<and> (k + offset_at Z z k) mod 60 = 0 \<longrightarrow>
      (\<exists>j. localDateTimeToUtc Z v z = Inr (iso_string (1000 * j)) \<and> j + offset_at Z z j = k + offset_at Z z k))
    \<and> (\<not> localPattern v \<longrightarrow> localDateTimeToUtc Z v z = Inl (Message_error date_message))"
proof (intro conjI allI impI)
  fix s
  assume "localDateTimeToUtc Z v z = Inr s"
  then show "\<exists>p t. s = iso_string t \<and> utcToLocalDateTime Z (Some t) z = Inr v
      \<and> local_match v = Some p \<and> zonedDate Z p z = Inr (Some t)"
    by (meson conversion_inversion)
next
  assume v: "localPattern v \<and> utcToLocalDateTime Z (Some (1000 * k)) z = Inr v
      \<and> in_era (k + offset_at Z z k) \<and> (k + offset_at Z z k) mod 60 = 0"
  then have "localDateTimeToUtc Z v z = Inr (iso_string (1000 * correct_wall Z z (k + offset_at Z z k)))"
    by (elim conjE) (rule conversion_complete [OF assms _ _ refl]; assumption)
  moreover have "correct_wall Z z (k + offset_at Z z k) + offset_at Z z (correct_wall Z z (k + offset_at Z z k))
      = k + offset_at Z z k"
    by (rule correct_wall_finds [OF assms(2,3) refl])
  ultimately show "\<exists>j. localDateTimeToUtc Z v z = Inr (iso_string (1000 * j)) \<and> j + offset_at Z z j = k + offset_at Z z k"
    by blast
next
  assume "\<not> localPattern v"
  then show "localDateTimeToUtc Z v z = Inl (Message_error date_message)"
    by (simp add: localDateTimeToUtc_def local_match_def)
qed

lemma show_2024: "show_nat 2024 = lit ''2024''"
  by (simp add: show_nat.simps [of 2024] show_nat.simps [of 202] show_nat.simps [of 20] digit_string lit_def)

lemma day_19813: "utc_year 19813 = 2024" "utc_month 19813 = 2" "utc_date 19813 = 31"
proof -
  show y: "utc_year 19813 = 2024" by (simp add: utc_year_def year_from_day_def day_from_year_def)
  show m: "utc_month 19813 = 2" by (simp add: utc_month_def y day_from_year_def leap_def month_index_def)
  show "utc_date 19813 = 31" by (simp add: utc_date_def y m leap_def day_from_year_def)
qed

lemma fields_1711855800:
  "fields_of_second 1711855800 = \<lparr>p_year = 2024, p_month = 3, p_day = 31, p_hour = 3, p_minute = 30, p_second = 0\<rparr>"
  by (simp add: fields_of_second_def shown_year_def day_19813)

lemma rendered_1711855800: "render_local (fields_of_second 1711855800) = lit ''2024-03-31T03:30''"
  by (simp add: fields_1711855800 render_local_def show_int_def show_2024 pad2_int_def pad2_digits) (simp add: lit_def)

lemma sample_pattern: "localPattern (lit ''2024-03-31T03:30'')"
  by (simp add: localPattern_def lit_def is_digit_def)

lemma sample_shown:
  "utcToLocalDateTime (sample_zone 1711846800 3600 7200) (Some (1000 * 1711848600)) [] = Inr (lit ''2024-03-31T03:30'')"
  unfolding render_local_second using rendered_1711855800 by simp

lemma sample_in_era: "in_era 1711855800"
  by (simp add: in_era_def first_second)

lemma local_time_conversion_witness:
  "\<exists>j. localDateTimeToUtc (sample_zone 1711846800 3600 7200) (lit ''2024-03-31T03:30'') [] = Inr (iso_string (1000 * j))
     \<and> j + offset_at (sample_zone 1711846800 3600 7200) [] j = 1711855800"
  using local_time_conversion [of "sample_zone 1711846800 3600 7200" "[]" 1711848600 "lit ''2024-03-31T03:30''"]
    sample_shown sample_pattern sample_in_era
  by (simp add: sample_zone_bounded sample_zone_one_change)

end
