(* ===== verification/Calendar.thy ===== *)
theory Calendar
  imports Local_Time
begin

text \<open>
  The calendar of the web client (\<open>user-web/src/calendar.ts\<close>): ranges and days of the month, week, day and list
  views, navigation, the events of a range and of a day, titles and date keys. While the offset of the zone does
  not change, local days are intervals of 86400 seconds that follow one another; the lemmas reduce every operation to
  day numbers, and the properties show what the grids consist of and that no event of a range is lost in them.
\<close>

section \<open>Views and ranges\<close>

datatype calendar_view = View_month | View_week | View_day | View_list

record calendar_range =
  range_start :: jsdate
  range_end :: jsdate

definition DEFAULT_CALENDAR_LOCALE :: jstring where
  "DEFAULT_CALENDAR_LOCALE = lit ''ko-KR''"

definition normalizeCalendarPreferences ::
    "(jstring \<Rightarrow> jstring list option) \<Rightarrow> zone_env \<Rightarrow> jstring \<Rightarrow> jstring \<Rightarrow> jstring \<times> jstring" where
  \<comment> \<open>\<open>canonical\<close> is \<open>Intl.getCanonicalLocales\<close>, \<open>None\<close> where it raises\<close>
  "normalizeCalendarPreferences canonical Z locale z =
     ((case canonical locale of Some (l # ls) \<Rightarrow> l | _ \<Rightarrow> DEFAULT_CALENDAR_LOCALE),
      (if valid_zone Z z then z else DEFAULT_CALENDAR_TIMEZONE))"

lemma safeTimezone_normalized:
  "safeTimezone Z z = snd (normalizeCalendarPreferences canonical Z DEFAULT_CALENDAR_LOCALE z)"
  by (simp add: safeTimezone_def normalizeCalendarPreferences_def)

definition day_parts :: "int \<Rightarrow> int \<Rightarrow> int \<Rightarrow> date_parts" where
  \<comment> \<open>the fields given to \<open>zonedDate\<close> without a time\<close>
  "day_parts y m d = \<lparr>p_year = y, p_month = m, p_day = d, p_hour = 0, p_minute = 0, p_second = 0\<rparr>"

definition date_day :: "int \<Rightarrow> int" where "date_day t = t div 86400000"

definition set_utc_date_by :: "jsdate \<Rightarrow> int \<Rightarrow> jsdate" where
  \<comment> \<open>\<open>d.setUTCDate(d.getUTCDate() + amount)\<close>\<close>
  "set_utc_date_by d amount =
     (case d of None \<Rightarrow> None
      | Some t \<Rightarrow> (let n = date_day t
           in time_clip (86400000 * make_day (utc_year n) (utc_month n) (utc_date n + amount) + t mod 86400000)))"

definition utc_parts :: "int \<Rightarrow> date_parts" where
  \<comment> \<open>the UTC fields of a date; its year has a sign\<close>
  "utc_parts t =
     (let n = date_day t; r = t mod 86400000
      in \<lparr>p_year = utc_year n, p_month = utc_month n + 1, p_day = utc_date n, p_hour = r div 3600000,
          p_minute = r div 60000 mod 60, p_second = r div 1000 mod 60\<rparr>)"

definition month_shift :: "date_parts \<Rightarrow> int \<Rightarrow> date_parts option" where
  \<comment> \<open>the branch \<open>unit === "month"\<close>; \<open>None\<close> where the last day is NaN\<close>
  "month_shift p amount =
     (let target = p_year p * 12 + (p_month p - 1) + amount;
          year = target div 12;
          monthIndex = (target mod 12 + 12) mod 12
      in case date_utc year (monthIndex + 1) 0 0 0 0 of
           None \<Rightarrow> None
         | Some t \<Rightarrow> Some (p\<lparr>p_year := year, p_month := monthIndex + 1, p_day := min (p_day p) (utc_date (date_day t))\<rparr>))"

definition day_shift :: "date_parts \<Rightarrow> int \<Rightarrow> date_parts option" where
  \<comment> \<open>the other branch; \<open>None\<close> where the carrier is invalid\<close>
  "day_shift p amount = map_option utc_parts (set_utc_date_by (utc_of_parts p) amount)"

definition shiftedParts ::
    "zone_env \<Rightarrow> jsdate \<Rightarrow> int \<Rightarrow> bool \<Rightarrow> jstring \<Rightarrow> date_error + date_parts option" where
  \<comment> \<open>the flag tells the unit month from the unit day\<close>
  "shiftedParts Z d amount by_month z =
     bind_r (partsInTimeZone Z d z) (\<lambda>p. Inr (if by_month then month_shift p amount else day_shift p amount))"

definition zoned_shifted :: "zone_env \<Rightarrow> date_parts option \<Rightarrow> jstring \<Rightarrow> date_error + jsdate" where
  \<comment> \<open>\<open>zonedDate\<close> of fields that may be NaN: the target is then invalid and the first correction raises\<close>
  "zoned_shifted Z p z = (case p of None \<Rightarrow> Inl Range_error | Some q \<Rightarrow> zonedDate Z q z)"

definition addZonedDays :: "zone_env \<Rightarrow> jsdate \<Rightarrow> int \<Rightarrow> jstring \<Rightarrow> date_error + jsdate" where
  "addZonedDays Z d amount z0 =
     (let z = safeTimezone Z z0 in bind_r (shiftedParts Z d amount False z) (\<lambda>p. zoned_shifted Z p z))"

definition utc_week_day :: "jsdate \<Rightarrow> int option" where
  "utc_week_day d = map_option (\<lambda>t. week_day (date_day t)) d"

definition back_to_sunday :: "zone_env \<Rightarrow> jsdate \<Rightarrow> int option \<Rightarrow> jstring \<Rightarrow> date_error + jsdate" where
  \<comment> \<open>\<open>addZonedDays(d, -weekday)\<close>\<close>
  "back_to_sunday Z d weekday z =
     (case weekday of None \<Rightarrow> Inl Range_error | Some k \<Rightarrow> addZonedDays Z d (- k) z)"

definition getCalendarRange ::
    "zone_env \<Rightarrow> calendar_view \<Rightarrow> jsdate \<Rightarrow> jstring \<Rightarrow> date_error + calendar_range" where
  "getCalendarRange Z view base z0 =
     (let z = safeTimezone Z z0
      in bind_r (partsInTimeZone Z base z) (\<lambda>p.
           if view = View_month \<or> view = View_list
           then bind_r (zonedDate Z (day_parts (p_year p) (p_month p) 1) z) (\<lambda>start.
                bind_r (zonedDate Z (day_parts (if p_month p = 12 then p_year p + 1 else p_year p)
                     (if p_month p = 12 then 1 else p_month p + 1) 1) z) (\<lambda>end'.
                Inr \<lparr>range_start = start, range_end = end'\<rparr>))
           else bind_r (zonedDate Z (day_parts (p_year p) (p_month p) (p_day p)) z) (\<lambda>dayStart.
             if view = View_day
             then bind_r (addZonedDays Z dayStart 1 z) (\<lambda>end'. Inr \<lparr>range_start = dayStart, range_end = end'\<rparr>)
             else bind_r (back_to_sunday Z dayStart
                    (utc_week_day (date_utc (p_year p) (p_month p - 1) (p_day p) 0 0 0)) z) (\<lambda>start.
                  bind_r (addZonedDays Z start 7 z) (\<lambda>end'. Inr \<lparr>range_start = start, range_end = end'\<rparr>)))))"

definition navigateCalendarDate ::
    "zone_env \<Rightarrow> jsdate \<Rightarrow> calendar_view \<Rightarrow> int \<Rightarrow> jstring \<Rightarrow> date_error + jsdate" where
  "navigateCalendarDate Z base view direction z0 =
     (let z = safeTimezone Z z0;
          amount = (if view = View_week then direction * 7 else direction)
      in bind_r (shiftedParts Z base amount (view = View_month \<or> view = View_list) z) (\<lambda>p. zoned_shifted Z p z))"

definition calendarDays :: "zone_env \<Rightarrow> calendar_view \<Rightarrow> jsdate \<Rightarrow> jstring \<Rightarrow> date_error + jsdate list" where
  "calendarDays Z view base z0 =
     (let z = safeTimezone Z z0
      in bind_r (getCalendarRange Z view base z) (\<lambda>r.
           if view = View_day then Inr [range_start r]
           else if view = View_week then map_r (\<lambda>i. addZonedDays Z (range_start r) (int i) z) [0..<7]
           else bind_r (partsInTimeZone Z (range_start r) z) (\<lambda>p.
                bind_r (back_to_sunday Z (range_start r) (utc_week_day (date_utc (p_year p) (p_month p - 1) 1 0 0 0)) z)
                  (\<lambda>gridStart. map_r (\<lambda>i. addZonedDays Z gridStart (int i) z) [0..<42]))))"

definition dateKey :: "zone_env \<Rightarrow> jsdate \<Rightarrow> jstring \<Rightarrow> date_error + jstring" where
  "dateKey Z d z0 =
     bind_r (partsInTimeZone Z d (safeTimezone Z z0)) (\<lambda>p.
       Inr (show_int (p_year p) @ 45 # pad2_int (p_month p) @ 45 # pad2_int (p_day p)))"

definition getCalendarListRange ::
    "zone_env \<Rightarrow> jsdate \<Rightarrow> jsdate option \<Rightarrow> jstring \<Rightarrow> date_error + calendar_range" where
  "getCalendarListRange Z base focused z =
     (case focused of Some d \<Rightarrow> getCalendarRange Z View_day d (safeTimezone Z z)
      | None \<Rightarrow> getCalendarRange Z View_list base (safeTimezone Z z))"

definition navigateCalendarListDate :: "zone_env \<Rightarrow> jsdate \<Rightarrow> int \<Rightarrow> jstring \<Rightarrow> date_error + jsdate" where
  "navigateCalendarListDate Z focused direction z =
     navigateCalendarDate Z focused View_day direction (safeTimezone Z z)"

section \<open>Events\<close>

text \<open>The fields of a schedule that the calendar and the form read.\<close>

record workspace_schedule =
  s_id :: jstring
  s_title :: jstring
  s_starts_at :: jstring
  s_ends_at :: jstring
  s_description :: jstring
  s_location :: jstring
  s_attendees :: "jstring list"
  s_repeat_type :: jstring
  s_repeat_until :: "jstring option"
  s_alert_minutes :: "int list"
  s_timezone :: jstring
  s_calendar_id :: jstring

definition eventIntersectsRange :: "zone_env \<Rightarrow> workspace_schedule \<Rightarrow> calendar_range \<Rightarrow> bool" where
  \<comment> \<open>comparisons with NaN are false\<close>
  "eventIntersectsRange Z event r =
     (case (parse_date Z (s_starts_at event), parse_date Z (s_ends_at event), range_start r, range_end r) of
        (Some st, Some en, Some lo, Some hi) \<Rightarrow> st < hi \<and> en > lo
      | _ \<Rightarrow> False)"

definition event_time :: "zone_env \<Rightarrow> workspace_schedule \<Rightarrow> int" where
  \<comment> \<open>the sort key of the events kept, whose starts are finite\<close>
  "event_time Z event = (case parse_date Z (s_starts_at event) of None \<Rightarrow> 0 | Some t \<Rightarrow> t)"

definition filterCalendarEvents ::
    "js_env \<Rightarrow> zone_env \<Rightarrow> workspace_schedule list \<Rightarrow> calendar_range \<Rightarrow> jstring \<Rightarrow> workspace_schedule list" where
  "filterCalendarEvents E Z events r query =
     (let needle = js_lower E (js_trim query)
      in sort_key (event_time Z)
           (filter (\<lambda>e. needle = [] \<or> js_includes (js_lower E (js_trim (s_title e @ 32 # s_description e))) needle)
             (filter (\<lambda>e. eventIntersectsRange Z e r) events)))"

definition eventsForDay ::
    "zone_env \<Rightarrow> workspace_schedule list \<Rightarrow> jsdate \<Rightarrow> jstring \<Rightarrow> date_error + workspace_schedule list" where
  \<comment> \<open>the end of the day is computed for every event, so nothing raises without events\<close>
  "eventsForDay Z events day z0 =
     (let z = safeTimezone Z z0
      in bind_r (map_r (\<lambda>e. bind_r (addZonedDays Z day 1 z) (\<lambda>next.
           Inr (eventIntersectsRange Z e \<lparr>range_start = day, range_end = next\<rparr>))) events)
         (\<lambda>bs. Inr (map fst (filter snd (zip events bs)))))"

section \<open>Titles\<close>

datatype title_style = Year_month | Full_day | Range_from | Range_to

text \<open>\<open>intl\<close> is \<open>new Intl.DateTimeFormat(locale, options).format(date)\<close> for the four sets of options the code uses.\<close>

definition formatCalendarRangeTitle ::
    "(jstring \<Rightarrow> jstring list option) \<Rightarrow> (title_style \<Rightarrow> jstring \<Rightarrow> jstring \<Rightarrow> jsdate \<Rightarrow> date_error + jstring) \<Rightarrow>
     zone_env \<Rightarrow> calendar_view \<Rightarrow> jsdate \<Rightarrow> jstring \<Rightarrow> jstring \<Rightarrow> date_error + jstring" where
  "formatCalendarRangeTitle canonical intl Z view base locale0 z0 =
     (let (locale, z) = normalizeCalendarPreferences canonical Z locale0 z0
      in if view = View_month \<or> view = View_list then intl Year_month locale z base
         else if view = View_day then intl Full_day locale z base
         else bind_r (getCalendarRange Z View_week base z) (\<lambda>r.
           bind_r (intl Range_from locale z (range_start r)) (\<lambda>startLabel.
           bind_r (intl Range_to locale z (new_date (date_minus (range_end r) (Some 1)))) (\<lambda>endLabel.
           Inr (startLabel @ [32, 8211, 32] @ endLabel)))))"

definition formatCalendarListTitle ::
    "(jstring \<Rightarrow> jstring list option) \<Rightarrow> (title_style \<Rightarrow> jstring \<Rightarrow> jstring \<Rightarrow> jsdate \<Rightarrow> date_error + jstring) \<Rightarrow>
     zone_env \<Rightarrow> jsdate \<Rightarrow> jsdate option \<Rightarrow> jstring \<Rightarrow> jstring \<Rightarrow> date_error + jstring" where
  "formatCalendarListTitle canonical intl Z base focused locale0 z0 =
     (let (locale, z) = normalizeCalendarPreferences canonical Z locale0 z0
      in case focused of Some d \<Rightarrow> formatCalendarRangeTitle canonical intl Z View_day d locale z
         | None \<Rightarrow> formatCalendarRangeTitle canonical intl Z View_list base locale z)"

section \<open>Local days without a change of the offset\<close>

definition steady_days :: "zone_env \<Rightarrow> jstring \<Rightarrow> int \<Rightarrow> int \<Rightarrow> int \<Rightarrow> bool" where
  \<comment> \<open>the offset is \<open>a\<close> from two days before the day \<open>lo\<close> to two days after \<open>hi\<close>, within the years 101 and 275759\<close>
  "steady_days Z z a lo hi \<longleftrightarrow>
     valid_zone Z z \<and> bounded_zone Z z \<and> day_from_year 101 \<le> lo \<and> hi \<le> 99999997
     \<and> (\<forall>u. 86400000 * (lo - 2) \<le> u \<and> u \<le> 86400000 * (hi + 2) \<longrightarrow> zone_offset Z z u = a)"

definition midnight :: "int \<Rightarrow> int \<Rightarrow> int" where
  \<comment> \<open>the instant at which the local day \<open>n\<close> begins\<close>
  "midnight a n = 1000 * (86400 * n - a)"

definition fields_of_day :: "int \<Rightarrow> date_parts" where
  "fields_of_day n = day_parts (utc_year n) (utc_month n + 1) (utc_date n)"

lemma steady_daysD:
  assumes "steady_days Z z a lo hi"
  shows "valid_zone Z z" "bounded_zone Z z" "safeTimezone Z z = z"
    "86400000 * (lo - 2) \<le> u \<Longrightarrow> u \<le> 86400000 * (hi + 2) \<Longrightarrow> zone_offset Z z u = a"
  using assms by (auto simp: steady_days_def safeTimezone_def)

lemma steady_offset: "steady_days Z z a lo hi \<Longrightarrow> lo \<le> hi \<Longrightarrow> \<bar>a\<bar> < 86400"
  using steady_daysD(4) [of Z z a lo hi "86400000 * lo"] steady_daysD(2)
  unfolding bounded_zone_def by fastforce

lemma fields_of_midnight: "0 < utc_year n \<Longrightarrow> fields_of_second (86400 * n) = fields_of_day n"
  by (simp add: fields_of_second_def fields_of_day_def day_parts_def shown_year_def)

lemma steady_year: "steady_days Z z a lo hi \<Longrightarrow> lo \<le> n \<Longrightarrow> 101 \<le> utc_year n"
  unfolding steady_days_def utc_year_ge by linarith

lemma utc_of_day:
  assumes "steady_days Z z a lo hi" "lo \<le> n" "n \<le> hi"
  shows "utc_of_parts (fields_of_day n) = Some (1000 * (86400 * n))"
proof -
  have "0 < utc_year n" using steady_year [OF assms(1,2)] by linarith
  moreover have "86400 * day_from_year 100 \<le> 86400 * n" "86400 * n \<le> 8640000000000"
    using assms by (auto simp: steady_days_def first_second)
  ultimately show ?thesis using utc_of_fields [of "86400 * n"] fields_of_midnight [of n] by simp
qed

lemma steady_at:
  assumes "steady_days Z z a lo hi" "lo \<le> n" "n \<le> hi" "\<bar>k - 86400 * n\<bar> < 172800"
  shows "offset_at Z z k = a"
  unfolding offset_at_def by (rule steady_daysD(4) [OF assms(1)]) (use assms(2-4) in \<open>simp_all add: abs_less_iff\<close>)

lemma zonedDate_day:
  assumes st: "steady_days Z z a lo hi" and n: "lo \<le> n" "n \<le> hi"
  shows "zonedDate Z (fields_of_day n) z = Inr (Some (midnight a n))"
proof -
  have "in_era (86400 * n)" using st n by (auto simp: steady_days_def in_era_def first_second)
  from zonedDate_second [OF steady_daysD(1,2) [OF st] this utc_of_day [OF st n]]
  have "zonedDate Z (fields_of_day n) z = Inr (Some (1000 * correct_wall Z z (86400 * n)))" .
  moreover have "correct_wall Z z (86400 * n) = 86400 * n - a"
    by (rule correct_wall_steady [OF steady_daysD(2) [OF st]]) (rule steady_at [OF st n], simp)
  ultimately show ?thesis by (simp add: midnight_def)
qed

lemma parts_of_midnight:
  assumes st: "steady_days Z z a lo hi" and n: "lo \<le> n" "n \<le> hi"
  shows "partsInTimeZone Z (Some (midnight a n)) z = Inr (fields_of_day n)"
proof -
  have "\<bar>a\<bar> < 86400" using steady_offset [OF st] n by simp
  then have "offset_at Z z (86400 * n - a) = a" by (intro steady_at [OF st n]) simp
  moreover have "0 < utc_year n" using steady_year [OF st n(1)] by linarith
  ultimately show ?thesis
    unfolding partsInTimeZone_def midnight_def format_parts_second [OF steady_daysD(1) [OF st]]
    by (simp add: fields_of_midnight)
qed

lemma day_shift_day:
  assumes "steady_days Z z a lo hi" "lo \<le> n" "n \<le> hi" "lo \<le> n + j" "n + j \<le> hi"
  shows "day_shift (fields_of_day n) j = Some (fields_of_day (n + j))"
proof -
  have b: "- 682638 \<le> n + j" "n + j \<le> 99999997" using assms by (auto simp: steady_days_def first_second)
  have "set_utc_date_by (Some (1000 * (86400 * n))) j = Some (86400000 * (n + j))"
    using b by (simp add: set_utc_date_by_def date_day_def Let_def make_day_add make_day_utc time_clip_def abs_le_iff)
  then show ?thesis
    unfolding day_shift_def utc_of_day [OF assms(1-3)]
    by (simp add: utc_parts_def date_day_def fields_of_day_def day_parts_def Let_def)
qed

lemma add_days:
  assumes "steady_days Z z a lo hi" "lo \<le> n" "n \<le> hi" "lo \<le> n + j" "n + j \<le> hi"
  shows "addZonedDays Z (Some (midnight a n)) j z = Inr (Some (midnight a (n + j)))"
  using assms
  by (simp add: addZonedDays_def steady_daysD(3) [OF assms(1)] shiftedParts_def parts_of_midnight [OF assms(1-3)]
      day_shift_day [OF assms] zoned_shifted_def zonedDate_day [OF assms(1,4,5)])

text \<open>The local day of an instant, and the first days of its month and of the next.\<close>

definition local_day :: "zone_env \<Rightarrow> jstring \<Rightarrow> int \<Rightarrow> int" where
  "local_day Z z t = local_second Z z t div 86400"

definition month_first :: "int \<Rightarrow> int" where
  "month_first n = civil_day (utc_year n) (utc_month n) 1"

definition month_next :: "int \<Rightarrow> int" where
  "month_next n = month_first n + days_in (leap (utc_year n)) (utc_month n)"

lemma local_day_between:
  assumes st: "steady_days Z z a lo hi" and n: "local_day Z z t = n" "lo \<le> n" "n \<le> hi"
  shows "midnight a n \<le> t \<and> t < midnight a (n + 1)"
proof -
  define q s where "q = t div 1000" and "s = q + zone_offset Z z t"
  have s: "86400 * n \<le> s" "s < 86400 * n + 86400"
    using div_between [of 86400 s] n(1) unfolding local_day_def local_second_def s_def q_def by simp_all
  have t: "1000 * q \<le> t" "t < 1000 * q + 1000" using div_between [of 1000 t] by (simp_all add: q_def)
  have "\<bar>zone_offset Z z t\<bar> < 86400" using steady_daysD(2) [OF st] by (simp add: bounded_zone_def)
  then have q: "86400 * n - 86400 < q" "q < 86400 * n + 172800" using s unfolding s_def by (simp_all add: abs_less_iff)
  have "86400000 * (lo - 2) \<le> t" "t \<le> 86400000 * (hi + 2)" using q t n(2,3) by simp_all
  then have "zone_offset Z z t = a" by (rule steady_daysD(4) [OF st])
  then show ?thesis using s t unfolding s_def midnight_def by simp
qed

lemma parts_of_instant:
  assumes st: "steady_days Z z a lo hi" and n: "local_day Z z t = n" "lo \<le> n"
  shows "\<exists>p. partsInTimeZone Z (Some t) z = Inr p \<and> p_year p = utc_year n \<and> p_month p = utc_month n + 1 \<and> p_day p = utc_date n"
proof -
  have "0 < utc_year n" using steady_year [OF st n(2)] by linarith
  then show ?thesis
    using steady_daysD(1) [OF st] n(1)
    by (simp add: partsInTimeZone_def format_parts_def fields_of_second_def local_day_def Let_def shown_year_def)
qed

lemma month_first_le: "month_first n \<le> n" "n < month_next n" "n - 30 \<le> month_first n" "month_next n \<le> month_first n + 31"
proof -
  have "n = month_first n + utc_date n - 1" using civil_day_utc [of n] by (simp add: month_first_def civil_day_def)
  with valid_utc [of n] days_in_bounds [of "leap (utc_year n)" "utc_month n"]
  show "month_first n \<le> n" "n < month_next n" "n - 30 \<le> month_first n" "month_next n \<le> month_first n + 31"
    by (simp_all add: valid_civil_def month_next_def)
qed

lemma month_interval: "month_first n \<le> d \<and> d < month_next n \<longleftrightarrow> utc_year d = utc_year n \<and> utc_month d = utc_month n"
proof
  assume d: "month_first n \<le> d \<and> d < month_next n"
  then have "valid_civil (utc_year n) (utc_month n) (d - month_first n + 1)"
    using utc_month_range [of n] by (simp add: valid_civil_def month_next_def)
  from utc_fields_civil [OF this] show "utc_year d = utc_year n \<and> utc_month d = utc_month n"
    by (simp add: month_first_def civil_day_def)
next
  assume "utc_year d = utc_year n \<and> utc_month d = utc_month n"
  then have "month_first n = month_first d" "month_next n = month_next d" by (simp_all add: month_next_def month_first_def)
  then show "month_first n \<le> d \<and> d < month_next n" using month_first_le [of d] by simp
qed

lemma month_first_fields: "fields_of_day (month_first n) = day_parts (utc_year n) (utc_month n + 1) 1"
  using utc_fields_civil [of "utc_year n" "utc_month n" 1] utc_month_range [of n] days_in_bounds [of "leap (utc_year n)" "utc_month n"]
  by (simp add: fields_of_day_def month_first_def valid_civil_def)

lemma month_next_civil:
  "month_next n = (if utc_month n = 11 then civil_day (utc_year n + 1) 0 1 else civil_day (utc_year n) (utc_month n + 1) 1)"
  using month_end [of "utc_month n" "leap (utc_year n)"] utc_month_range [of n]
  by (auto simp: month_next_def month_first_def civil_day_def day_from_year_Suc days_in_def)

lemma month_next_fields: "fields_of_day (month_next n) =
    day_parts (if utc_month n + 1 = 12 then utc_year n + 1 else utc_year n) (if utc_month n + 1 = 12 then 1 else utc_month n + 1 + 1) 1"
  using utc_fields_civil [of "utc_year n + 1" 0 1] utc_fields_civil [of "utc_year n" "utc_month n + 1" 1] utc_month_range [of n]
    days_in_bounds [of "leap (utc_year n)" "utc_month n + 1"]
  by (auto simp: fields_of_day_def month_next_civil valid_civil_def days_in_def add.commute)

section \<open>Ranges and grids\<close>

lemma month_range:
  assumes st: "steady_days Z z a lo hi" and n: "local_day Z z t = n" "lo + 30 \<le> n" "n + 31 \<le> hi"
    and v: "view = View_month \<or> view = View_list"
  shows "getCalendarRange Z view (Some t) z
    = Inr \<lparr>range_start = Some (midnight a (month_first n)), range_end = Some (midnight a (month_next n))\<rparr>"
proof -
  obtain p where p: "partsInTimeZone Z (Some t) z = Inr p" "p_year p = utc_year n" "p_month p = utc_month n + 1"
    using parts_of_instant [OF st n(1)] n(2) by auto
  have "zonedDate Z (day_parts (utc_year n) (utc_month n + 1) 1) z = Inr (Some (midnight a (month_first n)))"
    using zonedDate_day [OF st, of "month_first n"] month_first_le [of n] n by (simp add: month_first_fields)
  moreover have "zonedDate Z (day_parts (if utc_month n + 1 = 12 then utc_year n + 1 else utc_year n)
      (if utc_month n + 1 = 12 then 1 else utc_month n + 1 + 1) 1) z = Inr (Some (midnight a (month_next n)))"
    using zonedDate_day [OF st, of "month_next n"] month_first_le [of n] n by (simp only: month_next_fields)
  ultimately show ?thesis
    using v unfolding getCalendarRange_def steady_daysD(3) [OF st] Let_def p(1) bind_r_simps p(2,3)
    by (cases "utc_month n = 11") simp_all
qed

lemma day_start:
  assumes st: "steady_days Z z a lo hi" and n: "local_day Z z t = n" "lo \<le> n" "n \<le> hi"
  obtains p where "partsInTimeZone Z (Some t) z = Inr p"
    "zonedDate Z (day_parts (p_year p) (p_month p) (p_day p)) z = Inr (Some (midnight a n))"
    "utc_week_day (date_utc (p_year p) (p_month p - 1) (p_day p) 0 0 0) = Some (week_day n)"
proof -
  obtain p where p: "partsInTimeZone Z (Some t) z = Inr p" "p_year p = utc_year n" "p_month p = utc_month n + 1"
    "p_day p = utc_date n" using parts_of_instant [OF st n(1,2)] by auto
  have f: "day_parts (p_year p) (p_month p) (p_day p) = fields_of_day n" by (simp add: fields_of_day_def p)
  have "date_utc (p_year p) (p_month p - 1) (p_day p) 0 0 0 = Some (1000 * (86400 * n))"
    using utc_of_day [OF st n(2,3)] by (simp add: utc_of_parts_def fields_of_day_def day_parts_def p)
  then have "utc_week_day (date_utc (p_year p) (p_month p - 1) (p_day p) 0 0 0) = Some (week_day n)"
    by (simp add: utc_week_day_def date_day_def)
  with p(1) show ?thesis using that [of p] by (simp add: f zonedDate_day [OF st n(2,3)])
qed

lemma week_day_range: "0 \<le> week_day n" "week_day n < 7" "week_day (n - week_day n) = 0"
proof -
  show "0 \<le> week_day n" "week_day n < 7" by (simp_all add: week_day_def)
  have "n - week_day n + 4 = 7 * ((n + 4) div 7)"
    using minus_mod_eq_mult_div [of "n + 4" 7] by (simp add: week_day_def)
  then show "week_day (n - week_day n) = 0" by (simp add: week_day_def [of "n - week_day n"])
qed

lemma day_range:
  assumes st: "steady_days Z z a lo hi" and n: "local_day Z z t = n" "lo \<le> n" "n + 1 \<le> hi"
  shows "getCalendarRange Z View_day (Some t) z
    = Inr \<lparr>range_start = Some (midnight a n), range_end = Some (midnight a (n + 1))\<rparr>"
proof -
  have "n \<le> hi" using n by simp
  from day_start [OF st n(1,2) this] obtain p where "partsInTimeZone Z (Some t) z = Inr p"
    "zonedDate Z (day_parts (p_year p) (p_month p) (p_day p)) z = Inr (Some (midnight a n))" by metis
  then show ?thesis
    using add_days [OF st, of n 1] n by (simp add: getCalendarRange_def steady_daysD(3) [OF st])
qed

lemma week_range:
  assumes st: "steady_days Z z a lo hi" and n: "local_day Z z t = n" "lo + 6 \<le> n" "n + 7 \<le> hi"
  shows "getCalendarRange Z View_week (Some t) z
    = Inr \<lparr>range_start = Some (midnight a (n - week_day n)), range_end = Some (midnight a (n - week_day n + 7))\<rparr>"
proof -
  have b: "lo \<le> n" "n \<le> hi" using n by simp_all
  from day_start [OF st n(1) b] obtain p where p: "partsInTimeZone Z (Some t) z = Inr p"
    "zonedDate Z (day_parts (p_year p) (p_month p) (p_day p)) z = Inr (Some (midnight a n))"
    "utc_week_day (date_utc (p_year p) (p_month p - 1) (p_day p) 0 0 0) = Some (week_day n)" by metis
  have "addZonedDays Z (Some (midnight a n)) (- week_day n) z = Inr (Some (midnight a (n - week_day n)))"
    using add_days [OF st, of n "- week_day n"] week_day_range(1,2) [of n] n by simp
  moreover have "addZonedDays Z (Some (midnight a (n - week_day n))) 7 z = Inr (Some (midnight a (n - week_day n + 7)))"
    using week_day_range(1,2) [of n] n by (intro add_days [OF st]) simp_all
  ultimately show ?thesis
    using p by (simp add: getCalendarRange_def steady_daysD(3) [OF st] back_to_sunday_def)
qed

lemma add_days_list:
  assumes st: "steady_days Z z a lo hi" and g: "lo \<le> g" "g + int m \<le> hi + 1"
  shows "map_r (\<lambda>i. addZonedDays Z (Some (midnight a g)) (int i) z) [0..<m]
    = Inr (map (\<lambda>i. Some (midnight a (g + int i))) [0..<m])"
  unfolding map_r_ok list_all2_map2
  by (rule list.rel_refl_strong) (use add_days [OF st] g in simp)

definition grid_first :: "int \<Rightarrow> int" where
  \<comment> \<open>the Sunday on or before the first of the month of the day \<open>n\<close>\<close>
  "grid_first n = month_first n - week_day (month_first n)"

lemma grid_first_le: "grid_first n \<le> month_first n" "month_first n \<le> grid_first n + 6" "month_next n \<le> grid_first n + 37"
  using week_day_range(1,2) [of "month_first n"] month_first_le(4) [of n] by (simp_all add: grid_first_def)

lemma month_days:
  assumes st: "steady_days Z z a lo hi" and n: "local_day Z z t = n" "lo + 36 \<le> n" "n + 42 \<le> hi"
    and v: "view = View_month \<or> view = View_list"
  shows "calendarDays Z view (Some t) z = Inr (map (\<lambda>i. Some (midnight a (grid_first n + int i))) [0..<42])"
proof -
  define f where "f = month_first n"
  have f: "lo \<le> f" "f \<le> hi" "lo \<le> grid_first n" "grid_first n + int 42 \<le> hi + 1"
    using month_first_le [of n] grid_first_le [of n] n by (simp_all add: f_def)
  have r: "getCalendarRange Z view (Some t) z = Inr \<lparr>range_start = Some (midnight a f), range_end = Some (midnight a (month_next n))\<rparr>"
    unfolding f_def by (rule month_range [OF st n(1)]) (use n v in simp_all)
  have "f = civil_day (utc_year n) (utc_month n) 1" by (simp add: f_def month_first_def)
  then have ff: "fields_of_day f = day_parts (utc_year f) (utc_month f + 1) 1"
    using month_first_fields [of n] by (simp add: f_def fields_of_day_def day_parts_def)
  have "date_utc (utc_year f) (utc_month f) 1 0 0 0 = Some (1000 * (86400 * f))"
    using utc_of_day [OF st f(1,2)] unfolding ff by (simp add: utc_of_parts_def day_parts_def)
  then have wd: "utc_week_day (date_utc (p_year (fields_of_day f)) (p_month (fields_of_day f) - 1) 1 0 0 0) = Some (week_day f)"
    unfolding ff by (simp add: utc_week_day_def date_day_def day_parts_def)
  have "addZonedDays Z (Some (midnight a f)) (- week_day f) z = Inr (Some (midnight a (grid_first n)))"
    using add_days [OF st, of f "- week_day f"] f by (simp add: grid_first_def f_def)
  then have sunday: "back_to_sunday Z (Some (midnight a f)) (Some (week_day f)) z = Inr (Some (midnight a (grid_first n)))"
    by (simp add: back_to_sunday_def)
  show ?thesis
    using v add_days_list [OF st f(3,4)]
    by (auto simp: calendarDays_def steady_daysD(3) [OF st] r parts_of_midnight [OF st f(1,2)] wd sunday)
qed

lemma week_days:
  assumes st: "steady_days Z z a lo hi" and n: "local_day Z z t = n" "lo + 6 \<le> n" "n + 7 \<le> hi"
  shows "calendarDays Z View_week (Some t) z = Inr (map (\<lambda>i. Some (midnight a (n - week_day n + int i))) [0..<7])"
proof -
  have "lo \<le> n - week_day n" "n - week_day n + int 7 \<le> hi + 1"
    using week_day_range(1,2) [of n] n by simp_all
  from add_days_list [OF st this] show ?thesis
    by (simp add: calendarDays_def steady_daysD(3) [OF st] week_range [OF st n])
qed

section \<open>Events in the cells\<close>

lemma eventsForDay_cell:
  assumes st: "steady_days Z z a lo hi" and g: "lo \<le> g" "g + 1 \<le> hi"
  shows "eventsForDay Z events (Some (midnight a g)) z
    = Inr (filter (\<lambda>e. eventIntersectsRange Z e \<lparr>range_start = Some (midnight a g), range_end = Some (midnight a (g + 1))\<rparr>) events)"
proof -
  have one: "addZonedDays Z (Some (midnight a g)) 1 z = Inr (Some (midnight a (g + 1)))"
    using add_days [OF st, of g 1] g by simp
  show ?thesis by (simp add: eventsForDay_def steady_daysD(3) [OF st] one map_r_Inr filter_by_zip)
qed

lemma interval_meets_day:
  assumes "midnight a f \<le> u" "u < midnight a h"
  shows "\<exists>d. f \<le> d \<and> d < h \<and> midnight a d \<le> u \<and> u < midnight a (d + 1)"
proof -
  define d where "d = (u + 1000 * a) div 86400000"
  have d: "86400000 * d \<le> u + 1000 * a" "u + 1000 * a < 86400000 * d + 86400000"
    using div_between [of 86400000 "u + 1000 * a"] by (simp_all add: d_def)
  then have "midnight a d \<le> u" "u < midnight a (d + 1)" by (simp_all add: midnight_def)
  moreover have "f \<le> d" "d < h" using d assms unfolding midnight_def by simp_all
  ultimately show ?thesis by blast
qed

lemma interval_in_days:
  assumes "x < y" "x < midnight a h" "midnight a f < y" and "f < h"
  shows "\<exists>d. f \<le> d \<and> d < h \<and> x < midnight a (d + 1) \<and> midnight a d < y"
proof -
  have "midnight a f < midnight a h" using \<open>f < h\<close> by (simp add: midnight_def)
  then have "midnight a f \<le> max x (midnight a f)" "max x (midnight a f) < midnight a h" using assms by simp_all
  from interval_meets_day [OF this] obtain d where "f \<le> d" "d < h" "midnight a d \<le> max x (midnight a f)"
    "max x (midnight a f) < midnight a (d + 1)" by blast
  then show ?thesis using assms(1,3) by (intro exI [of _ d]) auto
qed

section \<open>The properties\<close>

definition seoul :: zone_env where
  "seoul = sample_zone 0 32400 32400\<lparr>parse_date := (\<lambda>s. if s = lit ''a'' then Some 1711926000000 else Some 1711929600000)\<rparr>"

lemma seoul_steady: "- 682638 \<le> lo \<Longrightarrow> hi \<le> 99999997 \<Longrightarrow> steady_days seoul z 32400 lo hi"
  by (simp add: steady_days_def seoul_def sample_zone_def bounded_zone_def first_second)

lemma seoul_day: "local_day seoul z 1711926000000 = 19814"
  by (simp add: local_day_def local_second_def seoul_def sample_zone_def)

text \<open>C18. The views of the calendar in a zone without a change of its offset around the day shown (\<open>steady_days\<close>: from
  thirty-six days before to forty-two days after it every local day has 24 hours; \<open>midnight_gap_repeats_day\<close> below shows that
  the claim fails otherwise). The day, the week and the month are the intervals of local midnights around it, each contains
  the instant it was built for, a week starts on a Sunday, the days of the month are exactly those of its year and month, and
  the month grid is forty-two local days in a row that starts on the Sunday on or before the first and covers the month.\<close>

theorem calendar_views:
  assumes st: "steady_days Z z a lo hi" and n: "local_day Z z t = n" "lo + 36 \<le> n" "n + 42 \<le> hi"
  shows "getCalendarRange Z View_day (Some t) z = Inr \<lparr>range_start = Some (midnight a n), range_end = Some (midnight a (n + 1))\<rparr>
    \<and> (\<exists>w. week_day w = 0 \<and> w \<le> n \<and> n < w + 7
        \<and> getCalendarRange Z View_week (Some t) z = Inr \<lparr>range_start = Some (midnight a w), range_end = Some (midnight a (w + 7))\<rparr>
        \<and> calendarDays Z View_week (Some t) z = Inr (map (\<lambda>i. Some (midnight a (w + int i))) [0..<7]))
    \<and> (\<exists>f g h. (\<forall>d. f \<le> d \<and> d < h \<longleftrightarrow> utc_year d = utc_year n \<and> utc_month d = utc_month n)
        \<and> getCalendarRange Z View_month (Some t) z = Inr \<lparr>range_start = Some (midnight a f), range_end = Some (midnight a h)\<rparr>
        \<and> week_day g = 0 \<and> g \<le> f \<and> f < g + 7 \<and> h \<le> g + 42
        \<and> calendarDays Z View_month (Some t) z = Inr (map (\<lambda>i. Some (midnight a (g + int i))) [0..<42]))
    \<and> midnight a n \<le> t \<and> t < midnight a (n + 1)
    \<and> (\<forall>d. lo \<le> d \<and> d \<le> hi \<longrightarrow> partsInTimeZone Z (Some (midnight a d)) z = Inr (fields_of_day d))"
proof (intro conjI)
  have b: "lo \<le> n" "n \<le> hi" using n by simp_all
  show "getCalendarRange Z View_day (Some t) z
      = Inr \<lparr>range_start = Some (midnight a n), range_end = Some (midnight a (n + 1))\<rparr>"
    by (rule day_range [OF st n(1)]) (use n in simp_all)
  show "\<exists>w. week_day w = 0 \<and> w \<le> n \<and> n < w + 7
      \<and> getCalendarRange Z View_week (Some t) z = Inr \<lparr>range_start = Some (midnight a w), range_end = Some (midnight a (w + 7))\<rparr>
      \<and> calendarDays Z View_week (Some t) z = Inr (map (\<lambda>i. Some (midnight a (w + int i))) [0..<7])"
    using week_range [OF st n(1)] week_days [OF st n(1)] week_day_range [of n] n
    by (intro exI [of _ "n - week_day n"]) simp
  show "\<exists>f g h. (\<forall>d. f \<le> d \<and> d < h \<longleftrightarrow> utc_year d = utc_year n \<and> utc_month d = utc_month n)
      \<and> getCalendarRange Z View_month (Some t) z = Inr \<lparr>range_start = Some (midnight a f), range_end = Some (midnight a h)\<rparr>
      \<and> week_day g = 0 \<and> g \<le> f \<and> f < g + 7 \<and> h \<le> g + 42
      \<and> calendarDays Z View_month (Some t) z = Inr (map (\<lambda>i. Some (midnight a (g + int i))) [0..<42])"
    using month_range [OF st n(1), of View_month] month_days [OF st n(1), of View_month] n month_interval [of n]
      grid_first_le [of n] week_day_range(3) [of "month_first n"]
    by (intro exI [of _ "month_first n"] exI [of _ "grid_first n"] exI [of _ "month_next n"]) (simp add: grid_first_def)
  show "midnight a n \<le> t" "t < midnight a (n + 1)" using local_day_between [OF st n(1) b] by simp_all
  show "\<forall>d. lo \<le> d \<and> d \<le> hi \<longrightarrow> partsInTimeZone Z (Some (midnight a d)) z = Inr (fields_of_day d)"
    using parts_of_midnight [OF st] by blast
qed

lemma calendar_views_witness:
  "getCalendarRange seoul View_day (Some 1711926000000) [] =
     Inr \<lparr>range_start = Some (midnight 32400 19814), range_end = Some (midnight 32400 19815)\<rparr>"
  using calendar_views [OF seoul_steady [of 0 30000] seoul_day] by simp

text \<open>C19. The month view shows its events, in a zone without a change of its offset around the month (\<open>steady_days\<close>, as
  above). The grid has a cell for each of forty-two local days, those of the month among them, and the cell of a day shows
  exactly the events that begin before the day ends and end after it begins, so an event of several days is in the cell of
  each of them and nothing is shown on another day. An event that meets the month and begins before it ends is on some day
  of the month.\<close>

theorem month_grid_shows_events:
  assumes st: "steady_days Z z a lo hi" and n: "local_day Z z t = n" "lo + 36 \<le> n" "n + 43 \<le> hi"
  shows "\<exists>g f h. calendarDays Z View_month (Some t) z = Inr (map (\<lambda>i. Some (midnight a (g + int i))) [0..<42])
    \<and> getCalendarRange Z View_month (Some t) z = Inr \<lparr>range_start = Some (midnight a f), range_end = Some (midnight a h)\<rparr>
    \<and> g \<le> f \<and> f \<le> n \<and> n < h \<and> h \<le> g + 42
    \<and> (\<forall>d. g \<le> d \<and> d < g + 42 \<longrightarrow>
         (\<exists>items. eventsForDay Z events (Some (midnight a d)) z = Inr items
            \<and> (\<forall>e. e \<in> set items \<longleftrightarrow> e \<in> set events
                 \<and> (\<exists>x y. parse_date Z (s_starts_at e) = Some x \<and> parse_date Z (s_ends_at e) = Some y
                      \<and> x < midnight a (d + 1) \<and> midnight a d < y))))
    \<and> (\<forall>x y. x < y \<and> x < midnight a h \<and> midnight a f < y \<longrightarrow>
         (\<exists>d. f \<le> d \<and> d < h \<and> x < midnight a (d + 1) \<and> midnight a d < y))"
proof -
  let ?g = "grid_first n" and ?f = "month_first n" and ?h = "month_next n"
  have "\<exists>items. eventsForDay Z events (Some (midnight a d)) z = Inr items
      \<and> (\<forall>e. e \<in> set items \<longleftrightarrow> e \<in> set events
           \<and> (\<exists>x y. parse_date Z (s_starts_at e) = Some x \<and> parse_date Z (s_ends_at e) = Some y
                \<and> x < midnight a (d + 1) \<and> midnight a d < y))" if "?g \<le> d" "d < ?g + 42" for d
  proof -
    have "lo \<le> d" "d + 1 \<le> hi" using that grid_first_le [of n] month_first_le [of n] n by linarith+
    from eventsForDay_cell [OF st this, of events] show ?thesis
      by (auto simp: eventIntersectsRange_def split: option.splits)
  qed
  moreover have "\<exists>d. ?f \<le> d \<and> d < ?h \<and> x < midnight a (d + 1) \<and> midnight a d < y"
    if "x < y" "x < midnight a ?h" "midnight a ?f < y" for x y
    by (rule interval_in_days [OF that]) (use month_first_le(1,2) [of n] in linarith)
  moreover have "calendarDays Z View_month (Some t) z = Inr (map (\<lambda>i. Some (midnight a (?g + int i))) [0..<42])"
    using month_days [OF st n(1), of View_month] n by simp
  moreover have "getCalendarRange Z View_month (Some t) z = Inr \<lparr>range_start = Some (midnight a ?f), range_end = Some (midnight a ?h)\<rparr>"
    using month_range [OF st n(1), of View_month] n by simp
  moreover have "?g \<le> ?f" "?f \<le> n" "n < ?h" "?h \<le> ?g + 42" using grid_first_le [of n] month_first_le [of n] by linarith+
  ultimately show ?thesis by blast
qed

definition sample_event :: workspace_schedule where
  "sample_event = \<lparr>s_id = [], s_title = [], s_starts_at = lit ''a'', s_ends_at = lit ''b'', s_description = [],
     s_location = [], s_attendees = [], s_repeat_type = [], s_repeat_until = None, s_alert_minutes = [],
     s_timezone = [], s_calendar_id = []\<rparr>"

lemma seoul_parse: "parse_date seoul (lit ''a'') = Some 1711926000000" "parse_date seoul (lit ''b'') = Some 1711929600000"
  by (simp_all add: seoul_def)

lemma sample_event_times:
  "parse_date seoul (s_starts_at sample_event) = Some 1711926000000" "parse_date seoul (s_ends_at sample_event) = Some 1711929600000"
  by (simp_all add: sample_event_def seoul_parse)

lemma month_grid_shows_events_witness:
  "\<exists>g d items. calendarDays seoul View_month (Some 1711926000000) [] = Inr (map (\<lambda>i. Some (midnight 32400 (g + int i))) [0..<42])
     \<and> g \<le> d \<and> d < g + 42 \<and> eventsForDay seoul [sample_event] (Some (midnight 32400 d)) [] = Inr items \<and> sample_event \<in> set items"
proof -
  have st: "steady_days seoul [] 32400 0 30000" by (rule seoul_steady) simp_all
  obtain g f h where m: "calendarDays seoul View_month (Some 1711926000000) [] = Inr (map (\<lambda>i. Some (midnight 32400 (g + int i))) [0..<42])"
      "g \<le> f" "f \<le> 19814" "19814 < h" "h \<le> g + 42"
    and items: "\<And>d. g \<le> d \<and> d < g + 42 \<Longrightarrow> \<exists>items. eventsForDay seoul [sample_event] (Some (midnight 32400 d)) [] = Inr items
        \<and> (\<forall>e. e \<in> set items \<longleftrightarrow> e \<in> set [sample_event]
             \<and> (\<exists>x y. parse_date seoul (s_starts_at e) = Some x \<and> parse_date seoul (s_ends_at e) = Some y
                  \<and> x < midnight 32400 (d + 1) \<and> midnight 32400 d < y))"
    using month_grid_shows_events [OF st seoul_day, of "[sample_event]"] by auto
  have d: "g \<le> 19814 \<and> 19814 < g + 42" using m by linarith
  from items [OF d] obtain items where i: "eventsForDay seoul [sample_event] (Some (midnight 32400 19814)) [] = Inr items"
    "sample_event \<in> set items \<longleftrightarrow> (\<exists>x y. parse_date seoul (s_starts_at sample_event) = Some x
       \<and> parse_date seoul (s_ends_at sample_event) = Some y \<and> x < midnight 32400 (19814 + 1) \<and> midnight 32400 19814 < y)" by auto
  have "sample_event \<in> set items" unfolding i(2) by (simp add: sample_event_times midnight_def)
  with m(1) d i(1) show ?thesis by (intro exI [of _ g] exI [of _ 19814] exI [of _ items]) simp
qed

text \<open>
  Where the clocks go forward at midnight in a zone east of Greenwich, the three corrections end before the change:
  the cell of that day is 23:00 of the day before, whose date key it repeats. The offset of the example is that of
  Cairo on 26 April 2024, when 00:00 became 01:00.
\<close>

lemma day_19839: "utc_year 19839 = 2024" "utc_month 19839 = 3" "utc_date 19839 = 26"
  "utc_year 19838 = 2024" "utc_month 19838 = 3" "utc_date 19838 = 25"
proof -
  show y: "utc_year 19839 = 2024" "utc_year 19838 = 2024"
    by (simp_all add: utc_year_def year_from_day_def day_from_year_def)
  show m: "utc_month 19839 = 3" "utc_month 19838 = 3"
    by (simp_all add: utc_month_def y day_from_year_def leap_def month_index_def)
  show "utc_date 19839 = 26" "utc_date 19838 = 25"
    by (simp_all add: utc_date_def y m leap_def day_from_year_def)
qed

lemma midnight_gap_repeats_day:
  "zonedDate (sample_zone 1714082400 7200 10800) (day_parts 2024 4 26) [] = Inr (Some 1714078800000)"
  "dateKey (sample_zone 1714082400 7200 10800) (Some 1714078800000) [] = Inr (lit ''2024-04-25'')"
proof -
  let ?Z = "sample_zone 1714082400 7200 10800"
  have "fields_of_second 1714089600 = day_parts 2024 4 26"
    using fields_of_midnight [of 19839] by (simp add: fields_of_day_def day_19839)
  then have "utc_of_parts (day_parts 2024 4 26) = Some (1000 * 1714089600)"
    using utc_of_fields [of 1714089600] by (simp add: first_second)
  from zonedDate_second [OF _ _ _ this, of ?Z "[]"]
  show "zonedDate ?Z (day_parts 2024 4 26) [] = Inr (Some 1714078800000)"
    by (simp add: sample_zone_bounded in_era_def first_second correct_wall_def)
  have "fields_of_second 1714086000 = \<lparr>p_year = 2024, p_month = 4, p_day = 25, p_hour = 23, p_minute = 0, p_second = 0\<rparr>"
    by (simp add: fields_of_second_def shown_year_def day_19839)
  then show "dateKey ?Z (Some 1714078800000) [] = Inr (lit ''2024-04-25'')"
    by (simp add: dateKey_def safeTimezone_def partsInTimeZone_def format_parts_def local_second_def show_int_def
        show_2024 pad2_int_def pad2_digits) (simp add: lit_def)
qed

end
