(* ===== verification/Schedule_Form.thy ===== *)
theory Schedule_Form
  imports Calendar "HOL-Library.Multiset"
begin

text \<open>
  The schedule form of the web client (\<open>user-web/src/scheduleForm.ts\<close>): drafts, the move of the start that keeps
  the duration, the checks before saving, and the expansion of a repeated schedule into the occurrences of a range.
  The expansion is related to a reference list of occurrences; what the form sends is read back as the local times
  the user saw.
\<close>

section \<open>Drafts\<close>

record schedule_draft =
  d_schedule_id :: "jstring option"
  d_title :: jstring
  d_starts_at :: jstring
  d_ends_at :: jstring
  d_location :: jstring
  d_attendees :: "jstring list"
  d_repeat_type :: jstring
  d_repeat_until :: jstring
  d_alert_minutes :: "int list"
  d_description :: jstring
  d_timezone :: jstring
  d_calendar_id :: jstring

definition localDate :: "jstring \<Rightarrow> jstring" where
  "localDate v = take 10 v"

definition number_of :: "jstring \<Rightarrow> int option" where
  \<comment> \<open>\<open>Number(s)\<close> of a part of a local date: digits (none read as 0), or a text that is not a number\<close>
  "number_of s = (if list_all is_digit s then Some (int (read_nat 0 s)) else None)"

definition show_number :: "int option \<Rightarrow> jstring" where
  "show_number n = (case n of None \<Rightarrow> lit ''NaN'' | Some i \<Rightarrow> show_int i)"

definition show_number2 :: "int option \<Rightarrow> jstring" where
  "show_number2 n = (let s = show_number n in replicate (2 - length s) 48 @ s)"

definition option2 :: "('a \<Rightarrow> 'b \<Rightarrow> 'c) \<Rightarrow> 'a option \<Rightarrow> 'b option \<Rightarrow> 'c option" where
  "option2 f a b = (case a of None \<Rightarrow> None | Some x \<Rightarrow> map_option (f x) b)"

definition daysInMonth :: "int \<Rightarrow> int \<Rightarrow> int option" where
  \<comment> \<open>\<open>new Date(Date.UTC(year, month, 0)).getUTCDate()\<close>, the month counted from 1\<close>
  "daysInMonth year month = map_option (\<lambda>t. utc_date (date_day t)) (date_utc year month 0 0 0 0)"

definition addMonthsClamped :: "jstring \<Rightarrow> int \<Rightarrow> jstring" where
  "addMonthsClamped value months =
     (let ps = map number_of (js_split 45 value);
          part = (\<lambda>i. if i < length ps then ps ! i else None);
          monthIndex = map_option (\<lambda>m. m - 1 + months) (part 1);
          targetYear = option2 (\<lambda>y m. y + m div 12) (part 0) monthIndex;
          targetMonth = map_option (\<lambda>m. m mod 12 + 1) monthIndex;
          last = (case option2 daysInMonth targetYear targetMonth of None \<Rightarrow> None | Some d \<Rightarrow> d);
          targetDay = option2 min (part 2) last
      in show_number targetYear @ 45 # show_number2 targetMonth @ 45 # show_number2 targetDay)"

definition half_hour_up :: "int \<Rightarrow> int" where
  \<comment> \<open>\<open>Math.ceil(t / 1_800_000) * 1_800_000\<close>\<close>
  "half_hour_up t = - ((- t) div 1800000) * 1800000"

definition or_else :: "jstring \<Rightarrow> jstring \<Rightarrow> jstring" where
  "or_else a b = (if a = [] then b else a)"

definition createScheduleDraft ::
    "zone_env \<Rightarrow> workspace_schedule option \<Rightarrow> jstring \<Rightarrow> jsdate \<Rightarrow> jstring \<Rightarrow> date_error + schedule_draft" where
  "createScheduleDraft Z schedule timezone now defaultCalendarId =
     (case schedule of
        Some s \<Rightarrow>
          (let z = or_else (s_timezone s) timezone
           in bind_r (utcToLocalDateTime Z (parse_date Z (s_starts_at s)) z) (\<lambda>st.
              bind_r (utcToLocalDateTime Z (parse_date Z (s_ends_at s)) z) (\<lambda>en.
              Inr \<lparr>d_schedule_id = Some (s_id s), d_title = s_title s, d_starts_at = st, d_ends_at = en,
                d_location = s_location s, d_attendees = s_attendees s, d_repeat_type = s_repeat_type s,
                d_repeat_until = (case s_repeat_until s of None \<Rightarrow> [] | Some u \<Rightarrow> u),
                d_alert_minutes = s_alert_minutes s, d_description = s_description s, d_timezone = z,
                d_calendar_id = s_calendar_id s\<rparr>)))
      | None \<Rightarrow>
          (let rounded = new_date (map_option half_hour_up now);
               end' = new_date (map_option ((+) 3600000) rounded)
           in bind_r (utcToLocalDateTime Z rounded timezone) (\<lambda>st.
              bind_r (utcToLocalDateTime Z end' timezone) (\<lambda>en.
              Inr \<lparr>d_schedule_id = None, d_title = [], d_starts_at = st, d_ends_at = en, d_location = [],
                d_attendees = [], d_repeat_type = lit ''none'', d_repeat_until = addMonthsClamped (localDate st) 3,
                d_alert_minutes = [], d_description = [], d_timezone = timezone, d_calendar_id = defaultCalendarId\<rparr>))))"

definition local_instant :: "zone_env \<Rightarrow> jstring \<Rightarrow> jstring \<Rightarrow> date_error + int option" where
  \<comment> \<open>\<open>new Date(localDateTimeToUtc(v, timezone)).getTime()\<close>\<close>
  "local_instant Z v z = bind_r (localDateTimeToUtc Z v z) (\<lambda>s. Inr (parse_date Z s))"

definition draft_duration :: "zone_env \<Rightarrow> schedule_draft \<Rightarrow> int" where
  \<comment> \<open>the \<open>try\<close> block: one hour unless both times can be read and the end is later\<close>
  "draft_duration Z d =
     (case local_instant Z (d_starts_at d) (d_timezone d) of
        Inr (Some st) \<Rightarrow>
          (case local_instant Z (d_ends_at d) (d_timezone d) of
             Inr (Some en) \<Rightarrow> if en > st then en - st else 3600000
           | _ \<Rightarrow> 3600000)
      | _ \<Rightarrow> 3600000)"

definition moveScheduleStart :: "zone_env \<Rightarrow> schedule_draft \<Rightarrow> jstring \<Rightarrow> date_error + schedule_draft" where
  "moveScheduleStart Z d startsAt =
     (if \<not> localPattern startsAt then Inr (d\<lparr>d_starts_at := startsAt\<rparr>)
      else bind_r (local_instant Z startsAt (d_timezone d)) (\<lambda>next.
           bind_r (utcToLocalDateTime Z (new_date (map_option (\<lambda>t. t + draft_duration Z d) next)) (d_timezone d)) (\<lambda>en.
           Inr (d\<lparr>d_starts_at := startsAt, d_ends_at := en\<rparr>))))"

section \<open>The checks before saving\<close>

record schedule_payload =
  y_title :: jstring
  y_starts_at :: jstring
  y_ends_at :: jstring
  y_description :: jstring
  y_location :: jstring
  y_attendees :: "jstring list"
  y_repeat_type :: jstring
  y_repeat_until :: "jstring option"
  y_alert_minutes :: "int list"
  y_timezone :: jstring
  y_calendar_id :: jstring

datatype form_error = Title_missing | End_before_start | Repeat_until_wrong | Calendar_missing | Time_error date_error

definition lift_date :: "date_error + 'a \<Rightarrow> form_error + 'a" where
  "lift_date r = (case r of Inl e \<Rightarrow> Inl (Time_error e) | Inr x \<Rightarrow> Inr x)"

definition date_le :: "jsdate \<Rightarrow> jsdate \<Rightarrow> bool" where
  \<comment> \<open>\<open>a <= b\<close>, false when one is invalid\<close>
  "date_le a b = (case (a, b) of (Some x, Some y) \<Rightarrow> x \<le> y | _ \<Rightarrow> False)"

definition date_less :: "jsdate \<Rightarrow> jsdate \<Rightarrow> bool" where
  "date_less a b = (case (a, b) of (Some x, Some y) \<Rightarrow> x < y | _ \<Rightarrow> False)"

definition scheduleDraftPayload :: "zone_env \<Rightarrow> schedule_draft \<Rightarrow> form_error + schedule_payload" where
  "scheduleDraftPayload Z d =
     bind_r (check_r (js_trim (d_title d) \<noteq> []) Title_missing) (\<lambda>_.
     bind_r (lift_date (localDateTimeToUtc Z (d_starts_at d) (d_timezone d))) (\<lambda>st.
     bind_r (lift_date (localDateTimeToUtc Z (d_ends_at d) (d_timezone d))) (\<lambda>en.
     bind_r (check_r (\<not> date_le (parse_date Z en) (parse_date Z st)) End_before_start) (\<lambda>_.
     bind_r (check_r (\<not> (d_repeat_type d \<noteq> lit ''none''
         \<and> (d_repeat_until d = [] \<or> d_repeat_until d < localDate (d_starts_at d)))) Repeat_until_wrong) (\<lambda>_.
     bind_r (check_r (d_calendar_id d \<noteq> []) Calendar_missing) (\<lambda>_.
       Inr \<lparr>y_title = js_trim (d_title d), y_starts_at = st, y_ends_at = en, y_description = js_trim (d_description d),
         y_location = js_trim (d_location d), y_attendees = d_attendees d, y_repeat_type = d_repeat_type d,
         y_repeat_until = (if d_repeat_type d = lit ''none'' then None else Some (d_repeat_until d)),
         y_alert_minutes = sort (d_alert_minutes d), y_timezone = d_timezone d, y_calendar_id = d_calendar_id d\<rparr>))))))"

section \<open>Occurrences\<close>

record occurrence =
  o_schedule :: workspace_schedule
  o_key :: jstring

definition plain_date :: "int option \<times> int option \<times> int option \<Rightarrow> jstring" where
  \<comment> \<open>the text of a year, a month and a day, which may be NaN\<close>
  "plain_date ymd = (let (y, m, d) = ymd in show_number y @ 45 # show_number2 m @ 45 # show_number2 d)"

definition utc_ymd :: "jsdate \<Rightarrow> int option \<times> int option \<times> int option" where
  "utc_ymd d =
     (let n = map_option date_day d
      in (map_option utc_year n, map_option (\<lambda>n. utc_month n + 1) n, map_option utc_date n))"

definition occurrence_date :: "jstring \<Rightarrow> date_parts \<Rightarrow> nat \<Rightarrow> int option \<times> int option \<times> int option" where
  \<comment> \<open>the date of the occurrence with this index\<close>
  "occurrence_date repeat p index =
     (let year = p_year p; month = p_month p; day = p_day p
      in if repeat = lit ''daily'' then utc_ymd (date_utc year (month - 1) (day + int index) 0 0 0)
         else if repeat = lit ''weekly'' then utc_ymd (date_utc year (month - 1) (day + int index * 7) 0 0 0)
         else if repeat = lit ''monthly'' then
           (let monthIndex = month - 1 + int index; y = year + monthIndex div 12; m = monthIndex mod 12 + 1
            in (Some y, Some m, option2 min (Some day) (daysInMonth y m)))
         else (Some year, Some month, Some day))"

definition repeats :: "jstring \<Rightarrow> bool" where
  "repeats r \<longleftrightarrow> r = lit ''daily'' \<or> r = lit ''weekly'' \<or> r = lit ''monthly''"

fun expand_loop ::
    "zone_env \<Rightarrow> workspace_schedule \<Rightarrow> calendar_range \<Rightarrow> date_parts \<Rightarrow> int option \<Rightarrow> jstring option \<Rightarrow> nat list \<Rightarrow>
     occurrence list \<Rightarrow> date_error + occurrence list" where
  \<comment> \<open>the loop over the indices; the last argument is \<open>result\<close>\<close>
  "expand_loop Z s r p duration until [] result = Inr result"
| "expand_loop Z s r p duration until (index # rest) result =
     (if \<not> repeats (s_repeat_type s) \<and> index > 0 then Inr result
      else (let dateOnly = plain_date (occurrence_date (s_repeat_type s) p index)
            in if (case until of None \<Rightarrow> False | Some u \<Rightarrow> u \<noteq> [] \<and> u < dateOnly) then Inr result
               else (let local = dateOnly @ 84 # pad2_int (p_hour p) @ 58 # pad2_int (p_minute p)
                     in bind_r (local_instant Z local (s_timezone s)) (\<lambda>startsAt.
                        let endsAt = new_date (option2 (+) startsAt duration)
                        in if date_le (range_end r) startsAt \<and> s_repeat_type s \<noteq> lit ''none'' then Inr result
                           else expand_loop Z s r p duration until rest
                             (case (startsAt, endsAt) of
                                (Some st, Some en) \<Rightarrow>
                                  if date_less (range_start r) endsAt \<and> date_less startsAt (range_end r)
                                  then result @ [\<lparr>o_schedule = s\<lparr>s_starts_at := iso_string st, s_ends_at := iso_string en\<rparr>,
                                         o_key = s_id s @ 58 # iso_string st\<rparr>]
                                  else result
                              | _ \<Rightarrow> result)))))"

definition OCCURRENCE_LIMIT :: nat where "OCCURRENCE_LIMIT = 3700"

definition expandScheduleOccurrences ::
    "zone_env \<Rightarrow> workspace_schedule \<Rightarrow> calendar_range \<Rightarrow> date_error + occurrence list" where
  "expandScheduleOccurrences Z s r =
     (let firstStart = parse_date Z (s_starts_at s);
          duration = date_minus (parse_date Z (s_ends_at s)) firstStart
      in bind_r (utcToLocalDateTime Z firstStart (s_timezone s)) (\<lambda>originalLocal.
         case local_match originalLocal of
           None \<Rightarrow> Inr []
         | Some original \<Rightarrow>
             (let until = (if s_repeat_type s = lit ''none'' then Some (take 10 originalLocal) else s_repeat_until s)
              in expand_loop Z s r original duration until [0..<OCCURRENCE_LIMIT] [])))"

section \<open>The reference list of occurrences\<close>

definition reads_iso :: "zone_env \<Rightarrow> bool" where
  \<comment> \<open>the reader of date strings inverts \<open>toISOString\<close>\<close>
  "reads_iso Z \<longleftrightarrow> (\<forall>t. \<bar>t\<bar> \<le> 8640000000000000 \<longrightarrow> parse_date Z (iso_string t) = Some t)"

definition occurrence_local :: "workspace_schedule \<Rightarrow> date_parts \<Rightarrow> nat \<Rightarrow> jstring" where
  "occurrence_local s p i =
     plain_date (occurrence_date (s_repeat_type s) p i) @ 84 # pad2_int (p_hour p) @ 58 # pad2_int (p_minute p)"

definition occurrences_at ::
    "zone_env \<Rightarrow> workspace_schedule \<Rightarrow> calendar_range \<Rightarrow> date_parts \<Rightarrow> int option \<Rightarrow> nat \<Rightarrow> occurrence list" where
  \<comment> \<open>the occurrence with the index \<open>i\<close>, if it meets the range\<close>
  "occurrences_at Z s r p duration i =
     (case local_instant Z (occurrence_local s p i) (s_timezone s) of
        Inr (Some st) \<Rightarrow>
          (case new_date (option2 (+) (Some st) duration) of
             Some en \<Rightarrow>
               if date_less (range_start r) (Some en) \<and> date_less (Some st) (range_end r)
               then [\<lparr>o_schedule = s\<lparr>s_starts_at := iso_string st, s_ends_at := iso_string en\<rparr>, o_key = s_id s @ 58 # iso_string st\<rparr>]
               else []
           | None \<Rightarrow> [])
      | _ \<Rightarrow> [])"

definition past_until :: "jstring option \<Rightarrow> workspace_schedule \<Rightarrow> date_parts \<Rightarrow> nat \<Rightarrow> bool" where
  "past_until until s p i \<longleftrightarrow>
     (case until of None \<Rightarrow> False | Some u \<Rightarrow> u \<noteq> [] \<and> u < plain_date (occurrence_date (s_repeat_type s) p i))"

definition expansion_stops ::
    "zone_env \<Rightarrow> workspace_schedule \<Rightarrow> calendar_range \<Rightarrow> date_parts \<Rightarrow> jstring option \<Rightarrow> nat \<Rightarrow> bool" where
  \<comment> \<open>a repeated schedule ends after its last date or at the end of the range, any other after the first occurrence\<close>
  "expansion_stops Z s r p until i \<longleftrightarrow>
     \<not> repeats (s_repeat_type s) \<and> i > 0 \<or> past_until until s p i
     \<or> (\<exists>st. local_instant Z (occurrence_local s p i) (s_timezone s) = Inr st
          \<and> date_le (range_end r) st \<and> s_repeat_type s \<noteq> lit ''none'')"

lemma expand_step:
  "expand_loop Z s r p duration until (i # rest) result =
     (if \<not> repeats (s_repeat_type s) \<and> i > 0 \<or> past_until until s p i then Inr result
      else case local_instant Z (occurrence_local s p i) (s_timezone s) of
          Inl e \<Rightarrow> Inl e
        | Inr st \<Rightarrow>
            if date_le (range_end r) st \<and> s_repeat_type s \<noteq> lit ''none'' then Inr result
            else expand_loop Z s r p duration until rest (result @ occurrences_at Z s r p duration i))"
  unfolding expand_loop.simps Let_def occurrence_local_def [symmetric] past_until_def [symmetric]
  by (cases "local_instant Z (occurrence_local s p i) (s_timezone s)")
    (auto simp: occurrences_at_def split: option.splits)

declare expand_loop.simps(2) [simp del]

lemma expand_loop_spec:
  assumes "expand_loop Z s r p duration until [k..<M] result = Inr occs" "k \<le> M"
  shows "\<exists>N. k \<le> N \<and> N \<le> M \<and> occs = result @ concat (map (occurrences_at Z s r p duration) [k..<N])
    \<and> (N < M \<longrightarrow> expansion_stops Z s r p until N) \<and> (\<forall>i. k \<le> i \<and> i < N \<longrightarrow> \<not> expansion_stops Z s r p until i
        \<and> is_ok (local_instant Z (occurrence_local s p i) (s_timezone s)))"
  using assms
proof (induction "M - k" arbitrary: k result)
  case 0
  then show ?case by (intro exI [of _ M]) auto
next
  case (Suc n)
  then have k: "k < M" by simp
  then have up: "[k..<M] = k # [Suc k..<M]" by (simp add: upt_rec)
  show ?case
  proof (cases "expansion_stops Z s r p until k")
    case True
    then have "occs = result"
      using Suc.prems(1) unfolding up expand_step expansion_stops_def by (auto split: sum.splits if_splits)
    then show ?thesis using True k by (intro exI [of _ k]) auto
  next
    case False
    then have rest: "expand_loop Z s r p duration until [Suc k..<M] (result @ occurrences_at Z s r p duration k) = Inr occs"
      and ok: "is_ok (local_instant Z (occurrence_local s p k) (s_timezone s))"
      using Suc.prems(1) unfolding up expand_step expansion_stops_def by (auto simp: is_ok_iff split: sum.splits)
    from Suc.hyps(1) [OF _ rest] Suc.hyps(2) k obtain N where N: "Suc k \<le> N" "N \<le> M"
      "occs = (result @ occurrences_at Z s r p duration k) @ concat (map (occurrences_at Z s r p duration) [Suc k..<N])"
      "N < M \<longrightarrow> expansion_stops Z s r p until N" "\<forall>i. Suc k \<le> i \<and> i < N \<longrightarrow> \<not> expansion_stops Z s r p until i
        \<and> is_ok (local_instant Z (occurrence_local s p i) (s_timezone s))"
      by (metis Suc_diff_Suc Suc_leI diff_Suc_1 diff_Suc_Suc)
    have "[k..<N] = k # [Suc k..<N]" using N(1) by (simp add: upt_rec)
    then have "occs = result @ concat (map (occurrences_at Z s r p duration) [k..<N])" using N(3) by simp
    moreover have "\<forall>i. k \<le> i \<and> i < N \<longrightarrow> \<not> expansion_stops Z s r p until i
        \<and> is_ok (local_instant Z (occurrence_local s p i) (s_timezone s))"
      using N(5) False ok by (metis le_neq_implies_less Suc_leI)
    ultimately show ?thesis using N(1,2,4) by (intro exI [of _ N]) auto
  qed
qed

text \<open>The texts of dates determine the dates.\<close>

lemma separated_inj:
  assumes "c \<notin> set x" "c \<notin> set y" "x @ c # s = y @ c # t"
  shows "x = y \<and> s = t"
  using assms
proof (induction x arbitrary: y)
  case Nil
  then show ?case by (cases y) auto
next
  case (Cons a x)
  then show ?case by (cases y) auto
qed

lemma show_nat_no_dash: "45 \<notin> set (show_nat n)"
  using show_nat_digits [of 45 n] by (auto simp: is_digit_def)

lemma show_number_inj: "0 \<le> x \<Longrightarrow> 0 \<le> y \<Longrightarrow> show_number (Some x) = show_number (Some y) \<longleftrightarrow> x = y"
  by (auto simp: show_number_def show_int_def)

lemma show_number_no_dash: "0 \<le> x \<Longrightarrow> 45 \<notin> set (show_number (Some x))"
  by (simp add: show_number_def show_int_def show_nat_no_dash)

lemma show_number2_no_dash: "0 \<le> x \<Longrightarrow> 45 \<notin> set (show_number2 (Some x))"
  using show_number_no_dash [of x] by (simp add: show_number2_def Let_def)

lemma read_zeros: "read_nat 0 (replicate k 48 @ s) = read_nat 0 s"
  by (induction k) simp_all

lemma show_number2_inj:
  assumes "0 \<le> x" "0 \<le> y" "show_number2 (Some x) = show_number2 (Some y)"
  shows "x = y"
proof -
  have "read_nat 0 (show_number2 (Some v)) = nat v" if "0 \<le> v" for v
    using that by (simp add: show_number2_def Let_def read_zeros show_number_def show_int_def read_show_nat)
  then show ?thesis using assms by (metis eq_nat_nat_iff)
qed

lemma plain_date_inj:
  assumes "plain_date (Some y, Some m, d) @ 84 # u = plain_date (Some y', Some m', d') @ 84 # u'"
    and "0 \<le> y" "0 \<le> y'" "0 \<le> m" "0 \<le> m'"
  shows "y = y' \<and> m = m' \<and> show_number2 d @ 84 # u = show_number2 d' @ 84 # u'"
proof -
  have "show_number (Some y) @ 45 # show_number2 (Some m) @ 45 # show_number2 d @ 84 # u
      = show_number (Some y') @ 45 # show_number2 (Some m') @ 45 # show_number2 d' @ 84 # u'"
    using assms(1) by (simp add: plain_date_def)
  then have y: "show_number (Some y) = show_number (Some y')"
    and r: "show_number2 (Some m) @ 45 # show_number2 d @ 84 # u = show_number2 (Some m') @ 45 # show_number2 d' @ 84 # u'"
    using separated_inj [OF show_number_no_dash [OF assms(2)] show_number_no_dash [OF assms(3)]] by blast+
  from r have "show_number2 (Some m) = show_number2 (Some m')" "show_number2 d @ 84 # u = show_number2 d' @ 84 # u'"
    using separated_inj [OF show_number2_no_dash [OF assms(4)] show_number2_no_dash [OF assms(5)]] by blast+
  then show ?thesis using y show_number_inj assms(2-5) show_number2_inj by blast
qed

section \<open>What an occurrence is\<close>

lemma parse_ok: "reads_iso Z \<Longrightarrow> time_clip t = Some u \<Longrightarrow> parse_date Z (iso_string t) = Some t"
  by (simp add: reads_iso_def time_clip_def split: if_splits)

lemma conversion_range:
  assumes "localDateTimeToUtc Z v z = Inr s"
  obtains t where "s = iso_string t" "\<bar>t\<bar> \<le> 8640000000000000" "utcToLocalDateTime Z (Some t) z = Inr v"
proof -
  from assms obtain c t where "new_date c = Some t" "s = iso_string t" "utcToLocalDateTime Z (Some t) z = Inr v"
    by (auto simp: localDateTimeToUtc_def Let_def bind_r_ok split: option.splits if_splits)
  then show ?thesis using that by (auto simp: new_date_def time_clip_def split: option.splits if_splits)
qed

lemma local_instant_ok:
  assumes "local_instant Z v z = Inr st" "reads_iso Z"
  shows "\<exists>t. st = Some t \<and> \<bar>t\<bar> \<le> 8640000000000000 \<and> localDateTimeToUtc Z v z = Inr (iso_string t)
    \<and> utcToLocalDateTime Z (Some t) z = Inr v \<and> localPattern v"
proof -
  from assms(1) obtain s where s: "localDateTimeToUtc Z v z = Inr s" "st = parse_date Z s"
    by (auto simp: local_instant_def bind_r_ok)
  then have "localPattern v" by (auto simp: localDateTimeToUtc_def local_match_def split: if_splits)
  with s conversion_range [OF s(1)] assms(2) show ?thesis unfolding reads_iso_def by metis
qed

lemma occurrences_atE:
  assumes "oc \<in> set (occurrences_at Z s r p duration i)" "reads_iso Z"
  obtains st dur where "local_instant Z (occurrence_local s p i) (s_timezone s) = Inr (Some st)" "duration = Some dur"
    "oc = \<lparr>o_schedule = s\<lparr>s_starts_at := iso_string st, s_ends_at := iso_string (st + dur)\<rparr>, o_key = s_id s @ 58 # iso_string st\<rparr>"
    "parse_date Z (iso_string st) = Some st" "parse_date Z (iso_string (st + dur)) = Some (st + dur)"
    "eventIntersectsRange Z (o_schedule oc) r" "utcToLocalDateTime Z (Some st) (s_timezone s) = Inr (occurrence_local s p i)"
    "localPattern (occurrence_local s p i)"
proof -
  obtain v where "local_instant Z (occurrence_local s p i) (s_timezone s) = Inr v"
    using assms(1) by (cases "local_instant Z (occurrence_local s p i) (s_timezone s)") (auto simp: occurrences_at_def)
  then obtain st where a: "local_instant Z (occurrence_local s p i) (s_timezone s) = Inr (Some st)"
    using assms(1) by (cases v) (auto simp: occurrences_at_def)
  obtain dur where d: "duration = Some dur"
    using assms(1) a by (cases duration) (auto simp: occurrences_at_def new_date_def option2_def)
  obtain en where e: "time_clip (st + dur) = Some en"
    using assms(1) a d by (cases "time_clip (st + dur)") (auto simp: occurrences_at_def new_date_def option2_def)
  have b: "date_less (range_start r) (Some en) \<and> date_less (Some st) (range_end r)
    \<and> oc = \<lparr>o_schedule = s\<lparr>s_starts_at := iso_string st, s_ends_at := iso_string en\<rparr>, o_key = s_id s @ 58 # iso_string st\<rparr>"
    using assms(1) a d e by (auto simp: occurrences_at_def new_date_def option2_def split: if_splits)
  note st = a d e b [THEN conjunct1] b [THEN conjunct2, THEN conjunct1] b [THEN conjunct2, THEN conjunct2]
  have en: "en = st + dur" using st(3) by (simp add: time_clip_def split: if_splits)
  from local_instant_ok [OF st(1) assms(2)] have l: "\<bar>st\<bar> \<le> 8640000000000000"
    "utcToLocalDateTime Z (Some st) (s_timezone s) = Inr (occurrence_local s p i)" "localPattern (occurrence_local s p i)" by auto
  have ps: "parse_date Z (iso_string st) = Some st" using l(1) assms(2) by (simp add: reads_iso_def)
  have pe: "parse_date Z (iso_string (st + dur)) = Some (st + dur)" using parse_ok [OF assms(2) st(3)] .
  have "eventIntersectsRange Z (o_schedule oc) r"
    using st(4,5) ps pe unfolding st(6) en
    by (auto simp: eventIntersectsRange_def date_less_def split: option.splits)
  with that [of st dur] st(1,2,6) ps pe l(2,3) show ?thesis unfolding en by simp
qed

lemma plain_date_parts:
  assumes "plain_date (Some y, Some m, d) = plain_date (Some y', Some m', d')" "0 \<le> y" "0 \<le> y'" "0 \<le> m" "0 \<le> m'"
  shows "y = y' \<and> m = m' \<and> show_number2 d = show_number2 d'"
  using plain_date_inj [of y m d "[]" y' m' d' "[]"] assms by auto

lemma pattern_year:
  assumes "localPattern (plain_date (a, b, c) @ u)"
  shows "\<exists>y. a = Some y \<and> 0 \<le> y"
proof -
  have d: "is_digit ((plain_date (a, b, c) @ u) ! 0)" using assms by (simp add: localPattern_def)
  show ?thesis
  proof (cases a)
    case None
    then show ?thesis using d by (simp add: plain_date_def show_number_def lit_def is_digit_def)
  next
    case (Some y)
    then show ?thesis using d by (cases "0 \<le> y") (simp_all add: plain_date_def show_number_def show_int_def is_digit_def)
  qed
qed

lemma utc_ymd_inj:
  assumes "plain_date (utc_ymd (Some s)) = plain_date (utc_ymd (Some t))"
    "0 \<le> utc_year (date_day s)" "0 \<le> utc_year (date_day t)"
  shows "date_day s = date_day t"
proof -
  have e: "plain_date (Some (utc_year (date_day s)), Some (utc_month (date_day s) + 1), Some (utc_date (date_day s)))
      = plain_date (Some (utc_year (date_day t)), Some (utc_month (date_day t) + 1), Some (utc_date (date_day t)))"
    using assms(1) by (simp add: utc_ymd_def)
  have "utc_year (date_day s) = utc_year (date_day t)" "utc_month (date_day s) = utc_month (date_day t)"
    "show_number2 (Some (utc_date (date_day s))) = show_number2 (Some (utc_date (date_day t)))"
    using plain_date_parts [OF e assms(2,3)] utc_month_range [of "date_day s"] utc_month_range [of "date_day t"] by auto
  then have "civil_day (utc_year (date_day s)) (utc_month (date_day s)) (utc_date (date_day s))
      = civil_day (utc_year (date_day t)) (utc_month (date_day t)) (utc_date (date_day t))"
    using show_number2_inj [of "utc_date (date_day s)" "utc_date (date_day t)"] utc_date_range [of "date_day s"]
      utc_date_range [of "date_day t"] by simp
  then show ?thesis by (simp add: civil_day_utc)
qed

lemma date_utc_day: "date_utc y m (d + k) 0 0 0 = Some t \<Longrightarrow> date_day t = make_day (if 0 \<le> y \<and> y \<le> 99 then 1900 + y else y) m d + k"
  by (auto simp: date_utc_def time_clip_def date_day_def make_day_add split: if_splits)

lemma pattern_date:
  assumes "localPattern (plain_date (utc_ymd x) @ u)"
  shows "\<exists>s. x = Some s \<and> 0 \<le> utc_year (date_day s)"
  using pattern_year [OF assms [unfolded utc_ymd_def Let_def]] by (cases x) auto

lemma shifted_inj:
  assumes "plain_date (utc_ymd (date_utc y m (d + k) 0 0 0)) = plain_date (utc_ymd (date_utc y m (d + l) 0 0 0))"
    "localPattern (plain_date (utc_ymd (date_utc y m (d + k) 0 0 0)) @ u)"
    "localPattern (plain_date (utc_ymd (date_utc y m (d + l) 0 0 0)) @ u)"
  shows "k = l"
proof -
  obtain s t where s: "date_utc y m (d + k) 0 0 0 = Some s" "0 \<le> utc_year (date_day s)"
    and t: "date_utc y m (d + l) 0 0 0 = Some t" "0 \<le> utc_year (date_day t)"
    using pattern_date [OF assms(2)] pattern_date [OF assms(3)] by blast
  from utc_ymd_inj [OF _ s(2) t(2)] assms(1) have "date_day s = date_day t" by (simp add: s(1) t(1))
  with date_utc_day [OF s(1)] date_utc_day [OF t(1)] show ?thesis by simp
qed

lemma occurrence_date_index:
  assumes "repeats repeat" "plain_date (occurrence_date repeat p i) = plain_date (occurrence_date repeat p j)"
    "localPattern (plain_date (occurrence_date repeat p i) @ u)" "localPattern (plain_date (occurrence_date repeat p j) @ u)"
  shows "i = j"
proof -
  have distinct: "lit ''weekly'' \<noteq> lit ''daily''" "lit ''monthly'' \<noteq> lit ''daily''" "lit ''monthly'' \<noteq> lit ''weekly''" by simp_all
  consider "repeat = lit ''daily''" | "repeat = lit ''weekly''" | "repeat = lit ''monthly''"
    using assms(1) by (auto simp: repeats_def)
  then show ?thesis
  proof cases
    case 1
    then show ?thesis using assms(2-4) shifted_inj [of _ _ _ "int i" "int j" u] by (simp add: occurrence_date_def Let_def)
  next
    case 2
    then show ?thesis
      using assms(2-4) shifted_inj [of _ _ _ "int i * 7" "int j * 7" u] by (simp add: occurrence_date_def Let_def)
  next
    case 3
    define a b where "a = p_month p - 1 + int i" and "b = p_month p - 1 + int j"
    obtain da db where d: "occurrence_date repeat p i = (Some (p_year p + a div 12), Some (a mod 12 + 1), da)"
      "occurrence_date repeat p j = (Some (p_year p + b div 12), Some (b mod 12 + 1), db)"
      using 3 by (simp add: occurrence_date_def Let_def a_def b_def)
    have "p_year p + a div 12 = p_year p + b div 12 \<and> a mod 12 + 1 = b mod 12 + 1 \<and> show_number2 da = show_number2 db"
      using assms(2) pattern_year [OF assms(3) [unfolded d]] pattern_year [OF assms(4) [unfolded d]]
      unfolding d by (intro plain_date_parts) simp_all
    then have "a = b" by (metis add_diff_cancel_left' add_right_cancel div_mult_mod_eq)
    then show ?thesis by (simp add: a_def b_def)
  qed
qed

lemma occurrences_at_short: "length (occurrences_at Z s r p duration i) \<le> 1"
  by (auto simp: occurrences_at_def split: sum.splits option.splits)

lemma concat_short: "(\<And>x. length (f x) \<le> 1) \<Longrightarrow> length (concat (map f xs)) \<le> length xs"
proof (induction xs)
  case (Cons a xs)
  then have "length (f a) + length (concat (map f xs)) \<le> 1 + length xs" by (intro add_mono) simp_all
  then show ?case by simp
qed simp

lemma concat_short_distinct:
  assumes "\<And>x. length (f x) \<le> 1" "\<And>x y a b. x \<in> set xs \<Longrightarrow> y \<in> set xs \<Longrightarrow> a \<in> set (f x) \<Longrightarrow> b \<in> set (f y) \<Longrightarrow> g a = g b \<Longrightarrow> x = y"
    "distinct xs"
  shows "distinct (map g (concat (map f xs)))"
  using assms(2,3)
proof (induction xs)
  case (Cons x xs)
  have "distinct (map g (f x))" using assms(1) [of x] by (cases "f x") simp_all
  moreover have "distinct (map g (concat (map f xs)))"
    by (rule Cons.IH) (use Cons.prems in auto)
  moreover have "set (map g (f x)) \<inter> set (map g (concat (map f xs))) = {}"
  proof (rule ccontr)
    assume "set (map g (f x)) \<inter> set (map g (concat (map f xs))) \<noteq> {}"
    then obtain a y b where "a \<in> set (f x)" "y \<in> set xs" "b \<in> set (f y)" "g a = g b" by auto
    with Cons.prems show False by (metis distinct.simps(2) list.set_intros)
  qed
  ultimately show ?case by simp
qed simp

lemma expansion_loop:
  assumes "expandScheduleOccurrences Z s r = Inr occs" "parse_date Z (s_starts_at s) = Some st0"
    "utcToLocalDateTime Z (Some st0) (s_timezone s) = Inr local" "local_match local = Some p"
    and until: "until = (if s_repeat_type s = lit ''none'' then Some (take 10 local) else s_repeat_until s)"
  shows "\<exists>N\<le>OCCURRENCE_LIMIT.
    occs = concat (map (occurrences_at Z s r p (date_minus (parse_date Z (s_ends_at s)) (Some st0))) [0..<N])
    \<and> (N < OCCURRENCE_LIMIT \<longrightarrow> expansion_stops Z s r p until N) \<and> (\<forall>i<N. \<not> expansion_stops Z s r p until i
        \<and> is_ok (local_instant Z (occurrence_local s p i) (s_timezone s)))"
proof -
  have "expand_loop Z s r p (date_minus (parse_date Z (s_ends_at s)) (Some st0)) until [0..<OCCURRENCE_LIMIT] [] = Inr occs"
    using assms by (simp add: expandScheduleOccurrences_def Let_def)
  from expand_loop_spec [OF this] show ?thesis by auto
qed

lemma occurrence_key:
  assumes "oc \<in> set (occurrences_at Z s r p duration i)" "reads_iso Z"
  shows "\<exists>st. o_key oc = s_id s @ 58 # iso_string st \<and> parse_date Z (iso_string st) = Some st
    \<and> utcToLocalDateTime Z (Some st) (s_timezone s) = Inr (occurrence_local s p i) \<and> localPattern (occurrence_local s p i)"
proof -
  obtain st dur where o: "oc = \<lparr>o_schedule = s\<lparr>s_starts_at := iso_string st, s_ends_at := iso_string (st + dur)\<rparr>,
      o_key = s_id s @ 58 # iso_string st\<rparr>" "parse_date Z (iso_string st) = Some st"
    "utcToLocalDateTime Z (Some st) (s_timezone s) = Inr (occurrence_local s p i)" "localPattern (occurrence_local s p i)"
    by (rule occurrences_atE [OF assms]) blast
  have "o_key oc = s_id s @ 58 # iso_string st" unfolding o(1) by simp
  with o(2-4) show ?thesis by blast
qed

lemma occurrences_distinct:
  assumes "reads_iso Z" "\<forall>i<N. \<not> expansion_stops Z s r p until i"
  shows "distinct (map o_key (concat (map (occurrences_at Z s r p duration) [0..<N])))"
proof (rule concat_short_distinct [OF occurrences_at_short])
  fix i j a b
  assume i: "i \<in> set [0..<N]" "j \<in> set [0..<N]" and a: "a \<in> set (occurrences_at Z s r p duration i)"
    and b: "b \<in> set (occurrences_at Z s r p duration j)" and k: "o_key a = o_key b"
  obtain st where st: "o_key a = s_id s @ 58 # iso_string st" "parse_date Z (iso_string st) = Some st"
    "utcToLocalDateTime Z (Some st) (s_timezone s) = Inr (occurrence_local s p i)" "localPattern (occurrence_local s p i)"
    using occurrence_key [OF a assms(1)] by blast
  obtain st' where st': "o_key b = s_id s @ 58 # iso_string st'" "parse_date Z (iso_string st') = Some st'"
    "utcToLocalDateTime Z (Some st') (s_timezone s) = Inr (occurrence_local s p j)" "localPattern (occurrence_local s p j)"
    using occurrence_key [OF b assms(1)] by blast
  have "iso_string st = iso_string st'" using k unfolding st(1) st'(1) by simp
  then have "Some st = Some st'" using st(2) st'(2) by metis
  then have "st = st'" by simp
  then have "occurrence_local s p i = occurrence_local s p j" using st(3) st'(3) by simp
  then have e: "plain_date (occurrence_date (s_repeat_type s) p i) = plain_date (occurrence_date (s_repeat_type s) p j)"
    by (simp add: occurrence_local_def)
  show "i = j"
  proof (cases "repeats (s_repeat_type s)")
    case True
    with e st(4) st'(4) show ?thesis
      unfolding occurrence_local_def by (intro occurrence_date_index [OF True])
  next
    case False
    then have "i = 0" "j = 0" using assms(2) i by (auto simp: expansion_stops_def)
    then show ?thesis by simp
  qed
qed simp

section \<open>What a repeated schedule means\<close>

text \<open>Days are numbered, and their texts and the times of day are written out as the zone shows them.\<close>

definition date_text :: "int \<Rightarrow> jstring" where
  "date_text n = show_int (utc_year n) @ 45 # pad2_int (utc_month n + 1) @ 45 # pad2_int (utc_date n)"

definition local_text :: "int \<Rightarrow> int \<Rightarrow> int \<Rightarrow> jstring" where
  "local_text n h mi = date_text n @ 84 # pad2_int h @ 58 # pad2_int mi"

definition month_number :: "int \<Rightarrow> int" where
  "month_number n = 12 * utc_year n + utc_month n"

definition recurs :: "jstring \<Rightarrow> int \<Rightarrow> nat \<Rightarrow> int \<Rightarrow> bool" where
  \<comment> \<open>what is meant by the day \<open>k\<close> of the occurrence \<open>i\<close> of a schedule that begins on the day \<open>n\<close>: \<open>i\<close> days later, \<open>i\<close>
     weeks later, or \<open>i\<close> months later on the same day of the month, or on the last where the month is shorter\<close>
  "recurs repeat n i k \<longleftrightarrow>
     (if repeat = lit ''daily'' then k - n = int i
      else if repeat = lit ''weekly'' then k - n = 7 * int i
      else if repeat = lit ''monthly'' then month_number k - month_number n = int i
        \<and> (utc_date k = utc_date n \<or> utc_date k < utc_date n \<and> utc_date (k + 1) = 1)
      else k = n)"

definition recurrence_day :: "jstring \<Rightarrow> int \<Rightarrow> nat \<Rightarrow> int" where
  "recurrence_day repeat n i =
     (if repeat = lit ''daily'' then n + int i
      else if repeat = lit ''weekly'' then n + 7 * int i
      else if repeat = lit ''monthly'' then
        (let m = month_number n + int i
         in civil_day (m div 12) (m mod 12) (min (utc_date n) (days_in (leap (m div 12)) (m mod 12))))
      else n)"

lemma clamped_valid: "valid_civil (m div 12) (m mod 12) (min (utc_date n) (days_in (leap (m div 12)) (m mod 12)))"
  using utc_date_range [of n] days_in_bounds [of "leap (m div 12)" "m mod 12"] by (simp add: valid_civil_def)

lemma utc_after_month: "0 \<le> m \<Longrightarrow> m < 12 \<Longrightarrow> utc_date (civil_day y m (days_in (leap y) m) + 1) = 1"
proof -
  assume m: "0 \<le> m" "m < 12"
  have "civil_day y m (days_in (leap y) m) + 1 = (if m = 11 then civil_day (y + 1) 0 1 else civil_day y (m + 1) 1)"
    using month_end [of m "leap y"] m by (auto simp: civil_day_def day_from_year_Suc days_in_def)
  then show ?thesis
    using m utc_fields_civil(3) [of "y + 1" 0 1] utc_fields_civil(3) [of y "m + 1" 1]
      days_in_bounds [of "leap (y + 1)" 0] days_in_bounds [of "leap y" "m + 1"]
    by (auto simp: valid_civil_def)
qed

lemma recurrence_day: "recurs repeat n i (recurrence_day repeat n i)"
proof -
  define m where "m = month_number n + int i"
  let ?d = "min (utc_date n) (days_in (leap (m div 12)) (m mod 12))"
  note f = utc_fields_civil [OF clamped_valid [of m n]]
  have "utc_date (civil_day (m div 12) (m mod 12) ?d + 1) = 1" if "?d < utc_date n"
  proof -
    have "?d = days_in (leap (m div 12)) (m mod 12)" using that by simp
    then show ?thesis using utc_after_month [of "m mod 12" "m div 12"] by simp
  qed
  then have "utc_date (civil_day (m div 12) (m mod 12) ?d) = utc_date n
      \<or> utc_date (civil_day (m div 12) (m mod 12) ?d) < utc_date n \<and> utc_date (civil_day (m div 12) (m mod 12) ?d + 1) = 1"
    unfolding f by linarith
  moreover have "month_number (civil_day (m div 12) (m mod 12) ?d) = m" unfolding month_number_def f by simp
  ultimately show ?thesis
    by (simp add: recurs_def recurrence_day_def Let_def m_def [symmetric]) (simp add: m_def)
qed

lemma pad2_show: "0 \<le> x \<Longrightarrow> x < 100 \<Longrightarrow> show_number2 (Some x) = pad2_int x"
  by (cases "nat x < 10")
    (simp_all add: show_number2_def show_number_def show_int_def pad2_int_def pad2_def digit_string show_nat.simps [of "nat x"])

lemma plain_date_text: "plain_date (Some (utc_year n), Some (utc_month n + 1), Some (utc_date n)) = date_text n"
  using utc_month_range [of n] utc_date_range [of n] by (simp add: plain_date_def date_text_def pad2_show) (simp add: show_number_def)

definition text_parts :: "int \<Rightarrow> int \<Rightarrow> int \<Rightarrow> date_parts" where
  "text_parts n h mi = \<lparr>p_year = utc_year n, p_month = utc_month n + 1, p_day = utc_date n, p_hour = h, p_minute = mi, p_second = 0\<rparr>"

lemma local_text_parts: "local_text n h mi = render_local (text_parts n h mi)"
  by (simp add: local_text_def date_text_def render_local_def text_parts_def)

lemma length_pad2_int: "0 \<le> x \<Longrightarrow> x < 100 \<Longrightarrow> length (pad2_int x) = 2"
  by (simp add: pad2_int_def pad2_digits)

lemma pattern_text_year:
  assumes "localPattern (local_text n h mi)" "0 \<le> h" "h < 24" "0 \<le> mi" "mi < 60"
  shows "1000 \<le> utc_year n" "utc_year n < 10000"
proof -
  obtain y where y: "utc_year n = int y"
  proof (cases "0 \<le> utc_year n")
    case True
    then show ?thesis using that [of "nat (utc_year n)"] by simp
  next
    case False
    then have "local_text n h mi ! 0 = 45" by (simp add: local_text_def date_text_def show_int_def)
    then show ?thesis using assms(1) by (simp add: localPattern_def is_digit_def)
  qed
  have "length (local_text n h mi) = 16" using assms(1) by (simp add: localPattern_def)
  then have len: "length (show_nat y) = 4"
    using utc_month_range [of n] utc_date_range [of n] assms(2-5)
    by (simp add: local_text_def date_text_def length_pad2_int y show_int_def)
  have "\<not> y < 1000" using length_show_nat [of 3 y] len by auto
  then show "1000 \<le> utc_year n" by (simp add: y)
  have "y < 10 ^ length (show_nat y)"
    using read_nat_bound [of "show_nat y"] show_nat_digits by (simp add: read_show_nat list_all_iff)
  then show "utc_year n < 10000" by (simp add: len y)
qed

lemma match_text:
  assumes "localPattern (local_text n h mi)" "0 \<le> h" "h < 24" "0 \<le> mi" "mi < 60"
  shows "local_match (local_text n h mi) = Some (text_parts n h mi)" "take 10 (local_text n h mi) = date_text n"
proof -
  note y = pattern_text_year [OF assms]
  have "local_match (render_local (text_parts n h mi)) = Some (text_parts n h mi\<lparr>p_second := 0\<rparr>)"
    by (rule match_rendered)
      (use assms y utc_month_range [of n] utc_date_range [of n] in \<open>simp_all add: text_parts_def local_text_parts [symmetric, unfolded text_parts_def]\<close>)
  then show "local_match (local_text n h mi) = Some (text_parts n h mi)" by (simp add: local_text_parts text_parts_def)
  have "length (local_text n h mi) = 16" using assms(1) by (simp add: localPattern_def)
  then have "length (date_text n) = 10"
    using assms(2-5) by (simp add: local_text_def pad2_int_def pad2_digits)
  then show "take 10 (local_text n h mi) = date_text n" by (simp add: local_text_def)
qed

lemma shifted_ymd:
  assumes "1000 \<le> utc_year n" "utc_year n < 10000" "0 \<le> k" "k \<le> 25900"
  shows "utc_ymd (date_utc (utc_year n) (utc_month n + 1 - 1) (utc_date n + k) 0 0 0)
    = (Some (utc_year (n + k)), Some (utc_month (n + k) + 1), Some (utc_date (n + k)))"
proof -
  have "day_from_year 1000 \<le> n" using assms(1) utc_year_ge by blast
  moreover have "n < day_from_year 10000" using assms(2) utc_year_ge [of 10000 n] by linarith
  moreover have "day_from_year 1000 = - 354285" "day_from_year 10000 = 2932897" by (simp_all add: day_from_year_def)
  ultimately have "time_clip (86400000 * (n + k)) = Some (86400000 * (n + k))" using assms(3,4) by (simp add: time_clip_def)
  moreover have "make_day (utc_year n) (utc_month n) (utc_date n + k) = n + k" by (simp add: make_day_add make_day_utc)
  ultimately show ?thesis using assms(1) by (simp add: date_utc_def utc_ymd_def date_day_def)
qed

lemma clamped_month_days:
  assumes "1000 \<le> y" "y < 20000" "0 \<le> m" "m < 12"
  shows "daysInMonth y (m + 1) = Some (days_in (leap y) m)"
proof -
  have "make_day y (m + 1) 0 = civil_day y m (days_in (leap y) m)"
    using make_day_last [of m y] assms(3,4) by simp
  moreover have "day_from_year y \<le> civil_day y m (days_in (leap y) m) \<and> civil_day y m (days_in (leap y) m) < day_from_year (y + 1)"
    using civil_day_in_year [of y m "days_in (leap y) m"] days_in_bounds [of "leap y" m] assms(3,4) by (simp add: valid_civil_def)
  moreover have "day_from_year 1000 \<le> day_from_year y" "day_from_year (y + 1) \<le> day_from_year 20000"
    using assms(1,2) by (simp_all add: day_from_year_mono)
  moreover have "day_from_year 1000 = - 354285" "day_from_year 20000 = 6585322" by (simp_all add: day_from_year_def)
  ultimately have "\<bar>86400000 * make_day y (m + 1) 0\<bar> \<le> 8640000000000000" by linarith
  then have "date_utc y (m + 1) 0 0 0 0 = Some (86400000 * make_day y (m + 1) 0)"
    using assms(1) by (simp add: date_utc_def time_clip_def)
  then show ?thesis using utc_last_day [OF assms(3,4), of y] by (simp add: daysInMonth_def date_day_def)
qed

lemma occurrence_date_text:
  assumes y: "1000 \<le> utc_year n" "utc_year n < 10000" and i: "i \<le> 3700"
  shows "plain_date (occurrence_date repeat (text_parts n h mi) i) = date_text (recurrence_day repeat n i)"
proof -
  have distinct: "lit ''weekly'' \<noteq> lit ''daily''" "lit ''monthly'' \<noteq> lit ''daily''" "lit ''monthly'' \<noteq> lit ''weekly''" by simp_all
  consider "repeat = lit ''daily''" | "repeat = lit ''weekly''" | "repeat = lit ''monthly''"
    | "repeat \<noteq> lit ''daily''" "repeat \<noteq> lit ''weekly''" "repeat \<noteq> lit ''monthly''" by blast
  then show ?thesis
  proof cases
    case 1
    have "int i \<le> 25900" using i by simp
    from shifted_ymd [OF y _ this] plain_date_text [of "n + int i"] 1 show ?thesis
      by (simp add: occurrence_date_def text_parts_def recurrence_day_def)
  next
    case 2
    have "7 * int i \<le> 25900" using i by simp
    from shifted_ymd [OF y _ this] plain_date_text [of "n + 7 * int i"] 2 distinct show ?thesis
      by (simp add: occurrence_date_def text_parts_def recurrence_day_def mult.commute)
  next
    case 3
    define m where "m = month_number n + int i"
    have m: "(12 * utc_year n + (utc_month n + int i)) div 12 = utc_year n + (utc_month n + int i) div 12"
      "(12 * utc_year n + (utc_month n + int i)) mod 12 = (utc_month n + int i) mod 12" by simp_all
    have mi: "m div 12 = utc_year n + (utc_month n + int i) div 12" "m mod 12 = (utc_month n + int i) mod 12"
      using m by (simp_all add: m_def month_number_def add.assoc)
    have "0 \<le> (utc_month n + int i) div 12" "(utc_month n + int i) div 12 < 400"
      using utc_month_range [of n] i div_between [of 12 "utc_month n + int i"] by linarith+
    then have days: "daysInMonth (m div 12) (m mod 12 + 1) = Some (days_in (leap (m div 12)) (m mod 12))"
      using y by (intro clamped_month_days) (simp_all add: mi(1))
    note f = utc_fields_civil [OF clamped_valid [of m n]]
    have "occurrence_date repeat (text_parts n h mi) i
        = (Some (m div 12), Some (m mod 12 + 1), Some (min (utc_date n) (days_in (leap (m div 12)) (m mod 12))))"
      using 3 distinct days by (simp add: occurrence_date_def text_parts_def Let_def mi option2_def)
    also have "\<dots> = (let k = recurrence_day repeat n i in (Some (utc_year k), Some (utc_month k + 1), Some (utc_date k)))"
      using 3 distinct f by (simp add: recurrence_day_def Let_def m_def [symmetric])
    finally show ?thesis by (simp add: Let_def plain_date_text)
  next
    case 4
    then show ?thesis using plain_date_text [of n] by (simp add: occurrence_date_def text_parts_def recurrence_day_def)
  qed
qed

section \<open>The properties\<close>

text \<open>The loop, with the day of each occurrence.\<close>

lemma expansion_days:
  assumes iso: "reads_iso Z" and e: "expandScheduleOccurrences Z s r = Inr occs"
    and times: "parse_date Z (s_starts_at s) = Some st0" "parse_date Z (s_ends_at s) = Some en0"
    and first: "utcToLocalDateTime Z (Some st0) (s_timezone s) = Inr (local_text n h mi)" "localPattern (local_text n h mi)"
      "0 \<le> h" "h < 24" "0 \<le> mi" "mi < 60"
    and until: "until = (if s_repeat_type s = lit ''none'' then Some (date_text n) else s_repeat_until s)"
  obtains N where "N \<le> 3700" "occs = concat (map (occurrences_at Z s r (text_parts n h mi) (Some (en0 - st0))) [0..<N])"
    "N < 3700 \<longrightarrow> expansion_stops Z s r (text_parts n h mi) until N" "\<forall>i<N. \<not> expansion_stops Z s r (text_parts n h mi) until i"
    "\<forall>i\<le>3700. occurrence_local s (text_parts n h mi) i = local_text (recurrence_day (s_repeat_type s) n i) h mi"
    "\<forall>i\<le>3700. past_until until s (text_parts n h mi) i
       \<longleftrightarrow> (\<exists>u. until = Some u \<and> u \<noteq> [] \<and> u < date_text (recurrence_day (s_repeat_type s) n i))"
    "\<forall>i<N. \<exists>t. local_instant Z (local_text (recurrence_day (s_repeat_type s) n i) h mi) (s_timezone s) = Inr (Some t)
       \<and> utcToLocalDateTime Z (Some t) (s_timezone s) = Inr (local_text (recurrence_day (s_repeat_type s) n i) h mi)"
proof -
  note m = match_text [OF first(2-6)]
  have u: "until = (if s_repeat_type s = lit ''none'' then Some (take 10 (local_text n h mi)) else s_repeat_until s)"
    using until m(2) by simp
  have dur: "date_minus (parse_date Z (s_ends_at s)) (Some st0) = Some (en0 - st0)" by (simp add: times(2) date_minus_def)
  obtain N where N: "N \<le> OCCURRENCE_LIMIT" "occs = concat (map (occurrences_at Z s r (text_parts n h mi) (Some (en0 - st0))) [0..<N])"
    "N < OCCURRENCE_LIMIT \<longrightarrow> expansion_stops Z s r (text_parts n h mi) until N"
    "\<forall>i<N. \<not> expansion_stops Z s r (text_parts n h mi) until i
       \<and> is_ok (local_instant Z (occurrence_local s (text_parts n h mi) i) (s_timezone s))"
    using expansion_loop [OF e times(1) first(1) m(1) u] unfolding dur by blast
  have day: "plain_date (occurrence_date (s_repeat_type s) (text_parts n h mi) i) = date_text (recurrence_day (s_repeat_type s) n i)"
    if "i \<le> 3700" for i
    by (rule occurrence_date_text [OF pattern_text_year [OF first(2-6)] that])
  have l: "\<forall>i\<le>3700. occurrence_local s (text_parts n h mi) i = local_text (recurrence_day (s_repeat_type s) n i) h mi"
    using day by (simp add: occurrence_local_def local_text_def) (simp add: text_parts_def)
  have p: "\<forall>i\<le>3700. past_until until s (text_parts n h mi) i
      \<longleftrightarrow> (\<exists>u. until = Some u \<and> u \<noteq> [] \<and> u < date_text (recurrence_day (s_repeat_type s) n i))"
    using day by (auto simp: past_until_def split: option.splits)
  have "\<exists>t. local_instant Z (local_text (recurrence_day (s_repeat_type s) n i) h mi) (s_timezone s) = Inr (Some t)
      \<and> utcToLocalDateTime Z (Some t) (s_timezone s) = Inr (local_text (recurrence_day (s_repeat_type s) n i) h mi)" if before: "i < N" for i
  proof -
    have i: "i \<le> 3700" using before N(1) by (simp add: OCCURRENCE_LIMIT_def)
    obtain v where v: "local_instant Z (local_text (recurrence_day (s_repeat_type s) n i) h mi) (s_timezone s) = Inr v"
      using N(4) [rule_format, OF before] l [rule_format, OF i] unfolding is_ok_iff by auto
    from local_instant_ok [OF this iso] v show ?thesis by blast
  qed
  then show ?thesis using that [of N] N l p by (auto simp: OCCURRENCE_LIMIT_def)
qed

lemma concat_if: "(\<And>i. i \<in> set xs \<Longrightarrow> f i = (if P i then [g i] else [])) \<Longrightarrow> concat (map f xs) = map g (filter P xs)"
  by (induction xs) auto

text \<open>C20. The occurrences of a schedule in a range. A schedule that the zone shows as beginning on the day \<open>n\<close> at \<open>h:mi\<close> has
  an occurrence on each day that \<open>recurs\<close> describes, counted from the first: the day after, the week after, or the month
  after (on the last day where the month is shorter), beginning at the instant that the zone shows as that day and the same
  time, and as long as the first. Returned are, in this order and nothing else changed, those that meet the range, each
  under a key of its own. The expansion goes on to the last date, the end of the range, or 3700 occurrences, and for a
  schedule that does not repeat to the first occurrence; it does not stop before.\<close>

theorem occurrences_of_range:
  assumes iso: "reads_iso Z" and e: "expandScheduleOccurrences Z s \<lparr>range_start = Some lo, range_end = Some hi\<rparr> = Inr occs"
    and times: "parse_date Z (s_starts_at s) = Some st0" "parse_date Z (s_ends_at s) = Some en0"
    and first: "utcToLocalDateTime Z (Some st0) (s_timezone s) = Inr (local_text n h mi)" "localPattern (local_text n h mi)"
      "0 \<le> h" "h < 24" "0 \<le> mi" "mi < 60"
    and until: "until = (if s_repeat_type s = lit ''none'' then Some (date_text n) else s_repeat_until s)"
  shows "\<exists>N day st. N \<le> 3700 \<and> (\<forall>i. recurs (s_repeat_type s) n i (day i))
    \<and> (\<forall>i<N. utcToLocalDateTime Z (Some (st i)) (s_timezone s) = Inr (local_text (day i) h mi))
    \<and> occs = map (\<lambda>i. \<lparr>o_schedule = s\<lparr>s_starts_at := iso_string (st i), s_ends_at := iso_string (st i + (en0 - st0))\<rparr>,
                      o_key = s_id s @ 58 # iso_string (st i)\<rparr>)
               (filter (\<lambda>i. st i < hi \<and> lo < st i + (en0 - st0) \<and> \<bar>st i + (en0 - st0)\<bar> \<le> 8640000000000000) [0..<N])
    \<and> (\<forall>i<N. (s_repeat_type s \<in> {lit ''daily'', lit ''weekly'', lit ''monthly''} \<or> i = 0)
         \<and> \<not> (\<exists>u. until = Some u \<and> u \<noteq> [] \<and> u < date_text (day i)) \<and> (s_repeat_type s = lit ''none'' \<or> st i < hi))
    \<and> (N = 3700 \<or> s_repeat_type s \<notin> {lit ''daily'', lit ''weekly'', lit ''monthly''} \<and> N = 1
        \<or> (\<exists>u. until = Some u \<and> u \<noteq> [] \<and> u < date_text (day N))
        \<or> (\<exists>t. utcToLocalDateTime Z (Some t) (s_timezone s) = Inr (local_text (day N) h mi) \<and> hi \<le> t))
    \<and> distinct (map o_key occs)"
proof -
  let ?r = "\<lparr>range_start = Some lo, range_end = Some hi\<rparr>" and ?p = "text_parts n h mi" and ?day = "recurrence_day (s_repeat_type s) n"
  obtain N where N: "N \<le> 3700" "occs = concat (map (occurrences_at Z s ?r ?p (Some (en0 - st0))) [0..<N])"
    and stop: "N < 3700 \<longrightarrow> expansion_stops Z s ?r ?p until N" "\<forall>i<N. \<not> expansion_stops Z s ?r ?p until i"
    and local: "\<forall>i\<le>3700. occurrence_local s ?p i = local_text (?day i) h mi"
    and past: "\<forall>i\<le>3700. past_until until s ?p i \<longleftrightarrow> (\<exists>u. until = Some u \<and> u \<noteq> [] \<and> u < date_text (?day i))"
    and inst: "\<forall>i<N. \<exists>t. local_instant Z (local_text (?day i) h mi) (s_timezone s) = Inr (Some t)
       \<and> utcToLocalDateTime Z (Some t) (s_timezone s) = Inr (local_text (?day i) h mi)"
    by (rule expansion_days [OF assms])
  obtain st where st: "local_instant Z (local_text (?day i) h mi) (s_timezone s) = Inr (Some (st i))"
    "utcToLocalDateTime Z (Some (st i)) (s_timezone s) = Inr (local_text (?day i) h mi)" if "i < N" for i
    using inst by metis
  have each: "occurrences_at Z s ?r ?p (Some (en0 - st0)) i =
      (if st i < hi \<and> lo < st i + (en0 - st0) \<and> \<bar>st i + (en0 - st0)\<bar> \<le> 8640000000000000
       then [\<lparr>o_schedule = s\<lparr>s_starts_at := iso_string (st i), s_ends_at := iso_string (st i + (en0 - st0))\<rparr>,
              o_key = s_id s @ 58 # iso_string (st i)\<rparr>] else [])" if "i < N" for i
    using st(1) [OF that] local that N(1)
    by (auto simp: occurrences_at_def option2_def new_date_def time_clip_def date_less_def)
  have go: "(repeats (s_repeat_type s) \<or> i = 0) \<and> \<not> (\<exists>u. until = Some u \<and> u \<noteq> [] \<and> u < date_text (?day i))
      \<and> (s_repeat_type s = lit ''none'' \<or> st i < hi)" if "i < N" for i
    using stop(2) st(1) [OF that] local past that N(1) by (auto simp: expansion_stops_def date_le_def)
  have occs: "occs = map (\<lambda>i. \<lparr>o_schedule = s\<lparr>s_starts_at := iso_string (st i), s_ends_at := iso_string (st i + (en0 - st0))\<rparr>,
        o_key = s_id s @ 58 # iso_string (st i)\<rparr>)
      (filter (\<lambda>i. st i < hi \<and> lo < st i + (en0 - st0) \<and> \<bar>st i + (en0 - st0)\<bar> \<le> 8640000000000000) [0..<N])"
    unfolding N(2) by (rule concat_if) (use each in simp)
  have last: "N = 3700 \<or> \<not> repeats (s_repeat_type s) \<and> N = 1
      \<or> (\<exists>u. until = Some u \<and> u \<noteq> [] \<and> u < date_text (?day N))
      \<or> (\<exists>t. utcToLocalDateTime Z (Some t) (s_timezone s) = Inr (local_text (?day N) h mi) \<and> hi \<le> t)"
  proof (cases "N = 3700")
    case False
    then have "expansion_stops Z s ?r ?p until N" "N \<le> 3700" using stop(1) N(1) by simp_all
    moreover have "N = 1" if "\<not> repeats (s_repeat_type s)" "0 < N"
      using go [of 1] that by (cases "1 < N") simp_all
    moreover have "\<exists>t. utcToLocalDateTime Z (Some t) (s_timezone s) = Inr (local_text (?day N) h mi) \<and> hi \<le> t"
      if "local_instant Z (local_text (?day N) h mi) (s_timezone s) = Inr v" "date_le (Some hi) v" for v
      using local_instant_ok [OF that(1) iso] that(2) by (auto simp: date_le_def)
    ultimately show ?thesis using local past by (auto simp: expansion_stops_def)
  qed simp
  have dist: "distinct (map o_key occs)" unfolding N(2) by (rule occurrences_distinct [OF iso stop(2)])
  have rep: "repeats (s_repeat_type s) \<longleftrightarrow> s_repeat_type s \<in> {lit ''daily'', lit ''weekly'', lit ''monthly''}"
    unfolding repeats_def by blast
  have each_day: "\<forall>i. recurs (s_repeat_type s) n i (?day i)"
    "\<forall>i<N. utcToLocalDateTime Z (Some (st i)) (s_timezone s) = Inr (local_text (?day i) h mi)"
    using recurrence_day st(2) by blast+
  have on: "\<forall>i<N. (s_repeat_type s \<in> {lit ''daily'', lit ''weekly'', lit ''monthly''} \<or> i = 0)
      \<and> \<not> (\<exists>u. until = Some u \<and> u \<noteq> [] \<and> u < date_text (?day i)) \<and> (s_repeat_type s = lit ''none'' \<or> st i < hi)"
    using go unfolding rep by blast
  show ?thesis
    by (rule exI [of _ N], rule exI [of _ ?day], rule exI [of _ st]) (intro conjI N(1) each_day occs on last [unfolded rep] dist)
qed

definition utc_zone :: zone_env where
  "utc_zone = sample_zone 0 0 0\<lparr>parse_date := read_iso\<rparr>"

lemma utc_zone_reads: "reads_iso utc_zone"
  by (simp add: reads_iso_def utc_zone_def read_iso_string)

lemma utc_zone_facts: "valid_zone utc_zone z" "bounded_zone utc_zone z" "offset_at utc_zone z k = 0"
  by (simp_all add: utc_zone_def sample_zone_def bounded_zone_def offset_at_def)

lemma utc_one_change: "one_change utc_zone z w"
  unfolding one_change_def by (intro exI [of _ 0] exI) (simp add: utc_zone_facts)

definition sample_schedule :: workspace_schedule where
  "sample_schedule = sample_event\<lparr>s_starts_at := iso_string 1711855800000, s_ends_at := iso_string 1711859400000,
     s_repeat_type := lit ''none''\<rparr>"

definition wide_range :: calendar_range where
  "wide_range = \<lparr>range_start = Some 0, range_end = Some 2000000000000\<rparr>"

lemma sample_schedule_local:
  "parse_date utc_zone (s_starts_at sample_schedule) = Some 1711855800000"
  "utcToLocalDateTime utc_zone (Some 1711855800000) (s_timezone sample_schedule) = Inr (lit ''2024-03-31T03:30'')"
  using render_local_second [of utc_zone 1711855800 "s_timezone sample_schedule"]
  by (simp_all add: sample_schedule_def utc_zone_facts rendered_1711855800) (simp add: utc_zone_def read_iso_string)

lemma sample_match:
  "local_match (lit ''2024-03-31T03:30'')
    = Some \<lparr>p_year = 2024, p_month = 3, p_day = 31, p_hour = 3, p_minute = 30, p_second = 0\<rparr>"
  using match_fields [of 1711855800, unfolded rendered_1711855800, OF sample_pattern] by (simp add: fields_1711855800)

lemma sample_schedule_expands:
  "\<exists>occs. expandScheduleOccurrences utc_zone sample_schedule wide_range = Inr occs"
proof -
  let ?p = "\<lparr>p_year = 2024, p_month = 3, p_day = 31, p_hour = 3, p_minute = 30, p_second = 0\<rparr>"
  have types: "s_repeat_type sample_schedule = lit ''none''" "\<not> repeats (lit ''none'')"
    by (simp_all add: sample_schedule_def repeats_def)
  have d: "plain_date (occurrence_date (lit ''none'') ?p 0) = lit ''2024-03-31''"
    by (simp add: occurrence_date_def plain_date_def show_number_def show_number2_def show_int_def show_2024 digit_string
        show_nat.simps [of 31]) (simp add: lit_def)
  have l: "occurrence_local sample_schedule ?p 0 = lit ''2024-03-31T03:30''"
    by (simp add: occurrence_local_def types d pad2_int_def pad2_digits) (simp add: lit_def)
  have "localDateTimeToUtc utc_zone (lit ''2024-03-31T03:30'') (s_timezone sample_schedule)
      = Inr (iso_string (1000 * correct_wall utc_zone (s_timezone sample_schedule) 1711855800))"
    by (rule conversion_complete [where k = 1711855800])
      (use sample_schedule_local(2) sample_pattern sample_in_era in \<open>simp_all add: utc_zone_facts utc_one_change\<close>)
  then have i: "local_instant utc_zone (lit ''2024-03-31T03:30'') (s_timezone sample_schedule)
      = Inr (parse_date utc_zone (iso_string (1000 * correct_wall utc_zone (s_timezone sample_schedule) 1711855800)))"
    by (simp add: local_instant_def)
  have "[0..<OCCURRENCE_LIMIT] = 0 # [Suc 0..<OCCURRENCE_LIMIT]" "[Suc 0..<OCCURRENCE_LIMIT] = Suc 0 # [Suc (Suc 0)..<OCCURRENCE_LIMIT]"
    by (rule upt_conv_Cons, simp add: OCCURRENCE_LIMIT_def)+
  then have up: "[0..<OCCURRENCE_LIMIT] = 0 # Suc 0 # [Suc (Suc 0)..<OCCURRENCE_LIMIT]" by simp
  have t: "take 10 (lit ''2024-03-31T03:30'') = lit ''2024-03-31''" by (simp add: lit_def)
  show ?thesis
    unfolding expandScheduleOccurrences_def Let_def sample_schedule_local bind_r_simps sample_match option.case types(1) up t
    by (simp add: expand_step types l i past_until_def d)
qed

lemma sample_text: "local_text 19813 3 30 = lit ''2024-03-31T03:30''"
  using rendered_1711855800 by (simp add: local_text_parts text_parts_def day_19813 fields_1711855800)

lemma occurrences_of_range_witness:
  "\<exists>occs. expandScheduleOccurrences utc_zone sample_schedule wide_range = Inr occs \<and> distinct (map o_key occs)"
proof -
  obtain occs where e: "expandScheduleOccurrences utc_zone sample_schedule \<lparr>range_start = Some 0, range_end = Some 2000000000000\<rparr> = Inr occs"
    using sample_schedule_expands by (auto simp: wide_range_def)
  have end0: "parse_date utc_zone (s_ends_at sample_schedule) = Some 1711859400000"
    by (simp add: sample_schedule_def utc_zone_def read_iso_string)
  note first = sample_schedule_local(2) [folded sample_text] and pat = sample_pattern [folded sample_text]
  from occurrences_of_range [OF utc_zone_reads e sample_schedule_local(1) end0 first pat _ _ _ _ refl] e
  show ?thesis by (auto simp: wide_range_def)
qed

text \<open>An occurrence whose local time is skipped by its zone ends the whole expansion with the error, whatever came before.\<close>

lemma gap_aborts_expansion:
  assumes "\<forall>i<k. \<not> expansion_stops Z s r p until i \<and> is_ok (local_instant Z (occurrence_local s p i) (s_timezone s))"
    and "k < M" "local_instant Z (occurrence_local s p k) (s_timezone s) = Inl e"
    and "repeats (s_repeat_type s)" "\<not> past_until until s p k"
  shows "j \<le> k \<Longrightarrow> expand_loop Z s r p duration until [j..<M] result = Inl e"
proof (induction "k - j" arbitrary: j result)
  case 0
  then have "[j..<M] = k # [Suc k..<M]" using assms(2) by (simp add: upt_rec)
  then show ?case using assms(3-5) by (simp add: expand_step)
next
  case (Suc n)
  then have j: "j < k" by simp
  then have "[j..<M] = j # [Suc j..<M]" using assms(2) by (simp add: upt_rec)
  moreover have "\<not> expansion_stops Z s r p until j" "is_ok (local_instant Z (occurrence_local s p j) (s_timezone s))"
    using assms(1) j by auto
  moreover have "expand_loop Z s r p duration until [Suc j..<M] res = Inl e" for res
    by (rule Suc.hyps(1)) (use Suc.hyps(2) j in simp_all)
  ultimately show ?case by (auto simp: expand_step expansion_stops_def is_ok_iff)
qed

definition shows_second :: "int \<Rightarrow> jstring \<Rightarrow> bool" where
  \<comment> \<open>the text \<open>v\<close> is the local date and time of the full minute \<open>w\<close>\<close>
  "shows_second w v \<longleftrightarrow> w mod 60 = 0 \<and> v = render_local (fields_of_second w) \<and> localPattern v"

lemma steady_second:
  assumes st: "steady_days Z z a lo hi" and w: "lo \<le> w div 86400" "w div 86400 \<le> hi"
  shows "\<bar>k - w\<bar> < 86400 \<Longrightarrow> offset_at Z z k = a" "in_era w"
proof -
  have d: "86400 * (w div 86400) \<le> w" "w < 86400 * (w div 86400) + 86400" using div_between [of 86400 w] by simp_all
  show "offset_at Z z k = a" if "\<bar>k - w\<bar> < 86400"
    by (rule steady_at [OF st w]) (use d that in \<open>auto simp: abs_less_iff\<close>)
  have "day_from_year 101 \<le> lo" "hi \<le> 99999997" using st by (simp_all add: steady_days_def)
  then show "in_era w" using d w unfolding in_era_def first_second by simp
qed

lemma steady_conversion:
  assumes st: "steady_days Z z a lo hi" and w: "lo \<le> w div 86400" "w div 86400 \<le> hi" and v: "shows_second w v"
  shows "localDateTimeToUtc Z v z = Inr (iso_string (1000 * (w - a)))"
    "utcToLocalDateTime Z (Some (1000 * (w - a))) z = Inr v" "\<bar>1000 * (w - a)\<bar> \<le> 8640000000000000"
proof -
  note zone = steady_daysD(1,2) [OF st]
  note near = steady_second(1) [OF st w]
  have "\<bar>a\<bar> < 86400" by (rule steady_offset [OF st]) (use w in simp)
  then have k: "(w - a) + offset_at Z z (w - a) = w" "\<bar>(w - a) - w\<bar> < 86400" using near [of "w - a"] by simp_all
  have one: "one_change Z z w"
    unfolding one_change_def by (intro exI [of _ 0] exI [of _ a] exI [of _ a]) (simp add: near)
  show r: "utcToLocalDateTime Z (Some (1000 * (w - a))) z = Inr v"
    unfolding render_local_second k(1) using zone(1) v by (simp add: shows_second_def)
  have "localDateTimeToUtc Z v z = Inr (iso_string (1000 * correct_wall Z z w))"
    by (rule conversion_complete [OF zone one steady_second(2) [OF st w] _ k(1) _ r]) (use v in \<open>auto simp: shows_second_def\<close>)
  then show "localDateTimeToUtc Z v z = Inr (iso_string (1000 * (w - a)))"
    by (simp add: correct_wall_steady [OF zone(2) near])
  show "\<bar>1000 * (w - a)\<bar> \<le> 8640000000000000"
    using near_era(3) [OF steady_second(2) [OF st w] k(2)] by (simp add: new_date_def time_clip_def split: if_splits)
qed

lemma steady_instant:
  assumes "steady_days Z z a lo hi" "lo \<le> w div 86400" "w div 86400 \<le> hi" "shows_second w v" "reads_iso Z"
  shows "local_instant Z v z = Inr (Some (1000 * (w - a)))"
  using steady_conversion [OF assms(1-4)] assms(5) by (simp add: local_instant_def reads_iso_def)

text \<open>Moving the start of a draft keeps its duration: while the offset of the zone does not change, a draft that
  lasted from one full minute to a later one gets, with a new start, the end that is as much later; the moved draft
  passes the check of the times, and the instants it is saved with differ by the old duration.\<close>

theorem moved_draft_keeps_duration:
  assumes st: "steady_days Z (d_timezone d) a lo hi" and iso: "reads_iso Z"
    and old: "shows_second w1 (d_starts_at d)" "shows_second w2 (d_ends_at d)" "w1 < w2"
    and new: "shows_second w3 v" "shows_second (w3 + (w2 - w1)) e"
    and days: "list_all (\<lambda>w. lo \<le> w div 86400 \<and> w div 86400 \<le> hi) [w1, w2, w3, w3 + (w2 - w1)]"
    and filled: "js_trim (d_title d) \<noteq> []" "d_repeat_type d = lit ''none''" "d_calendar_id d \<noteq> []"
  shows "moveScheduleStart Z d v = Inr (d\<lparr>d_starts_at := v, d_ends_at := e\<rparr>)
    \<and> (\<exists>y. scheduleDraftPayload Z (d\<lparr>d_starts_at := v, d_ends_at := e\<rparr>) = Inr y
        \<and> parse_date Z (y_starts_at y) = Some (1000 * (w3 - a))
        \<and> parse_date Z (y_ends_at y) = Some (1000 * (w3 - a) + 1000 * (w2 - w1)))"
proof -
  have d: "lo \<le> w1 div 86400" "w1 div 86400 \<le> hi" "lo \<le> w2 div 86400" "w2 div 86400 \<le> hi" "lo \<le> w3 div 86400"
    "w3 div 86400 \<le> hi" "lo \<le> (w3 + (w2 - w1)) div 86400" "(w3 + (w2 - w1)) div 86400 \<le> hi" using days by simp_all
  note i1 = steady_instant [OF st d(1,2) old(1) iso] and i2 = steady_instant [OF st d(3,4) old(2) iso]
    and i3 = steady_instant [OF st d(5,6) new(1) iso] and c3 = steady_conversion [OF st d(5,6) new(1)]
    and c4 = steady_conversion [OF st d(7,8) new(2)]
  have dur: "draft_duration Z d = 1000 * (w2 - w1)"
    using i1 i2 old(3) by (simp add: draft_duration_def)
  have sum: "1000 * (w3 - a) + draft_duration Z d = 1000 * (w3 + (w2 - w1) - a)" by (simp add: dur)
  have clip: "new_date (Some (1000 * (w3 + (w2 - w1) - a))) = Some (1000 * (w3 + (w2 - w1) - a))"
    using c4(3) by (simp only: new_date_def option.case time_clip_def if_True)
  have pat: "localPattern v" using new(1) by (auto simp: shows_second_def)
  have "moveScheduleStart Z d v = Inr (d\<lparr>d_starts_at := v, d_ends_at := e\<rparr>)"
    unfolding moveScheduleStart_def i3 bind_r_simps option.map sum clip c4(2) using pat by (simp only: simp_thms if_False)
  moreover have "parse_date Z (iso_string (1000 * (w3 - a))) = Some (1000 * (w3 - a))"
    "parse_date Z (iso_string (1000 * (w3 + (w2 - w1) - a))) = Some (1000 * (w3 + (w2 - w1) - a))"
    using iso c3(3) c4(3) unfolding reads_iso_def by blast+
  moreover have "1000 * (w3 + (w2 - w1) - a) = 1000 * (w3 - a) + 1000 * (w2 - w1)" by simp
  ultimately show ?thesis
    using old(3) filled c3(1) c4(1)
    by (simp add: scheduleDraftPayload_def lift_date_def date_le_def)
qed

definition sample_draft :: schedule_draft where
  "sample_draft = \<lparr>d_schedule_id = None, d_title = lit ''t'', d_starts_at = lit ''2024-03-31T03:30'',
     d_ends_at = render_local (fields_of_second 1711859400), d_location = [], d_attendees = [], d_repeat_type = lit ''none'',
     d_repeat_until = [], d_alert_minutes = [], d_description = [], d_timezone = [], d_calendar_id = lit ''c''\<rparr>"

lemma utc_steady: "- 682638 \<le> lo \<Longrightarrow> hi \<le> 99999997 \<Longrightarrow> steady_days utc_zone z 0 lo hi"
  by (simp add: steady_days_def utc_zone_facts) (simp add: utc_zone_def sample_zone_def first_second)

lemma sample_seconds:
  "shows_second 1711855800 (lit ''2024-03-31T03:30'')"
  "shows_second 1711859400 (render_local (fields_of_second 1711859400))"
proof -
  show "shows_second 1711855800 (lit ''2024-03-31T03:30'')"
    using sample_pattern by (simp add: shows_second_def rendered_1711855800)
  have "fields_of_second 1711859400 = \<lparr>p_year = 2024, p_month = 3, p_day = 31, p_hour = 4, p_minute = 30, p_second = 0\<rparr>"
    by (simp add: fields_of_second_def shown_year_def day_19813)
  then have "render_local (fields_of_second 1711859400) = lit ''2024-03-31T04:30''"
    by (simp add: render_local_def show_int_def show_2024 pad2_int_def pad2_digits) (simp add: lit_def)
  moreover have "localPattern (lit ''2024-03-31T04:30'')" by (simp add: localPattern_def lit_def is_digit_def)
  ultimately show "shows_second 1711859400 (render_local (fields_of_second 1711859400))" by (simp add: shows_second_def)
qed

lemma moved_draft_keeps_duration_witness:
  "moveScheduleStart utc_zone sample_draft (lit ''2024-03-31T03:30'') = Inr sample_draft"
proof -
  have st: "steady_days utc_zone (d_timezone sample_draft) 0 0 30000" by (rule utc_steady) simp_all
  have w: "1711855800 + (1711859400 - 1711855800) = (1711859400 :: int)" by simp
  have "js_trim (lit ''t'') = lit ''t''" by (rule js_trim_fixed) (simp_all add: lit_def js_ws_def)
  then show ?thesis
    using moved_draft_keeps_duration [OF st utc_zone_reads, of 1711855800 1711859400 1711855800 "lit ''2024-03-31T03:30''"
        "render_local (fields_of_second 1711859400)"] sample_seconds
    by (simp add: sample_draft_def)
qed

text \<open>C21. What the form sends is what the user saw: a payload exists only for a draft with a title and a calendar, its times
  are instants that the zone shows as the times of the draft, the end lies after the start, a repeated schedule does not
  end before its first day, and the alerts are those of the draft in ascending order.\<close>

theorem payload_as_shown:
  assumes "reads_iso Z" "scheduleDraftPayload Z d = Inr y"
  shows "(\<exists>st en. parse_date Z (y_starts_at y) = Some st \<and> parse_date Z (y_ends_at y) = Some en \<and> st < en
        \<and> utcToLocalDateTime Z (Some st) (y_timezone y) = Inr (d_starts_at d)
        \<and> utcToLocalDateTime Z (Some en) (y_timezone y) = Inr (d_ends_at d))
    \<and> y_title y \<noteq> [] \<and> js_trim (y_title y) = y_title y \<and> y_calendar_id y \<noteq> []
    \<and> (case y_repeat_until y of None \<Rightarrow> y_repeat_type y = lit ''none''
        | Some u \<Rightarrow> u \<noteq> [] \<and> \<not> u < take 10 (d_starts_at d))
    \<and> sorted (y_alert_minutes y) \<and> mset (y_alert_minutes y) = mset (d_alert_minutes d)"
proof -
  obtain st en where c: "localDateTimeToUtc Z (d_starts_at d) (d_timezone d) = Inr st"
    "localDateTimeToUtc Z (d_ends_at d) (d_timezone d) = Inr en" "\<not> date_le (parse_date Z en) (parse_date Z st)"
    and y: "y_starts_at y = st" "y_ends_at y = en" "y_timezone y = d_timezone d" "y_title y = js_trim (d_title d)"
    "js_trim (d_title d) \<noteq> []" "y_calendar_id y = d_calendar_id d" "d_calendar_id d \<noteq> []"
    "y_repeat_type y = d_repeat_type d" "y_alert_minutes y = sort (d_alert_minutes d)"
    "\<not> (d_repeat_type d \<noteq> lit ''none'' \<and> (d_repeat_until d = [] \<or> d_repeat_until d < localDate (d_starts_at d)))"
    "y_repeat_until y = (if d_repeat_type d = lit ''none'' then None else Some (d_repeat_until d))"
    using assms(2) by (auto simp: scheduleDraftPayload_def bind_r_ok lift_date_def split: sum.splits)
  obtain t where t: "st = iso_string t" "\<bar>t\<bar> \<le> 8640000000000000" "utcToLocalDateTime Z (Some t) (d_timezone d) = Inr (d_starts_at d)"
    by (rule conversion_range [OF c(1)])
  obtain u where u: "en = iso_string u" "\<bar>u\<bar> \<le> 8640000000000000" "utcToLocalDateTime Z (Some u) (d_timezone d) = Inr (d_ends_at d)"
    by (rule conversion_range [OF c(2)])
  have p: "parse_date Z st = Some t" "parse_date Z en = Some u"
    using assms(1) t(1,2) u(1,2) by (simp_all add: reads_iso_def)
  have "t < u" using c(3) by (simp add: p date_le_def)
  then show ?thesis using p t(3) u(3) y by (auto simp: localDate_def)
qed

lemma payload_as_shown_witness:
  "\<exists>y. scheduleDraftPayload utc_zone sample_draft = Inr y \<and> y_title y \<noteq> []"
proof -
  have c: "localDateTimeToUtc utc_zone (d_starts_at sample_draft) (d_timezone sample_draft) = Inr (iso_string 1711855800000)"
    "localDateTimeToUtc utc_zone (d_ends_at sample_draft) (d_timezone sample_draft) = Inr (iso_string 1711859400000)"
    using steady_conversion(1) [OF utc_steady _ _ sample_seconds(1), of 0 30000 "d_timezone sample_draft"]
      steady_conversion(1) [OF utc_steady _ _ sample_seconds(2), of 0 30000 "d_timezone sample_draft"]
    by (simp_all add: sample_draft_def)
  have "js_trim (lit ''t'') = lit ''t''" by (rule js_trim_fixed) (simp_all add: lit_def js_ws_def)
  moreover have "parse_date utc_zone (iso_string 1711855800000) = Some 1711855800000"
    "parse_date utc_zone (iso_string 1711859400000) = Some 1711859400000"
    using utc_zone_reads by (simp_all add: reads_iso_def)
  ultimately obtain y where y: "scheduleDraftPayload utc_zone sample_draft = Inr y"
    unfolding scheduleDraftPayload_def c by (auto simp: lift_date_def date_le_def sample_draft_def)
  with payload_as_shown [OF utc_zone_reads y] show ?thesis by blast
qed

end
