(* ===== verification/Schedule_Api.thy ===== *)
theory Schedule_Api
  imports Schedule_Form Interfaces
begin

text \<open>
  The schedule module of the mobile client (\<open>mobile-app/schedule-api.js\<close>): date and month keys, the month grid, the
  filter of a month, the default calendar, the payload of a new schedule, the error text and the submission gate. The
  lemmas relate its keys to those of the web calendar and place every schedule of a month in a cell of the grid.
\<close>

section \<open>Keys\<close>

definition api_dateKey :: "zone_env \<Rightarrow> jsdate \<Rightarrow> jstring \<Rightarrow> date_error + jstring" where
  \<comment> \<open>\<open>dateKey(value, timezone)\<close> of the date that \<open>new Date(value)\<close> is; months and days have two digits\<close>
  "api_dateKey Z d z =
     (case d of None \<Rightarrow> Inr []
      | Some t \<Rightarrow> bind_r (format_parts Z (Some t) z) (\<lambda>p.
          Inr (show_int (p_year p) @ 45 # pad2_int (p_month p) @ 45 # pad2_int (p_day p))))"

definition monthKeyForDate :: "zone_env \<Rightarrow> jsdate \<Rightarrow> jstring \<Rightarrow> date_error + jstring" where
  "monthKeyForDate Z d z = bind_r (api_dateKey Z d z) (\<lambda>k. Inr (take 7 k))"

datatype month_arg = Month_key jstring | Month_date jsdate

definition month_key_shape :: "jstring \<Rightarrow> bool" where
  \<comment> \<open>the regular expression \<open>^(\d{4})-(0[1-9]|1[0-2])$\<close>\<close>
  "month_key_shape k \<longleftrightarrow>
     length k = 7 \<and> list_all is_digit (take 4 k) \<and> k ! 4 = 45
     \<and> (k ! 5 = 48 \<and> 49 \<le> k ! 6 \<and> k ! 6 \<le> 57 \<or> k ! 5 = 49 \<and> 48 \<le> k ! 6 \<and> k ! 6 \<le> 50)"

definition month_key_message :: jstring where
  \<comment> \<open>the message that a month key YYYY-MM is needed\<close>
  "month_key_message = [50976, 54952, 54620, 32, 89, 89, 89, 89, 45, 77, 77, 32, 50900, 32, 107, 101, 121, 44032, 32,
     54596, 50836, 54633, 45768, 45796, 46]"

definition monthParts :: "month_arg \<Rightarrow> date_error + int option \<times> int option" where
  \<comment> \<open>the year and the month index; both are NaN for an invalid date\<close>
  "monthParts month =
     (case month of
        Month_key k \<Rightarrow>
          if month_key_shape k then Inr (Some (number_at 0 4 k), Some (number_at 5 2 k - 1))
          else Inl (Message_error month_key_message)
      | Month_date d \<Rightarrow> Inr (map_option (\<lambda>t. utc_year (date_day t)) d, map_option (\<lambda>t. utc_month (date_day t)) d))"

definition utc_of_month :: "int option \<Rightarrow> int option \<Rightarrow> int \<Rightarrow> jsdate" where
  \<comment> \<open>\<open>new Date(Date.UTC(year, month, day))\<close>\<close>
  "utc_of_month y m d = (case option2 (\<lambda>y m. date_utc y m d 0 0 0) y m of None \<Rightarrow> None | Some v \<Rightarrow> v)"

definition shiftMonthKey :: "month_arg \<Rightarrow> int \<Rightarrow> date_error + jstring" where
  "shiftMonthKey month amount =
     bind_r (monthParts month) (\<lambda>(year, monthIndex).
       let anchor = map_option date_day (utc_of_month year (map_option (\<lambda>m. m + amount) monthIndex) 1)
       in Inr (show_number (map_option utc_year anchor) @ 45 # show_number2 (map_option (\<lambda>n. utc_month n + 1) anchor)))"

type_synonym grid_cell = "jstring \<times> nat option"

definition buildMonthGrid :: "month_arg \<Rightarrow> date_error + grid_cell list" where
  \<comment> \<open>an array whose length is NaN is empty\<close>
  "buildMonthGrid month =
     bind_r (monthParts month) (\<lambda>(year, monthIndex).
       let firstDay = utc_week_day (utc_of_month year monthIndex 1);
           days = map_option (\<lambda>t. utc_date (date_day t)) (utc_of_month year (map_option (\<lambda>m. m + 1) monthIndex) 0)
       in case (firstDay, days) of
            (Some f, Some n) \<Rightarrow>
              Inr (map (\<lambda>i. if int i < f then ([], None)
                     else (let day = i - nat f + 1
                           in (show_number year @ 45 # show_number2 (map_option (\<lambda>m. m + 1) monthIndex) @ 45 # pad2 day, Some day)))
                   [0..<nat (f + n)])
          | _ \<Rightarrow> Inr [])"

definition filterSchedulesForMonth ::
    "zone_env \<Rightarrow> workspace_schedule list \<Rightarrow> jstring \<Rightarrow> jstring \<Rightarrow> date_error + workspace_schedule list" where
  \<comment> \<open>a value that is not an array counts as the empty one\<close>
  "filterSchedulesForMonth Z schedules monthKey z =
     bind_r (map_r (\<lambda>s. bind_r (api_dateKey Z (parse_date Z (s_starts_at s)) z) (\<lambda>k. Inr (js_starts_with k monthKey))) schedules)
       (\<lambda>bs. Inr (map fst (filter snd (zip schedules bs))))"

section \<open>Calendars, payloads and messages\<close>

definition array_or_empty :: "jsval \<Rightarrow> jsval list" where
  "array_or_empty v = (case arr_of v of None \<Rightarrow> [] | Some xs \<Rightarrow> xs)"

definition selectDefaultCalendar :: "jsval \<Rightarrow> jsval" where
  "selectDefaultCalendar body =
     (let owned = array_or_empty (js_opt body (lit ''owned''));
          found = (case find (\<lambda>c. truthy (js_opt c (lit ''isDefault''))) owned of None \<Rightarrow> JUndef | Some c \<Rightarrow> c)
      in js_or (js_or found (case owned of [] \<Rightarrow> JUndef | c # cs \<Rightarrow> c)) JNull)"

definition date_of_value :: "js_env \<Rightarrow> zone_env \<Rightarrow> jsval \<Rightarrow> jsdate" where
  \<comment> \<open>\<open>new Date(v)\<close>: numbers are cut to whole milliseconds, everything else is read as a text\<close>
  "date_of_value E Z v =
     (case v of
        JUndef \<Rightarrow> None | JNaN \<Rightarrow> None | JInf b \<Rightarrow> None
      | JNull \<Rightarrow> Some 0 | JBool b \<Rightarrow> Some (if b then 1 else 0)
      | JNum q \<Rightarrow> time_clip (if q < 0 then - \<lfloor>- q\<rfloor> else \<lfloor>q\<rfloor>)
      | JStr s \<Rightarrow> parse_date Z s
      | JArr xs \<Rightarrow> parse_date Z (js_string E v)
      | JObj ps \<Rightarrow> parse_date Z (js_string E v))"

definition is_integer :: "jsval \<Rightarrow> bool" where
  \<comment> \<open>\<open>Number.isInteger\<close>\<close>
  "is_integer v = (case v of JNum q \<Rightarrow> of_int \<lfloor>q\<rfloor> = q | _ \<Rightarrow> False)"

datatype api_error = Fields_missing | Times_wrong

definition text_of :: "js_env \<Rightarrow> jsval \<Rightarrow> jstring" where
  \<comment> \<open>\<open>String(v || "")\<close>\<close>
  "text_of E v = js_string E (js_or v (JStr []))"

definition buildSchedulePayload :: "js_env \<Rightarrow> zone_env \<Rightarrow> jsval \<Rightarrow> api_error + jsval" where
  "buildSchedulePayload E Z input =
     (let field = (\<lambda>k. js_opt input (lit k));
          title = js_trim (text_of E (field ''title''));
          start = date_of_value E Z (field ''startsAt'');
          end' = date_of_value E Z (field ''endsAt'');
          alerts = field ''alertMinutes'';
          alertMinutes = (case arr_of alerts of Some xs \<Rightarrow> filter is_integer xs
                          | None \<Rightarrow> [if is_integer alerts then alerts else JNum 10])
      in bind_r (check_r (title \<noteq> [] \<and> truthy (field ''calendarId'') \<and> truthy (field ''timezone'')) Fields_missing) (\<lambda>_.
         bind_r (check_r (start \<noteq> None \<and> end' \<noteq> None \<and> \<not> date_le end' start) Times_wrong) (\<lambda>_.
         Inr (JObj [(lit ''title'', JStr title), (lit ''startsAt'', field ''startsAt''), (lit ''endsAt'', field ''endsAt''),
           (lit ''description'', JStr (text_of E (field ''description''))), (lit ''location'', JStr (text_of E (field ''location''))),
           (lit ''attendeeUserIds'', JArr (filter truthy (array_or_empty (field ''attendeeUserIds'')))),
           (lit ''repeatType'', js_or (field ''repeatType'') (JStr (lit ''none''))),
           (lit ''repeatUntil'', js_or (field ''repeatUntil'') JNull), (lit ''alertMinutes'', JArr alertMinutes),
           (lit ''timezone'', field ''timezone''), (lit ''calendarId'', field ''calendarId'')]))))"

definition scheduleItems :: "jsval \<Rightarrow> jsval list" where
  "scheduleItems body = array_or_empty (js_opt body (lit ''items''))"

definition check_input_message :: jstring where
  "check_input_message = [51068, 51221, 32, 51077, 47141, 44050, 51012, 32, 54869, 51064, 54616, 49464, 50836, 46]"

definition request_failed_message :: jstring where
  "request_failed_message = [51068, 51221, 32, 50836, 52397, 32, 49892, 54056]"

definition scheduleErrorMessage :: "js_env \<Rightarrow> jsval \<Rightarrow> jsval" where
  "scheduleErrorMessage E error =
     (case arr_of (js_opt error (lit ''detail'')) of
        Some xs \<Rightarrow>
          js_or (JStr (js_join [32] (map (js_string E) (filter truthy (map (\<lambda>x. js_opt x (lit ''msg'')) xs)))))
            (JStr check_input_message)
      | None \<Rightarrow> js_or (js_opt error (lit ''message'')) (JStr request_failed_message))"

section \<open>The submission gate\<close>

record submission_gate = locked :: bool

definition createSubmissionGate :: submission_gate where "createSubmissionGate = \<lparr>locked = False\<rparr>"

definition tryEnter :: "submission_gate \<Rightarrow> bool \<times> submission_gate" where
  "tryEnter g = (if locked g then (False, g) else (True, g\<lparr>locked := True\<rparr>))"

definition gate_release :: "submission_gate \<Rightarrow> submission_gate" where "gate_release g = g\<lparr>locked := False\<rparr>"
definition gate_reset :: "submission_gate \<Rightarrow> submission_gate" where "gate_reset g = g\<lparr>locked := False\<rparr>"
definition isLocked :: "submission_gate \<Rightarrow> bool" where "isLocked g = locked g"

interpretation schedule_gate: action_gate tryEnter gate_release gate_reset isLocked
  by unfold_locales (simp_all add: tryEnter_def gate_release_def gate_reset_def isLocked_def)

section \<open>Months in text\<close>

lemma show_nat_4:
  assumes "1000 \<le> y" "y \<le> 9999"
  shows "show_nat y = [48 + y div 1000, 48 + y div 100 mod 10, 48 + y div 10 mod 10, 48 + y mod 10]"
proof -
  have d: "y div 10 div 10 = y div 100" "y div 100 div 10 = y div 1000" by (simp_all add: div_mult2_eq [symmetric])
  have "100 \<le> y div 10" "10 \<le> y div 100" "y div 1000 < 10" using assms by simp_all
  then have "show_nat (y div 1000) = [48 + y div 1000]" "show_nat (y div 100) = show_nat (y div 1000) @ [48 + y div 100 mod 10]"
    "show_nat (y div 10) = show_nat (y div 100) @ [48 + y div 10 mod 10]" "show_nat y = show_nat (y div 10) @ [48 + y mod 10]"
    using assms show_nat.simps [of "y div 1000"] show_nat.simps [of "y div 100"] show_nat.simps [of "y div 10"] show_nat.simps [of y]
    by (simp_all add: d)
  then show ?thesis by simp
qed

definition month_text :: "int \<Rightarrow> int \<Rightarrow> jstring" where
  \<comment> \<open>the key of the month with index \<open>m\<close> of the year \<open>y\<close>\<close>
  "month_text y m = show_nat (nat y) @ 45 # pad2 (nat (m + 1))"

definition day_text :: "int \<Rightarrow> jstring" where
  \<comment> \<open>the key of the day \<open>n\<close>\<close>
  "day_text n = month_text (utc_year n) (utc_month n) @ 45 # pad2 (nat (utc_date n))"

lemma month_parts:
  assumes "1000 \<le> y" "y \<le> 9999" "0 \<le> m" "m < 12"
  shows "monthParts (Month_key (month_text y m)) = Inr (Some y, Some m)" "length (month_text y m) = 7"
proof -
  define k where "k = nat y"
  define j where "j = nat (m + 1)"
  have k: "1000 \<le> k" "k \<le> 9999" "int k = y" and j: "1 \<le> j" "j \<le> 12" "int j = m + 1" using assms by (simp_all add: k_def j_def)
  have t: "month_text y m = [48 + k div 1000, 48 + k div 100 mod 10, 48 + k div 10 mod 10, 48 + k mod 10, 45, 48 + j div 10, 48 + j mod 10]"
    using show_nat_4 [OF k(1,2)] j by (simp add: month_text_def k_def [symmetric] j_def [symmetric] pad2_digits)
  then show "length (month_text y m) = 7" by simp
  have "k div 1000 \<le> 9" "k div 100 mod 10 \<le> 9" "k div 10 mod 10 \<le> 9" "k mod 10 \<le> 9" using k(2) by simp_all
  then have dig: "list_all is_digit (take 4 (month_text y m))" unfolding t by (simp add: is_digit_def)
  have two: "j div 10 = 0 \<and> 1 \<le> j mod 10 \<and> j mod 10 \<le> 9 \<or> j div 10 = 1 \<and> j mod 10 \<le> 2"
    using j(1,2) by (cases "j < 10") (auto simp: le_mod_geq)
  have "month_key_shape (month_text y m)"
    unfolding month_key_shape_def using dig two by (auto simp: t)
  moreover have "number_at 0 4 (month_text y m) = y"
    using read_show_nat [of k] unfolding show_nat_4 [OF k(1,2)] by (simp add: number_at_def t k(3))
  moreover have "number_at 5 2 (month_text y m) = m + 1"
    using read_pad2 [of j] j by (simp add: number_at_def t)
  ultimately show "monthParts (Month_key (month_text y m)) = Inr (Some y, Some m)" by (simp add: monthParts_def)
qed

lemma civil_bounds: "day_from_year y \<le> civil_day y (m mod 12) 1 \<and> civil_day y (m mod 12) 1 < day_from_year (y + 1)"
  using days_in_bounds [of "leap y" "m mod 12"] by (intro civil_day_in_year) (simp add: valid_civil_def)

lemma year_1000_days: "day_from_year 1000 = - 354285" "day_from_year 10000 = 2932897"
  by (simp_all add: day_from_year_def)

lemma date_utc_month:
  assumes "1000 \<le> y + m div 12" "y + m div 12 \<le> 9999" "100 \<le> y" "0 \<le> d" "d \<le> 31"
  shows "date_utc y m d 0 0 0 = Some (86400000 * make_day y m d)"
proof -
  have "day_from_year 1000 \<le> day_from_year (y + m div 12)" "day_from_year (y + m div 12 + 1) \<le> day_from_year 10000"
    using assms by (intro day_from_year_mono; simp)+
  then have "- 354285 \<le> civil_day (y + m div 12) (m mod 12) 1" "civil_day (y + m div 12) (m mod 12) 1 < 2932897"
    using civil_bounds [of "y + m div 12" m] unfolding year_1000_days by linarith+
  moreover have "make_day y m d = civil_day (y + m div 12) (m mod 12) 1 + (d - 1)" by (simp add: make_day_def civil_day_def)
  ultimately have "- 354286 \<le> make_day y m d" "make_day y m d \<le> 2932930" using assms(4,5) by linarith+
  then show ?thesis using assms(3) by (simp add: date_utc_def time_clip_def abs_le_iff)
qed

lemma valid_first: "valid_civil y (m mod 12) 1"
  using days_in_bounds [of "leap y" "m mod 12"] by (simp add: valid_civil_def)

lemma show_number2_pad:
  assumes "0 \<le> x"
  shows "show_number2 (Some x) = pad2 (nat x)"
proof (cases "show_nat (nat x)")
  case (Cons c cs)
  then show ?thesis using assms by (cases cs) (simp_all add: show_number2_def show_number_def show_int_def pad2_def)
qed simp

lemma shift_month_text:
  assumes "1000 \<le> y" "y \<le> 9999" "0 \<le> m" "m < 12" "1000 \<le> y + (m + a) div 12" "y + (m + a) div 12 \<le> 9999"
  shows "shiftMonthKey (Month_key (month_text y m)) a = Inr (month_text (y + (m + a) div 12) ((m + a) mod 12))"
proof -
  have u: "date_utc y (m + a) 1 0 0 0 = Some (86400000 * make_day y (m + a) 1)"
    using assms by (intro date_utc_month) simp_all
  have f: "utc_year (make_day y (m + a) 1) = y + (m + a) div 12" "utc_month (make_day y (m + a) 1) = (m + a) mod 12"
    unfolding make_day_def using utc_fields_civil [OF valid_first] by blast+
  have "0 \<le> (m + a) mod 12 + 1" by simp
  then have "show_number2 (Some ((m + a) mod 12 + 1)) = pad2 (nat ((m + a) mod 12 + 1))" by (rule show_number2_pad)
  then show ?thesis
    unfolding shiftMonthKey_def month_parts(1) [OF assms(1-4)]
    using assms by (simp add: utc_of_month_def option2_def u f date_day_def month_text_def show_number_def show_int_def)
qed

section \<open>The grid of a month\<close>

definition grid_cells :: "int \<Rightarrow> int \<Rightarrow> grid_cell list" where
  \<comment> \<open>blank cells up to the weekday of the first, then the days\<close>
  "grid_cells y m = (let f = civil_day y m 1; k = nat (week_day f) in
     map (\<lambda>i. if i < k then ([], None) else (day_text (f + int i - int k), Some (i - k + 1)))
       [0..<k + nat (days_in (leap y) m)])"

lemma day_text_civil:
  assumes "valid_civil y m d"
  shows "day_text (civil_day y m d) = month_text y m @ 45 # pad2 (nat d)"
  by (simp add: day_text_def utc_fields_civil [OF assms])

lemma month_grid:
  assumes "1000 \<le> y" "y \<le> 9998" "0 \<le> m" "m < 12"
  shows "buildMonthGrid (Month_key (month_text y m)) = Inr (grid_cells y m)"
proof -
  define f where "f = civil_day y m 1"
  define k where "k = nat (week_day f)"
  define n where "n = days_in (leap y) m"
  have n: "28 \<le> n" "n \<le> 31" using days_in_bounds [of "leap y" m] by (simp_all add: n_def)
  have k: "int k = week_day f" using week_day_range(1) [of f] by (simp add: k_def)
  have "date_utc y m 1 0 0 0 = Some (86400000 * f)"
    using date_utc_month [of y m 1] assms by (simp add: f_def make_day_civil)
  then have first: "utc_week_day (utc_of_month (Some y) (Some m) 1) = Some (int k)"
    by (simp add: utc_of_month_def option2_def utc_week_day_def date_day_def k)
  have "(m + 1) div 12 \<le> 1" using assms(4) by simp
  then have "date_utc y (m + 1) 0 0 0 0 = Some (86400000 * make_day y (m + 1) 0)"
    using assms by (intro date_utc_month) simp_all
  then have last: "map_option (\<lambda>t. utc_date (date_day t)) (utc_of_month (Some y) (Some (m + 1)) 0) = Some n"
    using utc_last_day [OF assms(3,4), of y] by (simp add: utc_of_month_def option2_def date_day_def n_def)
  have y: "show_number (Some y) = show_nat (nat y)" using assms(1) by (simp add: show_number_def show_int_def)
  have cell: "(if int i < int k then ([], None)
      else (let day = i - nat (int k) + 1 in (show_number (Some y) @ 45 # show_number2 (Some (m + 1)) @ 45 # pad2 day, Some day)))
      = (if i < k then ([], None) else (day_text (f + int i - int k), Some (i - k + 1)))"
    if "i < k + nat n" for i
  proof (cases "i < k")
    case False
    define d where "d = int (i - k + 1)"
    have d: "1 \<le> d" "d \<le> n" "nat d = i - k + 1" "f + int i - int k = civil_day y m d"
      using False that n by (auto simp: d_def f_def civil_day_def of_nat_diff)
    then have "day_text (f + int i - int k) = month_text y m @ 45 # pad2 (i - k + 1)"
      using day_text_civil [of y m d] assms by (simp add: valid_civil_def n_def)
    then show ?thesis using False assms show_number2_pad [of "m + 1"] by (simp add: y month_text_def)
  qed simp
  have len: "nat (int k + n) = k + nat n" and y9: "y \<le> 9999" using n assms(2) by simp_all
  have "buildMonthGrid (Month_key (month_text y m)) = Inr (map (\<lambda>i. if int i < int k then ([], None)
      else (let day = i - nat (int k) + 1 in (show_number (Some y) @ 45 # show_number2 (Some (m + 1)) @ 45 # pad2 day, Some day)))
      [0..<k + nat n])"
    unfolding buildMonthGrid_def month_parts(1) [OF assms(1) y9 assms(3,4)] bind_r_simps prod.case option.map Let_def
      first last option.case len ..
  also have "\<dots> = Inr (grid_cells y m)"
    unfolding grid_cells_def Let_def f_def [symmetric] k_def [symmetric] n_def [symmetric]
    by (intro arg_cong [of _ _ Inr] map_cong refl) (rule cell [unfolded Let_def], simp)
  finally show ?thesis .
qed

lemma keys_agree: "valid_zone Z z \<Longrightarrow> api_dateKey Z (Some t) z = dateKey Z (Some t) z"
  by (simp add: api_dateKey_def dateKey_def safeTimezone_def partsInTimeZone_def)

lemma key_of_instant:
  assumes "valid_zone Z z" "local_day Z z t = n" "1 \<le> utc_year n"
  shows "api_dateKey Z (Some t) z = Inr (day_text n)"
  using assms by (simp add: api_dateKey_def format_parts_def fields_of_second_def local_day_def Let_def shown_year_def
      show_int_def day_text_def month_text_def pad2_int_def)

lemma day_text_inj:
  assumes "day_text m = day_text n" "0 \<le> utc_year m" "0 \<le> utc_year n"
  shows "m = n"
proof -
  have t: "day_text x = plain_date (utc_ymd (Some (86400000 * x)))" if "0 \<le> utc_year x" for x
    using that utc_month_range [of x] utc_date_range [of x]
    by (simp add: day_text_def month_text_def utc_ymd_def date_day_def plain_date_def show_number2_pad show_number_def show_int_def)
  show ?thesis
    using utc_ymd_inj [of "86400000 * m" "86400000 * n"] assms by (simp add: t date_day_def)
qed

lemma take_day_text: "length (month_text (utc_year n) (utc_month n)) = 7 \<Longrightarrow> take 7 (day_text n) = month_text (utc_year n) (utc_month n)"
  by (simp add: day_text_def)

section \<open>The property\<close>

lemma grid_cell_of_day:
  assumes "p < length (grid_cells y m)" "p \<ge> nat (week_day (civil_day y m 1))"
  shows "grid_cells y m ! p = (day_text (civil_day y m 1 + int p - week_day (civil_day y m 1)),
    Some (p - nat (week_day (civil_day y m 1)) + 1))"
  using assms week_day_range(1) [of "civil_day y m 1"] by (simp add: grid_cells_def Let_def)

lemma day_text_ne: "day_text n \<noteq> []"
  by (simp add: day_text_def)

lemma grid_position:
  assumes y: "1000 \<le> utc_year n"
  defines "f \<equiv> month_first n"
  defines "p \<equiv> nat (week_day f + n - f)"
  shows "p < length (grid_cells (utc_year n) (utc_month n))"
    "grid_cells (utc_year n) (utc_month n) ! p = (day_text n, Some (nat (utc_date n)))" "int p mod 7 = week_day n"
    "\<forall>q<length (grid_cells (utc_year n) (utc_month n)). fst (grid_cells (utc_year n) (utc_month n) ! q) = day_text n \<longrightarrow> q = p"
proof -
  have f: "f = civil_day (utc_year n) (utc_month n) 1" by (simp add: f_def month_first_def)
  have w: "0 \<le> week_day f" by (rule week_day_range)
  have nf: "n = f + utc_date n - 1" using civil_day_utc [of n] by (simp add: f civil_day_def)
  have d: "1 \<le> utc_date n" "utc_date n \<le> days_in (leap (utc_year n)) (utc_month n)" using valid_utc [of n] by (simp_all add: valid_civil_def)
  have ip: "int p = week_day f + utc_date n - 1" using w d nf by (simp add: p_def)
  have len: "length (grid_cells (utc_year n) (utc_month n)) = nat (week_day f) + nat (days_in (leap (utc_year n)) (utc_month n))"
    by (simp add: grid_cells_def Let_def f)
  show in_grid: "p < length (grid_cells (utc_year n) (utc_month n))" unfolding len using ip d w by linarith
  have ge: "nat (week_day f) \<le> p" using ip d w by linarith
  have "civil_day (utc_year n) (utc_month n) 1 + int p - week_day (civil_day (utc_year n) (utc_month n) 1) = n"
    "p - nat (week_day (civil_day (utc_year n) (utc_month n) 1)) + 1 = nat (utc_date n)"
    unfolding f [symmetric] using ip nf w d by linarith+
  then show "grid_cells (utc_year n) (utc_month n) ! p = (day_text n, Some (nat (utc_date n)))"
    using grid_cell_of_day [OF in_grid ge [unfolded f]] by simp
  have "int p = week_day f + (n - f)" using ip nf by simp
  then have "int p mod 7 = (f + 4 + (n - f)) mod 7" unfolding week_day_def by (simp only: mod_add_left_eq)
  then show "int p mod 7 = week_day n" by (simp add: week_day_def add.commute)
  show "\<forall>q<length (grid_cells (utc_year n) (utc_month n)). fst (grid_cells (utc_year n) (utc_month n) ! q) = day_text n \<longrightarrow> q = p"
  proof (intro allI impI)
    fix q
    assume q: "q < length (grid_cells (utc_year n) (utc_month n))" "fst (grid_cells (utc_year n) (utc_month n) ! q) = day_text n"
    have qge: "nat (week_day f) \<le> q"
    proof (rule ccontr)
      assume "\<not> nat (week_day f) \<le> q"
      then have "fst (grid_cells (utc_year n) (utc_month n) ! q) = []" using q(1) by (simp add: grid_cells_def Let_def f)
      then show False using q(2) day_text_ne by simp
    qed
    have e: "day_text (f + int q - week_day f) = day_text n"
      using grid_cell_of_day [OF q(1) qge [unfolded f]] q(2) by (simp add: f)
    have "f \<le> f + int q - week_day f" using qge w by linarith
    then have "utc_year f \<le> utc_year (f + int q - week_day f)" by (rule utc_year_mono)
    moreover have "utc_year f = utc_year n" unfolding f by (rule utc_fields_civil) (use d valid_utc [of n] in \<open>simp add: valid_civil_def\<close>)
    ultimately have "f + int q - week_day f = n" using day_text_inj [OF e] y by simp
    then show "q = p" using ip nf by linarith
  qed
qed

text \<open>C22. The month grid of the mobile client: the local day of a schedule (of the years 1000 to 9998) has the key of the
  web calendar, its month has exactly one cell with that key, whose column is the weekday and whose number the day of
  the month, the month filter keeps the schedule, and moving the month forth and back returns to it.\<close>

theorem mobile_month_grid:
  assumes z: "valid_zone Z z" and s: "parse_date Z (s_starts_at s) = Some t" "local_day Z z t = n"
    and y: "1000 \<le> utc_year n" "utc_year n \<le> 9998"
    and a: "1000 \<le> utc_year n + (utc_month n + a) div 12" "utc_year n + (utc_month n + a) div 12 \<le> 9999"
  shows "\<exists>key month cells p shifted. api_dateKey Z (parse_date Z (s_starts_at s)) z = Inr key \<and> dateKey Z (Some t) z = Inr key
    \<and> monthKeyForDate Z (Some t) z = Inr month \<and> buildMonthGrid (Month_key month) = Inr cells
    \<and> p < length cells \<and> cells ! p = (key, Some (nat (utc_date n))) \<and> int p mod 7 = week_day n
    \<and> (\<forall>q<length cells. fst (cells ! q) = key \<longrightarrow> q = p)
    \<and> filterSchedulesForMonth Z [s] month z = Inr [s]
    \<and> shiftMonthKey (Month_key month) a = Inr shifted \<and> shiftMonthKey (Month_key shifted) (- a) = Inr month"
proof -
  define month where "month = month_text (utc_year n) (utc_month n)"
  note m = utc_month_range [of n]
  have y9: "utc_year n \<le> 9999" using y(2) by simp
  have key: "api_dateKey Z (Some t) z = Inr (day_text n)" by (rule key_of_instant [OF z s(2)]) (use y in simp)
  have len: "length month = 7" unfolding month_def using month_parts(2) y(1) y9 m by blast
  have mk: "monthKeyForDate Z (Some t) z = Inr month"
    by (simp add: monthKeyForDate_def key) (simp add: take_day_text month_def len [unfolded month_def])
  have "js_starts_with (day_text n) month" by (simp add: js_starts_with_def len day_text_def month_def)
  then have filt: "filterSchedulesForMonth Z [s] month z = Inr [s]"
    by (simp add: filterSchedulesForMonth_def s(1) key)
  define b c where "b = utc_year n + (utc_month n + a) div 12" and "c = (utc_month n + a) mod 12"
  have fwd: "shiftMonthKey (Month_key month) a = Inr (month_text b c)"
    unfolding month_def b_def c_def using y(1) y9 m a by (intro shift_month_text) simp_all
  have sum: "12 * ((utc_month n + a) div 12) + c = utc_month n + a" by (simp add: c_def)
  then have ca: "c + - a = utc_month n + 12 * - ((utc_month n + a) div 12)" by simp
  have undo: "(c + - a) div 12 = - ((utc_month n + a) div 12)" "(c + - a) mod 12 = utc_month n"
  proof -
    have "(x + 12 * r) div 12 = r" "(x + 12 * r) mod 12 = x" if "0 \<le> x" "x < 12" for x r :: int using that by simp_all
    then show "(c + - a) div 12 = - ((utc_month n + a) div 12)" "(c + - a) mod 12 = utc_month n"
      unfolding ca using m by blast+
  qed
  have c: "0 \<le> c" "c < 12" by (simp_all add: c_def)
  have bb: "b + (c + - a) div 12 = utc_year n" unfolding undo(1) b_def by simp
  have "shiftMonthKey (Month_key (month_text b c)) (- a) = Inr (month_text (b + (c + - a) div 12) ((c + - a) mod 12))"
    by (rule shift_month_text) (use a y(1) y9 c bb in \<open>simp_all add: b_def [symmetric]\<close>)
  then have bwd: "shiftMonthKey (Month_key (month_text b c)) (- a) = Inr month"
    unfolding bb undo(2) month_def .
  have grid: "buildMonthGrid (Month_key month) = Inr (grid_cells (utc_year n) (utc_month n))"
    unfolding month_def using y m by (intro month_grid) simp_all
  show ?thesis
    using grid_position [OF y(1)] key keys_agree [OF z, of t] mk grid filt fwd bwd unfolding s(1) by metis
qed

lemma mobile_month_grid_witness:
  "\<exists>cells. buildMonthGrid (Month_key (month_text 2024 3)) = Inr cells \<and> 0 < length cells"
proof -
  have d: "utc_year 19814 = 2024" "utc_month 19814 = 3"
  proof -
    show y: "utc_year 19814 = 2024" by (simp add: utc_year_def year_from_day_def day_from_year_def)
    show "utc_month 19814 = 3" by (simp add: utc_month_def y day_from_year_def leap_def month_index_def)
  qed
  obtain month cells p where c: "monthKeyForDate seoul (Some 1711926000000) [] = Inr month"
    "buildMonthGrid (Month_key month) = Inr cells" "p < length cells"
    using mobile_month_grid [of seoul "[]" sample_event 1711926000000 19814 1, OF _ sample_event_times(1) seoul_day]
    by (auto simp: d seoul_def sample_zone_def)
  have "month = month_text 2024 3"
    using c(1) key_of_instant [of seoul "[]" 1711926000000 19814] seoul_day take_day_text [of 19814] month_parts(2) [of 2024 3]
    by (simp add: monthKeyForDate_def d seoul_def sample_zone_def)
  then show ?thesis using c(2,3) by (intro exI [of _ cells]) auto
qed

end
