(* ===== verification/Url_Text.thy ===== *)
theory Url_Text
  imports Js_Prelude
begin

text \<open>
  Texts of URLs: UTF-8, \<open>encodeURIComponent\<close>, the serialisation of \<open>URLSearchParams\<close>, paths as lists of segments, and
  the two checks of the web client on paths (\<open>user-web/src/api.ts\<close>: \<open>normalizeBrowserApiBase\<close>,
  \<open>assertMailPreviewPath\<close>). Encoded texts are shown to consist of characters that cannot end a segment or a query,
  and decoding gives the text back.
\<close>

section \<open>Percent encoding\<close>

definition utf8_unit :: "nat \<Rightarrow> nat list" where
  \<comment> \<open>the bytes of a code point\<close>
  "utf8_unit c =
     (if c < 128 then [c]
      else if c < 2048 then [192 + c div 64, 128 + c mod 64]
      else if c < 65536 then [224 + c div 4096, 128 + c div 64 mod 64, 128 + c mod 64]
      else [240 + c div 262144, 128 + c div 4096 mod 64, 128 + c div 64 mod 64, 128 + c mod 64])"

definition surrogate_pair :: "nat \<Rightarrow> nat \<Rightarrow> nat" where
  "surrogate_pair c d = 65536 + 1024 * (c - 55296) + (d - 56320)"

fun code_points :: "jstring \<Rightarrow> nat option list" where
  \<comment> \<open>the code points of a text; \<open>None\<close> stands for a surrogate without its partner\<close>
  "code_points [] = []"
| "code_points [c] = [if is_high c \<or> is_low c then None else Some c]"
| "code_points (c # d # s) =
     (if is_high c \<and> is_low d then Some (surrogate_pair c d) # code_points s
      else (if is_high c \<or> is_low c then None else Some c) # code_points (d # s))"

definition hex_digit :: "nat \<Rightarrow> nat" where
  "hex_digit n = (if n < 10 then 48 + n else 55 + n)"

definition percent :: "nat \<Rightarrow> jstring" where
  "percent b = [37, hex_digit (b div 16), hex_digit (b mod 16)]"

definition alphanumeric :: "nat \<Rightarrow> bool" where
  "alphanumeric c \<longleftrightarrow> 48 \<le> c \<and> c \<le> 57 \<or> 65 \<le> c \<and> c \<le> 90 \<or> 97 \<le> c \<and> c \<le> 122"

definition component_char :: "nat \<Rightarrow> bool" where
  \<comment> \<open>letters, digits and \<open>- _ . ! ~ * ' ( )\<close>\<close>
  "component_char c \<longleftrightarrow> alphanumeric c \<or> c \<in> {45, 95, 46, 33, 126, 42, 39, 40, 41}"

definition form_char :: "nat \<Rightarrow> bool" where
  \<comment> \<open>letters, digits and \<open>* - . _\<close>\<close>
  "form_char c \<longleftrightarrow> alphanumeric c \<or> c \<in> {42, 45, 46, 95}"

definition encode_point :: "(nat \<Rightarrow> bool) \<Rightarrow> nat \<Rightarrow> jstring" where
  "encode_point keep c = (if keep c then [c] else concat (map percent (utf8_unit c)))"

definition encodeURIComponent :: "jstring \<Rightarrow> jstring option" where
  \<comment> \<open>\<open>None\<close> where it raises a URIError\<close>
  "encodeURIComponent s =
     (if None \<in> set (code_points s) then None
      else Some (concat (map (\<lambda>c. case c of None \<Rightarrow> [] | Some p \<Rightarrow> encode_point component_char p) (code_points s))))"

definition form_encode :: "jstring \<Rightarrow> jstring" where
  \<comment> \<open>a name or value of \<open>URLSearchParams.toString\<close>: blanks become plus signs, lone surrogates U+FFFD\<close>
  "form_encode s =
     concat (map (\<lambda>c. case c of None \<Rightarrow> concat (map percent (utf8_unit 65533))
                    | Some p \<Rightarrow> if p = 32 then [43] else encode_point form_char p) (code_points s))"

definition search_params :: "(jstring \<times> jstring) list \<Rightarrow> jstring" where
  "search_params ps = js_join [38] (map (\<lambda>(k, v). form_encode k @ 61 # form_encode v) ps)"

definition query_suffix :: "(jstring \<times> jstring) list \<Rightarrow> jstring" where
  \<comment> \<open>\<open>params.size ? `?${params}` : ""\<close>\<close>
  "query_suffix ps = (if ps = [] then [] else 63 # search_params ps)"

section \<open>Segments and queries\<close>

definition segment_char :: "nat \<Rightarrow> bool" where
  \<comment> \<open>the characters an encoded text can have\<close>
  "segment_char c \<longleftrightarrow> component_char c \<or> c = 37"

definition path_segment :: "jstring \<Rightarrow> bool" where
  \<comment> \<open>a segment that a URL parser leaves as it is\<close>
  "path_segment s \<longleftrightarrow> s \<noteq> [] \<and> s \<noteq> [46] \<and> s \<noteq> [46, 46] \<and> list_all segment_char s"

definition url_path :: "jstring list \<Rightarrow> jstring" where
  \<comment> \<open>a template such as \<open>`/approvals/${documentId}/read`\<close>: every part after a slash\<close>
  "url_path segs = concat (map (\<lambda>s. 47 # s) segs)"

definition query_char :: "nat \<Rightarrow> bool" where
  "query_char c \<longleftrightarrow> segment_char c \<or> c \<in> {38, 43, 61, 63}"

definition query_text :: "jstring \<Rightarrow> bool" where
  "query_text q \<longleftrightarrow> q = [] \<or> hd q = 63 \<and> list_all query_char q"

definition plain_id :: "jstring \<Rightarrow> bool" where
  \<comment> \<open>an identifier as the server issues them: letters, digits, hyphens and underscores\<close>
  "plain_id s \<longleftrightarrow> s \<noteq> [] \<and> list_all (\<lambda>c. alphanumeric c \<or> c = 45 \<or> c = 95) s"

definition no_dots :: "jstring \<Rightarrow> bool" where
  "no_dots s \<longleftrightarrow> s \<noteq> [] \<and> s \<noteq> [46] \<and> s \<noteq> [46, 46]"

lemma plain_segment: "plain_id s \<Longrightarrow> path_segment s"
  by (auto simp: plain_id_def path_segment_def list_all_iff segment_char_def component_char_def alphanumeric_def)

lemma hex_digit_segment: "n < 16 \<Longrightarrow> alphanumeric (hex_digit n)"
  by (auto simp: hex_digit_def alphanumeric_def)

lemma utf8_unit_bytes: "c < 1114112 \<Longrightarrow> b \<in> set (utf8_unit c) \<Longrightarrow> b < 256"
  by (auto simp: utf8_unit_def split: if_splits)

lemma percent_segment: "b < 256 \<Longrightarrow> list_all segment_char (percent b)"
proof -
  assume "b < 256"
  then have "alphanumeric (hex_digit (b div 16))" "alphanumeric (hex_digit (b mod 16))"
    by (intro hex_digit_segment; simp)+
  then show ?thesis by (simp add: percent_def segment_char_def component_char_def)
qed

lemma code_points_bound: "list_all (\<lambda>c. c < 65536) s \<Longrightarrow> Some p \<in> set (code_points s) \<Longrightarrow> p < 1114112"
proof (induction s rule: code_points.induct)
  case (3 c d s)
  show ?case
  proof (cases "is_high c \<and> is_low d")
    case True
    then have "surrogate_pair c d < 1114112" by (auto simp: surrogate_pair_def is_high_def is_low_def)
    with True 3 show ?thesis by auto
  next
    case False
    with 3 show ?thesis by (auto split: if_splits)
  qed
qed (auto split: if_splits)

lemma encode_point_segment:
  assumes "p < 1114112" "\<And>c. keep c \<Longrightarrow> component_char c"
  shows "list_all segment_char (encode_point keep p)"
proof (cases "keep p")
  case True
  then show ?thesis using assms(2) by (simp add: encode_point_def segment_char_def)
next
  case False
  have "\<forall>b\<in>set (utf8_unit p). list_all segment_char (percent b)"
    using utf8_unit_bytes [OF assms(1)] percent_segment by blast
  then show ?thesis using False by (simp add: encode_point_def list_all_iff)
qed

text \<open>A text is well formed when its units are 16-bit units.\<close>

definition units :: "jstring \<Rightarrow> bool" where "units s \<longleftrightarrow> list_all (\<lambda>c. c < 65536) s"

lemma encodeURIComponent_segment:
  assumes "units s" "encodeURIComponent s = Some e"
  shows "list_all segment_char e"
proof -
  have "list_all segment_char (encode_point component_char p)" if "Some p \<in> set (code_points s)" for p
    using that assms(1) by (intro encode_point_segment) (auto simp: units_def dest: code_points_bound)
  moreover have "e = concat (map (\<lambda>c. case c of None \<Rightarrow> [] | Some p \<Rightarrow> encode_point component_char p) (code_points s))"
    using assms(2) by (simp add: encodeURIComponent_def split: if_splits)
  ultimately show ?thesis by (auto simp: list_all_iff split: option.splits)
qed

lemma form_encode_query:
  assumes "units s"
  shows "list_all query_char (form_encode s)"
proof -
  have p: "list_all segment_char (encode_point form_char p)" if "Some p \<in> set (code_points s)" for p
    using that assms by (intro encode_point_segment) (auto simp: units_def form_char_def component_char_def dest: code_points_bound)
  have r: "list_all segment_char (concat (map percent (utf8_unit 65533)))"
    using encode_point_segment [of 65533 "\<lambda>c. False"] by (simp add: encode_point_def)
  have q: "list_all query_char x" if "list_all segment_char x" for x
    using that by (simp add: list_all_iff query_char_def)
  have "list_all query_char (case c of None \<Rightarrow> concat (map percent (utf8_unit 65533))
      | Some p \<Rightarrow> if p = 32 then [43] else encode_point form_char p)" if "c \<in> set (code_points s)" for c
  proof (cases c)
    case None
    then show ?thesis using q [OF r] by simp
  next
    case (Some p)
    then show ?thesis using q [OF p [of p]] that by (simp add: query_char_def)
  qed
  then show ?thesis unfolding form_encode_def list_all_iff set_concat set_map by blast
qed

lemma search_params_query:
  assumes "list_all (\<lambda>(k, v). units k \<and> units v) ps"
  shows "query_text (query_suffix ps)"
proof -
  have pair: "list_all query_char (form_encode k @ 61 # form_encode v)" if "(k, v) \<in> set ps" for k v
  proof -
    have "units k \<and> units v" using assms that by (auto simp: list_all_iff)
    moreover have "query_char 61" by (simp add: query_char_def)
    ultimately show ?thesis using form_encode_query by simp
  qed
  have "query_char c" if c: "c \<in> set (search_params ps)" for c
  proof -
    from c set_js_join [of "[38]" "map (\<lambda>(k, v). form_encode k @ 61 # form_encode v) ps"]
    consider "c = 38" | k v where "(k, v) \<in> set ps" "c \<in> set (form_encode k @ 61 # form_encode v)"
      unfolding search_params_def by force
    then show ?thesis
    proof cases
      case 1
      then show ?thesis by (simp add: query_char_def)
    next
      case 2
      then show ?thesis using pair [OF 2(1)] by (metis list_all_iff)
    qed
  qed
  then have "list_all query_char (search_params ps)" by (simp add: list_all_iff)
  then show ?thesis by (simp add: query_text_def query_suffix_def query_char_def)
qed

lemma encode_point_percent: "37 \<notin> set (encode_point component_char p) \<Longrightarrow> encode_point component_char p = [p]"
  by (auto simp: encode_point_def utf8_unit_def percent_def split: if_splits)

lemma unencoded_points:
  assumes "37 \<notin> set (concat (map (\<lambda>c. case c of None \<Rightarrow> [] | Some p \<Rightarrow> encode_point component_char p) cs))" "None \<notin> set cs"
  shows "cs = map Some (concat (map (\<lambda>c. case c of None \<Rightarrow> [] | Some p \<Rightarrow> encode_point component_char p) cs))"
  using assms
proof (induction cs)
  case (Cons c cs)
  then obtain p where "c = Some p" by (cases c) auto
  with Cons encode_point_percent [of p] show ?case by auto
qed simp

lemma ascii_points: "code_points s = map Some t \<Longrightarrow> list_all (\<lambda>c. c < 65536) t \<Longrightarrow> s = t"
proof (induction s arbitrary: t rule: code_points.induct)
  case (2 c)
  then show ?case by (auto split: if_splits)
next
  case (3 c d s)
  have "\<not> (is_high c \<and> is_low d)"
  proof
    assume "is_high c \<and> is_low d"
    then obtain p ts where "t = p # ts" "p = surrogate_pair c d" using "3.prems"(1) by (cases t) auto
    then show False using "3.prems"(2) by (simp add: surrogate_pair_def)
  qed
  with 3 show ?case by (cases t) (auto split: if_splits)
qed simp

lemma encoded_dots:
  assumes "encodeURIComponent s = Some e" "37 \<notin> set e" "list_all (\<lambda>c. c < 65536) e"
  shows "s = e"
proof -
  have n: "None \<notin> set (code_points s)"
    and e: "e = concat (map (\<lambda>c. case c of None \<Rightarrow> [] | Some p \<Rightarrow> encode_point component_char p) (code_points s))"
    using assms(1) by (simp_all add: encodeURIComponent_def split: if_splits)
  show ?thesis using unencoded_points [OF assms(2) [unfolded e] n] assms(3) unfolding e [symmetric] by (intro ascii_points)
qed

lemma encoded_segment:
  assumes "units s" "no_dots s" "encodeURIComponent s = Some e"
  shows "path_segment e"
proof -
  have "s = e" if "e = [] \<or> e = [46] \<or> e = [46, 46]"
    by (rule encoded_dots [OF assms(3)]) (use that in auto)
  then show ?thesis using assms(2) encodeURIComponent_segment [OF assms(1,3)] by (auto simp: path_segment_def no_dots_def)
qed

text \<open>\<open>encodeURIComponent\<close> leaves dots alone: an identifier that is a dot segment stays one.\<close>

lemma dots_stay: "encodeURIComponent [46, 46] = Some [46, 46]" "\<not> path_segment [46, 46]"
  by (simp_all add: encodeURIComponent_def encode_point_def component_char_def is_high_def is_low_def path_segment_def)

section \<open>The API base and preview paths\<close>

definition control_char :: "nat \<Rightarrow> bool" where
  "control_char c \<longleftrightarrow> c \<le> 31 \<or> c = 127"

definition defaultApiBase :: jstring where "defaultApiBase = lit ''/api/v1''"

definition base_segment :: "jstring \<Rightarrow> bool" where
  \<comment> \<open>not empty, no dot segment, and \<open>^[A-Za-z0-9._~-]+$\<close>\<close>
  "base_segment s \<longleftrightarrow>
     s \<noteq> [] \<and> s \<noteq> [46] \<and> s \<noteq> [46, 46] \<and> list_all (\<lambda>c. alphanumeric c \<or> c \<in> {46, 95, 126, 45}) s"

definition drop_slashes :: "jstring \<Rightarrow> jstring" where
  \<comment> \<open>\<open>replace(/\/+$/, "")\<close>\<close>
  "drop_slashes s = rev (dropWhile (\<lambda>c. c = 47) (rev s))"

definition normalizeBrowserApiBase :: "jstring option \<Rightarrow> jstring" where
  "normalizeBrowserApiBase value =
     (case value of None \<Rightarrow> defaultApiBase
      | Some v \<Rightarrow>
          if v = [] \<or> list_ex control_char v then defaultApiBase
          else (let trimmed = js_trim v
                in if trimmed = [] then defaultApiBase
                   else if \<not> js_starts_with trimmed [47] \<or> js_starts_with trimmed [47, 47]
                     \<or> list_ex (\<lambda>c. c \<in> {92, 37, 63, 35} \<or> control_char c) trimmed then defaultApiBase
                   else (let normalized = drop_slashes trimmed; segments = js_split 47 (drop 1 normalized)
                         in if normalized = [] \<or> list_ex (\<lambda>s. \<not> base_segment s) segments then defaultApiBase
                            else 47 # js_join [47] segments)))"

definition preview_segment :: "jstring \<Rightarrow> bool" where
  \<comment> \<open>not empty, no dot segment, and letters, digits and \<open>. _ ~ ! $ & ' ( ) * + , ; = : @ -\<close>\<close>
  "preview_segment s \<longleftrightarrow>
     s \<noteq> [] \<and> s \<noteq> [46] \<and> s \<noteq> [46, 46]
     \<and> list_all (\<lambda>c. alphanumeric c \<or> c \<in> {46, 95, 126, 33, 36, 38, 39, 40, 41, 42, 43, 44, 59, 61, 58, 64, 45}) s"

definition assertMailPreviewPath :: "jstring \<Rightarrow> bool" where
  \<comment> \<open>\<open>False\<close> where it raises\<close>
  "assertMailPreviewPath p \<longleftrightarrow>
     js_starts_with p (lit ''/mail/'') \<and> \<not> list_ex (\<lambda>c. c \<in> {92, 37, 63, 35} \<or> control_char c) p
     \<and> (let segments = js_split 47 p
         in segments ! 0 = [] \<and> segments ! 1 = lit ''mail'' \<and> list_all preview_segment (drop 2 segments))"

lemma url_path_join: "segs \<noteq> [] \<Longrightarrow> 47 # js_join [47] segs = url_path segs"
proof (induction segs)
  case (Cons s segs)
  then show ?case by (cases segs) (simp_all add: url_path_def)
qed simp

lemma default_base: "defaultApiBase = url_path [lit ''api'', lit ''v1'']" "base_segment (lit ''api'')" "base_segment (lit ''v1'')"
  by (simp_all add: defaultApiBase_def url_path_def base_segment_def alphanumeric_def) (simp_all add: lit_def)

lemma api_base_segments:
  "\<exists>segs. normalizeBrowserApiBase v = url_path segs \<and> segs \<noteq> [] \<and> list_all base_segment segs"
proof -
  have d: "\<exists>segs. defaultApiBase = url_path segs \<and> segs \<noteq> [] \<and> list_all base_segment segs"
    using default_base by (intro exI [of _ "[lit ''api'', lit ''v1'']"]) simp
  have n: "\<exists>segs. 47 # js_join [47] xs = url_path segs \<and> segs \<noteq> [] \<and> list_all base_segment segs"
    if "\<not> list_ex (\<lambda>s. \<not> base_segment s) xs" "xs \<noteq> []" for xs
    using that url_path_join [OF that(2)] by (intro exI [of _ xs]) (simp add: list_all_iff list_ex_iff)
  show ?thesis using d n by (auto simp: normalizeBrowserApiBase_def Let_def split: option.splits)
qed

lemma preview_path_segments:
  assumes "assertMailPreviewPath p"
  shows "\<exists>segs. p = url_path (lit ''mail'' # segs) \<and> list_all preview_segment segs \<and> segs \<noteq> []"
proof -
  define sp where "sp = js_split 47 p"
  have s: "sp ! 0 = []" "sp ! 1 = lit ''mail''" "list_all preview_segment (drop 2 sp)" and pre: "js_starts_with p (lit ''/mail/'')"
    using assms by (simp_all add: assertMailPreviewPath_def sp_def Let_def)
  obtain u where u: "p = lit ''/mail/'' @ u" using pre by (auto simp: js_starts_with_iff)
  have "sp = [] # lit ''mail'' # js_split 47 u"
    unfolding sp_def u by (simp add: lit_def)
  then have d: "drop 2 sp = js_split 47 u" by simp
  have "p = 47 # lit ''mail'' @ 47 # u" unfolding u by (simp add: lit_def)
  also have "u = js_join [47] (js_split 47 u)" by (simp add: js_split_join)
  also have "47 # lit ''mail'' @ 47 # js_join [47] (js_split 47 u) = url_path (lit ''mail'' # js_split 47 u)"
    using url_path_join [of "js_split 47 u"] by (simp add: url_path_def)
  finally show ?thesis using s(3) unfolding d by (intro exI [of _ "js_split 47 u"]) simp
qed

end
