(* ===== verification/Web_Request.thy ===== *)
theory Web_Request
  imports Url_Text "HOL-Library.AList"
begin

text \<open>
  The request layer of the web client (\<open>user-web/src/api.ts\<close>: \<open>request\<close>, \<open>authHeaders\<close>, \<open>extractApiError\<close>, the stored
  token): requests as data, the headers every request gets, and the reading of responses. A request keeps the path
  relative to the API base; a request is confined when this path consists of safe segments and a query.
\<close>

section \<open>Requests\<close>

datatype form_value = Form_text jstring | Form_file nat

datatype http_body = No_body | Json_body jsval | Form_body "(jstring \<times> form_value) list"

record http_init =
  i_method :: jstring
  i_headers :: "(jstring \<times> jstring) list"
  i_body :: http_body

record http_request =
  r_method :: jstring
  r_target :: jstring
  r_headers :: "(jstring \<times> jstring) list"
  r_body :: http_body

definition js_spread :: "(jstring \<times> 'a) list \<Rightarrow> (jstring \<times> 'a) list \<Rightarrow> (jstring \<times> 'a) list" where
  \<comment> \<open>\<open>{ ...a, ...b }\<close>\<close>
  "js_spread a b = fold (\<lambda>(k, v). AList.update k v) b a"

lemma map_of_js_spread: "map_of (js_spread a b) = map_of a ++ map_of (rev b)"
proof (induction b arbitrary: a)
  case (Cons p b)
  obtain k v where p: "p = (k, v)" by (cases p)
  have "js_spread a (p # b) = js_spread (AList.update k v a) b" by (simp add: js_spread_def p)
  moreover have "map_of (AList.update k v a) = map_of a ++ [k \<mapsto> v]" by (simp add: update_conv')
  ultimately show ?case using Cons.IH [of "AList.update k v a"] by (simp add: p map_add_assoc del: map_add_upd)
qed (simp add: js_spread_def)

definition content_json :: "(jstring \<times> jstring) list" where
  "content_json = [(lit ''Content-Type'', lit ''application/json'')]"

definition request :: "jstring \<Rightarrow> http_init \<Rightarrow> http_request" where
  "request path init =
     \<lparr>r_method = i_method init, r_target = path,
      r_headers = js_spread (case i_body init of Form_body ps \<Rightarrow> [] | No_body \<Rightarrow> content_json | Json_body v \<Rightarrow> content_json)
        (i_headers init),
      r_body = i_body init\<rparr>"

definition bare_fetch :: "jstring \<Rightarrow> http_init \<Rightarrow> http_request" where
  \<comment> \<open>\<open>fetch(`${apiBase}${path}`, init)\<close>, without the default header\<close>
  "bare_fetch path init = \<lparr>r_method = i_method init, r_target = path, r_headers = i_headers init, r_body = i_body init\<rparr>"

definition authHeaders :: "jstring \<Rightarrow> (jstring \<times> jstring) list" where
  "authHeaders token = [(lit ''Authorization'', lit ''Bearer '' @ token)]"

definition get_init :: "jstring \<Rightarrow> http_init" where
  \<comment> \<open>\<open>{ headers: authHeaders(token) }\<close>\<close>
  "get_init token = \<lparr>i_method = lit ''GET'', i_headers = authHeaders token, i_body = No_body\<rparr>"

definition auth_init :: "string \<Rightarrow> jstring \<Rightarrow> http_body \<Rightarrow> http_init" where
  \<comment> \<open>\<open>{ method, headers: authHeaders(token), body }\<close>\<close>
  "auth_init m token b = \<lparr>i_method = lit m, i_headers = authHeaders token, i_body = b\<rparr>"

definition json_init :: "string \<Rightarrow> jstring \<Rightarrow> jsval \<Rightarrow> http_init" where
  \<comment> \<open>\<open>{ method, headers: { ...authHeaders(token), "Content-Type": "application/json" }, body: JSON.stringify(v) }\<close>\<close>
  "json_init m token v =
     \<lparr>i_method = lit m, i_headers = js_spread (authHeaders token) content_json, i_body = Json_body v\<rparr>"

definition json_object :: "(string \<times> jsval) list \<Rightarrow> jsval" where
  "json_object ps = JObj (map (\<lambda>(k, v). (lit k, v)) ps)"

definition spread_object :: "jsval \<Rightarrow> (string \<times> jsval) list \<Rightarrow> jsval" where
  \<comment> \<open>\<open>{ ...v, key: value }\<close>\<close>
  "spread_object v ps =
     (case v of JObj qs \<Rightarrow> JObj (js_spread qs (map (\<lambda>(k, v). (lit k, v)) ps)) | _ \<Rightarrow> json_object ps)"

definition json_strings :: "jstring list \<Rightarrow> jsval" where "json_strings xs = JArr (map JStr xs)"
definition json_int :: "int \<Rightarrow> jsval" where "json_int n = JNum (of_int n)"
definition json_opt :: "jstring option \<Rightarrow> jsval" where
  \<comment> \<open>a text or \<open>null\<close>\<close>
  "json_opt v = (case v of None \<Rightarrow> JNull | Some s \<Rightarrow> JStr s)"

definition param_text :: "string \<Rightarrow> jstring option \<Rightarrow> (jstring \<times> jstring) list" where
  \<comment> \<open>\<open>if (v) params.set(name, v)\<close>\<close>
  "param_text name v = (case v of None \<Rightarrow> [] | Some s \<Rightarrow> if s = [] then [] else [(lit name, s)])"

definition param_int :: "string \<Rightarrow> int option \<Rightarrow> (jstring \<times> jstring) list" where
  \<comment> \<open>\<open>if (v !== undefined) params.set(name, String(v))\<close>\<close>
  "param_int name v = (case v of None \<Rightarrow> [] | Some n \<Rightarrow> [(lit name, show_int n)])"

definition with_component :: "jstring \<Rightarrow> (jstring \<Rightarrow> http_request) \<Rightarrow> http_request option" where
  \<comment> \<open>a request that contains \<open>encodeURIComponent(s)\<close>; \<open>None\<close> where it raises\<close>
  "with_component s f = map_option f (encodeURIComponent s)"

section \<open>Responses\<close>

record http_response =
  status_code :: nat
  body_json :: "jsval option"

record api_request_error =
  ae_status :: nat
  ae_code :: jstring
  ae_message :: jstring
  ae_current_count :: "rat option"

definition response_ok :: "http_response \<Rightarrow> bool" where
  "response_ok r \<longleftrightarrow> 200 \<le> status_code r \<and> status_code r \<le> 299"

definition is_object_type :: "jsval \<Rightarrow> bool" where
  \<comment> \<open>\<open>typeof v === "object"\<close>\<close>
  "is_object_type v = (case v of JNull \<Rightarrow> True | JArr xs \<Rightarrow> True | JObj ps \<Rightarrow> True | _ \<Rightarrow> False)"

definition has_keys :: "jsval \<Rightarrow> bool" where
  \<comment> \<open>\<open>Object.keys(v).length\<close> is not zero\<close>
  "has_keys v = (case v of JObj ps \<Rightarrow> ps \<noteq> [] | JArr xs \<Rightarrow> xs \<noteq> [] | JStr s \<Rightarrow> s \<noteq> [] | _ \<Rightarrow> False)"

definition has_detail :: "jsval \<Rightarrow> bool" where
  \<comment> \<open>\<open>"detail" in v\<close> for an object; no inherited property has the name\<close>
  "has_detail v = (case v of JObj ps \<Rightarrow> map_of ps (lit ''detail'') \<noteq> None | _ \<Rightarrow> False)"

definition login_expired_message :: jstring where
  "login_expired_message = [47196, 44536, 51064, 32, 47564, 47308, 32, 46608, 45716, 32, 51116, 47196, 44536, 51064, 51060, 32,
     54596, 50836, 54633, 45768, 45796, 46]"
definition no_permission_message :: jstring where "no_permission_message = [44428, 54620, 51060, 32, 50630, 49845, 45768, 45796, 46]"
definition blocked_message :: jstring where
  "blocked_message = [48708, 54876, 49457, 32, 49324, 50857, 51088, 32, 46608, 45716, 32, 50669, 54624, 47196, 32, 52264, 45800,
     46104, 50632, 49845, 45768, 45796, 46]"
definition request_failed_text :: jstring where "request_failed_text = [50836, 52397, 32, 52376, 47532, 32, 49892, 54056]"

definition extractApiError :: "nat \<Rightarrow> jsval \<Rightarrow> api_request_error" where
  "extractApiError status data =
     (let detail = (if is_object_type data \<and> truthy data \<and> has_detail data \<and> is_object_type (own_prop data (lit ''detail''))
                    then js_coalesce (own_prop data (lit ''detail'')) (JObj []) else js_coalesce data (JObj []));
          source = (if has_keys detail then detail else js_coalesce data (JObj []));
          code = own_prop source (lit ''code'');
          userMessage = own_prop source (lit ''userMessage'');
          count = own_prop source (lit ''currentCount'')
      in \<lparr>ae_status = status,
          ae_code = (if is_str code then str_of code else lit ''REQUEST_FAILED''),
          ae_message =
            (if is_str userMessage then str_of userMessage
             else if status = 401 then login_expired_message
             else if status = 403 then no_permission_message
             else if status = 423 then blocked_message
             else request_failed_text),
          ae_current_count = (case count of JNum q \<Rightarrow> Some q | _ \<Rightarrow> None)\<rparr>)"

definition read_response :: "http_response \<Rightarrow> api_request_error + jsval" where
  \<comment> \<open>the end of \<open>request\<close>: a body that is not JSON counts as the empty object\<close>
  "read_response r =
     (let data = (case body_json r of None \<Rightarrow> JObj [] | Some v \<Rightarrow> v)
      in if response_ok r then Inr data else Inl (extractApiError (status_code r) data))"

section \<open>The stored token\<close>

definition tokenStorageKey :: jstring where "tokenStorageKey = lit ''moaworks.userToken''"

definition storeUserToken :: "jstring \<Rightarrow> (jstring \<rightharpoonup> jstring) \<Rightarrow> (jstring \<rightharpoonup> jstring)" where
  "storeUserToken token storage = storage(tokenStorageKey \<mapsto> token)"

definition clearUserToken :: "(jstring \<rightharpoonup> jstring) \<Rightarrow> (jstring \<rightharpoonup> jstring)" where
  "clearUserToken storage = storage(tokenStorageKey := None)"

definition getUserToken :: "(jstring \<rightharpoonup> jstring) \<Rightarrow> jstring" where
  "getUserToken storage = (case storage tokenStorageKey of None \<Rightarrow> [] | Some t \<Rightarrow> t)"

section \<open>Confined and authorised requests\<close>

named_theorems web_req "facts that decide whether a request is confined and authorised"

definition confined :: "http_request \<Rightarrow> bool" where
  "confined r \<longleftrightarrow>
     (\<exists>segs q. r_target r = url_path segs @ q \<and> segs \<noteq> [] \<and> list_all path_segment segs \<and> query_text q)"

definition authorised :: "jstring \<Rightarrow> http_request \<Rightarrow> bool" where
  \<comment> \<open>the request carries the token, and its body is announced as what it is\<close>
  "authorised token r \<longleftrightarrow>
     map_of (r_headers r) (lit ''Authorization'') = Some (lit ''Bearer '' @ token)
     \<and> (case r_body r of Json_body v \<Rightarrow> map_of (r_headers r) (lit ''Content-Type'') = Some (lit ''application/json'')
        | Form_body ps \<Rightarrow> map_of (r_headers r) (lit ''Content-Type'') = None
        | No_body \<Rightarrow> True)
     \<and> (r_method r = lit ''GET'' \<longrightarrow> r_body r = No_body)"

lemma confined_fields: "confined r \<longleftrightarrow> (\<exists>segs q. r_target r = url_path segs @ q \<and> segs \<noteq> [] \<and> list_all path_segment segs \<and> query_text q)"
  by (simp add: confined_def)

lemma confined_request [web_req]:
  assumes "segs \<noteq> []" "list_all path_segment segs" "query_text q"
  shows "confined (request (url_path segs @ q) init)" "confined (bare_fetch (url_path segs @ q) init)"
  unfolding confined_def using assms by (auto simp: request_def bare_fetch_def)

lemma confined_plain [web_req]:
  assumes "segs \<noteq> []" "list_all path_segment segs"
  shows "confined (request (url_path segs) init)" "confined (bare_fetch (url_path segs) init)"
  using confined_request [OF assms, of "[]" init] by (simp_all add: query_text_def)

lemma header_names: "lit ''Content-Type'' \<noteq> lit ''Authorization''" "lit ''Authorization'' \<noteq> lit ''Content-Type''"
  by simp_all

lemma json_headers: "js_spread (authHeaders token) content_json
    = [(lit ''Authorization'', lit ''Bearer '' @ token), (lit ''Content-Type'', lit ''application/json'')]"
  by (simp add: js_spread_def authHeaders_def content_json_def)

lemma authorised_init [web_req]:
  "authorised token (request path (get_init token))"
  "authorised token (bare_fetch path (get_init token))"
  "b = No_body \<or> m \<noteq> ''GET'' \<Longrightarrow> authorised token (request path (auth_init m token b))"
  by (auto simp: authorised_def request_def bare_fetch_def get_init_def auth_init_def map_of_js_spread authHeaders_def
      content_json_def split: http_body.splits)

lemma authorised_json [web_req]: "m \<noteq> ''GET'' \<Longrightarrow> authorised token (request path (json_init m token v))"
  unfolding json_init_def json_headers by (simp add: authorised_def request_def map_of_js_spread)

lemma with_component_Some [web_req]:
  assumes "with_component s f = Some r" "units s"
  shows "\<exists>e. r = f e \<and> list_all segment_char e \<and> (no_dots s \<longrightarrow> path_segment e)"
proof -
  obtain e where e: "encodeURIComponent s = Some e" "r = f e" using assms(1) by (auto simp: with_component_def)
  have "no_dots s \<longrightarrow> path_segment e" using encoded_segment [OF assms(2) _ e(1)] by blast
  then show ?thesis using e encodeURIComponent_segment [OF assms(2) e(1)] by blast
qed

text \<open>The query texts of the code: parameters of \<open>URLSearchParams\<close>, and templates.\<close>

lemma units_lit [web_req]: "units (lit s)"
proof -
  have "of_char c < (256 :: nat)" for c by (rule nat_of_char_less_256)
  then have "(of_char c :: nat) < 65536" for c by (rule less_trans) simp
  then show ?thesis by (simp add: units_def lit_def list_all_iff)
qed

lemma units_append [web_req]: "units (s @ t) \<longleftrightarrow> units s \<and> units t"
  by (simp add: units_def)

lemma units_digits: "list_all is_digit s \<Longrightarrow> units s"
  by (auto simp: units_def list_all_iff is_digit_def)

lemma show_int_chars: "c \<in> set (show_int n) \<Longrightarrow> is_digit c \<or> c = 45"
  using show_nat_digits by (auto simp: show_int_def split: if_splits)

lemma units_show_int [web_req]: "units (show_int n)"
  using show_int_chars [of _ n] by (fastforce simp: units_def list_all_iff is_digit_def)

lemma show_int_query [web_req]: "list_all query_char (show_int n)"
  using show_int_chars [of _ n]
  by (fastforce simp: list_all_iff query_char_def segment_char_def component_char_def alphanumeric_def is_digit_def)

lemma params_text_units:
  "list_all (\<lambda>(k, v). units k \<and> units v) (param_text name v) \<longleftrightarrow> (case v of None \<Rightarrow> True | Some s \<Rightarrow> units s)"
  using units_lit [of name] by (auto simp: param_text_def units_def split: option.splits)

lemma params_int_units [web_req]: "list_all (\<lambda>(k, v). units k \<and> units v) (param_int name v)"
  using units_lit units_show_int by (auto simp: param_int_def split: option.splits)

lemma query_suffix_ok [web_req]: "list_all (\<lambda>(k, v). units k \<and> units v) ps \<Longrightarrow> query_text (query_suffix ps)"
  by (rule search_params_query)

lemma query_template [web_req]:
  "list_all query_char (lit t) \<Longrightarrow> list_all query_char s \<Longrightarrow> query_text (63 # lit t @ s)"
  "list_all query_char (lit t) \<Longrightarrow> query_text (63 # lit t)" "query_text []"
  by (simp_all add: query_text_def query_char_def)

lemma segment_query [web_req]: "list_all segment_char s \<Longrightarrow> list_all query_char s"
  by (auto simp: list_all_iff query_char_def)

text \<open>Literal segments are plain.\<close>

definition plain_char :: "char \<Rightarrow> bool" where
  "plain_char c \<longleftrightarrow> alphanumeric (of_char c) \<or> of_char c = (45 :: nat)"

lemma literal_segment: "s \<noteq> [] \<Longrightarrow> list_all plain_char s \<Longrightarrow> path_segment (lit s)"
  by (rule plain_segment) (auto simp: plain_id_def lit_def list_all_iff plain_char_def)

end
