(* ===== verification/Web_Api_Work.thy ===== *)
theory Web_Api_Work
  imports Web_Request
begin

text \<open>
  The requests of the web client (\<open>user-web/src/api.ts\<close>) for the session, approvals, notifications, translation and the
  personal assistant, the messenger, calendars, contacts, files and the profile. Every exported function is a
  constructor of its area with the arguments of the function; the area's function builds the request. What happens with
  a downloaded blob (an anchor that is clicked) is left out. A call is well formed when the identifiers it puts into the
  path are plain, those it encodes are no dot segments, and its texts consist of 16-bit units.
\<close>

definition file_form :: "nat \<Rightarrow> http_body" where
  \<comment> \<open>a form with one file\<close>
  "file_form f = Form_body [(lit ''file'', Form_file f)]"

definition bool_text :: "bool \<Rightarrow> jstring" where
  "bool_text b = (if b then lit ''true'' else lit ''false'')"

definition opt_units :: "jstring option \<Rightarrow> bool" where
  "opt_units v = (case v of None \<Rightarrow> True | Some s \<Rightarrow> units s)"

section \<open>Session\<close>

datatype session_call = Fetch_me | Login jsval | Change_password jsval | Fetch_ui_contract

fun session_request :: "jstring \<Rightarrow> session_call \<Rightarrow> http_request option" where
  "session_request token Fetch_me = Some (request (url_path [lit ''auth'', lit ''me'']) (get_init token))"
| "session_request token (Login payload) = Some (request (url_path [lit ''auth'', lit ''login''])
     \<lparr>i_method = lit ''POST'', i_headers = [], i_body = Json_body payload\<rparr>)"
| "session_request token (Change_password payload) =
     Some (request (url_path [lit ''auth'', lit ''change-password'']) (auth_init ''POST'' token (Json_body payload)))"
| "session_request token Fetch_ui_contract = Some (request (url_path [lit ''ui-contract''])
     \<lparr>i_method = lit ''GET'', i_headers = [], i_body = No_body\<rparr>)"

section \<open>Approvals\<close>

datatype approval_call =
    Fetch_approvals
  | Fetch_approval_detail jstring
  | Mark_approval_read jstring
  | Delete_approval_document jstring
  | Restore_approval_document jstring
  | Permanently_delete_approval_document jstring
  | Download_approval_attachment jstring jstring
  | Create_approval jsval
  | Update_approval jstring jsval
  | Upload_approval_attachment nat
  | Fetch_approval_approvers
  | Fetch_approval_basic_preferences
  | Update_approval_basic_preferences jstring jstring int bool "nat option"
  | Fetch_approval_delegations int int
  | Create_approval_delegation jsval

fun approval_request :: "jstring \<Rightarrow> approval_call \<Rightarrow> http_request option" where
  "approval_request token Fetch_approvals = Some (request (url_path [lit ''approvals'']) (get_init token))"
| "approval_request token (Fetch_approval_detail documentId) =
     Some (request (url_path [lit ''approvals'', documentId]) (get_init token))"
| "approval_request token (Mark_approval_read documentId) =
     Some (request (url_path [lit ''approvals'', documentId, lit ''read'']) (auth_init ''POST'' token No_body))"
| "approval_request token (Delete_approval_document documentId) =
     Some (request (url_path [lit ''approvals'', documentId]) (auth_init ''DELETE'' token No_body))"
| "approval_request token (Restore_approval_document documentId) =
     Some (request (url_path [lit ''approvals'', documentId, lit ''restore'']) (auth_init ''POST'' token No_body))"
| "approval_request token (Permanently_delete_approval_document documentId) =
     Some (request (url_path [lit ''approvals'', documentId, lit ''permanent'']) (auth_init ''DELETE'' token No_body))"
| "approval_request token (Download_approval_attachment documentId attachmentId) =
     Some (bare_fetch (url_path [lit ''approvals'', documentId, lit ''attachments'', attachmentId]) (get_init token))"
| "approval_request token (Create_approval payload) =
     Some (request (url_path [lit ''approvals'']) (auth_init ''POST'' token (Json_body payload)))"
| "approval_request token (Update_approval documentId payload) =
     Some (request (url_path [lit ''approvals'', documentId]) (auth_init ''PATCH'' token (Json_body payload)))"
| "approval_request token (Upload_approval_attachment file) =
     Some (request (url_path [lit ''approvals'', lit ''attachments'']) (auth_init ''POST'' token (file_form file)))"
| "approval_request token Fetch_approval_approvers =
     Some (request (url_path [lit ''approvals'', lit ''approvers'']) (get_init token))"
| "approval_request token Fetch_approval_basic_preferences =
     Some (request (url_path [lit ''approvals'', lit ''settings'', lit ''basic'']) (get_init token))"
| "approval_request token (Update_approval_basic_preferences writingMethod attachmentImageDisplay version removeSignature signature) =
     Some (request (url_path [lit ''approvals'', lit ''settings'', lit ''basic'']) (auth_init ''PUT'' token
       (Form_body ([(lit ''writingMethod'', Form_text writingMethod), (lit ''attachmentImageDisplay'', Form_text attachmentImageDisplay),
          (lit ''expectedVersion'', Form_text (show_int version)), (lit ''removeSignature'', Form_text (bool_text removeSignature))]
         @ (case signature of None \<Rightarrow> [] | Some f \<Rightarrow> [(lit ''signature'', Form_file f)])))))"
| "approval_request token (Fetch_approval_delegations page pageSize) =
     Some (request (url_path [lit ''approvals'', lit ''settings'', lit ''delegations'']
       @ 63 # lit ''page='' @ show_int page @ lit ''&pageSize='' @ show_int pageSize) (get_init token))"
| "approval_request token (Create_approval_delegation payload) =
     Some (request (url_path [lit ''approvals'', lit ''settings'', lit ''delegations'']) (auth_init ''POST'' token (Json_body payload)))"

fun approval_ok :: "approval_call \<Rightarrow> bool" where
  "approval_ok (Fetch_approval_detail d) \<longleftrightarrow> plain_id d"
| "approval_ok (Mark_approval_read d) \<longleftrightarrow> plain_id d"
| "approval_ok (Delete_approval_document d) \<longleftrightarrow> plain_id d"
| "approval_ok (Restore_approval_document d) \<longleftrightarrow> plain_id d"
| "approval_ok (Permanently_delete_approval_document d) \<longleftrightarrow> plain_id d"
| "approval_ok (Download_approval_attachment d a) \<longleftrightarrow> plain_id d \<and> plain_id a"
| "approval_ok (Update_approval d p) \<longleftrightarrow> plain_id d"
| "approval_ok c \<longleftrightarrow> True"

datatype approval_step_call =
    Update_approval_delegation jstring jsval
  | Delete_approval_delegation jstring int
  | Submit_approval jstring
  | Approve_approval jstring jstring
  | Reject_approval jstring jstring
  | Withdraw_approval jstring
  | Redraft_approval jstring
  | Fetch_approval_logs "jstring option"

fun approval_step_request :: "jstring \<Rightarrow> approval_step_call \<Rightarrow> http_request option" where
  "approval_step_request token (Update_approval_delegation delegationId payload) =
     Some (request (url_path [lit ''approvals'', lit ''settings'', lit ''delegations'', delegationId]) (auth_init ''PATCH'' token (Json_body payload)))"
| "approval_step_request token (Delete_approval_delegation delegationId expectedVersion) =
     Some (request (url_path [lit ''approvals'', lit ''settings'', lit ''delegations'', delegationId]
       @ 63 # lit ''expectedVersion='' @ show_int expectedVersion) (auth_init ''DELETE'' token No_body))"
| "approval_step_request token (Submit_approval documentId) =
     Some (request (url_path [lit ''approvals'', documentId, lit ''submit'']) (auth_init ''POST'' token No_body))"
| "approval_step_request token (Approve_approval documentId reason) =
     Some (request (url_path [lit ''approvals'', documentId, lit ''approve''])
       (auth_init ''POST'' token (Json_body (json_object [(''reason'', JStr reason)]))))"
| "approval_step_request token (Reject_approval documentId reason) =
     Some (request (url_path [lit ''approvals'', documentId, lit ''reject''])
       (auth_init ''POST'' token (Json_body (json_object [(''reason'', JStr reason)]))))"
| "approval_step_request token (Withdraw_approval documentId) =
     Some (request (url_path [lit ''approvals'', documentId, lit ''withdraw'']) (auth_init ''POST'' token No_body))"
| "approval_step_request token (Redraft_approval documentId) =
     Some (request (url_path [lit ''approvals'', documentId, lit ''redraft'']) (auth_init ''POST'' token No_body))"
| "approval_step_request token (Fetch_approval_logs documentId) =
     (let plain = request (url_path [lit ''approvals'', lit ''audit-logs'']) (get_init token)
      in case documentId of None \<Rightarrow> Some plain
         | Some d \<Rightarrow> if d = [] then Some plain
             else with_component d (\<lambda>e. request (url_path [lit ''approvals'', lit ''audit-logs''] @ 63 # lit ''documentId='' @ e) (get_init token)))"

fun approval_step_ok :: "approval_step_call \<Rightarrow> bool" where
  "approval_step_ok (Update_approval_delegation d p) \<longleftrightarrow> plain_id d"
| "approval_step_ok (Delete_approval_delegation d v) \<longleftrightarrow> plain_id d"
| "approval_step_ok (Submit_approval d) \<longleftrightarrow> plain_id d"
| "approval_step_ok (Approve_approval d r) \<longleftrightarrow> plain_id d"
| "approval_step_ok (Reject_approval d r) \<longleftrightarrow> plain_id d"
| "approval_step_ok (Withdraw_approval d) \<longleftrightarrow> plain_id d"
| "approval_step_ok (Redraft_approval d) \<longleftrightarrow> plain_id d"
| "approval_step_ok (Fetch_approval_logs d) \<longleftrightarrow> opt_units d"

definition fetchApprovalInlineImage :: "jstring \<Rightarrow> jstring \<Rightarrow> http_request option" where
  \<comment> \<open>the target is a path of the origin, not of the API base; \<open>None\<close> where the check raises\<close>
  "fetchApprovalInlineImage token relativeUrl =
     (if js_starts_with relativeUrl (lit ''/api/v1/approvals/'')
      then Some (bare_fetch relativeUrl (get_init token)) else None)"

section \<open>Notifications, translation and the personal assistant\<close>

record notification_options =
  n_unread_only :: "bool option"
  n_severity :: "jstring list"
  n_category :: "jstring option"
  n_cursor :: "jstring option"
  n_from_at :: "jstring option"
  n_to_at :: "jstring option"
  n_limit :: "int option"

definition no_options :: notification_options where
  "no_options = \<lparr>n_unread_only = None, n_severity = [], n_category = None, n_cursor = None, n_from_at = None, n_to_at = None, n_limit = None\<rparr>"

definition notification_query :: "notification_options \<Rightarrow> (jstring \<times> jstring) list" where
  \<comment> \<open>a limit of 0 is left out\<close>
  "notification_query o' =
     (case n_unread_only o' of None \<Rightarrow> [] | Some b \<Rightarrow> [(lit ''unreadOnly'', bool_text b)])
     @ param_text ''category'' (n_category o') @ param_text ''cursor'' (n_cursor o') @ param_text ''fromAt'' (n_from_at o')
     @ param_text ''toAt'' (n_to_at o') @ (case n_limit o' of None \<Rightarrow> [] | Some n \<Rightarrow> if n = 0 then [] else [(lit ''limit'', show_int n)])
     @ map (\<lambda>v. (lit ''severity'', v)) (n_severity o')"

datatype notification_call =
    Fetch_notifications notification_options
  | Fetch_notification_stream "jstring option"
  | Ack_notification jstring
  | Bulk_read_notifications "jstring list"
  | Read_all_notifications "jstring list" "jstring option"
  | Archive_notifications "jstring list"
  | Fetch_notification_preferences
  | Save_notification_preferences jsval
  | Fetch_notification_summary

fun notification_request :: "jstring \<Rightarrow> notification_call \<Rightarrow> http_request option" where
  "notification_request token (Fetch_notifications o') =
     Some (request (url_path [lit ''notifications''] @ query_suffix (notification_query o')) (get_init token))"
| "notification_request token (Fetch_notification_stream cursor) =
     Some (bare_fetch (url_path [lit ''notifications'', lit ''stream''] @ query_suffix (param_text ''cursor'' cursor)) (get_init token))"
| "notification_request token (Ack_notification notificationId) =
     Some (request (url_path [lit ''notifications'', notificationId, lit ''ack'']) (auth_init ''POST'' token No_body))"
| "notification_request token (Bulk_read_notifications ids) =
     Some (request (url_path [lit ''notifications'', lit ''bulk'', lit ''read''])
       (json_init ''POST'' token (json_object [(''notificationIds'', json_strings ids)])))"
| "notification_request token (Read_all_notifications severity category) =
     Some (request (url_path [lit ''notifications'', lit ''read-all''])
       (json_init ''POST'' token (json_object [(''severities'', json_strings severity), (''category'', json_opt category)])))"
| "notification_request token (Archive_notifications ids) =
     Some (request (url_path [lit ''notifications'', lit ''bulk'', lit ''archive''])
       (json_init ''POST'' token (json_object [(''notificationIds'', json_strings ids)])))"
| "notification_request token Fetch_notification_preferences =
     Some (request (url_path [lit ''notifications'', lit ''preferences'']) (get_init token))"
| "notification_request token (Save_notification_preferences preferences) =
     Some (request (url_path [lit ''notifications'', lit ''preferences'']) (json_init ''PUT'' token preferences))"
| "notification_request token Fetch_notification_summary =
     Some (request (url_path [lit ''notifications'', lit ''summary'']) (get_init token))"

fun notification_ok :: "notification_call \<Rightarrow> bool" where
  "notification_ok (Fetch_notifications o') \<longleftrightarrow>
     list_all units (n_severity o') \<and> opt_units (n_category o') \<and> opt_units (n_cursor o') \<and> opt_units (n_from_at o') \<and> opt_units (n_to_at o')"
| "notification_ok (Fetch_notification_stream cursor) \<longleftrightarrow> opt_units cursor"
| "notification_ok (Ack_notification d) \<longleftrightarrow> plain_id d"
| "notification_ok c \<longleftrightarrow> True"

datatype assistant_call =
    Request_translation jsval
  | Fetch_translation_status
  | Fetch_personal_ai_providers
  | Fetch_personal_ai_config
  | Update_personal_ai_config jsval
  | Fetch_personal_ai_models jsval
  | Test_personal_ai_connection
  | Send_personal_ai_chat jsval

fun assistant_request :: "jstring \<Rightarrow> assistant_call \<Rightarrow> http_request option" where
  "assistant_request token (Request_translation payload) =
     Some (request (url_path [lit ''translation'', lit ''translate'']) (json_init ''POST'' token payload))"
| "assistant_request token Fetch_translation_status =
     Some (request (url_path [lit ''translation'', lit ''status'']) (get_init token))"
| "assistant_request token Fetch_personal_ai_providers =
     Some (request (url_path [lit ''workspace'', lit ''personal-ai'', lit ''providers'']) (get_init token))"
| "assistant_request token Fetch_personal_ai_config =
     Some (request (url_path [lit ''workspace'', lit ''personal-ai'', lit ''config'']) (get_init token))"
| "assistant_request token (Update_personal_ai_config payload) =
     Some (request (url_path [lit ''workspace'', lit ''personal-ai'', lit ''config'']) (json_init ''PUT'' token payload))"
| "assistant_request token (Fetch_personal_ai_models payload) =
     Some (request (url_path [lit ''workspace'', lit ''personal-ai'', lit ''models'']) (json_init ''POST'' token payload))"
| "assistant_request token Test_personal_ai_connection =
     Some (request (url_path [lit ''workspace'', lit ''personal-ai'', lit ''test'']) (auth_init ''POST'' token No_body))"
| "assistant_request token (Send_personal_ai_chat payload) =
     Some (request (url_path [lit ''workspace'', lit ''personal-ai'', lit ''chat'']) (json_init ''POST'' token payload))"

section \<open>Messenger\<close>

datatype messenger_call =
    Fetch_messenger_rooms
  | Create_messenger_room jstring "jstring option" "jstring list" jstring
  | Favorite_messenger_room jstring bool
  | Update_messenger_room_translation jstring jstring jstring
  | Update_messenger_room_participants jstring "jstring list" jstring
  | Transfer_messenger_room_owner jstring jstring jstring
  | Leave_messenger_room jstring
  | Delete_messenger_room jstring
  | Fetch_messenger_room jstring
  | Fetch_messenger_messages jstring "jstring option"
  | Send_messenger_message jstring jstring "jstring option" "jsval list option"
  | Upload_messenger_attachment nat
  | Download_messenger_attachment jstring jstring jstring
  | Read_messenger_room jstring

definition or_text :: "jstring option \<Rightarrow> string \<Rightarrow> jsval" where
  "or_text v d = JStr (case v of None \<Rightarrow> lit d | Some s \<Rightarrow> s)"

fun messenger_request :: "jstring \<Rightarrow> messenger_call \<Rightarrow> http_request option" where
  "messenger_request token Fetch_messenger_rooms =
     Some (request (url_path [lit ''messenger'', lit ''rooms'']) (get_init token))"
| "messenger_request token (Create_messenger_room roomName roomType participantUserIds translationLocale) =
     Some (request (url_path [lit ''messenger'', lit ''rooms'']) (auth_init ''POST'' token (Json_body (json_object
       [(''roomName'', JStr roomName), (''roomType'', or_text roomType ''group''),
        (''participantUserIds'', json_strings participantUserIds), (''translationLocale'', JStr translationLocale)]))))"
| "messenger_request token (Favorite_messenger_room roomId isFavorite) =
     Some (request (url_path [lit ''messenger'', lit ''rooms'', roomId, lit ''favorite''])
       (auth_init ''PATCH'' token (Json_body (json_object [(''isFavorite'', JBool isFavorite)]))))"
| "messenger_request token (Update_messenger_room_translation roomId translationLocale expectedUpdatedAt) =
     Some (request (url_path [lit ''messenger'', lit ''rooms'', roomId, lit ''translation''])
       (auth_init ''PATCH'' token (Json_body (json_object
         [(''translationLocale'', JStr translationLocale), (''expectedUpdatedAt'', JStr expectedUpdatedAt)]))))"
| "messenger_request token (Update_messenger_room_participants roomId participantUserIds expectedUpdatedAt) =
     Some (request (url_path [lit ''messenger'', lit ''rooms'', roomId, lit ''participants''])
       (auth_init ''PATCH'' token (Json_body (json_object
         [(''participantUserIds'', json_strings participantUserIds), (''expectedUpdatedAt'', JStr expectedUpdatedAt)]))))"
| "messenger_request token (Transfer_messenger_room_owner roomId newOwnerUserId expectedUpdatedAt) =
     Some (request (url_path [lit ''messenger'', lit ''rooms'', roomId, lit ''owner''])
       (auth_init ''PATCH'' token (Json_body (json_object
         [(''newOwnerUserId'', JStr newOwnerUserId), (''expectedUpdatedAt'', JStr expectedUpdatedAt)]))))"
| "messenger_request token (Leave_messenger_room roomId) =
     Some (request (url_path [lit ''messenger'', lit ''rooms'', roomId, lit ''leave'']) (auth_init ''POST'' token No_body))"
| "messenger_request token (Delete_messenger_room roomId) =
     Some (request (url_path [lit ''messenger'', lit ''rooms'', roomId]) (auth_init ''DELETE'' token No_body))"
| "messenger_request token (Fetch_messenger_room roomId) =
     Some (request (url_path [lit ''messenger'', lit ''rooms'', roomId]) (get_init token))"
| "messenger_request token (Fetch_messenger_messages roomId before) =
     (let plain = request (url_path [lit ''messenger'', lit ''rooms'', roomId, lit ''messages''] @ 63 # lit ''limit=100'') (get_init token)
      in case before of None \<Rightarrow> Some plain
         | Some b \<Rightarrow> if b = [] then Some plain
             else with_component b (\<lambda>e. request (url_path [lit ''messenger'', lit ''rooms'', roomId, lit ''messages'']
               @ 63 # lit ''limit=100&before='' @ e) (get_init token)))"
| "messenger_request token (Send_messenger_message roomId body messageType attachments) =
     Some (request (url_path [lit ''messenger'', lit ''rooms'', roomId, lit ''messages''])
       (auth_init ''POST'' token (Json_body (json_object
         [(''body'', JStr body), (''messageType'', or_text messageType ''text''),
          (''attachments'', JArr (case attachments of None \<Rightarrow> [] | Some xs \<Rightarrow> xs)), (''attachmentMeta'', JArr [])]))))"
| "messenger_request token (Upload_messenger_attachment file) =
     Some (request (url_path [lit ''messenger'', lit ''attachments'']) (auth_init ''POST'' token (file_form file)))"
| "messenger_request token (Download_messenger_attachment roomId messageId attachmentId) =
     Some (bare_fetch (url_path [lit ''messenger'', lit ''rooms'', roomId, lit ''messages'', messageId, lit ''attachments'', attachmentId]) (get_init token))"
| "messenger_request token (Read_messenger_room roomId) =
     Some (request (url_path [lit ''messenger'', lit ''rooms'', roomId, lit ''read'']) (auth_init ''POST'' token No_body))"

fun messenger_ok :: "messenger_call \<Rightarrow> bool" where
  "messenger_ok (Favorite_messenger_room d f) \<longleftrightarrow> plain_id d"
| "messenger_ok (Update_messenger_room_translation d l u) \<longleftrightarrow> plain_id d"
| "messenger_ok (Update_messenger_room_participants d ps u) \<longleftrightarrow> plain_id d"
| "messenger_ok (Transfer_messenger_room_owner d n u) \<longleftrightarrow> plain_id d"
| "messenger_ok (Leave_messenger_room d) \<longleftrightarrow> plain_id d"
| "messenger_ok (Delete_messenger_room d) \<longleftrightarrow> plain_id d"
| "messenger_ok (Fetch_messenger_room d) \<longleftrightarrow> plain_id d"
| "messenger_ok (Fetch_messenger_messages d b) \<longleftrightarrow> plain_id d \<and> opt_units b"
| "messenger_ok (Send_messenger_message d b t a) \<longleftrightarrow> plain_id d"
| "messenger_ok (Download_messenger_attachment d m a) \<longleftrightarrow> plain_id d \<and> plain_id m \<and> plain_id a"
| "messenger_ok (Read_messenger_room d) \<longleftrightarrow> plain_id d"
| "messenger_ok c \<longleftrightarrow> True"

section \<open>Directory, calendars and contacts\<close>

datatype calendar_call =
    Fetch_workspace_directory
  | Fetch_organization_departments
  | Fetch_organization_members "jstring option" "jstring option"
  | Fetch_organization_member_detail jstring
  | Fetch_calendars
  | Discover_calendars jstring
  | Create_calendar jsval
  | Update_calendar jstring jsval
  | Reorder_calendars "(jstring \<times> int) list"
  | Delete_calendar jstring int
  | Create_calendar_subscription jstring
  | Cancel_calendar_subscription jstring
  | Decide_calendar_subscription jstring bool
  | Fetch_schedules
  | Save_schedule jsval "jstring option"
  | Delete_schedule jstring

definition with_id :: "jstring list \<Rightarrow> jstring option \<Rightarrow> jstring list" where
  \<comment> \<open>\<open>`...${id ? `/${id}` : ""}`\<close>\<close>
  "with_id segs v = (case v of None \<Rightarrow> segs | Some s \<Rightarrow> if s = [] then segs else segs @ [s])"

definition save_method :: "jstring option \<Rightarrow> string" where
  \<comment> \<open>\<open>id ? "PATCH" : "POST"\<close>\<close>
  "save_method v = (case v of None \<Rightarrow> ''POST'' | Some s \<Rightarrow> if s = [] then ''POST'' else ''PATCH'')"

fun calendar_request :: "jstring \<Rightarrow> calendar_call \<Rightarrow> http_request option" where
  "calendar_request token Fetch_workspace_directory =
     Some (request (url_path [lit ''workspace'', lit ''directory'']) (get_init token))"
| "calendar_request token Fetch_organization_departments =
     Some (request (url_path [lit ''workspace'', lit ''organization'', lit ''departments'']) (get_init token))"
| "calendar_request token (Fetch_organization_members departmentId query) =
     Some (request (url_path [lit ''workspace'', lit ''organization'', lit ''members'']
       @ query_suffix (param_text ''departmentId'' departmentId @ param_text ''query'' query)) (get_init token))"
| "calendar_request token (Fetch_organization_member_detail userId) =
     with_component userId (\<lambda>e. request (url_path [lit ''workspace'', lit ''organization'', lit ''members'', e]) (get_init token))"
| "calendar_request token Fetch_calendars = Some (request (url_path [lit ''workspace'', lit ''calendars'']) (get_init token))"
| "calendar_request token (Discover_calendars query) =
     with_component query (\<lambda>e. request (url_path [lit ''workspace'', lit ''calendars'', lit ''discover''] @ 63 # lit ''query='' @ e) (get_init token))"
| "calendar_request token (Create_calendar payload) =
     Some (request (url_path [lit ''workspace'', lit ''calendars'']) (auth_init ''POST'' token (Json_body payload)))"
| "calendar_request token (Update_calendar d payload) =
     Some (request (url_path [lit ''workspace'', lit ''calendars'', d]) (auth_init ''PATCH'' token (Json_body payload)))"
| "calendar_request token (Reorder_calendars calendars) =
     Some (request (url_path [lit ''workspace'', lit ''calendars'', lit ''order'']) (auth_init ''PUT'' token (Json_body (json_object
       [(''items'', JArr (map (\<lambda>(d, v). json_object [(''calendarId'', JStr d), (''expectedVersion'', json_int v)]) calendars))]))))"
| "calendar_request token (Delete_calendar d version) =
     Some (request (url_path [lit ''workspace'', lit ''calendars'', d] @ 63 # lit ''expectedVersion='' @ show_int version)
       (auth_init ''DELETE'' token No_body))"
| "calendar_request token (Create_calendar_subscription calendarId) =
     Some (request (url_path [lit ''workspace'', lit ''calendar-subscriptions''])
       (auth_init ''POST'' token (Json_body (json_object [(''calendarId'', JStr calendarId)]))))"
| "calendar_request token (Cancel_calendar_subscription d) =
     Some (request (url_path [lit ''workspace'', lit ''calendar-subscriptions'', d]) (auth_init ''DELETE'' token No_body))"
| "calendar_request token (Decide_calendar_subscription d accept) =
     Some (request (url_path [lit ''workspace'', lit ''calendar-subscriptions'', d, if accept then lit ''accept'' else lit ''reject''])
       (auth_init ''POST'' token No_body))"
| "calendar_request token Fetch_schedules = Some (request (url_path [lit ''workspace'', lit ''schedules'']) (get_init token))"
| "calendar_request token (Save_schedule payload d) =
     Some (request (url_path (with_id [lit ''workspace'', lit ''schedules''] d)) (auth_init (save_method d) token (Json_body payload)))"
| "calendar_request token (Delete_schedule d) =
     Some (request (url_path [lit ''workspace'', lit ''schedules'', d]) (auth_init ''DELETE'' token No_body))"

definition opt_id :: "jstring option \<Rightarrow> bool" where
  "opt_id v = (case v of None \<Rightarrow> True | Some s \<Rightarrow> s = [] \<or> plain_id s)"

fun calendar_ok :: "calendar_call \<Rightarrow> bool" where
  "calendar_ok (Fetch_organization_members d q) \<longleftrightarrow> opt_units d \<and> opt_units q"
| "calendar_ok (Fetch_organization_member_detail d) \<longleftrightarrow> units d \<and> no_dots d"
| "calendar_ok (Discover_calendars q) \<longleftrightarrow> units q"
| "calendar_ok (Update_calendar d p) \<longleftrightarrow> plain_id d"
| "calendar_ok (Delete_calendar d v) \<longleftrightarrow> plain_id d"
| "calendar_ok (Cancel_calendar_subscription d) \<longleftrightarrow> plain_id d"
| "calendar_ok (Decide_calendar_subscription d a) \<longleftrightarrow> plain_id d"
| "calendar_ok (Save_schedule p d) \<longleftrightarrow> opt_id d"
| "calendar_ok (Delete_schedule d) \<longleftrightarrow> plain_id d"
| "calendar_ok c \<longleftrightarrow> True"

datatype contact_call =
    Fetch_contacts jstring "jstring option"
  | Save_contact jsval "jstring option"
  | Delete_contact jstring
  | Fetch_contact_groups
  | Create_contact_group jstring
  | Update_contact_group jstring jstring jstring
  | Delete_contact_group jstring jstring
  | Fetch_public_contacts jstring
  | Preview_contact_import nat
  | Apply_contact_import nat jstring

fun contact_request :: "jstring \<Rightarrow> contact_call \<Rightarrow> http_request option" where
  "contact_request token (Fetch_contacts query groupId) =
     Some (request (url_path [lit ''workspace'', lit ''contacts'']
       @ query_suffix (param_text ''query'' (Some query) @ param_text ''groupId'' groupId)) (get_init token))"
| "contact_request token (Save_contact payload d) =
     Some (request (url_path (with_id [lit ''workspace'', lit ''contacts''] d)) (auth_init (save_method d) token (Json_body payload)))"
| "contact_request token (Delete_contact d) =
     Some (request (url_path [lit ''workspace'', lit ''contacts'', d]) (auth_init ''DELETE'' token No_body))"
| "contact_request token Fetch_contact_groups =
     Some (request (url_path [lit ''workspace'', lit ''contact-groups'']) (get_init token))"
| "contact_request token (Create_contact_group name) =
     Some (request (url_path [lit ''workspace'', lit ''contact-groups'']) (auth_init ''POST'' token (Json_body (json_object [(''name'', JStr name)]))))"
| "contact_request token (Update_contact_group groupId name expectedUpdatedAt) =
     Some (request (url_path [lit ''workspace'', lit ''contact-groups'', groupId])
       (auth_init ''PATCH'' token (Json_body (json_object [(''name'', JStr name), (''expectedUpdatedAt'', JStr expectedUpdatedAt)]))))"
| "contact_request token (Delete_contact_group groupId expectedUpdatedAt) =
     Some (request (url_path [lit ''workspace'', lit ''contact-groups'', groupId]
       @ query_suffix [(lit ''expectedUpdatedAt'', expectedUpdatedAt)]) (auth_init ''DELETE'' token No_body))"
| "contact_request token (Fetch_public_contacts query) =
     Some (request (url_path [lit ''workspace'', lit ''public-contacts''] @ query_suffix (param_text ''query'' (Some query))) (get_init token))"
| "contact_request token (Preview_contact_import file) =
     Some (request (url_path [lit ''workspace'', lit ''contacts'', lit ''import''] @ 63 # lit ''mode=preview'') (auth_init ''POST'' token (file_form file)))"
| "contact_request token (Apply_contact_import file expectedDigest) =
     Some (request (url_path [lit ''workspace'', lit ''contacts'', lit ''import'']
       @ query_suffix [(lit ''mode'', lit ''apply''), (lit ''expectedDigest'', expectedDigest)]) (auth_init ''POST'' token (file_form file)))"

fun contact_ok :: "contact_call \<Rightarrow> bool" where
  "contact_ok (Fetch_contacts q g) \<longleftrightarrow> units q \<and> opt_units g"
| "contact_ok (Save_contact p d) \<longleftrightarrow> opt_id d"
| "contact_ok (Delete_contact d) \<longleftrightarrow> plain_id d"
| "contact_ok (Update_contact_group d n u) \<longleftrightarrow> plain_id d"
| "contact_ok (Delete_contact_group d u) \<longleftrightarrow> plain_id d \<and> units u"
| "contact_ok (Fetch_public_contacts q) \<longleftrightarrow> units q"
| "contact_ok (Apply_contact_import f d) \<longleftrightarrow> units d"
| "contact_ok c \<longleftrightarrow> True"

section \<open>Files and the profile\<close>

record file_query =
  q_scope :: "jstring option"
  q_folder_id :: "jstring option option"
  q_query :: "jstring option"
  q_sort :: "jstring option"

definition file_params :: "file_query \<Rightarrow> (jstring \<times> jstring) list" where
  \<comment> \<open>an own property \<open>folderId\<close> is always sent, \<open>null\<close> as the empty text\<close>
  "file_params o' =
     param_text ''scope'' (q_scope o')
     @ (case q_folder_id o' of None \<Rightarrow> [] | Some f \<Rightarrow> [(lit ''folderId'', case f of None \<Rightarrow> [] | Some s \<Rightarrow> s)])
     @ param_text ''query'' (q_query o') @ param_text ''sort'' (q_sort o')"

definition opt_int :: "int option \<Rightarrow> jsval" where
  "opt_int v = (case v of None \<Rightarrow> JUndef | Some n \<Rightarrow> json_int n)"

datatype file_call =
    Fetch_workspace_files file_query
  | Fetch_workspace_file_detail jstring bool
  | Fetch_workspace_folders
  | Upload_workspace_file nat "jstring option"
  | Rename_workspace_file jstring jstring "int option"
  | Move_workspace_file jstring "jstring option" int
  | Delete_workspace_file jstring "int option"
  | Restore_workspace_file jstring int
  | Favorite_workspace_file jstring bool
  | Upload_workspace_file_version jstring nat int
  | Save_workspace_file_shares jstring int "(jstring \<times> jstring \<times> jstring) list"
  | Create_workspace_folder jstring "jstring option"
  | Rename_workspace_folder jstring jstring int
  | Delete_workspace_folder jstring int
  | Download_workspace_file jstring "int option"

definition version_query :: "int \<Rightarrow> jstring" where
  "version_query v = 63 # lit ''expectedVersion='' @ show_int v"

fun file_request :: "jstring \<Rightarrow> file_call \<Rightarrow> http_request option" where
  "file_request token (Fetch_workspace_files o') =
     Some (request (url_path [lit ''workspace'', lit ''files''] @ query_suffix (file_params o')) (get_init token))"
| "file_request token (Fetch_workspace_file_detail d includeDeleted) =
     Some (request (url_path [lit ''workspace'', lit ''files'', d]
       @ (if includeDeleted then 63 # lit ''includeDeleted=true'' else [])) (get_init token))"
| "file_request token Fetch_workspace_folders = Some (request (url_path [lit ''workspace'', lit ''file-folders'']) (get_init token))"
| "file_request token (Upload_workspace_file file folderId) =
     (let plain = request (url_path [lit ''workspace'', lit ''files'']) (auth_init ''POST'' token (file_form file))
      in case folderId of None \<Rightarrow> Some plain
         | Some f \<Rightarrow> if f = [] then Some plain
             else with_component f (\<lambda>e. request (url_path [lit ''workspace'', lit ''files''] @ 63 # lit ''folderId='' @ e)
               (auth_init ''POST'' token (file_form file))))"
| "file_request token (Rename_workspace_file d fileName expectedVersion) =
     Some (request (url_path [lit ''workspace'', lit ''files'', d])
       (auth_init ''PATCH'' token (Json_body (json_object [(''fileName'', JStr fileName), (''expectedVersion'', opt_int expectedVersion)]))))"
| "file_request token (Move_workspace_file d folderId expectedVersion) =
     Some (request (url_path [lit ''workspace'', lit ''files'', d])
       (auth_init ''PATCH'' token (Json_body (json_object [(''folderId'', json_opt folderId), (''expectedVersion'', json_int expectedVersion)]))))"
| "file_request token (Delete_workspace_file d expectedVersion) =
     Some (request (url_path [lit ''workspace'', lit ''files'', d]
       @ (case expectedVersion of None \<Rightarrow> [] | Some v \<Rightarrow> version_query v)) (auth_init ''DELETE'' token No_body))"
| "file_request token (Restore_workspace_file d expectedVersion) =
     Some (request (url_path [lit ''workspace'', lit ''files'', d, lit ''restore''] @ version_query expectedVersion) (auth_init ''POST'' token No_body))"
| "file_request token (Favorite_workspace_file d enabled) =
     Some (request (url_path [lit ''workspace'', lit ''files'', d, lit ''favorite'']) (auth_init (if enabled then ''PUT'' else ''DELETE'') token No_body))"
| "file_request token (Upload_workspace_file_version d file expectedVersion) =
     Some (request (url_path [lit ''workspace'', lit ''files'', d, lit ''versions''] @ version_query expectedVersion)
       (auth_init ''POST'' token (file_form file)))"
| "file_request token (Save_workspace_file_shares d expectedVersion shares) =
     Some (request (url_path [lit ''workspace'', lit ''files'', d, lit ''shares'']) (auth_init ''PUT'' token (Json_body (json_object
       [(''expectedVersion'', json_int expectedVersion),
        (''shares'', JArr (map (\<lambda>(ty, tid, perm). json_object
           [(''targetType'', JStr ty), (''targetId'', JStr tid), (''permission'', JStr perm)]) shares))]))))"
| "file_request token (Create_workspace_folder name parentId) =
     Some (request (url_path [lit ''workspace'', lit ''file-folders''])
       (auth_init ''POST'' token (Json_body (json_object [(''name'', JStr name), (''parentId'', json_opt parentId)]))))"
| "file_request token (Rename_workspace_folder d name expectedVersion) =
     Some (request (url_path [lit ''workspace'', lit ''file-folders'', d])
       (auth_init ''PATCH'' token (Json_body (json_object [(''name'', JStr name), (''expectedVersion'', json_int expectedVersion)]))))"
| "file_request token (Delete_workspace_folder d expectedVersion) =
     Some (request (url_path [lit ''workspace'', lit ''file-folders'', d] @ version_query expectedVersion) (auth_init ''DELETE'' token No_body))"
| "file_request token (Download_workspace_file d version) =
     Some (bare_fetch (url_path [lit ''workspace'', lit ''files'', d, lit ''download'']
       @ (case version of None \<Rightarrow> [] | Some v \<Rightarrow> if v = 0 then [] else 63 # lit ''version='' @ show_int v)) (get_init token))"

fun file_ok :: "file_call \<Rightarrow> bool" where
  "file_ok (Fetch_workspace_files o') \<longleftrightarrow> opt_units (q_scope o') \<and> opt_units (q_query o') \<and> opt_units (q_sort o')
     \<and> (case q_folder_id o' of Some (Some f) \<Rightarrow> units f | _ \<Rightarrow> True)"
| "file_ok (Fetch_workspace_file_detail d i) \<longleftrightarrow> plain_id d"
| "file_ok (Upload_workspace_file f d) \<longleftrightarrow> opt_units d"
| "file_ok (Rename_workspace_file d n v) \<longleftrightarrow> plain_id d"
| "file_ok (Move_workspace_file d f v) \<longleftrightarrow> plain_id d"
| "file_ok (Delete_workspace_file d v) \<longleftrightarrow> plain_id d"
| "file_ok (Restore_workspace_file d v) \<longleftrightarrow> plain_id d"
| "file_ok (Favorite_workspace_file d e) \<longleftrightarrow> plain_id d"
| "file_ok (Upload_workspace_file_version d f v) \<longleftrightarrow> plain_id d"
| "file_ok (Save_workspace_file_shares d v s) \<longleftrightarrow> plain_id d"
| "file_ok (Rename_workspace_folder d n v) \<longleftrightarrow> plain_id d"
| "file_ok (Delete_workspace_folder d v) \<longleftrightarrow> plain_id d"
| "file_ok (Download_workspace_file d v) \<longleftrightarrow> plain_id d"
| "file_ok c \<longleftrightarrow> True"

datatype profile_call =
    Fetch_workspace_profile
  | Save_workspace_profile jsval
  | Fetch_workspace_profile_photo
  | Save_workspace_profile_photo nat int
  | Delete_workspace_profile_photo int
  | Fetch_workspace_preferences
  | Save_workspace_preferences jstring jstring jstring int
  | Fetch_workspace_help_policies "jstring option" "jstring option"
  | Fetch_workspace_notices
  | Fetch_workspace_notice jstring
  | Read_workspace_notice jstring

fun profile_request :: "jstring \<Rightarrow> profile_call \<Rightarrow> http_request option" where
  "profile_request token Fetch_workspace_profile = Some (request (url_path [lit ''workspace'', lit ''profile'']) (get_init token))"
| "profile_request token (Save_workspace_profile payload) =
     Some (request (url_path [lit ''workspace'', lit ''profile'']) (auth_init ''PUT'' token (Json_body payload)))"
| "profile_request token Fetch_workspace_profile_photo =
     Some (bare_fetch (url_path [lit ''workspace'', lit ''profile'', lit ''photo'']) (get_init token))"
| "profile_request token (Save_workspace_profile_photo file expectedVersion) =
     Some (request (url_path [lit ''workspace'', lit ''profile'', lit ''photo''] @ version_query expectedVersion) (auth_init ''PUT'' token (file_form file)))"
| "profile_request token (Delete_workspace_profile_photo expectedVersion) =
     Some (request (url_path [lit ''workspace'', lit ''profile'', lit ''photo''] @ version_query expectedVersion) (auth_init ''DELETE'' token No_body))"
| "profile_request token Fetch_workspace_preferences = Some (request (url_path [lit ''workspace'', lit ''preferences'']) (get_init token))"
| "profile_request token (Save_workspace_preferences locale timezone startPage version) =
     Some (request (url_path [lit ''workspace'', lit ''preferences'']) (auth_init ''PUT'' token (Json_body (json_object
       [(''locale'', JStr locale), (''timezone'', JStr timezone), (''startPage'', JStr startPage), (''expectedVersion'', json_int version)]))))"
| "profile_request token (Fetch_workspace_help_policies query category) =
     Some (request (url_path [lit ''workspace'', lit ''help-policies'']
       @ query_suffix (param_text ''query'' query @ param_text ''category'' category)) (get_init token))"
| "profile_request token Fetch_workspace_notices = Some (request (url_path [lit ''workspace'', lit ''notices'']) (get_init token))"
| "profile_request token (Fetch_workspace_notice d) = Some (request (url_path [lit ''workspace'', lit ''notices'', d]) (get_init token))"
| "profile_request token (Read_workspace_notice d) =
     Some (request (url_path [lit ''workspace'', lit ''notices'', d, lit ''read'']) (auth_init ''POST'' token No_body))"

fun profile_ok :: "profile_call \<Rightarrow> bool" where
  "profile_ok (Fetch_workspace_help_policies q c) \<longleftrightarrow> opt_units q \<and> opt_units c"
| "profile_ok (Fetch_workspace_notice d) \<longleftrightarrow> plain_id d"
| "profile_ok (Read_workspace_notice d) \<longleftrightarrow> plain_id d"
| "profile_ok c \<longleftrightarrow> True"

definition profile_photo_result :: "http_response \<Rightarrow> api_request_error + bool" where
  \<comment> \<open>\<open>fetchWorkspaceProfilePhoto\<close>: no photo (\<open>null\<close>), an error, or a photo\<close>
  "profile_photo_result r =
     (if status_code r = 404 then Inr False
      else if \<not> response_ok r then Inl (extractApiError (status_code r) (case body_json r of None \<Rightarrow> JObj [] | Some v \<Rightarrow> v))
      else Inr True)"

section \<open>Every well formed call is confined and authorised\<close>

lemma work_segments [web_req]:
  "path_segment (lit ''accept'')"
  "path_segment (lit ''ack'')"
  "path_segment (lit ''approvals'')"
  "path_segment (lit ''approve'')"
  "path_segment (lit ''approvers'')"
  "path_segment (lit ''archive'')"
  "path_segment (lit ''attachments'')"
  "path_segment (lit ''audit-logs'')"
  "path_segment (lit ''auth'')"
  "path_segment (lit ''basic'')"
  "path_segment (lit ''bulk'')"
  "path_segment (lit ''calendar-subscriptions'')"
  "path_segment (lit ''calendars'')"
  "path_segment (lit ''change-password'')"
  "path_segment (lit ''chat'')"
  "path_segment (lit ''config'')"
  "path_segment (lit ''contact-groups'')"
  "path_segment (lit ''contacts'')"
  "path_segment (lit ''delegations'')"
  "path_segment (lit ''departments'')"
  "path_segment (lit ''directory'')"
  "path_segment (lit ''discover'')"
  "path_segment (lit ''download'')"
  "path_segment (lit ''favorite'')"
  "path_segment (lit ''file-folders'')"
  "path_segment (lit ''files'')"
  "path_segment (lit ''help-policies'')"
  "path_segment (lit ''import'')"
  "path_segment (lit ''leave'')"
  "path_segment (lit ''login'')"
  "path_segment (lit ''me'')"
  "path_segment (lit ''members'')"
  "path_segment (lit ''messages'')"
  "path_segment (lit ''messenger'')"
  "path_segment (lit ''models'')"
  "path_segment (lit ''notices'')"
  "path_segment (lit ''notifications'')"
  "path_segment (lit ''order'')"
  "path_segment (lit ''organization'')"
  "path_segment (lit ''owner'')"
  "path_segment (lit ''participants'')"
  "path_segment (lit ''permanent'')"
  "path_segment (lit ''personal-ai'')"
  "path_segment (lit ''photo'')"
  "path_segment (lit ''preferences'')"
  "path_segment (lit ''profile'')"
  "path_segment (lit ''providers'')"
  "path_segment (lit ''public-contacts'')"
  "path_segment (lit ''read'')"
  "path_segment (lit ''read-all'')"
  "path_segment (lit ''redraft'')"
  "path_segment (lit ''reject'')"
  "path_segment (lit ''restore'')"
  "path_segment (lit ''rooms'')"
  "path_segment (lit ''schedules'')"
  "path_segment (lit ''settings'')"
  "path_segment (lit ''shares'')"
  "path_segment (lit ''status'')"
  "path_segment (lit ''stream'')"
  "path_segment (lit ''submit'')"
  "path_segment (lit ''summary'')"
  "path_segment (lit ''test'')"
  "path_segment (lit ''translate'')"
  "path_segment (lit ''translation'')"
  "path_segment (lit ''ui-contract'')"
  "path_segment (lit ''versions'')"
  "path_segment (lit ''withdraw'')"
  "path_segment (lit ''workspace'')"
  by (rule literal_segment; simp add: plain_char_def alphanumeric_def)+

lemma work_queries [web_req]:
  "list_all query_char (lit ''&pageSize='')"
  "list_all query_char (lit ''documentId='')"
  "list_all query_char (lit ''expectedVersion='')"
  "list_all query_char (lit ''folderId='')"
  "list_all query_char (lit ''includeDeleted=true'')"
  "list_all query_char (lit ''limit=100'')"
  "list_all query_char (lit ''limit=100&before='')"
  "list_all query_char (lit ''mode=preview'')"
  "list_all query_char (lit ''page='')"
  "list_all query_char (lit ''query='')"
  "list_all query_char (lit ''version='')"
  by (simp_all add: lit_def query_char_def segment_char_def component_char_def alphanumeric_def)

lemma opt_units_simps [web_req]: "opt_units None" "opt_units (Some s) \<longleftrightarrow> units s"
  by (simp_all add: opt_units_def)

lemma param_text_ok [web_req]: "opt_units v \<Longrightarrow> list_all (\<lambda>(k, v). units k \<and> units v) (param_text name v)"
  by (simp add: params_text_units opt_units_def)

lemma encoded_parts:
  "encodeURIComponent s = Some e \<Longrightarrow> units s \<Longrightarrow> list_all query_char e \<and> (no_dots s \<longrightarrow> path_segment e)"
  using segment_query [OF encodeURIComponent_segment [of s e]] encoded_segment [of s e] by blast

lemma with_id_segments [web_req]: "opt_id v \<Longrightarrow> list_all path_segment segs \<Longrightarrow> list_all path_segment (with_id segs v)"
  by (auto simp: opt_id_def with_id_def plain_segment split: option.splits)

lemma with_id_ne [web_req]: "segs \<noteq> [] \<Longrightarrow> with_id segs v \<noteq> []"
  by (auto simp: with_id_def split: option.splits)

lemma save_method_post [web_req]: "save_method v \<noteq> ''GET''"
  by (auto simp: save_method_def split: option.splits)

lemma bool_text_units [web_req]: "units (bool_text b)"
  by (simp add: bool_text_def web_req)

lemma notification_query_units [web_req]:
  "notification_ok (Fetch_notifications o') \<Longrightarrow> list_all (\<lambda>(k, v). units k \<and> units v) (notification_query o')"
  by (simp add: notification_query_def web_req list.pred_map o_def split: option.splits)

lemma file_params_units [web_req]:
  "file_ok (Fetch_workspace_files o') \<Longrightarrow> list_all (\<lambda>(k, v). units k \<and> units v) (file_params o')"
  by (auto simp: file_params_def web_req units_def [of "[]"] split: option.splits)

lemma version_query_text [web_req]: "query_text (version_query v)"
  unfolding version_query_def by (simp add: web_req)

lemmas sound_simps = web_req plain_segment Let_def with_component_def

lemma approval_sound:
  "approval_ok c \<Longrightarrow> approval_request token c = Some r \<Longrightarrow> confined r \<and> authorised token r"
  by (cases c) (auto simp: sound_simps dest: encoded_parts split: option.splits if_splits)

lemma approval_step_sound:
  "approval_step_ok c \<Longrightarrow> approval_step_request token c = Some r \<Longrightarrow> confined r \<and> authorised token r"
  by (cases c) (auto simp: sound_simps dest: encoded_parts split: option.splits if_splits)

lemma notification_sound:
  "notification_ok c \<Longrightarrow> notification_request token c = Some r \<Longrightarrow> confined r \<and> authorised token r"
  by (cases c) (auto simp: sound_simps dest: encoded_parts split: option.splits if_splits)

lemma assistant_sound:
  "assistant_request token c = Some r \<Longrightarrow> confined r \<and> authorised token r"
  by (cases c) (auto simp: sound_simps dest: encoded_parts split: option.splits if_splits)

lemma messenger_sound:
  "messenger_ok c \<Longrightarrow> messenger_request token c = Some r \<Longrightarrow> confined r \<and> authorised token r"
  by (cases c) (auto simp: sound_simps dest: encoded_parts split: option.splits if_splits)

lemma calendar_sound:
  "calendar_ok c \<Longrightarrow> calendar_request token c = Some r \<Longrightarrow> confined r \<and> authorised token r"
  by (cases c) (auto simp: sound_simps dest: encoded_parts split: option.splits if_splits)

lemma contact_sound:
  "contact_ok c \<Longrightarrow> contact_request token c = Some r \<Longrightarrow> confined r \<and> authorised token r"
  by (cases c) (auto simp: sound_simps dest: encoded_parts split: option.splits if_splits)

lemma file_sound:
  "file_ok c \<Longrightarrow> file_request token c = Some r \<Longrightarrow> confined r \<and> authorised token r"
  by (cases c) (auto simp: sound_simps dest: encoded_parts split: option.splits if_splits)

lemma profile_sound:
  "profile_ok c \<Longrightarrow> profile_request token c = Some r \<Longrightarrow> confined r \<and> authorised token r"
  by (cases c) (auto simp: sound_simps dest: encoded_parts split: option.splits if_splits)

end
