(* ===== verification/Web_Api_Mail.thy ===== *)
theory Web_Api_Mail
  imports Web_Api_Work
begin

text \<open>
  The mail requests of the web client (\<open>user-web/src/api.ts\<close>): lists and scheduled mail, mailbox settings and backups,
  spam, automatic classification, forwarding, absence, external accounts, preferences, signatures, folders and tags,
  recipients, attachments, previews, drafts and sending. The conventions are those of the other requests.
\<close>

section \<open>Lists and scheduled mail\<close>

record mail_list_query =
  m_q :: "jstring option"
  m_read :: "jstring option"
  m_starred :: "jstring option"
  m_attachment :: "jstring option"
  m_category :: "jstring option"
  m_sort :: "jstring option"
  m_limit :: "int option"
  m_offset :: "int option"

definition query_units :: "mail_list_query \<Rightarrow> bool" where
  "query_units o' \<longleftrightarrow> opt_units (m_q o') \<and> opt_units (m_read o') \<and> opt_units (m_starred o') \<and> opt_units (m_attachment o')
     \<and> opt_units (m_category o') \<and> opt_units (m_sort o')"

definition trimmed_text :: "jstring option \<Rightarrow> jstring option" where
  \<comment> \<open>\<open>v?.trim()\<close>\<close>
  "trimmed_text v = map_option js_trim v"

definition list_filters :: "mail_list_query \<Rightarrow> (jstring \<times> jstring) list" where
  "list_filters o' =
     param_text ''read'' (m_read o') @ param_text ''starred'' (m_starred o') @ param_text ''attachment'' (m_attachment o')
     @ param_text ''category'' (m_category o') @ param_text ''sort'' (m_sort o') @ param_int ''limit'' (m_limit o')
     @ param_int ''offset'' (m_offset o')"

datatype mailbox = Inbox | Sent | Drafts

definition mailbox_name :: "mailbox \<Rightarrow> jstring" where
  "mailbox_name b = (case b of Inbox \<Rightarrow> lit ''inbox'' | Sent \<Rightarrow> lit ''sent'' | Drafts \<Rightarrow> lit ''drafts'')"

definition mailListPath :: "mailbox \<Rightarrow> mail_list_query \<Rightarrow> jstring" where
  "mailListPath b o' =
     url_path [lit ''mail'', mailbox_name b] @ query_suffix (param_text ''q'' (trimmed_text (m_q o')) @ list_filters o')"

definition mailContextPath :: "jstring \<Rightarrow> mail_list_query option \<Rightarrow> jstring" where
  \<comment> \<open>here the search text is sent as it is\<close>
  "mailContextPath path o' =
     path @ (case o' of None \<Rightarrow> [] | Some q \<Rightarrow> query_suffix (param_text ''q'' (m_q q) @ list_filters q))"

datatype mail_list_call =
    Fetch_inbox mail_list_query
  | Fetch_scheduled_mail mail_list_query
  | Update_scheduled_mail jstring jsval
  | Cancel_scheduled_mail jstring
  | Send_scheduled_mail_now jstring
  | Retry_scheduled_mail jstring

definition fetchMailList :: "jstring \<Rightarrow> mailbox \<Rightarrow> mail_list_query \<Rightarrow> http_request option" where
  "fetchMailList token b o' = Some (request (mailListPath b o') (get_init token))"

fun mail_list_request :: "jstring \<Rightarrow> mail_list_call \<Rightarrow> http_request option" where
  "mail_list_request token (Fetch_inbox o') = fetchMailList token Inbox o'"
| "mail_list_request token (Fetch_scheduled_mail o') =
     Some (request (url_path [lit ''mail'', lit ''scheduled'']
       @ query_suffix (param_text ''q'' (trimmed_text (m_q o')) @ param_text ''sort'' (m_sort o') @ param_int ''limit'' (m_limit o')
         @ param_int ''offset'' (m_offset o'))) (get_init token))"
| "mail_list_request token (Update_scheduled_mail mailId payload) =
     Some (request (url_path [lit ''mail'', mailId, lit ''scheduled''])
       (json_init ''PUT'' token (spread_object payload [(''confirmed'', JBool True)])))"
| "mail_list_request token (Cancel_scheduled_mail mailId) =
     Some (request (url_path [lit ''mail'', mailId, lit ''scheduled'']) (auth_init ''DELETE'' token No_body))"
| "mail_list_request token (Send_scheduled_mail_now mailId) =
     Some (request (url_path [lit ''mail'', mailId, lit ''scheduled'', lit ''send-now'']) (auth_init ''POST'' token No_body))"
| "mail_list_request token (Retry_scheduled_mail mailId) =
     Some (request (url_path [lit ''mail'', mailId, lit ''scheduled'', lit ''retry'']) (auth_init ''POST'' token No_body))"

definition opt_query :: "mail_list_query option \<Rightarrow> bool" where
  "opt_query v = (case v of None \<Rightarrow> True | Some q \<Rightarrow> query_units q)"

fun mail_list_ok :: "mail_list_call \<Rightarrow> bool" where
  "mail_list_ok (Fetch_inbox o') \<longleftrightarrow> query_units o'"
| "mail_list_ok (Fetch_scheduled_mail o') \<longleftrightarrow> query_units o'"
| "mail_list_ok (Update_scheduled_mail d p) \<longleftrightarrow> plain_id d"
| "mail_list_ok (Cancel_scheduled_mail d) \<longleftrightarrow> plain_id d"
| "mail_list_ok (Send_scheduled_mail_now d) \<longleftrightarrow> plain_id d"
| "mail_list_ok (Retry_scheduled_mail d) \<longleftrightarrow> plain_id d"

datatype mail_view_call =
    Fetch_mail_folder_messages jstring "mail_list_query option"
  | Fetch_mail_tag_messages jstring "mail_list_query option"
  | Fetch_mail_spam "mail_list_query option"
  | Fetch_mail_trash "mail_list_query option"
  | Fetch_sent_mail mail_list_query
  | Fetch_draft_mail mail_list_query

fun mail_view_request :: "jstring \<Rightarrow> mail_view_call \<Rightarrow> http_request option" where
  "mail_view_request token (Fetch_mail_folder_messages folderId o') =
     Some (request (mailContextPath (url_path [lit ''mail'', lit ''folders'', folderId, lit ''messages'']) o') (get_init token))"
| "mail_view_request token (Fetch_mail_tag_messages tagId o') =
     Some (request (mailContextPath (url_path [lit ''mail'', lit ''tags'', tagId, lit ''messages'']) o') (get_init token))"
| "mail_view_request token (Fetch_mail_spam o') =
     Some (request (mailContextPath (url_path [lit ''mail'', lit ''spam'']) o') (get_init token))"
| "mail_view_request token (Fetch_mail_trash o') =
     Some (request (mailContextPath (url_path [lit ''mail'', lit ''trash'']) o') (get_init token))"
| "mail_view_request token (Fetch_sent_mail o') = fetchMailList token Sent o'"
| "mail_view_request token (Fetch_draft_mail o') = fetchMailList token Drafts o'"

fun mail_view_ok :: "mail_view_call \<Rightarrow> bool" where
  "mail_view_ok (Fetch_mail_folder_messages d o') \<longleftrightarrow> plain_id d \<and> opt_query o'"
| "mail_view_ok (Fetch_mail_tag_messages d o') \<longleftrightarrow> plain_id d \<and> opt_query o'"
| "mail_view_ok (Fetch_mail_spam o') \<longleftrightarrow> opt_query o'"
| "mail_view_ok (Fetch_mail_trash o') \<longleftrightarrow> opt_query o'"
| "mail_view_ok (Fetch_sent_mail o') \<longleftrightarrow> query_units o'"
| "mail_view_ok (Fetch_draft_mail o') \<longleftrightarrow> query_units o'"

section \<open>Mailboxes and spam\<close>

datatype mailbox_call =
    Fetch_mail_storage
  | Fetch_mailbox_settings
  | Update_mailbox_policy jstring int jsval
  | Empty_mailbox jstring int bool
  | Create_mailbox_backup jstring
  | Fetch_mailbox_backups
  | Retry_mailbox_backup jstring
  | Fetch_spam_settings
  | Update_spam_settings bool jstring int
  | Create_spam_rule jsval
  | Update_spam_rule jstring jsval
  | Delete_spam_rule jstring

fun mailbox_request :: "jstring \<Rightarrow> mailbox_call \<Rightarrow> http_request option" where
  "mailbox_request token Fetch_mail_storage = Some (request (url_path [lit ''mail'', lit ''storage'']) (get_init token))"
| "mailbox_request token Fetch_mailbox_settings = Some (request (url_path [lit ''mail'', lit ''mailbox-settings'']) (get_init token))"
| "mailbox_request token (Update_mailbox_policy mailboxKey version retentionDays) =
     with_component mailboxKey (\<lambda>e. request (url_path [lit ''mail'', lit ''mailbox-settings'', e])
       (auth_init ''PATCH'' token (Json_body (json_object [(''retentionDays'', retentionDays), (''expectedVersion'', json_int version)]))))"
| "mailbox_request token (Empty_mailbox mailboxKey totalCount confirmPermanent) =
     with_component mailboxKey (\<lambda>e. request (url_path [lit ''mail'', lit ''mailbox-settings'', e, lit ''empty''])
       (auth_init ''POST'' token (Json_body (json_object [(''expectedCount'', json_int totalCount), (''confirmPermanent'', JBool confirmPermanent)]))))"
| "mailbox_request token (Create_mailbox_backup mailboxKey) =
     Some (request (url_path [lit ''mail'', lit ''mailbox-backups''])
       (auth_init ''POST'' token (Json_body (json_object [(''mailboxKey'', JStr mailboxKey)]))))"
| "mailbox_request token Fetch_mailbox_backups = Some (request (url_path [lit ''mail'', lit ''mailbox-backups'']) (get_init token))"
| "mailbox_request token (Retry_mailbox_backup jobId) =
     with_component jobId (\<lambda>e. request (url_path [lit ''mail'', lit ''mailbox-backups'', e, lit ''retry'']) (auth_init ''POST'' token No_body))"
| "mailbox_request token Fetch_spam_settings = Some (request (url_path [lit ''mail'', lit ''spam-settings'']) (get_init token))"
| "mailbox_request token (Update_spam_settings filterEnabled blockedAction version) =
     Some (request (url_path [lit ''mail'', lit ''spam-settings'']) (auth_init ''PATCH'' token (Json_body (json_object
       [(''filterEnabled'', JBool filterEnabled), (''blockedAction'', JStr blockedAction), (''expectedVersion'', json_int version)]))))"
| "mailbox_request token (Create_spam_rule payload) =
     Some (request (url_path [lit ''mail'', lit ''spam-settings'', lit ''rules'']) (auth_init ''POST'' token (Json_body payload)))"
| "mailbox_request token (Update_spam_rule ruleId payload) =
     with_component ruleId (\<lambda>e. request (url_path [lit ''mail'', lit ''spam-settings'', lit ''rules'', e]) (auth_init ''PATCH'' token (Json_body payload)))"
| "mailbox_request token (Delete_spam_rule ruleId) =
     with_component ruleId (\<lambda>e. request (url_path [lit ''mail'', lit ''spam-settings'', lit ''rules'', e]) (auth_init ''DELETE'' token No_body))"

fun mailbox_ok :: "mailbox_call \<Rightarrow> bool" where
  "mailbox_ok (Update_mailbox_policy d v r) \<longleftrightarrow> units d \<and> no_dots d"
| "mailbox_ok (Empty_mailbox d n c) \<longleftrightarrow> units d \<and> no_dots d"
| "mailbox_ok (Retry_mailbox_backup d) \<longleftrightarrow> units d \<and> no_dots d"
| "mailbox_ok (Update_spam_rule d p) \<longleftrightarrow> units d \<and> no_dots d"
| "mailbox_ok (Delete_spam_rule d) \<longleftrightarrow> units d \<and> no_dots d"
| "mailbox_ok c \<longleftrightarrow> True"

definition mailboxBackupDownloadUrl :: "jstring \<Rightarrow> jstring option" where
  \<comment> \<open>a path of the origin; the API base is written out\<close>
  "mailboxBackupDownloadUrl jobId =
     map_option (\<lambda>e. url_path [lit ''api'', lit ''v1'', lit ''mail'', lit ''mailbox-backups'', e, lit ''download'']) (encodeURIComponent jobId)"

section \<open>Rules, forwarding, absence and accounts\<close>

abbreviation settings_path :: "string \<Rightarrow> jstring list \<Rightarrow> jstring" where
  "settings_path area segs \<equiv> url_path ([lit ''mail'', lit ''settings'', lit area] @ segs)"

datatype rules_call =
    Fetch_auto_classification_settings
  | Update_auto_classification_settings bool int
  | Create_auto_classification_rule jsval
  | Update_auto_classification_rule jstring int jsval
  | Delete_auto_classification_rule jstring
  | Delete_auto_classification_rules "jstring list"
  | Reorder_auto_classification_rules int "jstring list"
  | Fetch_auto_forward_settings
  | Update_auto_forward_settings bool bool int
  | Create_auto_forward_targets "jstring list"
  | Delete_auto_forward_targets "jstring list"
  | Create_auto_forward_exception jsval
  | Update_auto_forward_exception jstring int jsval
  | Delete_auto_forward_exceptions "jstring list"

fun rules_request :: "jstring \<Rightarrow> rules_call \<Rightarrow> http_request option" where
  "rules_request token Fetch_auto_classification_settings = Some (request (settings_path ''auto-classification'' []) (get_init token))"
| "rules_request token (Update_auto_classification_settings enabled version) =
     Some (request (settings_path ''auto-classification'' []) (auth_init ''PATCH'' token (Json_body (json_object
       [(''enabled'', JBool enabled), (''version'', json_int version)]))))"
| "rules_request token (Create_auto_classification_rule payload) =
     Some (request (settings_path ''auto-classification'' [lit ''rules'']) (auth_init ''POST'' token (Json_body payload)))"
| "rules_request token (Update_auto_classification_rule ruleId version payload) =
     with_component ruleId (\<lambda>e. request (settings_path ''auto-classification'' [lit ''rules'', e])
       (auth_init ''PATCH'' token (Json_body (spread_object payload [(''version'', json_int version)]))))"
| "rules_request token (Delete_auto_classification_rule ruleId) =
     with_component ruleId (\<lambda>e. request (settings_path ''auto-classification'' [lit ''rules'', e]) (auth_init ''DELETE'' token No_body))"
| "rules_request token (Delete_auto_classification_rules ruleIds) =
     Some (request (settings_path ''auto-classification'' [lit ''rules'', lit ''delete''])
       (auth_init ''POST'' token (Json_body (json_object [(''ruleIds'', json_strings ruleIds)]))))"
| "rules_request token (Reorder_auto_classification_rules version ruleIds) =
     Some (request (settings_path ''auto-classification'' [lit ''rules'', lit ''order''])
       (auth_init ''PATCH'' token (Json_body (json_object [(''ruleIds'', json_strings ruleIds), (''version'', json_int version)]))))"
| "rules_request token Fetch_auto_forward_settings = Some (request (settings_path ''auto-forwarding'' []) (get_init token))"
| "rules_request token (Update_auto_forward_settings enabled keepOriginal version) =
     Some (request (settings_path ''auto-forwarding'' []) (auth_init ''PATCH'' token (Json_body (json_object
       [(''enabled'', JBool enabled), (''keepOriginal'', JBool keepOriginal), (''version'', json_int version)]))))"
| "rules_request token (Create_auto_forward_targets emails) =
     Some (request (settings_path ''auto-forwarding'' [lit ''targets''])
       (auth_init ''POST'' token (Json_body (json_object [(''emails'', json_strings emails)]))))"
| "rules_request token (Delete_auto_forward_targets targetIds) =
     Some (request (settings_path ''auto-forwarding'' [lit ''targets'', lit ''delete''])
       (auth_init ''POST'' token (Json_body (json_object [(''targetIds'', json_strings targetIds)]))))"
| "rules_request token (Create_auto_forward_exception payload) =
     Some (request (settings_path ''auto-forwarding'' [lit ''exceptions'']) (auth_init ''POST'' token (Json_body payload)))"
| "rules_request token (Update_auto_forward_exception exceptionId version payload) =
     with_component exceptionId (\<lambda>e. request (settings_path ''auto-forwarding'' [lit ''exceptions'', e])
       (auth_init ''PATCH'' token (Json_body (spread_object payload [(''version'', json_int version)]))))"
| "rules_request token (Delete_auto_forward_exceptions exceptionIds) =
     Some (request (settings_path ''auto-forwarding'' [lit ''exceptions'', lit ''delete''])
       (auth_init ''POST'' token (Json_body (json_object [(''exceptionIds'', json_strings exceptionIds)]))))"

fun rules_ok :: "rules_call \<Rightarrow> bool" where
  "rules_ok (Update_auto_classification_rule d v p) \<longleftrightarrow> units d \<and> no_dots d"
| "rules_ok (Delete_auto_classification_rule d) \<longleftrightarrow> units d \<and> no_dots d"
| "rules_ok (Update_auto_forward_exception d v p) \<longleftrightarrow> units d \<and> no_dots d"
| "rules_ok c \<longleftrightarrow> True"

record out_of_office =
  oo_enabled :: bool
  oo_start_date :: jsval
  oo_end_date :: jsval
  oo_subject :: jstring
  oo_message :: jstring
  oo_target_scope :: jstring
  oo_version :: int

datatype account_call =
    Fetch_out_of_office_settings
  | Update_out_of_office_settings out_of_office
  | Fetch_external_mail_accounts
  | Create_external_mail_account jsval
  | Update_external_mail_account jstring jsval
  | Delete_external_mail_account jstring
  | Bulk_delete_external_mail_accounts "jstring list"
  | Test_external_mail_account jstring
  | Collect_external_mail_account jstring

fun account_request :: "jstring \<Rightarrow> account_call \<Rightarrow> http_request option" where
  "account_request token Fetch_out_of_office_settings = Some (request (settings_path ''out-of-office'' []) (get_init token))"
| "account_request token (Update_out_of_office_settings v) =
     Some (request (settings_path ''out-of-office'' []) (auth_init ''PATCH'' token (Json_body (json_object
       [(''enabled'', JBool (oo_enabled v)), (''startDate'', oo_start_date v), (''endDate'', oo_end_date v),
        (''subject'', JStr (oo_subject v)), (''message'', JStr (oo_message v)), (''targetScope'', JStr (oo_target_scope v)),
        (''version'', json_int (oo_version v))]))))"
| "account_request token Fetch_external_mail_accounts = Some (request (settings_path ''external-accounts'' []) (get_init token))"
| "account_request token (Create_external_mail_account payload) =
     Some (request (settings_path ''external-accounts'' []) (auth_init ''POST'' token (Json_body payload)))"
| "account_request token (Update_external_mail_account d payload) =
     with_component d (\<lambda>e. request (settings_path ''external-accounts'' [e]) (auth_init ''PATCH'' token (Json_body payload)))"
| "account_request token (Delete_external_mail_account d) =
     with_component d (\<lambda>e. request (settings_path ''external-accounts'' [e]) (auth_init ''DELETE'' token No_body))"
| "account_request token (Bulk_delete_external_mail_accounts ids) =
     Some (request (settings_path ''external-accounts'' [lit ''bulk-delete''])
       (auth_init ''POST'' token (Json_body (json_object [(''accountIds'', json_strings ids)]))))"
| "account_request token (Test_external_mail_account d) =
     with_component d (\<lambda>e. request (settings_path ''external-accounts'' [e, lit ''test'']) (auth_init ''POST'' token No_body))"
| "account_request token (Collect_external_mail_account d) =
     with_component d (\<lambda>e. request (settings_path ''external-accounts'' [e, lit ''collect'']) (auth_init ''POST'' token No_body))"

fun account_ok :: "account_call \<Rightarrow> bool" where
  "account_ok (Update_external_mail_account d p) \<longleftrightarrow> units d \<and> no_dots d"
| "account_ok (Delete_external_mail_account d) \<longleftrightarrow> units d \<and> no_dots d"
| "account_ok (Test_external_mail_account d) \<longleftrightarrow> units d \<and> no_dots d"
| "account_ok (Collect_external_mail_account d) \<longleftrightarrow> units d \<and> no_dots d"
| "account_ok c \<longleftrightarrow> True"

section \<open>Preferences and signatures\<close>

record signature_preferences =
  sp_enabled :: bool
  sp_position :: jstring
  sp_default :: "jstring option"
  sp_version :: int

datatype preference_call =
    Fetch_mail_basic_preferences
  | Update_mail_basic_preferences jsval int
  | Reset_mail_basic_preferences
  | Fetch_mail_signatures
  | Create_mail_signature jsval
  | Update_mail_signature jstring int jsval
  | Delete_mail_signature jstring int
  | Bulk_delete_mail_signatures "(jstring \<times> int) list"
  | Update_mail_signature_preferences signature_preferences

fun preference_request :: "jstring \<Rightarrow> preference_call \<Rightarrow> http_request option" where
  "preference_request token Fetch_mail_basic_preferences =
     Some (request (url_path [lit ''mail'', lit ''preferences'', lit ''basic'']) (get_init token))"
| "preference_request token (Update_mail_basic_preferences preferences version) =
     Some (request (url_path [lit ''mail'', lit ''preferences'', lit ''basic''])
       (json_init ''PUT'' token (spread_object preferences [(''expectedVersion'', json_int version)])))"
| "preference_request token Reset_mail_basic_preferences =
     Some (request (url_path [lit ''mail'', lit ''preferences'', lit ''basic'', lit ''reset'']) (auth_init ''POST'' token No_body))"
| "preference_request token Fetch_mail_signatures = Some (request (url_path [lit ''mail'', lit ''signatures'']) (get_init token))"
| "preference_request token (Create_mail_signature payload) =
     Some (request (url_path [lit ''mail'', lit ''signatures'']) (auth_init ''POST'' token (Json_body payload)))"
| "preference_request token (Update_mail_signature signatureId version payload) =
     with_component signatureId (\<lambda>e. request (url_path [lit ''mail'', lit ''signatures'', e])
       (auth_init ''PUT'' token (Json_body (spread_object payload [(''expectedVersion'', json_int version)]))))"
| "preference_request token (Delete_mail_signature signatureId version) =
     with_component signatureId (\<lambda>e. request (url_path [lit ''mail'', lit ''signatures'', e] @ version_query version)
       (auth_init ''DELETE'' token No_body))"
| "preference_request token (Bulk_delete_mail_signatures signatures) =
     Some (request (url_path [lit ''mail'', lit ''signatures'', lit ''bulk-delete'']) (auth_init ''POST'' token (Json_body (json_object
       [(''items'', JArr (map (\<lambda>(d, v). json_object [(''signatureId'', JStr d), (''expectedVersion'', json_int v)]) signatures))]))))"
| "preference_request token (Update_mail_signature_preferences p) =
     Some (request (url_path [lit ''mail'', lit ''signatures'', lit ''preferences'']) (auth_init ''PUT'' token (Json_body (json_object
       [(''enabled'', JBool (sp_enabled p)), (''position'', JStr (sp_position p)), (''defaultSignatureId'', json_opt (sp_default p)),
        (''expectedVersion'', json_int (sp_version p))]))))"

fun preference_ok :: "preference_call \<Rightarrow> bool" where
  "preference_ok (Update_mail_signature d v p) \<longleftrightarrow> units d \<and> no_dots d"
| "preference_ok (Delete_mail_signature d v) \<longleftrightarrow> units d \<and> no_dots d"
| "preference_ok c \<longleftrightarrow> True"

section \<open>Folders, tags and bulk actions\<close>

record bulk_action =
  b_mail_ids :: "jstring list"
  b_action :: jstring
  b_mailbox :: jstring
  b_category :: "jstring option"
  b_folder_id :: "jstring option"
  b_tag_id :: "jstring option"
  b_trash_views :: "jsval list option"

definition opt_field :: "string \<Rightarrow> jstring option \<Rightarrow> (string \<times> jsval) list" where
  \<comment> \<open>\<open>...(v ? { name: v } : {})\<close>\<close>
  "opt_field name v = (case v of None \<Rightarrow> [] | Some s \<Rightarrow> if s = [] then [] else [(name, JStr s)])"

definition bulk_body :: "bulk_action \<Rightarrow> jsval" where
  "bulk_body b =
     json_object ([(''mailIds'', json_strings (b_mail_ids b)), (''action'', JStr (b_action b)), (''mailbox'', JStr (b_mailbox b))]
       @ opt_field ''targetCategory'' (b_category b) @ opt_field ''targetFolderId'' (b_folder_id b) @ opt_field ''targetTagId'' (b_tag_id b)
       @ (case b_trash_views b of None \<Rightarrow> [] | Some vs \<Rightarrow> [(''trashViews'', JArr vs)]))"

datatype folder_call =
    Set_mail_category jstring jstring
  | Bulk_mail_action bulk_action
  | Fetch_mail_folders
  | Create_mail_folder jstring
  | Update_mail_folder jstring jstring
  | Delete_mail_folder jstring
  | Fetch_mail_tags
  | Create_mail_tag jstring jstring
  | Update_mail_tag jstring jstring jstring
  | Delete_mail_tag jstring

fun folder_request :: "jstring \<Rightarrow> folder_call \<Rightarrow> http_request option" where
  "folder_request token (Set_mail_category mailId category) =
     Some (request (url_path [lit ''mail'', mailId, lit ''category'']) (json_init ''POST'' token (json_object [(''category'', JStr category)])))"
| "folder_request token (Bulk_mail_action b) =
     Some (request (url_path [lit ''mail'', lit ''bulk'']) (json_init ''POST'' token (bulk_body b)))"
| "folder_request token Fetch_mail_folders = Some (request (url_path [lit ''mail'', lit ''folders'']) (get_init token))"
| "folder_request token (Create_mail_folder name) =
     Some (request (url_path [lit ''mail'', lit ''folders'']) (json_init ''POST'' token (json_object [(''name'', JStr name)])))"
| "folder_request token (Update_mail_folder folderId name) =
     Some (request (url_path [lit ''mail'', lit ''folders'', folderId]) (json_init ''PATCH'' token (json_object [(''name'', JStr name)])))"
| "folder_request token (Delete_mail_folder folderId) =
     Some (request (url_path [lit ''mail'', lit ''folders'', folderId]) (auth_init ''DELETE'' token No_body))"
| "folder_request token Fetch_mail_tags = Some (request (url_path [lit ''mail'', lit ''tags'']) (get_init token))"
| "folder_request token (Create_mail_tag name color) =
     Some (request (url_path [lit ''mail'', lit ''tags'']) (json_init ''POST'' token (json_object [(''name'', JStr name), (''color'', JStr color)])))"
| "folder_request token (Update_mail_tag tagId name color) =
     Some (request (url_path [lit ''mail'', lit ''tags'', tagId])
       (json_init ''PATCH'' token (json_object [(''name'', JStr name), (''color'', JStr color)])))"
| "folder_request token (Delete_mail_tag tagId) =
     Some (request (url_path [lit ''mail'', lit ''tags'', tagId]) (auth_init ''DELETE'' token No_body))"

fun folder_ok :: "folder_call \<Rightarrow> bool" where
  "folder_ok (Set_mail_category d c) \<longleftrightarrow> plain_id d"
| "folder_ok (Update_mail_folder d n) \<longleftrightarrow> plain_id d"
| "folder_ok (Delete_mail_folder d) \<longleftrightarrow> plain_id d"
| "folder_ok (Update_mail_tag d n c) \<longleftrightarrow> plain_id d"
| "folder_ok (Delete_mail_tag d) \<longleftrightarrow> plain_id d"
| "folder_ok c \<longleftrightarrow> True"

section \<open>Recipients, attachments, details and sending\<close>

datatype recipient_call =
    Fetch_recent_mail_recipients int
  | Fetch_recent_mail_recipient_settings
  | Delete_recent_mail_recipient jstring
  | Bulk_delete_recent_mail_recipients jsval
  | Upload_mail_attachment nat jstring

fun recipient_request :: "jstring \<Rightarrow> recipient_call \<Rightarrow> http_request option" where
  "recipient_request token (Fetch_recent_mail_recipients limit) =
     Some (request (url_path [lit ''mail'', lit ''recent-recipients''] @ 63 # lit ''limit='' @ show_int limit) (get_init token))"
| "recipient_request token Fetch_recent_mail_recipient_settings =
     Some (request (settings_path ''recent-recipients'' []) (get_init token))"
| "recipient_request token (Delete_recent_mail_recipient recipientId) =
     Some (request (settings_path ''recent-recipients'' [recipientId]) (auth_init ''DELETE'' token No_body))"
| "recipient_request token (Bulk_delete_recent_mail_recipients payload) =
     Some (request (settings_path ''recent-recipients'' [lit ''bulk-delete'']) (auth_init ''POST'' token (Json_body payload)))"
| "recipient_request token (Upload_mail_attachment file disposition) =
     Some (request (url_path [lit ''mail'', lit ''attachments'']) (auth_init ''POST'' token
       (Form_body [(lit ''file'', Form_file file), (lit ''disposition'', Form_text disposition)])))"

fun recipient_ok :: "recipient_call \<Rightarrow> bool" where
  "recipient_ok (Delete_recent_mail_recipient d) \<longleftrightarrow> plain_id d"
| "recipient_ok c \<longleftrightarrow> True"

datatype mail_call =
    Download_mail_attachment jstring jstring
  | Fetch_mail_detail jstring jstring
  | Fetch_mail_delivery_status
  | Mark_mail_read jstring
  | Toggle_mail_star jstring
  | Save_mail_draft jsval
  | Update_mail_draft jstring jsval
  | Send_mail jsval

fun mail_request :: "jstring \<Rightarrow> mail_call \<Rightarrow> http_request option" where
  "mail_request token (Download_mail_attachment mailId attachmentId) =
     Some (bare_fetch (url_path [lit ''mail'', mailId, lit ''attachments'', attachmentId]) (get_init token))"
| "mail_request token (Fetch_mail_detail mailId view) =
     (if view = lit ''inbox'' then Some (request (url_path [lit ''mail'', mailId]) (get_init token))
      else with_component view (\<lambda>e. request (url_path [lit ''mail'', mailId] @ 63 # lit ''view='' @ e) (get_init token)))"
| "mail_request token Fetch_mail_delivery_status =
     Some (request (url_path [lit ''mail'', lit ''delivery'', lit ''status'']) (get_init token))"
| "mail_request token (Mark_mail_read mailId) =
     Some (request (url_path [lit ''mail'', mailId, lit ''read'']) (auth_init ''POST'' token No_body))"
| "mail_request token (Toggle_mail_star mailId) =
     Some (request (url_path [lit ''mail'', mailId, lit ''star'']) (auth_init ''POST'' token No_body))"
| "mail_request token (Save_mail_draft payload) =
     Some (request (url_path [lit ''mail'', lit ''draft'']) (json_init ''POST'' token payload))"
| "mail_request token (Update_mail_draft mailId payload) =
     Some (request (url_path [lit ''mail'', mailId, lit ''draft'']) (json_init ''PUT'' token payload))"
| "mail_request token (Send_mail payload) =
     Some (request (url_path [lit ''mail'', lit ''send'']) (json_init ''POST'' token payload))"

fun mail_ok :: "mail_call \<Rightarrow> bool" where
  "mail_ok (Download_mail_attachment d a) \<longleftrightarrow> plain_id d \<and> plain_id a"
| "mail_ok (Fetch_mail_detail d v) \<longleftrightarrow> plain_id d \<and> units v"
| "mail_ok (Mark_mail_read d) \<longleftrightarrow> plain_id d"
| "mail_ok (Toggle_mail_star d) \<longleftrightarrow> plain_id d"
| "mail_ok (Update_mail_draft d p) \<longleftrightarrow> plain_id d"
| "mail_ok c \<longleftrightarrow> True"

section \<open>Every well formed call is confined and authorised\<close>

lemma mail_segments [web_req]:
  "path_segment (lit ''api'')"
  "path_segment (lit ''auto-classification'')"
  "path_segment (lit ''auto-forwarding'')"
  "path_segment (lit ''bulk-delete'')"
  "path_segment (lit ''category'')"
  "path_segment (lit ''collect'')"
  "path_segment (lit ''delete'')"
  "path_segment (lit ''delivery'')"
  "path_segment (lit ''draft'')"
  "path_segment (lit ''drafts'')"
  "path_segment (lit ''empty'')"
  "path_segment (lit ''exceptions'')"
  "path_segment (lit ''external-accounts'')"
  "path_segment (lit ''folders'')"
  "path_segment (lit ''inbox'')"
  "path_segment (lit ''mail'')"
  "path_segment (lit ''mailbox-backups'')"
  "path_segment (lit ''mailbox-settings'')"
  "path_segment (lit ''out-of-office'')"
  "path_segment (lit ''recent-recipients'')"
  "path_segment (lit ''reset'')"
  "path_segment (lit ''retry'')"
  "path_segment (lit ''rules'')"
  "path_segment (lit ''scheduled'')"
  "path_segment (lit ''send'')"
  "path_segment (lit ''send-now'')"
  "path_segment (lit ''sent'')"
  "path_segment (lit ''signatures'')"
  "path_segment (lit ''spam'')"
  "path_segment (lit ''spam-settings'')"
  "path_segment (lit ''star'')"
  "path_segment (lit ''storage'')"
  "path_segment (lit ''tags'')"
  "path_segment (lit ''targets'')"
  "path_segment (lit ''trash'')"
  "path_segment (lit ''v1'')"
  by (rule literal_segment; simp add: plain_char_def alphanumeric_def)+

lemma mail_queries [web_req]:
  "list_all query_char (lit ''limit='')"
  "list_all query_char (lit ''view='')"
  by (simp_all add: lit_def query_char_def segment_char_def component_char_def alphanumeric_def)

lemma mailbox_segment [web_req]: "path_segment (mailbox_name b)"
  by (cases b) (simp_all add: mailbox_name_def web_req)

lemma units_trim: "units s \<Longrightarrow> units (js_trim s)"
  unfolding units_def list_all_iff using set_js_trim by blast

lemma opt_units_trim [web_req]: "opt_units v \<Longrightarrow> opt_units (trimmed_text v)"
  by (auto simp: opt_units_def trimmed_text_def units_trim split: option.splits)

lemma list_filters_units [web_req]: "query_units o' \<Longrightarrow> list_all (\<lambda>(k, v). units k \<and> units v) (list_filters o')"
  by (simp add: list_filters_def query_units_def param_text_ok params_int_units)

lemma query_units_q [web_req]: "query_units o' \<Longrightarrow> opt_units (m_q o')" "query_units o' \<Longrightarrow> opt_units (m_sort o')"
  by (simp_all add: query_units_def)

lemma context_path:
  assumes "opt_query o'"
  shows "\<exists>q. mailContextPath p o' = p @ q \<and> query_text q"
proof (cases o')
  case None
  then show ?thesis by (simp add: mailContextPath_def query_text_def)
next
  case (Some q)
  then have "query_text (query_suffix (param_text ''q'' (m_q q) @ list_filters q))"
    using assms by (intro query_suffix_ok) (simp add: opt_query_def web_req)
  then show ?thesis using Some by (simp add: mailContextPath_def)
qed

lemma confined_context [web_req]:
  assumes "opt_query o'" "segs \<noteq> []" "list_all path_segment segs"
  shows "confined (request (mailContextPath (url_path segs) o') init)"
proof -
  obtain q where "mailContextPath (url_path segs) o' = url_path segs @ q" "query_text q" using context_path [OF assms(1)] by blast
  then show ?thesis using confined_request(1) [OF assms(2,3)] by simp
qed

lemma confined_mail_list [web_req]:
  assumes "query_units o'"
  shows "confined (request (mailListPath b o') init)"
  unfolding mailListPath_def
  by (rule confined_request) (use assms in \<open>simp_all add: web_req\<close>)

lemma mail_list_sound:
  "mail_list_ok c \<Longrightarrow> mail_list_request token c = Some r \<Longrightarrow> confined r \<and> authorised token r"
  by (cases c) (auto simp: fetchMailList_def web_req sound_simps dest: encoded_parts split: option.splits if_splits)

lemma mail_view_sound:
  "mail_view_ok c \<Longrightarrow> mail_view_request token c = Some r \<Longrightarrow> confined r \<and> authorised token r"
  by (cases c) (auto simp: fetchMailList_def web_req sound_simps dest: encoded_parts split: option.splits if_splits)

lemma mailbox_sound:
  "mailbox_ok c \<Longrightarrow> mailbox_request token c = Some r \<Longrightarrow> confined r \<and> authorised token r"
  by (cases c) (auto simp: web_req sound_simps dest: encoded_parts split: option.splits if_splits)

lemma rules_sound:
  "rules_ok c \<Longrightarrow> rules_request token c = Some r \<Longrightarrow> confined r \<and> authorised token r"
  by (cases c) (auto simp: web_req sound_simps dest: encoded_parts split: option.splits if_splits)

lemma account_sound:
  "account_ok c \<Longrightarrow> account_request token c = Some r \<Longrightarrow> confined r \<and> authorised token r"
  by (cases c) (auto simp: web_req sound_simps dest: encoded_parts split: option.splits if_splits)

lemma preference_sound:
  "preference_ok c \<Longrightarrow> preference_request token c = Some r \<Longrightarrow> confined r \<and> authorised token r"
  by (cases c) (auto simp: web_req sound_simps dest: encoded_parts split: option.splits if_splits)

lemma folder_sound:
  "folder_ok c \<Longrightarrow> folder_request token c = Some r \<Longrightarrow> confined r \<and> authorised token r"
  by (cases c) (auto simp: web_req sound_simps dest: encoded_parts split: option.splits if_splits)

lemma recipient_sound:
  "recipient_ok c \<Longrightarrow> recipient_request token c = Some r \<Longrightarrow> confined r \<and> authorised token r"
  by (cases c) (auto simp: web_req sound_simps dest: encoded_parts split: option.splits if_splits)

lemma mail_sound:
  "mail_ok c \<Longrightarrow> mail_request token c = Some r \<Longrightarrow> confined r \<and> authorised token r"
  by (cases c) (auto simp: web_req sound_simps dest: encoded_parts split: option.splits if_splits)

end
