(* ===== verification/Web_Api.thy ===== *)
theory Web_Api
  imports Web_Api_Mail
begin

text \<open>
  All requests of the web client together (\<open>user-web/src/api.ts\<close>): every call of every area, inline images and mail
  previews, which are addressed within the origin, and the URL a request goes to under a given API base. The properties
  state where requests can go and what they carry.
\<close>

datatype web_call =
    Session_call session_call
  | Approval_call approval_call
  | Approval_step_call approval_step_call
  | Notification_call notification_call
  | Assistant_call assistant_call
  | Messenger_call messenger_call
  | Calendar_call calendar_call
  | Contact_call contact_call
  | File_call file_call
  | Profile_call profile_call
  | Mail_list_call mail_list_call
  | Mail_view_call mail_view_call
  | Mailbox_call mailbox_call
  | Rules_call rules_call
  | Account_call account_call
  | Preference_call preference_call
  | Folder_call folder_call
  | Recipient_call recipient_call
  | Mail_call mail_call

fun web_request :: "jstring \<Rightarrow> web_call \<Rightarrow> http_request option" where
  "web_request token (Session_call c) = session_request token c"
| "web_request token (Approval_call c) = approval_request token c"
| "web_request token (Approval_step_call c) = approval_step_request token c"
| "web_request token (Notification_call c) = notification_request token c"
| "web_request token (Assistant_call c) = assistant_request token c"
| "web_request token (Messenger_call c) = messenger_request token c"
| "web_request token (Calendar_call c) = calendar_request token c"
| "web_request token (Contact_call c) = contact_request token c"
| "web_request token (File_call c) = file_request token c"
| "web_request token (Profile_call c) = profile_request token c"
| "web_request token (Mail_list_call c) = mail_list_request token c"
| "web_request token (Mail_view_call c) = mail_view_request token c"
| "web_request token (Mailbox_call c) = mailbox_request token c"
| "web_request token (Rules_call c) = rules_request token c"
| "web_request token (Account_call c) = account_request token c"
| "web_request token (Preference_call c) = preference_request token c"
| "web_request token (Folder_call c) = folder_request token c"
| "web_request token (Recipient_call c) = recipient_request token c"
| "web_request token (Mail_call c) = mail_request token c"

fun web_call_ok :: "web_call \<Rightarrow> bool" where
  "web_call_ok (Approval_call c) \<longleftrightarrow> approval_ok c"
| "web_call_ok (Approval_step_call c) \<longleftrightarrow> approval_step_ok c"
| "web_call_ok (Notification_call c) \<longleftrightarrow> notification_ok c"
| "web_call_ok (Messenger_call c) \<longleftrightarrow> messenger_ok c"
| "web_call_ok (Calendar_call c) \<longleftrightarrow> calendar_ok c"
| "web_call_ok (Contact_call c) \<longleftrightarrow> contact_ok c"
| "web_call_ok (File_call c) \<longleftrightarrow> file_ok c"
| "web_call_ok (Profile_call c) \<longleftrightarrow> profile_ok c"
| "web_call_ok (Mail_list_call c) \<longleftrightarrow> mail_list_ok c"
| "web_call_ok (Mail_view_call c) \<longleftrightarrow> mail_view_ok c"
| "web_call_ok (Mailbox_call c) \<longleftrightarrow> mailbox_ok c"
| "web_call_ok (Rules_call c) \<longleftrightarrow> rules_ok c"
| "web_call_ok (Account_call c) \<longleftrightarrow> account_ok c"
| "web_call_ok (Preference_call c) \<longleftrightarrow> preference_ok c"
| "web_call_ok (Folder_call c) \<longleftrightarrow> folder_ok c"
| "web_call_ok (Recipient_call c) \<longleftrightarrow> recipient_ok c"
| "web_call_ok (Mail_call c) \<longleftrightarrow> mail_ok c"
| "web_call_ok c \<longleftrightarrow> True"

definition public_call :: "web_call \<Rightarrow> bool" where
  \<comment> \<open>the calls that are made without a session\<close>
  "public_call c \<longleftrightarrow> c = Session_call Fetch_ui_contract \<or> (\<exists>p. c = Session_call (Login p))"

lemma session_sound:
  "session_request token c = Some r \<Longrightarrow>
     confined r \<and> (c = Fetch_ui_contract \<or> (\<exists>p. c = Login p) \<or> authorised token r)"
proof -
  have "path_segment (lit ''auth'')" "path_segment (lit ''me'')" "path_segment (lit ''login'')"
    "path_segment (lit ''change-password'')" "path_segment (lit ''ui-contract'')"
    by (rule literal_segment; simp add: plain_char_def alphanumeric_def)+
  then show "session_request token c = Some r \<Longrightarrow> confined r \<and> (c = Fetch_ui_contract \<or> (\<exists>p. c = Login p) \<or> authorised token r)"
    by (cases c) (auto simp: web_req)
qed

definition announced :: "http_request \<Rightarrow> bool" where
  \<comment> \<open>a JSON body is announced as such, a form is left to the browser, and a GET request has no body\<close>
  "announced r \<longleftrightarrow>
     (case r_body r of Json_body v \<Rightarrow> map_of (r_headers r) (lit ''Content-Type'') = Some (lit ''application/json'')
      | Form_body ps \<Rightarrow> map_of (r_headers r) (lit ''Content-Type'') = None
      | No_body \<Rightarrow> True)
     \<and> (r_method r = lit ''GET'' \<longrightarrow> r_body r = No_body)"

lemma authorised_announced:
  "authorised token r \<longleftrightarrow> map_of (r_headers r) (lit ''Authorization'') = Some (lit ''Bearer '' @ token) \<and> announced r"
  by (simp add: authorised_def announced_def)

lemma public_headers:
  assumes "public_call c" "web_request token c = Some r"
  shows "map_of (r_headers r) (lit ''Authorization'') = None" "announced r"
  using assms by (auto simp: public_call_def announced_def request_def map_of_js_spread content_json_def)

section \<open>Addresses\<close>

definition request_url :: "jstring option \<Rightarrow> http_request \<Rightarrow> jstring" where
  \<comment> \<open>\<open>`${apiBase}${path}`\<close>\<close>
  "request_url base r = normalizeBrowserApiBase base @ r_target r"

definition resolveMailPreviewUrl ::
    "(jstring \<Rightarrow> jstring \<times> jstring \<times> jstring \<times> jstring) \<Rightarrow> jstring option \<Rightarrow> jstring \<Rightarrow> jstring \<Rightarrow> jstring option" where
  \<comment> \<open>\<open>parse\<close> is \<open>new URL(path, window.location.origin)\<close>: origin, path name, query and fragment; the result is the
     checked address, \<open>None\<close> where an error is raised\<close>
  "resolveMailPreviewUrl parse base origin previewPath =
     (if \<not> assertMailPreviewPath previewPath then None
      else (let expected = normalizeBrowserApiBase base @ previewPath; (o', pathname, search, hash) = parse expected
            in if o' \<noteq> origin \<or> pathname \<noteq> expected \<or> search \<noteq> [] \<or> hash \<noteq> [] then None
               else Some (o' @ pathname)))"

lemma url_path_append: "url_path xs @ url_path ys = url_path (xs @ ys)"
  by (simp add: url_path_def)

lemma base_path_segment: "base_segment s \<Longrightarrow> no_dots s \<and> list_all (\<lambda>c. alphanumeric c \<or> c \<in> {46, 95, 126, 45}) s"
  by (simp add: base_segment_def no_dots_def)

lemma base_segment_path: "base_segment s \<Longrightarrow> path_segment s"
  by (auto simp: base_segment_def path_segment_def list_all_iff segment_char_def component_char_def)

text \<open>
  The check of inline images of approvals looks at the beginning of the address only: dot segments pass, which the check
  of mail previews refuses.
\<close>

lemma inline_image_escapes:
  "fetchApprovalInlineImage token (lit ''/api/v1/approvals/../auth/me'') = Some (bare_fetch (lit ''/api/v1/approvals/../auth/me'') (get_init token))"
  "\<not> assertMailPreviewPath (lit ''/mail/../auth/me'')"
  by (simp_all add: fetchApprovalInlineImage_def js_starts_with_def assertMailPreviewPath_def lit_def preview_segment_def)

section \<open>The properties\<close>

text \<open>Everything that is fetched: the calls above under the API base, previews of mail images under the checked address, and
  two addresses that are written out, the images inside approvals and the download of a backup.\<close>

datatype web_fetch = Api_call web_call | Mail_preview jstring | Approval_image jstring | Backup_download jstring

fun fetch_request ::
    "(jstring \<Rightarrow> jstring \<times> jstring \<times> jstring \<times> jstring) \<Rightarrow> jstring option \<Rightarrow> jstring \<Rightarrow> jstring \<Rightarrow> web_fetch \<Rightarrow> (jstring \<times> http_request) option" where
  \<comment> \<open>the address and the request; \<open>None\<close> where an error is raised before\<close>
  "fetch_request parse base origin token (Api_call c) = map_option (\<lambda>r. (request_url base r, r)) (web_request token c)"
| "fetch_request parse base origin token (Mail_preview p) =
     map_option (\<lambda>u. (u, bare_fetch u (get_init token))) (resolveMailPreviewUrl parse base origin p)"
| "fetch_request parse base origin token (Approval_image u) = map_option (\<lambda>r. (u, r)) (fetchApprovalInlineImage token u)"
| "fetch_request parse base origin token (Backup_download j) =
     map_option (\<lambda>u. (u, bare_fetch u (get_init token))) (mailboxBackupDownloadUrl j)"

fun fetch_ok :: "web_fetch \<Rightarrow> bool" where
  "fetch_ok (Api_call c) \<longleftrightarrow> web_call_ok c"
| "fetch_ok (Backup_download j) \<longleftrightarrow> units j \<and> no_dots j"
| "fetch_ok c \<longleftrightarrow> True"

lemma api_call_sound:
  assumes "web_call_ok c" "web_request token c = Some r"
  shows "\<exists>segs q. request_url base r = normalizeBrowserApiBase base @ url_path segs @ q \<and> segs \<noteq> [] \<and> list_all path_segment segs
      \<and> query_text q"
    "map_of (r_headers r) (lit ''Authorization'') = (if public_call c then None else Some (lit ''Bearer '' @ token))" "announced r"
proof -
  have s: "confined r \<and> (public_call c \<or> authorised token r)"
  proof (cases c)
    case (Session_call d)
    then show ?thesis using session_sound [of token d r] assms(2) by (auto simp: public_call_def)
  qed (use assms approval_sound approval_step_sound notification_sound assistant_sound messenger_sound calendar_sound
      contact_sound file_sound profile_sound mail_list_sound mailbox_sound rules_sound account_sound preference_sound
      folder_sound mail_view_sound recipient_sound mail_sound in auto)
  then show "\<exists>segs q. request_url base r = normalizeBrowserApiBase base @ url_path segs @ q \<and> segs \<noteq> [] \<and> list_all path_segment segs
      \<and> query_text q"
    by (auto simp: confined_def request_url_def)
  show "map_of (r_headers r) (lit ''Authorization'') = (if public_call c then None else Some (lit ''Bearer '' @ token))" "announced r"
    using s public_headers [OF _ assms(2)] by (auto simp: authorised_announced)
qed

lemma preview_sound:
  assumes "resolveMailPreviewUrl parse base origin p = Some u"
  shows "\<exists>segs. u = origin @ normalizeBrowserApiBase base @ url_path (lit ''mail'' # segs) \<and> list_all preview_segment segs \<and> segs \<noteq> []"
proof -
  have "assertMailPreviewPath p" "u = origin @ normalizeBrowserApiBase base @ p"
    using assms by (auto simp: resolveMailPreviewUrl_def Let_def split: if_splits prod.splits)
  with preview_path_segments show ?thesis by blast
qed

lemma backup_sound:
  assumes "mailboxBackupDownloadUrl j = Some u" "units j" "no_dots j"
  shows "\<exists>e. path_segment e \<and> u = url_path [lit ''api'', lit ''v1'', lit ''mail'', lit ''mailbox-backups'', e, lit ''download'']"
  using assms encoded_segment by (auto simp: mailboxBackupDownloadUrl_def)

text \<open>C23. Where requests go and what they carry. For every call with well formed identifiers, whatever the configured API
  base, which consists of safe segments: the calls of the API go to safe segments below the base, with a query or none; a
  preview of a mail image goes to segments of mail below the base at the own origin; the two addresses that are written
  out do not follow the base: the download of a backup goes to its safe segments below \<open>/api/v1\<close>, and of an image in
  an approval only the beginning \<open>/api/v1/approvals/\<close> is sure (\<open>inline_image_escapes\<close>). The token is sent with every call but
  the login and the interface contract, which carry none; in all of them, these two included, a JSON body is announced as
  such, a form is not, and a GET request has no body.\<close>

theorem web_requests_confined:
  assumes "fetch_ok c" "fetch_request parse base origin token c = Some (url, r)"
  shows "(case c of
        Api_call d \<Rightarrow> \<exists>segs q. url = normalizeBrowserApiBase base @ url_path segs @ q \<and> segs \<noteq> [] \<and> list_all path_segment segs \<and> query_text q
      | Mail_preview p \<Rightarrow> \<exists>segs. url = origin @ normalizeBrowserApiBase base @ url_path (lit ''mail'' # segs)
            \<and> list_all preview_segment segs \<and> segs \<noteq> []
      | Approval_image u \<Rightarrow> url = u \<and> js_starts_with u (lit ''/api/v1/approvals/'')
      | Backup_download j \<Rightarrow> \<exists>e. path_segment e
            \<and> url = url_path [lit ''api'', lit ''v1'', lit ''mail'', lit ''mailbox-backups'', e, lit ''download''])
    \<and> (\<exists>bs. normalizeBrowserApiBase base = url_path bs \<and> bs \<noteq> [] \<and> list_all base_segment bs)
    \<and> map_of (r_headers r) (lit ''Authorization'') =
        (if c = Api_call (Session_call Fetch_ui_contract) \<or> (\<exists>p. c = Api_call (Session_call (Login p))) then None
         else Some (lit ''Bearer '' @ token))
    \<and> announced r"
proof -
  have own: "map_of (r_headers (bare_fetch u (get_init token))) (lit ''Authorization'') = Some (lit ''Bearer '' @ token)"
    "announced (bare_fetch u (get_init token))" for u
    using authorised_init(2) [of token u] by (simp_all add: authorised_announced)
  show ?thesis
  proof (cases c)
    case (Api_call d)
    then show ?thesis
      using assms api_call_sound(1) [of d token r base] api_call_sound(2,3) [of d token r] api_base_segments [of base]
      by (auto simp: public_call_def)
  next
    case (Mail_preview p)
    then show ?thesis using assms preview_sound [of parse base origin p url] api_base_segments [of base] own by auto
  next
    case (Approval_image u)
    then show ?thesis
      using assms api_base_segments [of base] own by (auto simp: fetchApprovalInlineImage_def split: if_splits)
  next
    case (Backup_download j)
    then show ?thesis using assms backup_sound [of j url] api_base_segments [of base] own by auto
  qed
qed

lemma web_requests_confined_witness:
  "\<exists>url r. fetch_request undefined None [] (lit ''t'') (Api_call (Approval_call (Mark_approval_read (lit ''d1'')))) = Some (url, r)
     \<and> map_of (r_headers r) (lit ''Authorization'') = Some (lit ''Bearer '' @ lit ''t'')"
proof -
  have "plain_id (lit ''d1'')" by (simp add: plain_id_def lit_def alphanumeric_def)
  then have ok: "fetch_ok (Api_call (Approval_call (Mark_approval_read (lit ''d1''))))" by simp
  obtain url r where s: "fetch_request undefined None [] (lit ''t'') (Api_call (Approval_call (Mark_approval_read (lit ''d1'')))) = Some (url, r)"
    by simp
  from web_requests_confined [OF ok s] have "map_of (r_headers r) (lit ''Authorization'') = Some (lit ''Bearer '' @ lit ''t'')"
    by simp
  with s show ?thesis by blast
qed

end
