(* ===== verification/Admin_Request.thy ===== *)
theory Admin_Request
  imports Web_Request
begin

text \<open>
  The request layer of the administration client (\<open>admin-web/src/api.ts\<close>): the API base, the stored token, the headers,
  and the reading of responses with the checks of the mail delivery views. Unlike the web client it adds no header of its
  own to a request and reads errors its own way; the property compares both readings.
\<close>

section \<open>Base, storage and headers\<close>

definition drop_last_slash :: "jstring \<Rightarrow> jstring" where
  \<comment> \<open>\<open>replace(/\/$/, "")\<close>\<close>
  "drop_last_slash s = (if s \<noteq> [] \<and> last s = 47 then butlast s else s)"

definition adminApiBase :: "jstring option \<Rightarrow> jstring" where
  \<comment> \<open>\<open>normalizeBrowserApiBase\<close> of the administration client\<close>
  "adminApiBase value =
     (case value of None \<Rightarrow> defaultApiBase
      | Some v \<Rightarrow>
          if v = [] then defaultApiBase
          else (let trimmed = js_trim v
                in if trimmed = [] then defaultApiBase
                   else if js_starts_with trimmed [47] then drop_last_slash trimmed else defaultApiBase))"

type_synonym browser_storage = "(jstring \<rightharpoonup> jstring) option"
  \<comment> \<open>\<open>None\<close> where the browser blocks the storage\<close>

definition safeStorageGet :: "jstring \<Rightarrow> browser_storage \<Rightarrow> jstring option" where
  "safeStorageGet key st = (case st of None \<Rightarrow> None | Some m \<Rightarrow> m key)"

definition safeStorageSet :: "jstring \<Rightarrow> jstring \<Rightarrow> browser_storage \<Rightarrow> browser_storage" where
  "safeStorageSet key value st = map_option (\<lambda>m. m(key \<mapsto> value)) st"

definition safeStorageRemove :: "jstring \<Rightarrow> browser_storage \<Rightarrow> browser_storage" where
  "safeStorageRemove key st = map_option (\<lambda>m. m(key := None)) st"

definition adminTokenKey :: jstring where "adminTokenKey = lit ''moaworks.adminToken''"

definition getStoredToken :: "browser_storage \<Rightarrow> jstring" where
  "getStoredToken st = (case safeStorageGet adminTokenKey st of None \<Rightarrow> [] | Some t \<Rightarrow> t)"

definition storeToken :: "jstring \<Rightarrow> browser_storage \<Rightarrow> browser_storage" where
  "storeToken token st = safeStorageSet adminTokenKey token st"

definition clearToken :: "browser_storage \<Rightarrow> browser_storage" where
  "clearToken st = safeStorageRemove adminTokenKey st"

definition admin_authHeaders :: "jstring \<Rightarrow> (jstring \<times> jstring) list" where
  "admin_authHeaders token =
     [(lit ''Content-Type'', lit ''application/json''), (lit ''Authorization'', lit ''Bearer '' @ token)]"

definition adminRequest :: "jstring \<Rightarrow> http_init \<Rightarrow> http_request" where
  \<comment> \<open>\<open>request(path, init)\<close>: the init is passed on as it is\<close>
  "adminRequest path init = bare_fetch path init"

definition admin_init :: "string \<Rightarrow> jstring \<Rightarrow> http_body \<Rightarrow> http_init" where
  \<comment> \<open>\<open>{ method, headers: authHeaders(token), body }\<close>\<close>
  "admin_init m token b = \<lparr>i_method = lit m, i_headers = admin_authHeaders token, i_body = b\<rparr>"

definition public_init :: "jsval \<Rightarrow> http_init" where
  \<comment> \<open>\<open>{ method: "POST", headers: { "Content-Type": "application/json" }, body: JSON.stringify(payload) }\<close>\<close>
  "public_init v = \<lparr>i_method = lit ''POST'', i_headers = content_json, i_body = Json_body v\<rparr>"

definition no_init :: http_init where
  "no_init = \<lparr>i_method = lit ''GET'', i_headers = [], i_body = No_body\<rparr>"

lemma admin_confined [web_req]:
  assumes "segs \<noteq> []" "list_all path_segment segs"
  shows "query_text q \<Longrightarrow> confined (adminRequest (url_path segs @ q) init)" "confined (adminRequest (url_path segs) init)"
  using assms confined_request(2) confined_plain(2) by (simp_all add: adminRequest_def)

lemma admin_authorised [web_req]:
  "b = No_body \<or> m \<noteq> ''GET'' \<and> (\<exists>v. b = Json_body v) \<Longrightarrow> authorised token (adminRequest path (admin_init m token b))"
  "authorised token (adminRequest path (get_init token))"
  "authorised token (adminRequest path (auth_init ''POST'' token (Form_body ps)))"
  by (auto simp: authorised_def adminRequest_def bare_fetch_def admin_init_def admin_authHeaders_def get_init_def auth_init_def
      authHeaders_def)

section \<open>Responses\<close>

datatype admin_error =
    Request_error jsval nat "jstring option" \<comment> \<open>\<open>ApiRequestError\<close>: message, status and code\<close>
  | Plain_error jsval
  | Js_type_error \<comment> \<open>a property of \<open>null\<close> is read\<close>

definition admin_failed_message :: jstring where
  "admin_failed_message = [50836, 52397, 32, 52376, 47532, 50640, 32, 49892, 54056, 54664, 49845, 45768, 45796, 46]"
definition qr_failed_message :: jstring where
  "qr_failed_message = [51064, 51613, 32, 50545, 32, 81, 82, 51012, 32, 48520, 47084, 50724, 51648, 32, 47803, 54664, 49845,
     45768, 45796, 46]"
definition template_failed_message :: jstring where
  "template_failed_message = [53596, 54540, 47551, 32, 45796, 50868, 47196, 46300, 50640, 32, 49892, 54056, 54664, 49845, 45768,
     45796, 46]"
definition import_failed_message :: jstring where
  "import_failed_message = [50629, 47196, 46300, 32, 44160, 51613, 50640, 32, 49892, 54056, 54664, 49845, 45768, 45796, 46]"
definition status_shape_message :: jstring where
  "status_shape_message = [47700, 51068, 32, 49345, 53468, 32, 51025, 45813, 32, 54805, 49885, 51060, 32, 50732, 48148, 47476,
     51648, 32, 50506, 49845, 45768, 45796, 46]"
definition queue_shape_message :: jstring where
  "queue_shape_message = [47700, 51068, 32, 53328, 32, 51025, 45813, 32, 54805, 49885, 51060, 32, 50732, 48148, 47476, 51648,
     32, 50506, 49845, 45768, 45796, 46]"
definition detail_shape_message :: jstring where
  "detail_shape_message = [47700, 51068, 32, 51204, 45804, 32, 49345, 49464, 32, 51025, 45813, 32, 54805, 49885, 51060, 32,
     50732, 48148, 47476, 51648, 32, 50506, 49845, 45768, 45796, 46]"

definition response_data :: "http_response \<Rightarrow> jsval" where
  \<comment> \<open>\<open>await response.json().catch(() => ({}))\<close>\<close>
  "response_data r = (case body_json r of None \<Rightarrow> JObj [] | Some v \<Rightarrow> v)"

definition admin_detail_message :: "jsval \<Rightarrow> jsval" where
  \<comment> \<open>\<open>typeof detail === "string" ? detail : detail?.userMessage ?? detail?.adminMessage\<close>\<close>
  "admin_detail_message detail =
     (if is_str detail then detail
      else js_coalesce (own_prop detail (lit ''userMessage'')) (own_prop detail (lit ''adminMessage'')))"

definition admin_code :: "jsval \<Rightarrow> jstring option" where
  "admin_code detail =
     (if is_object_type detail \<and> detail \<noteq> JNull \<and> is_str (own_prop detail (lit ''code''))
      then Some (str_of (own_prop detail (lit ''code''))) else None)"

definition read_admin_response :: "http_response \<Rightarrow> admin_error + jsval" where
  "read_admin_response r =
     (let data = response_data r; detail = own_prop data (lit ''detail'')
      in if response_ok r then Inr data
         else if nullish data then Inl Js_type_error
         else Inl (Request_error
           (js_coalesce (own_prop data (lit ''adminMessage'')) (js_coalesce (own_prop data (lit ''userMessage''))
             (js_coalesce (admin_detail_message detail) (JStr admin_failed_message))))
           (status_code r) (admin_code detail)))"

definition read_qr :: "http_response \<Rightarrow> admin_error + http_response" where
  \<comment> \<open>\<open>fetchAdminMfaTotpQr\<close>: the blob is the response\<close>
  "read_qr r = (if response_ok r then Inr r else Inl (Request_error (JStr qr_failed_message) (status_code r) None))"

definition plain_failure :: "jstring \<Rightarrow> jsval \<Rightarrow> admin_error" where
  \<comment> \<open>\<open>new Error(data.adminMessage ?? data.userMessage ?? data.detail ?? message)\<close>\<close>
  "plain_failure message data =
     (if nullish data then Js_type_error
      else Plain_error (js_coalesce (own_prop data (lit ''adminMessage'')) (js_coalesce (own_prop data (lit ''userMessage''))
        (js_coalesce (own_prop data (lit ''detail'')) (JStr message)))))"

definition read_import_template :: "http_response \<Rightarrow> admin_error + http_response" where
  "read_import_template r = (if response_ok r then Inr r else Inl (plain_failure template_failed_message (response_data r)))"

definition read_import_batch :: "http_response \<Rightarrow> admin_error + jsval" where
  "read_import_batch r =
     (if response_ok r then Inr (response_data r) else Inl (plain_failure import_failed_message (response_data r)))"

subsection \<open>The checked responses of mail delivery\<close>

definition is_int_value :: "jsval \<Rightarrow> bool" where
  \<comment> \<open>\<open>Number.isInteger(v)\<close>\<close>
  "is_int_value v = (case v of JNum q \<Rightarrow> of_int \<lfloor>q\<rfloor> = q | _ \<Rightarrow> False)"

definition is_negative :: "jsval \<Rightarrow> bool" where
  "is_negative v = (case v of JNum q \<Rightarrow> q < 0 | _ \<Rightarrow> False)"

definition is_array :: "jsval \<Rightarrow> bool" where
  "is_array v \<longleftrightarrow> arr_of v \<noteq> None"

definition validDeliveryItem :: "jsval \<Rightarrow> bool" where
  "validDeliveryItem item \<longleftrightarrow>
     truthy item \<and> is_str (own_prop item (lit ''queueId'')) \<and> is_str (own_prop item (lit ''mailId''))
     \<and> is_str (own_prop item (lit ''recipientEmail'')) \<and> is_str (own_prop item (lit ''subject''))
     \<and> is_str (own_prop item (lit ''status'')) \<and> is_int_value (own_prop item (lit ''attemptCount''))"

definition deliveryDetail :: "jsval \<Rightarrow> admin_error + jsval" where
  "deliveryDetail v =
     (if \<not> validDeliveryItem (own_prop v (lit ''item'')) \<or> \<not> is_array (own_prop v (lit ''attempts''))
        \<or> \<not> is_array (own_prop v (lit ''audits'')) then Inl (Plain_error (JStr detail_shape_message)) else Inr v)"

definition delivery_status :: "jsval \<Rightarrow> admin_error + jsval" where
  "delivery_status v =
     (if \<not> truthy (own_prop v (lit ''provider'')) \<or> \<not> truthy (own_prop v (lit ''worker''))
        \<or> \<not> truthy (own_prop v (lit ''summary'')) then Inl (Plain_error (JStr status_shape_message)) else Inr v)"

definition delivery_queue :: "jsval \<Rightarrow> admin_error + jsval" where
  "delivery_queue v =
     (case arr_of (own_prop v (lit ''items'')) of
        None \<Rightarrow> Inl (Plain_error (JStr queue_shape_message))
      | Some items \<Rightarrow>
          if \<not> is_int_value (own_prop v (lit ''total'')) \<or> is_negative (own_prop v (lit ''total''))
             \<or> \<not> list_all validDeliveryItem items then Inl (Plain_error (JStr queue_shape_message)) else Inr v)"

definition fetchMailDeliveryQueue :: "http_response \<Rightarrow> admin_error + jsval" where
  "fetchMailDeliveryQueue r = bind_r (read_admin_response r) delivery_queue"

section \<open>The properties\<close>

lemma response_data_null: "body_json r \<noteq> Some JUndef \<Longrightarrow> nullish (response_data r) \<longleftrightarrow> body_json r = Some JNull"
  by (auto simp: response_data_def nullish_def split: option.splits)

lemma coalesce_value: "\<not> nullish b \<Longrightarrow> \<not> nullish (js_coalesce a b)"
  by (simp add: js_coalesce_def)

lemma coalesce_undef [simp]: "js_coalesce JUndef b = b" "js_coalesce (JStr s) b = JStr s"
  by (simp_all add: js_coalesce_def nullish_def)

lemma object_not_nullish [simp]: "\<not> nullish (JObj ps)" "\<not> nullish (JStr s)" "js_coalesce (JObj ps) b = JObj ps"
  by (simp_all add: js_coalesce_def nullish_def)

text \<open>How the administration client reports errors: for every failed response whose body is a JSON value or no JSON
  at all, reading it ends in a type error exactly when the body is \<open>null\<close>, and otherwise in a request error with the
  status of the response and a message; for the error bodies of the server, an object \<open>detail\<close> with a code and a
  message for the user, it reports this code and message, and so does the web client. The queue of mail deliveries is
  never read from a failed response.\<close>

theorem admin_errors:
  assumes "\<not> response_ok r" "body_json r \<noteq> Some JUndef"
  shows "(read_admin_response r = Inl Js_type_error \<longleftrightarrow> body_json r = Some JNull)
    \<and> (body_json r \<noteq> Some JNull \<longrightarrow>
        (\<exists>m c. read_admin_response r = Inl (Request_error m (status_code r) c) \<and> \<not> nullish m))
    \<and> (\<forall>ps c m. body_json r = Some (JObj [(lit ''detail'', JObj ps)]) \<and> map_of ps (lit ''code'') = Some (JStr c)
          \<and> map_of ps (lit ''userMessage'') = Some (JStr m) \<longrightarrow>
        read_admin_response r = Inl (Request_error (JStr m) (status_code r) (Some c))
        \<and> (\<exists>e. read_response r = Inl e \<and> ae_status e = status_code r \<and> ae_code e = c \<and> ae_message e = m))
    \<and> (\<forall>v. fetchMailDeliveryQueue r \<noteq> Inr v)"
proof (intro conjI allI impI)
  show "read_admin_response r = Inl Js_type_error \<longleftrightarrow> body_json r = Some JNull"
    using assms response_data_null by (auto simp: read_admin_response_def Let_def)
  show "\<exists>m c. read_admin_response r = Inl (Request_error m (status_code r) c) \<and> \<not> nullish m" if "body_json r \<noteq> Some JNull"
  proof -
    have "\<not> nullish (response_data r)" using assms(2) response_data_null that by blast
    then show ?thesis using assms(1) unfolding read_admin_response_def Let_def
      by (simp add: coalesce_value)
  qed
  show "fetchMailDeliveryQueue r \<noteq> Inr v" for v
    using assms(1) by (simp add: fetchMailDeliveryQueue_def read_admin_response_def Let_def)
next
  fix ps c m
  assume a: "body_json r = Some (JObj [(lit ''detail'', JObj ps)]) \<and> map_of ps (lit ''code'') = Some (JStr c)
    \<and> map_of ps (lit ''userMessage'') = Some (JStr m)"
  then have ps: "ps \<noteq> []" by auto
  show "read_admin_response r = Inl (Request_error (JStr m) (status_code r) (Some c))"
    using assms(1) a by (simp add: read_admin_response_def response_data_def admin_detail_message_def admin_code_def
        is_object_type_def)
  show "\<exists>e. read_response r = Inl e \<and> ae_status e = status_code r \<and> ae_code e = c \<and> ae_message e = m"
    using assms(1) a ps by (simp add: read_response_def extractApiError_def is_object_type_def has_detail_def has_keys_def)
qed

lemma admin_errors_witness:
  "read_admin_response \<lparr>status_code = 409, body_json = Some (JObj [(lit ''detail'', JObj [(lit ''code'', JStr (lit ''LOCKED'')),
      (lit ''userMessage'', JStr (lit ''locked''))])])\<rparr> = Inl (Request_error (JStr (lit ''locked'')) 409 (Some (lit ''LOCKED'')))
   \<and> read_admin_response \<lparr>status_code = 500, body_json = Some JNull\<rparr> = Inl Js_type_error"
proof -
  define r where "r = \<lparr>status_code = 409, body_json = Some (JObj [(lit ''detail'', JObj [(lit ''code'', JStr (lit ''LOCKED'')),
      (lit ''userMessage'', JStr (lit ''locked''))])])\<rparr>"
  have "\<not> response_ok r" "body_json r \<noteq> Some JUndef" "status_code r = 409" by (simp_all add: r_def response_ok_def)
  with admin_errors [of r] have 1: "read_admin_response r = Inl (Request_error (JStr (lit ''locked'')) 409 (Some (lit ''LOCKED'')))"
    by (simp add: r_def)
  define n where "n = \<lparr>status_code = 500, body_json = Some JNull\<rparr>"
  have "\<not> response_ok n" "body_json n \<noteq> Some JUndef" by (simp_all add: n_def response_ok_def)
  with admin_errors [of n] have "read_admin_response n = Inl Js_type_error" by (simp add: n_def)
  with 1 show ?thesis by (simp add: r_def n_def)
qed

end
