(* ===== verification/Admin_Api.thy ===== *)
theory Admin_Api
  imports Admin_Request Web_Api_Work
begin

text \<open>
  The requests of the administration client (\<open>admin-web/src/api.ts\<close>), one constructor per exported function and one
  clause per request, in the order of the source. A function that needs no session ignores the token. The property
  states where the requests go and what they carry; a lemma shows what the configured base can do to them.
\<close>

section \<open>The calls\<close>

subsection \<open>Health and setup\<close>

datatype setup_call =
    Fetch_health
  | Validate_setup jsval
  | Initialize_setup jsval

fun setup_request :: "jstring \<Rightarrow> setup_call \<Rightarrow> http_request option" where
  "setup_request token Fetch_health =
     Some (adminRequest (url_path [lit ''health'']) (no_init))"
| "setup_request token (Validate_setup payload) =
     Some (adminRequest (url_path [lit ''setup'', lit ''validate'']) (public_init payload))"
| "setup_request token (Initialize_setup payload) =
     Some (adminRequest (url_path [lit ''setup'', lit ''initialize'']) (public_init payload))"

subsection \<open>Login and the second factor\<close>

datatype admin_session_call =
    Admin_login jsval
  | Verify_admin_mfa jsval
  | Request_admin_mfa_recovery_email jsval
  | Verify_admin_mfa_recovery_email jsval
  | Start_admin_mfa_totp jsval
  | Request_admin_mfa_recovery jsval
  | Verify_admin_mfa_recovery jsval
  | Fetch_admin_mfa_totp_qr jstring
  | Confirm_admin_mfa_totp jsval
  | Fetch_admin_mfa_status

fun admin_session_request :: "jstring \<Rightarrow> admin_session_call \<Rightarrow> http_request option" where
  "admin_session_request token (Admin_login payload) =
     Some (adminRequest (url_path [lit ''auth'', lit ''login'']) (public_init payload))"
| "admin_session_request token (Verify_admin_mfa payload) =
     Some (adminRequest (url_path [lit ''auth'', lit ''admin'', lit ''mfa'', lit ''verify'']) (public_init payload))"
| "admin_session_request token (Request_admin_mfa_recovery_email payload) =
     Some (adminRequest (url_path [lit ''auth'', lit ''admin'', lit ''mfa'', lit ''recovery-email'', lit ''request''])
       (public_init payload))"
| "admin_session_request token (Verify_admin_mfa_recovery_email payload) =
     Some (adminRequest (url_path [lit ''auth'', lit ''admin'', lit ''mfa'', lit ''recovery-email'', lit ''verify''])
       (public_init payload))"
| "admin_session_request token (Start_admin_mfa_totp payload) =
     Some (adminRequest (url_path [lit ''auth'', lit ''admin'', lit ''mfa'', lit ''totp'', lit ''start''])
       (public_init payload))"
| "admin_session_request token (Request_admin_mfa_recovery payload) =
     Some (adminRequest (url_path [lit ''auth'', lit ''admin'', lit ''mfa'', lit ''recovery'', lit ''request''])
       (public_init payload))"
| "admin_session_request token (Verify_admin_mfa_recovery payload) =
     Some (adminRequest (url_path [lit ''auth'', lit ''admin'', lit ''mfa'', lit ''recovery'', lit ''verify''])
       (public_init payload))"
| "admin_session_request token (Fetch_admin_mfa_totp_qr challengeId) =
     Some (adminRequest (url_path [lit ''auth'', lit ''admin'', lit ''mfa'', lit ''totp'', lit ''qr''])
       (public_init (json_object [(''challengeId'', JStr challengeId)])))"
| "admin_session_request token (Confirm_admin_mfa_totp payload) =
     Some (adminRequest (url_path [lit ''auth'', lit ''admin'', lit ''mfa'', lit ''totp'', lit ''confirm''])
       (public_init payload))"
| "admin_session_request token Fetch_admin_mfa_status =
     Some (adminRequest (url_path [lit ''auth'', lit ''admin'', lit ''mfa'', lit ''status'']) (get_init token))"

subsection \<open>Departments, roles, users and domains\<close>

datatype directory_call =
    Fetch_directory
  | Create_department jsval
  | Update_department jstring jsval
  | Delete_department jstring
  | Create_role jsval
  | Update_role jstring jsval
  | Delete_role jstring
  | Create_user jsval
  | Update_user jstring jsval
  | Delete_user jstring
  | Reset_user_password jstring bool
  | Verify_domain jstring
  | Test_relay jsval

fun directory_request :: "jstring \<Rightarrow> directory_call \<Rightarrow> http_request option" where
  "directory_request token Fetch_directory =
     Some (adminRequest (url_path [lit ''admin'', lit ''directory'']) (get_init token))"
| "directory_request token (Create_department payload) =
     Some (adminRequest (url_path [lit ''admin'', lit ''departments'']) (admin_init ''POST'' token (Json_body payload)))"
| "directory_request token (Update_department departmentId payload) =
     Some (adminRequest (url_path [lit ''admin'', lit ''departments'', departmentId])
       (admin_init ''PATCH'' token (Json_body payload)))"
| "directory_request token (Delete_department departmentId) =
     Some (adminRequest (url_path [lit ''admin'', lit ''departments'', departmentId]) (admin_init ''DELETE'' token No_body))"
| "directory_request token (Create_role payload) =
     Some (adminRequest (url_path [lit ''admin'', lit ''roles'']) (admin_init ''POST'' token (Json_body payload)))"
| "directory_request token (Update_role roleId payload) =
     Some (adminRequest (url_path [lit ''admin'', lit ''roles'', roleId]) (admin_init ''PATCH'' token (Json_body payload)))"
| "directory_request token (Delete_role roleId) =
     Some (adminRequest (url_path [lit ''admin'', lit ''roles'', roleId]) (admin_init ''DELETE'' token No_body))"
| "directory_request token (Create_user payload) =
     Some (adminRequest (url_path [lit ''admin'', lit ''users'']) (admin_init ''POST'' token (Json_body payload)))"
| "directory_request token (Update_user userId payload) =
     Some (adminRequest (url_path [lit ''admin'', lit ''users'', userId]) (admin_init ''PATCH'' token (Json_body payload)))"
| "directory_request token (Delete_user userId) =
     Some (adminRequest (url_path [lit ''admin'', lit ''users'', userId]) (admin_init ''DELETE'' token No_body))"
| "directory_request token (Reset_user_password userId revokeSessions) =
     Some (adminRequest (url_path [lit ''admin'', lit ''users'', userId, lit ''password-reset''])
       (admin_init ''POST'' token (Json_body (json_object [(''revokeSessions'', JBool revokeSessions)]))))"
| "directory_request token (Verify_domain domain) =
     Some (adminRequest (url_path [lit ''admin'', lit ''domains'', lit ''verify''])
       (admin_init ''POST'' token (Json_body (json_object [(''domain'', JStr domain)]))))"
| "directory_request token (Test_relay payload) =
     Some (adminRequest (url_path [lit ''admin'', lit ''relay'', lit ''test'']) (admin_init ''POST'' token (Json_body payload)))"

fun directory_ok :: "directory_call \<Rightarrow> bool" where
  "directory_ok (Update_department departmentId payload) \<longleftrightarrow> plain_id departmentId"
| "directory_ok (Delete_department departmentId) \<longleftrightarrow> plain_id departmentId"
| "directory_ok (Update_role roleId payload) \<longleftrightarrow> plain_id roleId"
| "directory_ok (Delete_role roleId) \<longleftrightarrow> plain_id roleId"
| "directory_ok (Update_user userId payload) \<longleftrightarrow> plain_id userId"
| "directory_ok (Delete_user userId) \<longleftrightarrow> plain_id userId"
| "directory_ok (Reset_user_password userId revokeSessions) \<longleftrightarrow> plain_id userId"
| "directory_ok c \<longleftrightarrow> True"

subsection \<open>Mail delivery and operations\<close>

datatype delivery_call =
    Fetch_admin_mail_delivery_status
  | Fetch_mail_delivery_queue
  | Fetch_mail_delivery_detail jstring
  | Fetch_mail_operations
  | Fetch_mail_submission_credentials
  | Issue_mail_submission_credential jstring
  | Revoke_mail_submission_credential jstring
  | Update_mail_operations_domain jsval
  | Update_mail_operations_provider jstring jsval
  | Generate_self_hosted_dkim
  | Switch_mail_operations_provider jstring
  | Test_mail_operations_provider jstring jstring
  | Rollback_mail_operations_provider
  | Sync_oci_mail_suppressions
  | Retry_mail_delivery jstring bool
  | Sync_oci_senders
  | Fetch_oci_sender_sync_status

fun delivery_request :: "jstring \<Rightarrow> delivery_call \<Rightarrow> http_request option" where
  "delivery_request token Fetch_admin_mail_delivery_status =
     Some (adminRequest (url_path [lit ''admin'', lit ''mail-delivery'', lit ''status'']) (admin_init ''GET'' token No_body))"
| "delivery_request token Fetch_mail_delivery_queue =
     Some (adminRequest (url_path [lit ''admin'', lit ''mail-delivery'', lit ''queue'']) (admin_init ''GET'' token No_body))"
| "delivery_request token (Fetch_mail_delivery_detail queueId) =
     with_component queueId (\<lambda>e. adminRequest (url_path [lit ''admin'', lit ''mail-delivery'', lit ''queue'', e])
       (admin_init ''GET'' token No_body))"
| "delivery_request token Fetch_mail_operations =
     Some (adminRequest (url_path [lit ''admin'', lit ''mail-operations'']) (admin_init ''GET'' token No_body))"
| "delivery_request token Fetch_mail_submission_credentials =
     Some (adminRequest (url_path [lit ''admin'', lit ''mail-operations'', lit ''submission-credentials''])
       (admin_init ''GET'' token No_body))"
| "delivery_request token (Issue_mail_submission_credential userId) =
     Some (adminRequest (url_path [lit ''admin'', lit ''mail-operations'', lit ''submission-credentials'', userId, lit ''issue''])
       (admin_init ''POST'' token No_body))"
| "delivery_request token (Revoke_mail_submission_credential userId) =
     Some (adminRequest (url_path [lit ''admin'', lit ''mail-operations'', lit ''submission-credentials'', userId, lit ''revoke''])
       (admin_init ''POST'' token No_body))"
| "delivery_request token (Update_mail_operations_domain payload) =
     Some (adminRequest (url_path [lit ''admin'', lit ''mail-operations'', lit ''domain''])
       (admin_init ''PUT'' token (Json_body payload)))"
| "delivery_request token (Update_mail_operations_provider providerKey payload) =
     with_component providerKey (\<lambda>e.
       adminRequest (url_path [lit ''admin'', lit ''mail-operations'', lit ''providers'', e])
       (admin_init ''PUT'' token (Json_body payload)))"
| "delivery_request token Generate_self_hosted_dkim =
     Some (adminRequest (url_path [lit ''admin'', lit ''mail-operations'', lit ''providers'', lit ''self_hosted'', lit ''dkim'', lit ''generate''])
       (admin_init ''POST'' token No_body))"
| "delivery_request token (Switch_mail_operations_provider targetProvider) =
     Some (adminRequest (url_path [lit ''admin'', lit ''mail-operations'', lit ''providers'', lit ''switch''])
       (admin_init ''POST'' token (Json_body (json_object [(''targetProvider'', JStr targetProvider)]))))"
| "delivery_request token (Test_mail_operations_provider providerKey recipient) =
     with_component providerKey (\<lambda>e.
       adminRequest (url_path [lit ''admin'', lit ''mail-operations'', lit ''providers'', e, lit ''test''])
       (admin_init ''POST'' token (Json_body (json_object [(''recipient'', JStr recipient)]))))"
| "delivery_request token Rollback_mail_operations_provider =
     Some (adminRequest (url_path [lit ''admin'', lit ''mail-operations'', lit ''providers'', lit ''rollback''])
       (admin_init ''POST'' token No_body))"
| "delivery_request token Sync_oci_mail_suppressions =
     Some (adminRequest (url_path [lit ''admin'', lit ''mail-operations'', lit ''oci'', lit ''suppressions'', lit ''sync''])
       (admin_init ''POST'' token No_body))"
| "delivery_request token (Retry_mail_delivery queueId confirmDuplicateRisk) =
     with_component queueId (\<lambda>e.
       adminRequest (url_path [lit ''admin'', lit ''mail-delivery'', lit ''queue'', e, lit ''retry''])
       (admin_init ''POST'' token (Json_body (json_object [(''confirmDuplicateRisk'', JBool confirmDuplicateRisk)]))))"
| "delivery_request token Sync_oci_senders =
     Some (adminRequest (url_path [lit ''admin'', lit ''mail-operations'', lit ''oci'', lit ''senders'', lit ''sync''])
       (admin_init ''POST'' token No_body))"
| "delivery_request token Fetch_oci_sender_sync_status =
     Some (adminRequest (url_path [lit ''admin'', lit ''mail-operations'', lit ''oci'', lit ''senders'', lit ''sync-status''])
       (admin_init ''GET'' token No_body))"

fun delivery_ok :: "delivery_call \<Rightarrow> bool" where
  "delivery_ok (Fetch_mail_delivery_detail queueId) \<longleftrightarrow> units queueId \<and> no_dots queueId"
| "delivery_ok (Issue_mail_submission_credential userId) \<longleftrightarrow> plain_id userId"
| "delivery_ok (Revoke_mail_submission_credential userId) \<longleftrightarrow> plain_id userId"
| "delivery_ok (Update_mail_operations_provider providerKey payload) \<longleftrightarrow> units providerKey \<and> no_dots providerKey"
| "delivery_ok (Test_mail_operations_provider providerKey recipient) \<longleftrightarrow> units providerKey \<and> no_dots providerKey"
| "delivery_ok (Retry_mail_delivery queueId confirmDuplicateRisk) \<longleftrightarrow> units queueId \<and> no_dots queueId"
| "delivery_ok c \<longleftrightarrow> True"

subsection \<open>Messenger rooms, monitoring and audit\<close>

datatype monitoring_call =
    Fetch_admin_messenger_rooms jstring
  | Delete_admin_messenger_room jstring
  | Fetch_monitoring_overview
  | Fetch_monitoring_events "jstring option" "jstring option" "jstring option" "jstring list"
  | Fetch_approval_audit_logs "jstring option"

fun monitoring_request :: "jstring \<Rightarrow> monitoring_call \<Rightarrow> http_request option" where
  "monitoring_request token (Fetch_admin_messenger_rooms status) =
     with_component status (\<lambda>e. adminRequest (url_path [lit ''admin'', lit ''messenger'', lit ''rooms'']
       @ 63 # lit ''status='' @ e @ lit ''&limit=200'') (admin_init ''GET'' token No_body))"
| "monitoring_request token (Delete_admin_messenger_room roomId) =
     Some (adminRequest (url_path [lit ''admin'', lit ''messenger'', lit ''rooms'', roomId])
       (admin_init ''DELETE'' token No_body))"
| "monitoring_request token Fetch_monitoring_overview =
     Some (adminRequest (url_path [lit ''admin'', lit ''monitoring'', lit ''overview'']) (admin_init ''GET'' token No_body))"
| "monitoring_request token (Fetch_monitoring_events fromAt toAt category severity) =
     Some (adminRequest (url_path [lit ''admin'', lit ''monitoring'', lit ''events'']
       @ query_suffix (param_text ''from'' fromAt @ param_text ''to'' toAt @ param_text ''category'' category @ map (\<lambda>v. (lit ''severity'', v)) severity))
       (admin_init ''GET'' token No_body))"
| "monitoring_request token (Fetch_approval_audit_logs documentId) =
     (let plain = adminRequest (url_path [lit ''approvals'', lit ''audit-logs'']) (admin_init ''GET'' token No_body)
       in case documentId of None \<Rightarrow> Some plain | Some d \<Rightarrow> if d = [] then Some plain
       else with_component d (\<lambda>e. adminRequest (url_path [lit ''approvals'', lit ''audit-logs'']
       @ 63 # lit ''documentId='' @ e) (admin_init ''GET'' token No_body)))"

fun monitoring_ok :: "monitoring_call \<Rightarrow> bool" where
  "monitoring_ok (Fetch_admin_messenger_rooms status) \<longleftrightarrow> units status"
| "monitoring_ok (Delete_admin_messenger_room roomId) \<longleftrightarrow> plain_id roomId"
| "monitoring_ok (Fetch_monitoring_events fromAt toAt category severity) \<longleftrightarrow> opt_units fromAt \<and> opt_units toAt \<and> opt_units category \<and> list_all units severity"
| "monitoring_ok (Fetch_approval_audit_logs documentId) \<longleftrightarrow> opt_units documentId"
| "monitoring_ok c \<longleftrightarrow> True"

subsection \<open>Messages and help documents\<close>

datatype content_call =
    Fetch_content_messages "jstring option" "jstring option"
  | Create_content_message jsval
  | Update_content_message jstring jsval
  | Bulk_content_message_status "jstring list" jstring
  | Bulk_delete_content_messages "jstring list"
  | Fetch_help_policies "jstring option" "jstring option"
  | Create_help_policy jsval
  | Update_help_policy jstring jsval
  | Bulk_help_policy_status "jstring list" jstring
  | Bulk_delete_help_policies "jstring list"

fun content_request :: "jstring \<Rightarrow> content_call \<Rightarrow> http_request option" where
  "content_request token (Fetch_content_messages search status) =
     Some (adminRequest (url_path [lit ''admin'', lit ''content'', lit ''messages'']
       @ query_suffix (param_text ''search'' search @ param_text ''status'' status)) (admin_init ''GET'' token No_body))"
| "content_request token (Create_content_message payload) =
     Some (adminRequest (url_path [lit ''admin'', lit ''content'', lit ''messages''])
       (admin_init ''POST'' token (Json_body payload)))"
| "content_request token (Update_content_message d payload) =
     Some (adminRequest (url_path [lit ''admin'', lit ''content'', lit ''messages'', d])
       (admin_init ''PATCH'' token (Json_body payload)))"
| "content_request token (Bulk_content_message_status ids status) =
     Some (adminRequest (url_path [lit ''admin'', lit ''content'', lit ''messages'', lit ''bulk-status''])
       (admin_init ''POST'' token (Json_body (json_object [(''ids'', json_strings ids), (''status'', JStr status)]))))"
| "content_request token (Bulk_delete_content_messages ids) =
     Some (adminRequest (url_path [lit ''admin'', lit ''content'', lit ''messages'', lit ''bulk-delete''])
       (admin_init ''POST'' token (Json_body (json_object [(''ids'', json_strings ids)]))))"
| "content_request token (Fetch_help_policies search status) =
     Some (adminRequest (url_path [lit ''admin'', lit ''content'', lit ''help-policies'']
       @ query_suffix (param_text ''search'' search @ param_text ''status'' status)) (admin_init ''GET'' token No_body))"
| "content_request token (Create_help_policy payload) =
     Some (adminRequest (url_path [lit ''admin'', lit ''content'', lit ''help-policies''])
       (admin_init ''POST'' token (Json_body payload)))"
| "content_request token (Update_help_policy d payload) =
     Some (adminRequest (url_path [lit ''admin'', lit ''content'', lit ''help-policies'', d])
       (admin_init ''PATCH'' token (Json_body payload)))"
| "content_request token (Bulk_help_policy_status ids status) =
     Some (adminRequest (url_path [lit ''admin'', lit ''content'', lit ''help-policies'', lit ''bulk-status''])
       (admin_init ''POST'' token (Json_body (json_object [(''ids'', json_strings ids), (''status'', JStr status)]))))"
| "content_request token (Bulk_delete_help_policies ids) =
     Some (adminRequest (url_path [lit ''admin'', lit ''content'', lit ''help-policies'', lit ''bulk-delete''])
       (admin_init ''POST'' token (Json_body (json_object [(''ids'', json_strings ids)]))))"

fun content_ok :: "content_call \<Rightarrow> bool" where
  "content_ok (Fetch_content_messages search status) \<longleftrightarrow> opt_units search \<and> opt_units status"
| "content_ok (Update_content_message d payload) \<longleftrightarrow> plain_id d"
| "content_ok (Fetch_help_policies search status) \<longleftrightarrow> opt_units search \<and> opt_units status"
| "content_ok (Update_help_policy d payload) \<longleftrightarrow> plain_id d"
| "content_ok c \<longleftrightarrow> True"

subsection \<open>Alerts and backups\<close>

datatype operations_call =
    Fetch_admin_translation_status
  | Fetch_monitoring_alerts
  | Acknowledge_monitoring_alert jstring
  | Resolve_monitoring_alert jstring
  | Fetch_operational_backups
  | Update_operational_backup_policy jsval
  | Queue_operational_backup
  | Queue_operational_restore_drill jstring

fun operations_request :: "jstring \<Rightarrow> operations_call \<Rightarrow> http_request option" where
  "operations_request token Fetch_admin_translation_status =
     (if token \<noteq> [] then Some (adminRequest (url_path [lit ''translation'', lit ''admin'', lit ''status''])
       (admin_init ''GET'' token No_body)) else Some (adminRequest (url_path [lit ''translation'', lit ''status'']) no_init))"
| "operations_request token Fetch_monitoring_alerts =
     Some (adminRequest (url_path [lit ''admin'', lit ''monitoring'', lit ''alerts'']) (admin_init ''GET'' token No_body))"
| "operations_request token (Acknowledge_monitoring_alert alertId) =
     with_component alertId (\<lambda>e.
       adminRequest (url_path [lit ''admin'', lit ''monitoring'', lit ''alerts'', e, lit ''ack''])
       (admin_init ''POST'' token No_body))"
| "operations_request token (Resolve_monitoring_alert alertId) =
     with_component alertId (\<lambda>e.
       adminRequest (url_path [lit ''admin'', lit ''monitoring'', lit ''alerts'', e, lit ''resolve''])
       (admin_init ''POST'' token No_body))"
| "operations_request token Fetch_operational_backups =
     Some (adminRequest (url_path [lit ''admin'', lit ''operations'', lit ''backups'']) (admin_init ''GET'' token No_body))"
| "operations_request token (Update_operational_backup_policy payload) =
     Some (adminRequest (url_path [lit ''admin'', lit ''operations'', lit ''backups'', lit ''policy''])
       (admin_init ''PUT'' token (Json_body payload)))"
| "operations_request token Queue_operational_backup =
     Some (adminRequest (url_path [lit ''admin'', lit ''operations'', lit ''backups'', lit ''jobs''])
       (admin_init ''POST'' token No_body))"
| "operations_request token (Queue_operational_restore_drill backupId) =
     with_component backupId (\<lambda>e.
       adminRequest (url_path [lit ''admin'', lit ''operations'', lit ''backups'', lit ''jobs'', e, lit ''restore-drills''])
       (admin_init ''POST'' token No_body))"

fun operations_ok :: "operations_call \<Rightarrow> bool" where
  "operations_ok (Acknowledge_monitoring_alert alertId) \<longleftrightarrow> units alertId \<and> no_dots alertId"
| "operations_ok (Resolve_monitoring_alert alertId) \<longleftrightarrow> units alertId \<and> no_dots alertId"
| "operations_ok (Queue_operational_restore_drill backupId) \<longleftrightarrow> units backupId \<and> no_dots backupId"
| "operations_ok c \<longleftrightarrow> True"

subsection \<open>Translation, organisation import and interface contract\<close>

datatype translation_call =
    Admin_request_translation jsval
  | Fetch_translation_policy
  | Update_translation_policy jsval
  | Test_translation_provider_connection jsval
  | Fetch_translation_provider_models jsval
  | Fetch_translation_reviews "jstring option"
  | Apply_translation_review_action jstring jsval
  | Download_org_import_template
  | Validate_org_import nat jstring
  | Apply_org_import jsval
  | Fetch_org_import_batch jstring
  | Fetch_admin_ui_contract
  | Fetch_public_ui_contract
  | Update_ui_contract jsval

fun translation_request :: "jstring \<Rightarrow> translation_call \<Rightarrow> http_request option" where
  "translation_request token (Admin_request_translation payload) =
     Some (adminRequest (url_path [lit ''translation'', lit ''translate'']) (admin_init ''POST'' token (Json_body payload)))"
| "translation_request token Fetch_translation_policy =
     Some (adminRequest (url_path [lit ''translation'', lit ''admin'']) (admin_init ''GET'' token No_body))"
| "translation_request token (Update_translation_policy payload) =
     Some (adminRequest (url_path [lit ''translation'', lit ''admin'']) (admin_init ''PATCH'' token (Json_body payload)))"
| "translation_request token (Test_translation_provider_connection payload) =
     Some (adminRequest (url_path [lit ''translation'', lit ''admin'', lit ''test-connection''])
       (admin_init ''POST'' token (Json_body payload)))"
| "translation_request token (Fetch_translation_provider_models payload) =
     Some (adminRequest (url_path [lit ''translation'', lit ''admin'', lit ''models''])
       (admin_init ''POST'' token (Json_body payload)))"
| "translation_request token (Fetch_translation_reviews reviewStatus) =
     (let plain = adminRequest (url_path [lit ''translation'', lit ''reviews'']) (admin_init ''GET'' token No_body)
       in case reviewStatus of None \<Rightarrow> Some plain | Some d \<Rightarrow> if d = [] then Some plain
       else with_component d (\<lambda>e. adminRequest (url_path [lit ''translation'', lit ''reviews'']
       @ 63 # lit ''reviewStatus='' @ e) (admin_init ''GET'' token No_body)))"
| "translation_request token (Apply_translation_review_action reviewId payload) =
     Some (adminRequest (url_path [lit ''translation'', lit ''reviews'', reviewId, lit ''actions''])
       (admin_init ''POST'' token (Json_body payload)))"
| "translation_request token Download_org_import_template =
     Some (adminRequest (url_path [lit ''admin'', lit ''org-import'', lit ''template'']) (get_init token))"
| "translation_request token (Validate_org_import file deactivationScope) =
     Some (adminRequest (url_path [lit ''admin'', lit ''org-import'', lit ''validate''])
       (auth_init ''POST'' token (Form_body [(lit ''file'', Form_file file), (lit ''deactivation_scope'', Form_text deactivationScope)])))"
| "translation_request token (Apply_org_import payload) =
     Some (adminRequest (url_path [lit ''admin'', lit ''org-import'', lit ''apply''])
       (admin_init ''POST'' token (Json_body payload)))"
| "translation_request token (Fetch_org_import_batch batchId) =
     Some (adminRequest (url_path [lit ''admin'', lit ''org-import'', batchId]) (admin_init ''GET'' token No_body))"
| "translation_request token Fetch_admin_ui_contract =
     Some (adminRequest (url_path [lit ''ui-contract'', lit ''admin'']) (admin_init ''GET'' token No_body))"
| "translation_request token Fetch_public_ui_contract =
     Some (adminRequest (url_path [lit ''ui-contract'']) (no_init))"
| "translation_request token (Update_ui_contract payload) =
     Some (adminRequest (url_path [lit ''ui-contract'', lit ''admin'']) (admin_init ''PUT'' token (Json_body payload)))"

fun translation_ok :: "translation_call \<Rightarrow> bool" where
  "translation_ok (Fetch_translation_reviews reviewStatus) \<longleftrightarrow> opt_units reviewStatus"
| "translation_ok (Apply_translation_review_action reviewId payload) \<longleftrightarrow> plain_id reviewId"
| "translation_ok (Fetch_org_import_batch batchId) \<longleftrightarrow> plain_id batchId"
| "translation_ok c \<longleftrightarrow> True"

section \<open>All calls\<close>

datatype admin_call =
    Admin_setup_call setup_call
  | Admin_session_call admin_session_call
  | Admin_directory_call directory_call
  | Admin_delivery_call delivery_call
  | Admin_monitoring_call monitoring_call
  | Admin_content_call content_call
  | Admin_operations_call operations_call
  | Admin_translation_call translation_call

fun admin_request :: "jstring \<Rightarrow> admin_call \<Rightarrow> http_request option" where
  "admin_request token (Admin_setup_call c) = setup_request token c"
| "admin_request token (Admin_session_call c) = admin_session_request token c"
| "admin_request token (Admin_directory_call c) = directory_request token c"
| "admin_request token (Admin_delivery_call c) = delivery_request token c"
| "admin_request token (Admin_monitoring_call c) = monitoring_request token c"
| "admin_request token (Admin_content_call c) = content_request token c"
| "admin_request token (Admin_operations_call c) = operations_request token c"
| "admin_request token (Admin_translation_call c) = translation_request token c"

fun admin_call_ok :: "admin_call \<Rightarrow> bool" where
  "admin_call_ok (Admin_directory_call c) \<longleftrightarrow> directory_ok c"
| "admin_call_ok (Admin_delivery_call c) \<longleftrightarrow> delivery_ok c"
| "admin_call_ok (Admin_monitoring_call c) \<longleftrightarrow> monitoring_ok c"
| "admin_call_ok (Admin_content_call c) \<longleftrightarrow> content_ok c"
| "admin_call_ok (Admin_operations_call c) \<longleftrightarrow> operations_ok c"
| "admin_call_ok (Admin_translation_call c) \<longleftrightarrow> translation_ok c"
| "admin_call_ok c \<longleftrightarrow> True"

definition admin_public :: "jstring \<Rightarrow> admin_call \<Rightarrow> bool" where
  \<comment> \<open>the calls that are made without a session\<close>
  "admin_public token c =
     (case c of Admin_setup_call d \<Rightarrow> True
      | Admin_session_call d \<Rightarrow> d \<noteq> Fetch_admin_mfa_status
      | Admin_operations_call d \<Rightarrow> d = Fetch_admin_translation_status \<and> token = []
      | Admin_translation_call d \<Rightarrow> d = Fetch_public_ui_contract
      | _ \<Rightarrow> False)"

section \<open>Every well formed call is confined\<close>

lemma admin_segments [web_req]:
  "path_segment (lit ''actions'')"
  "path_segment (lit ''admin'')"
  "path_segment (lit ''alerts'')"
  "path_segment (lit ''apply'')"
  "path_segment (lit ''backups'')"
  "path_segment (lit ''bulk-delete'')"
  "path_segment (lit ''bulk-status'')"
  "path_segment (lit ''confirm'')"
  "path_segment (lit ''content'')"
  "path_segment (lit ''dkim'')"
  "path_segment (lit ''domain'')"
  "path_segment (lit ''domains'')"
  "path_segment (lit ''events'')"
  "path_segment (lit ''generate'')"
  "path_segment (lit ''health'')"
  "path_segment (lit ''initialize'')"
  "path_segment (lit ''issue'')"
  "path_segment (lit ''jobs'')"
  "path_segment (lit ''mail-delivery'')"
  "path_segment (lit ''mail-operations'')"
  "path_segment (lit ''mfa'')"
  "path_segment (lit ''monitoring'')"
  "path_segment (lit ''oci'')"
  "path_segment (lit ''operations'')"
  "path_segment (lit ''org-import'')"
  "path_segment (lit ''overview'')"
  "path_segment (lit ''password-reset'')"
  "path_segment (lit ''policy'')"
  "path_segment (lit ''qr'')"
  "path_segment (lit ''queue'')"
  "path_segment (lit ''recovery'')"
  "path_segment (lit ''recovery-email'')"
  "path_segment (lit ''relay'')"
  "path_segment (lit ''request'')"
  "path_segment (lit ''resolve'')"
  "path_segment (lit ''restore-drills'')"
  "path_segment (lit ''retry'')"
  "path_segment (lit ''reviews'')"
  "path_segment (lit ''revoke'')"
  "path_segment (lit ''roles'')"
  "path_segment (lit ''rollback'')"
  "path_segment (lit ''senders'')"
  "path_segment (lit ''setup'')"
  "path_segment (lit ''start'')"
  "path_segment (lit ''submission-credentials'')"
  "path_segment (lit ''suppressions'')"
  "path_segment (lit ''switch'')"
  "path_segment (lit ''sync'')"
  "path_segment (lit ''sync-status'')"
  "path_segment (lit ''template'')"
  "path_segment (lit ''test-connection'')"
  "path_segment (lit ''totp'')"
  "path_segment (lit ''users'')"
  "path_segment (lit ''validate'')"
  "path_segment (lit ''verify'')"
  by (rule literal_segment; simp add: plain_char_def alphanumeric_def)+

lemma self_hosted_segment [web_req]: "path_segment (lit ''self_hosted'')"
  by (rule plain_segment) (simp add: plain_id_def lit_def alphanumeric_def)

lemma admin_queries [web_req]:
  "list_all query_char (lit ''status='')"
  "list_all query_char (lit ''&limit=200'')"
  "list_all query_char (lit ''reviewStatus='')"
  by (simp_all add: lit_def query_char_def segment_char_def component_char_def alphanumeric_def)

definition unsigned_post :: "http_request \<Rightarrow> bool" where
  \<comment> \<open>no token, and a JSON body announced as such\<close>
  "unsigned_post r \<longleftrightarrow>
     map_of (r_headers r) (lit ''Authorization'') = None
     \<and> (r_body r = No_body \<or> (\<exists>v. r_body r = Json_body v) \<and> r_headers r = content_json)"

lemma public_unsigned [web_req]: "unsigned_post (adminRequest path (public_init v))" "unsigned_post (adminRequest path no_init)"
  by (simp_all add: unsigned_post_def adminRequest_def bare_fetch_def public_init_def no_init_def content_json_def)

lemmas admin_simps = web_req sound_simps

lemma setup_sound: "setup_request token c = Some r \<Longrightarrow> confined r \<and> unsigned_post r"
  by (cases c) (auto simp: admin_simps)

lemma admin_session_sound:
  "admin_session_request token c = Some r \<Longrightarrow>
     confined r \<and> (if c \<noteq> Fetch_admin_mfa_status then unsigned_post r else authorised token r)"
  by (cases c) (auto simp: admin_simps)

lemma directory_sound: "directory_ok c \<Longrightarrow> directory_request token c = Some r \<Longrightarrow> confined r \<and> authorised token r"
  by (cases c) (auto simp: admin_simps list.pred_map o_def dest: encoded_parts split: option.splits if_splits)

lemma delivery_sound: "delivery_ok c \<Longrightarrow> delivery_request token c = Some r \<Longrightarrow> confined r \<and> authorised token r"
  by (cases c) (auto simp: admin_simps list.pred_map o_def dest: encoded_parts split: option.splits if_splits)

lemma monitoring_sound: "monitoring_ok c \<Longrightarrow> monitoring_request token c = Some r \<Longrightarrow> confined r \<and> authorised token r"
  by (cases c) (auto simp: admin_simps list.pred_map o_def dest: encoded_parts split: option.splits if_splits)

lemma content_sound: "content_ok c \<Longrightarrow> content_request token c = Some r \<Longrightarrow> confined r \<and> authorised token r"
  by (cases c) (auto simp: admin_simps list.pred_map o_def dest: encoded_parts split: option.splits if_splits)

lemma operations_sound:
  "operations_ok c \<Longrightarrow> operations_request token c = Some r \<Longrightarrow>
     confined r \<and> (if c = Fetch_admin_translation_status \<and> token = [] then unsigned_post r else authorised token r)"
  by (cases c) (auto simp: admin_simps dest: encoded_parts split: option.splits if_splits)

lemma translation_sound:
  "translation_ok c \<Longrightarrow> translation_request token c = Some r \<Longrightarrow>
     confined r \<and> (if c = Fetch_public_ui_contract then unsigned_post r else authorised token r)"
  by (cases c) (auto simp: admin_simps dest: encoded_parts split: option.splits if_splits)

lemma admin_sound:
  "admin_call_ok c \<Longrightarrow> admin_request token c = Some r \<Longrightarrow>
     confined r \<and> (if admin_public token c then unsigned_post r else authorised token r)"
  using setup_sound admin_session_sound directory_sound delivery_sound monitoring_sound content_sound operations_sound
    translation_sound
  by (cases c) (auto simp: admin_public_def web_req)

section \<open>The configured base\<close>

definition admin_url :: "jstring option \<Rightarrow> http_request \<Rightarrow> jstring" where
  \<comment> \<open>\<open>`${apiBase}${path}`\<close>\<close>
  "admin_url base r = adminApiBase base @ r_target r"

text \<open>
  The check of the configured base accepts every text that starts with a slash, two slashes included: the browser then
  takes the next part for a host. The web client falls back to the default base here.
\<close>

lemma admin_base_leaves_origin:
  "adminApiBase (Some (lit ''//host.example'')) = lit ''//host.example''"
  "normalizeBrowserApiBase (Some (lit ''//host.example'')) = defaultApiBase"
  by (simp_all add: adminApiBase_def normalizeBrowserApiBase_def lit_def js_trim_def js_ws_def js_starts_with_def drop_last_slash_def
      control_char_def Let_def)

section \<open>The properties\<close>

text \<open>C24. Where the requests of the administration client go: every well formed call has a path of safe segments and a
  query without a fragment, so below a base of safe segments the URL stays below this base; setup, login, the second
  factor and the public contract carry no token, every other call carries it; a JSON body is announced as such and a GET
  request has no body.\<close>

theorem admin_requests_confined:
  assumes "admin_call_ok c" "admin_request token c = Some r"
  shows "confined r
    \<and> (if admin_public token c
        then map_of (r_headers r) (lit ''Authorization'') = None \<and> (r_body r = No_body \<or> r_headers r = content_json)
        else authorised token r)
    \<and> (\<forall>bs. adminApiBase base = url_path bs \<and> list_all path_segment bs \<longrightarrow>
        (\<exists>segs q. admin_url base r = url_path (bs @ segs) @ q \<and> segs \<noteq> [] \<and> list_all path_segment (bs @ segs) \<and> query_text q))"
proof (intro conjI allI impI)
  note s = admin_sound [OF assms]
  show "confined r" using s by blast
  show "if admin_public token c
        then map_of (r_headers r) (lit ''Authorization'') = None \<and> (r_body r = No_body \<or> r_headers r = content_json)
        else authorised token r"
    using s by (auto simp: unsigned_post_def split: if_splits)
next
  fix bs
  assume b: "adminApiBase base = url_path bs \<and> list_all path_segment bs"
  have "confined r" using admin_sound [OF assms] by blast
  then obtain segs q where t: "r_target r = url_path segs @ q" "segs \<noteq> []" "list_all path_segment segs" "query_text q"
    unfolding confined_def by blast
  have "admin_url base r = url_path (bs @ segs) @ q" unfolding admin_url_def t(1) using b by (simp add: url_path_def)
  with t b show "\<exists>segs q. admin_url base r = url_path (bs @ segs) @ q \<and> segs \<noteq> [] \<and> list_all path_segment (bs @ segs) \<and> query_text q"
    by (metis list_all_append)
qed

lemma admin_requests_confined_witness:
  "authorised (lit ''t'') (adminRequest (url_path [lit ''admin'', lit ''users'', lit ''u1'']) (admin_init ''DELETE'' (lit ''t'') No_body))"
proof -
  have "plain_id (lit ''u1'')" by (simp add: plain_id_def lit_def alphanumeric_def)
  then have ok: "admin_call_ok (Admin_directory_call (Delete_user (lit ''u1'')))" by simp
  have "admin_request (lit ''t'') (Admin_directory_call (Delete_user (lit ''u1''))) =
      Some (adminRequest (url_path [lit ''admin'', lit ''users'', lit ''u1'']) (admin_init ''DELETE'' (lit ''t'') No_body))" by simp
  from admin_requests_confined [OF ok this] show ?thesis by (simp add: admin_public_def)
qed

end
