(* ===== verification/Mail_Recipients.thy ===== *)
theory Mail_Recipients
  imports Js_Prelude
begin

text \<open>
  Addresses in the mail view of the web client (\<open>user-web/src/App.tsx\<close>): the recipients of a reply, the subject of a
  reply or forwarded mail, the recipient fields of the compose window with the names that are looked up in the address
  books, and the selection keys of the trash. The comparison of names (\<open>localeCompare\<close>) is a parameter.
\<close>

section \<open>Mails\<close>

record mail_recipient =
  rc_email :: jstring
  rc_user_id :: "jstring option"
  rc_kind :: jstring
  rc_read :: "bool option"

record mail_detail =
  md_mail_id :: jstring
  md_sender :: jstring
  md_subject :: jstring
  md_body_text :: jstring
  md_body_html :: "jstring option"
  md_sent_at :: "jstring option"
  md_created_at :: jstring
  md_recipients :: "mail_recipient list"

section \<open>Selection keys of the trash\<close>

definition sourceMailboxOptions :: "jstring list" where
  "sourceMailboxOptions = map lit [''inbox'', ''sent'', ''draft'']"

definition mailSelectionKey :: "jstring \<Rightarrow> jstring option \<Rightarrow> jstring \<Rightarrow> jstring" where
  "mailSelectionKey mailId sourceMailbox folder =
     (if folder \<noteq> lit ''trash'' then mailId
      else mailId @ lit ''::'' @ (case sourceMailbox of None \<Rightarrow> lit ''inbox'' | Some b \<Rightarrow> b))"

fun last_colons :: "jstring \<Rightarrow> nat option" where
  \<comment> \<open>\<open>lastIndexOf("::")\<close>\<close>
  "last_colons [] = None"
| "last_colons (c # s) =
     (case last_colons s of Some i \<Rightarrow> Some (Suc i) | None \<Rightarrow> if js_starts_with (c # s) [58, 58] then Some 0 else None)"

definition parseTrashSelectionKey :: "jstring \<Rightarrow> (jstring \<times> jstring) option" where
  "parseTrashSelectionKey key =
     (case last_colons key of None \<Rightarrow> None
      | Some i \<Rightarrow>
          if i < 1 then None
          else if drop (i + 2) key \<notin> set sourceMailboxOptions then None
          else Some (take i key, drop (i + 2) key))"

definition bulk_selection :: "jstring \<Rightarrow> jstring list \<Rightarrow> (jstring list \<times> (jstring \<times> jstring) list option) option" where
  \<comment> \<open>the selected mails and trash views of \<open>runUi020BulkAction\<close>; \<open>None\<close> where it raises\<close>
  "bulk_selection folder selected =
     (if folder = lit ''trash'' then
        (let trashViews = List.map_filter parseTrashSelectionKey selected
         in if length trashViews \<noteq> length selected then None else Some (js_unique (map fst trashViews), Some trashViews))
      else Some (selected, None))"

section \<open>Subjects\<close>

datatype compose_context = Compose_new | Compose_reply | Compose_reply_all | Compose_forward

definition ci_starts :: "jstring \<Rightarrow> string \<Rightarrow> bool" where
  \<comment> \<open>the text starts with the given lower case letters, in any case\<close>
  "ci_starts s p \<longleftrightarrow> map ascii_lower (take (length p) s) = lit p"

definition drop_reply_prefix :: "jstring \<Rightarrow> jstring option" where
  \<comment> \<open>the rest of the text after \<open>^(re|fwd|fw):\s*\<close>, if it matches\<close>
  "drop_reply_prefix s =
     (if ci_starts s ''re:'' then Some (dropWhile js_ws (drop 3 s))
      else if ci_starts s ''fwd:'' then Some (dropWhile js_ws (drop 4 s))
      else if ci_starts s ''fw:'' then Some (dropWhile js_ws (drop 3 s))
      else None)"

lemma ci_starts_length: "ci_starts s p \<Longrightarrow> length p \<le> length s"
  unfolding ci_starts_def by (drule arg_cong [of _ _ length]) simp

lemma drop_reply_prefix_shorter: "drop_reply_prefix s = Some t \<Longrightarrow> length t < length s"
  using ci_starts_length [of s "''re:''"] ci_starts_length [of s "''fwd:''"] ci_starts_length [of s "''fw:''"]
    length_dropWhile_le [of js_ws "drop 3 s"] length_dropWhile_le [of js_ws "drop 4 s"]
  by (auto simp: drop_reply_prefix_def split: if_splits)

function subject_base :: "jstring \<Rightarrow> jstring" where
  \<comment> \<open>the loop of \<open>withMailSubjectPrefix\<close>\<close>
  "subject_base s = (case drop_reply_prefix s of None \<Rightarrow> s | Some t \<Rightarrow> subject_base (dropWhile js_ws t))"
  by pat_completeness auto

termination
  by (relation "measure length") (auto dest: drop_reply_prefix_shorter intro: le_less_trans [OF length_dropWhile_le])

declare subject_base.simps [simp del]

definition withMailSubjectPrefix :: "jstring \<Rightarrow> compose_context \<Rightarrow> jstring" where
  "withMailSubjectPrefix subject mode =
     (let prefix = (if mode = Compose_forward then lit ''Fwd:'' else lit ''Re:''); baseSubject = subject_base (js_trim subject)
      in if baseSubject \<noteq> [] then prefix @ 32 # baseSubject else prefix)"

section \<open>Recipients of a reply\<close>

definition normal_email :: "js_env \<Rightarrow> jstring \<Rightarrow> jstring" where
  \<comment> \<open>\<open>email.trim().toLowerCase()\<close>\<close>
  "normal_email E s = js_lower E (js_trim s)"

definition visible_recipients :: "mail_detail \<Rightarrow> mail_recipient list" where
  "visible_recipients d = filter (\<lambda>r. rc_kind r \<noteq> lit ''bcc'') (md_recipients d)"

definition kind_emails :: "mail_detail \<Rightarrow> string \<Rightarrow> jstring list" where
  "kind_emails d k = map rc_email (filter (\<lambda>r. rc_kind r = lit k) (visible_recipients d))"

definition buildMailReplyRecipients :: "js_env \<Rightarrow> mail_detail \<Rightarrow> jstring \<Rightarrow> bool \<Rightarrow> jstring list \<times> jstring list" where
  \<comment> \<open>\<open>all\<close>: the mode is \<open>reply_all\<close>\<close>
  "buildMailReplyRecipients E d actorEmail all =
     (let ownEmail = normal_email E actorEmail;
          originalTo = map (normal_email E) (kind_emails d ''to'');
          originalCc = map (normal_email E) (kind_emails d ''cc'');
          senderEmail = normal_email E (md_sender d);
          toCandidates = (if \<not> all then [senderEmail] else senderEmail # originalTo);
          to' = (if \<not> all then js_unique (filter (\<lambda>e. e \<noteq> []) toCandidates)
                 else js_unique (filter (\<lambda>e. e \<noteq> [] \<and> e \<noteq> ownEmail) toCandidates));
          cc = (if all then js_unique (filter (\<lambda>e. e \<noteq> [] \<and> e \<noteq> ownEmail \<and> e \<notin> set to') originalCc) else [])
      in (to', cc))"

definition maskMailReadReceiptAddress :: "jstring \<Rightarrow> jstring" where
  "maskMailReadReceiptAddress v =
     (case js_index_of 64 v of
        Some i \<Rightarrow> if 0 < i \<and> i < length v - 1 then take i v @ lit ''***'' @ drop i v
                  else [51452, 49548, 32, 48708, 44277, 44060]
      | None \<Rightarrow> [51452, 49548, 32, 48708, 44277, 44060])"

section \<open>Recipient fields\<close>

datatype picker_source = From_contact | From_directory | From_recent

record recipient_suggestion =
  sg_email :: jstring
  sg_name :: jstring
  sg_detail :: jstring
  sg_source :: picker_source

fun split_on :: "(nat \<Rightarrow> bool) \<Rightarrow> jstring \<Rightarrow> jstring list" where
  "split_on p [] = [[]]"
| "split_on p (d # s) = (if p d then [] # split_on p s else (d # hd (split_on p s)) # tl (split_on p s))"

definition address_separator :: "nat \<Rightarrow> bool" where
  \<comment> \<open>\<open>[;,\n]\<close>\<close>
  "address_separator c \<longleftrightarrow> c \<in> {59, 44, 10}"

definition field_tokens :: "jstring \<Rightarrow> jstring list" where
  "field_tokens v = filter (\<lambda>t. t \<noteq> []) (map js_trim (split_on address_separator v))"

definition after_last_angle :: "jstring \<Rightarrow> jstring" where
  "after_last_angle s = rev (takeWhile (\<lambda>c. c \<noteq> 60) (rev s))"

definition angle_address :: "jstring \<Rightarrow> jstring option" where
  \<comment> \<open>the group of \<open><\s*([^<>\s]+@[^<>\s]+)\s*>$\<close>\<close>
  "angle_address s =
     (let t = after_last_angle s; inner = js_trim (butlast t)
      in if 60 \<in> set s \<and> t \<noteq> [] \<and> last t = 62 \<and> list_all (\<lambda>c. c \<noteq> 60 \<and> c \<noteq> 62 \<and> \<not> js_ws c) inner
           \<and> 64 \<in> set (butlast (tl inner)) then Some inner else None)"

definition plain_address :: "jstring \<Rightarrow> bool" where
  \<comment> \<open>\<open>^[^\s@]+@[^\s@]+$\<close>\<close>
  "plain_address s \<longleftrightarrow>
     (let l = takeWhile email_char s
      in l \<noteq> [] \<and> (case drop (length l) s of [] \<Rightarrow> False | c # d \<Rightarrow> c = 64 \<and> d \<noteq> [] \<and> list_all email_char d))"

definition local_char :: "nat \<Rightarrow> bool" where
  \<comment> \<open>\<open>[a-z0-9._%+-]\<close> with the flags \<open>iu\<close>, which also admit the long s and the Kelvin sign\<close>
  "local_char c \<longleftrightarrow> (97 \<le> ascii_lower c \<and> ascii_lower c \<le> 122) \<or> (48 \<le> c \<and> c \<le> 57) \<or> c \<in> {46, 95, 37, 43, 45, 383, 8490}"

definition recipient_address :: "js_env \<Rightarrow> jstring \<Rightarrow> jstring \<Rightarrow> jstring" where
  "recipient_address E domain item =
     (case angle_address item of
        Some a \<Rightarrow> js_lower E a
      | None \<Rightarrow>
          if plain_address item then js_lower E item
          else if item \<noteq> [] \<and> list_all local_char item then js_lower E item @ 64 # domain
          else [])"

definition normalizeMailRecipients :: "js_env \<Rightarrow> jstring \<Rightarrow> jstring \<Rightarrow> jstring list" where
  "normalizeMailRecipients E value companyDomain =
     filter (\<lambda>a. a \<noteq> []) (map (recipient_address E (normal_email E companyDomain)) (field_tokens value))"

definition formatConfirmedRecipient :: "recipient_suggestion \<Rightarrow> jstring" where
  "formatConfirmedRecipient g = (if js_trim (sg_name g) \<noteq> [] then js_trim (sg_name g) else sg_email g) @ lit '' <'' @ sg_email g @ lit ''>''"

definition hasExternalRecipients :: "js_env \<Rightarrow> jstring list \<Rightarrow> jstring \<Rightarrow> bool" where
  "hasExternalRecipients E recipients companyDomain =
     (let suffix = 64 # normal_email E companyDomain
      in list_ex (\<lambda>r. \<not> (length suffix \<le> length r \<and> drop (length r - length suffix) r = suffix)) recipients)"

subsection \<open>The sources of suggestions\<close>

definition suggestion_key :: "recipient_suggestion \<Rightarrow> picker_source \<times> jstring" where
  "suggestion_key g = (sg_source g, sg_email g)"

fun add_suggestion :: "js_env \<Rightarrow> picker_source \<Rightarrow> recipient_suggestion list \<Rightarrow> jstring \<times> jstring \<times> jstring \<Rightarrow> recipient_suggestion list" where
  \<comment> \<open>the entries of the \<open>Map\<close> in order; the first entry of a key stays\<close>
  "add_suggestion E src merged (email, name, detail) =
     (let normalized = normal_email E email
      in if normalized = [] \<or> (src, normalized) \<in> set (map suggestion_key merged) then merged
         else merged @ [\<lparr>sg_email = normalized, sg_name = name, sg_detail = detail, sg_source = src\<rparr>])"

definition first_text :: "jstring \<Rightarrow> jstring \<Rightarrow> jstring" where
  \<comment> \<open>\<open>s || t\<close>\<close>
  "first_text s t = (if s \<noteq> [] then s else t)"

definition loadRecipientSuggestions ::
    "js_env \<Rightarrow> (jstring \<times> jstring \<times> jstring) list option \<Rightarrow> (jstring \<times> jstring \<times> jstring \<times> jstring) list option \<Rightarrow>
     (jstring \<times> jstring \<times> jstring) list option \<Rightarrow> (recipient_suggestion list \<times> bool) option" where
  \<comment> \<open>contacts (email, name, company), directory (email, name, department, role) and recent recipients (email, name,
     department), \<open>None\<close> where the request failed; the result with the flag of a partial failure, \<open>None\<close> where all failed\<close>
  "loadRecipientSuggestions E contacts directory recent =
     (if contacts = None \<and> directory = None \<and> recent = None then None
      else Some
        (let a = (case contacts of None \<Rightarrow> [] | Some items \<Rightarrow> foldl (add_suggestion E From_contact) []
               (map (\<lambda>(email, name, company). (email, name, first_text company [44060, 51064, 32, 50672, 46973, 52376])) items));
             b = (case directory of None \<Rightarrow> a | Some items \<Rightarrow> foldl (add_suggestion E From_directory) a
               (map (\<lambda>(email, name, department, role). (email, name, department @ [32, 183, 32] @ role)) items));
             c = (case recent of None \<Rightarrow> b | Some items \<Rightarrow> foldl (add_suggestion E From_recent) b
               (map (\<lambda>(email, name, department). (email, first_text name email, first_text department [52572, 44540, 32, 49688, 49888, 51088])) items))
         in (c, contacts = None \<or> directory = None \<or> recent = None)))"

subsection \<open>Names that are typed\<close>

record picker_request =
  pr_query :: jstring
  pr_source :: picker_source
  pr_ambiguous :: bool

definition same_email_keys :: "js_env \<Rightarrow> recipient_suggestion list \<Rightarrow> jstring list" where
  "same_email_keys E gs = js_unique (map (\<lambda>g. normal_email E (sg_email g)) gs)"

definition resolve_token ::
    "js_env \<Rightarrow> (jstring \<Rightarrow> jstring \<Rightarrow> bool) \<Rightarrow> recipient_suggestion list \<Rightarrow> jstring \<Rightarrow> picker_request + jstring" where
  \<comment> \<open>one round of the loop; of several entries with one address the last is taken, as \<open>new Map\<close> does\<close>
  "resolve_token E same suggestions token =
     (if plain_address token \<or> angle_address token \<noteq> None then Inr token
      else (let matches = filter (\<lambda>g. same (js_trim (sg_name g)) token \<and> js_trim (sg_email g) \<noteq> []) suggestions;
                keys = same_email_keys E matches
            in if length keys = 1 then Inr (formatConfirmedRecipient (last matches))
               else Inl \<lparr>pr_query = token,
                 pr_source = (if From_contact \<in> set (map sg_source matches) then From_contact
                   else if From_directory \<in> set (map sg_source matches) then From_directory
                   else if From_recent \<in> set (map sg_source matches) then From_recent else From_contact),
                 pr_ambiguous = (1 < length keys)\<rparr>))"

definition resolveRecipientInput ::
    "js_env \<Rightarrow> (jstring \<Rightarrow> jstring \<Rightarrow> bool) \<Rightarrow> recipient_suggestion list \<Rightarrow> jstring \<Rightarrow> picker_request + jstring" where
  "resolveRecipientInput E same suggestions rawValue =
     (let raw = js_trim rawValue
      in if raw = [] then Inr []
         else bind_r (map_r (resolve_token E same suggestions) (field_tokens raw)) (\<lambda>resolved. Inr (js_join [44, 32] resolved)))"

definition addRecipientSuggestion :: "js_env \<Rightarrow> jstring \<Rightarrow> recipient_suggestion \<Rightarrow> jstring \<Rightarrow> jstring" where
  \<comment> \<open>the new text of the field\<close>
  "addRecipientSuggestion E companyDomain g field =
     (let existingTokens = field_tokens field; existingEmails = normalizeMailRecipients E field companyDomain
      in js_join [44, 32] (if sg_email g \<in> set existingEmails then existingTokens else existingTokens @ [formatConfirmedRecipient g]))"

section \<open>Lemmas on fields\<close>

lemma split_on_ne [simp]: "split_on p s \<noteq> []"
  by (cases s) auto

lemma split_on_free: "x \<in> set (split_on p s) \<Longrightarrow> list_all (\<lambda>c. \<not> p c) x"
proof (induction s arbitrary: x)
  case (Cons d s)
  obtain y ys where "split_on p s = y # ys" by (meson split_on_ne neq_Nil_conv)
  with Cons show ?case by (auto split: if_splits)
qed simp

lemma split_on_single: "list_all (\<lambda>c. \<not> p c) x \<Longrightarrow> split_on p x = [x]"
  by (induction x) auto

lemma split_on_append: "list_all (\<lambda>c. \<not> p c) x \<Longrightarrow> p d \<Longrightarrow> split_on p (x @ d # s) = x # split_on p s"
  by (induction x) auto

lemma js_trim_blank: "js_trim (32 # s) = js_trim s"
  by (simp add: js_trim_def js_ws_def)

definition field_token :: "jstring \<Rightarrow> bool" where
  "field_token t \<longleftrightarrow> t \<noteq> [] \<and> js_trim t = t \<and> list_all (\<lambda>c. \<not> address_separator c) t"

lemma field_tokens_token: "t \<in> set (field_tokens v) \<Longrightarrow> field_token t"
  using split_on_free [of _ address_separator v] set_js_trim
  by (fastforce simp: field_tokens_def field_token_def list_all_iff)

lemma field_tokens_blank: "field_tokens (32 # s) = field_tokens s"
proof -
  obtain y ys where "split_on address_separator s = y # ys" by (meson split_on_ne neq_Nil_conv)
  then show ?thesis by (simp add: field_tokens_def address_separator_def js_trim_blank)
qed

lemma separator_simps [simp]: "address_separator 44" "\<not> address_separator 32" "\<not> address_separator 60" "\<not> address_separator 62"
  by (simp_all add: address_separator_def)

lemma field_tokens_join: "list_all field_token ts \<Longrightarrow> field_tokens (js_join [44, 32] ts) = ts"
proof (induction ts)
  case (Cons t ts)
  have t: "t \<noteq> []" "js_trim t = t" "list_all (\<lambda>c. \<not> address_separator c) t" using Cons.prems by (simp_all add: field_token_def)
  show ?case
  proof (cases ts)
    case Nil
    then show ?thesis using t by (simp add: field_tokens_def split_on_single)
  next
    case (Cons u us)
    have "field_tokens (t @ 44 # 32 # js_join [44, 32] ts) = t # field_tokens (32 # js_join [44, 32] ts)"
      using t split_on_append [OF t(3), of 44] by (simp add: field_tokens_def)
    then show ?thesis using Cons Cons.IH Cons.prems by (simp add: field_tokens_blank)
  qed
qed (simp add: field_tokens_def)

definition address_ok :: "jstring \<Rightarrow> bool" where
  \<comment> \<open>an address of the address books: an at sign inside, no blanks, angles or separators\<close>
  "address_ok e \<longleftrightarrow> 64 \<in> set (butlast (tl e)) \<and> list_all (\<lambda>c. c \<noteq> 60 \<and> c \<noteq> 62 \<and> \<not> js_ws c \<and> \<not> address_separator c) e"

definition suggestion_ok :: "recipient_suggestion \<Rightarrow> bool" where
  "suggestion_ok g \<longleftrightarrow> address_ok (sg_email g) \<and> list_all (\<lambda>c. \<not> address_separator c) (sg_name g)"

definition lower_keeps_text :: "js_env \<Rightarrow> bool" where
  \<comment> \<open>\<open>toLowerCase\<close> never yields the empty text from another one\<close>
  "lower_keeps_text E \<longleftrightarrow> (\<forall>s. s \<noteq> [] \<longrightarrow> env_lower E s \<noteq> [])"

lemma js_lower_ne: "lower_keeps_text E \<Longrightarrow> s \<noteq> [] \<Longrightarrow> js_lower E s \<noteq> []"
  by (simp add: lower_keeps_text_def js_lower_def)

lemma js_trim_no_ws: "list_all (\<lambda>c. \<not> js_ws c) s \<Longrightarrow> js_trim s = s"
  by (cases "s = []") (auto intro!: js_trim_fixed simp: list_all_iff)

lemma after_last_angle_append: "60 \<notin> set t \<Longrightarrow> after_last_angle (s @ 60 # t) = t"
  unfolding after_last_angle_def rev_append rev.simps append_assoc
  by (subst takeWhile_append2) auto

lemma angle_address_written:
  assumes "address_ok e"
  shows "angle_address (s @ lit '' <'' @ e @ lit ''>'') = Some e"
proof -
  have e: "list_all (\<lambda>c. c \<noteq> 60 \<and> c \<noteq> 62 \<and> \<not> js_ws c) e" "64 \<in> set (butlast (tl e))" "60 \<notin> set e"
    using assms by (auto simp: address_ok_def list_all_iff)
  have "list_all (\<lambda>c. \<not> js_ws c) e" using e(1) by (auto simp: list_all_iff)
  then have t: "js_trim e = e" by (rule js_trim_no_ws)
  have "after_last_angle ((s @ [32]) @ 60 # e @ [62]) = e @ [62]"
    by (rule after_last_angle_append) (use e(3) in simp)
  then show ?thesis using e t by (simp add: angle_address_def lit_def)
qed

lemma angle_inner_ne: "angle_address s = Some a \<Longrightarrow> a \<noteq> []"
  by (auto simp: angle_address_def Let_def split: if_splits)

lemma plain_ne: "plain_address s \<Longrightarrow> s \<noteq> []"
  by (auto simp: plain_address_def)

lemma format_token:
  assumes "suggestion_ok g"
  shows "field_token (formatConfirmedRecipient g)"
proof -
  let ?n = "if js_trim (sg_name g) \<noteq> [] then js_trim (sg_name g) else sg_email g"
  have e: "sg_email g \<noteq> []" "list_all (\<lambda>c. \<not> js_ws c \<and> \<not> address_separator c) (sg_email g)"
    using assms by (auto simp: suggestion_ok_def address_ok_def list_all_iff)
  have n: "?n \<noteq> []" "\<not> js_ws (hd ?n)"
    using e js_trim_ends(1) [of "sg_name g"] hd_in_set [OF e(1)] by (auto simp: list_all_iff)
  have "list_all (\<lambda>c. \<not> address_separator c) ?n"
    using assms e(2) set_js_trim [of "sg_name g"] by (auto simp: suggestion_ok_def list_all_iff)
  then have f: "list_all (\<lambda>c. \<not> address_separator c) (formatConfirmedRecipient g)"
    using e(2) by (auto simp: formatConfirmedRecipient_def lit_def list_all_iff split: if_splits)
  have "js_trim (formatConfirmedRecipient g) = formatConfirmedRecipient g"
    by (rule js_trim_fixed) (use n in \<open>simp_all add: formatConfirmedRecipient_def lit_def js_ws_def\<close>)
  then show ?thesis using f n(1) by (simp add: field_token_def formatConfirmedRecipient_def)
qed

lemma address_of_formatted: "suggestion_ok g \<Longrightarrow> recipient_address E domain (formatConfirmedRecipient g) = js_lower E (sg_email g)"
  by (simp add: recipient_address_def formatConfirmedRecipient_def angle_address_written suggestion_ok_def)

lemma normalize_tokens:
  "normalizeMailRecipients E v domain =
     filter (\<lambda>a. a \<noteq> []) (map (recipient_address E (normal_email E domain)) (field_tokens v))"
  by (simp add: normalizeMailRecipients_def)

definition meant_addresses :: "js_env \<Rightarrow> (jstring \<Rightarrow> jstring \<Rightarrow> bool) \<Rightarrow> recipient_suggestion list \<Rightarrow> jstring \<Rightarrow> jstring set" where
  \<comment> \<open>the addresses a token may stand for: the address that is typed, or those of the entries with this name\<close>
  "meant_addresses E same gs t =
     (case angle_address t of Some a \<Rightarrow> {js_lower E a}
      | None \<Rightarrow> if plain_address t then {js_lower E t}
          else {js_lower E (sg_email g) | g. g \<in> set gs \<and> same (js_trim (sg_name g)) t})"

lemma one_key: "length (js_unique xs) = 1 \<longleftrightarrow> (\<exists>x. set xs = {x})"
  by (metis One_nat_def card_1_singleton_iff distinct_card distinct_js_unique set_js_unique)

lemma many_keys: "1 < length (js_unique xs) \<longleftrightarrow> set xs \<noteq> {} \<and> length (js_unique xs) \<noteq> 1"
  by (cases "js_unique xs") (use js_unique_Nil(2) [of xs] in \<open>auto simp del: js_unique_Nil\<close>)

lemma ok_email:
  assumes "suggestion_ok g"
  shows "js_trim (sg_email g) = sg_email g" "sg_email g \<noteq> []" "normal_email E (sg_email g) = js_lower E (sg_email g)"
proof -
  show t: "js_trim (sg_email g) = sg_email g" by (rule js_trim_no_ws) (use assms in \<open>auto simp: suggestion_ok_def address_ok_def list_all_iff\<close>)
  show "sg_email g \<noteq> []" using assms by (auto simp: suggestion_ok_def address_ok_def)
  show "normal_email E (sg_email g) = js_lower E (sg_email g)" by (simp add: normal_email_def t)
qed

lemma token_resolution:
  assumes t: "field_token t" and gs: "\<forall>g\<in>set gs. suggestion_ok g" and E: "lower_keeps_text E"
  shows "case resolve_token E same gs t of
      Inr r \<Rightarrow> field_token r \<and> recipient_address E domain r \<noteq> [] \<and> meant_addresses E same gs t = {recipient_address E domain r}
    | Inl q \<Rightarrow> pr_query q = t \<and> (\<nexists>a. meant_addresses E same gs t = {a})
        \<and> (pr_ambiguous q \<longleftrightarrow> meant_addresses E same gs t \<noteq> {})"
proof (cases "plain_address t \<or> angle_address t \<noteq> None")
  case True
  have "t \<noteq> []" using t by (simp add: field_token_def)
  then show ?thesis using True t E
    by (auto simp: resolve_token_def recipient_address_def meant_addresses_def angle_inner_ne js_lower_ne plain_ne split: option.splits)
next
  case False
  define ms where "ms = filter (\<lambda>g. same (js_trim (sg_name g)) t \<and> js_trim (sg_email g) \<noteq> []) gs"
  have ms: "set ms = {g \<in> set gs. same (js_trim (sg_name g)) t}" using gs ok_email(1,2) by (auto simp: ms_def)
  have meant: "set (map (\<lambda>g. normal_email E (sg_email g)) ms) = meant_addresses E same gs t"
    using False gs ok_email(3) [of _ E] by (fastforce simp: meant_addresses_def ms)
  show ?thesis
  proof (cases "\<exists>a. meant_addresses E same gs t = {a}")
    case True
    then obtain a where a: "meant_addresses E same gs t = {a}" by blast
    then have one: "length (same_email_keys E ms) = 1" using one_key meant unfolding same_email_keys_def by metis
    have "ms \<noteq> []" using a meant by auto
    then have l: "last ms \<in> set ms" by simp
    then have ok: "suggestion_ok (last ms)" using gs ms by blast
    have "js_lower E (sg_email (last ms)) \<in> meant_addresses E same gs t" using l meant ok_email(3) [OF ok, of E] by force
    then have "js_lower E (sg_email (last ms)) = a" using a by simp
    moreover have "resolve_token E same gs t = Inr (formatConfirmedRecipient (last ms))"
      using False one by (simp add: resolve_token_def ms_def [symmetric] Let_def)
    ultimately show ?thesis using a format_token [OF ok] address_of_formatted [OF ok] ok_email(2) [OF ok] js_lower_ne [OF E]
      by auto
  next
    case no: False
    then have "length (same_email_keys E ms) \<noteq> 1" using one_key meant unfolding same_email_keys_def by metis
    moreover have "1 < length (same_email_keys E ms) \<longleftrightarrow> meant_addresses E same gs t \<noteq> {}"
      using calculation many_keys meant unfolding same_email_keys_def by metis
    ultimately show ?thesis using False no by (simp add: resolve_token_def ms_def [symmetric] Let_def)
  qed
qed

lemma resolved_token:
  assumes "resolve_token E same gs t = Inr r" "field_token t" "\<forall>g\<in>set gs. suggestion_ok g" "lower_keeps_text E"
  shows "field_token r \<and> recipient_address E domain r \<noteq> [] \<and> meant_addresses E same gs t = {recipient_address E domain r}"
  using token_resolution [OF assms(2-4), of same domain] assms(1) by simp

lemma resolved_tokens:
  assumes "list_all field_token ts" "\<forall>g\<in>set gs. suggestion_ok g" "lower_keeps_text E"
  shows "case map_r (resolve_token E same gs) ts of
      Inr rs \<Rightarrow> list_all field_token rs \<and> list_all (\<lambda>r. recipient_address E domain r \<noteq> []) rs
        \<and> list_all2 (\<lambda>t r. meant_addresses E same gs t = {recipient_address E domain r}) ts rs
    | Inl q \<Rightarrow> \<exists>us vs. ts = us @ pr_query q # vs \<and> (\<forall>t\<in>set us. \<exists>a. meant_addresses E same gs t = {a})
        \<and> (\<nexists>a. meant_addresses E same gs (pr_query q) = {a}) \<and> (pr_ambiguous q \<longleftrightarrow> meant_addresses E same gs (pr_query q) \<noteq> {})"
  using assms(1)
proof (induction ts)
  case (Cons t ts)
  have t: "field_token t" using Cons.prems by simp
  show ?case
  proof (cases "resolve_token E same gs t")
    case (Inl q)
    have "pr_query q = t" "\<nexists>a. meant_addresses E same gs t = {a}" "pr_ambiguous q \<longleftrightarrow> meant_addresses E same gs t \<noteq> {}"
      using token_resolution [OF t assms(2,3), of same domain] Inl by simp_all
    then have "\<exists>vs. t # ts = [] @ pr_query q # vs \<and> (\<forall>t\<in>set []. \<exists>a. meant_addresses E same gs t = {a})
        \<and> (\<nexists>a. meant_addresses E same gs (pr_query q) = {a}) \<and> (pr_ambiguous q \<longleftrightarrow> meant_addresses E same gs (pr_query q) \<noteq> {})"
      by simp
    with Inl show ?thesis by (simp del: append_Nil) (rule exI [of _ "[]"], simp)
  next
    case (Inr r)
    note r = resolved_token [OF Inr t assms(2,3), of domain]
    show ?thesis
    proof (cases "map_r (resolve_token E same gs) ts")
      case (Inl q)
      then obtain us vs where q: "t # ts = (t # us) @ pr_query q # vs" "\<forall>t\<in>set us. \<exists>a. meant_addresses E same gs t = {a}"
          "\<nexists>a. meant_addresses E same gs (pr_query q) = {a}" "pr_ambiguous q \<longleftrightarrow> meant_addresses E same gs (pr_query q) \<noteq> {}"
        using Cons by auto
      moreover have "\<forall>u\<in>set (t # us). \<exists>a. meant_addresses E same gs u = {a}" using q(2) r by simp
      moreover have "map_r (resolve_token E same gs) (t # ts) = Inl q" using Inl Inr by simp
      ultimately show ?thesis using q(3,4) by (simp only: sum.case) (rule exI [of _ "t # us"], rule exI [of _ vs], simp)
    qed (use Cons Inr r in auto)
  qed
qed simp

lemma field_resolution:
  assumes "\<forall>g\<in>set gs. suggestion_ok g" "lower_keeps_text E"
  shows "case resolveRecipientInput E same gs raw of
      Inr v \<Rightarrow> list_all2 (\<lambda>t a. meant_addresses E same gs t = {a}) (field_tokens (js_trim raw)) (normalizeMailRecipients E v domain)
    | Inl q \<Rightarrow> \<exists>us vs. field_tokens (js_trim raw) = us @ pr_query q # vs \<and> (\<forall>t\<in>set us. \<exists>a. meant_addresses E same gs t = {a})
        \<and> (\<nexists>a. meant_addresses E same gs (pr_query q) = {a}) \<and> (pr_ambiguous q \<longleftrightarrow> meant_addresses E same gs (pr_query q) \<noteq> {})"
proof (cases "js_trim raw = []")
  case True
  then show ?thesis by (simp add: resolveRecipientInput_def normalize_tokens field_tokens_def)
next
  case False
  have ts: "list_all field_token (field_tokens (js_trim raw))" using field_tokens_token by (auto simp: list_all_iff)
  note all = resolved_tokens [OF ts assms, of same "normal_email E domain"]
  show ?thesis
  proof (cases "map_r (resolve_token E same gs) (field_tokens (js_trim raw))")
    case (Inr rs)
    then have "list_all field_token rs" "list_all (\<lambda>r. recipient_address E (normal_email E domain) r \<noteq> []) rs"
      "list_all2 (\<lambda>t r. meant_addresses E same gs t = {recipient_address E (normal_email E domain) r}) (field_tokens (js_trim raw)) rs"
      using all by auto
    moreover from this(2) have "filter (\<lambda>a. a \<noteq> []) (map (recipient_address E (normal_email E domain)) rs)
        = map (recipient_address E (normal_email E domain)) rs"
      by (simp add: filter_id_conv list_all_iff)
    ultimately show ?thesis using False Inr
      by (simp add: resolveRecipientInput_def normalize_tokens field_tokens_join list_all2_map2)
  qed (use False all in \<open>auto simp: resolveRecipientInput_def\<close>)
qed

lemma added_field:
  assumes "suggestion_ok g" "lower_keeps_text E"
  shows "field_tokens (addRecipientSuggestion E domain g field) = field_tokens field
      @ (if sg_email g \<in> set (normalizeMailRecipients E field domain) then [] else [formatConfirmedRecipient g])"
    "normalizeMailRecipients E (addRecipientSuggestion E domain g field) domain = normalizeMailRecipients E field domain
      @ (if sg_email g \<in> set (normalizeMailRecipients E field domain) then [] else [js_lower E (sg_email g)])"
proof -
  have t: "list_all field_token (field_tokens field)" using field_tokens_token by (auto simp: list_all_iff)
  then have s: "field_tokens (js_join [44, 32] (field_tokens field)) = field_tokens field" by (rule field_tokens_join)
  have a: "field_tokens (js_join [44, 32] (field_tokens field @ [formatConfirmedRecipient g])) = field_tokens field @ [formatConfirmedRecipient g]"
    by (rule field_tokens_join) (use t format_token [OF assms(1)] in simp)
  have "sg_email g \<noteq> []" using assms(1) by (auto simp: suggestion_ok_def address_ok_def)
  then show "field_tokens (addRecipientSuggestion E domain g field) = field_tokens field
      @ (if sg_email g \<in> set (normalizeMailRecipients E field domain) then [] else [formatConfirmedRecipient g])"
    "normalizeMailRecipients E (addRecipientSuggestion E domain g field) domain = normalizeMailRecipients E field domain
      @ (if sg_email g \<in> set (normalizeMailRecipients E field domain) then [] else [js_lower E (sg_email g)])"
    using js_lower_ne [OF assms(2)]
    by (simp_all add: addRecipientSuggestion_def Let_def normalize_tokens s a address_of_formatted [OF assms(1)])
qed

section \<open>Lemmas on subjects\<close>

definition prefix_round :: "jstring \<Rightarrow> jstring" where
  \<comment> \<open>one round of the loop, nothing where it ends\<close>
  "prefix_round s = (case drop_reply_prefix s of None \<Rightarrow> s | Some t \<Rightarrow> dropWhile js_ws t)"

lemma subject_base_end: "drop_reply_prefix (subject_base s) = None"
proof (induction s rule: subject_base.induct)
  case (1 s)
  then show ?case by (subst subject_base.simps) (auto split: option.split)
qed

lemma subject_base_rounds: "\<exists>n\<le>length s. (prefix_round ^^ n) s = subject_base s"
proof (induction s rule: subject_base.induct)
  case (1 s)
  show ?case
  proof (cases "drop_reply_prefix s")
    case None
    then have "(prefix_round ^^ 0) s = subject_base s" by (subst subject_base.simps) simp
    then show ?thesis by blast
  next
    case (Some t)
    then obtain n where n: "n \<le> length (dropWhile js_ws t)" "(prefix_round ^^ n) (dropWhile js_ws t) = subject_base (dropWhile js_ws t)"
      using 1 by blast
    have "prefix_round s = dropWhile js_ws t" using Some by (simp add: prefix_round_def)
    then have "(prefix_round ^^ Suc n) s = subject_base (dropWhile js_ws t)" using n(2) by (simp add: funpow_Suc_right del: funpow.simps)
    then have "(prefix_round ^^ Suc n) s = subject_base s" using Some by (subst subject_base.simps) simp
    moreover have "Suc n \<le> length s" using n(1) drop_reply_prefix_shorter [OF Some] length_dropWhile_le [of js_ws t] by simp
    ultimately show ?thesis by blast
  qed
qed

lemma drop_reply_prefix_suffix:
  "drop_reply_prefix s = Some t \<Longrightarrow> \<exists>n. t = dropWhile js_ws (drop n s)"
  by (auto simp: drop_reply_prefix_def split: if_splits)

lemma dropWhile_is_drop: "\<exists>n. dropWhile p s = drop n s"
  using dropWhile_eq_drop [of p s] by blast

lemma subject_base_suffix: "\<exists>n. subject_base s = drop n s"
proof (induction s rule: subject_base.induct)
  case (1 s)
  show ?case
  proof (cases "drop_reply_prefix s")
    case None
    then have "subject_base s = drop 0 s" by (subst subject_base.simps) simp
    then show ?thesis by blast
  next
    case (Some t)
    then obtain n where n: "subject_base (dropWhile js_ws t) = drop n (dropWhile js_ws t)" using 1 by blast
    obtain m where "t = dropWhile js_ws (drop m s)" using drop_reply_prefix_suffix [OF Some] by blast
    then obtain i j where "t = drop i (drop m s)" "dropWhile js_ws t = drop j t" using dropWhile_is_drop by metis
    then have "subject_base s = drop (n + j + i + m) s" using Some n by (subst subject_base.simps) (simp add: add.assoc)
    then show ?thesis by blast
  qed
qed

lemma subject_base_start: "s = [] \<or> \<not> js_ws (hd s) \<Longrightarrow> subject_base s = [] \<or> \<not> js_ws (hd (subject_base s))"
proof (induction s rule: subject_base.induct)
  case (1 s)
  show ?case
  proof (cases "drop_reply_prefix s")
    case None
    then show ?thesis using 1 by (subst (1 2) subject_base.simps) simp
  next
    case (Some t)
    have "dropWhile js_ws t = [] \<or> \<not> js_ws (hd (dropWhile js_ws t))" using hd_dropWhile by blast
    then show ?thesis using 1(1) [OF Some] Some by (subst (1 2) subject_base.simps) simp
  qed
qed

lemma subject_base_trimmed: "js_trim (subject_base (js_trim s)) = subject_base (js_trim s)"
proof (cases "subject_base (js_trim s) = []")
  case False
  obtain n where n: "subject_base (js_trim s) = drop n (js_trim s)" using subject_base_suffix by blast
  then have ne: "js_trim s \<noteq> []" and l: "n < length (js_trim s)" using False by auto
  have "\<not> js_ws (last (drop n (js_trim s)))" using js_trim_ends(2) [OF ne] l by simp
  moreover have "\<not> js_ws (hd (subject_base (js_trim s)))" using subject_base_start [of "js_trim s"] js_trim_ends(1) [OF ne] False by blast
  ultimately show ?thesis using False n by (intro js_trim_fixed) simp_all
qed simp

lemma reply_prefix_dropped:
  assumes "p \<in> {''Fwd:'', ''Re:''}" "js_trim b = b" "drop_reply_prefix b = None"
  shows "subject_base (js_trim (if b \<noteq> [] then lit p @ 32 # b else lit p)) = b"
proof -
  have b: "dropWhile js_ws (32 # b) = b"
    using js_trim_ends(1) [of b] assms(2) by (cases b) (auto simp: js_ws_def)
  have "js_trim (if b \<noteq> [] then lit p @ 32 # b else lit p) = (if b \<noteq> [] then lit p @ 32 # b else lit p)"
    using js_trim_ends(2) [of b] assms(1,2) by (intro js_trim_fixed) (auto simp: lit_def js_ws_def)
  moreover have "drop_reply_prefix (if b \<noteq> [] then lit p @ 32 # b else lit p) = Some b"
    using assms(1) b by (auto simp: drop_reply_prefix_def ci_starts_def ascii_lower_def lit_def)
  moreover have "subject_base b = b" using assms(3) by (subst subject_base.simps) simp
  moreover have "dropWhile js_ws b = b" using js_trim_ends(1) [of b] assms(2) by (cases b) auto
  ultimately show ?thesis by (subst subject_base.simps) (simp only: option.case)
qed

section \<open>Lemmas on replies and selections\<close>

lemma last_colons_append: "58 \<notin> set t \<Longrightarrow> last_colons (s @ 58 # 58 # t) = Some (length s)"
proof (induction s)
  case Nil
  have n: "last_colons u = None" if "58 \<notin> set u" for u using that by (induction u) (auto simp: js_starts_with_def)
  have "last_colons (58 # t) = None" using n [OF Nil] Nil by (cases t) (auto simp: js_starts_with_def)
  then show ?case by (simp add: js_starts_with_def)
qed simp

lemma parse_selection_key:
  assumes "mailId \<noteq> []" "b \<in> set sourceMailboxOptions"
  shows "parseTrashSelectionKey (mailSelectionKey mailId (Some b) (lit ''trash'')) = Some (mailId, b)"
proof -
  have "58 \<notin> set b" using assms(2) by (auto simp: sourceMailboxOptions_def lit_def)
  then have "last_colons (mailId @ 58 # 58 # b) = Some (length mailId)" by (rule last_colons_append)
  then show ?thesis using assms by (simp add: parseTrashSelectionKey_def mailSelectionKey_def lit_def)
qed

section \<open>The properties\<close>

text \<open>C25. Recipient fields: for address books whose entries have addresses and names without separators (a name with a
  comma breaks up, \<open>comma_name_splits\<close>), a field is accepted only if each token stands for exactly one address, the one
  typed or the one all entries of this name have, and the field is read back as exactly these addresses, in order; a
  field that is not accepted names its first token that stands for no address or, called ambiguous, for several. An entry
  that is picked is added to the field once, and the other tokens stay as they were.\<close>

theorem recipients_kept:
  assumes "lower_keeps_text E" "\<forall>g\<in>set gs. suggestion_ok g"
  shows "(case resolveRecipientInput E same gs raw of
      Inr v \<Rightarrow> list_all2 (\<lambda>t a. meant_addresses E same gs t = {a}) (field_tokens (js_trim raw)) (normalizeMailRecipients E v domain)
    | Inl q \<Rightarrow> \<exists>us vs. field_tokens (js_trim raw) = us @ pr_query q # vs \<and> (\<forall>t\<in>set us. \<exists>a. meant_addresses E same gs t = {a})
        \<and> (\<nexists>a. meant_addresses E same gs (pr_query q) = {a}) \<and> (pr_ambiguous q \<longleftrightarrow> meant_addresses E same gs (pr_query q) \<noteq> {}))
    \<and> (\<forall>g\<in>set gs. \<forall>field.
      field_tokens (addRecipientSuggestion E domain g field) = field_tokens field
        @ (if sg_email g \<in> set (normalizeMailRecipients E field domain) then [] else [formatConfirmedRecipient g])
      \<and> normalizeMailRecipients E (addRecipientSuggestion E domain g field) domain = normalizeMailRecipients E field domain
        @ (if sg_email g \<in> set (normalizeMailRecipients E field domain) then [] else [js_lower E (sg_email g)]))"
  using field_resolution [OF assms(2,1), of raw same domain] added_field [OF _ assms(1)] assms(2) by simp

lemma recipients_kept_witness:
  "normalizeMailRecipients (sample_env JNull) (addRecipientSuggestion (sample_env JNull) (lit ''moa.kr'')
      \<lparr>sg_email = lit ''lee@x.org'', sg_name = lit ''Lee'', sg_detail = [], sg_source = From_contact\<rparr> []) (lit ''moa.kr'')
    = [lit ''lee@x.org'']"
proof -
  define g where "g = \<lparr>sg_email = lit ''lee@x.org'', sg_name = lit ''Lee'', sg_detail = [], sg_source = From_contact\<rparr>"
  have "lower_keeps_text (sample_env JNull)" by (simp add: lower_keeps_text_def sample_env_def)
  moreover have "\<forall>h\<in>set [g]. suggestion_ok h"
    by (simp add: g_def suggestion_ok_def address_ok_def lit_def js_ws_def address_separator_def)
  ultimately have "normalizeMailRecipients (sample_env JNull) (addRecipientSuggestion (sample_env JNull) (lit ''moa.kr'') g []) (lit ''moa.kr'') =
      normalizeMailRecipients (sample_env JNull) [] (lit ''moa.kr'')
        @ (if sg_email g \<in> set (normalizeMailRecipients (sample_env JNull) [] (lit ''moa.kr'')) then [] else [js_lower (sample_env JNull) (sg_email g)])"
    using recipients_kept [of "sample_env JNull" "[g]" "[]" "\<lambda>a b. a = b" "lit ''moa.kr''"] by auto
  then show ?thesis
    by (simp add: g_def normalize_tokens field_tokens_def js_lower_def is_ascii_def) (simp add: lit_def ascii_lower_def)
qed

text \<open>A name with a comma breaks up: its parts are read as recipients of their own.\<close>

lemma comma_name_splits:
  "normalizeMailRecipients (sample_env JNull) (addRecipientSuggestion (sample_env JNull) (lit ''moa.kr'')
      \<lparr>sg_email = lit ''lee@x.org'', sg_name = lit ''Kim, Lee'', sg_detail = [], sg_source = From_contact\<rparr> []) (lit ''moa.kr'')
    = [lit ''kim@moa.kr'', lit ''lee@x.org'']" (is "normalizeMailRecipients ?E (addRecipientSuggestion ?E ?d ?g []) ?d = _")
proof -
  define h where "h = \<lparr>sg_email = lit ''lee@x.org'', sg_name = lit ''Lee'', sg_detail = [], sg_source = From_contact\<rparr>"
  have h: "suggestion_ok h" by (simp add: h_def suggestion_ok_def address_ok_def lit_def js_ws_def address_separator_def)
  have n: "js_trim (lit ''Kim, Lee'') = lit ''Kim, Lee''" "js_trim (lit ''Lee'') = lit ''Lee''"
    by (rule js_trim_fixed; simp add: lit_def js_ws_def)+
  have f: "formatConfirmedRecipient ?g = js_join [44, 32] [lit ''Kim'', formatConfirmedRecipient h]"
    by (simp add: formatConfirmedRecipient_def n h_def) (simp add: lit_def)
  have k: "field_token (lit ''Kim'')"
    by (simp add: field_token_def) (simp add: lit_def js_trim_def js_ws_def address_separator_def)
  have "addRecipientSuggestion ?E ?d ?g [] = js_join [44, 32] [lit ''Kim'', formatConfirmedRecipient h]"
    by (simp add: addRecipientSuggestion_def normalize_tokens field_tokens_def f del: js_join.simps(3))
  moreover have "field_tokens (js_join [44, 32] [lit ''Kim'', formatConfirmedRecipient h]) = [lit ''Kim'', formatConfirmedRecipient h]"
    by (rule field_tokens_join) (use k format_token [OF h] in simp)
  moreover have "recipient_address ?E (normal_email ?E ?d) (lit ''Kim'') = lit ''kim@moa.kr''"
  proof -
    have "normal_email ?E ?d = ?d"
      by (simp add: normal_email_def js_trim_no_ws js_lower_def is_ascii_def lit_def js_ws_def ascii_lower_def)
    moreover have "angle_address (lit ''Kim'') = None" "\<not> plain_address (lit ''Kim'')" "list_all local_char (lit ''Kim'')"
      by (simp_all add: angle_address_def plain_address_def lit_def email_char_def js_ws_def local_char_def ascii_lower_def)
    ultimately show ?thesis by (simp add: recipient_address_def js_lower_def is_ascii_def) (simp add: lit_def ascii_lower_def)
  qed
  moreover have "recipient_address ?E (normal_email ?E ?d) (formatConfirmedRecipient h) = lit ''lee@x.org''"
    by (simp add: address_of_formatted [OF h]) (simp add: h_def js_lower_def is_ascii_def lit_def ascii_lower_def)
  ultimately show ?thesis by (simp add: normalize_tokens)
qed

text \<open>C26. Replies: no hidden recipient of the original gets into a reply; a reply goes to the sender, a reply to all to the
  sender and every visible recipient but the own address, each once and in one field only.\<close>

theorem reply_recipients:
  assumes "buildMailReplyRecipients E d actorEmail all = (to', cc)"
  shows "set to' \<union> set cc \<subseteq> insert (normal_email E (md_sender d)) ((\<lambda>r. normal_email E (rc_email r)) ` {r \<in> set (md_recipients d). rc_kind r \<noteq> lit ''bcc''})
    \<and> distinct (to' @ cc) \<and> [] \<notin> set (to' @ cc)
    \<and> (\<not> all \<longrightarrow> to' @ cc = (if normal_email E (md_sender d) = [] then [] else [normal_email E (md_sender d)]))
    \<and> (all \<longrightarrow> set (to' @ cc) =
        insert (normal_email E (md_sender d)) ((\<lambda>r. normal_email E (rc_email r)) ` {r \<in> set (md_recipients d). rc_kind r \<in> {lit ''to'', lit ''cc''}})
        - {[], normal_email E actorEmail})"
proof -
  have k: "set (kind_emails d ''to'') = rc_email ` {r \<in> set (md_recipients d). rc_kind r = lit ''to''}"
    "set (kind_emails d ''cc'') = rc_email ` {r \<in> set (md_recipients d). rc_kind r = lit ''cc''}"
    by (auto simp: kind_emails_def visible_recipients_def)
  show ?thesis
  proof (cases all)
    case True
    define own where "own = normal_email E actorEmail"
    define ts where "ts = normal_email E (md_sender d) # map (normal_email E) (kind_emails d ''to'')"
    define cs where "cs = map (normal_email E) (kind_emails d ''cc'')"
    have r: "to' = js_unique (filter (\<lambda>e. e \<noteq> [] \<and> e \<noteq> own) ts)"
      "cc = js_unique (filter (\<lambda>e. e \<noteq> [] \<and> e \<noteq> own \<and> e \<notin> set to') cs)"
      using assms True unfolding buildMailReplyRecipients_def Let_def own_def ts_def cs_def by (auto simp del: filter.simps)
    then have to': "set to' = insert (normal_email E (md_sender d)) (normal_email E ` set (kind_emails d ''to'')) - {[], normal_email E actorEmail}"
      and cc: "set cc = normal_email E ` set (kind_emails d ''cc'') - {[], normal_email E actorEmail} - set to'"
      by (auto simp: ts_def cs_def own_def)
    have di: "distinct to'" "distinct cc" using r by (metis distinct_js_unique)+
    show ?thesis using True di unfolding to' cc k by (auto simp: to' cc k)
  next
    case False
    then show ?thesis using assms by (auto simp: buildMailReplyRecipients_def Let_def js_unique_distinct)
  qed
qed

lemma reply_recipients_witness:
  "fst (buildMailReplyRecipients (sample_env JNull)
    \<lparr>md_mail_id = [], md_sender = lit ''a@x.org'', md_subject = [], md_body_text = [], md_body_html = None, md_sent_at = None,
     md_created_at = [], md_recipients = []\<rparr> [] False) = [lit ''a@x.org'']"
proof -
  define d where "d = \<lparr>md_mail_id = [], md_sender = lit ''a@x.org'', md_subject = [], md_body_text = [], md_body_html = None, md_sent_at = None,
     md_created_at = [], md_recipients = []\<rparr>"
  obtain to' cc where r: "buildMailReplyRecipients (sample_env JNull) d [] False = (to', cc)" by fastforce
  have n: "normal_email (sample_env JNull) (md_sender d) = lit ''a@x.org''"
    by (simp add: d_def normal_email_def js_lower_def is_ascii_def lit_def js_trim_def js_ws_def ascii_lower_def)
  have "cc = []" using r by (auto simp: buildMailReplyRecipients_def Let_def)
  then show ?thesis using reply_recipients [OF r] r n by (simp add: d_def)
qed

text \<open>Subjects: the loop that takes reply and forward marks off a subject ends after at most as many rounds as the
  subject has characters, with a rest that has no such mark; marking a marked subject replaces its mark.\<close>

theorem subject_marks:
  "(\<exists>n\<le>length (js_trim subject). (prefix_round ^^ n) (js_trim subject) = subject_base (js_trim subject))
   \<and> drop_reply_prefix (subject_base (js_trim subject)) = None
   \<and> withMailSubjectPrefix (withMailSubjectPrefix subject m) m' = withMailSubjectPrefix subject m'"
proof -
  define b where "b = subject_base (js_trim subject)"
  define p where "p = (if m = Compose_forward then ''Fwd:'' else ''Re:'')"
  have "withMailSubjectPrefix subject m = (if b \<noteq> [] then lit p @ 32 # b else lit p)"
    by (simp add: withMailSubjectPrefix_def Let_def b_def p_def)
  moreover have "subject_base (js_trim (if b \<noteq> [] then lit p @ 32 # b else lit p)) = b"
    by (rule reply_prefix_dropped) (simp_all add: p_def b_def subject_base_trimmed subject_base_end)
  ultimately have "subject_base (js_trim (withMailSubjectPrefix subject m)) = b" by simp
  then have "withMailSubjectPrefix (withMailSubjectPrefix subject m) m' = withMailSubjectPrefix subject m'"
    unfolding withMailSubjectPrefix_def [of "withMailSubjectPrefix subject m"] by (simp add: withMailSubjectPrefix_def Let_def b_def)
  then show ?thesis using subject_base_rounds subject_base_end by blast
qed

text \<open>The trash: the keys of selected entries are read back as these entries, so a bulk action names exactly the mails and
  views that are selected; a selection of other keys is refused.\<close>

theorem trash_selection:
  assumes "\<forall>(mailId, b)\<in>set items. mailId \<noteq> [] \<and> b \<in> set sourceMailboxOptions"
  shows "bulk_selection (lit ''trash'') (map (\<lambda>(mailId, b). mailSelectionKey mailId (Some b) (lit ''trash'')) items)
      = Some (js_unique (map fst items), Some items)
    \<and> (parseTrashSelectionKey key = None \<longrightarrow> bulk_selection (lit ''trash'') (keys @ key # keys') = None)"
proof
  have "List.map_filter parseTrashSelectionKey (map (\<lambda>(mailId, b). mailSelectionKey mailId (Some b) (lit ''trash'')) items) = items"
    using assms by (induction items) (auto simp: List.map_filter_simps parse_selection_key)
  then show "bulk_selection (lit ''trash'') (map (\<lambda>(mailId, b). mailSelectionKey mailId (Some b) (lit ''trash'')) items)
      = Some (js_unique (map fst items), Some items)"
    by (simp add: bulk_selection_def)
  have l: "length (List.map_filter f xs) \<le> length xs" for f :: "jstring \<Rightarrow> (jstring \<times> jstring) option" and xs
    by (induction xs) (auto simp: List.map_filter_simps split: option.split)
  have a: "List.map_filter f (xs @ ys) = List.map_filter f xs @ List.map_filter f ys"
    for f :: "jstring \<Rightarrow> (jstring \<times> jstring) option" and xs ys
    by (simp add: List.map_filter_def)
  show "parseTrashSelectionKey key = None \<longrightarrow> bulk_selection (lit ''trash'') (keys @ key # keys') = None"
    using l [of parseTrashSelectionKey keys] l [of parseTrashSelectionKey keys']
    by (auto simp: bulk_selection_def a List.map_filter_simps Let_def)
qed

lemma trash_selection_witness:
  "bulk_selection (lit ''trash'') [lit ''m1::sent''] = Some ([lit ''m1''], Some [(lit ''m1'', lit ''sent'')])"
  using trash_selection [of "[(lit ''m1'', lit ''sent'')]" "[]" "[]" "[]"]
  by (simp add: sourceMailboxOptions_def mailSelectionKey_def js_unique_def) (simp add: lit_def)

end
