(* ===== verification/Mail_Html.thy ===== *)
theory Mail_Html
  imports Mail_Recipients "HOL-Library.AList"
begin

text \<open>
  The HTML of received mails in the web client (\<open>user-web/src/App.tsx\<close>): the removal of active content, the images of
  the mail that are referred to by content id, and the text and HTML of a quoted or forwarded mail. The parser and the
  serializer of the browser are parameters; between them stands a tree of elements, in which the content of a
  \<open>template\<close> element is a fragment of its own that the selectors do not reach.
\<close>

section \<open>Trees\<close>

datatype dom =
    Text_node jstring
  | Comment_node jstring
  | Element (tag: jstring) "(jstring \<times> jstring) list" "dom list"
  | Template "(jstring \<times> jstring) list" "dom list"

record html_env =
  parse_body :: "jstring \<Rightarrow> dom list" \<comment> \<open>the children of the body of \<open>parseFromString(html, "text/html")\<close>, names in lower case\<close>
  serialize :: "dom list \<Rightarrow> jstring" \<comment> \<open>\<open>innerHTML\<close>\<close>

fun text_content :: "dom \<Rightarrow> jstring" where
  "text_content (Text_node s) = s"
| "text_content (Comment_node s) = []"
| "text_content (Element t as cs) = concat (map text_content cs)"
| "text_content (Template as cs) = []"

definition js_attr :: "(jstring \<times> jstring) list \<Rightarrow> string \<Rightarrow> jstring" where
  \<comment> \<open>\<open>getAttribute(name) || ""\<close>\<close>
  "js_attr as n = (case map_of as (lit n) of None \<Rightarrow> [] | Some v \<Rightarrow> v)"

definition without_attr :: "string \<Rightarrow> (jstring \<times> jstring) list \<Rightarrow> (jstring \<times> jstring) list" where
  \<comment> \<open>\<open>removeAttribute\<close>\<close>
  "without_attr n as = filter (\<lambda>a. fst a \<noteq> lit n) as"

definition with_attr :: "string \<Rightarrow> jstring \<Rightarrow> (jstring \<times> jstring) list \<Rightarrow> (jstring \<times> jstring) list" where
  \<comment> \<open>\<open>setAttribute\<close>\<close>
  "with_attr n v as = AList.update (lit n) v as"

section \<open>Style texts\<close>

fun exists_suffix :: "(jstring \<Rightarrow> bool) \<Rightarrow> jstring \<Rightarrow> bool" where
  "exists_suffix p [] = p []"
| "exists_suffix p (c # s) = (p (c # s) \<or> exists_suffix p s)"

definition blank_then :: "nat \<Rightarrow> jstring \<Rightarrow> bool" where
  \<comment> \<open>\<open>\s*\<close> and then the given character\<close>
  "blank_then c s \<longleftrightarrow> (case dropWhile js_ws s of [] \<Rightarrow> False | d # t \<Rightarrow> d = c)"

definition css_active_at :: "jstring \<Rightarrow> bool" where
  "css_active_at s \<longleftrightarrow>
     ci_starts s ''expression'' \<and> blank_then 40 (drop 10 s) \<or> ci_starts s ''javascript:''
     \<or> ci_starts s ''behavior'' \<and> blank_then 58 (drop 8 s) \<or> ci_starts s ''-moz-binding''"

definition css_active :: "jstring \<Rightarrow> bool" where
  \<comment> \<open>\<open>/expression\s*\(|javascript:|behavior\s*:|-moz-binding/i\<close>\<close>
  "css_active s = exists_suffix css_active_at s"

definition css_imports :: "jstring \<Rightarrow> bool" where
  "css_imports s = exists_suffix (\<lambda>t. ci_starts t ''@import'') s"

definition url_match :: "jstring \<Rightarrow> jstring option" where
  \<comment> \<open>the rest of the text after \<open>url\s*\([^)]*\)\<close> at its beginning\<close>
  "url_match s =
     (if ci_starts s ''url'' then
        (case dropWhile js_ws (drop 3 s) of
           [] \<Rightarrow> None
         | c # t \<Rightarrow> if c \<noteq> 40 then None
             else (case dropWhile (\<lambda>d. d \<noteq> 41) t of [] \<Rightarrow> None | d # u \<Rightarrow> Some u))
      else None)"

lemma url_match_shorter: "url_match s = Some u \<Longrightarrow> length u < length s"
proof -
  assume m: "url_match s = Some u"
  then obtain c t d where t: "dropWhile js_ws (drop 3 s) = c # t" "dropWhile (\<lambda>d. d \<noteq> 41) t = d # u"
    by (auto simp: url_match_def split: if_splits list.splits)
  have "length (c # t) \<le> length s" using length_dropWhile_le [of js_ws "drop 3 s"] t(1) by simp
  moreover have "length (d # u) \<le> length t" using length_dropWhile_le [of "\<lambda>d. d \<noteq> 41" t] t(2) by simp
  ultimately show ?thesis by simp
qed

function strip_urls :: "jstring \<Rightarrow> jstring" where
  \<comment> \<open>\<open>replace(/url\s*\([^)]*\)/gi, "none")\<close>\<close>
  "strip_urls s =
     (case url_match s of
        Some u \<Rightarrow> lit ''none'' @ strip_urls u
      | None \<Rightarrow> (case s of [] \<Rightarrow> [] | c # t \<Rightarrow> c # strip_urls t))"
  by pat_completeness auto

termination by (relation "measure length") (auto dest: url_match_shorter)

declare strip_urls.simps [simp del]

section \<open>Removing active content\<close>

definition removed_tags :: "jstring list" where
  "removed_tags = map lit [''script'', ''iframe'', ''object'', ''embed'', ''form'', ''input'', ''button'', ''meta'', ''link'',
     ''base'', ''video'', ''audio'', ''source'', ''svg'', ''math'']"

fun drop_removed :: "dom \<Rightarrow> dom list" where
  "drop_removed (Element t as cs) = (if t \<in> set removed_tags then [] else [Element t as (concat (map drop_removed cs))])"
| "drop_removed n = [n]"

definition clean_style_element :: "bool \<Rightarrow> (jstring \<times> jstring) list \<Rightarrow> dom list \<Rightarrow> dom list" where
  "clean_style_element remote as cs =
     (let css = concat (map text_content cs)
      in if css_active css \<or> css_imports css then []
         else if \<not> remote then [Element (lit ''style'') as (if strip_urls css = [] then [] else [Text_node (strip_urls css)])]
         else [Element (lit ''style'') as cs])"

fun clean_styles :: "bool \<Rightarrow> dom \<Rightarrow> dom list" where
  "clean_styles remote (Element t as cs) =
     (if t = lit ''style'' then clean_style_element remote as cs else [Element t as (concat (map (clean_styles remote) cs))])"
| "clean_styles remote n = [n]"

definition clean_attribute :: "js_env \<Rightarrow> bool \<Rightarrow> jstring \<times> jstring \<Rightarrow> (jstring \<times> jstring) option" where
  "clean_attribute E remote a =
     (let name = js_lower E (fst a)
      in if js_starts_with name (lit ''on'') \<or> name = lit ''srcdoc'' \<or> name = lit ''srcset'' then None
         else if name = lit ''style'' then
           (if css_active (snd a) then None else if \<not> remote then Some (fst a, strip_urls (snd a)) else Some a)
         else Some a)"

definition safe_link :: "jstring \<Rightarrow> bool" where
  \<comment> \<open>\<open>/^(https?:|mailto:)/i\<close>\<close>
  "safe_link s \<longleftrightarrow> ci_starts s ''http:'' \<or> ci_starts s ''https:'' \<or> ci_starts s ''mailto:''"

definition remote_source :: "jstring \<Rightarrow> bool" where
  "remote_source s \<longleftrightarrow> ci_starts s ''http:'' \<or> ci_starts s ''https:''"

definition data_image :: "jstring \<Rightarrow> bool" where
  "data_image s \<longleftrightarrow> ci_starts s ''data:image/png;base64,'' \<or> ci_starts s ''data:image/gif;base64,''
     \<or> ci_starts s ''data:image/jpeg;base64,'' \<or> ci_starts s ''data:image/webp;base64,''"

definition clean_anchor :: "(jstring \<times> jstring) list \<Rightarrow> (jstring \<times> jstring) list" where
  "clean_anchor as =
     with_attr ''rel'' (lit ''noopener noreferrer'') (with_attr ''target'' (lit ''_blank'')
       (if safe_link (js_attr as ''href'') then as else without_attr ''href'' as))"

definition blocked_label :: jstring where
  "blocked_label = [91, 50896, 44201, 32, 51060, 48120, 51648, 32, 52264, 45800, 46120, 93]"

definition clean_image :: "bool \<Rightarrow> jstring set \<Rightarrow> (jstring \<times> jstring) list \<Rightarrow> (jstring \<times> jstring) list" where
  "clean_image remote allowed as =
     (let source = js_attr as ''src''
      in if source \<in> allowed then as
         else if \<not> (remote_source source \<or> data_image source) then without_attr ''src'' as
         else if \<not> remote \<and> remote_source source then
           with_attr ''alt'' (if js_attr as ''alt'' \<noteq> [] then blocked_label @ 32 # js_attr as ''alt'' else blocked_label)
             (without_attr ''src'' (with_attr ''data-remote-src'' source as))
         else as)"

definition clean_attributes :: "js_env \<Rightarrow> bool \<Rightarrow> jstring set \<Rightarrow> jstring \<Rightarrow> (jstring \<times> jstring) list \<Rightarrow> (jstring \<times> jstring) list" where
  "clean_attributes E remote allowed t as =
     (let bs = List.map_filter (clean_attribute E remote) as
      in if t = lit ''a'' then clean_anchor bs else if t = lit ''img'' then clean_image remote allowed bs else bs)"

fun clean_elements :: "js_env \<Rightarrow> bool \<Rightarrow> jstring set \<Rightarrow> dom \<Rightarrow> dom" where
  "clean_elements E remote allowed (Element t as cs) =
     Element t (clean_attributes E remote allowed t as) (map (clean_elements E remote allowed) cs)"
| "clean_elements E remote allowed (Template as cs) = Template (clean_attributes E remote allowed (lit ''template'') as) cs"
| "clean_elements E remote allowed n = n"

definition sanitize_tree :: "js_env \<Rightarrow> bool \<Rightarrow> jstring set \<Rightarrow> dom list \<Rightarrow> dom list" where
  "sanitize_tree E remote allowed ns =
     map (clean_elements E remote allowed) (concat (map (clean_styles remote) (concat (map drop_removed ns))))"

definition html_head :: jstring where
  "html_head = lit (''<!doctype html><html><head><meta charset='' @ [CHR 0x22] @ ''utf-8'' @ [CHR 0x22] @ ''><style>''
     @ ''body{margin:0;padding:12px;color:#0f172a;background:#fff;font:12px/1.6 Arial,sans-serif;overflow-wrap:anywhere}''
     @ ''img{max-width:100%;height:auto}table{max-width:100%;border-collapse:collapse}a{color:#0f766e}''
     @ ''</style></head><body>'')"

definition html_foot :: jstring where "html_foot = lit ''</body></html>''"

definition sanitizeMailHtml :: "js_env \<Rightarrow> html_env \<Rightarrow> jstring \<Rightarrow> bool \<Rightarrow> jstring set \<Rightarrow> jstring" where
  "sanitizeMailHtml E H html remote allowed =
     html_head @ serialize H (sanitize_tree E remote allowed (parse_body H html)) @ html_foot"

section \<open>Images by content id\<close>

record attachment_view =
  av_id :: jstring
  av_inline :: bool
  av_content_id :: "jstring option"

definition inline_ids :: "attachment_view list \<Rightarrow> jstring set" where
  "inline_ids atts = {c. c \<noteq> [] \<and> (\<exists>a\<in>set atts. av_inline a \<and> av_content_id a = Some c)}"

definition unavailable_label :: "jstring \<Rightarrow> jstring" where
  "unavailable_label alt =
     [91, 48376, 47928, 32, 51060, 48120, 51648, 47484, 32, 54364, 49884, 54624, 32, 49688, 32, 50630, 49845, 45768, 45796]
     @ (if alt \<noteq> [] then 58 # 32 # alt else []) @ [93]"

definition cid_image :: "attachment_view list \<Rightarrow> (jstring \<rightharpoonup> jstring) \<Rightarrow> (jstring \<times> jstring) list \<Rightarrow> dom list \<Rightarrow> dom" where
  \<comment> \<open>an image whose source starts with \<open>cid:\<close>\<close>
  "cid_image atts urls as cs =
     (let contentId = drop 4 (js_attr as ''src'');
          previewUrl = (if contentId \<in> inline_ids atts then urls contentId else None)
      in if previewUrl \<noteq> None \<and> previewUrl \<noteq> Some [] then Element (lit ''img'') (with_attr ''src'' (the previewUrl) as) cs
         else Element (lit ''span'') [(lit ''class'', lit ''user-mail-inline-image-unavailable'')]
           [Text_node (unavailable_label (js_attr as ''alt''))])"

fun replace_cids :: "attachment_view list \<Rightarrow> (jstring \<rightharpoonup> jstring) \<Rightarrow> dom \<Rightarrow> dom" where
  "replace_cids atts urls (Element t as cs) =
     (if t = lit ''img'' \<and> js_starts_with (js_attr as ''src'') (lit ''cid:'') then cid_image atts urls as (map (replace_cids atts urls) cs)
      else Element t as (map (replace_cids atts urls) cs))"
| "replace_cids atts urls n = n"

definition replaceMailInlineCids :: "html_env \<Rightarrow> jstring \<Rightarrow> attachment_view list \<Rightarrow> (jstring \<rightharpoonup> jstring) \<Rightarrow> jstring" where
  "replaceMailInlineCids H html atts urls = serialize H (map (replace_cids atts urls) (parse_body H html))"

section \<open>Quoted and forwarded mails\<close>

definition escapeMailHtml :: "jstring \<Rightarrow> jstring" where
  "escapeMailHtml v =
     concat (map (\<lambda>c. if c = 38 then lit ''&amp;'' else if c = 60 then lit ''&lt;'' else if c = 62 then lit ''&gt;''
       else if c = 34 then lit ''&quot;'' else [c]) v)"

definition original_mark :: jstring where
  "original_mark = [45, 45, 45, 32, 50896, 47928, 32, 45, 45, 45]"

definition field_date :: jstring where "field_date = [51068, 49884, 58, 32]"
definition field_from :: jstring where "field_from = [48372, 45240, 32, 49324, 46988, 58, 32]"
definition field_to :: jstring where "field_to = [48155, 45716, 32, 49324, 46988, 58, 32]"
definition field_cc :: jstring where "field_cc = [52280, 51312, 58, 32]"
definition field_subject :: jstring where "field_subject = [51228, 47785, 58, 32]"

definition sent_or_created :: "mail_detail \<Rightarrow> jstring" where
  "sent_or_created d = (case md_sent_at d of None \<Rightarrow> md_created_at d | Some t \<Rightarrow> if t = [] then md_created_at d else t)"

definition joined_emails :: "mail_detail \<Rightarrow> string \<Rightarrow> jstring" where
  "joined_emails d k = (let s = js_join [44, 32] (kind_emails d k) in if s \<noteq> [] then s else [45])"

definition buildMailQuotedBody :: "(jstring \<Rightarrow> jstring) \<Rightarrow> mail_detail \<Rightarrow> jstring" where
  \<comment> \<open>\<open>fmt\<close> is \<open>formatMailDate\<close>\<close>
  "buildMailQuotedBody fmt d =
     js_join [10] [[], original_mark, field_date @ fmt (sent_or_created d), field_from @ md_sender d,
       field_to @ joined_emails d ''to'', field_cc @ joined_emails d ''cc'', field_subject @ md_subject d, [], md_body_text d]"

fun before_text :: "jstring \<Rightarrow> jstring \<Rightarrow> jstring" where
  \<comment> \<open>the part before the first occurrence, all of it if there is none\<close>
  "before_text t [] = []"
| "before_text t (c # s) = (if js_starts_with (c # s) t then [] else c # before_text t s)"

fun after_text :: "jstring \<Rightarrow> jstring \<Rightarrow> jstring option" where
  "after_text t [] = (if t = [] then Some [] else None)"
| "after_text t (c # s) = (if js_starts_with (c # s) t then Some (drop (length t) (c # s)) else after_text t s)"

definition body_of_page :: "jstring \<Rightarrow> jstring" where
  \<comment> \<open>\<open>replace(/^.*?<body>/s, "").replace(/<\/body>.*$/s, "")\<close>\<close>
  "body_of_page p = before_text (lit ''</body>'') (case after_text (lit ''<body>'') p of None \<Rightarrow> p | Some s \<Rightarrow> s)"

definition forward_original :: "js_env \<Rightarrow> html_env \<Rightarrow> mail_detail \<Rightarrow> jstring" where
  "forward_original E H d =
     (case md_body_html d of
        Some html \<Rightarrow> if html \<noteq> [] then body_of_page (sanitizeMailHtml E H html True {})
          else lit ''<pre>'' @ escapeMailHtml (md_body_text d) @ lit ''</pre>''
      | None \<Rightarrow> lit ''<pre>'' @ escapeMailHtml (md_body_text d) @ lit ''</pre>'')"

definition line_breaks :: "jstring \<Rightarrow> jstring" where
  \<comment> \<open>\<open>replace(/\n/g, "<br>")\<close>\<close>
  "line_breaks s = concat (map (\<lambda>c. if c = 10 then lit ''<br>'' else [c]) s)"

definition buildForwardMailHtml :: "js_env \<Rightarrow> html_env \<Rightarrow> (jstring \<Rightarrow> jstring) \<Rightarrow> mail_detail \<Rightarrow> jstring \<Rightarrow> jstring" where
  "buildForwardMailHtml E H fmt d bodyText =
     (let note = js_trim (before_text (10 # original_mark) bodyText)
      in (if note \<noteq> [] then lit ''<p>'' @ line_breaks (escapeMailHtml note) @ lit ''</p>'' else [])
         @ lit ''<hr>'' @ lit ''<p><strong>'' @ [50896, 47928] @ lit ''</strong><br>'' @ field_date
         @ escapeMailHtml (fmt (sent_or_created d)) @ lit ''<br>''
         @ field_from @ escapeMailHtml (md_sender d) @ lit ''<br>'' @ field_to @ escapeMailHtml (joined_emails d ''to'') @ lit ''<br>''
         @ field_cc @ escapeMailHtml (joined_emails d ''cc'') @ lit ''<br>'' @ field_subject @ escapeMailHtml (md_subject d) @ lit ''</p>''
         @ lit ''<blockquote>'' @ forward_original E H d @ lit ''</blockquote>'')"

section \<open>Lemmas on style texts\<close>




lemma strip_urls_Some: "url_match s = Some u \<Longrightarrow> strip_urls s = 110 # 111 # 110 # 101 # strip_urls u"
  by (subst strip_urls.simps) (simp add: lit_def)

lemma strip_urls_None: "url_match s = None \<Longrightarrow> strip_urls s = (case s of [] \<Rightarrow> [] | c # t \<Rightarrow> c # strip_urls t)"
  by (subst strip_urls.simps) simp




definition has_url :: "jstring \<Rightarrow> bool" where
  "has_url s \<longleftrightarrow> exists_suffix (\<lambda>t. url_match t \<noteq> None) s"




lemma strip_urls_id: "\<not> has_url s \<Longrightarrow> strip_urls s = s"
  by (induction s) (simp_all add: has_url_def strip_urls_None)

section \<open>Sanitized trees\<close>










lemma set_without_attr: "set (without_attr n as) \<subseteq> set as"
  by (auto simp: without_attr_def)

lemma map_of_with_attr: "map_of (with_attr n v as) = (map_of as)(lit n \<mapsto> v)"
  by (simp add: with_attr_def update_conv')

























section \<open>Replaced images\<close>

fun image_sources :: "dom \<Rightarrow> jstring list" where
  \<comment> \<open>the sources of the images that have one\<close>
  "image_sources (Element t as cs) =
     (if t = lit ''img'' then (case map_of as (lit ''src'') of None \<Rightarrow> [] | Some v \<Rightarrow> [v]) else []) @ concat (map image_sources cs)"
| "image_sources n = []"

lemma js_attr_src: "js_attr as n \<noteq> [] \<Longrightarrow> map_of as (lit n) = Some (js_attr as n)"
  by (auto simp: js_attr_def split: option.splits)

lemma element_sources:
  "v \<in> set (image_sources (Element t as cs)) \<longleftrightarrow>
     t = lit ''img'' \<and> map_of as (lit ''src'') = Some v \<or> v \<in> set (concat (map image_sources cs))"
proof -
  have "set (case m of None \<Rightarrow> [] | Some u \<Rightarrow> [u]) = {u. m = Some u}" for m :: "jstring option" by (cases m) simp_all
  then show ?thesis unfolding image_sources.simps set_append by (cases "t = lit ''img''") simp_all
qed

declare image_sources.simps(1) [simp del]

lemma replace_cids_sources:
  "v \<in> set (image_sources (replace_cids atts urls n)) \<Longrightarrow>
     v \<in> set (image_sources n) \<and> \<not> js_starts_with v (lit ''cid:'')
     \<or> (\<exists>c\<in>inline_ids atts. urls c = Some v \<and> lit ''cid:'' @ c \<in> set (image_sources n))"
proof (induction n)
  case (Element t as cs)
  have kids: "v \<in> set (concat (map image_sources cs)) \<and> \<not> js_starts_with v (lit ''cid:'')
      \<or> (\<exists>c\<in>inline_ids atts. urls c = Some v \<and> lit ''cid:'' @ c \<in> set (concat (map image_sources cs)))"
    if "v \<in> set (concat (map image_sources (map (replace_cids atts urls) cs)))"
    using that Element.IH by fastforce
  show ?case
  proof (cases "t = lit ''img'' \<and> js_starts_with (js_attr as ''src'') (lit ''cid:'')")
    case False
    then have r: "replace_cids atts urls (Element t as cs) = Element t as (map (replace_cids atts urls) cs)" by auto
    show ?thesis
    proof (cases "t = lit ''img'' \<and> map_of as (lit ''src'') = Some v")
      case here: True
      then have "\<not> js_starts_with v (lit ''cid:'')" using False by (simp add: js_attr_def)
      then show ?thesis using here by (simp add: element_sources)
    next
      case elsewhere: False
      then have "v \<in> set (concat (map image_sources (map (replace_cids atts urls) cs)))"
        using Element.prems unfolding r element_sources by blast
      then show ?thesis using kids unfolding element_sources by blast
    qed
  next
    case True
    then obtain c where c: "js_attr as ''src'' = lit ''cid:'' @ c" by (auto simp: js_starts_with_iff)
    then have m: "map_of as (lit ''src'') = Some (lit ''cid:'' @ c)"
      using js_attr_src [of as "''src''"] by simp
    have d: "drop 4 (js_attr as ''src'') = c" by (simp add: c)
    show ?thesis
    proof (cases "\<exists>u. c \<in> inline_ids atts \<and> urls c = Some u \<and> u \<noteq> []")
      case here: True
      then obtain u where u: "c \<in> inline_ids atts" "urls c = Some u" "u \<noteq> []" by blast
      have "replace_cids atts urls (Element t as cs)
          = Element (lit ''img'') (with_attr ''src'' u as) (map (replace_cids atts urls) cs)"
        using True u by (simp add: cid_image_def d Let_def)
      then have "v = u \<or> v \<in> set (concat (map image_sources (map (replace_cids atts urls) cs)))"
        using Element.prems by (auto simp: element_sources map_of_with_attr)
      then show ?thesis using kids u m True unfolding element_sources by blast
    next
      case False
      then have "\<not> (c \<in> inline_ids atts \<and> urls c \<noteq> None \<and> urls c \<noteq> Some [])" by (cases "urls c") auto
      then have "replace_cids atts urls (Element t as cs) = Element (lit ''span'') [(lit ''class'', lit ''user-mail-inline-image-unavailable'')]
          [Text_node (unavailable_label (js_attr as ''alt''))]"
        using True by (auto simp: cid_image_def d Let_def)
      then show ?thesis using Element.prems by (simp add: element_sources)
    qed
  qed
qed simp_all

text \<open>An image of a received mail that refers to a part of the mail by its content id is shown from the preview of an
  inline attachment of the mail with that id, or replaced by a text that says it cannot be shown: no other attachment and no
  reference by content id is left.\<close>
theorem mail_cids_replaced:
  assumes "v \<in> set (image_sources (replace_cids atts urls n))"
  shows "v \<in> set (image_sources n) \<and> \<not> js_starts_with v (lit ''cid:'')
     \<or> (\<exists>c\<in>inline_ids atts. urls c = Some v \<and> lit ''cid:'' @ c \<in> set (image_sources n))"
  using replace_cids_sources [OF assms] .

section \<open>Concrete mails\<close>




text \<open>The content of a \<open>template\<close> element is not looked at: a script, a frame or a remote image in it is in what the browser
  gets.\<close>

lemma template_content_kept: "sanitize_tree E remote allowed [Template [] cs] = [Template [] cs]"
  by (simp add: sanitize_tree_def clean_attributes_def map_filter_simps lit_def)

text \<open>The \<open>background\<close> attribute of a table cell loads a remote image, whether remote images are allowed or not.\<close>

lemma background_kept:
  "sanitize_tree (sample_env JNull) False {} [Element (lit ''td'') [(lit ''background'', lit ''http://h/p'')] []]
   = [Element (lit ''td'') [(lit ''background'', lit ''http://h/p'')] []]"
  by (simp add: sanitize_tree_def clean_attributes_def clean_attribute_def map_filter_simps removed_tags_def js_lower_def is_ascii_def
      Let_def) (simp add: lit_def ascii_lower_def js_starts_with_def)

text \<open>The link of an \<open>area\<close> of an image map is not looked at: it may be of any scheme.\<close>

lemma area_link_kept:
  "sanitize_tree (sample_env JNull) False {} [Element (lit ''area'') [(lit ''href'', lit ''javascript:run()'')] []]
   = [Element (lit ''area'') [(lit ''href'', lit ''javascript:run()'')] []]"
  by (simp add: sanitize_tree_def clean_attributes_def clean_attribute_def map_filter_simps removed_tags_def js_lower_def is_ascii_def
      Let_def) (simp add: lit_def ascii_lower_def js_starts_with_def)

text \<open>Replacing the URLs of a style by \<open>none\<close> may make an active text of one that was not.\<close>

lemma stripped_style_active:
  "\<not> css_active (lit ''url(x)xpression('')
   \<and> strip_urls (lit ''url(x)xpression('') = lit ''nonexpression('' \<and> css_active (lit ''nonexpression('')"
proof (intro conjI)
  show "\<not> css_active (lit ''url(x)xpression('')"
    by (simp add: css_active_def lit_def css_active_at_def ci_starts_def ascii_lower_def)
  have "\<not> has_url (lit ''xpression('')"
    by (simp add: has_url_def lit_def url_match_def ci_starts_def ascii_lower_def)
  then have "strip_urls (lit ''xpression('') = lit ''xpression(''" by (rule strip_urls_id)
  moreover have "url_match (lit ''url(x)xpression('') = Some (lit ''xpression('')"
    by (simp add: lit_def url_match_def ci_starts_def ascii_lower_def js_ws_def)
  ultimately show "strip_urls (lit ''url(x)xpression('') = lit ''nonexpression(''"
    by (simp add: strip_urls_Some) (simp add: lit_def)
  show "css_active (lit ''nonexpression('')"
    by (simp add: css_active_def lit_def css_active_at_def ci_starts_def ascii_lower_def blank_then_def js_ws_def)
qed

end
