(* ===== verification/Mail_Document.thy ===== *)
theory Mail_Document
  imports Mail_Rich_Text Mail_Html
begin

text \<open>
  The body of a mail in the compose window (\<open>user-web/src/App.tsx\<close>): an editor document made from a text, an editor
  document read from the HTML of a draft or a forwarded mail, and the form that holds it with its projection. The document is
  the one \<open>Mail_Rich_Text\<close> checks; the tree the browser parses from HTML is the one of \<open>Mail_Html\<close>.
\<close>

section \<open>Documents from text\<close>

definition default_image_alt :: jstring where "default_image_alt = [48376, 47928, 32, 51060, 48120, 51648]"

definition typed :: "string \<Rightarrow> (string \<times> jsval) list \<Rightarrow> jsval" where
  \<comment> \<open>an object literal with a \<open>type\<close>\<close>
  "typed t ps = JObj ((lit ''type'', JStr (lit t)) # map (\<lambda>(k, v). (lit k, v)) ps)"

definition line_paragraph :: "jstring \<Rightarrow> jsval" where
  "line_paragraph line =
     (if line \<noteq> [] then typed ''paragraph'' [(''content'', JArr [typed ''text'' [(''text'', JStr line)]])]
      else typed ''paragraph'' [])"

definition cid_node :: "jstring \<times> jstring \<Rightarrow> jsval" where
  "cid_node im =
     typed ''image'' [(''attrs'', JObj
       [(lit ''contentId'', JStr (fst im)), (lit ''src'', JStr (lit ''cid:'' @ fst im)),
        (lit ''alt'', JStr (if snd im \<noteq> [] then snd im else default_image_alt))])]"

definition createMailDocument :: "jstring \<Rightarrow> (jstring \<times> jstring) list \<Rightarrow> jsval" where
  \<comment> \<open>images are pairs of a content id and an alternative text; \<open>split\<close> never gives an empty list\<close>
  "createMailDocument text inlineImages =
     typed ''doc'' [(''content'', JArr (map line_paragraph (js_split 10 (unify_newlines text)) @ map cid_node inlineImages))]"

section \<open>Documents from HTML\<close>

definition readStyle :: "(jstring \<times> jstring) list \<Rightarrow> string \<Rightarrow> jstring option" where
  \<comment> \<open>a property of the style attribute; of several declarations of it the last\<close>
  "readStyle as k =
     map_of (rev (List.map_filter (\<lambda>item. case js_split 58 item of [n, v] \<Rightarrow> Some (js_trim n, js_trim v) | _ \<Rightarrow> None)
               (js_split 59 (js_attr as ''style'')))) (lit k)"

definition style_set :: "(jstring \<times> jstring) list \<Rightarrow> string \<Rightarrow> bool" where
  "style_set as k \<longleftrightarrow> (case readStyle as k of None \<Rightarrow> False | Some v \<Rightarrow> v \<noteq> [])"

definition style_value :: "(jstring \<times> jstring) list \<Rightarrow> string \<Rightarrow> jsval" where
  "style_value as k = (case readStyle as k of None \<Rightarrow> JUndef | Some v \<Rightarrow> JStr v)"

definition element_mark :: "jstring \<Rightarrow> (jstring \<times> jstring) list \<Rightarrow> jsval option" where
  "element_mark t as =
     (if t = lit ''strong'' then Some (typed ''bold'' []) else if t = lit ''em'' then Some (typed ''italic'' [])
      else if t = lit ''u'' then Some (typed ''underline'' []) else if t = lit ''s'' then Some (typed ''strike'' [])
      else if t = lit ''a'' \<and> js_attr as ''href'' \<noteq> [] then
        Some (typed ''link'' [(''attrs'', JObj [(lit ''href'', JStr (js_attr as ''href''))])])
      else if style_set as ''background-color'' then
        Some (typed ''highlight'' [(''attrs'', JObj [(lit ''color'', style_value as ''background-color'')])])
      else if style_set as ''font-family'' \<or> style_set as ''font-size'' \<or> style_set as ''line-height'' \<or> style_set as ''color'' then
        Some (typed ''textStyle'' [(''attrs'', JObj
          [(lit ''fontFamily'', style_value as ''font-family''), (lit ''fontSize'', style_value as ''font-size''),
           (lit ''lineHeight'', style_value as ''line-height''), (lit ''color'', style_value as ''color'')])])
      else None)"

definition marksFor :: "jstring \<Rightarrow> (jstring \<times> jstring) list \<Rightarrow> jsval list \<Rightarrow> jsval list" where
  "marksFor t as inherited = (case element_mark t as of None \<Rightarrow> inherited | Some m \<Rightarrow> m # inherited)"

definition js_number :: "(jstring \<Rightarrow> jsval) \<Rightarrow> jstring \<Rightarrow> jsval" where
  \<comment> \<open>\<open>Number(s)\<close>; texts that are not digits are read by the platform\<close>
  "js_number N s =
     (if js_trim s = [] then JNum 0
      else if list_all is_digit (js_trim s) then JNum (of_nat (read_nat 0 (js_trim s))) else N s)"

definition number_attr :: "(jstring \<Rightarrow> jsval) \<Rightarrow> (jstring \<times> jstring) list \<Rightarrow> string \<Rightarrow> jsval" where
  "number_attr N as n = (if js_attr as n \<noteq> [] then js_number N (js_attr as n) else JUndef)"

definition cid_image_node :: "(jstring \<Rightarrow> jsval) \<Rightarrow> (jstring \<times> jstring) list \<Rightarrow> jsval list" where
  "cid_image_node N as =
     (if js_starts_with (js_attr as ''src'') (lit ''cid:'') then
        [typed ''image'' [(''attrs'', JObj
           [(lit ''contentId'', JStr (drop 4 (js_attr as ''src''))), (lit ''src'', JStr (js_attr as ''src'')),
            (lit ''alt'', JStr (case map_of as (lit ''alt'') of None \<Rightarrow> default_image_alt | Some v \<Rightarrow> v)),
            (lit ''width'', number_attr N as ''width''), (lit ''height'', number_attr N as ''height'')])]]
      else [])"

fun inline_nodes :: "(jstring \<Rightarrow> jsval) \<Rightarrow> jsval list \<Rightarrow> dom \<Rightarrow> jsval list" where
  \<comment> \<open>\<open>inline\<close>\<close>
  "inline_nodes N inherited (Text_node s) =
     (if s \<noteq> [] then [typed ''text'' [(''text'', JStr s), (''marks'', if inherited \<noteq> [] then JArr inherited else JUndef)]] else [])"
| "inline_nodes N inherited (Comment_node s) = []"
| "inline_nodes N inherited (Template as cs) = []"
| "inline_nodes N inherited (Element t as cs) =
     (if t = lit ''br'' then [typed ''hardBreak'' []]
      else if t = lit ''img'' then cid_image_node N as
      else concat (map (inline_nodes N (marksFor t as inherited)) cs))"

definition align_attr :: "(jstring \<times> jstring) list \<Rightarrow> (string \<times> jsval) list" where
  "align_attr as = (if style_set as ''text-align'' then [(''textAlign'', style_value as ''text-align'')] else [])"

definition align_attrs :: "(jstring \<times> jstring) list \<Rightarrow> jsval" where
  "align_attrs as = (if align_attr as = [] then JUndef else JObj (map (\<lambda>(k, v). (lit k, v)) (align_attr as)))"

definition shown_content :: "jsval list \<Rightarrow> bool" where
  \<comment> \<open>\<open>content.some((item) => item.type !== "text" || item.text?.trim())\<close>\<close>
  "shown_content items \<longleftrightarrow> (\<exists>i\<in>set items. node_type i \<noteq> lit ''text'' \<or> js_trim (node_text i) \<noteq> [])"

definition paragraphs_if_none :: "jsval list \<Rightarrow> jsval" where
  "paragraphs_if_none children = JArr (if children \<noteq> [] then children else [typed ''paragraph'' []])"

definition heading_level :: "jstring \<Rightarrow> nat option" where
  "heading_level t = (if t = lit ''h1'' then Some 1 else if t = lit ''h2'' then Some 2 else if t = lit ''h3'' then Some 3 else None)"

definition cell_attrs :: "(jstring \<Rightarrow> jsval) \<Rightarrow> (jstring \<times> jstring) list \<Rightarrow> jsval" where
  "cell_attrs N as =
     JObj (map (\<lambda>(k, v). (lit k, v))
       ((if js_attr as ''colspan'' \<noteq> [] then [(''colspan'', number_attr N as ''colspan'')] else [])
        @ (if js_attr as ''rowspan'' \<noteq> [] then [(''rowspan'', number_attr N as ''rowspan'')] else []) @ align_attr as))"

definition block_of :: "(jstring \<Rightarrow> jsval) \<Rightarrow> jstring \<Rightarrow> (jstring \<times> jstring) list \<Rightarrow> dom list \<Rightarrow> jsval list \<Rightarrow> jsval list" where
  \<comment> \<open>the cases of \<open>blocks\<close>, given the blocks of the children\<close>
  "block_of N t as cs children =
     (let content = JArr (concat (map (inline_nodes N []) cs)); inl = inline_nodes N [] (Element t as cs)
      in if t = lit ''p'' then [typed ''paragraph'' [(''attrs'', align_attrs as), (''content'', content)]]
         else if heading_level t \<noteq> None then
           [typed ''heading'' [(''attrs'', JObj (map (\<lambda>(k, v). (lit k, v))
              ((''level'', JNum (of_nat (the (heading_level t)))) # align_attr as))), (''content'', content)]]
         else if t = lit ''blockquote'' then
           [typed ''blockquote'' [(''attrs'', align_attrs as), (''content'', paragraphs_if_none children)]]
         else if t = lit ''ul'' then [typed ''bulletList'' [(''attrs'', JUndef), (''content'', JArr children)]]
         else if t = lit ''ol'' then
           [typed ''orderedList'' [(''attrs'', if js_attr as ''start'' \<noteq> [] then JObj [(lit ''start'', number_attr N as ''start'')] else JUndef),
              (''content'', JArr children)]]
         else if t = lit ''li'' then [typed ''listItem'' [(''content'', paragraphs_if_none children)]]
         else if t = lit ''table'' then [typed ''table'' [(''content'', JArr children)]]
         else if t = lit ''tr'' then [typed ''tableRow'' [(''content'', JArr children)]]
         else if t = lit ''th'' \<or> t = lit ''td'' then
           [typed (if t = lit ''th'' then ''tableHeader'' else ''tableCell'')
              [(''attrs'', cell_attrs N as), (''content'', paragraphs_if_none children)]]
         else if t = lit ''hr'' then [typed ''horizontalRule'' []]
         else if t = lit ''img'' then inl
         else if children \<noteq> [] then children
         else if inl \<noteq> [] then [typed ''paragraph'' [(''content'', JArr inl)]] else [])"

definition mixed_tags :: "jstring list" where
  "mixed_tags = map lit [''blockquote'', ''li'', ''th'', ''td'']"

definition is_element :: "dom \<Rightarrow> bool" where
  "is_element n \<longleftrightarrow> (case n of Element t as ds \<Rightarrow> True | Template as ds \<Rightarrow> True | _ \<Rightarrow> False)"

fun blocks :: "(jstring \<Rightarrow> jsval) \<Rightarrow> dom \<Rightarrow> jsval list" where
  "blocks N (Element t as cs) =
     block_of N t as cs
       (concat (map (\<lambda>child.
          if is_element child then blocks N child
          else if t \<in> set mixed_tags \<and> shown_content (inline_nodes N [] child) then
            [typed ''paragraph'' [(''content'', JArr (inline_nodes N [] child))]]
          else []) cs))"
| "blocks N n = []"

definition parseMailHtmlDocument :: "html_env option \<Rightarrow> (jstring \<Rightarrow> jsval) \<Rightarrow> jstring \<Rightarrow> jstring \<Rightarrow> jsval" where
  \<comment> \<open>\<open>None\<close> where the platform has no \<open>DOMParser\<close>\<close>
  "parseMailHtmlDocument H N html fallbackText =
     (case H of
        None \<Rightarrow> createMailDocument fallbackText []
      | Some h \<Rightarrow>
          (let content = concat (map (blocks N) (parse_body h html))
           in typed ''doc'' [(''content'', if content \<noteq> [] then JArr content
                else own_prop (createMailDocument fallbackText []) (lit ''content''))]))"

section \<open>The compose form\<close>

record compose_form =
  cf_to :: jstring
  cf_cc :: jstring
  cf_bcc :: jstring
  cf_subject :: jstring
  cf_text :: jstring
  cf_html :: jstring
  cf_document :: jsval
  cf_scheduled :: jstring

record compose_values =
  cv_to :: "jstring option"
  cv_cc :: "jstring option"
  cv_bcc :: "jstring option"
  cv_subject :: "jstring option"
  cv_text :: "jstring option"
  cv_html :: "jstring option"
  cv_scheduled :: "jstring option"

definition or_empty :: "jstring option \<Rightarrow> jstring" where
  "or_empty v = (case v of None \<Rightarrow> [] | Some s \<Rightarrow> s)"

definition compose_document :: "html_env option \<Rightarrow> (jstring \<Rightarrow> jsval) \<Rightarrow> compose_values \<Rightarrow> jsval" where
  "compose_document H N v =
     (if or_empty (cv_html v) \<noteq> [] then parseMailHtmlDocument H N (or_empty (cv_html v)) (or_empty (cv_text v))
      else createMailDocument (or_empty (cv_text v)) [])"

definition createMailComposeForm ::
  "js_env \<Rightarrow> (jstring \<Rightarrow> jstring option) \<Rightarrow> html_env option \<Rightarrow> (jstring \<Rightarrow> jsval) \<Rightarrow> compose_values \<Rightarrow> rich_error + compose_form" where
  "createMailComposeForm E U H N v =
     bind_r (projectMailDocument E U (compose_document H N v)) (\<lambda>pr.
       Inr \<lparr>cf_to = or_empty (cv_to v), cf_cc = or_empty (cv_cc v), cf_bcc = or_empty (cv_bcc v), cf_subject = or_empty (cv_subject v),
         cf_text = bodyText pr, cf_html = bodyHtml pr, cf_document = compose_document H N v, cf_scheduled = or_empty (cv_scheduled v)\<rparr>)"

definition no_values :: compose_values where
  "no_values = \<lparr>cv_to = None, cv_cc = None, cv_bcc = None, cv_subject = None, cv_text = None, cv_html = None, cv_scheduled = None\<rparr>"

definition createEmptyMailComposeForm ::
  "js_env \<Rightarrow> (jstring \<Rightarrow> jstring option) \<Rightarrow> html_env option \<Rightarrow> (jstring \<Rightarrow> jsval) \<Rightarrow> rich_error + compose_form" where
  "createEmptyMailComposeForm E U H N = createMailComposeForm E U H N no_values"

definition isMailComposeDirty :: "js_env \<Rightarrow> compose_form \<Rightarrow> nat \<Rightarrow> bool" where
  "isMailComposeDirty E form attachmentCount \<longleftrightarrow>
     cf_to form \<noteq> [] \<or> cf_cc form \<noteq> [] \<or> cf_bcc form \<noteq> [] \<or> cf_subject form \<noteq> [] \<or> cf_scheduled form \<noteq> []
     \<or> attachmentCount \<noteq> 0 \<or> env_stringify E (cf_document form) \<noteq> env_stringify E (compose_document None (\<lambda>s. JNaN) no_values)"

section \<open>Lemmas on documents from text\<close>

lemma own_prop_typed: "own_prop (typed t ps) k =
    (if k = lit ''type'' then JStr (lit t) else case map_of (map (\<lambda>(j, v). (lit j, v)) ps) k of None \<Rightarrow> JUndef | Some v \<Rightarrow> v)"
  by (simp add: typed_def)

lemma node_type_typed [simp]: "node_type (typed t ps) = lit t"
  by (simp add: node_type_def own_prop_typed)

lemma is_record_obj [simp]: "is_record (JObj ps)"
  by (simp add: is_record_def)

lemma is_record_typed [simp]: "is_record (typed t ps)"
  by (simp add: typed_def is_record_def)

lemma obj_entries_typed [simp]: "obj_entries (typed t ps) = (lit ''type'', JStr (lit t)) # map (\<lambda>(k, v). (lit k, v)) ps"
  by (simp add: typed_def)

lemma check_type_typed:
  "check_type (typed t ps) p = Inr () \<longleftrightarrow> lit t \<in> set allowedNodeTypes
     \<and> (case p of None \<Rightarrow> True | Some q \<Rightarrow> (case map_of allowedChildrenByParent q of None \<Rightarrow> False | Some ts \<Rightarrow> lit t \<in> set ts))
     \<and> list_all (\<lambda>(k, v). k \<in> {''type'', ''attrs'', ''content'', ''marks'', ''text''} \<or> nullish v) ps"
  by (auto simp: check_type_def bind_r_ok own_prop_typed assertOnlyKeys_def list_all_iff split: option.splits)

lemma nullish_eqs [simp]: "nullish JUndef" "\<not> nullish (JStr s)" "\<not> nullish (JObj ps)" "\<not> nullish (JArr xs)" "\<not> nullish (JNum q)"
  by (simp_all add: nullish_def)

lemma readAttrs_none: "own_prop node (lit ''attrs'') = JUndef \<Longrightarrow> readAttrs node = Inr (JObj [])"
  by (simp add: readAttrs_def)

lemma readAttrs_object: "own_prop node (lit ''attrs'') = JObj ps \<Longrightarrow> readAttrs node = Inr (JObj ps)"
  by (simp add: readAttrs_def is_record_def)

lemma text_valid: "validateNode E U (typed ''text'' [(''text'', JStr l)]) ids (Some (lit ''paragraph'')) = Inr ids"
  by (subst validateNode.simps)
    (simp add: bind_r_ok check_type_typed allowedNodeTypes_def allowedChildrenByParent_def validate_text_def own_prop_typed)

lemma line_paragraph_valid: "validateNode E U (line_paragraph l) ids (Some (lit ''doc'')) = Inr ids"
proof -
  have a: "readAttrs (line_paragraph l) = Inr (JObj [])"
    by (rule readAttrs_none) (simp add: line_paragraph_def own_prop_typed)
  have n: "node_type (line_paragraph l) = lit ''paragraph''" by (simp add: line_paragraph_def)
  have c: "check_type (line_paragraph l) (Some (lit ''doc'')) = Inr ()"
    by (simp add: line_paragraph_def check_type_typed allowedNodeTypes_def allowedChildrenByParent_def blockNodeTypes_def)
  have v: "validate_attrs E (lit ''paragraph'') (JObj []) ids = Inr ids"
    by (simp add: validate_attrs_def assertOnlyKeys_def check_alignment_def one_of_def)
  have k: "check_content (line_paragraph l) = Inr ()"
    by (simp add: check_content_def bind_r_ok line_paragraph_def own_prop_typed nonEmptyContainerTypes_def)
  have f: "fold_r (\<lambda>ids child. validateNode E U child ids (Some (lit ''paragraph''))) ids (node_content (line_paragraph l)) = Inr ids"
    by (simp add: line_paragraph_def node_content_def own_prop_typed text_valid)
  show ?thesis
    by (subst validateNode.simps) (simp add: n c a v k f is_leaf_def, simp add: line_paragraph_def own_prop_typed)
qed

lemma cid_node_valid:
  assumes "contentIdPattern (fst im)" "fst im \<notin> set ids"
  shows "validateNode E U (cid_node im) ids (Some (lit ''doc'')) = Inr (ids @ [fst im])"
proof -
  define ps where "ps = [(lit ''contentId'', JStr (fst im)), (lit ''src'', JStr (lit ''cid:'' @ fst im)),
        (lit ''alt'', JStr (if snd im \<noteq> [] then snd im else default_image_alt))]"
  have i: "cid_node im = typed ''image'' [(''attrs'', JObj ps)]" by (simp add: cid_node_def ps_def)
  have a: "readAttrs (cid_node im) = Inr (JObj ps)"
    by (rule readAttrs_object) (simp add: i own_prop_typed)
  have n: "node_type (cid_node im) = lit ''image''" by (simp add: i)
  have c: "check_type (cid_node im) (Some (lit ''doc'')) = Inr ()"
    by (simp add: i check_type_typed allowedNodeTypes_def allowedChildrenByParent_def blockNodeTypes_def)
  have v: "validate_attrs E (lit ''image'') (JObj ps) ids = Inr (ids @ [fst im])"
    using assms by (simp add: validate_attrs_def validate_image_def assertOnlyKeys_def ps_def Let_def readPositiveInteger_def)
  show ?thesis
    by (subst validateNode.simps) (simp add: n c a v is_leaf_def, simp add: i own_prop_typed)
qed

lemma line_paragraph_plain: "renderPlain E (line_paragraph l) = l"
proof -
  have "renderPlain E (typed ''text'' [(''text'', JStr l)]) = l"
    by (subst renderPlain.simps) (simp add: node_text_def own_prop_typed)
  then show ?thesis
    by (subst renderPlain.simps) (simp add: line_paragraph_def node_content_def own_prop_typed Let_def)
qed

lemma unify_id: "13 \<notin> set s \<Longrightarrow> unify_newlines s = s"
  by (induction s rule: unify_newlines.induct) auto

lemma normalize_unified: "normalizePlainText (unify_newlines s) = normalizePlainText s"
  by (simp add: normalizePlainText_def unify_id unify_no_cr)

lemma validate_lines:
  "fold_r (\<lambda>ids child. validateNode E U child ids (Some (lit ''doc''))) ids (map line_paragraph ls @ ns)
   = fold_r (\<lambda>ids child. validateNode E U child ids (Some (lit ''doc''))) ids ns"
  by (induction ls) (simp_all add: line_paragraph_valid)

lemma validate_images:
  "list_all (contentIdPattern \<circ> fst) ims \<Longrightarrow> distinct (ids @ map fst ims) \<Longrightarrow>
   fold_r (\<lambda>ids child. validateNode E U child ids (Some (lit ''doc''))) ids (map cid_node ims) = Inr (ids @ map fst ims)"
proof (induction ims arbitrary: ids)
  case (Cons im ims)
  then show ?case using cid_node_valid [of im ids E U] Cons.IH [of "ids @ [fst im]"] by simp
qed simp

lemma text_lines_ne: "js_split c s \<noteq> []"
  by (cases s) (simp_all split: list.splits)

lemma created_props:
  "own_prop (createMailDocument t ims) (lit ''content'') = JArr (map line_paragraph (js_split 10 (unify_newlines t)) @ map cid_node ims)"
  "own_prop (createMailDocument t ims) (lit ''attrs'') = JUndef" "own_prop (createMailDocument t ims) (lit ''text'') = JUndef"
  "own_prop (createMailDocument t ims) (lit ''marks'') = JUndef" "node_type (createMailDocument t ims) = lit ''doc''"
  by (simp_all add: createMailDocument_def own_prop_typed)

lemma created_valid:
  assumes "list_all (contentIdPattern \<circ> fst) ims" "distinct (map fst ims)"
  shows "validateDocument E U (createMailDocument t ims) = Inr (map fst ims)"
proof -
  let ?d = "createMailDocument t ims"
  have a: "readAttrs ?d = Inr (JObj [])" by (rule readAttrs_none) (simp add: created_props)
  have c: "check_type ?d None = Inr ()" by (simp add: createMailDocument_def check_type_typed allowedNodeTypes_def)
  have v: "validate_attrs E (lit ''doc'') (JObj []) [] = Inr []"
    by (simp add: validate_attrs_def assertOnlyKeys_def)
  have k: "check_content ?d = Inr ()"
    by (simp add: check_content_def bind_r_ok created_props node_content_def text_lines_ne)
  have f: "fold_r (\<lambda>ids child. validateNode E U child ids (Some (lit ''doc''))) [] (node_content ?d) = Inr (map fst ims)"
    using validate_images [of ims "[]"] assms by (simp add: node_content_def created_props validate_lines)
  have "validateNode E U ?d [] None = Inr (map fst ims)"
    by (subst validateNode.simps) (simp add: c a v k f is_leaf_def created_props)
  then show ?thesis by (simp add: validateDocument_node created_props)
qed

lemma created_plain: "renderPlain E (createMailDocument t []) = unify_newlines t"
  by (subst renderPlain.simps)
    (simp add: created_props node_content_def comp_def line_paragraph_plain js_split_join)

text \<open>C28. Whatever text and images it is made from, the document of a new mail is well formed: the mail schema accepts it if the
  content ids of the images are proper and each there once, and finds exactly these.\<close>

theorem created_document_well_formed:
  assumes "list_all (contentIdPattern \<circ> fst) ims" "distinct (map fst ims)"
  shows "validateDocument E U (createMailDocument t ims) = Inr (map fst ims)"
  by (rule created_valid [OF assms])

lemma created_document_well_formed_witness:
  "validateDocument (sample_env JNull) (\<lambda>s. None) (createMailDocument (lit ''a'' @ [13, 10]) [(lit ''1@a.b'', [])]) = Inr [lit ''1@a.b'']"
proof -
  have "list_all (contentIdPattern \<circ> fst) [(lit ''1@a.b'', [])]" by code_simp
  moreover have "distinct (map fst [(lit ''1@a.b'', [])])" by simp
  ultimately show ?thesis
    using created_document_well_formed [of "[(lit ''1@a.b'', [])]" "sample_env JNull" "\<lambda>s. None" "lit ''a'' @ [13, 10]"] by simp
qed

text \<open>A form opened with a text and no HTML shows that text: opening it never fails, and what is sent as plain text is the
  text it was opened with, in normal form, with no images.\<close>

theorem compose_form_shows_text:
  assumes "or_empty (cv_html v) = []"
  shows "\<exists>f. createMailComposeForm E U H N v = Inr f \<and> cf_text f = normalizePlainText (or_empty (cv_text v))
     \<and> cf_to f = or_empty (cv_to v) \<and> cf_cc f = or_empty (cv_cc v) \<and> cf_subject f = or_empty (cv_subject v)
     \<and> validateDocument E U (cf_document f) = Inr []"
proof -
  let ?d = "createMailDocument (or_empty (cv_text v)) []"
  have c: "compose_document H N v = ?d" using assms by (simp add: compose_document_def)
  have d: "validateDocument E U ?d = Inr []" using created_valid [of "[]"] by simp
  then obtain html where "renderHtml E ?d = Inr html"
    using renderHtml_safe unfolding validateDocument_node by blast
  with d show ?thesis
    by (simp add: createMailComposeForm_def c projectMailDocument_def created_plain normalize_unified)
qed

lemma compose_form_shows_text_witness:
  "\<exists>f. createMailComposeForm (sample_env JNull) (\<lambda>s. None) None (\<lambda>s. JNaN) (no_values\<lparr>cv_text := Some (lit ''a'')\<rparr>) = Inr f
     \<and> cf_text f = normalizePlainText (lit ''a'')"
proof -
  have "or_empty (cv_html (no_values\<lparr>cv_text := Some (lit ''a'')\<rparr>)) = []" by (simp add: or_empty_def no_values_def)
  from compose_form_shows_text [OF this, of "sample_env JNull" "\<lambda>s. None" None "\<lambda>s. JNaN"]
  show ?thesis by (auto simp: or_empty_def)
qed

section \<open>Mails whose HTML cannot be edited\<close>

text \<open>The HTML of a received mail is read into a document without regard to the mail schema. A style the schema does not know, as a
  colour given by its name, makes the form raise an error: such a mail cannot be forwarded.\<close>

definition coloured_mail :: "dom list" where
  "coloured_mail =
     [Element (lit ''p'') [] [Element (lit ''span'') [(lit ''style'', lit ''color:red'')] [Text_node (lit ''x'')]]]"

definition coloured_html :: html_env where
  "coloured_html = \<lparr>parse_body = \<lambda>s. coloured_mail, serialize = \<lambda>ns. []\<rparr>"

definition coloured_text :: jsval where
  "coloured_text = typed ''text'' [(''text'', JStr (lit ''x'')), (''marks'', JArr [typed ''textStyle'' [(''attrs'', JObj
     [(lit ''fontFamily'', JUndef), (lit ''fontSize'', JUndef), (lit ''lineHeight'', JUndef), (lit ''color'', JStr (lit ''red''))])]])]"

lemma coloured_style: "readStyle [(lit ''style'', lit ''color:red'')] k = (if k = ''color'' then Some (lit ''red'') else None)"
proof -
  have "js_split 59 (lit ''color:red'') = [lit ''color:red'']" "js_split 58 (lit ''color:red'') = [lit ''color'', lit ''red'']"
    by (simp_all add: lit_def)
  moreover have "js_trim (lit ''color'') = lit ''color''" "js_trim (lit ''red'') = lit ''red''"
    by (intro js_trim_no_ws; simp add: lit_def js_ws_def)+
  ultimately show ?thesis by (simp add: readStyle_def js_attr_def map_filter_simps)
qed

lemma no_style: "readStyle [] k = None"
  by (simp add: readStyle_def js_attr_def map_filter_simps)

lemma coloured_blocks: "concat (map (blocks N) coloured_mail) = [typed ''paragraph'' [(''attrs'', JUndef), (''content'', JArr [coloured_text])]]"
  by (simp add: coloured_mail_def coloured_text_def block_of_def marksFor_def element_mark_def js_attr_def Let_def
      style_set_def style_value_def coloured_style no_style align_attrs_def align_attr_def)

lemma coloured_text_refused: "validateNode E U coloured_text ids (Some (lit ''paragraph'')) = Inl Color_Unsafe"
proof -
  define ps where "ps = [(lit ''fontFamily'', JUndef), (lit ''fontSize'', JUndef), (lit ''lineHeight'', JUndef), (lit ''color'', JStr (lit ''red''))]"
  have m: "validateMark E U (typed ''textStyle'' [(''attrs'', JObj ps)]) = Inl Color_Unsafe"
    by (simp add: validateMark_def own_prop_typed mark_attrs_def allowedMarkTypes_def assertOnlyKeys_def
        one_of_def readSafeColor_def colorPattern_def ps_def Let_def)
  have t: "coloured_text = typed ''text'' [(''text'', JStr (lit ''x'')), (''marks'', JArr [typed ''textStyle'' [(''attrs'', JObj ps)]])]"
    by (simp add: coloured_text_def ps_def)
  have c: "check_type coloured_text (Some (lit ''paragraph'')) = Inr ()"
    by (simp add: t check_type_typed allowedNodeTypes_def allowedChildrenByParent_def)
  show ?thesis
    by (subst validateNode.simps) (simp add: c, simp add: t validate_text_def own_prop_typed validate_marks_def m)
qed

lemma coloured_paragraph_refused:
  "validateNode E U (typed ''paragraph'' [(''attrs'', JUndef), (''content'', JArr [coloured_text])]) ids (Some (lit ''doc'')) = Inl Color_Unsafe"
  (is "validateNode E U ?p ids _ = _")
proof -
  have "check_type ?p (Some (lit ''doc'')) = Inr ()"
    by (simp add: check_type_typed allowedNodeTypes_def allowedChildrenByParent_def blockNodeTypes_def)
  moreover have "readAttrs ?p = Inr (JObj [])" by (rule readAttrs_none) (simp add: own_prop_typed)
  moreover have "validate_attrs E (lit ''paragraph'') (JObj []) ids = Inr ids"
    by (simp add: validate_attrs_def assertOnlyKeys_def check_alignment_def one_of_def)
  moreover have "check_content ?p = Inr ()"
    by (simp add: check_content_def bind_r_ok own_prop_typed nonEmptyContainerTypes_def)
  ultimately show ?thesis
    by (subst validateNode.simps) (simp add: is_leaf_def own_prop_typed node_content_def coloured_text_refused)
qed

lemma coloured_document_refused:
  "validateDocument E U
     (typed ''doc'' [(''content'', JArr [typed ''paragraph'' [(''attrs'', JUndef), (''content'', JArr [coloured_text])]])]) = Inl Color_Unsafe"
  (is "validateDocument E U ?d = _")
proof -
  have "check_type ?d None = Inr ()" by (simp add: check_type_typed allowedNodeTypes_def)
  moreover have "readAttrs ?d = Inr (JObj [])" by (rule readAttrs_none) (simp add: own_prop_typed)
  moreover have "validate_attrs E (lit ''doc'') (JObj []) [] = Inr []" by (simp add: validate_attrs_def assertOnlyKeys_def)
  moreover have "check_content ?d = Inr ()" by (simp add: check_content_def bind_r_ok own_prop_typed node_content_def)
  ultimately have "validateNode E U ?d [] None = Inl Color_Unsafe"
    by (subst validateNode.simps) (simp add: is_leaf_def own_prop_typed node_content_def coloured_paragraph_refused)
  then show ?thesis by (simp add: validateDocument_def)
qed

lemma coloured_mail_refused:
  "createMailComposeForm (sample_env JNull) (\<lambda>s. None) (Some coloured_html) (\<lambda>s. JNaN) (no_values\<lparr>cv_html := Some (lit ''<p>'')\<rparr>)
   = Inl Color_Unsafe"
proof -
  have "compose_document (Some coloured_html) (\<lambda>s. JNaN) (no_values\<lparr>cv_html := Some (lit ''<p>'')\<rparr>)
      = typed ''doc'' [(''content'', JArr [typed ''paragraph'' [(''attrs'', JUndef), (''content'', JArr [coloured_text])]])]"
    by (simp add: compose_document_def parseMailHtmlDocument_def coloured_html_def coloured_blocks or_empty_def del: concat_map_singleton)
  then show ?thesis by (simp add: createMailComposeForm_def projectMailDocument_def coloured_document_refused)
qed

text \<open>A text that stands next to an element outside the paragraphs is dropped.\<close>

lemma loose_text_dropped:
  "concat (map (blocks (\<lambda>s. JNaN)) [Text_node (lit ''Hello''), Element (lit ''p'') [] [Text_node (lit ''x'')]])
   = blocks (\<lambda>s. JNaN) (Element (lit ''p'') [] [Text_node (lit ''x'')])"
  by simp

end

