(* ===== verification/Outgoing_Translation.thy ===== *)
theory Outgoing_Translation
  imports Mail_Document
begin

text \<open>
  The translation of a mail that is being written (\<open>user-web/src/mailOutgoingTranslation.ts\<close>, and its use in
  \<open>user-web/src/App.tsx\<close>): the plan of what is to be translated, the preview made from the answer of the service, and
  its application to the mail. The translation service is a parameter: its answer is a value.
\<close>

section \<open>Languages\<close>

definition OUTGOING_TRANSLATION_LOCALES :: "jstring list" where
  "OUTGOING_TRANSLATION_LOCALES = map lit [''ko'', ''en'', ''ja'', ''zh-cn'', ''es'', ''fr'', ''de'']"

definition LOCALE_ALIASES :: "(jstring \<times> jstring) list" where
  "LOCALE_ALIASES = map (\<lambda>(a, b). (lit a, lit b))
     [(''ko-kr'', ''ko''), (''en-us'', ''en''), (''en-gb'', ''en''), (''ja-jp'', ''ja''), (''zh-hans'', ''zh-cn'')]"

definition normalizeOutgoingTranslationLocale :: "js_env \<Rightarrow> jstring option \<Rightarrow> jstring" where
  \<comment> \<open>an inherited name of the alias table is a function, which is no supported locale\<close>
  "normalizeOutgoingTranslationLocale E v =
     (let normalized = (case v of None \<Rightarrow> [] | Some s \<Rightarrow> js_lower E (js_trim s))
      in case map_of LOCALE_ALIASES normalized of
           Some a \<Rightarrow> if a \<in> set OUTGOING_TRANSLATION_LOCALES then a else lit ''en''
         | None \<Rightarrow> if normalized \<in> set object_prototype_names then lit ''en''
                   else if normalized \<in> set OUTGOING_TRANSLATION_LOCALES then normalized else lit ''en'')"

section \<open>Requests\<close>

record translation_text =
  tt_text :: jstring
  tt_source :: jstring
  tt_target :: jstring

definition auto_text :: "jstring \<Rightarrow> jstring \<Rightarrow> translation_text" where
  "auto_text target s = \<lparr>tt_text = s, tt_source = lit ''auto'', tt_target = target\<rparr>"

definition buildOutgoingTranslationTexts :: "js_env \<Rightarrow> jstring \<Rightarrow> jstring \<Rightarrow> jstring \<Rightarrow> translation_text list" where
  "buildOutgoingTranslationTexts E subject body targetLocale =
     map (auto_text (normalizeOutgoingTranslationLocale E (Some targetLocale)))
       (filter (\<lambda>s. s \<noteq> []) [js_trim subject, js_trim body])"

definition applyOutgoingTranslationPreview :: "compose_form \<Rightarrow> jstring \<times> jstring \<Rightarrow> compose_form" where
  "applyOutgoingTranslationPreview current preview = current\<lparr>cf_subject := fst preview, cf_text := snd preview\<rparr>"

section \<open>Rich mails\<close>

datatype translation_error =
    Empty_Segment
  | Response_Mismatch
  | Missing_Item
  | Source_Changed
  | Rich rich_error

record rich_plan =
  rp_texts :: "translation_text list"
  rp_subject_included :: bool
  rp_segments :: "segment list"
  rp_subject :: jstring
  rp_key :: "jstring option"

record translated_item =
  ti_original :: jstring
  ti_translated :: jstring
  ti_source :: jstring

record rich_preview =
  rv_subject :: jstring
  rv_segments :: "segment list"
  rv_source_subject :: jstring
  rv_source_key :: "jstring option"

definition rich_result :: "rich_error + 'a \<Rightarrow> translation_error + 'a" where
  "rich_result r = (case r of Inl e \<Rightarrow> Inl (Rich e) | Inr x \<Rightarrow> Inr x)"

definition createOutgoingRichTranslationPlan ::
  "js_env \<Rightarrow> (jstring \<Rightarrow> jstring option) \<Rightarrow> jstring \<Rightarrow> jsval \<Rightarrow> jstring \<Rightarrow> translation_error + rich_plan" where
  \<comment> \<open>with \<open>extractTranslationSegments\<close>, as the application calls it\<close>
  "createOutgoingRichTranslationPlan E U subject doc targetLocale =
     bind_r (rich_result (extractTranslationSegments E U doc)) (\<lambda>(copy, segments).
     bind_r (check_r (list_all (\<lambda>s. js_trim (snd s) \<noteq> []) segments) Empty_Segment) (\<lambda>_.
       Inr \<lparr>rp_texts = map (auto_text (normalizeOutgoingTranslationLocale E (Some targetLocale)))
                (filter (\<lambda>s. s \<noteq> []) (js_trim subject # map snd segments)),
            rp_subject_included = (js_trim subject \<noteq> []), rp_segments = segments,
            rp_subject = subject, rp_key = env_stringify E doc\<rparr>))"

definition item_matches :: "translated_item \<Rightarrow> translation_text \<Rightarrow> bool" where
  "item_matches item t \<longleftrightarrow>
     ti_source item \<noteq> lit ''fallback'' \<and> ti_original item = tt_text t \<and> js_trim (ti_translated item) \<noteq> []"

definition createOutgoingRichTranslationPreview ::
  "rich_plan \<Rightarrow> bool \<Rightarrow> translated_item list \<Rightarrow> translation_error + rich_preview" where
  \<comment> \<open>\<open>Missing_Item\<close> where the code reads past the items, which raises\<close>
  "createOutgoingRichTranslationPreview plan fallbackUsed items =
     bind_r (check_r (\<not> fallbackUsed \<and> length items = length (rp_texts plan)
               \<and> list_all (\<lambda>(item, t). item_matches item t) (zip items (rp_texts plan))) Response_Mismatch) (\<lambda>_.
     bind_r (check_r ((if rp_subject_included plan then 1 else 0) + length (rp_segments plan) \<le> length items) Missing_Item) (\<lambda>_.
       let texts = map ti_translated items; rest = (if rp_subject_included plan then tl texts else texts)
       in Inr \<lparr>rv_subject = (if rp_subject_included plan then hd texts else rp_subject plan),
            rv_segments = zip (map fst (rp_segments plan)) rest,
            rv_source_subject = rp_subject plan, rv_source_key = rp_key plan\<rparr>))"

definition applyOutgoingRichTranslationPreview ::
  "js_env \<Rightarrow> (jstring \<Rightarrow> jstring option) \<Rightarrow> compose_form \<Rightarrow> rich_preview \<Rightarrow> translation_error + compose_form" where
  \<comment> \<open>with \<open>applyTranslatedSegments\<close> and \<open>projectMailDocument\<close>; the projection's content ids go into no field of the form\<close>
  "applyOutgoingRichTranslationPreview E U current preview =
     bind_r (check_r (cf_subject current = rv_source_subject preview
               \<and> env_stringify E (cf_document current) = rv_source_key preview) Source_Changed) (\<lambda>_.
     bind_r (rich_result (applyTranslatedSegments E U (cf_document current) (JArr (map segment_value (rv_segments preview))))) (\<lambda>doc.
     bind_r (rich_result (projectMailDocument E U doc)) (\<lambda>pr.
       Inr (current\<lparr>cf_subject := rv_subject preview, cf_document := doc, cf_html := bodyHtml pr, cf_text := bodyText pr\<rparr>))))"

section \<open>The translation panel\<close>

datatype translation_kind = Outgoing | Incoming

record shown_preview =
  sp_subject :: jstring
  sp_body :: jstring
  sp_rich :: "rich_preview option"

record translation_view =
  tv_open :: bool
  tv_preview :: "shown_preview option"
  tv_kind :: translation_kind
  tv_loading :: bool
  tv_failed :: bool
  tv_form :: compose_form

definition start_translation ::
  "js_env \<Rightarrow> (jstring \<Rightarrow> jstring option) \<Rightarrow> jstring \<Rightarrow> translation_view \<Rightarrow> translation_view \<times> (rich_plan \<times> jsval) option" where
  \<comment> \<open>\<open>translateOutgoingMail\<close> up to the request; the plan that is sent, with the document of that moment\<close>
  "start_translation E U target v =
     (let v1 = v\<lparr>tv_open := True, tv_preview := None, tv_kind := Outgoing\<rparr>
      in case createOutgoingRichTranslationPlan E U (cf_subject (tv_form v)) (cf_document (tv_form v)) target of
           Inl e \<Rightarrow> (v1\<lparr>tv_failed := True\<rparr>, None)
         | Inr plan \<Rightarrow>
             if rp_texts plan = [] then (v1\<lparr>tv_failed := True\<rparr>, None)
             else (v1\<lparr>tv_loading := True, tv_failed := False\<rparr>, Some (plan, cf_document (tv_form v))))"

definition preview_shown ::
  "js_env \<Rightarrow> (jstring \<Rightarrow> jstring option) \<Rightarrow> rich_plan \<Rightarrow> jsval \<Rightarrow> bool \<Rightarrow> translated_item list \<Rightarrow> translation_error + shown_preview" where
  "preview_shown E U plan doc fallbackUsed items =
     bind_r (createOutgoingRichTranslationPreview plan fallbackUsed items) (\<lambda>preview.
     bind_r (rich_result (applyTranslatedSegments E U doc (JArr (map segment_value (rv_segments preview))))) (\<lambda>d.
     bind_r (rich_result (projectMailDocument E U d)) (\<lambda>pr.
       Inr \<lparr>sp_subject = rv_subject preview, sp_body = bodyText pr, sp_rich = Some preview\<rparr>)))"

definition finish_translation ::
  "js_env \<Rightarrow> (jstring \<Rightarrow> jstring option) \<Rightarrow> rich_plan \<times> jsval \<Rightarrow> (bool \<times> translated_item list) option \<Rightarrow> translation_view \<Rightarrow> translation_view" where
  \<comment> \<open>the rest, with the answer of the service or \<open>None\<close> where the request fails\<close>
  "finish_translation E U sent answer v =
     (case answer of
        None \<Rightarrow> v\<lparr>tv_failed := True, tv_loading := False\<rparr>
      | Some (fallbackUsed, items) \<Rightarrow>
          (case preview_shown E U (fst sent) (snd sent) fallbackUsed items of
             Inl e \<Rightarrow> v\<lparr>tv_failed := True, tv_loading := False\<rparr>
           | Inr p \<Rightarrow> v\<lparr>tv_preview := Some p, tv_loading := False\<rparr>))"

definition applyOutgoingTranslation ::
  "js_env \<Rightarrow> (jstring \<Rightarrow> jstring option) \<Rightarrow> translation_view \<Rightarrow> translation_view" where
  "applyOutgoingTranslation E U v =
     (case tv_preview v of
        None \<Rightarrow> v
      | Some p \<Rightarrow>
          (case sp_rich p of
             None \<Rightarrow> v
           | Some preview \<Rightarrow>
               if tv_kind v \<noteq> Outgoing then v
               else (case applyOutgoingRichTranslationPreview E U (tv_form v) preview of
                       Inl e \<Rightarrow> v\<lparr>tv_failed := True\<rparr>
                     | Inr next \<Rightarrow> v\<lparr>tv_form := next, tv_open := False, tv_preview := None, tv_failed := False\<rparr>)))"

definition closeOutgoingTranslation :: "translation_view \<Rightarrow> translation_view" where
  "closeOutgoingTranslation v =
     (let v1 = v\<lparr>tv_open := False, tv_preview := None\<rparr> in if tv_kind v = Outgoing then v1\<lparr>tv_failed := False\<rparr> else v1)"

section \<open>Lemmas\<close>

lemma locale_supported: "normalizeOutgoingTranslationLocale E v \<in> set OUTGOING_TRANSLATION_LOCALES"
proof -
  have "lit ''en'' \<in> set OUTGOING_TRANSLATION_LOCALES" by (simp add: OUTGOING_TRANSLATION_LOCALES_def)
  then show ?thesis by (simp add: normalizeOutgoingTranslationLocale_def Let_def split: option.split)
qed

lemma projection_exists: "validateDocument E U doc = Inr ids \<Longrightarrow> \<exists>pr. projectMailDocument E U doc = Inr pr"
proof -
  assume v: "validateDocument E U doc = Inr ids"
  then obtain html where "renderHtml E doc = Inr html" using renderHtml_safe unfolding validateDocument_node by blast
  with v show ?thesis by (simp add: projectMailDocument_def)
qed

lemma check_segments_names:
  assumes "map fst es = map fst fs"
  shows "check_segments items es = check_segments items fs"
proof -
  have "fold_r (\<lambda>seen (item, e). bind_r (P item) (\<lambda>_. bind_r (Q seen item (fst e)) (\<lambda>_. Inr (R seen item)))) s (zip items es)
      = fold_r (\<lambda>seen (item, e). bind_r (P item) (\<lambda>_. bind_r (Q seen item (fst e)) (\<lambda>_. Inr (R seen item)))) s (zip items fs)"
    for P :: "jsval \<Rightarrow> rich_error + unit" and Q :: "jstring list \<Rightarrow> jsval \<Rightarrow> jstring \<Rightarrow> rich_error + unit" and R s
    using assms
  proof (induction items arbitrary: es fs s)
    case (Cons i items)
    show ?case
    proof (cases es)
      case Nil
      then show ?thesis using Cons.prems by simp
    next
      case e: (Cons e es')
      then obtain f fs' where fs: "fs = f # fs'" "fst e = fst f" "map fst es' = map fst fs'" using Cons.prems by (cases fs) auto
      have "bind_r x (\<lambda>t. fold_r (\<lambda>seen (item, e). bind_r (P item) (\<lambda>_. bind_r (Q seen item (fst e)) (\<lambda>_. Inr (R seen item)))) t (zip items es'))
        = bind_r x (\<lambda>t. fold_r (\<lambda>seen (item, e). bind_r (P item) (\<lambda>_. bind_r (Q seen item (fst e)) (\<lambda>_. Inr (R seen item)))) t (zip items fs'))"
        for x using Cons.IH [OF fs(3)] by (cases x) simp_all
      then show ?thesis unfolding e fs(1) by (simp add: fs(2))
    qed
  qed simp
  from this [of "\<lambda>item. check_r (is_record item \<and> is_str (own_prop item (lit ''id'')) \<and> is_str (own_prop item (lit ''text''))) Segment_Invalid"
      "\<lambda>seen item i. check_r (str_of (own_prop item (lit ''id'')) \<notin> set seen \<and> str_of (own_prop item (lit ''id'')) = i) Segment_Order"
      "\<lambda>seen item. str_of (own_prop item (lit ''id'')) # seen" "[]"]
  show ?thesis unfolding check_segments_def .
qed

lemma rich_result_ok [simp]: "rich_result r = Inr x \<longleftrightarrow> r = Inr x"
  by (cases r) (simp_all add: rich_result_def)

definition subject_items :: "jstring \<Rightarrow> translated_item list \<Rightarrow> translated_item list" where
  \<comment> \<open>the items that belong to the texts of the body\<close>
  "subject_items subject items = (if js_trim subject \<noteq> [] then tl items else items)"

lemma plan_facts:
  assumes "createOutgoingRichTranslationPlan E U subject doc target = Inr plan"
  shows "(\<exists>ids. validateDocument E U doc = Inr ids) \<and> rp_segments plan = collectTextNodes doc []
    \<and> map tt_text (rp_texts plan) = (if js_trim subject \<noteq> [] then [js_trim subject] else []) @ map snd (collectTextNodes doc [])
    \<and> rp_subject_included plan = (js_trim subject \<noteq> []) \<and> rp_subject plan = subject \<and> rp_key plan = env_stringify E doc"
proof -
  obtain ids where v: "validateDocument E U doc = Inr ids"
    using assms by (cases "validateDocument E U doc") (auto simp: createOutgoingRichTranslationPlan_def extractTranslationSegments_def
        rich_result_def)
  have e: "rich_result (extractTranslationSegments E U doc) = Inr (doc, collectTextNodes doc [])"
    by (simp add: extractTranslationSegments_def v)
  have ne: "list_all (\<lambda>s. js_trim (snd s) \<noteq> []) (collectTextNodes doc [])"
    using assms by (simp add: createOutgoingRichTranslationPlan_def e bind_r_ok)
  have "filter (\<lambda>s. s \<noteq> []) (map snd (collectTextNodes doc [])) = map snd (collectTextNodes doc [])"
    using ne by (intro filter_True) (auto simp: list_all_iff js_trim_def)
  then show ?thesis
    using assms v by (auto simp: createOutgoingRichTranslationPlan_def e bind_r_ok auto_text_def comp_def)
qed

lemma matched_texts:
  "length items = length ts \<Longrightarrow> list_all (\<lambda>(item, t). item_matches item t) (zip items ts) \<Longrightarrow>
   map ti_original items = map tt_text ts"
  by (induction items ts rule: list_induct2) (simp_all add: item_matches_def)

lemma preview_facts:
  assumes "createOutgoingRichTranslationPreview plan fb items = Inr preview"
  shows "map ti_original items = map tt_text (rp_texts plan)
    \<and> rv_subject preview = (if rp_subject_included plan then hd (map ti_translated items) else rp_subject plan)
    \<and> rv_segments preview = zip (map fst (rp_segments plan)) (map ti_translated (if rp_subject_included plan then tl items else items))
    \<and> rv_source_subject preview = rp_subject plan \<and> rv_source_key preview = rp_key plan"
proof -
  have "length items = length (rp_texts plan)" and "list_all (\<lambda>(item, t). item_matches item t) (zip items (rp_texts plan))"
    using assms by (auto simp: createOutgoingRichTranslationPreview_def bind_r_ok)
  then show ?thesis
    using assms by (auto simp: createOutgoingRichTranslationPreview_def bind_r_ok Let_def map_tl dest: matched_texts)
qed

lemma applied_segments_ok:
  assumes v: "validateDocument E U doc = Inr ids" and f: "map fst segs = map fst (collectTextNodes doc [])"
  shows "\<exists>d. applyTranslatedSegments E U doc (JArr (map segment_value segs)) = Inr d
    \<and> extractTranslationSegments E U d = Inr (d, segs) \<and> validateDocument E U d = Inr ids"
proof -
  have l: "length segs = length (collectTextNodes doc [])" using f by (metis length_map)
  have d: "distinct (map fst segs)" unfolding f by (rule distinct_segment_ids)
  obtain seen where "check_segments (map segment_value segs) (collectTextNodes doc []) = Inr seen"
    using check_segments_same [OF d] check_segments_names [OF f] by metis
  then obtain d where a: "applyTranslatedSegments E U doc (JArr (map segment_value segs)) = Inr d"
    using v l by (simp add: applyTranslatedSegments_def Let_def)
  have "map item_pair (map segment_value segs) = segs" by (simp add: comp_def)
  with applied_facts [OF a] a v show ?thesis by auto
qed

text \<open>Two documents that are the same but for the texts of their text nodes: the same nodes in the same order, with the same
  attributes, marks and all other properties.\<close>

inductive same_but_texts :: "jsval \<Rightarrow> jsval \<Rightarrow> bool" where
  same_leaf: "same_but_texts n n"
| same_text: "\<lbrakk>node_type n = lit ''text''; \<forall>k. k \<noteq> lit ''text'' \<longrightarrow> own_prop m k = own_prop n k\<rbrakk> \<Longrightarrow> same_but_texts n m"
| same_branch: "\<lbrakk>node_type n \<noteq> lit ''text''; \<forall>k. k \<noteq> lit ''content'' \<longrightarrow> own_prop m k = own_prop n k;
    own_prop n (lit ''content'') = JArr cs; own_prop m (lit ''content'') = JArr ds; list_all2 same_but_texts cs ds\<rbrakk>
   \<Longrightarrow> same_but_texts n m"

lemma replaced_same: "same_but_texts node (replaceTextNodes node path R)"
proof (induction node path R rule: replaceTextNodes.induct)
  case (1 node path R)
  show ?case
  proof (cases "node_type node = lit ''text''")
    case True
    then show ?thesis by (intro same_text) (simp_all add: replace_text_other)
  next
    case t: False
    show ?thesis
    proof (cases "node_content node = []")
      case True
      then show ?thesis using t by (simp add: replace_node_eq same_leaf)
    next
      case False
      obtain ps where ps: "node = JObj ps"
        "replaceTextNodes node path R = set_prop (JObj ps) (lit ''content'') (JArr (replaced R path (node_content node)))"
        by (rule replace_branch [OF t False])
      have "own_prop node (lit ''content'') = JArr (node_content node)"
        using False by (cases "arr_of (own_prop node (lit ''content''))") (auto simp: node_content_def)
      moreover have "own_prop (replaceTextNodes node path R) (lit ''content'') = JArr (replaced R path (node_content node))"
        unfolding ps(2) own_prop_set_prop by simp
      moreover have "list_all2 same_but_texts (node_content node) (replaced R path (node_content node))"
        by (rule replaced_all2) (rule 1 [OF t False _ refl])
      ultimately show ?thesis using t replace_branch_other [OF t] by (intro same_branch) blast+
    qed
  qed
qed

lemma applied_same: "applyTranslatedSegments E U doc items = Inr d \<Longrightarrow> same_but_texts doc d"
  by (auto simp: applyTranslatedSegments_def bind_r_ok Let_def replaced_same split: option.splits)

text \<open>C29. A translation puts each translated text in the place of its original and changes nothing else: if a plan is made from a
  form and the answer of the service is accepted, then applying it to the unchanged form succeeds; the body then has
  the same nodes in the same order, with all their attributes, marks and other properties, but for the texts of the text
  nodes, and holds, at the places of the original texts and in their order, the translations of exactly these; the subject is
  translated if it is not blank, the other fields of the form are the same, and it shows the projection of the new body.\<close>

theorem translation_applied:
  assumes "createOutgoingRichTranslationPlan E U (cf_subject f) (cf_document f) target = Inr plan"
    and "createOutgoingRichTranslationPreview plan fb items = Inr preview"
  shows "\<exists>d pr places.
      applyOutgoingRichTranslationPreview E U f preview
        = Inr (f\<lparr>cf_subject := (if js_trim (cf_subject f) \<noteq> [] then hd (map ti_translated items) else cf_subject f),
                 cf_document := d, cf_html := bodyHtml pr, cf_text := bodyText pr\<rparr>)
      \<and> same_but_texts (cf_document f) d
      \<and> projectMailDocument E U d = Inr pr \<and> validateDocument E U d = validateDocument E U (cf_document f)
      \<and> extractTranslationSegments E U (cf_document f)
          = Inr (cf_document f, zip places (map ti_original (subject_items (cf_subject f) items)))
      \<and> extractTranslationSegments E U d = Inr (d, zip places (map ti_translated (subject_items (cf_subject f) items)))"
proof -
  let ?s = "collectTextNodes (cf_document f) []" and ?i = "subject_items (cf_subject f) items"
  obtain ids where v: "validateDocument E U (cf_document f) = Inr ids" using plan_facts [OF assms(1)] by blast
  have t: "map ti_original items = (if js_trim (cf_subject f) \<noteq> [] then [js_trim (cf_subject f)] else []) @ map snd ?s"
    using plan_facts [OF assms(1)] preview_facts [OF assms(2)] by simp
  have o: "map ti_original ?i = map snd ?s"
    using t by (cases items) (auto simp: subject_items_def split: if_splits)
  have l: "length ?i = length ?s" using arg_cong [OF o, of length] by simp
  have segs: "rv_segments preview = zip (map fst ?s) (map ti_translated ?i)"
    using plan_facts [OF assms(1)] preview_facts [OF assms(2)] by (simp add: subject_items_def)
  have "map fst (rv_segments preview) = map fst ?s" unfolding segs using l by simp
  from applied_segments_ok [OF v this] obtain d where d:
    "applyTranslatedSegments E U (cf_document f) (JArr (map segment_value (rv_segments preview))) = Inr d"
    "extractTranslationSegments E U d = Inr (d, rv_segments preview)" "validateDocument E U d = Inr ids" by blast
  obtain pr where pr: "projectMailDocument E U d = Inr pr" using projection_exists [OF d(3)] by blast
  have "extractTranslationSegments E U (cf_document f) = Inr (cf_document f, zip (map fst ?s) (map ti_original ?i))"
    by (simp add: extractTranslationSegments_def v o zip_map_fst_snd)
  moreover have "applyOutgoingRichTranslationPreview E U f preview
      = Inr (f\<lparr>cf_subject := (if js_trim (cf_subject f) \<noteq> [] then hd (map ti_translated items) else cf_subject f),
               cf_document := d, cf_html := bodyHtml pr, cf_text := bodyText pr\<rparr>)"
    using plan_facts [OF assms(1)] preview_facts [OF assms(2)] d(1) pr
    by (auto simp: applyOutgoingRichTranslationPreview_def rich_result_def)
  moreover have "same_but_texts (cf_document f) d" using applied_same [OF d(1)] .
  ultimately show ?thesis using pr d v segs by metis
qed

text \<open>C30. A translation never replaces what was written after it was asked for: whatever the user does to the form while the service
  answers and before the preview is applied, applying it leaves the form as it is unless its subject and body are those the
  translation was made from; the recipients are never changed.\<close>

theorem translation_keeps_edits:
  assumes "start_translation E U target v = (v1, Some sent)"
  shows "let v2 = finish_translation E U sent answer (v1\<lparr>tv_form := f\<rparr>);
             v3 = applyOutgoingTranslation E U (v2\<lparr>tv_form := g\<rparr>)
         in (tv_form v3 = g \<or> cf_subject g = cf_subject (tv_form v)
               \<and> env_stringify E (cf_document g) = env_stringify E (cf_document (tv_form v)))
            \<and> cf_to (tv_form v3) = cf_to g \<and> cf_cc (tv_form v3) = cf_cc g \<and> cf_bcc (tv_form v3) = cf_bcc g
            \<and> cf_scheduled (tv_form v3) = cf_scheduled g"
proof -
  obtain plan where plan: "createOutgoingRichTranslationPlan E U (cf_subject (tv_form v)) (cf_document (tv_form v)) target = Inr plan"
    and sent: "sent = (plan, cf_document (tv_form v))" and v1: "tv_preview v1 = None"
    using assms by (auto simp: start_translation_def Let_def split: sum.splits if_splits)
  define v2 where "v2 = finish_translation E U sent answer (v1\<lparr>tv_form := f\<rparr>)"
  have src: "cf_subject g = cf_subject (tv_form v) \<and> env_stringify E (cf_document g) = env_stringify E (cf_document (tv_form v))"
    if "tv_preview v2 = Some p" "sp_rich p = Some preview" "applyOutgoingRichTranslationPreview E U g preview = Inr next" for p preview "next"
  proof -
    have "\<exists>fb items. createOutgoingRichTranslationPreview plan fb items = Inr preview"
      using that(1,2) v1 unfolding v2_def sent finish_translation_def preview_shown_def
      by (auto simp: bind_r_ok split: option.splits sum.splits) blast+
    then show ?thesis
      using preview_facts plan_facts [OF plan] that(3) by (auto simp: applyOutgoingRichTranslationPreview_def bind_r_ok)
  qed
  show ?thesis
    using src unfolding v2_def [symmetric] Let_def
    by (auto simp: applyOutgoingTranslation_def applyOutgoingRichTranslationPreview_def bind_r_ok split: option.splits sum.splits)
qed

section \<open>A concrete translation\<close>

definition sample_form :: compose_form where
  "sample_form = \<lparr>cf_to = lit ''k@moa.kr'', cf_cc = [], cf_bcc = [], cf_subject = [], cf_text = lit ''a'', cf_html = [],
     cf_document = createMailDocument (lit ''a'') [], cf_scheduled = []\<rparr>"

definition sample_plan :: rich_plan where
  "sample_plan = \<lparr>rp_texts = [auto_text (normalizeOutgoingTranslationLocale (sample_env JNull) (Some (lit ''ko''))) (lit ''a'')],
     rp_subject_included = False, rp_segments = [(path_id [0, 0], lit ''a'')], rp_subject = [], rp_key = Some []\<rparr>"

definition sample_items :: "translated_item list" where
  "sample_items = [\<lparr>ti_original = lit ''a'', ti_translated = lit ''b'', ti_source = lit ''auto''\<rparr>]"

lemma sample_segments: "collectTextNodes (createMailDocument (lit ''a'') []) [] = [(path_id [0, 0], lit ''a'')]"
proof -
  have l: "js_split 10 (unify_newlines (lit ''a'')) = [lit ''a'']" by (simp add: lit_def)
  have t: "collectTextNodes (typed ''text'' [(''text'', JStr (lit ''a''))]) [0, 0] = [(path_id [0, 0], lit ''a'')]"
    by (subst collectTextNodes.simps) (simp add: node_text_def own_prop_typed)
  have p: "collectTextNodes (line_paragraph (lit ''a'')) [0] = [(path_id [0, 0], lit ''a'')]"
    by (subst collectTextNodes.simps) (simp add: line_paragraph_def node_content_def own_prop_typed t)
  show ?thesis
    by (subst collectTextNodes.simps) (simp add: created_props node_content_def l p)
qed

lemma sample_plan_made:
  "createOutgoingRichTranslationPlan (sample_env JNull) (\<lambda>s. None) (cf_subject sample_form) (cf_document sample_form) (lit ''ko'')
   = Inr sample_plan"
proof -
  have "validateDocument (sample_env JNull) (\<lambda>s. None) (createMailDocument (lit ''a'') []) = Inr []"
    using created_valid [of "[]"] by simp
  moreover have "js_trim (lit ''a'') = lit ''a''" by (intro js_trim_no_ws) (simp add: lit_def js_ws_def)
  ultimately show ?thesis
    by (simp add: createOutgoingRichTranslationPlan_def sample_form_def sample_plan_def extractTranslationSegments_def sample_segments
        rich_result_def js_trim_no_ws) (simp add: sample_env_def)
qed

lemma sample_preview_made:
  "\<exists>preview. createOutgoingRichTranslationPreview sample_plan False sample_items = Inr preview"
proof -
  have "js_trim (lit ''b'') = lit ''b''" by (intro js_trim_no_ws) (simp add: lit_def js_ws_def)
  then show ?thesis
    by (simp add: createOutgoingRichTranslationPreview_def sample_plan_def sample_items_def item_matches_def auto_text_def)
qed

lemma translation_applied_witness:
  "\<exists>preview d. createOutgoingRichTranslationPreview sample_plan False sample_items = Inr preview
     \<and> (\<exists>f. applyOutgoingRichTranslationPreview (sample_env JNull) (\<lambda>s. None) sample_form preview = Inr f \<and> cf_document f = d)
     \<and> (\<exists>places. extractTranslationSegments (sample_env JNull) (\<lambda>s. None) d = Inr (d, zip places [lit ''b'']))"
proof -
  obtain preview where preview: "createOutgoingRichTranslationPreview sample_plan False sample_items = Inr preview"
    using sample_preview_made by blast
  have "map ti_translated (subject_items (cf_subject sample_form) sample_items) = [lit ''b'']"
    by (simp add: subject_items_def sample_form_def sample_items_def js_trim_no_ws)
  then show ?thesis using translation_applied [OF sample_plan_made preview] preview by force
qed

lemma translation_keeps_edits_witness:
  "\<exists>v v1 sent. start_translation (sample_env JNull) (\<lambda>s. None) (lit ''ko'') v = (v1, Some sent)
     \<and> cf_to (tv_form (applyOutgoingTranslation (sample_env JNull) (\<lambda>s. None)
           (finish_translation (sample_env JNull) (\<lambda>s. None) sent (Some (False, sample_items)) (v1\<lparr>tv_form := sample_form\<rparr>)
              \<lparr>tv_form := sample_form\<lparr>cf_to := lit ''l@moa.kr''\<rparr>\<rparr>))) = lit ''l@moa.kr''"
proof -
  define v where "v = \<lparr>tv_open = False, tv_preview = None, tv_kind = Incoming, tv_loading = False, tv_failed = False, tv_form = sample_form\<rparr>"
  obtain v1 sent where s: "start_translation (sample_env JNull) (\<lambda>s. None) (lit ''ko'') v = (v1, Some sent)"
    using sample_plan_made by (simp add: start_translation_def v_def Let_def sample_plan_def)
  from translation_keeps_edits [OF s, of "Some (False, sample_items)" sample_form "sample_form\<lparr>cf_to := lit ''l@moa.kr''\<rparr>"] s
  show ?thesis unfolding Let_def by (intro exI [of _ v] exI [of _ v1] exI [of _ sent]) simp
qed

text \<open>A blank between two formatted words is a text of its own, and a mail that holds one cannot be translated.\<close>

lemma blank_text_not_translated:
  assumes "validateDocument E U doc = Inr ids" "(i, t) \<in> set (collectTextNodes doc [])" "js_trim t = []"
  shows "createOutgoingRichTranslationPlan E U subject doc target = Inl Empty_Segment"
proof -
  have "\<not> list_all (\<lambda>s. js_trim (snd s) \<noteq> []) (collectTextNodes doc [])" using assms(2,3) by (force simp: list_all_iff)
  then show ?thesis
    using assms(1) by (simp add: createOutgoingRichTranslationPlan_def extractTranslationSegments_def rich_result_def)
qed

end
