(* ===== verification/Notification_Stream.thy ===== *)
theory Notification_Stream
  imports Js_Prelude "HOL-Library.Multiset"
begin

text \<open>
  The notification stream of the web client (\<open>user-web/src/App.tsx\<close>): the requests that read it one after another, with
  their reconnections and the fallback to an ordinary load, the events of an answer, and the repetition of a failed
  request. The server and the clock are parameters: what a request gives and when a timer runs are steps of a relation.
\<close>

section \<open>Repeating a request\<close>

definition retryMaxAttempts :: nat where "retryMaxAttempts = 3"
definition retryDelayMs :: nat where "retryDelayMs = 400"
definition streamRetryMax :: nat where "streamRetryMax = 2"
definition streamReconnectDelayMs :: nat where "streamReconnectDelayMs = 600"

record 'a retry_run =
  rr_result :: 'a
  rr_attempts :: nat
  rr_waits :: "nat list"

function retry_from :: "(nat \<Rightarrow> 'e + 'a) \<Rightarrow> nat \<Rightarrow> nat \<Rightarrow> 'e option \<Rightarrow> nat list \<Rightarrow> ('e option + 'a) retry_run" where
  \<comment> \<open>the loop with \<open>attempt\<close>, \<open>lastError\<close> and the waits so far; \<open>task i\<close> is the outcome of the \<open>i\<close>-th attempt\<close>
  "retry_from task maxAttempts attempt lastError waits =
     (if attempt < maxAttempts then
        (case task (attempt + 1) of
           Inr x \<Rightarrow> \<lparr>rr_result = Inr x, rr_attempts = attempt + 1, rr_waits = waits\<rparr>
         | Inl e \<Rightarrow>
             if maxAttempts \<le> attempt + 1 then \<lparr>rr_result = Inl (Some e), rr_attempts = attempt + 1, rr_waits = waits\<rparr>
             else retry_from task maxAttempts (attempt + 1) (Some e) (waits @ [retryDelayMs * (attempt + 1)]))
      else \<lparr>rr_result = Inl lastError, rr_attempts = attempt, rr_waits = waits\<rparr>)"
  by pat_completeness auto

termination by (relation "measure (\<lambda>(t, m, a, l, w). m - a)") auto

declare retry_from.simps [simp del]

definition retryWithBackoff :: "(nat \<Rightarrow> 'e + 'a) \<Rightarrow> nat \<Rightarrow> ('e option + 'a) retry_run" where
  \<comment> \<open>an error \<open>None\<close> is the general message\<close>
  "retryWithBackoff task maxAttempts = retry_from task maxAttempts 0 None []"

section \<open>The events of an answer\<close>

definition newline_rest :: "jstring \<Rightarrow> jstring option" where
  \<comment> \<open>the rest after \<open>\r?\n\<close> at the beginning\<close>
  "newline_rest s =
     (case s of [] \<Rightarrow> None
      | c # t \<Rightarrow> if c = 10 then Some t
          else if c = 13 then (case t of [] \<Rightarrow> None | d # u \<Rightarrow> if d = 10 then Some u else None) else None)"

definition blank_line_rest :: "jstring \<Rightarrow> jstring option" where
  \<comment> \<open>\<open>\r?\n\r?\n\<close>\<close>
  "blank_line_rest s = Option.bind (newline_rest s) newline_rest"

lemma newline_rest_shorter: "newline_rest s = Some u \<Longrightarrow> length u < length s"
  by (auto simp: newline_rest_def split: list.splits if_splits)

lemma blank_line_rest_shorter: "blank_line_rest s = Some u \<Longrightarrow> length u < length s"
  by (auto simp: blank_line_rest_def bind_eq_Some_conv dest!: newline_rest_shorter)

definition on_head :: "nat \<Rightarrow> jstring list \<Rightarrow> jstring list" where
  "on_head c xs = (case xs of [] \<Rightarrow> [[c]] | x # ys \<Rightarrow> (c # x) # ys)"

function event_blocks :: "jstring \<Rightarrow> jstring list" where
  \<comment> \<open>\<open>split(/\r?\n\r?\n/)\<close>\<close>
  "event_blocks s =
     (case blank_line_rest s of
        Some u \<Rightarrow> [] # event_blocks u
      | None \<Rightarrow> (case s of [] \<Rightarrow> [[]] | c # t \<Rightarrow> on_head c (event_blocks t)))"
  by pat_completeness auto

termination by (relation "measure length") (auto dest: blank_line_rest_shorter)

function event_lines :: "jstring \<Rightarrow> jstring list" where
  \<comment> \<open>\<open>split(/\r?\n/)\<close>\<close>
  "event_lines s =
     (case newline_rest s of
        Some u \<Rightarrow> [] # event_lines u
      | None \<Rightarrow> (case s of [] \<Rightarrow> [[]] | c # t \<Rightarrow> on_head c (event_lines t)))"
  by pat_completeness auto

termination by (relation "measure length") (auto dest: newline_rest_shorter)

declare event_blocks.simps [simp del] event_lines.simps [simp del]

definition event_name :: "jstring list \<Rightarrow> jstring option" where
  "event_name lines = map_option (\<lambda>l. js_trim (drop 6 l)) (find (\<lambda>l. js_starts_with l (lit ''event:'')) lines)"

definition event_data :: "jstring list \<Rightarrow> jstring" where
  "event_data lines =
     js_join [10] (map (\<lambda>l. dropWhile js_ws (drop 5 l)) (filter (\<lambda>l. js_starts_with l (lit ''data:'')) lines))"

datatype stream_event = Notification jsval | Cursor jsval | Fallback | Nothing

definition block_event :: "js_env \<Rightarrow> jstring \<Rightarrow> stream_event" where
  "block_event E block =
     (let lines = event_lines block; data = event_data lines
      in case event_name lines of
           None \<Rightarrow> Nothing
         | Some name \<Rightarrow>
             if name = [] \<or> data = [] then Nothing
             else (case env_parse E data of
                     None \<Rightarrow> Nothing
                   | Some payload \<Rightarrow>
                       if name = lit ''notification'' then Notification payload
                       else if name = lit ''streammeta'' then
                         (if truthy (own_prop payload (lit ''value'')) then Cursor (own_prop payload (lit ''value'')) else Nothing)
                       else if name = lit ''heartbeat'' \<and> own_prop payload (lit ''type'') = JStr (lit ''fallback'') then Fallback
                       else Nothing))"

section \<open>The list of notifications\<close>

record sort_env =
  time_of :: "jsval \<Rightarrow> int option" \<comment> \<open>\<open>new Date(v).getTime()\<close>, \<open>None\<close> for \<open>NaN\<close>\<close>
  odd_sort :: "jsval list \<Rightarrow> jsval list" \<comment> \<open>the platform's sort where the comparison gives \<open>NaN\<close> for some pair\<close>

definition occurred :: "sort_env \<Rightarrow> jsval \<Rightarrow> int option" where
  "occurred S n = time_of S (own_prop n (lit ''occurredAt''))"

definition latest_first :: "sort_env \<Rightarrow> jsval list \<Rightarrow> jsval list" where
  "latest_first S ns =
     (if \<forall>n\<in>set ns. occurred S n \<noteq> None then sort_key (\<lambda>n. - the (occurred S n)) ns else odd_sort S ns)"

definition notification_id :: "jsval \<Rightarrow> jsval" where
  "notification_id n = own_prop n (lit ''notificationId'')"

definition appendNotification :: "sort_env \<Rightarrow> jsval \<Rightarrow> jsval list \<Rightarrow> jsval list option" where
  \<comment> \<open>\<open>None\<close> where reading a property of \<open>null\<close> raises, in the rendering\<close>
  "appendNotification S n current =
     (if nullish n then None
      else Some (latest_first S
        (if \<exists>i\<in>set current. notification_id i = notification_id n
         then map (\<lambda>i. if notification_id i = notification_id n then n else i) current
         else n # current)))"

section \<open>The stream\<close>

datatype stream_mode = Polling | Streaming | Fallback_mode

record stream_state =
  sm_controller :: "nat option" \<comment> \<open>\<open>notificationStreamAbortRef\<close>: controllers are numbered as they are made\<close>
  sm_timer :: "nat option" \<comment> \<open>the delay of the armed timer\<close>
  sm_retry :: nat
  sm_cursor :: jsval
  sm_mode :: stream_mode
  sm_notifications :: "jsval list"
  sm_broken :: bool \<comment> \<open>the rendering has raised\<close>
  sm_next :: nat
  sm_aborted :: "nat set"
  sm_requests :: "nat list" \<comment> \<open>stream requests in flight\<close>
  sm_loads :: nat \<comment> \<open>fallback loads in flight\<close>

definition idle_stream :: stream_state where
  "idle_stream = \<lparr>sm_controller = None, sm_timer = None, sm_retry = 0, sm_cursor = JStr [], sm_mode = Polling, sm_notifications = [],
     sm_broken = False, sm_next = 0, sm_aborted = {}, sm_requests = [], sm_loads = 0\<rparr>"

definition stopNotificationStream :: "stream_state \<Rightarrow> stream_state" where
  "stopNotificationStream s =
     s\<lparr>sm_aborted := sm_aborted s \<union> set_option (sm_controller s), sm_controller := None, sm_timer := None\<rparr>"

definition applyStreamPolicyError :: "stream_state \<Rightarrow> stream_state" where
  "applyStreamPolicyError s = stopNotificationStream (s\<lparr>sm_mode := Fallback_mode\<rparr>)"

definition connectNotificationStream :: "stream_state \<Rightarrow> stream_state" where
  \<comment> \<open>up to the request\<close>
  "connectNotificationStream s =
     (let s1 = stopNotificationStream s; c = sm_next s1
      in s1\<lparr>sm_controller := Some c, sm_next := c + 1, sm_mode := Streaming, sm_requests := c # sm_requests s1\<rparr>)"

definition scheduleReconnect :: "nat \<Rightarrow> stream_state \<Rightarrow> stream_state" where
  "scheduleReconnect c s =
     (if sm_controller s \<noteq> Some c then s
      else if sm_retry s < streamRetryMax then
        s\<lparr>sm_controller := None, sm_retry := sm_retry s + 1, sm_timer := Some (streamReconnectDelayMs * (sm_retry s + 1))\<rparr>
      else s\<lparr>sm_controller := None, sm_retry := 0, sm_loads := sm_loads s + 1\<rparr>)"

fun handle_blocks :: "js_env \<Rightarrow> sort_env \<Rightarrow> jstring list \<Rightarrow> stream_state \<Rightarrow> stream_state \<times> bool" where
  \<comment> \<open>the loop over the blocks; whether a fallback was asked for, which ends it\<close>
  "handle_blocks E S [] s = (s, False)"
| "handle_blocks E S (b # bs) s =
     (case block_event E b of
        Notification n \<Rightarrow>
          handle_blocks E S bs (case appendNotification S n (sm_notifications s) of
            None \<Rightarrow> s\<lparr>sm_broken := True\<rparr> | Some ns \<Rightarrow> s\<lparr>sm_notifications := ns\<rparr>)
      | Cursor v \<Rightarrow> handle_blocks E S bs (s\<lparr>sm_cursor := v\<rparr>)
      | Fallback \<Rightarrow> (s, True)
      | Nothing \<Rightarrow> handle_blocks E S bs s)"

definition stream_received :: "js_env \<Rightarrow> sort_env \<Rightarrow> nat \<Rightarrow> jstring \<Rightarrow> stream_state \<Rightarrow> stream_state" where
  "stream_received E S c payload s =
     (if c \<in> sm_aborted s then s
      else (let (s1, fallbackRequested) = handle_blocks E S (event_blocks payload) (s\<lparr>sm_retry := 0\<rparr>)
            in if fallbackRequested then applyStreamPolicyError s1 else scheduleReconnect c s1))"

definition stream_failed :: "nat \<Rightarrow> stream_state \<Rightarrow> stream_state" where
  "stream_failed c s = (if c \<in> sm_aborted s then s else scheduleReconnect c s)"

definition answered :: "nat \<Rightarrow> stream_state \<Rightarrow> stream_state" where
  "answered c s = s\<lparr>sm_requests := filter (\<lambda>r. r \<noteq> c) (sm_requests s)\<rparr>"

datatype stream_input =
    Connect
  | Received nat jstring
  | Failed nat
  | Timer
  | Stop
  | Loaded "jsval list"
  | Load_failed

fun stream_run :: "js_env \<Rightarrow> sort_env \<Rightarrow> stream_input \<Rightarrow> stream_state \<Rightarrow> stream_state option" where
  \<comment> \<open>what happens; \<open>None\<close> where it cannot\<close>
  "stream_run E S Connect s = Some (connectNotificationStream s)"
| "stream_run E S (Received c p) s = (if c \<in> set (sm_requests s) then Some (stream_received E S c p (answered c s)) else None)"
| "stream_run E S (Failed c) s = (if c \<in> set (sm_requests s) then Some (stream_failed c (answered c s)) else None)"
| "stream_run E S Timer s = (if sm_timer s = None then None else Some (connectNotificationStream s))"
| "stream_run E S Stop s = Some (stopNotificationStream s)"
| "stream_run E S (Loaded ns) s =
     (if sm_loads s = 0 then None else Some (s\<lparr>sm_loads := sm_loads s - 1, sm_notifications := latest_first S ns\<rparr>))"
| "stream_run E S Load_failed s = (if sm_loads s = 0 then None else Some (applyStreamPolicyError (s\<lparr>sm_loads := sm_loads s - 1\<rparr>)))"

inductive stream_reaches :: "js_env \<Rightarrow> sort_env \<Rightarrow> stream_state \<Rightarrow> stream_state \<Rightarrow> bool" for E S where
  stream_refl: "stream_reaches E S s s"
| stream_next: "stream_reaches E S s t \<Longrightarrow> stream_run E S i t = Some u \<Longrightarrow> stream_reaches E S s u"

inductive_cases stream_reachesE: "stream_reaches E S s t"

section \<open>The invariant\<close>

definition stream_ok :: "stream_state \<Rightarrow> bool" where
  "stream_ok s \<longleftrightarrow>
     set (sm_requests s) \<subseteq> sm_aborted s \<union> set_option (sm_controller s)
     \<and> (sm_controller s = None \<or> sm_timer s = None)
     \<and> sm_retry s \<le> streamRetryMax
     \<and> (\<forall>d\<in>set_option (sm_timer s). d = streamReconnectDelayMs * sm_retry s \<and> 0 < sm_retry s)
     \<and> set (sm_requests s) \<union> sm_aborted s \<union> set_option (sm_controller s) \<subseteq> {..<sm_next s}
     \<and> distinct (sm_requests s)
     \<and> set_option (sm_controller s) \<inter> sm_aborted s = {}"

lemma idle_ok: "stream_ok idle_stream"
  by (simp add: stream_ok_def idle_stream_def)

lemma stop_ok: "stream_ok s \<Longrightarrow> stream_ok (stopNotificationStream s)"
  by (simp add: stream_ok_def stopNotificationStream_def Un_commute)

lemma connect_ok: "stream_ok s \<Longrightarrow> stream_ok (connectNotificationStream s)"
  by (simp add: stream_ok_def connectNotificationStream_def stopNotificationStream_def Let_def) fastforce

lemma policy_error_ok: "stream_ok s \<Longrightarrow> stream_ok (applyStreamPolicyError s)"
  by (simp add: stream_ok_def applyStreamPolicyError_def stopNotificationStream_def Un_commute)

lemma reconnect_ok:
  "stream_ok s \<Longrightarrow> c \<notin> set (sm_requests s) \<Longrightarrow> stream_ok (scheduleReconnect c s)"
  by (cases "sm_controller s") (auto simp: stream_ok_def scheduleReconnect_def)

lemma answered_ok: "stream_ok s \<Longrightarrow> stream_ok (answered c s)"
  by (auto simp: stream_ok_def answered_def)

lemma stream_frame: "\<exists>v ns k. (s::stream_state) = s\<lparr>sm_cursor := v, sm_notifications := ns, sm_broken := k\<rparr>"
proof -
  have "s = s\<lparr>sm_cursor := sm_cursor s, sm_notifications := sm_notifications s, sm_broken := sm_broken s\<rparr>" by simp
  then show ?thesis by blast
qed

lemma handle_blocks_frame:
  "handle_blocks E S bs s = (t, b) \<Longrightarrow>
     \<exists>v ns k. t = s\<lparr>sm_cursor := v, sm_notifications := ns, sm_broken := k\<rparr>"
proof (induction bs arbitrary: s)
  case Nil
  then show ?case by (metis handle_blocks.simps(1) prod.inject stream_frame)
next
  case (Cons x bs)
  show ?case
  proof (cases "block_event E x")
    case (Notification n)
    then obtain s1 where "handle_blocks E S bs s1 = (t, b)" "\<exists>ns k. s1 = s\<lparr>sm_notifications := ns, sm_broken := k\<rparr>"
    proof (cases "appendNotification S n (sm_notifications s)")
      case None
      have "s\<lparr>sm_broken := True\<rparr> = s\<lparr>sm_notifications := sm_notifications s, sm_broken := True\<rparr>" by simp
      then show ?thesis using that [of "s\<lparr>sm_broken := True\<rparr>"] Cons.prems Notification None by fastforce
    next
      case (Some ns)
      have "s\<lparr>sm_notifications := ns\<rparr> = s\<lparr>sm_notifications := ns, sm_broken := sm_broken s\<rparr>" by simp
      then show ?thesis using that [of "s\<lparr>sm_notifications := ns\<rparr>"] Cons.prems Notification Some by fastforce
    qed
    with Cons.IH show ?thesis by fastforce
  next
    case (Cursor v)
    with Cons.IH [of "s\<lparr>sm_cursor := v\<rparr>"] Cons.prems show ?thesis by fastforce
  next
    case Fallback
    then show ?thesis using Cons.prems by (auto intro: stream_frame)
  next
    case Nothing
    with Cons.IH [of s] Cons.prems show ?thesis by simp
  qed
qed

lemma received_ok:
  assumes "stream_ok s" "c \<in> set (sm_requests s)"
  shows "stream_ok (stream_received E S c p (answered c s))"
proof (cases "c \<in> sm_aborted s")
  case False
  let ?a = "answered c s"
  have ctrl: "sm_controller s = Some c" using assms False by (auto simp: stream_ok_def)
  have a: "stream_ok ?a" "c \<notin> set (sm_requests ?a)" "sm_timer ?a = None" "c \<notin> sm_aborted ?a"
    using assms ctrl False answered_ok [of s c] by (auto simp: stream_ok_def answered_def)
  obtain t b where t: "handle_blocks E S (event_blocks p) (?a\<lparr>sm_retry := 0\<rparr>) = (t, b)" by fastforce
  then obtain v ns k where "t = ?a\<lparr>sm_retry := 0, sm_cursor := v, sm_notifications := ns, sm_broken := k\<rparr>"
    using handle_blocks_frame by blast
  then have "stream_ok t" "c \<notin> set (sm_requests t)" using a by (auto simp: stream_ok_def)
  then show ?thesis using a t by (simp add: stream_received_def policy_error_ok reconnect_ok)
next
  case True
  then show ?thesis using answered_ok [OF assms(1)] by (simp add: stream_received_def answered_def)
qed

lemma failed_ok: "stream_ok s \<Longrightarrow> stream_ok (stream_failed c (answered c s))"
proof -
  assume "stream_ok s"
  from answered_ok [OF this] show ?thesis by (simp add: stream_failed_def reconnect_ok answered_def)
qed

lemma stream_run_ok: "stream_run E S i s = Some t \<Longrightarrow> stream_ok s \<Longrightarrow> stream_ok t"
proof (induction i)
  case (Loaded ns)
  then show ?case by (auto simp: stream_ok_def split: if_splits)
next
  case Load_failed
  then have "stream_ok (s\<lparr>sm_loads := sm_loads s - 1\<rparr>)" by (simp add: stream_ok_def)
  then show ?case using Load_failed by (auto intro: policy_error_ok split: if_splits)
qed (auto simp: connect_ok stop_ok received_ok failed_ok split: if_splits)

lemma reaches_ok: "stream_reaches E S s t \<Longrightarrow> stream_ok s \<Longrightarrow> stream_ok t"
  by (induction rule: stream_reaches.induct) (auto intro: stream_run_ok)

definition live_requests :: "stream_state \<Rightarrow> nat list" where
  "live_requests s = filter (\<lambda>c. c \<notin> sm_aborted s) (sm_requests s)"

lemma ok_single:
  assumes "stream_ok s"
  shows "length (live_requests s) + (if sm_timer s = None then 0 else 1) \<le> 1"
proof -
  have d: "distinct (live_requests s)" and sub: "set (live_requests s) \<subseteq> set_option (sm_controller s)"
    using assms by (auto simp: live_requests_def stream_ok_def)
  have "length (live_requests s) = card (set (live_requests s))" using distinct_card [OF d] by simp
  also have "\<dots> \<le> card (set_option (sm_controller s))" by (rule card_mono [OF _ sub]) (cases "sm_controller s"; simp)
  finally show ?thesis using assms by (cases "sm_controller s") (auto simp: stream_ok_def)
qed

text \<open>C31. There is never more than one stream: whatever answers, failures, timers, logins and logouts come in whatever order, at most one
  request that can still have an effect or one armed timer exists, a timer waits 600 or 1200 milliseconds, and an answer that
  comes for a request of an earlier connection changes nothing.\<close>

theorem stream_single:
  assumes "stream_reaches E S idle_stream s"
  shows "length (live_requests s) + (if sm_timer s = None then 0 else 1) \<le> 1
    \<and> set_option (sm_timer s) \<subseteq> {600, 1200}
    \<and> (c \<in> set (sm_requests s) \<longrightarrow> sm_controller s \<noteq> Some c \<longrightarrow>
         stream_run E S (Received c p) s = Some (answered c s) \<and> stream_run E S (Failed c) s = Some (answered c s))"
proof -
  have ok: "stream_ok s" using reaches_ok [OF assms idle_ok] .
  have "d \<in> {600, 1200}" if "d \<in> set_option (sm_timer s)" for d
  proof -
    have "d = 600 * sm_retry s" "0 < sm_retry s" "sm_retry s \<le> 2"
      using ok that by (auto simp: stream_ok_def streamReconnectDelayMs_def streamRetryMax_def)
    then have "sm_retry s = 1 \<or> sm_retry s = 2" by auto
    with \<open>d = 600 * sm_retry s\<close> show ?thesis by auto
  qed
  then have "set_option (sm_timer s) \<subseteq> {600, 1200}" by blast
  moreover have "c \<in> sm_aborted s" if "c \<in> set (sm_requests s)" "sm_controller s \<noteq> Some c"
    using ok that by (auto simp: stream_ok_def)
  then have "c \<in> set (sm_requests s) \<longrightarrow> sm_controller s \<noteq> Some c \<longrightarrow>
         stream_run E S (Received c p) s = Some (answered c s) \<and> stream_run E S (Failed c) s = Some (answered c s)"
    by (simp add: stream_received_def stream_failed_def answered_def)
  ultimately show ?thesis using ok_single [OF ok] by blast
qed

definition plain_sort :: sort_env where
  "plain_sort = \<lparr>time_of = (\<lambda>v. Some 0), odd_sort = (\<lambda>ns. ns)\<rparr>"

lemma stream_single_witness:
  "\<exists>s. stream_reaches (sample_env JNull) plain_sort idle_stream s \<and> set (sm_requests s) = {0, 1}
     \<and> length (live_requests s) + (if sm_timer s = None then 0 else 1) \<le> 1"
proof -
  let ?s = "connectNotificationStream (connectNotificationStream idle_stream)"
  have r: "stream_reaches (sample_env JNull) plain_sort idle_stream ?s"
    by (rule stream_next [where i = Connect], rule stream_next [where i = Connect], rule stream_refl) simp_all
  moreover have "set (sm_requests ?s) = {0, 1}"
    by (auto simp: connectNotificationStream_def stopNotificationStream_def idle_stream_def Let_def)
  ultimately show ?thesis using stream_single [OF r] by blast
qed

section \<open>Outages\<close>

fun stream_runs :: "js_env \<Rightarrow> sort_env \<Rightarrow> stream_input list \<Rightarrow> stream_state \<Rightarrow> stream_state option" where
  "stream_runs E S [] s = Some s"
| "stream_runs E S (i # is) s = Option.bind (stream_run E S i s) (stream_runs E S is)"

definition timers_left :: "stream_state \<Rightarrow> nat" where
  \<comment> \<open>how many reconnections are still to come while every request fails\<close>
  "timers_left s =
     (if sm_timer s \<noteq> None then Suc streamRetryMax - sm_retry s
      else if sm_controller s \<noteq> None then streamRetryMax - sm_retry s else 0)"

lemma timer_step:
  assumes "stream_ok s" "stream_run E S Timer s = Some t"
  shows "length (sm_requests t) + 2 * timers_left t < length (sm_requests s) + 2 * timers_left s"
proof -
  have t: "t = connectNotificationStream s" and d: "sm_timer s \<noteq> None" using assms(2) by (auto split: if_splits)
  have "sm_retry s \<le> streamRetryMax" using assms(1) by (simp add: stream_ok_def)
  with d show ?thesis
    by (auto simp: t timers_left_def connectNotificationStream_def stopNotificationStream_def Let_def)
qed

lemma failed_step:
  assumes "stream_ok s" "stream_run E S (Failed c) s = Some t"
  shows "length (sm_requests t) + 2 * timers_left t < length (sm_requests s) + 2 * timers_left s"
proof -
  have c: "c \<in> set (sm_requests s)" and t: "t = stream_failed c (answered c s)" using assms(2) by (auto split: if_splits)
  have "sm_requests t = filter (\<lambda>r. r \<noteq> c) (sm_requests s)"
    unfolding t by (simp add: stream_failed_def scheduleReconnect_def answered_def)
  moreover have "length (filter (\<lambda>r. r \<noteq> c) (sm_requests s)) < length (sm_requests s)"
    using c by (intro length_filter_less [of c]) simp_all
  moreover have "timers_left t \<le> timers_left s"
    unfolding t using assms(1)
    by (auto simp: timers_left_def stream_failed_def scheduleReconnect_def answered_def stream_ok_def streamRetryMax_def)
  ultimately show ?thesis by simp
qed

lemma outage_bound:
  assumes "stream_ok s" "set is \<subseteq> insert Timer (range Failed)" "stream_runs E S is s = Some t"
  shows "length is + length (sm_requests t) + 2 * timers_left t \<le> length (sm_requests s) + 2 * timers_left s \<and> stream_ok t"
  using assms
proof (induction "is" arbitrary: s)
  case (Cons i "is")
  then obtain u where u: "stream_run E S i s = Some u" "stream_runs E S is u = Some t" by (auto simp: bind_eq_Some_conv)
  have "length (sm_requests u) + 2 * timers_left u < length (sm_requests s) + 2 * timers_left s"
    using Cons.prems(1,2) u(1) timer_step failed_step by auto
  moreover have "stream_ok u" using u(1) Cons.prems(1) by (rule stream_run_ok)
  ultimately show ?case using Cons.IH [of u] Cons.prems(2) u(2) by fastforce
qed simp

lemma timers_left_bound: "stream_ok s \<Longrightarrow> timers_left s \<le> streamRetryMax"
  by (cases "sm_timer s") (auto simp: timers_left_def stream_ok_def)

text \<open>C32. An outage ends: if from some moment on every request of the stream fails, then after at most two more reconnections
  nothing is left to happen, and the stream has been given up.\<close>

theorem outage_ends:
  assumes "stream_reaches E S idle_stream s" "set is \<subseteq> insert Timer (range Failed)" "stream_runs E S is s = Some t"
  shows "length is \<le> length (sm_requests s) + 4
    \<and> ((\<forall>i\<in>insert Timer (range Failed). stream_run E S i t = None) \<longrightarrow> live_requests t = [] \<and> sm_timer t = None)"
proof -
  have ok: "stream_ok s" using reaches_ok [OF assms(1) idle_ok] .
  have "length is \<le> length (sm_requests s) + 4"
    using outage_bound [OF ok assms(2,3)] timers_left_bound [OF ok] by (simp add: streamRetryMax_def)
  moreover have "live_requests t = [] \<and> sm_timer t = None" if none: "\<forall>i\<in>insert Timer (range Failed). stream_run E S i t = None"
  proof
    have "stream_run E S (Failed c) t = None" for c using none by blast
    then have "c \<notin> set (sm_requests t)" for c by (cases "c \<in> set (sm_requests t)") (metis option.discI stream_run.simps(3), simp)
    then show "live_requests t = []" by (auto simp: live_requests_def filter_empty_conv)
    have "stream_run E S Timer t = None" using none by blast
    then show "sm_timer t = None" by (auto split: if_splits)
  qed
  ultimately show ?thesis by blast
qed

definition outage_inputs :: "stream_input list" where
  "outage_inputs = [Failed 0, Timer, Failed 1, Timer, Failed 2]"

lemmas stream_defs = connectNotificationStream_def stopNotificationStream_def idle_stream_def Let_def answered_def stream_failed_def
  scheduleReconnect_def streamRetryMax_def streamReconnectDelayMs_def

lemma outage_run:
  "\<exists>t. stream_runs E S outage_inputs (connectNotificationStream idle_stream) = Some t
     \<and> sm_controller t = None \<and> sm_timer t = None \<and> sm_requests t = [] \<and> sm_loads t = 1 \<and> sm_mode t = Streaming"
  by (simp add: outage_inputs_def stream_defs)

lemma outage_ends_witness:
  "\<exists>t. stream_runs (sample_env JNull) plain_sort outage_inputs (connectNotificationStream idle_stream) = Some t
     \<and> length outage_inputs \<le> length (sm_requests (connectNotificationStream idle_stream)) + 4"
proof -
  have r: "stream_reaches (sample_env JNull) plain_sort idle_stream (connectNotificationStream idle_stream)"
    by (rule stream_next [where i = Connect], rule stream_refl) simp
  obtain t where t: "stream_runs (sample_env JNull) plain_sort outage_inputs (connectNotificationStream idle_stream) = Some t"
    using outage_run by blast
  have "set outage_inputs \<subseteq> insert Timer (range Failed)" by (auto simp: outage_inputs_def)
  from outage_ends [OF r this t] t show ?thesis by blast
qed

text \<open>When the stream has been given up and the ordinary load succeeds, the mode still says that a stream is running; nothing is.\<close>

lemma given_up_still_streaming:
  "\<exists>t u. stream_runs E S outage_inputs (connectNotificationStream idle_stream) = Some t
     \<and> stream_run E S (Loaded ns) t = Some u \<and> sm_mode u = Streaming \<and> live_requests u = [] \<and> sm_timer u = None \<and> sm_loads u = 0"
  by (simp add: outage_inputs_def stream_defs live_requests_def)

text \<open>A fallback load that is in flight when the user logs out still sets the list.\<close>

lemma late_load_applied:
  "\<exists>t u. stream_runs E S (outage_inputs @ [Stop]) (connectNotificationStream idle_stream) = Some t
     \<and> stream_run E S (Loaded ns) t = Some u \<and> sm_notifications u = latest_first S ns"
  by (simp add: outage_inputs_def stream_defs)

section \<open>The list keeps its order\<close>

lemma latest_first_sorted:
  "\<forall>n\<in>set ns. occurred S n \<noteq> None \<Longrightarrow> sorted_wrt (\<lambda>m n. the (occurred S n) \<le> the (occurred S m)) (latest_first S ns)
     \<and> mset (latest_first S ns) = mset ns"
proof -
  assume v: "\<forall>n\<in>set ns. occurred S n \<noteq> None"
  have "sorted (map (\<lambda>n. - the (occurred S n)) (latest_first S ns))" using v by (simp add: latest_first_def)
  then show ?thesis using v by (simp add: latest_first_def sorted_map)
qed

lemma replaced_ids: "map f (map (\<lambda>i. if f i = f n then n else i) xs) = map f xs"
  by (induction xs) auto

text \<open>The list of notifications stays in order and without duplicates: adding a notification to a list with one entry for every
  id gives such a list, latest first, in which the new notification stands in the place of the one with its id, if there was
  one, and the others are as before.\<close>

theorem notifications_ordered:
  assumes "distinct (map notification_id ns)" "\<not> nullish n" "\<forall>m\<in>set (n # ns). occurred S m \<noteq> None"
  shows "\<exists>ms. appendNotification S n ns = Some ms \<and> distinct (map notification_id ms)
    \<and> set ms = insert n {m \<in> set ns. notification_id m \<noteq> notification_id n}
    \<and> sorted_wrt (\<lambda>a b. the (occurred S b) \<le> the (occurred S a)) ms"
proof -
  define xs where "xs = (if \<exists>i\<in>set ns. notification_id i = notification_id n
         then map (\<lambda>i. if notification_id i = notification_id n then n else i) ns else n # ns)"
  have ms: "appendNotification S n ns = Some (latest_first S xs)" using assms(2) by (simp add: appendNotification_def xs_def)
  have v: "\<forall>m\<in>set xs. occurred S m \<noteq> None" using assms(3) by (auto simp: xs_def)
  have d: "distinct (map notification_id xs)"
    using assms(1) replaced_ids [of notification_id n ns] by (auto simp: xs_def simp del: map_map)
  have "set xs = insert n {m \<in> set ns. notification_id m \<noteq> notification_id n}" by (auto simp: xs_def)
  moreover have "set (latest_first S xs) = set xs" using latest_first_sorted [OF v] by (metis set_mset_mset)
  moreover have "distinct (map notification_id (latest_first S xs))"
    using d latest_first_sorted [OF v] by (metis mset_map mset_eq_imp_distinct_iff)
  ultimately show ?thesis using ms latest_first_sorted [OF v] by blast
qed

lemma notifications_ordered_witness:
  "\<exists>ms. appendNotification plain_sort (JObj [(lit ''notificationId'', JStr (lit ''2''))]) [JObj [(lit ''notificationId'', JStr (lit ''1''))]] = Some ms
     \<and> distinct (map notification_id ms)"
proof -
  have "distinct (map notification_id [JObj [(lit ''notificationId'', JStr (lit ''1''))]])" by simp
  moreover have "\<not> nullish (JObj [(lit ''notificationId'', JStr (lit ''2''))])" by (simp add: nullish_def)
  moreover have "\<forall>m\<in>set [JObj [(lit ''notificationId'', JStr (lit ''2''))], JObj [(lit ''notificationId'', JStr (lit ''1''))]].
      occurred plain_sort m \<noteq> None" by (simp add: occurred_def plain_sort_def)
  ultimately show ?thesis using notifications_ordered by blast
qed

section \<open>Retries\<close>

definition retry_outcome :: "(nat \<Rightarrow> 'e + 'a) \<Rightarrow> nat \<Rightarrow> nat \<Rightarrow> nat list \<Rightarrow> ('e option + 'a) retry_run \<Rightarrow> bool" where
  "retry_outcome task maxAttempts attempt waits r \<longleftrightarrow>
     attempt < rr_attempts r \<and> rr_attempts r \<le> maxAttempts
     \<and> (\<forall>j. attempt < j \<longrightarrow> j < rr_attempts r \<longrightarrow> \<not> is_ok (task j))
     \<and> (is_ok (task (rr_attempts r)) \<or> rr_attempts r = maxAttempts)
     \<and> rr_result r = (case task (rr_attempts r) of Inr x \<Rightarrow> Inr x | Inl e \<Rightarrow> Inl (Some e))
     \<and> rr_waits r = waits @ map (\<lambda>k. retryDelayMs * k) [attempt + 1..<rr_attempts r]"

lemma retry_from_outcome:
  "attempt < maxAttempts \<Longrightarrow> retry_outcome task maxAttempts attempt waits (retry_from task maxAttempts attempt le waits)"
proof (induction "maxAttempts - attempt" arbitrary: attempt le waits)
  case (Suc d)
  show ?case
  proof (cases "task (attempt + 1)")
    case (Inr x)
    then have "retry_from task maxAttempts attempt le waits = \<lparr>rr_result = Inr x, rr_attempts = attempt + 1, rr_waits = waits\<rparr>"
      using Suc.prems by (subst retry_from.simps) simp
    then show ?thesis using Inr Suc.prems by (simp add: retry_outcome_def)
  next
    case (Inl e)
    show ?thesis
    proof (cases "maxAttempts \<le> attempt + 1")
      case True
      then have "retry_from task maxAttempts attempt le waits = \<lparr>rr_result = Inl (Some e), rr_attempts = attempt + 1, rr_waits = waits\<rparr>"
        using Suc.prems Inl by (subst retry_from.simps) simp
      then show ?thesis using True Inl Suc.prems by (simp add: retry_outcome_def)
    next
      case False
      let ?r = "retry_from task maxAttempts (attempt + 1) (Some e) (waits @ [retryDelayMs * (attempt + 1)])"
      have eq: "retry_from task maxAttempts attempt le waits = ?r"
        using Suc.prems Inl False by (subst retry_from.simps) simp
      have o: "retry_outcome task maxAttempts (attempt + 1) (waits @ [retryDelayMs * (attempt + 1)]) ?r"
        using Suc.hyps False by simp
      have "\<not> is_ok (task j)" if "attempt < j" "j < rr_attempts ?r" for j
        using o that Inl by (cases "j = attempt + 1") (auto simp: retry_outcome_def)
      moreover have "[attempt + 1..<rr_attempts ?r] = (attempt + 1) # [attempt + 2..<rr_attempts ?r]"
        using o by (simp add: retry_outcome_def upt_rec)
      ultimately show ?thesis using o unfolding eq by (simp add: retry_outcome_def)
    qed
  qed
qed simp

text \<open>A request that fails is repeated, but not for ever: it is tried at least once and at most as often as allowed, the first
  answer is the result, without an answer it is the error of the last try, and between two tries the wait is 400
  milliseconds longer each time.\<close>

theorem retry_ends:
  assumes "0 < maxAttempts"
  shows "let r = retryWithBackoff task maxAttempts
    in 0 < rr_attempts r \<and> rr_attempts r \<le> maxAttempts \<and> (\<forall>j. 0 < j \<longrightarrow> j < rr_attempts r \<longrightarrow> \<not> is_ok (task j))
      \<and> (is_ok (task (rr_attempts r)) \<or> rr_attempts r = maxAttempts)
      \<and> rr_result r = (case task (rr_attempts r) of Inr x \<Rightarrow> Inr x | Inl e \<Rightarrow> Inl (Some e))
      \<and> rr_waits r = map (\<lambda>k. 400 * k) [1..<rr_attempts r]"
  using retry_from_outcome [OF assms, of task "[]" None]
  by (simp add: retryWithBackoff_def retry_outcome_def retryDelayMs_def)

lemma retry_ends_witness:
  "\<exists>r. r = retryWithBackoff (\<lambda>i. if i = 2 then Inr True else Inl i) (3::nat) \<and> rr_attempts r \<le> 3
     \<and> rr_waits r = map (\<lambda>k. 400 * k) [1..<rr_attempts r]"
  using retry_ends [of 3 "\<lambda>i. if i = 2 then Inr True else Inl i"] by (simp add: Let_def)

end
