(* ===== verification/Inline_Images.thy ===== *)
theory Inline_Images
  imports Js_Prelude "HOL-Library.AList" "HOL-Library.Multiset"
begin

text \<open>
  The object URLs of images in a mail that is being written: the registry of the editor
  (\<open>user-web/src/mailInlineImages.ts\<close>), the list of images of the compose window and the previews of a received
  mail (\<open>user-web/src/App.tsx\<close>). A URL is made for a blob by the platform and has to be revoked when nothing shows it any
  more. The platform gives a new URL every time; a step that would use an old one is none.
\<close>

section \<open>Owners of URLs\<close>

definition balanced :: "jstring set \<Rightarrow> jstring list \<Rightarrow> jstring set \<Rightarrow> bool" where
  \<comment> \<open>of the URLs made, those shown and those revoked: each is one or the other, none is revoked twice\<close>
  "balanced shown freed made \<longleftrightarrow> distinct freed \<and> shown \<inter> set freed = {} \<and> shown \<union> set freed = made"

fun run_inputs :: "('i \<Rightarrow> 's \<Rightarrow> 's option) \<Rightarrow> 'i list \<Rightarrow> 's \<Rightarrow> 's option" where
  "run_inputs step [] s = Some s"
| "run_inputs step (i # is) s = Option.bind (step i s) (run_inputs step is)"

lemma run_append: "run_inputs step (is @ js) s = Option.bind (run_inputs step is s) (run_inputs step js)"
proof (induction "is" arbitrary: s)
  case (Cons i "is")
  then show ?case by (cases "step i s") simp_all
qed simp

locale url_owner =
  fixes step :: "'i \<Rightarrow> 's \<Rightarrow> 's option"
    and ok :: "'s \<Rightarrow> bool"
    and shown :: "'s \<Rightarrow> jstring set"
    and freed :: "'s \<Rightarrow> jstring list"
    and made :: "'s \<Rightarrow> jstring set"
  assumes step_balanced: "ok s \<Longrightarrow> balanced (shown s) (freed s) (made s) \<Longrightarrow> step i s = Some t \<Longrightarrow>
      balanced (shown t) (freed t) (made t)"
    and step_ok: "ok s \<Longrightarrow> step i s = Some t \<Longrightarrow> ok t"
    and step_frees: "step i s = Some t \<Longrightarrow> \<exists>us. freed t = freed s @ us"
begin

lemma runs_balanced:
  "run_inputs step is s = Some t \<Longrightarrow> ok s \<Longrightarrow> balanced (shown s) (freed s) (made s) \<Longrightarrow> balanced (shown t) (freed t) (made t)"
  by (induction "is" arbitrary: s) (auto simp: bind_eq_Some_conv dest: step_balanced step_ok)

lemma runs_ok: "run_inputs step is s = Some t \<Longrightarrow> ok s \<Longrightarrow> ok t"
  by (induction "is" arbitrary: s) (auto simp: bind_eq_Some_conv dest: step_ok)

lemma runs_free: "run_inputs step is s = Some t \<Longrightarrow> \<exists>us. freed t = freed s @ us"
proof (induction "is" arbitrary: s)
  case (Cons i "is")
  then obtain u where u: "step i s = Some u" "run_inputs step is u = Some t" by (auto simp: bind_eq_Some_conv)
  obtain as bs where "freed u = freed s @ as" "freed t = freed u @ bs" using step_frees [OF u(1)] Cons.IH [OF u(2)] by blast
  then show ?case by simp
qed simp

lemma freed_never_shown:
  "run_inputs step is s = Some t \<Longrightarrow> ok s \<Longrightarrow> balanced (shown s) (freed s) (made s) \<Longrightarrow> set (freed s) \<inter> shown t = {}"
  using runs_balanced [of "is" s t] runs_free [of "is" s t] by (auto simp: balanced_def)

lemma all_freed_when_none_shown:
  "run_inputs step is s = Some t \<Longrightarrow> ok s \<Longrightarrow> balanced (shown s) (freed s) (made s) \<Longrightarrow>
   distinct (freed t) \<and> shown t \<inter> set (freed t) = {} \<and> shown t \<union> set (freed t) = made t"
  using runs_balanced [of "is" s t] by (simp add: balanced_def)

end

section \<open>The registry of the editor\<close>

record registry =
  rg_urls :: "(jstring \<times> jstring) list" \<comment> \<open>\<open>urlsByContentId\<close> in the order of the map\<close>
  rg_freed :: "jstring list" \<comment> \<open>the calls of \<open>revokeObjectURL\<close>\<close>
  rg_made :: "jstring set"

definition empty_registry :: registry where
  "empty_registry = \<lparr>rg_urls = [], rg_freed = [], rg_made = {}\<rparr>"

definition registry_get :: "registry \<Rightarrow> jstring \<Rightarrow> jstring option" where
  "registry_get r contentId = map_of (rg_urls r) contentId"

definition revokeWhenUnreferenced :: "jstring \<Rightarrow> registry \<Rightarrow> registry" where
  "revokeWhenUnreferenced url r = (if url \<notin> snd ` set (rg_urls r) then r\<lparr>rg_freed := rg_freed r @ [url]\<rparr> else r)"

definition registry_set :: "jstring \<Rightarrow> jstring \<Rightarrow> registry \<Rightarrow> registry option" where
  \<comment> \<open>\<open>None\<close> where it raises\<close>
  "registry_set contentId url r =
     (if js_trim contentId = [] \<or> js_trim url = [] then None
      else (case registry_get r contentId of
              None \<Rightarrow> Some (r\<lparr>rg_urls := AList.update contentId url (rg_urls r), rg_made := insert url (rg_made r)\<rparr>)
            | Some previous \<Rightarrow>
                if previous = url then Some r
                else Some (revokeWhenUnreferenced previous
                       (r\<lparr>rg_urls := AList.update contentId url (rg_urls r), rg_made := insert url (rg_made r)\<rparr>))))"

definition registry_delete :: "jstring \<Rightarrow> registry \<Rightarrow> registry \<times> bool" where
  "registry_delete contentId r =
     (case registry_get r contentId of
        None \<Rightarrow> (r, False)
      | Some url \<Rightarrow> (revokeWhenUnreferenced url (r\<lparr>rg_urls := AList.delete contentId (rg_urls r)\<rparr>), True))"

definition registry_clear :: "(jstring \<Rightarrow> 'e option) \<Rightarrow> registry \<Rightarrow> registry \<times> 'e option" where
  \<comment> \<open>\<open>fails u\<close> is the error revoking \<open>u\<close> raises; the first one is raised again after all were tried\<close>
  "registry_clear fails r =
     (let urls = js_unique (map snd (rg_urls r))
      in (r\<lparr>rg_urls := [], rg_freed := rg_freed r @ urls\<rparr>,
          case List.map_filter fails urls of [] \<Rightarrow> None | e # es \<Rightarrow> Some e))"

datatype registry_input = Set_url jstring jstring | Delete_url jstring | Clear_urls

fun registry_step :: "registry_input \<Rightarrow> registry \<Rightarrow> registry option" where
  \<comment> \<open>a URL that has been revoked is not given again\<close>
  "registry_step (Set_url c u) r = (if u \<in> set (rg_freed r) then None else registry_set c u r)"
| "registry_step (Delete_url c) r = Some (fst (registry_delete c r))"
| "registry_step Clear_urls r = Some (fst (registry_clear (\<lambda>u. None :: unit option) r))"

definition registry_ok :: "registry \<Rightarrow> bool" where
  "registry_ok r \<longleftrightarrow> distinct (map fst (rg_urls r))"

definition registry_urls :: "registry \<Rightarrow> jstring set" where
  "registry_urls r = snd ` set (rg_urls r)"

lemma ran_upd: "ran (m(k \<mapsto> v)) = insert v (ran (m(k := None)))"
  by (auto simp: ran_def split: if_splits)

lemma urls_update: "distinct (map fst xs) \<Longrightarrow> snd ` set (AList.update k v xs) = insert v (snd ` set (AList.delete k xs))"
proof -
  assume d: "distinct (map fst xs)"
  have "snd ` set ys = ran (map_of ys)" if "distinct (map fst ys)" for ys :: "('a \<times> 'b) list"
    using that by (simp add: ran_distinct)
  then show ?thesis
    using d ran_upd [of "map_of xs" k v] by (simp add: distinct_update distinct_delete update_conv' delete_conv')
qed

lemma urls_delete:
  "distinct (map fst xs) \<Longrightarrow> map_of xs k = Some v \<Longrightarrow> snd ` set xs = insert v (snd ` set (AList.delete k xs))"
  using urls_update [of xs k v] by (simp add: update_triv)

lemma revoke_balanced:
  assumes "distinct freed" "insert u (snd ` set (rg_urls r)) \<inter> set freed = {}" "insert u (snd ` set (rg_urls r)) \<union> set freed = made"
    and "rg_freed r = freed" "rg_made r = made"
  shows "balanced (registry_urls (revokeWhenUnreferenced u r)) (rg_freed (revokeWhenUnreferenced u r))
     (rg_made (revokeWhenUnreferenced u r))"
  using assms by (auto simp: balanced_def registry_urls_def revokeWhenUnreferenced_def)

lemma set_balanced:
  assumes ok: "registry_ok r" and bal: "balanced (registry_urls r) (rg_freed r) (rg_made r)"
    and step: "registry_set c u r = Some t" and new: "u \<notin> set (rg_freed r)"
  shows "balanced (registry_urls t) (rg_freed t) (rg_made t)"
proof (cases "map_of (rg_urls r) c")
  case None
  then have "AList.delete c (rg_urls r) = rg_urls r" by (simp add: delete_idem map_of_eq_None_iff)
  then have "snd ` set (AList.update c u (rg_urls r)) = insert u (registry_urls r)"
    using ok urls_update [of "rg_urls r" c u] by (simp add: registry_ok_def registry_urls_def)
  moreover have "t = r\<lparr>rg_urls := AList.update c u (rg_urls r), rg_made := insert u (rg_made r)\<rparr>"
    using step None by (simp add: registry_set_def registry_get_def split: if_splits)
  ultimately have "registry_urls t = insert u (registry_urls r)" "rg_freed t = rg_freed r" "rg_made t = insert u (rg_made r)"
    by (simp_all add: registry_urls_def)
  then show ?thesis using bal new by (auto simp: balanced_def)
next
  case (Some v)
  show ?thesis
  proof (cases "v = u")
    case True
    then show ?thesis using step Some bal by (simp add: registry_set_def registry_get_def split: if_splits)
  next
    case False
    let ?r = "r\<lparr>rg_urls := AList.update c u (rg_urls r), rg_made := insert u (rg_made r)\<rparr>"
    have t: "t = revokeWhenUnreferenced v ?r" using step Some False by (simp add: registry_set_def registry_get_def split: if_splits)
    have "insert v (snd ` set (AList.update c u (rg_urls r))) = insert u (registry_urls r)"
      using ok Some by (auto simp: registry_ok_def registry_urls_def urls_update urls_delete [of "rg_urls r" c v])
    then show ?thesis
      unfolding t using bal new by (intro revoke_balanced [where freed = "rg_freed r" and made = "insert u (rg_made r)"])
        (auto simp: balanced_def)
  qed
qed

lemma delete_balanced:
  assumes ok: "registry_ok r" and bal: "balanced (registry_urls r) (rg_freed r) (rg_made r)"
  shows "balanced (registry_urls (fst (registry_delete c r))) (rg_freed (fst (registry_delete c r))) (rg_made (fst (registry_delete c r)))"
proof (cases "map_of (rg_urls r) c")
  case (Some v)
  let ?r = "r\<lparr>rg_urls := AList.delete c (rg_urls r)\<rparr>"
  have "insert v (snd ` set (AList.delete c (rg_urls r))) = registry_urls r"
    using ok Some by (simp add: registry_ok_def registry_urls_def urls_delete [of "rg_urls r" c v])
  then show ?thesis
    using bal Some by (simp add: registry_delete_def registry_get_def)
      (intro revoke_balanced [where freed = "rg_freed r" and made = "rg_made r"], auto simp: balanced_def)
qed (simp add: registry_delete_def registry_get_def bal)

lemma clear_balanced:
  "balanced (registry_urls r) (rg_freed r) (rg_made r) \<Longrightarrow>
   balanced (registry_urls (fst (registry_clear fails r))) (rg_freed (fst (registry_clear fails r))) (rg_made (fst (registry_clear fails r)))"
  by (auto simp: balanced_def registry_clear_def registry_urls_def Let_def)

lemma registry_step_ok: "registry_ok r \<Longrightarrow> registry_step i r = Some t \<Longrightarrow> registry_ok t"
  by (cases i) (auto simp: registry_ok_def registry_set_def registry_delete_def registry_clear_def revokeWhenUnreferenced_def Let_def
      distinct_update distinct_delete split: if_splits option.splits)

lemma registry_step_frees: "registry_step i r = Some t \<Longrightarrow> \<exists>us. rg_freed t = rg_freed r @ us"
  by (cases i) (auto simp: registry_set_def registry_delete_def registry_clear_def revokeWhenUnreferenced_def Let_def
      split: if_splits option.splits)

interpretation editor_images: url_owner registry_step registry_ok registry_urls rg_freed rg_made
proof unfold_locales
  fix r i t
  assume "registry_ok r" "balanced (registry_urls r) (rg_freed r) (rg_made r)" "registry_step i r = Some t"
  then show "balanced (registry_urls t) (rg_freed t) (rg_made t)"
    by (cases i) (auto simp: set_balanced delete_balanced clear_balanced split: if_splits)
qed (rule registry_step_ok registry_step_frees; assumption)+

text \<open>The editor's registry frees each object URL exactly once and never too early: after any sequence of settings, deletions and
  clearings the URLs it was given are those it still shows, under some content id, and those it has revoked; the two have
  none in common, none was revoked twice, and what was revoked before is not shown again.\<close>

theorem registry_frees_once:
  assumes "run_inputs registry_step is empty_registry = Some r" "run_inputs registry_step js r = Some t"
  shows "distinct (rg_freed t) \<and> registry_urls t \<inter> set (rg_freed t) = {} \<and> registry_urls t \<union> set (rg_freed t) = rg_made t
    \<and> (\<exists>us. rg_freed t = rg_freed r @ us)"
proof -
  have e: "registry_ok empty_registry" "balanced (registry_urls empty_registry) (rg_freed empty_registry) (rg_made empty_registry)"
    by (simp_all add: registry_ok_def balanced_def empty_registry_def registry_urls_def)
  have "run_inputs registry_step (is @ js) empty_registry = Some t"
    using assms by (simp add: run_append)
  from editor_images.all_freed_when_none_shown [OF this e] editor_images.runs_free [OF assms(2)] show ?thesis by blast
qed

lemma registry_frees_once_witness:
  "\<exists>r t. run_inputs registry_step [Set_url (lit ''1'') (lit ''u'')] empty_registry = Some r
     \<and> run_inputs registry_step [Set_url (lit ''1'') (lit ''v''), Clear_urls] r = Some t
     \<and> registry_urls t \<union> set (rg_freed t) = rg_made t"
proof -
  have n: "js_trim (lit ''1'') \<noteq> []" "js_trim (lit ''u'') \<noteq> []" "js_trim (lit ''v'') \<noteq> []"
    by (simp_all add: js_trim_def lit_def js_ws_def)
  obtain r where r: "run_inputs registry_step [Set_url (lit ''1'') (lit ''u'')] empty_registry = Some r"
    and e: "r = \<lparr>rg_urls = [(lit ''1'', lit ''u'')], rg_freed = [], rg_made = {lit ''u''}\<rparr>"
    using n by (simp add: empty_registry_def registry_set_def registry_get_def)
  obtain t where t: "run_inputs registry_step [Set_url (lit ''1'') (lit ''v''), Clear_urls] r = Some t"
    using n by (simp add: e registry_set_def registry_get_def)
  from registry_frees_once [OF r t] r t show ?thesis by blast
qed

section \<open>The images of the compose window\<close>

record inline_image =
  ii_staged :: bool \<comment> \<open>\<open>origin\<close>: staged or persisted\<close>
  ii_upload :: "jstring option"
  ii_cid :: jstring
  ii_name :: jstring
  ii_type :: jstring
  ii_size :: nat
  ii_path :: jstring
  ii_url :: jstring
  ii_alt :: jstring

datatype slot = Waiting | Failed | Loaded inline_image
  \<comment> \<open>an element of the array of \<open>Promise.all\<close>: its preview is under way, could not be fetched, or is there with its URL\<close>

record compose_images =
  ci_list :: "inline_image list" \<comment> \<open>\<open>mailComposeInlineImagesRef\<close>\<close>
  ci_request :: nat \<comment> \<open>\<open>mailComposeInlineImageRequestRef\<close>\<close>
  ci_loads :: "(nat \<times> slot list) list" \<comment> \<open>the running calls of \<open>hydrateComposeInlineImages\<close> by their \<open>requestId\<close>\<close>
  ci_editor :: "jstring list" \<comment> \<open>the URLs that were returned to the editor\<close>
  ci_freed :: "jstring list"
  ci_made :: "jstring set"

definition no_images :: compose_images where
  "no_images = \<lparr>ci_list = [], ci_request = 0, ci_loads = [], ci_editor = [], ci_freed = [], ci_made = {}\<rparr>"

definition image_urls :: "compose_images \<Rightarrow> jstring list" where
  "image_urls s = map ii_url (ci_list s)"

fun loaded_images :: "slot list \<Rightarrow> inline_image list" where
  \<comment> \<open>\<open>drafts.filter((draft) => draft !== null)\<close>\<close>
  "loaded_images [] = []"
| "loaded_images (Loaded d # slots) = d # loaded_images slots"
| "loaded_images (x # slots) = loaded_images slots"

definition slot_urls :: "slot list \<Rightarrow> jstring list" where
  "slot_urls slots = map ii_url (loaded_images slots)"

definition loading_urls :: "compose_images \<Rightarrow> jstring list" where
  "loading_urls s = concat (map (\<lambda>(k, slots). slot_urls slots) (ci_loads s))"

definition held_urls :: "compose_images \<Rightarrow> jstring list" where
  "held_urls s = image_urls s @ loading_urls s @ ci_editor s"

definition replaceMailComposeInlineImages :: "inline_image list \<Rightarrow> compose_images \<Rightarrow> compose_images" where
  "replaceMailComposeInlineImages nxt s =
     s\<lparr>ci_list := nxt,
       ci_freed := ci_freed s @ filter (\<lambda>u. u \<notin> set (map ii_url nxt)) (js_unique (map ii_url (ci_list s)))\<rparr>"

definition clearMailComposeInlineImages :: "compose_images \<Rightarrow> compose_images" where
  "clearMailComposeInlineImages s = replaceMailComposeInlineImages [] (s\<lparr>ci_request := ci_request s + 1\<rparr>)"

definition images_of_document :: "jstring list \<Rightarrow> compose_images \<Rightarrow> compose_images" where
  \<comment> \<open>what \<open>handleMailDocumentChange\<close> does to the images, given the content ids of the document\<close>
  "images_of_document contentIds s = replaceMailComposeInlineImages (filter (\<lambda>i. ii_cid i \<in> set contentIds) (ci_list s)) s"

definition upload_done :: "nat \<Rightarrow> inline_image \<Rightarrow> jstring \<Rightarrow> compose_images \<Rightarrow> compose_images \<times> bool" where
  \<comment> \<open>\<open>uploadComposeInlineImage\<close> from the two object URLs on: one for the list, one that is returned to the editor; whether it raises\<close>
  "upload_done requestId draft editorUrl s =
     (let s1 = s\<lparr>ci_made := ci_made s \<union> {ii_url draft, editorUrl}\<rparr>
      in if requestId \<noteq> ci_request s then (s1\<lparr>ci_freed := ci_freed s @ [ii_url draft, editorUrl]\<rparr>, True)
         else ((replaceMailComposeInlineImages (filter (\<lambda>i. ii_cid i \<noteq> ii_cid draft) (ci_list s) @ [draft]) s1)
                 \<lparr>ci_editor := ci_editor s @ [editorUrl]\<rparr>, False))"

definition hydrate_begin :: "nat \<Rightarrow> compose_images \<Rightarrow> compose_images" where
  \<comment> \<open>\<open>hydrateComposeInlineImages\<close> up to the requests, of which there are \<open>n\<close>\<close>
  "hydrate_begin n s =
     (let requestId = ci_request s + 1; s1 = replaceMailComposeInlineImages [] (s\<lparr>ci_request := requestId\<rparr>)
      in s1\<lparr>ci_loads := ci_loads s @ [(requestId, replicate n Waiting)]\<rparr>)"

definition preview_settled :: "nat \<Rightarrow> nat \<Rightarrow> inline_image option \<Rightarrow> compose_images \<Rightarrow> compose_images option" where
  \<comment> \<open>the \<open>i\<close>th preview arrives and its URL is made, or it fails\<close>
  "preview_settled requestId i answer s =
     (case map_of (ci_loads s) requestId of
        Some slots \<Rightarrow>
          if i < length slots \<and> slots ! i = Waiting then
            (case answer of
               None \<Rightarrow> Some (s\<lparr>ci_loads := AList.update requestId (slots[i := Failed]) (ci_loads s)\<rparr>)
             | Some d \<Rightarrow> Some (s\<lparr>ci_loads := AList.update requestId (slots[i := Loaded d]) (ci_loads s),
                   ci_made := insert (ii_url d) (ci_made s)\<rparr>))
          else None
      | None \<Rightarrow> None)"

definition hydrate_done :: "nat \<Rightarrow> compose_images \<Rightarrow> compose_images option" where
  \<comment> \<open>the rest of \<open>hydrateComposeInlineImages\<close>, once all previews have arrived or failed\<close>
  "hydrate_done requestId s =
     (case map_of (ci_loads s) requestId of
        Some slots \<Rightarrow>
          if Waiting \<in> set slots then None
          else (let resolved = loaded_images slots; s1 = s\<lparr>ci_loads := AList.delete requestId (ci_loads s)\<rparr>
                in Some (if requestId \<noteq> ci_request s then s1\<lparr>ci_freed := ci_freed s @ map ii_url resolved\<rparr>
                         else replaceMailComposeInlineImages resolved s1))
      | None \<Rightarrow> None)"

definition unmount_images :: "compose_images \<Rightarrow> compose_images" where
  "unmount_images s = s\<lparr>ci_list := [], ci_freed := ci_freed s @ js_unique (map ii_url (ci_list s))\<rparr>"

datatype images_input =
    Document_changed "jstring list"
  | Upload_done nat inline_image jstring
  | Hydrate_begin nat
  | Preview_settled nat nat "inline_image option"
  | Hydrate_done nat
  | Clear_images
  | Unmount

fun images_step :: "images_input \<Rightarrow> compose_images \<Rightarrow> compose_images option" where
  \<comment> \<open>object URLs are new and different, and an upload was begun before\<close>
  "images_step (Document_changed cids) s = Some (images_of_document cids s)"
| "images_step (Upload_done r d e) s =
     (if r \<le> ci_request s \<and> ii_url d \<notin> ci_made s \<and> e \<notin> ci_made s \<and> e \<noteq> ii_url d then Some (fst (upload_done r d e s)) else None)"
| "images_step (Hydrate_begin n) s = Some (hydrate_begin n s)"
| "images_step (Preview_settled r i answer) s =
     (if answer \<noteq> None \<and> ii_url (the answer) \<in> ci_made s then None else preview_settled r i answer s)"
| "images_step (Hydrate_done r) s = hydrate_done r s"
| "images_step Clear_images s = Some (clearMailComposeInlineImages s)"
| "images_step Unmount s = Some (unmount_images s)"

definition images_ok :: "compose_images \<Rightarrow> bool" where
  "images_ok s \<longleftrightarrow> distinct (held_urls s) \<and> set (held_urls s) \<subseteq> ci_made s \<and> distinct (map fst (ci_loads s))
     \<and> (\<forall>k\<in>fst ` set (ci_loads s). k \<le> ci_request s)"

lemma balanced_exchange:
  assumes "balanced shown freed made" "nxt \<subseteq> shown \<union> new" "new \<inter> made = {}" "new \<subseteq> nxt" "distinct gone" "set gone = shown - nxt"
  shows "balanced nxt (freed @ gone) (made \<union> new)"
proof -
  have b: "distinct freed" "shown \<inter> set freed = {}" "shown \<union> set freed = made" using assms(1) by (simp_all add: balanced_def)
  have "distinct (freed @ gone)" using b(1,2) assms(5,6) by auto
  moreover have "nxt \<inter> set (freed @ gone) = {}" using b assms(2,3,6) by auto
  moreover have "nxt \<union> set (freed @ gone) = made \<union> new" using b(3) assms(2,4,6) by auto
  ultimately show ?thesis by (simp add: balanced_def)
qed

lemma balanced_freed:
  assumes "balanced shown freed made" "u \<notin> made"
  shows "balanced shown (freed @ [u]) (insert u made)"
proof -
  have "distinct freed" "shown \<inter> set freed = {}" "shown \<union> set freed = made" using assms(1) by (simp_all add: balanced_def)
  moreover from this(3) assms(2) have "u \<notin> shown" "u \<notin> set freed" by blast+
  ultimately show ?thesis by (simp add: balanced_def)
qed

text \<open>Each step only moves URLs: those held before and the new ones are held or revoked afterwards.\<close>

definition moves :: "compose_images \<Rightarrow> compose_images \<Rightarrow> bool" where
  "moves s t \<longleftrightarrow> (\<exists>new gone. distinct new \<and> set new \<inter> ci_made s = {} \<and> ci_made t = ci_made s \<union> set new
     \<and> ci_freed t = ci_freed s @ gone \<and> mset (held_urls t) + mset gone = mset (held_urls s) + mset new)"

lemma movesI:
  assumes "distinct new" "set new \<inter> ci_made s = {}" "ci_made t = ci_made s \<union> set new" "ci_freed t = ci_freed s @ gone"
    and "mset (held_urls t) + mset gone = mset (held_urls s) + mset new"
  shows "moves s t"
  using assms unfolding moves_def by blast

lemma moved:
  assumes m: "moves s t" and d: "distinct (held_urls s)" "set (held_urls s) \<subseteq> ci_made s"
  shows "distinct (held_urls t) \<and> set (held_urls t) \<subseteq> ci_made t
    \<and> (balanced (set (held_urls s)) (ci_freed s) (ci_made s) \<longrightarrow> balanced (set (held_urls t)) (ci_freed t) (ci_made t))"
proof -
  obtain new gone where n: "distinct new" "set new \<inter> ci_made s = {}" "ci_made t = ci_made s \<union> set new"
      "ci_freed t = ci_freed s @ gone" and e: "mset (held_urls t @ gone) = mset (held_urls s @ new)"
    using m by (auto simp: moves_def)
  have "distinct (held_urls s @ new)" using d n(1,2) by auto
  then have dt: "distinct (held_urls t @ gone)" using mset_eq_imp_distinct_iff [OF e] by blast
  have st: "set (held_urls t) \<union> set gone = set (held_urls s) \<union> set new" using mset_eq_setD [OF e] by simp
  have "balanced (set (held_urls t)) (ci_freed t) (ci_made t)" if b: "balanced (set (held_urls s)) (ci_freed s) (ci_made s)"
  proof -
    have b': "distinct (ci_freed s)" "set (held_urls s) \<inter> set (ci_freed s) = {}" "set (held_urls s) \<union> set (ci_freed s) = ci_made s"
      using b by (simp_all add: balanced_def)
    have "set gone \<inter> set (ci_freed s) = {}" "set (held_urls t) \<inter> set (ci_freed s) = {}" using st b' n(2) by blast+
    then have "distinct (ci_freed t)" "set (held_urls t) \<inter> set (ci_freed t) = {}" using dt b'(1) n(4) by auto
    moreover have "set (held_urls t) \<union> set (ci_freed t) = ci_made t" using st b'(3) n(3,4) by auto
    ultimately show ?thesis by (simp add: balanced_def)
  qed
  moreover have "set (held_urls t) \<subseteq> ci_made t" using st d(2) n(3) by blast
  ultimately show ?thesis using dt by simp
qed

lemma kept_urls:
  assumes "distinct (map f xs)"
  shows "mset (map f (filter p xs)) + mset (filter (\<lambda>u. u \<notin> f ` set (filter p xs)) (map f xs)) = mset (map f xs)"
proof -
  have "filter (\<lambda>u. u \<notin> f ` set (filter p xs)) (map f xs) = map f (filter (\<lambda>x. \<not> p x) xs)"
    using assms by (auto simp: filter_map comp_def distinct_map inj_on_def intro!: arg_cong [where f = "map f"] filter_cong)
  then show ?thesis by (simp add: image_mset_union [symmetric])
qed

lemma update_urls:
  "map_of xs k = Some v \<Longrightarrow> mset (concat (map (\<lambda>(k, v). f v) (AList.update k w xs))) + mset (f v)
     = mset (concat (map (\<lambda>(k, v). f v) xs)) + mset (f w)"
  by (induction xs) (auto split: if_splits)

lemma delete_urls:
  "map_of xs k = Some v \<Longrightarrow> distinct (map fst xs) \<Longrightarrow>
   mset (concat (map (\<lambda>(k, v). f v) (AList.delete k xs))) + mset (f v) = mset (concat (map (\<lambda>(k, v). f v) xs))"
  by (induction xs) (auto simp: delete_idem split: if_splits)

lemma slot_settled:
  "i < length slots \<Longrightarrow> slots ! i = Waiting \<Longrightarrow>
   mset (slot_urls (slots[i := Failed])) = mset (slot_urls slots)
   \<and> mset (slot_urls (slots[i := Loaded d])) = mset (slot_urls slots) + {#ii_url d#}"
proof (induction slots arbitrary: i)
  case (Cons x slots)
  then show ?case by (cases i; cases x) (auto simp: slot_urls_def)
qed simp

lemma none_loaded: "loaded_images (replicate n Waiting) = []"
  by (induction n) simp_all

lemma replace_moves:
  assumes "distinct (image_urls s)" "set (image_urls s) \<inter> set (map ii_url new) = {}"
  shows "mset (map ii_url (filter p (ci_list s) @ new))
    + mset (filter (\<lambda>u. u \<notin> set (map ii_url (filter p (ci_list s) @ new))) (js_unique (map ii_url (ci_list s))))
    = mset (image_urls s) + mset (map ii_url new)"
proof -
  have "filter (\<lambda>u. u \<notin> set (map ii_url (filter p (ci_list s) @ new))) (js_unique (map ii_url (ci_list s)))
      = filter (\<lambda>u. u \<notin> ii_url ` set (filter p (ci_list s))) (map ii_url (ci_list s))"
    using assms by (auto simp: image_urls_def js_unique_distinct intro!: filter_cong)
  then show ?thesis using kept_urls [of ii_url "ci_list s" p] assms(1) by (simp add: image_urls_def)
qed

lemma replace_list:
  assumes "distinct (image_urls s)" "set (image_urls s) \<inter> set (map ii_url new) = {}"
  obtains gone where "ci_freed (replaceMailComposeInlineImages (filter p (ci_list s) @ new) s) = ci_freed s @ gone"
    and "mset (map ii_url (filter p (ci_list s) @ new)) + mset gone = mset (image_urls s) + mset (map ii_url new)"
  using replace_moves [OF assms, of p] unfolding replaceMailComposeInlineImages_def by simp

lemma replace_fields [simp]:
  "ci_list (replaceMailComposeInlineImages nxt s) = nxt" "ci_request (replaceMailComposeInlineImages nxt s) = ci_request s"
  "ci_loads (replaceMailComposeInlineImages nxt s) = ci_loads s" "ci_editor (replaceMailComposeInlineImages nxt s) = ci_editor s"
  "ci_made (replaceMailComposeInlineImages nxt s) = ci_made s"
  by (simp_all add: replaceMailComposeInlineImages_def)

lemma held_mset: "mset (held_urls s) = mset (map ii_url (ci_list s)) + mset (loading_urls s) + mset (ci_editor s)"
  by (simp add: held_urls_def image_urls_def)

lemma loading_same: "ci_loads t = ci_loads s \<Longrightarrow> loading_urls t = loading_urls s"
  by (simp add: loading_urls_def)

text \<open>Another list in place of the old one, with images that are new or were loaded.\<close>

lemma replaced_moves:
  assumes t: "ci_list t = filter p (ci_list s) @ new" "ci_freed t = ci_freed (replaceMailComposeInlineImages (filter p (ci_list s) @ new) s)"
    and d: "distinct (image_urls s)" "set (image_urls s) \<inter> set (map ii_url new) = {}"
    and m: "distinct us" "set us \<inter> ci_made s = {}" "ci_made t = ci_made s \<union> set us"
      "mset (loading_urls t) + mset (ci_editor t) + mset (map ii_url new) = mset (loading_urls s) + mset (ci_editor s) + mset us"
  shows "moves s t"
proof -
  obtain gone where g: "ci_freed t = ci_freed s @ gone"
      "mset (map ii_url (ci_list t)) + mset gone = mset (image_urls s) + mset (map ii_url new)"
    using replace_list [OF d, of p] t by metis
  have "mset (held_urls t) + mset gone = (mset (map ii_url (ci_list t)) + mset gone) + (mset (loading_urls t) + mset (ci_editor t))"
    by (simp only: held_mset ac_simps)
  also have "\<dots> = mset (image_urls s) + (mset (loading_urls t) + mset (ci_editor t) + mset (map ii_url new))"
    unfolding g(2) by (simp only: ac_simps)
  also have "\<dots> = mset (held_urls s) + mset us" unfolding m(4) held_mset image_urls_def by (simp only: ac_simps)
  finally show ?thesis by (rule movesI [OF m(1-3) g(1)])
qed

lemma emptied: "ci_list t = [] \<Longrightarrow> ci_list t = filter (\<lambda>i. False) (ci_list s) @ []"
  by simp

lemma step_moves:
  assumes ok: "images_ok s" and step: "images_step i s = Some t"
  shows "moves s t"
proof -
  have d: "distinct (image_urls s)" using ok by (simp add: images_ok_def held_urls_def)
  show ?thesis
  proof (cases i)
    case (Document_changed cids)
    then show ?thesis using step d
      by (intro replaced_moves [where new = "[]" and us = "[]" and p = "\<lambda>i. ii_cid i \<in> set cids"])
        (auto simp: images_of_document_def loading_urls_def)
  next
    case (Upload_done r e u)
    then have n: "ii_url e \<notin> ci_made s" "u \<notin> ci_made s" "u \<noteq> ii_url e" and t: "t = fst (upload_done r e u s)"
      using step by (auto split: if_splits)
    show ?thesis
    proof (cases "r = ci_request s")
      case True
      have "ii_url e \<notin> set (image_urls s)" using ok n(1) by (auto simp: images_ok_def held_urls_def)
      then show ?thesis using n True d
        by (intro replaced_moves [where new = "[e]" and us = "[ii_url e, u]" and p = "\<lambda>i. ii_cid i \<noteq> ii_cid e"])
          (auto simp: t upload_done_def Let_def loading_urls_def replaceMailComposeInlineImages_def)
    next
      case False
      then show ?thesis using n
        by (intro movesI [where new = "[ii_url e, u]"]) (auto simp: t upload_done_def held_urls_def image_urls_def loading_urls_def)
    qed
  next
    case (Hydrate_begin n)
    then show ?thesis using step d
      by (intro replaced_moves [where new = "[]" and us = "[]" and p = "\<lambda>i. False"])
        (auto simp: hydrate_begin_def Let_def loading_urls_def slot_urls_def none_loaded replaceMailComposeInlineImages_def)
  next
    case (Preview_settled r j answer)
    then have n: "answer \<noteq> None \<longrightarrow> ii_url (the answer) \<notin> ci_made s" and t: "preview_settled r j answer s = Some t"
      using step by (auto split: if_splits)
    obtain slots where m: "map_of (ci_loads s) r = Some slots" "j < length slots" "slots ! j = Waiting"
      using t by (auto simp: preview_settled_def split: option.splits if_splits)
    note u = update_urls [OF m(1), of slot_urls] and ss = slot_settled [OF m(2,3)]
    show ?thesis
    proof (cases answer)
      case None
      then have "t = s\<lparr>ci_loads := AList.update r (slots[j := Failed]) (ci_loads s)\<rparr>" using t m by (simp add: preview_settled_def)
      then show ?thesis using u [of "slots[j := Failed]"] ss
        by (intro movesI [where new = "[]" and gone = "[]"]) (auto simp: held_urls_def image_urls_def loading_urls_def)
    next
      case (Some e)
      then have "t = s\<lparr>ci_loads := AList.update r (slots[j := Loaded e]) (ci_loads s), ci_made := insert (ii_url e) (ci_made s)\<rparr>"
        using t m by (simp add: preview_settled_def)
      then show ?thesis using u [of "slots[j := Loaded e]"] ss [of e] n Some
        by (intro movesI [where new = "[ii_url e]" and gone = "[]"]) (auto simp: held_urls_def image_urls_def loading_urls_def)
    qed
  next
    case (Hydrate_done r)
    then have t: "hydrate_done r s = Some t" using step by simp
    obtain slots where m: "map_of (ci_loads s) r = Some slots" "Waiting \<notin> set slots"
      using t by (auto simp: hydrate_done_def split: option.splits if_splits)
    have del: "mset (concat (map (\<lambda>(k, v). slot_urls v) (AList.delete r (ci_loads s)))) + mset (slot_urls slots) = mset (loading_urls s)"
      unfolding loading_urls_def by (rule delete_urls [OF m(1)]) (use ok in \<open>simp add: images_ok_def\<close>)
    have "set (slot_urls slots) \<subseteq> set (loading_urls s)" using arg_cong [OF del, of set_mset] by auto
    then have l: "set (image_urls s) \<inter> set (map ii_url (loaded_images slots)) = {}"
      using ok by (auto simp: images_ok_def held_urls_def slot_urls_def)
    have del': "mset (loading_urls (s\<lparr>ci_loads := AList.delete r (ci_loads s)\<rparr>)) + mset (map ii_url (loaded_images slots)) = mset (loading_urls s)"
      using del by (simp add: loading_urls_def slot_urls_def)
    show ?thesis
    proof (cases "r = ci_request s")
      case True
      have e: "t = replaceMailComposeInlineImages (loaded_images slots) (s\<lparr>ci_loads := AList.delete r (ci_loads s)\<rparr>)"
        using t m True by (simp add: hydrate_done_def Let_def)
      have "mset (loading_urls t) + mset (map ii_url (loaded_images slots)) = mset (loading_urls s)"
        using del' by (simp add: e loading_urls_def)
      then show ?thesis using d l
        by (intro replaced_moves [where new = "loaded_images slots" and us = "[]" and p = "\<lambda>i. False"])
          (auto simp: e replaceMailComposeInlineImages_def ac_simps)
    next
      case False
      then have e: "t = s\<lparr>ci_loads := AList.delete r (ci_loads s), ci_freed := ci_freed s @ map ii_url (loaded_images slots)\<rparr>"
        using t m by (simp add: hydrate_done_def Let_def)
      have "mset (held_urls t) + mset (map ii_url (loaded_images slots)) = mset (held_urls s) + mset []"
        using del' by (simp add: e held_mset loading_urls_def ac_simps)
      from movesI [OF _ _ _ _ this] show ?thesis by (simp add: e)
    qed
  next
    case Clear_images
    then show ?thesis using step d
      by (intro replaced_moves [where new = "[]" and us = "[]" and p = "\<lambda>i. False"])
        (auto simp: clearMailComposeInlineImages_def loading_urls_def replaceMailComposeInlineImages_def)
  next
    case Unmount
    then show ?thesis using step d
      by (intro replaced_moves [where new = "[]" and us = "[]" and p = "\<lambda>i. False"])
        (auto simp: unmount_images_def loading_urls_def replaceMailComposeInlineImages_def)
  qed
qed

lemma deleted_keys: "fst ` set (AList.delete k xs) \<subseteq> fst ` set xs"
  by (induction xs) auto

lemma step_loads:
  assumes "images_step i s = Some t" "distinct (map fst (ci_loads s))" "\<forall>k\<in>fst ` set (ci_loads s). k \<le> ci_request s"
  shows "distinct (map fst (ci_loads t)) \<and> (\<forall>k\<in>fst ` set (ci_loads t). k \<le> ci_request t)"
proof -
  have keys: "map fst (AList.update k v xs) = map fst xs" if "map_of xs k = Some w" for k v w and xs :: "(nat \<times> slot list) list"
    using that by (induction xs) (auto split: if_splits)
  have "map fst (ci_loads t) = map fst (ci_loads s) \<and> ci_request s \<le> ci_request t
    \<or> map fst (ci_loads t) = map fst (ci_loads s) @ [ci_request t] \<and> ci_request t = Suc (ci_request s)
    \<or> (\<exists>r. ci_loads t = AList.delete r (ci_loads s)) \<and> ci_request s \<le> ci_request t"
    using assms(1) keys by (cases i) (auto simp: images_of_document_def upload_done_def hydrate_begin_def hydrate_done_def
      clearMailComposeInlineImages_def unmount_images_def replaceMailComposeInlineImages_def preview_settled_def Let_def
      split: if_splits option.splits)
  then consider (same) "map fst (ci_loads t) = map fst (ci_loads s)" "ci_request s \<le> ci_request t"
    | (begun) "map fst (ci_loads t) = map fst (ci_loads s) @ [ci_request t]" "ci_request t = Suc (ci_request s)"
    | (ended) r where "ci_loads t = AList.delete r (ci_loads s)" "ci_request s \<le> ci_request t"
    by blast
  then show ?thesis
  proof cases
    case same
    then have "fst ` set (ci_loads t) = fst ` set (ci_loads s)" by (metis list.set_map)
    then show ?thesis using assms(2,3) same by force
  next
    case begun
    then have "fst ` set (ci_loads t) = insert (ci_request t) (fst ` set (ci_loads s))"
      by (metis (no_types, lifting) Un_insert_right list.set(1) list.set(2) list.set_map set_append sup_bot_right)
    then show ?thesis using assms(2,3) begun by force
  next
    case ended
    then have "fst ` set (ci_loads t) \<subseteq> fst ` set (ci_loads s)" using deleted_keys by metis
    then have "\<forall>k\<in>fst ` set (ci_loads t). k \<le> ci_request t" using assms(3) ended(2) le_trans by blast
    moreover have "distinct (map fst (ci_loads t))" using assms(2) by (simp add: ended(1) distinct_delete)
    ultimately show ?thesis by blast
  qed
qed

lemma images_step_ok: "images_ok s \<Longrightarrow> images_step i s = Some t \<Longrightarrow> images_ok t"
proof -
  assume ok: "images_ok s" and step: "images_step i s = Some t"
  then have "distinct (held_urls s)" "set (held_urls s) \<subseteq> ci_made s" "distinct (map fst (ci_loads s))"
      "\<forall>k\<in>fst ` set (ci_loads s). k \<le> ci_request s" by (simp_all add: images_ok_def)
  then show "images_ok t" using moved [OF step_moves [OF ok step]] step_loads [OF step] unfolding images_ok_def by blast
qed

lemma images_step_balanced:
  "images_ok s \<Longrightarrow> balanced (set (held_urls s)) (ci_freed s) (ci_made s) \<Longrightarrow> images_step i s = Some t \<Longrightarrow>
   balanced (set (held_urls t)) (ci_freed t) (ci_made t)"
  using moved [OF step_moves, of s i t] by (simp add: images_ok_def)

lemma images_step_frees: "images_step i s = Some t \<Longrightarrow> \<exists>us. ci_freed t = ci_freed s @ us"
  by (cases i) (auto simp: images_of_document_def upload_done_def hydrate_begin_def hydrate_done_def clearMailComposeInlineImages_def
      unmount_images_def replaceMailComposeInlineImages_def preview_settled_def Let_def split: if_splits option.splits)

interpretation compose_owner: url_owner images_step images_ok "\<lambda>s. set (held_urls s)" ci_freed ci_made
  by unfold_locales (blast intro: images_step_balanced images_step_ok images_step_frees)+

text \<open>After the window was closed, the loads that still run put nothing into the list.\<close>

fun load_input :: "images_input \<Rightarrow> bool" where
  "load_input (Preview_settled r i answer) = True"
| "load_input (Hydrate_done r) = True"
| "load_input i = False"

lemma closed_loads:
  assumes "run_inputs images_step js s = Some t" "list_all load_input js" "ci_list s = []" "\<forall>k\<in>fst ` set (ci_loads s). k < ci_request s"
  shows "ci_list t = []"
  using assms
proof (induction js arbitrary: s)
  case (Cons j js)
  then obtain u where u: "images_step j s = Some u" "run_inputs images_step js u = Some t" by (auto simp: bind_eq_Some_conv)
  have "ci_list u = [] \<and> (\<forall>k\<in>fst ` set (ci_loads u). k < ci_request u)"
  proof (cases j)
    case (Preview_settled r i answer)
    then have "ci_list u = ci_list s \<and> ci_request u = ci_request s
        \<and> (\<exists>v slots. map_of (ci_loads s) r = Some slots \<and> ci_loads u = AList.update r v (ci_loads s))"
      using u(1) by (auto simp: preview_settled_def split: option.splits if_splits)
    then obtain v slots where e: "ci_list u = ci_list s" "ci_request u = ci_request s" "map_of (ci_loads s) r = Some slots"
      "ci_loads u = AList.update r v (ci_loads s)" by blast
    have "r \<in> fst ` set (ci_loads s)" using map_of_SomeD [OF e(3)] by force
    then have "fst ` set (ci_loads u) = fst ` set (ci_loads s)" by (auto simp: e(4) dom_update)
    then show ?thesis using Cons.prems(3,4) e(1,2) by simp
  next
    case (Hydrate_done r)
    then obtain slots where m: "map_of (ci_loads s) r = Some slots" using u(1) by (auto simp: hydrate_done_def split: option.splits)
    then have "r \<noteq> ci_request s" using Cons.prems(4) by (force dest: map_of_SomeD)
    then have "ci_list u = ci_list s" "ci_request u = ci_request s" "ci_loads u = AList.delete r (ci_loads s)"
      using u(1) m Hydrate_done by (auto simp: hydrate_done_def Let_def split: if_splits)
    moreover from this(3) have "fst ` set (ci_loads u) \<subseteq> fst ` set (ci_loads s)" using deleted_keys by metis
    ultimately have "ci_list u = []" "\<forall>k\<in>fst ` set (ci_loads u). k < ci_request u" using Cons.prems(3,4) by (metis, metis subsetD)
    then show ?thesis by blast
  qed (use Cons.prems(2) in auto)
  then show ?case using Cons.IH [OF u(2)] Cons.prems(2) by simp
qed simp

text \<open>C33. The compose window keeps its object URLs in order: whatever is typed, uploaded, loaded or closed in whatever order,
  the previews of several loads arriving one by one in between, every URL that was made is held in exactly one place, by an
  image of the list, by a preview of a running load or by the editor it was returned to, or it has been revoked, once, and
  never comes back. After the window is closed the loads that still run put nothing into the list; once they have ended, all
  URLs but those returned to the editor are revoked.\<close>

theorem compose_urls_freed:
  assumes "run_inputs images_step is no_images = Some s" "run_inputs images_step js s = Some t"
    and "run_inputs images_step ks (clearMailComposeInlineImages t) = Some u" "list_all load_input ks"
  shows "distinct (image_urls t @ loading_urls t @ ci_editor t @ ci_freed t)
    \<and> set (image_urls t) \<union> set (loading_urls t) \<union> set (ci_editor t) \<union> set (ci_freed t) = ci_made t
    \<and> (\<exists>us. ci_freed t = ci_freed s @ us)
    \<and> ci_list u = [] \<and> (ci_loads u = [] \<longrightarrow> set (ci_freed u) = ci_made u - set (ci_editor u))"
proof -
  have e: "images_ok no_images" "balanced (set (held_urls no_images)) (ci_freed no_images) (ci_made no_images)"
    by (simp_all add: balanced_def no_images_def held_urls_def image_urls_def loading_urls_def images_ok_def)
  have r: "run_inputs images_step (is @ js) no_images = Some t" using assms by (simp add: run_append)
  have ok: "images_ok t" using compose_owner.runs_ok [OF r e(1)] .
  have b: "balanced (set (held_urls t)) (ci_freed t) (ci_made t)" using compose_owner.runs_balanced [OF r e] .
  have "run_inputs images_step ((is @ js) @ Clear_images # ks) no_images = Some u"
    using r assms(3) by (simp only: run_append) simp
  from compose_owner.runs_balanced [OF this e] have c: "balanced (set (held_urls u)) (ci_freed u) (ci_made u)" .
  have l: "ci_list u = []"
  proof (rule closed_loads [OF assms(3,4)])
    show "ci_list (clearMailComposeInlineImages t) = []" by (simp add: clearMailComposeInlineImages_def replaceMailComposeInlineImages_def)
    show "\<forall>k\<in>fst ` set (ci_loads (clearMailComposeInlineImages t)). k < ci_request (clearMailComposeInlineImages t)"
      using ok by (auto simp: images_ok_def clearMailComposeInlineImages_def replaceMailComposeInlineImages_def le_imp_less_Suc)
  qed
  have "set (ci_freed u) = ci_made u - set (ci_editor u)" if "ci_loads u = []"
    using c l that by (auto simp: balanced_def held_urls_def image_urls_def loading_urls_def)
  moreover have "distinct (image_urls t @ loading_urls t @ ci_editor t @ ci_freed t)"
    using ok b by (auto simp: images_ok_def balanced_def held_urls_def)
  moreover have "set (image_urls t) \<union> set (loading_urls t) \<union> set (ci_editor t) \<union> set (ci_freed t) = ci_made t"
    using b by (auto simp: balanced_def held_urls_def)
  ultimately show ?thesis using l compose_owner.runs_free [OF assms(2)] by blast
qed

definition sample_image :: "string \<Rightarrow> inline_image" where
  "sample_image u = \<lparr>ii_staged = True, ii_upload = Some (lit ''7''), ii_cid = lit ''1@moa'', ii_name = lit ''a.png'', ii_type = lit ''image/png'',
     ii_size = 9, ii_path = lit ''/p'', ii_url = lit u, ii_alt = lit ''a.png''\<rparr>"

lemma compose_urls_freed_witness:
  "\<exists>s t u. run_inputs images_step [Hydrate_begin 2, Preview_settled 1 0 (Some (sample_image ''blob:1''))] no_images = Some s
     \<and> run_inputs images_step [Hydrate_begin 0, Upload_done 2 (sample_image ''blob:2'') (lit ''blob:3'')] s = Some t
     \<and> run_inputs images_step [Preview_settled 1 1 None, Hydrate_done 1, Hydrate_done 2] (clearMailComposeInlineImages t) = Some u
     \<and> ci_loads u = [] \<and> set (ci_freed u) = ci_made u - {lit ''blob:3''}"
proof -
  have urls: "ii_url (sample_image u) = lit u" for u by (simp add: sample_image_def)
  have new: "lit ''blob:1'' \<noteq> lit ''blob:2''" "lit ''blob:1'' \<noteq> lit ''blob:3''" "lit ''blob:2'' \<noteq> lit ''blob:3''" by (simp_all add: lit_def)
  define s where "s = \<lparr>ci_list = [], ci_request = 1, ci_loads = [(1, [Loaded (sample_image ''blob:1''), Waiting])], ci_editor = [],
    ci_freed = [], ci_made = {lit ''blob:1''}\<rparr>"
  define t where "t = \<lparr>ci_list = [sample_image ''blob:2''], ci_request = 2,
    ci_loads = [(1, [Loaded (sample_image ''blob:1''), Waiting]), (2, [])], ci_editor = [lit ''blob:3''],
    ci_freed = [], ci_made = {lit ''blob:1'', lit ''blob:2'', lit ''blob:3''}\<rparr>"
  have s: "run_inputs images_step [Hydrate_begin 2, Preview_settled 1 0 (Some (sample_image ''blob:1''))] no_images = Some s"
    by (simp add: no_images_def s_def hydrate_begin_def preview_settled_def replaceMailComposeInlineImages_def urls numeral_2_eq_2)
  have t: "run_inputs images_step [Hydrate_begin 0, Upload_done 2 (sample_image ''blob:2'') (lit ''blob:3'')] s = Some t"
    using new by (auto simp: s_def t_def hydrate_begin_def upload_done_def Let_def replaceMailComposeInlineImages_def urls)
  obtain u where u: "run_inputs images_step [Preview_settled 1 1 None, Hydrate_done 1, Hydrate_done 2] (clearMailComposeInlineImages t) = Some u"
    and l: "ci_loads u = []" "ci_editor u = [lit ''blob:3'']"
    by (simp add: t_def clearMailComposeInlineImages_def replaceMailComposeInlineImages_def preview_settled_def hydrate_done_def Let_def)
  have "list_all load_input [Preview_settled 1 1 None, Hydrate_done 1, Hydrate_done 2]" by simp
  from compose_urls_freed [OF s t u this] s t u l show ?thesis by auto
qed

text \<open>An upload that is still running when the page goes away puts its image into the list afterwards, where nothing revokes it:
  leaving the page does not count as another mail.\<close>

lemma upload_after_unmount:
  "\<exists>t. run_inputs images_step [Unmount, Upload_done 0 (sample_image ''blob:1'') (lit ''blob:2'')] no_images = Some t
     \<and> image_urls t = [lit ''blob:1''] \<and> ci_freed t = []"
  by (simp add: no_images_def sample_image_def unmount_images_def upload_done_def Let_def replaceMailComposeInlineImages_def image_urls_def
      lit_def)

section \<open>The previews of a received mail\<close>

record previews =
  pv_disposed :: bool
  pv_owned :: "jstring list" \<comment> \<open>\<open>owned\<close>, in the order of the set\<close>
  pv_freed :: "jstring list"
  pv_made :: "jstring set"

definition preview_loaded :: "jstring \<Rightarrow> previews \<Rightarrow> previews" where
  \<comment> \<open>the object URL of a preview that could be fetched\<close>
  "preview_loaded url p =
     (if pv_disposed p then p\<lparr>pv_freed := pv_freed p @ [url], pv_made := insert url (pv_made p)\<rparr>
      else p\<lparr>pv_owned := pv_owned p @ [url], pv_made := insert url (pv_made p)\<rparr>)"

definition previews_dispose :: "previews \<Rightarrow> previews" where
  "previews_dispose p =
     (if pv_disposed p then p else p\<lparr>pv_disposed := True, pv_freed := pv_freed p @ pv_owned p, pv_owned := []\<rparr>)"

datatype preview_input = Preview_loaded jstring | Dispose

fun preview_step :: "preview_input \<Rightarrow> previews \<Rightarrow> previews option" where
  "preview_step (Preview_loaded u) p = (if u \<in> pv_made p then None else Some (preview_loaded u p))"
| "preview_step Dispose p = Some (previews_dispose p)"

definition previews_ok :: "previews \<Rightarrow> bool" where
  "previews_ok p \<longleftrightarrow> distinct (pv_owned p) \<and> set (pv_owned p) \<subseteq> pv_made p \<and> (pv_disposed p \<longrightarrow> pv_owned p = [])"

interpretation preview_owner: url_owner preview_step previews_ok "\<lambda>p. set (pv_owned p)" pv_freed pv_made
proof unfold_locales
  fix p i t
  assume ok: "previews_ok p" and bal: "balanced (set (pv_owned p)) (pv_freed p) (pv_made p)" and step: "preview_step i p = Some t"
  show "balanced (set (pv_owned t)) (pv_freed t) (pv_made t)"
  proof (cases i)
    case (Preview_loaded u)
    then have u: "u \<notin> pv_made p" and t: "t = preview_loaded u p" using step by (auto split: if_splits)
    show ?thesis
      using balanced_freed [OF bal u] balanced_exchange [OF bal, of "insert u (set (pv_owned p))" "{u}" "[]"] u
      by (auto simp: t preview_loaded_def)
  next
    case Dispose
    then have t: "t = previews_dispose p" using step by simp
    show ?thesis
      using balanced_exchange [OF bal, of "{}" "{}" "pv_owned p"] ok bal by (auto simp: t previews_dispose_def previews_ok_def)
  qed
next
  fix p i t
  assume "previews_ok p" "preview_step i p = Some t"
  then show "previews_ok t"
    by (cases i) (auto simp: previews_ok_def preview_loaded_def previews_dispose_def split: if_splits)
next
  fix p i t
  assume "preview_step i p = Some t"
  then show "\<exists>us. pv_freed t = pv_freed p @ us"
    by (cases i) (auto simp: preview_loaded_def previews_dispose_def split: if_splits)
qed

lemma previews_disposed:
  assumes "run_inputs preview_step is \<lparr>pv_disposed = False, pv_owned = [], pv_freed = [], pv_made = {}\<rparr> = Some p" "pv_disposed p"
  shows "set (pv_freed p) = pv_made p \<and> distinct (pv_freed p)"
proof -
  let ?p = "\<lparr>pv_disposed = False, pv_owned = [], pv_freed = [], pv_made = {}\<rparr>"
  have ok: "previews_ok ?p" and bal: "balanced (set (pv_owned ?p)) (pv_freed ?p) (pv_made ?p)"
    by (simp_all add: previews_ok_def balanced_def)
  have "pv_owned p = []" using preview_owner.runs_ok [OF assms(1) ok] assms(2) by (simp add: previews_ok_def)
  with preview_owner.all_freed_when_none_shown [OF assms(1) ok bal] show ?thesis by simp
qed

end
