(* ===== verification/Mail_Compose.thy ===== *)
theory Mail_Compose
  imports Mail_Document Inline_Images Js_Date
begin

text \<open>
  The compose window of the web client (\<open>user-web/src/App.tsx\<close>): what it holds, how it is opened for a new mail, a
  reply, a forwarded mail, a draft or a scheduled mail, the attachments it counts, and the checks and the request of saving and
  sending. The server, the address books, the reading of a local time and the answers of the user are parameters.
\<close>

section \<open>What the window holds\<close>

record sized_attachment = attachment_view +
  av_size :: nat

record compose_file =
  fl_id :: jstring
  fl_size :: nat

record compose_window =
  cw_form :: compose_form
  cw_context :: compose_context
  cw_files :: "compose_file list"
  cw_images :: "inline_image list"
  cw_source :: "sized_attachment list option" \<comment> \<open>the attachments of \<open>mailComposeSourceDetail\<close>\<close>
  cw_source_id :: jstring
  cw_selected :: "jstring list" \<comment> \<open>\<open>selectedForwardAttachmentIds\<close>\<close>
  cw_editing_scheduled :: jstring
  cw_editing_draft :: jstring
  cw_persisted :: "sized_attachment list"
  cw_open :: bool

definition maxFiles :: nat where "maxFiles = 10"
definition maxFileBytes :: nat where "maxFileBytes = 10485760"
definition maxTotalBytes :: nat where "maxTotalBytes = 26214400"

definition referenced_ids :: "js_env \<Rightarrow> (jstring \<Rightarrow> jstring option) \<Rightarrow> compose_window \<Rightarrow> jstring list" where
  \<comment> \<open>\<open>mailComposeReferencedContentIds\<close>; a form only ever holds a document that can be projected\<close>
  "referenced_ids E U w = (case projectMailDocument E U (cf_document (cw_form w)) of Inl e \<Rightarrow> [] | Inr pr \<Rightarrow> contentIds pr)"

definition referenced :: "jstring list \<Rightarrow> ('a attachment_view_scheme) \<Rightarrow> bool" where
  "referenced ids a \<longleftrightarrow> (case av_content_id a of None \<Rightarrow> False | Some c \<Rightarrow> c \<noteq> [] \<and> c \<in> set ids)"

definition selectedForwardAttachments :: "compose_window \<Rightarrow> sized_attachment list" where
  "selectedForwardAttachments w =
     (case cw_source w of None \<Rightarrow> [] | Some as \<Rightarrow> filter (\<lambda>a. \<not> av_inline a \<and> av_id a \<in> set (cw_selected w)) as)"

definition selectedForwardInlineAttachments :: "jstring list \<Rightarrow> compose_window \<Rightarrow> sized_attachment list" where
  "selectedForwardInlineAttachments ids w =
     (case cw_source w of None \<Rightarrow> []
      | Some as \<Rightarrow> filter (\<lambda>a. av_inline a \<and> av_id a \<in> set (cw_selected w) \<and> referenced ids a) as)"

definition mailComposeRetainedAttachments :: "jstring list \<Rightarrow> compose_window \<Rightarrow> sized_attachment list" where
  "mailComposeRetainedAttachments ids w = filter (\<lambda>a. \<not> av_inline a \<or> referenced ids a) (cw_persisted w)"

definition staged_images :: "compose_window \<Rightarrow> inline_image list" where
  "staged_images w = filter ii_staged (cw_images w)"

definition mailComposeAttachmentCount :: "jstring list \<Rightarrow> compose_window \<Rightarrow> nat" where
  "mailComposeAttachmentCount ids w =
     length (cw_files w) + length (staged_images w) + length (selectedForwardAttachments w)
     + length (selectedForwardInlineAttachments ids w) + length (mailComposeRetainedAttachments ids w)"

definition mailComposeAttachmentBytes :: "jstring list \<Rightarrow> compose_window \<Rightarrow> nat" where
  "mailComposeAttachmentBytes ids w =
     sum_list (map fl_size (cw_files w)) + sum_list (map ii_size (staged_images w))
     + sum_list (map av_size (selectedForwardAttachments w)) + sum_list (map av_size (selectedForwardInlineAttachments ids w))
     + sum_list (map av_size (mailComposeRetainedAttachments ids w))"

section \<open>Attachments\<close>

datatype attachment_error = Too_many_files | Bad_file_size | Too_many_bytes | Not_signed_in | Upload_limit

definition addMailComposeFiles :: "jstring list \<Rightarrow> compose_file list \<Rightarrow> compose_window \<Rightarrow> attachment_error + compose_window" where
  \<comment> \<open>the chosen files with the ids they get\<close>
  "addMailComposeFiles ids additions w =
     (if additions = [] then Inr w
      else if maxFiles < mailComposeAttachmentCount ids w + length additions then Inl Too_many_files
      else if list_ex (\<lambda>f. fl_size f = 0 \<or> maxFileBytes < fl_size f) additions then Inl Bad_file_size
      else if maxTotalBytes < mailComposeAttachmentBytes ids w + sum_list (map fl_size additions) then Inl Too_many_bytes
      else Inr (w\<lparr>cw_files := cw_files w @ additions\<rparr>))"

definition removeMailComposeAttachment :: "jstring \<Rightarrow> compose_window \<Rightarrow> compose_window" where
  "removeMailComposeAttachment i w = w\<lparr>cw_files := filter (\<lambda>f. fl_id f \<noteq> i) (cw_files w)\<rparr>"

definition upload_allowed :: "bool \<Rightarrow> nat \<Rightarrow> jstring list \<Rightarrow> compose_window \<Rightarrow> attachment_error option" where
  \<comment> \<open>the checks of \<open>uploadComposeInlineImage\<close> before the upload\<close>
  "upload_allowed signed bytes ids w =
     (if \<not> signed then Some Not_signed_in
      else if maxFiles \<le> mailComposeAttachmentCount ids w \<or> maxTotalBytes < mailComposeAttachmentBytes ids w + bytes then Some Upload_limit
      else None)"

definition buildComposeInlineAttachments :: "jstring list \<Rightarrow> inline_image list \<Rightarrow> jstring list" where
  \<comment> \<open>the upload ids of the attachments that are sent for the staged images of the document\<close>
  "buildComposeInlineAttachments ids images =
     map (\<lambda>i. the (ii_upload i))
       (filter (\<lambda>i. ii_staged i \<and> ii_upload i \<noteq> None \<and> ii_upload i \<noteq> Some [] \<and> ii_cid i \<in> set ids) images)"

section \<open>Opening and closing\<close>

definition closed_window :: "compose_form \<Rightarrow> compose_window" where
  "closed_window f = \<lparr>cw_form = f, cw_context = Compose_new, cw_files = [], cw_images = [], cw_source = None, cw_source_id = [],
     cw_selected = [], cw_editing_scheduled = [], cw_editing_draft = [], cw_persisted = [], cw_open = False\<rparr>"

type_synonym editor = "js_env \<times> (jstring \<Rightarrow> jstring option) \<times> html_env option \<times> (jstring \<Rightarrow> jsval)"
  \<comment> \<open>what the making of a form depends on\<close>

definition make_form :: "editor \<Rightarrow> compose_values \<Rightarrow> rich_error + compose_form" where
  "make_form ed v = (case ed of (E, U, H, N) \<Rightarrow> createMailComposeForm E U H N v)"

definition openNewMailCompose :: "editor \<Rightarrow> compose_window \<Rightarrow> rich_error + compose_window" where
  "openNewMailCompose ed w =
     bind_r (make_form ed no_values) (\<lambda>f. Inr ((closed_window f)\<lparr>cw_open := True\<rparr>))"

definition resetMailCompose :: "editor \<Rightarrow> compose_window \<Rightarrow> rich_error + compose_window" where
  "resetMailCompose ed w = bind_r (make_form ed no_values) (\<lambda>f. Inr (closed_window f))"

definition closeMailCompose :: "editor \<Rightarrow> jstring list \<Rightarrow> compose_window \<Rightarrow> rich_error + compose_window \<times> bool" where
  \<comment> \<open>whether the user is asked first\<close>
  "closeMailCompose ed ids w =
     (if isMailComposeDirty (fst ed) (cw_form w) (length (cw_images w) + mailComposeAttachmentCount ids w) then Inr (w, True)
      else bind_r (resetMailCompose ed w) (\<lambda>v. Inr (v, False)))"

definition leave_compose :: "compose_window \<Rightarrow> compose_window" where
  \<comment> \<open>\<open>resetQuickComposeMode\<close>: another folder or menu hides the window\<close>
  "leave_compose w = w\<lparr>cw_open := False\<rparr>"

definition openMailComposeFromDetail ::
  "editor \<Rightarrow> (jstring \<Rightarrow> jstring) \<Rightarrow> jstring \<Rightarrow> compose_context \<Rightarrow> mail_detail \<Rightarrow> sized_attachment list \<Rightarrow> compose_window \<Rightarrow>
   rich_error + compose_window" where
  \<comment> \<open>\<open>ownEmail\<close> is that of the user, \<open>fmt\<close> is \<open>formatMailDate\<close>; a reply keeps the list of images\<close>
  "openMailComposeFromDetail ed fmt ownEmail mode d atts w =
     (let (to, cc) = (if mode = Compose_forward then ([], [])
                      else buildMailReplyRecipients (fst ed) d ownEmail (mode = Compose_reply_all))
      in bind_r (make_form ed
           \<lparr>cv_to = Some (js_join [44, 32] to), cv_cc = Some (js_join [44, 32] cc), cv_bcc = Some [],
            cv_subject = Some (withMailSubjectPrefix (md_subject d) mode), cv_text = Some (buildMailQuotedBody fmt d),
            cv_html = (if mode = Compose_forward then md_body_html d else None), cv_scheduled = Some []\<rparr>) (\<lambda>f.
         Inr (w\<lparr>cw_form := f, cw_context := mode, cw_source := Some atts, cw_source_id := md_mail_id d,
                cw_selected := (if mode = Compose_forward then filter (\<lambda>i. i \<noteq> []) (map av_id atts) else []),
                cw_files := [], cw_open := True\<rparr>)))"

definition edit_values :: "mail_detail \<Rightarrow> jstring \<Rightarrow> compose_values" where
  "edit_values d scheduledAt =
     (let values = (\<lambda>k. js_join [44, 32] (map rc_email (filter (\<lambda>r. rc_kind r = lit k) (md_recipients d))))
      in \<lparr>cv_to = Some (values ''to''), cv_cc = Some (values ''cc''), cv_bcc = Some (values ''bcc''),
          cv_subject = Some (md_subject d), cv_text = Some (md_body_text d), cv_html = md_body_html d, cv_scheduled = Some scheduledAt\<rparr>)"

definition editDraftMail ::
  "editor \<Rightarrow> compose_context option \<Rightarrow> jstring option \<Rightarrow> mail_detail \<Rightarrow> sized_attachment list \<Rightarrow> compose_window \<Rightarrow> rich_error + compose_window" where
  \<comment> \<open>\<open>action\<close> and \<open>source\<close> are the \<open>sourceAction\<close> and \<open>sourceMailId\<close> of the mail\<close>
  "editDraftMail ed action source d atts w =
     bind_r (make_form ed (edit_values d [])) (\<lambda>f.
       Inr (w\<lparr>cw_editing_scheduled := [], cw_editing_draft := md_mail_id d, cw_persisted := atts, cw_form := f,
              cw_context := (case action of None \<Rightarrow> Compose_new | Some c \<Rightarrow> c), cw_source_id := or_empty source, cw_source := None,
              cw_files := [], cw_open := True\<rparr>))"

definition scheduled_input :: "(jstring \<Rightarrow> jsdate) \<Rightarrow> jstring option \<Rightarrow> (unit + jstring)" where
  \<comment> \<open>\<open>new Date(s).toISOString().slice(0, 16)\<close>, which raises for an invalid date\<close>
  "scheduled_input parse s =
     (case s of None \<Rightarrow> Inr []
      | Some t \<Rightarrow> if t = [] then Inr [] else (case parse t of None \<Rightarrow> Inl () | Some ms \<Rightarrow> Inr (take 16 (iso_string ms))))"

definition editScheduledMail ::
  "editor \<Rightarrow> (jstring \<Rightarrow> jsdate) \<Rightarrow> jstring option \<Rightarrow> compose_context option \<Rightarrow> jstring option \<Rightarrow> mail_detail \<Rightarrow> sized_attachment list \<Rightarrow>
   compose_window \<Rightarrow> (rich_error + compose_window) option" where
  \<comment> \<open>\<open>None\<close> where the date raises\<close>
  "editScheduledMail ed parse scheduledAt action source d atts w =
     (case scheduled_input parse scheduledAt of
        Inl u \<Rightarrow> None
      | Inr text \<Rightarrow> Some (bind_r (make_form ed (edit_values d text)) (\<lambda>f.
          Inr (w\<lparr>cw_editing_scheduled := md_mail_id d, cw_editing_draft := [], cw_persisted := atts, cw_form := f,
                 cw_context := (case action of None \<Rightarrow> Compose_new | Some c \<Rightarrow> c), cw_source_id := or_empty source, cw_source := None,
                 cw_selected := [], cw_files := [], cw_open := True\<rparr>))))"

section \<open>Saving and sending\<close>

datatype compose_action = Save_it | Send_it | Schedule_it

record compose_payload =
  cp_to :: "jstring list"
  cp_cc :: "jstring list"
  cp_bcc :: "jstring list"
  cp_subject :: jstring
  cp_html :: jstring
  cp_text :: jstring
  cp_attachments :: "jstring list" \<comment> \<open>upload ids\<close>
  cp_scheduled :: "jstring option"
  cp_confirmed :: bool
  cp_context :: compose_context
  cp_source :: "jstring option"
  cp_copied :: "jstring list"

datatype compose_request =
    Update_scheduled jstring compose_payload "jstring list" \<comment> \<open>with the retained attachments\<close>
  | Update_draft jstring compose_payload "jstring list"
  | Save_draft compose_payload
  | Send_mail compose_payload

datatype compose_problem =
    Ask_recipient picker_request
  | File_limit
  | Byte_limit
  | Empty_draft
  | No_recipient
  | No_subject
  | No_body
  | No_time
  | Bad_time
  | Smtp_disabled
  | Delivery_unknown
  | No_preferences
  | Not_confirmed
  | Upload_failed

record compose_world =
  wd_domain :: jstring
  wd_suggestions :: "recipient_suggestion list" \<comment> \<open>the address books as far as they could be loaded\<close>
  wd_same :: "jstring \<Rightarrow> jstring \<Rightarrow> bool"
  wd_delivery :: "bool option" \<comment> \<open>\<open>mailDeliveryStatus\<close>: whether the provider is enabled\<close>
  wd_preferences :: "bool option" \<comment> \<open>\<open>confirmBeforeSend\<close>, \<open>None\<close> where they cannot be fetched\<close>
  wd_confirms :: bool
  wd_local :: "jstring \<Rightarrow> jsdate" \<comment> \<open>\<open>new Date(text)\<close> of a local time\<close>
  wd_uploads :: "jstring list option" \<comment> \<open>the upload ids of the files, \<open>None\<close> where one fails\<close>

definition resolve_fields :: "js_env \<Rightarrow> compose_world \<Rightarrow> compose_action \<Rightarrow> compose_form \<Rightarrow> compose_problem + compose_form" where
  "resolve_fields E W action form =
     (if action = Save_it then Inr form
      else (let R = (\<lambda>s. case resolveRecipientInput E (wd_same W) (wd_suggestions W) s of Inl r \<Rightarrow> Inl (Ask_recipient r) | Inr t \<Rightarrow> Inr t)
            in bind_r (R (cf_to form)) (\<lambda>to. bind_r (R (cf_cc form)) (\<lambda>cc. bind_r (R (cf_bcc form)) (\<lambda>bcc.
                 Inr (form\<lparr>cf_to := to, cf_cc := cc, cf_bcc := bcc\<rparr>))))))"

definition scheduled_time :: "compose_world \<Rightarrow> compose_action \<Rightarrow> jstring \<Rightarrow> compose_problem + jstring option" where
  "scheduled_time W action text =
     (if action \<noteq> Schedule_it then Inr None
      else if text = [] then Inl No_time
      else (case wd_local W text of None \<Rightarrow> Inl Bad_time | Some ms \<Rightarrow> Inr (Some (iso_string ms))))"

definition confirm_send :: "compose_world \<Rightarrow> compose_action \<Rightarrow> compose_problem + bool" where
  "confirm_send W action =
     (if action = Save_it then Inr False
      else (case wd_preferences W of None \<Rightarrow> Inl No_preferences
            | Some ask \<Rightarrow> if ask \<and> \<not> wd_confirms W then Inl Not_confirmed else Inr True))"

definition some_text :: "jstring \<Rightarrow> jstring option" where
  \<comment> \<open>\<open>s || undefined\<close>\<close>
  "some_text s = (if s = [] then None else Some s)"

definition compose_request :: "compose_action \<Rightarrow> jstring list \<Rightarrow> compose_window \<Rightarrow> compose_payload \<Rightarrow> compose_request" where
  "compose_request action ids w p =
     (let retained = map av_id (mailComposeRetainedAttachments ids w)
      in if cw_editing_scheduled w \<noteq> [] \<and> action = Schedule_it then Update_scheduled (cw_editing_scheduled w) p retained
         else if cw_editing_draft w \<noteq> [] \<and> action = Save_it then Update_draft (cw_editing_draft w) p retained
         else if action = Save_it then Save_draft p else Send_mail p)"

definition check_mail ::
  "js_env \<Rightarrow> compose_world \<Rightarrow> compose_action \<Rightarrow> jstring list \<Rightarrow> compose_window \<Rightarrow> jstring list \<Rightarrow> compose_problem + jstring option \<times> bool" where
  \<comment> \<open>the checks of \<open>submitMailCompose\<close>, given the recipients: the time of a scheduled mail and the confirmation\<close>
  "check_mail E W action ids w recipients =
     (let subject = js_trim (cf_subject (cw_form w)); bodyText = js_trim (cf_text (cw_form w));
          external = hasExternalRecipients E recipients (wd_domain W); sending = (action \<noteq> Save_it)
       in bind_r (check_r (mailComposeAttachmentCount ids w \<le> maxFiles) File_limit) (\<lambda>_.
          bind_r (check_r (mailComposeAttachmentBytes ids w \<le> maxTotalBytes) Byte_limit) (\<lambda>_.
          bind_r (check_r (sending \<or> recipients \<noteq> [] \<or> subject \<noteq> [] \<or> bodyText \<noteq> [] \<or> mailComposeAttachmentCount ids w \<noteq> 0) Empty_draft) (\<lambda>_.
          bind_r (check_r (\<not> sending \<or> recipients \<noteq> []) No_recipient) (\<lambda>_.
          bind_r (check_r (\<not> sending \<or> subject \<noteq> []) No_subject) (\<lambda>_.
          bind_r (check_r (\<not> sending \<or> bodyText \<noteq> []) No_body) (\<lambda>_.
          bind_r (scheduled_time W action (cf_scheduled (cw_form w))) (\<lambda>scheduledAt.
          bind_r (check_r (\<not> (sending \<and> external \<and> wd_delivery W \<noteq> Some True)) Smtp_disabled) (\<lambda>_.
          bind_r (check_r (\<not> (sending \<and> external \<and> wd_delivery W = None)) Delivery_unknown) (\<lambda>_.
          bind_r (confirm_send W action) (\<lambda>confirmed. Inr (scheduledAt, confirmed))))))))))))"

definition compose_payload_of ::
  "jstring list \<Rightarrow> compose_window \<Rightarrow> jstring list \<Rightarrow> jstring list \<Rightarrow> jstring list \<Rightarrow> jstring option \<Rightarrow> bool \<Rightarrow> jstring list \<Rightarrow> compose_payload" where
  "compose_payload_of ids w to cc bcc scheduledAt confirmed uploaded =
     \<lparr>cp_to = to, cp_cc = cc, cp_bcc = bcc, cp_subject = js_trim (cf_subject (cw_form w)), cp_html = cf_html (cw_form w),
      cp_text = cf_text (cw_form w), cp_attachments = uploaded @ buildComposeInlineAttachments ids (cw_images w),
      cp_scheduled = scheduledAt, cp_confirmed = confirmed, cp_context = cw_context w, cp_source = some_text (cw_source_id w),
      cp_copied = (if cw_context w = Compose_forward
        then map av_id (selectedForwardAttachments w @ selectedForwardInlineAttachments ids w) else [])\<rparr>"

definition submitMailCompose ::
  "js_env \<Rightarrow> compose_world \<Rightarrow> compose_action \<Rightarrow> jstring list \<Rightarrow> compose_window \<Rightarrow> compose_problem + compose_request" where
  \<comment> \<open>the request it makes; \<open>ids\<close> are the content ids of the document\<close>
  "submitMailCompose E W action ids w =
     bind_r (resolve_fields E W action (cw_form w)) (\<lambda>form.
       let to = normalizeMailRecipients E (cf_to form) (wd_domain W); cc = normalizeMailRecipients E (cf_cc form) (wd_domain W);
           bcc = normalizeMailRecipients E (cf_bcc form) (wd_domain W)
       in bind_r (check_mail E W action ids w (js_unique (to @ cc @ bcc))) (\<lambda>(scheduledAt, confirmed).
          bind_r (case wd_uploads W of None \<Rightarrow> Inl Upload_failed | Some us \<Rightarrow> Inr us) (\<lambda>us.
            Inr (compose_request action ids w (compose_payload_of ids w to cc bcc scheduledAt confirmed us)))))"

definition after_submit :: "editor \<Rightarrow> compose_window \<Rightarrow> rich_error + compose_window" where
  \<comment> \<open>the window once the server has accepted the request; its context stays\<close>
  "after_submit ed w = bind_r (make_form ed no_values) (\<lambda>f. Inr ((closed_window f)\<lparr>cw_context := cw_context w\<rparr>))"

section \<open>Limits\<close>

lemma added_frame:
  "staged_images (w\<lparr>cw_files := fs\<rparr>) = staged_images w" "selectedForwardAttachments (w\<lparr>cw_files := fs\<rparr>) = selectedForwardAttachments w"
  "selectedForwardInlineAttachments ids (w\<lparr>cw_files := fs\<rparr>) = selectedForwardInlineAttachments ids w"
  "mailComposeRetainedAttachments ids (w\<lparr>cw_files := fs\<rparr>) = mailComposeRetainedAttachments ids w"
  by (simp_all add: staged_images_def selectedForwardAttachments_def selectedForwardInlineAttachments_def mailComposeRetainedAttachments_def
      split: option.split)

text \<open>Adding files keeps the window within its limits: it is refused, with the window unchanged, or there are then at most ten
  attachments of at most 25 megabytes together, the ones that were there and the new ones, and every new one has content and at
  most ten megabytes.\<close>

theorem added_files_within_limits:
  assumes "addMailComposeFiles ids additions w = Inr v" "additions \<noteq> []"
  shows "mailComposeAttachmentCount ids v = mailComposeAttachmentCount ids w + length additions
    \<and> mailComposeAttachmentCount ids v \<le> 10 \<and> mailComposeAttachmentBytes ids v \<le> 25 * 1024 * 1024
    \<and> list_all (\<lambda>f. 0 < fl_size f \<and> fl_size f \<le> 10 * 1024 * 1024) additions \<and> cw_files v = cw_files w @ additions
    \<and> cw_form v = cw_form w"
proof -
  have v: "v = w\<lparr>cw_files := cw_files w @ additions\<rparr>" and c: "mailComposeAttachmentCount ids w + length additions \<le> maxFiles"
    and b: "mailComposeAttachmentBytes ids w + sum_list (map fl_size additions) \<le> maxTotalBytes"
    and f: "\<not> list_ex (\<lambda>f. fl_size f = 0 \<or> maxFileBytes < fl_size f) additions"
    using assms by (auto simp: addMailComposeFiles_def split: if_splits)
  have "mailComposeAttachmentCount ids v = mailComposeAttachmentCount ids w + length additions"
    by (simp add: v mailComposeAttachmentCount_def added_frame)
  moreover have "mailComposeAttachmentBytes ids v = mailComposeAttachmentBytes ids w + sum_list (map fl_size additions)"
    by (simp add: v mailComposeAttachmentBytes_def added_frame)
  ultimately show ?thesis
    using b c f by (auto simp: v maxFiles_def maxTotalBytes_def maxFileBytes_def list_ex_iff list_all_iff not_less)
qed

section \<open>Sending\<close>

definition all_recipients :: "compose_payload \<Rightarrow> jstring list" where
  "all_recipients p = js_unique (cp_to p @ cp_cc p @ cp_bcc p)"

definition request_payload :: "compose_request \<Rightarrow> compose_payload" where
  "request_payload q = (case q of Update_scheduled i p r \<Rightarrow> p | Update_draft i p r \<Rightarrow> p | Save_draft p \<Rightarrow> p | Send_mail p \<Rightarrow> p)"

lemma request_payload_made [simp]: "request_payload (compose_request action ids w p) = p"
  by (simp add: request_payload_def compose_request_def Let_def)

lemma check_mail_ok:
  assumes "check_mail E W action ids w recipients = Inr (scheduledAt, confirmed)"
  shows "mailComposeAttachmentCount ids w \<le> maxFiles \<and> mailComposeAttachmentBytes ids w \<le> maxTotalBytes
    \<and> scheduled_time W action (cf_scheduled (cw_form w)) = Inr scheduledAt \<and> confirm_send W action = Inr confirmed
    \<and> (action \<noteq> Save_it \<longrightarrow> recipients \<noteq> [] \<and> js_trim (cf_subject (cw_form w)) \<noteq> [] \<and> js_trim (cf_text (cw_form w)) \<noteq> []
        \<and> (hasExternalRecipients E recipients (wd_domain W) \<longrightarrow> wd_delivery W = Some True))"
  using assms unfolding check_mail_def Let_def bind_r_ok check_r_ok by auto

lemma submit_cases:
  assumes "submitMailCompose E W action ids w = Inr q"
  obtains to cc bcc scheduledAt confirmed us where
    "q = compose_request action ids w (compose_payload_of ids w to cc bcc scheduledAt confirmed us)"
    "check_mail E W action ids w (js_unique (to @ cc @ bcc)) = Inr (scheduledAt, confirmed)"
  using assms by (auto simp: submitMailCompose_def Let_def bind_r_ok)

text \<open>C34. Nothing incomplete is sent: a mail is only submitted for sending with a recipient, a subject and a body, within the
  limits of its attachments, to recipients outside the company only while the mail engine is known to be enabled, at a valid time if
  it is scheduled, and after the user has confirmed it where the settings ask for that.\<close>

theorem sent_mail_complete:
  assumes "submitMailCompose E W action ids w = Inr q" "action \<noteq> Save_it"
  shows "all_recipients (request_payload q) \<noteq> [] \<and> cp_subject (request_payload q) \<noteq> [] \<and> js_trim (cp_text (request_payload q)) \<noteq> []
    \<and> mailComposeAttachmentCount ids w \<le> 10 \<and> mailComposeAttachmentBytes ids w \<le> 25 * 1024 * 1024
    \<and> (hasExternalRecipients E (all_recipients (request_payload q)) (wd_domain W) \<longrightarrow> wd_delivery W = Some True)
    \<and> (if action = Schedule_it
       then \<exists>ms. wd_local W (cf_scheduled (cw_form w)) = Some ms \<and> cp_scheduled (request_payload q) = Some (iso_string ms)
       else cp_scheduled (request_payload q) = None)
    \<and> cp_confirmed (request_payload q) \<and> wd_preferences W \<noteq> None \<and> (wd_preferences W = Some True \<longrightarrow> wd_confirms W)"
proof -
  obtain to cc bcc scheduledAt confirmed us where
    q: "q = compose_request action ids w (compose_payload_of ids w to cc bcc scheduledAt confirmed us)" and
    ok: "check_mail E W action ids w (js_unique (to @ cc @ bcc)) = Inr (scheduledAt, confirmed)"
    by (rule submit_cases [OF assms(1)])
  note c = check_mail_ok [OF ok]
  have "if action = Schedule_it
       then \<exists>ms. wd_local W (cf_scheduled (cw_form w)) = Some ms \<and> scheduledAt = Some (iso_string ms)
       else scheduledAt = None"
    using c by (auto simp: scheduled_time_def split: if_splits option.splits)
  moreover have "confirmed \<and> wd_preferences W \<noteq> None \<and> (wd_preferences W = Some True \<longrightarrow> wd_confirms W)"
    using c assms(2) by (auto simp: confirm_send_def split: if_splits option.splits)
  ultimately show ?thesis
    using c assms(2) by (simp add: q compose_payload_of_def all_recipients_def maxFiles_def maxTotalBytes_def)
qed

text \<open>The check of an unknown state of the mail engine is never the one that refuses: the check before it covers it.\<close>

lemma delivery_unknown_unreachable: "check_mail E W action ids w recipients \<noteq> Inl Delivery_unknown"
  unfolding check_mail_def Let_def bind_r_def check_r_def scheduled_time_def confirm_send_def
  by (auto split: sum.splits if_splits option.splits)

section \<open>Drafts and scheduled mails that are sent\<close>

text \<open>Sending a draft that is being edited sends a new mail in which the attachments the window shows as kept are missing, and no
  request names the draft. Sending a scheduled mail that is being edited at once does the same: the scheduled mail stays
  scheduled, and is sent again at its time.\<close>

lemma sent_draft_loses_attachments:
  assumes "submitMailCompose E W Send_it ids w = Inr q" "wd_uploads W = Some []" "cw_images w = []" "cw_context w = Compose_new"
  shows "\<exists>p. q = Send_mail p \<and> cp_attachments p = [] \<and> cp_copied p = []"
proof -
  obtain to cc bcc scheduledAt confirmed us where
    q: "q = compose_request Send_it ids w (compose_payload_of ids w to cc bcc scheduledAt confirmed us)"
    and "us = []"
    using assms(1,2) by (auto simp: submitMailCompose_def Let_def bind_r_ok)
  then show ?thesis
    using assms(3,4) by (simp add: compose_request_def compose_payload_of_def buildComposeInlineAttachments_def)
qed

text \<open>Opening a reply while a draft is open, after the window was hidden by a change of the folder, keeps the id and the attachments of
  the draft: saving the reply overwrites the draft.\<close>

lemma reply_overwrites_draft:
  assumes "openMailComposeFromDetail ed fmt own mode d atts (leave_compose w) = Inr v" "cw_editing_draft w \<noteq> []"
  shows "cw_persisted v = cw_persisted w
    \<and> compose_request Save_it ids v p = Update_draft (cw_editing_draft w) p (map av_id (mailComposeRetainedAttachments ids v))"
proof -
  have "cw_persisted v = cw_persisted w" "cw_editing_draft v = cw_editing_draft w"
    using assms(1) by (auto simp: openMailComposeFromDetail_def leave_compose_def bind_r_ok Let_def split: prod.splits)
  then show ?thesis using assms(2) by (simp add: compose_request_def)
qed

text \<open>Editing a scheduled mail moves it: its time is shown in UTC but read back as a local time. East of Greenwich it is then due
  earlier by the offset of the zone.\<close>

lemma edited_schedule_moves:
  assumes "wd_local W (take 16 (iso_string ms)) = Some (ms - ms mod 60000 - offset)"
    and "parse s = Some ms" "s \<noteq> []" "scheduled_input parse (Some s) = Inr text"
  shows "scheduled_time W Schedule_it text = Inr (Some (iso_string (ms - ms mod 60000 - offset)))"
proof -
  have "take 16 (iso_string ms) \<noteq> []" by (simp add: iso_string_def Let_def)
  then show ?thesis using assms by (auto simp: scheduled_input_def scheduled_time_def)
qed

section \<open>A concrete mail\<close>

definition sample_window :: compose_window where
  "sample_window = (closed_window \<lparr>cf_to = lit ''k@moa.kr'', cf_cc = [], cf_bcc = [], cf_subject = lit ''s'', cf_text = lit ''b'',
     cf_html = lit ''<p>b</p>'', cf_document = JNull, cf_scheduled = []\<rparr>)\<lparr>cw_open := True\<rparr>"

definition sample_world :: compose_world where
  "sample_world = \<lparr>wd_domain = lit ''moa.kr'', wd_suggestions = [], wd_same = (\<lambda>a b. a = b), wd_delivery = Some True,
     wd_preferences = Some False, wd_confirms = False, wd_local = (\<lambda>s. None), wd_uploads = Some []\<rparr>"

lemma added_files_within_limits_witness:
  "\<exists>v. addMailComposeFiles [] [\<lparr>fl_id = lit ''a'', fl_size = 7\<rparr>] sample_window = Inr v \<and> mailComposeAttachmentCount [] v \<le> 10"
proof -
  obtain v where v: "addMailComposeFiles [] [\<lparr>fl_id = lit ''a'', fl_size = 7\<rparr>] sample_window = Inr v"
    by (simp add: addMailComposeFiles_def sample_window_def closed_window_def mailComposeAttachmentCount_def mailComposeAttachmentBytes_def
        staged_images_def selectedForwardAttachments_def selectedForwardInlineAttachments_def mailComposeRetainedAttachments_def
        maxFiles_def maxFileBytes_def maxTotalBytes_def)
  from added_files_within_limits [OF v] v show ?thesis by simp
qed

lemma sample_recipient:
  "resolveRecipientInput E same gs (lit ''k@moa.kr'') = Inr (lit ''k@moa.kr'')"
  "normalizeMailRecipients (sample_env JNull) (lit ''k@moa.kr'') domain \<noteq> []"
proof -
  have t: "js_trim (lit ''k@moa.kr'') = lit ''k@moa.kr''" by (intro js_trim_no_ws) (simp add: lit_def js_ws_def)
  have "split_on address_separator (lit ''k@moa.kr'') = [lit ''k@moa.kr'']"
    by (rule split_on_single) (simp add: lit_def address_separator_def)
  then have f: "field_tokens (lit ''k@moa.kr'') = [lit ''k@moa.kr'']" by (simp add: field_tokens_def t)
  have p: "plain_address (lit ''k@moa.kr'')" by (simp add: plain_address_def lit_def email_char_def js_ws_def)
  show "resolveRecipientInput E same gs (lit ''k@moa.kr'') = Inr (lit ''k@moa.kr'')"
    by (simp add: resolveRecipientInput_def t f resolve_token_def p)
  have "angle_address (lit ''k@moa.kr'') = None" by (simp add: angle_address_def lit_def Let_def)
  then show "normalizeMailRecipients (sample_env JNull) (lit ''k@moa.kr'') domain \<noteq> []"
    by (simp add: normalize_tokens f recipient_address_def p js_lower_def is_ascii_def) (simp add: lit_def)
qed

lemma sent_mail_complete_witness:
  "\<exists>q. submitMailCompose (sample_env JNull) sample_world Send_it [] sample_window = Inr q \<and> all_recipients (request_payload q) \<noteq> []
     \<and> cp_confirmed (request_payload q)"
proof -
  have n: "js_trim (lit ''s'') \<noteq> []" "js_trim (lit ''b'') \<noteq> []" by (simp_all add: js_trim_def lit_def js_ws_def)
  have e: "resolveRecipientInput E same gs [] = Inr []" for E same gs by (simp add: resolveRecipientInput_def)
  obtain q where q: "submitMailCompose (sample_env JNull) sample_world Send_it [] sample_window = Inr q"
    using sample_recipient n
    by (simp add: submitMailCompose_def resolve_fields_def check_mail_def sample_window_def sample_world_def closed_window_def e
        mailComposeAttachmentCount_def mailComposeAttachmentBytes_def staged_images_def selectedForwardAttachments_def
        selectedForwardInlineAttachments_def mailComposeRetainedAttachments_def maxFiles_def maxTotalBytes_def scheduled_time_def
        confirm_send_def Let_def)
  from sent_mail_complete [OF q] q show ?thesis by simp
qed

end
