(* ===== verification/Mail_Workspace.thy ===== *)
theory Mail_Workspace
  imports Mail_Recipients
begin

text \<open>
  The lists and the detail of the mail view of the web client (\<open>user-web/src/App.tsx\<close>): opening a folder, loading its
  lists, selecting a mail and loading it. Requests are in flight while others start; each start takes a number, and an answer
  counts only while its number is the latest. A request carries what the handler had captured when it started. The server is a
  parameter: its answers are inputs.
\<close>

section \<open>Queries and pages\<close>

record list_query =
  q_text :: jstring
  q_read :: jstring
  q_starred :: jstring
  q_attachment :: jstring
  q_category :: jstring
  q_sort :: jstring
  q_limit :: "nat option"
  q_offset :: "nat option"

definition DEFAULT_MAIL_LIST_QUERY :: list_query where
  "DEFAULT_MAIL_LIST_QUERY = \<lparr>q_text = [], q_read = lit ''all'', q_starred = lit ''all'', q_attachment = lit ''all'',
     q_category = lit ''primary'', q_sort = lit ''date_desc'', q_limit = Some 50, q_offset = Some 0\<rparr>"

record mail_row =
  mr_id :: jstring
  mr_read :: bool
  mr_starred :: bool

record mail_page =
  pg_mails :: "mail_row list"
  pg_total :: nat
  pg_limit :: nat
  pg_offset :: nat
  pg_more :: bool

record list_meta =
  lm_total :: nat
  lm_limit :: nat
  lm_offset :: nat
  lm_more :: bool

record workspace_answer =
  wa_inbox :: mail_page
  wa_sent :: mail_page
  wa_draft :: mail_page
  wa_scheduled :: mail_page
  wa_context :: "mail_page option"
  wa_folders :: "jsval list"
  wa_tags :: "jsval list"

definition or_default :: "nat option \<Rightarrow> nat \<Rightarrow> nat" where
  "or_default v d = (case v of None \<Rightarrow> d | Some n \<Rightarrow> n)"

definition effective_query :: "jstring \<Rightarrow> list_query \<Rightarrow> list_query" where
  "effective_query folder q =
     q\<lparr>q_read := (if folder = lit ''unread'' then lit ''unread'' else q_read q),
       q_starred := (if folder = lit ''starred'' then lit ''starred'' else q_starred q),
       q_category := (if folder = lit ''inbox'' then q_category q else lit ''all'')\<rparr>"

definition list_queries :: "jstring \<Rightarrow> list_query \<Rightarrow> list_query \<times> list_query \<times> list_query \<times> list_query" where
  \<comment> \<open>the queries for inbox, sent, draft and scheduled mails\<close>
  "list_queries folder q =
     (let e = effective_query folder q; d = DEFAULT_MAIL_LIST_QUERY\<lparr>q_category := lit ''all''\<rparr>
      in (if folder \<in> set (map lit [''inbox'', ''starred'', ''unread'']) then e else d,
          if folder = lit ''sent'' then e else d, if folder = lit ''draft'' then e else d,
          if folder = lit ''scheduled'' then e else d))"

datatype context_request = Folder_messages jstring | Tag_messages jstring | Spam_messages | Trash_messages

definition context_of :: "jstring \<Rightarrow> context_request option" where
  "context_of folder =
     (if js_starts_with folder (lit ''folder:'') then Some (Folder_messages (drop 7 folder))
      else if js_starts_with folder (lit ''tag:'') then Some (Tag_messages (drop 4 folder))
      else if folder = lit ''spam'' then Some Spam_messages else if folder = lit ''trash'' then Some Trash_messages else None)"

definition ui020Mailbox :: "jstring \<Rightarrow> jstring" where
  "ui020Mailbox folder =
     (if folder = lit ''spam'' \<or> folder = lit ''trash'' then folder
      else if js_starts_with folder (lit ''folder:'') then lit ''folder''
      else if js_starts_with folder (lit ''tag:'') then lit ''tag''
      else if folder = lit ''sent'' then lit ''sent'' else if folder = lit ''draft'' then lit ''draft''
      else if folder = lit ''scheduled'' then lit ''scheduled'' else lit ''inbox'')"

definition last_offset :: "nat \<Rightarrow> nat \<Rightarrow> nat option" where
  \<comment> \<open>\<open>Math.max(0, (Math.ceil(total / limit) - 1) * limit)\<close>, \<open>None\<close> for \<open>NaN\<close>\<close>
  "last_offset n limit = (if limit = 0 then None else Some (((n + limit - 1) div limit - 1) * limit))"

section \<open>The view\<close>

datatype mailbox = Inbox | Sent

record mail_view =
  mv_folder :: jstring
  mv_mailbox :: mailbox
  mv_inbox :: "mail_row list"
  mv_sent :: "mail_row list"
  mv_draft :: "mail_row list"
  mv_scheduled :: "mail_row list"
  mv_context :: "mail_row list"
  mv_folders :: "jsval list"
  mv_tags :: "jsval list"
  mv_meta :: list_meta
  mv_query :: list_query
  mv_marked :: "jstring list" \<comment> \<open>\<open>selectedMailIds\<close>\<close>
  mv_selected :: jstring
  mv_detail :: "mail_detail option"
  mv_detail_loading :: bool
  mv_detail_error :: bool
  mv_receipts_open :: bool
  mv_loading :: bool
  mv_error :: bool
  mv_list_request :: nat
  mv_detail_request :: nat

record detail_request =
  dr_id :: nat
  dr_mail :: jstring
  dr_mark :: bool \<comment> \<open>an inbox mail that is to be marked as read\<close>
  dr_folder :: jstring

record list_request =
  lr_id :: nat
  lr_folder :: jstring
  lr_query :: list_query
  lr_target :: jstring \<comment> \<open>\<open>preferredMailId ?? selectedMailId\<close>\<close>
  lr_captured :: jstring \<comment> \<open>\<open>selectedMailId\<close> when the handler was called\<close>

definition setMailFolder :: "jstring \<Rightarrow> mail_view \<Rightarrow> mail_view" where
  "setMailFolder folder v =
     v\<lparr>mv_list_request := mv_list_request v + 1, mv_detail_request := mv_detail_request v + 1, mv_folder := folder,
       mv_marked := [], mv_selected := [], mv_receipts_open := False, mv_detail := None,
       mv_query := (mv_query v)\<lparr>q_offset := Some 0\<rparr>,
       mv_mailbox := (if folder = lit ''sent'' then Sent else Inbox)\<rparr>"

definition getMailListByFolder :: "jstring \<Rightarrow> mail_view \<Rightarrow> mail_row list" where
  "getMailListByFolder folder v =
     (if folder = lit ''sent'' then mv_sent v
      else if folder \<in> set (map lit [''starred'', ''unread'', ''inbox'']) then mv_inbox v
      else if folder = lit ''draft'' then mv_draft v else if folder = lit ''scheduled'' then mv_scheduled v
      else if folder = lit ''localArchive'' then [] else mv_context v)"

definition inferMailboxFromMailId :: "jstring \<Rightarrow> mail_view \<Rightarrow> mailbox" where
  "inferMailboxFromMailId i v = (if i \<in> set (map mr_id (mv_inbox v)) then Inbox else Sent)"

section \<open>Loading a mail\<close>

definition detail_begin :: "jstring \<Rightarrow> bool \<Rightarrow> jstring \<Rightarrow> mail_view \<Rightarrow> mail_view \<times> detail_request" where
  \<comment> \<open>\<open>loadMailDetail\<close> up to its first request\<close>
  "detail_begin mailId mark folder v =
     (v\<lparr>mv_detail_request := mv_detail_request v + 1, mv_selected := mailId, mv_detail := None, mv_receipts_open := False,
        mv_detail_loading := True, mv_detail_error := False\<rparr>,
      \<lparr>dr_id = mv_detail_request v + 1, dr_mail = mailId, dr_mark = mark, dr_folder = folder\<rparr>)"

definition mark_read :: "jstring \<Rightarrow> mail_row list \<Rightarrow> mail_row list" where
  "mark_read i rows = map (\<lambda>m. if mr_id m = i then m\<lparr>mr_read := True\<rparr> else m) rows"

definition detail_end :: "detail_request \<Rightarrow> mail_detail option \<Rightarrow> mail_view \<Rightarrow> mail_view" where
  \<comment> \<open>the rest, with the mail or \<open>None\<close> where a request failed\<close>
  "detail_end r answer v =
     (if dr_id r \<noteq> mv_detail_request v then v
      else (case answer of
              None \<Rightarrow> v\<lparr>mv_detail_error := True, mv_detail_loading := False\<rparr>
            | Some d \<Rightarrow> v\<lparr>mv_detail := Some d, mv_detail_loading := False,
                mv_inbox := (if dr_mark r then mark_read (dr_mail r) (mv_inbox v) else mv_inbox v)\<rparr>))"

section \<open>Loading the lists\<close>

definition list_begin :: "jstring option \<Rightarrow> jstring \<Rightarrow> jstring \<Rightarrow> list_query \<Rightarrow> mail_view \<Rightarrow> mail_view \<times> list_request" where
  "list_begin preferred captured folder q v =
     (v\<lparr>mv_list_request := mv_list_request v + 1, mv_loading := True, mv_error := False\<rparr>,
      \<lparr>lr_id = mv_list_request v + 1, lr_folder = folder, lr_query = q,
       lr_target = (case preferred of None \<Rightarrow> captured | Some i \<Rightarrow> i), lr_captured = captured\<rparr>)"

datatype after_list = Nothing_more | Load_mail jstring | Load_page list_query

definition active_page :: "jstring \<Rightarrow> workspace_answer \<Rightarrow> mail_page" where
  "active_page folder a =
     (case wa_context a of Some p \<Rightarrow> p
      | None \<Rightarrow> if folder = lit ''sent'' then wa_sent a else if folder = lit ''draft'' then wa_draft a
          else if folder = lit ''scheduled'' then wa_scheduled a else wa_inbox a)"

definition target_mail :: "jstring \<Rightarrow> mail_row list \<Rightarrow> mail_row option" where
  "target_mail i rows =
     (if i \<noteq> [] then List.find (\<lambda>m. mr_id m = i) rows else (case rows of [] \<Rightarrow> None | m # ms \<Rightarrow> Some m))"

definition show_answer :: "workspace_answer \<Rightarrow> mail_view \<Rightarrow> mail_view" where
  "show_answer a v =
     v\<lparr>mv_inbox := pg_mails (wa_inbox a), mv_sent := pg_mails (wa_sent a), mv_draft := pg_mails (wa_draft a),
       mv_scheduled := pg_mails (wa_scheduled a),
       mv_context := (case wa_context a of None \<Rightarrow> [] | Some p \<Rightarrow> pg_mails p),
       mv_folders := wa_folders a, mv_tags := wa_tags a\<rparr>"

definition list_kept :: "list_request \<Rightarrow> mail_page \<Rightarrow> mail_view \<Rightarrow> mail_view \<times> after_list" where
  "list_kept r page v =
     (let v1 = v\<lparr>mv_meta := \<lparr>lm_total = pg_total page, lm_limit = pg_limit page, lm_offset = pg_offset page, lm_more = pg_more page\<rparr>,
                  mv_mailbox := (if lr_folder r = lit ''sent'' then Sent else Inbox), mv_loading := False\<rparr>
      in case target_mail (lr_target r) (pg_mails page) of
           Some m \<Rightarrow> (v1, Load_mail (mr_id m))
         | None \<Rightarrow> (v1\<lparr>mv_selected := [], mv_receipts_open := False, mv_detail := None, mv_detail_error := False\<rparr>, Nothing_more))"

definition list_shown :: "list_request \<Rightarrow> workspace_answer \<Rightarrow> mail_view \<Rightarrow> mail_view \<times> after_list" where
  \<comment> \<open>the answer that counts; beyond the last page the last page is loaded instead\<close>
  "list_shown r a v =
     (let v1 = show_answer a v; page = active_page (lr_folder r) a; q = lr_query r
      in case last_offset (pg_total page) (or_default (q_limit q) 50) of
           Some l \<Rightarrow>
             if l < or_default (q_offset q) 0
             then (v1\<lparr>mv_query := q\<lparr>q_offset := Some l\<rparr>, mv_marked := []\<rparr>, Load_page (q\<lparr>q_offset := Some l\<rparr>))
             else list_kept r page v1
         | None \<Rightarrow> list_kept r page v1)"

definition list_failed :: "list_request \<Rightarrow> mail_view \<Rightarrow> mail_view" where
  "list_failed r v =
     v\<lparr>mv_error := True, mv_inbox := [], mv_sent := [], mv_draft := [], mv_scheduled := [], mv_context := [],
       mv_meta := \<lparr>lm_total = 0, lm_limit = or_default (q_limit (lr_query r)) 50, lm_offset = or_default (q_offset (lr_query r)) 0, lm_more = False\<rparr>,
       mv_selected := [], mv_receipts_open := False, mv_detail := None, mv_loading := False\<rparr>"

section \<open>Answers in any order\<close>

record mail_system =
  ms_view :: mail_view
  ms_details :: "detail_request list" \<comment> \<open>in flight\<close>
  ms_lists :: "list_request list"

definition start_detail :: "jstring \<Rightarrow> bool \<Rightarrow> jstring \<Rightarrow> mail_system \<Rightarrow> mail_system" where
  "start_detail i mark folder s =
     (let (v, r) = detail_begin i mark folder (ms_view s) in s\<lparr>ms_view := v, ms_details := r # ms_details s\<rparr>)"

definition start_list :: "jstring option \<Rightarrow> jstring \<Rightarrow> jstring \<Rightarrow> list_query \<Rightarrow> mail_system \<Rightarrow> mail_system" where
  "start_list preferred captured folder q s =
     (let (v, r) = list_begin preferred captured folder q (ms_view s) in s\<lparr>ms_view := v, ms_lists := r # ms_lists s\<rparr>)"

definition end_list :: "list_request \<Rightarrow> workspace_answer option \<Rightarrow> mail_system \<Rightarrow> mail_system" where
  "end_list r answer s =
     (if lr_id r \<noteq> mv_list_request (ms_view s) then s
      else (case answer of
              None \<Rightarrow> s\<lparr>ms_view := list_failed r (ms_view s)\<rparr>
            | Some a \<Rightarrow>
                (let (v, next) = list_shown r a (ms_view s); s1 = s\<lparr>ms_view := v\<rparr>
                 in case next of
                      Nothing_more \<Rightarrow> s1
                    | Load_mail i \<Rightarrow> start_detail i False (lr_folder r) s1
                    | Load_page q \<Rightarrow> start_list None (lr_captured r) (lr_folder r) q s1)))"

datatype mail_input =
    Open_folder jstring
  | Turn_page list_query
  | Select_mail jstring bool
  | Detail_answer detail_request "mail_detail option"
  | List_answer list_request "workspace_answer option"

fun mail_step :: "mail_input \<Rightarrow> mail_system \<Rightarrow> mail_system option" where
  \<comment> \<open>\<open>openMailFolder\<close>, \<open>updateMailListQuery\<close> and \<open>selectMail\<close>, with a user who is signed in, and the answers of the server,
     which are about the mail that was asked for\<close>
  "mail_step (Open_folder folder) s =
     (let q = (mv_query (ms_view s))\<lparr>q_offset := Some 0\<rparr>; t = s\<lparr>ms_view := setMailFolder folder (ms_view s)\<rparr>
      in Some (if folder = lit ''localArchive'' then t else start_list None (mv_selected (ms_view s)) folder q t))"
| "mail_step (Turn_page q) s =
     Some (start_list None (mv_selected (ms_view s)) (mv_folder (ms_view s)) q
       (s\<lparr>ms_view := (ms_view s)\<lparr>mv_query := q, mv_marked := []\<rparr>\<rparr>))"
| "mail_step (Select_mail i mark) s = Some (start_detail i mark (mv_folder (ms_view s)) s)"
| "mail_step (Detail_answer r answer) s =
     (if r \<in> set (ms_details s) \<and> (\<forall>d\<in>set_option answer. md_mail_id d = dr_mail r)
      then Some (s\<lparr>ms_view := detail_end r answer (ms_view s), ms_details := remove1 r (ms_details s)\<rparr>) else None)"
| "mail_step (List_answer r answer) s =
     (if r \<in> set (ms_lists s) then Some (end_list r answer (s\<lparr>ms_lists := remove1 r (ms_lists s)\<rparr>)) else None)"

inductive mail_reaches :: "mail_system \<Rightarrow> mail_system \<Rightarrow> bool" where
  mail_refl: "mail_reaches s s"
| mail_next: "mail_reaches s t \<Longrightarrow> mail_step i t = Some u \<Longrightarrow> mail_reaches s u"

inductive_cases mail_reachesE: "mail_reaches s t"

section \<open>The invariant\<close>

definition detail_ok :: "mail_view \<Rightarrow> detail_request list \<Rightarrow> bool" where
  \<comment> \<open>what is shown and what may still come are about the selected mail, if there is one\<close>
  "detail_ok v rs \<longleftrightarrow>
     (\<forall>r\<in>set rs. dr_id r \<le> mv_detail_request v \<and> (dr_id r = mv_detail_request v \<longrightarrow> mv_selected v = [] \<or> dr_mail r = mv_selected v))
     \<and> (\<forall>d\<in>set_option (mv_detail v). mv_selected v = [] \<or> md_mail_id d = mv_selected v)"

definition list_ok :: "mail_view \<Rightarrow> list_request list \<Rightarrow> bool" where
  "list_ok v rs \<longleftrightarrow> (\<forall>r\<in>set rs. lr_id r \<le> mv_list_request v)"

definition mail_ok :: "mail_system \<Rightarrow> bool" where
  "mail_ok s \<longleftrightarrow> detail_ok (ms_view s) (ms_details s) \<and> list_ok (ms_view s) (ms_lists s)"

lemma start_detail_ok: "mail_ok s \<Longrightarrow> mail_ok (start_detail i mark folder s)"
  by (auto simp: mail_ok_def start_detail_def detail_begin_def detail_ok_def list_ok_def)

lemma start_list_ok: "mail_ok s \<Longrightarrow> mail_ok (start_list preferred captured folder q s)"
  by (auto simp: mail_ok_def start_list_def list_begin_def detail_ok_def list_ok_def)

lemma set_folder_ok: "mail_ok s \<Longrightarrow> mail_ok (s\<lparr>ms_view := setMailFolder folder (ms_view s)\<rparr>)"
  by (auto simp: mail_ok_def setMailFolder_def detail_ok_def list_ok_def)

definition selection_kept :: "mail_view \<Rightarrow> mail_view \<Rightarrow> bool" where
  "selection_kept v w \<longleftrightarrow>
     mv_detail_request w = mv_detail_request v \<and> mv_list_request w = mv_list_request v
     \<and> (mv_selected w = mv_selected v \<and> mv_detail w = mv_detail v \<or> mv_selected w = [] \<and> mv_detail w = None)"

lemma selection_kept_ok: "mail_ok s \<Longrightarrow> selection_kept (ms_view s) v \<Longrightarrow> mail_ok (s\<lparr>ms_view := v\<rparr>)"
  unfolding mail_ok_def detail_ok_def list_ok_def selection_kept_def by (elim conjE disjE) simp_all

lemma show_answer_kept: "selection_kept v (show_answer a v)"
  by (simp add: selection_kept_def show_answer_def)

lemma list_kept_kept: "selection_kept v u \<Longrightarrow> selection_kept v (fst (list_kept r page u))"
  by (cases "target_mail (lr_target r) (pg_mails page)") (simp_all add: selection_kept_def list_kept_def)

lemma list_shown_kept: "selection_kept v (fst (list_shown r a v))"
proof -
  have "selection_kept v (show_answer a v\<lparr>mv_query := q, mv_marked := []\<rparr>)" for q
    using show_answer_kept [of v a] by (simp add: selection_kept_def)
  then show ?thesis
    using list_kept_kept [OF show_answer_kept [of v a]]
    by (simp add: list_shown_def Let_def split: option.split)
qed

lemma list_failed_kept: "selection_kept v (list_failed r v)"
  by (simp add: selection_kept_def list_failed_def)

lemma end_list_ok: "mail_ok s \<Longrightarrow> mail_ok (end_list r answer s)"
proof (cases answer)
  case None
  then show "mail_ok s \<Longrightarrow> mail_ok (end_list r answer s)"
    by (simp add: end_list_def selection_kept_ok list_failed_kept)
next
  case (Some a)
  assume ok: "mail_ok s"
  obtain v "next" where v: "list_shown r a (ms_view s) = (v, next)" by fastforce
  then have "mail_ok (s\<lparr>ms_view := v\<rparr>)"
    using selection_kept_ok [OF ok] list_shown_kept [of "ms_view s" r a] by simp
  then show ?thesis
    using ok Some v by (simp add: end_list_def Let_def start_detail_ok start_list_ok split: after_list.split)
qed

lemma mail_ok_less: "mail_ok s \<Longrightarrow> mail_ok (s\<lparr>ms_lists := remove1 r (ms_lists s)\<rparr>)"
  by (auto simp: mail_ok_def list_ok_def dest: notin_set_remove1 in_set_remove1 [THEN iffD1, rotated] set_remove1_subset [THEN subsetD])

lemma detail_end_ok:
  assumes "mail_ok s" "r \<in> set (ms_details s)" "\<forall>d\<in>set_option answer. md_mail_id d = dr_mail r"
  shows "mail_ok (s\<lparr>ms_view := detail_end r answer (ms_view s), ms_details := remove1 r (ms_details s)\<rparr>)"
proof -
  have sub: "set (remove1 r (ms_details s)) \<subseteq> set (ms_details s)" by (rule set_remove1_subset)
  have ok: "detail_ok (ms_view s) (ms_details s)" "list_ok (ms_view s) (ms_lists s)" using assms(1) by (simp_all add: mail_ok_def)
  have "detail_ok (detail_end r answer (ms_view s)) (ms_details s)"
    using ok(1) assms(2,3) by (cases answer) (auto simp: detail_ok_def detail_end_def)
  then have "detail_ok (detail_end r answer (ms_view s)) (remove1 r (ms_details s))"
    using sub by (auto simp: detail_ok_def)
  moreover have "list_ok (detail_end r answer (ms_view s)) (ms_lists s)"
    using ok(2) by (cases answer) (simp_all add: list_ok_def detail_end_def)
  ultimately show ?thesis by (simp add: mail_ok_def)
qed

lemma mail_step_ok: "mail_step i s = Some t \<Longrightarrow> mail_ok s \<Longrightarrow> mail_ok t"
proof (induction i)
  case (Open_folder folder)
  then show ?case by (auto simp: Let_def set_folder_ok start_list_ok split: if_splits)
next
  case (Turn_page q)
  then have "mail_ok (s\<lparr>ms_view := (ms_view s)\<lparr>mv_query := q, mv_marked := []\<rparr>\<rparr>)"
    by (auto simp: mail_ok_def detail_ok_def list_ok_def)
  then show ?case using Turn_page by (auto intro: start_list_ok)
qed (auto simp: start_detail_ok detail_end_ok end_list_ok mail_ok_less split: if_splits)

lemma mail_reaches_ok: "mail_reaches s t \<Longrightarrow> mail_ok s \<Longrightarrow> mail_ok t"
  by (induction rule: mail_reaches.induct) (auto intro: mail_step_ok)

definition start_view :: mail_view where
  "start_view = \<lparr>mv_folder = lit ''inbox'', mv_mailbox = Inbox, mv_inbox = [], mv_sent = [], mv_draft = [], mv_scheduled = [],
     mv_context = [], mv_folders = [], mv_tags = [], mv_meta = \<lparr>lm_total = 0, lm_limit = 50, lm_offset = 0, lm_more = False\<rparr>,
     mv_query = DEFAULT_MAIL_LIST_QUERY, mv_marked = [], mv_selected = [], mv_detail = None, mv_detail_loading = False,
     mv_detail_error = False, mv_receipts_open = False, mv_loading = False, mv_error = False, mv_list_request = 0, mv_detail_request = 0\<rparr>"

definition start_system :: mail_system where
  "start_system = \<lparr>ms_view = start_view, ms_details = [], ms_lists = []\<rparr>"

lemma start_ok: "mail_ok start_system"
  by (simp add: mail_ok_def start_system_def start_view_def detail_ok_def list_ok_def)

text \<open>C35. The mail that is shown is the one that is selected: in whatever order folders are opened, pages turned and mails
  selected, and in whatever order the answers come, a mail is shown only while it is selected or while nothing is; an
  answer that a later request has overtaken changes nothing on the screen.\<close>

theorem shown_mail_selected:
  assumes "mail_reaches start_system s"
  shows "(\<forall>d. mv_detail (ms_view s) = Some d \<longrightarrow> mv_selected (ms_view s) = [] \<or> md_mail_id d = mv_selected (ms_view s))
    \<and> (\<forall>r. dr_id r \<noteq> mv_detail_request (ms_view s) \<longrightarrow> detail_end r answer (ms_view s) = ms_view s)
    \<and> (\<forall>r. lr_id r \<noteq> mv_list_request (ms_view s) \<longrightarrow> ms_view (end_list r answers s) = ms_view s)"
  using mail_reaches_ok [OF assms start_ok] by (auto simp: mail_ok_def detail_ok_def detail_end_def end_list_def)

definition sample_detail :: "jstring \<Rightarrow> mail_detail" where
  "sample_detail i = \<lparr>md_mail_id = i, md_sender = [], md_subject = [], md_body_text = [], md_body_html = None, md_sent_at = None,
     md_created_at = [], md_recipients = []\<rparr>"

definition sample_request :: detail_request where
  "sample_request = \<lparr>dr_id = 1, dr_mail = lit ''m1'', dr_mark = False, dr_folder = lit ''inbox''\<rparr>"

lemma shown_mail_selected_witness:
  "\<exists>s. mail_reaches start_system s \<and> mv_detail (ms_view s) = Some (sample_detail (lit ''m1'')) \<and> mv_selected (ms_view s) = lit ''m1''"
proof -
  define t where "t = start_detail (lit ''m1'') False (lit ''inbox'') start_system"
  define u where "u = t\<lparr>ms_view := detail_end sample_request (Some (sample_detail (lit ''m1''))) (ms_view t), ms_details := []\<rparr>"
  have "mail_step (Select_mail (lit ''m1'') False) start_system = Some t" by (simp add: t_def start_system_def start_view_def)
  then have t: "mail_reaches start_system t" by (intro mail_next [OF mail_refl])
  have "mail_step (Detail_answer sample_request (Some (sample_detail (lit ''m1'')))) t = Some u"
    by (simp add: u_def t_def start_detail_def detail_begin_def start_system_def start_view_def sample_request_def sample_detail_def)
  then have u: "mail_reaches start_system u" by (rule mail_next [OF t])
  have d: "mv_detail (ms_view u) = Some (sample_detail (lit ''m1''))" "mv_selected (ms_view u) = lit ''m1''"
    by (simp_all add: u_def t_def start_detail_def detail_begin_def start_system_def start_view_def sample_request_def detail_end_def)
  have "mv_selected (ms_view u) = [] \<or> md_mail_id (sample_detail (lit ''m1'')) = mv_selected (ms_view u)"
    using shown_mail_selected [OF u] d(1) by blast
  with u d show ?thesis by blast
qed

section \<open>Pages beyond the end\<close>

text \<open>A page beyond the end is corrected to an earlier one, and once only while the number of mails stays the same.\<close>

lemma page_correction_ends:
  assumes "list_shown r a v = (w, Load_page q)"
  shows "or_default (q_offset q) 0 < or_default (q_offset (lr_query r)) 0 \<and> q_limit q = q_limit (lr_query r)
    \<and> (lr_query r' = q \<longrightarrow> pg_total (active_page (lr_folder r') b) = pg_total (active_page (lr_folder r) a) \<longrightarrow>
         (\<forall>p. snd (list_shown r' b u) \<noteq> Load_page p))"
proof -
  obtain l where l: "last_offset (pg_total (active_page (lr_folder r) a)) (or_default (q_limit (lr_query r)) 50) = Some l"
    "l < or_default (q_offset (lr_query r)) 0" "q = (lr_query r)\<lparr>q_offset := Some l\<rparr>"
    using assms by (auto simp: list_shown_def list_kept_def Let_def split: option.splits if_splits)
  have "snd (list_kept r' p x) \<noteq> Load_page q'" for p x q'
    by (auto simp: list_kept_def Let_def split: option.split)
  then show ?thesis using l by (auto simp: list_shown_def or_default_def Let_def split: option.splits if_splits)
qed

section \<open>Races that are not guarded\<close>

text \<open>When a list comes that does not hold the selected mail, nothing is selected any more; but the number of the mail request is not
  counted up, and a mail that is still being loaded is shown all the same.\<close>

definition empty_answer :: workspace_answer where
  "empty_answer = (let p = \<lparr>pg_mails = [], pg_total = 0, pg_limit = 50, pg_offset = 0, pg_more = False\<rparr>
     in \<lparr>wa_inbox = p, wa_sent = p, wa_draft = p, wa_scheduled = p, wa_context = None, wa_folders = [], wa_tags = []\<rparr>)"

definition late_list :: list_request where
  "late_list = \<lparr>lr_id = 1, lr_folder = lit ''inbox'', lr_query = DEFAULT_MAIL_LIST_QUERY, lr_target = [], lr_captured = []\<rparr>"

fun mail_steps :: "mail_input list \<Rightarrow> mail_system \<Rightarrow> mail_system option" where
  "mail_steps [] s = Some s"
| "mail_steps (i # is) s = Option.bind (mail_step i s) (mail_steps is)"

lemmas mail_defs = start_detail_def detail_begin_def start_list_def list_begin_def start_system_def start_view_def end_list_def
  detail_end_def list_shown_def list_kept_def show_answer_def active_page_def empty_answer_def target_mail_def last_offset_def
  or_default_def setMailFolder_def DEFAULT_MAIL_LIST_QUERY_def Let_def

lemma unselected_mail_shown:
  "\<exists>s. mail_steps [Turn_page DEFAULT_MAIL_LIST_QUERY, Select_mail (lit ''m1'') False, List_answer late_list (Some empty_answer),
       Detail_answer sample_request (Some (sample_detail (lit ''m1'')))] start_system = Some s
     \<and> mv_selected (ms_view s) = [] \<and> mv_detail (ms_view s) = Some (sample_detail (lit ''m1''))"
  by (simp add: mail_defs late_list_def sample_request_def sample_detail_def)

text \<open>Opening the local archive overtakes a running request without starting another: the marks that lists and a mail are being loaded
  stay set for ever.\<close>

lemma archive_keeps_loading:
  "\<exists>s. mail_steps [Turn_page DEFAULT_MAIL_LIST_QUERY, Select_mail (lit ''m1'') False, Open_folder (lit ''localArchive''),
       List_answer late_list (Some empty_answer), Detail_answer sample_request (Some (sample_detail (lit ''m1'')))] start_system = Some s
     \<and> ms_details s = [] \<and> ms_lists s = [] \<and> mv_loading (ms_view s) \<and> mv_detail_loading (ms_view s)"
  by (simp add: mail_defs late_list_def sample_request_def sample_detail_def)

text \<open>The button that marks the selected mail as read loads it again without taking a number: if another mail has been selected
  meanwhile, the mail that is shown is not the selected one.\<close>

definition read_action_end :: "jstring \<Rightarrow> bool \<Rightarrow> mail_detail \<Rightarrow> mail_view \<Rightarrow> mail_view" where
  \<comment> \<open>\<open>handleSelectedMailReadAction\<close> after its requests for the mail that was selected\<close>
  "read_action_end i mark d v =
     v\<lparr>mv_inbox := (if mark then mark_read i (mv_inbox v) else mv_inbox v), mv_detail := Some d, mv_loading := False\<rparr>"

lemma read_action_shows_other:
  "\<exists>s. mail_steps [Select_mail (lit ''m1'') False, Select_mail (lit ''m2'') False] start_system = Some s
     \<and> mv_selected (read_action_end (lit ''m1'') True (sample_detail (lit ''m1'')) (ms_view s)) = lit ''m2''
     \<and> mv_detail (read_action_end (lit ''m1'') True (sample_detail (lit ''m1'')) (ms_view s)) = Some (sample_detail (lit ''m1''))"
  by (simp add: mail_defs read_action_end_def)

end
