(* ===== verification/Js_Async.thy ===== *)
theory Js_Async
  imports Js_Prelude
begin

text \<open>
  Asynchronous event handlers. A handler of a component runs to its next \<open>await\<close> without interruption, sends a request
  there and goes on when the answer comes; meanwhile other handlers run. A handler is modelled as a process that changes
  the state, looks at it, sends requests and waits for answers; the statements of the language (\<open>await\<close>, \<open>try\<close>, \<open>catch\<close>,
  \<open>finally\<close>, \<open>throw\<close>, \<open>void f()\<close>) are combinators with a continuation for the value and one for the error. What a handler
  captured when it was called, as the functions of a React component do, is an argument of its definition; what it reads
  through a \<open>ref\<close> is looked up when it runs. The conditions of a handler are a recursive function over its process
  (\<open>safe\<close>), and the locale \<open>handler_system\<close> concludes from the conditions of all handlers what holds in every
  interleaving of them.
\<close>

section \<open>Processes\<close>

datatype ('c, 'r, 's) process =
    Halt
  | Await 'c "'r \<Rightarrow> ('c, 'r, 's) process"
  | Look "'s \<Rightarrow> ('c, 'r, 's) process"
  | Change "'s \<Rightarrow> 's" "('c, 'r, 's) process"
  | Spawn 'c "'r \<Rightarrow> ('c, 'r, 's) process" "('c, 'r, 's) process"

primrec spawn :: "('c, 'r, 's) process \<Rightarrow> ('c, 'r, 's) process \<Rightarrow> ('c, 'r, 's) process" where
  \<comment> \<open>run the first up to its first \<open>await\<close>, then the second\<close>
  "spawn Halt q = q"
| "spawn (Await c k) q = Spawn c k q"
| "spawn (Look k) q = Look (\<lambda>s. spawn (k s) q)"
| "spawn (Change f p) q = Change f (spawn p q)"
| "spawn (Spawn c k p) q = Spawn c k (spawn p q)"

section \<open>Statements\<close>

type_synonym ('c, 'e, 'v, 's, 'a) handler =
  "('a \<Rightarrow> ('c, 'e + 'v, 's) process) \<Rightarrow> ('e \<Rightarrow> ('c, 'e + 'v, 's) process) \<Rightarrow> ('c, 'e + 'v, 's) process"

definition give :: "'a \<Rightarrow> ('c, 'e, 'v, 's, 'a) handler" where
  "give x = (\<lambda>ok err. ok x)"

definition throw :: "'e \<Rightarrow> ('c, 'e, 'v, 's, 'a) handler" where
  "throw e = (\<lambda>ok err. err e)"

definition bind_h :: "('c, 'e, 'v, 's, 'a) handler \<Rightarrow> ('a \<Rightarrow> ('c, 'e, 'v, 's, 'b) handler) \<Rightarrow> ('c, 'e, 'v, 's, 'b) handler" where
  "bind_h h f = (\<lambda>ok err. h (\<lambda>x. f x ok err) err)"

primrec block :: "('c, 'e, 'v, 's, unit) handler list \<Rightarrow> ('c, 'e, 'v, 's, unit) handler" where
  "block [] = give ()"
| "block (h # hs) = bind_h h (\<lambda>_. block hs)"

definition set_h :: "('s \<Rightarrow> 's) \<Rightarrow> ('c, 'e, 'v, 's, unit) handler" where
  "set_h f = (\<lambda>ok err. Change f (ok ()))"

definition look :: "('c, 'e, 'v, 's, 's) handler" where
  "look = (\<lambda>ok err. Look ok)"

definition ask :: "'c \<Rightarrow> ('c, 'e, 'v, 's, 'v) handler" where
  \<comment> \<open>\<open>await\<close> of a request that fails or answers\<close>
  "ask c = (\<lambda>ok err. Await c (case_sum err ok))"

definition try_catch :: "('c, 'e, 'v, 's, 'a) handler \<Rightarrow> ('e \<Rightarrow> ('c, 'e, 'v, 's, 'a) handler) \<Rightarrow> ('c, 'e, 'v, 's, 'a) handler" where
  "try_catch h c = (\<lambda>ok err. h ok (\<lambda>e. c e ok err))"

definition finally_do :: "('c, 'e, 'v, 's, 'a) handler \<Rightarrow> ('c, 'e, 'v, 's, unit) handler \<Rightarrow> ('c, 'e, 'v, 's, 'a) handler" where
  "finally_do h f = (\<lambda>ok err. h (\<lambda>x. f (\<lambda>_. ok x) err) (\<lambda>e. f (\<lambda>_. err e) err))"

definition if_h :: "bool \<Rightarrow> ('c, 'e, 'v, 's, unit) handler \<Rightarrow> ('c, 'e, 'v, 's, unit) handler" where
  "if_h b h = (if b then h else give ())"

definition start :: "('c, 'e, 'v, 's, 'a) handler \<Rightarrow> ('c, 'e + 'v, 's) process" where
  \<comment> \<open>what remains of a value or an error nobody waits for\<close>
  "start h = h (\<lambda>_. Halt) (\<lambda>_. Halt)"

definition void :: "('c, 'e, 'v, 's, 'a) handler \<Rightarrow> ('c, 'e, 'v, 's, unit) handler" where
  \<comment> \<open>\<open>void f()\<close>: nobody waits for the rest of \<open>f\<close>\<close>
  "void h = (\<lambda>ok err. spawn (start h) (ok ()))"

primrec for_each_h :: "('b \<Rightarrow> ('c, 'e, 'v, 's, 'a) handler) \<Rightarrow> 'b list \<Rightarrow> ('c, 'e, 'v, 's, 'a list) handler" where
  \<comment> \<open>the results of a loop that awaits its body for one element after the other\<close>
  "for_each_h f [] = give []"
| "for_each_h f (x # xs) = bind_h (f x) (\<lambda>y. bind_h (for_each_h f xs) (\<lambda>ys. give (y # ys)))"

lemmas handler_defs = give_def throw_def bind_h_def set_h_def look_def ask_def try_catch_def finally_do_def if_h_def start_def void_def

lemma block_one [simp]: "block [h] = h"
  by (simp add: handler_defs)

section \<open>Running handlers\<close>

primrec run :: "('c, 'r, 's) process \<Rightarrow> 's \<Rightarrow> 's \<times> ('c \<times> ('r \<Rightarrow> ('c, 'r, 's) process)) list \<times> ('s \<times> 'c) list" where
  \<comment> \<open>up to the next \<open>await\<close>: the state, what waits for which request, and the requests sent in which states\<close>
  "run Halt s = (s, [], [])"
| "run (Await c k) s = (s, [(c, k)], [(s, c)])"
| "run (Look k) s = run (k s) s"
| "run (Change f p) s = run p (f s)"
| "run (Spawn c k p) s = (let (t, ws, cs) = run p s in (t, (c, k) # ws, (s, c) # cs))"

record ('c, 'r, 's) machine =
  mc_view :: 's
  mc_waiting :: "('c \<times> ('r \<Rightarrow> ('c, 'r, 's) process)) list"
  mc_sent :: "('s \<times> 'c) list"

datatype ('i, 'r) event = Invoke 'i | Answer nat 'r

definition proceed :: "('c, 'r, 's) process \<Rightarrow> ('c, 'r, 's) machine \<Rightarrow> ('c, 'r, 's) machine" where
  "proceed p m = (let (t, ws, cs) = run p (mc_view m)
     in m\<lparr>mc_view := t, mc_waiting := mc_waiting m @ ws, mc_sent := mc_sent m @ cs\<rparr>)"

definition drop_at :: "nat \<Rightarrow> 'a list \<Rightarrow> 'a list" where
  "drop_at n xs = take n xs @ drop (Suc n) xs"

fun advance :: "('i \<Rightarrow> 's \<Rightarrow> ('c, 'r, 's) process) \<Rightarrow> ('i, 'r) event \<Rightarrow> ('c, 'r, 's) machine \<Rightarrow> ('c, 'r, 's) machine option" where
  "advance handlers (Invoke i) m = Some (proceed (handlers i (mc_view m)) m)"
| "advance handlers (Answer n r) m =
     (if n < length (mc_waiting m)
      then Some (proceed (snd (mc_waiting m ! n) r) (m\<lparr>mc_waiting := drop_at n (mc_waiting m)\<rparr>)) else None)"

definition idle :: "'s \<Rightarrow> ('c, 'r, 's) machine" where
  "idle s = \<lparr>mc_view = s, mc_waiting = [], mc_sent = []\<rparr>"

definition answered_by :: "('s \<Rightarrow> 'c \<Rightarrow> 'r \<Rightarrow> bool) \<Rightarrow> ('i, 'r) event \<Rightarrow> ('c, 'r, 's) machine \<Rightarrow> bool" where
  \<comment> \<open>an answer is one that can come for the request in the state it meets\<close>
  "answered_by answers e m = (case e of Invoke i \<Rightarrow> True | Answer n r \<Rightarrow> n < length (mc_waiting m) \<longrightarrow> answers (mc_view m) (fst (mc_waiting m ! n)) r)"

inductive reached :: "('i \<Rightarrow> 's \<Rightarrow> ('c, 'r, 's) process) \<Rightarrow> ('s \<Rightarrow> 'c \<Rightarrow> 'r \<Rightarrow> bool) \<Rightarrow> ('c, 'r, 's) machine \<Rightarrow> ('c, 'r, 's) machine \<Rightarrow> bool"
  for handlers answers where
  reached_refl: "reached handlers answers m m"
| reached_step: "reached handlers answers m n \<Longrightarrow> answered_by answers e n \<Longrightarrow> advance handlers e n = Some n' \<Longrightarrow> reached handlers answers m n'"

fun advances :: "('i \<Rightarrow> 's \<Rightarrow> ('c, 'r, 's) process) \<Rightarrow> ('i, 'r) event list \<Rightarrow> ('c, 'r, 's) machine \<Rightarrow> ('c, 'r, 's) machine option" where
  "advances handlers [] m = Some m"
| "advances handlers (e # es) m = (case advance handlers e m of None \<Rightarrow> None | Some n \<Rightarrow> advances handlers es n)"

section \<open>Conditions\<close>

definition settled :: "('s \<Rightarrow> bool) \<Rightarrow> ('s \<Rightarrow> 's \<Rightarrow> bool) \<Rightarrow> 's \<Rightarrow> 's \<Rightarrow> bool" where
  \<comment> \<open>a segment from \<open>s0\<close> may end in \<open>s\<close>\<close>
  "settled I R s0 s \<longleftrightarrow> I s \<and> R s0 s"

primrec safe :: "('s \<Rightarrow> bool) \<Rightarrow> ('s \<Rightarrow> 's \<Rightarrow> bool) \<Rightarrow> ('s \<Rightarrow> 'c \<Rightarrow> 'r \<Rightarrow> bool) \<Rightarrow> ('s \<Rightarrow> 'c \<Rightarrow> bool) \<Rightarrow> ('c, 'r, 's) process
    \<Rightarrow> ('s \<Rightarrow> 's \<Rightarrow> bool) \<Rightarrow> 's \<Rightarrow> 's \<Rightarrow> bool" where
  \<comment> \<open>from the state \<open>s\<close> of a segment that began in \<open>s0\<close>: the first segment ends as \<open>J\<close> says, every later one in the
     invariant, each changes the state as the relation says and sends the requests the guard allows, if the other handlers
     do so between the segments\<close>
  "safe I R A G Halt J s0 s \<longleftrightarrow> J s0 s"
| "safe I R A G (Await c k) J s0 s \<longleftrightarrow>
     R s0 s \<and> G s c \<and> J s s \<and> (\<forall>r t. A t c r \<longrightarrow> I t \<longrightarrow> R s t \<longrightarrow> safe I R A G (k r) (settled I R) t t)"
| "safe I R A G (Look k) J s0 s \<longleftrightarrow> safe I R A G (k s) J s0 s"
| "safe I R A G (Change f p) J s0 s \<longleftrightarrow> safe I R A G p J s0 (f s)"
| "safe I R A G (Spawn c k p) J s0 s \<longleftrightarrow>
     R s0 s \<and> G s c \<and> (\<forall>r t. A t c r \<longrightarrow> I t \<longrightarrow> R s t \<longrightarrow> safe I R A G (k r) (settled I R) t t) \<and> safe I R A G p J s s"

lemma safe_spawn: "safe I R A G (spawn p q) J s0 s = safe I R A G p (safe I R A G q J) s0 s"
  by (induction p arbitrary: s0 s) (simp_all, blast)

definition ends :: "('s \<Rightarrow> bool) \<Rightarrow> ('s \<Rightarrow> 's \<Rightarrow> bool) \<Rightarrow> ('s \<Rightarrow> bool) \<Rightarrow> ('s \<Rightarrow> 's \<Rightarrow> bool) \<Rightarrow> bool" where
  "ends I R P J \<longleftrightarrow> (\<forall>u t. I t \<longrightarrow> P t \<longrightarrow> R u t \<longrightarrow> J u t)"

definition goes_on :: "('s \<Rightarrow> bool) \<Rightarrow> ('s \<Rightarrow> 's \<Rightarrow> bool) \<Rightarrow> ('s \<Rightarrow> 'c \<Rightarrow> 'r \<Rightarrow> bool) \<Rightarrow> ('s \<Rightarrow> 'c \<Rightarrow> bool) \<Rightarrow> ('s \<Rightarrow> bool)
    \<Rightarrow> ('s \<Rightarrow> 's \<Rightarrow> bool) \<Rightarrow> ('a \<Rightarrow> bool) \<Rightarrow> ('a \<Rightarrow> ('c, 'r, 's) process) \<Rightarrow> bool" where
  "goes_on I R A G P J V k \<longleftrightarrow> (\<forall>x u t. V x \<longrightarrow> I t \<longrightarrow> P t \<longrightarrow> R u t \<longrightarrow> safe I R A G (k x) J u t \<and> safe I R A G (k x) (settled I R) u t)"

definition keeps :: "('s \<Rightarrow> bool) \<Rightarrow> ('s \<Rightarrow> 's \<Rightarrow> bool) \<Rightarrow> ('s \<Rightarrow> 'c \<Rightarrow> 'e + 'v \<Rightarrow> bool) \<Rightarrow> ('s \<Rightarrow> 'c \<Rightarrow> bool) \<Rightarrow> ('s \<Rightarrow> bool)
    \<Rightarrow> ('c, 'e, 'v, 's, 'a) handler \<Rightarrow> ('a \<Rightarrow> bool) \<Rightarrow> bool" where
  \<comment> \<open>a handler that starts in the invariant and \<open>P\<close> is safe, and goes on in them with a value \<open>V\<close> allows or an error\<close>
  "keeps I R A G P h V \<longleftrightarrow>
     (\<forall>J ok err s0 s. I s \<longrightarrow> P s \<longrightarrow> R s0 s \<longrightarrow> ends I R P J \<longrightarrow> goes_on I R A G P J V ok \<longrightarrow> goes_on I R A G P J (\<lambda>_. True) err
       \<longrightarrow> safe I R A G (h ok err) J s0 s)"

named_theorems keeps_rules

lemma ends_settled [simp]: "ends I R P (settled I R)"
  by (simp add: ends_def settled_def)

lemma goes_on_settled: "goes_on I R A G P J V k \<Longrightarrow> goes_on I R A G P (settled I R) V k"
  by (simp add: goes_on_def)

lemma goes_onI:
  assumes "\<And>x u t K. V x \<Longrightarrow> I t \<Longrightarrow> P t \<Longrightarrow> R u t \<Longrightarrow> ends I R P K \<Longrightarrow> K = J \<or> K = settled I R \<Longrightarrow> safe I R A G (k x) K u t"
    and "ends I R P J"
  shows "goes_on I R A G P J V k"
  unfolding goes_on_def using assms by simp

lemma keepsI:
  assumes "\<And>J ok err s0 s. I s \<Longrightarrow> P s \<Longrightarrow> R s0 s \<Longrightarrow> ends I R P J \<Longrightarrow> goes_on I R A G P J V ok \<Longrightarrow> goes_on I R A G P J (\<lambda>_. True) err
       \<Longrightarrow> safe I R A G (h ok err) J s0 s"
  shows "keeps I R A G P h V"
  unfolding keeps_def using assms by blast

lemma keepsD:
  assumes "keeps I R A G P h V" "I s" "P s" "R s0 s" "ends I R P J" "goes_on I R A G P J V ok" "goes_on I R A G P J (\<lambda>_. True) err"
  shows "safe I R A G (h ok err) J s0 s"
  using assms unfolding keeps_def by blast

lemma goes_onD: "goes_on I R A G P J V k \<Longrightarrow> V x \<Longrightarrow> I t \<Longrightarrow> P t \<Longrightarrow> R u t \<Longrightarrow> safe I R A G (k x) J u t"
  by (simp add: goes_on_def)

lemma goes_on_either: "goes_on I R A G P J V k \<Longrightarrow> K = J \<or> K = settled I R \<Longrightarrow> goes_on I R A G P K V k"
  using goes_on_settled by blast

lemma keeps_give [keeps_rules]: "V x \<Longrightarrow> keeps I R A G P (give x) V"
  by (rule keepsI) (simp add: give_def goes_onD)

lemma keeps_throw [keeps_rules]: "keeps I R A G P (throw e) V"
  by (rule keepsI) (simp add: throw_def goes_onD)

lemma keeps_bind:
  fixes h :: "('c, 'e, 'v, 's, 'a) handler" and f :: "'a \<Rightarrow> ('c, 'e, 'v, 's, 'b) handler"
  assumes "keeps I R A G P h V" "\<And>x. V x \<Longrightarrow> keeps I R A G P (f x) W"
  shows "keeps I R A G P (bind_h h f) W"
proof (rule keepsI, unfold bind_h_def, rule keepsD [OF assms(1)])
  fix J and ok :: "'b \<Rightarrow> ('c, 'e + 'v, 's) process" and err :: "'e \<Rightarrow> ('c, 'e + 'v, 's) process"
  assume J: "ends I R P J" and k: "goes_on I R A G P J W ok" "goes_on I R A G P J (\<lambda>_. True) err"
  show "goes_on I R A G P J V (\<lambda>x. f x ok err)"
    by (rule goes_onI [OF _ J], rule keepsD [OF assms(2)]) (auto intro: goes_on_either k)
qed

lemma keeps_set [keeps_rules]:
  assumes "\<And>s. I s \<Longrightarrow> P s \<Longrightarrow> I (f s) \<and> R s (f s) \<and> P (f s)" "\<And>s t u. R s t \<Longrightarrow> R t u \<Longrightarrow> R s u" "V ()"
  shows "keeps I R A G P (set_h f) V"
proof (rule keepsI)
  fix J ok err s0 s
  assume s: "I s" "P s" "R s0 s" and ok: "goes_on I R A G P J V ok"
  have "R s0 (f s)" using assms(1) [OF s(1,2)] s(3) assms(2) by blast
  with assms(1) [OF s(1,2)] show "safe I R A G (set_h f ok err) J s0 s"
    by (simp add: set_h_def goes_onD [OF ok assms(3)])
qed

lemma keeps_ask:
  fixes A :: "'s \<Rightarrow> 'c \<Rightarrow> 'e + 'v \<Rightarrow> bool"
  assumes "\<And>s. I s \<Longrightarrow> P s \<Longrightarrow> G s c" "\<And>s t. P s \<Longrightarrow> R s t \<Longrightarrow> P t" "\<And>s. R s s"
    and "\<And>t v. I t \<Longrightarrow> P t \<Longrightarrow> A t c (Inr v) \<Longrightarrow> V v"
  shows "keeps I R A G P (ask c) V"
proof (rule keepsI)
  fix J s0 s and ok :: "'v \<Rightarrow> ('c, 'e + 'v, 's) process" and err :: "'e \<Rightarrow> ('c, 'e + 'v, 's) process"
  assume s: "I s" "P s" "R s0 s" and J: "ends I R P J" and k: "goes_on I R A G P J V ok" "goes_on I R A G P J (\<lambda>_. True) err"
  have "J s s" using J s assms(3) by (simp add: ends_def)
  moreover have "safe I R A G (case_sum err ok r) (settled I R) t t" if "A t c r" "I t" "R s t" for r t
  proof -
    have t: "P t" using assms(2) [OF s(2) that(3)] .
    show ?thesis
      using goes_onD [OF goes_on_settled [OF k(1)] assms(4) [OF that(2) t] that(2) t assms(3)]
        goes_onD [OF goes_on_settled [OF k(2)] TrueI that(2) t assms(3)] that(1)
      by (cases r) auto
  qed
  ultimately show "safe I R A G (ask c ok err) J s0 s" using s assms(1) by (simp add: ask_def)
qed

lemma keeps_try [keeps_rules]:
  fixes h :: "('c, 'e, 'v, 's, 'a) handler"
  assumes "keeps I R A G P h V" "\<And>e. keeps I R A G P (c e) V"
  shows "keeps I R A G P (try_catch h c) V"
proof (rule keepsI, unfold try_catch_def, rule keepsD [OF assms(1)])
  fix J and ok :: "'a \<Rightarrow> ('c, 'e + 'v, 's) process" and err :: "'e \<Rightarrow> ('c, 'e + 'v, 's) process"
  assume J: "ends I R P J" and k: "goes_on I R A G P J V ok" "goes_on I R A G P J (\<lambda>_. True) err"
  show "goes_on I R A G P J (\<lambda>_. True) (\<lambda>e. c e ok err)"
    by (rule goes_onI [OF _ J], rule keepsD [OF assms(2)]) (auto intro: goes_on_either k)
qed

lemma keeps_weaken: "keeps I R A G P h V \<Longrightarrow> (\<And>x. V x \<Longrightarrow> W x) \<Longrightarrow> keeps I R A G P h W"
  unfolding keeps_def goes_on_def by blast

lemma keeps_finally:
  fixes h :: "('c, 'e, 'v, 's, 'a) handler"
  assumes "keeps I R A G P h V" "keeps I R A G P f (\<lambda>_. True)"
  shows "keeps I R A G P (finally_do h f) V"
proof (rule keepsI, unfold finally_do_def, rule keepsD [OF assms(1)])
  fix J and ok :: "'a \<Rightarrow> ('c, 'e + 'v, 's) process" and err :: "'e \<Rightarrow> ('c, 'e + 'v, 's) process"
  assume J: "ends I R P J" and k: "goes_on I R A G P J V ok" "goes_on I R A G P J (\<lambda>_. True) err"
  have c: "goes_on I R A G P K (\<lambda>_. True) (\<lambda>_::unit. ok x)" if "V x" "K = J \<or> K = settled I R" for x K
    using goes_on_either [OF k(1) that(2)] that(1) by (simp add: goes_on_def)
  have d: "goes_on I R A G P K (\<lambda>_. True) (\<lambda>_::unit. err e)" if "K = J \<or> K = settled I R" for e K
    using goes_on_either [OF k(2) that] by (simp add: goes_on_def)
  show "goes_on I R A G P J V (\<lambda>x. f (\<lambda>_. ok x) err)"
    by (rule goes_onI [OF _ J], rule keepsD [OF assms(2)]) (auto intro: c goes_on_either k)
  show "goes_on I R A G P J (\<lambda>_. True) (\<lambda>e. f (\<lambda>_. err e) err)"
    by (rule goes_onI [OF _ J], rule keepsD [OF assms(2)]) (auto intro: d goes_on_either k)
qed

lemma keeps_void:
  fixes h :: "('c, 'e, 'v, 's, 'a) handler"
  assumes "keeps I R A G P h V" "W ()"
  shows "keeps I R A G P (void h) W"
proof (rule keepsI, unfold void_def start_def safe_spawn, rule keepsD [OF assms(1)])
  fix J and ok :: "unit \<Rightarrow> ('c, 'e + 'v, 's) process" and err :: "'e \<Rightarrow> ('c, 'e + 'v, 's) process"
  assume J: "ends I R P J" and k: "goes_on I R A G P J W ok"
  show e: "ends I R P (safe I R A G (ok ()) J)"
    unfolding ends_def using goes_onD [OF k assms(2)] by blast
  then show "goes_on I R A G P (safe I R A G (ok ()) J) V (\<lambda>_. Halt)" "goes_on I R A G P (safe I R A G (ok ()) J) (\<lambda>_. True) (\<lambda>_. Halt)"
    by (auto simp: goes_on_def ends_def settled_def)
qed

lemma keeps_if: "(b \<Longrightarrow> keeps I R A G P h V) \<Longrightarrow> V () \<Longrightarrow> keeps I R A G P (if_h b h) V"
  by (simp add: if_h_def keeps_give)

lemma keeps_block_Nil [keeps_rules]: "V () \<Longrightarrow> keeps I R A G P (block []) V"
  by (simp add: keeps_give)

lemma keeps_block [keeps_rules]:
  assumes "keeps I R A G P h (\<lambda>_. True)" "keeps I R A G P (block hs) V"
  shows "keeps I R A G P (block (h # hs)) V"
  unfolding block.simps by (rule keeps_bind [OF assms(1)]) (rule assms(2))

lemma keeps_for_each:
  assumes "\<And>x. x \<in> set xs \<Longrightarrow> keeps I R A G P (f x) V"
  shows "keeps I R A G P (for_each_h f xs) (\<lambda>ys. length ys = length xs \<and> list_all V ys)"
  using assms
proof (induction xs)
  case Nil
  show ?case by (simp add: keeps_give)
next
  case (Cons x xs)
  have x: "keeps I R A G P (f x) V" using Cons.prems by simp
  have xs: "keeps I R A G P (for_each_h f xs) (\<lambda>ys. length ys = length xs \<and> list_all V ys)"
    using Cons.IH Cons.prems by simp
  show ?case
    unfolding for_each_h.simps by (rule keeps_bind [OF x], rule keeps_bind [OF xs], rule keeps_give) simp
qed

lemma keeps_look:
  fixes f :: "'s \<Rightarrow> ('c, 'e, 'v, 's, 'a) handler"
  assumes "\<And>u. I u \<Longrightarrow> P u \<Longrightarrow> keeps I R A G (\<lambda>s. P s \<and> R u s) (f u) V" "\<And>s. R s s"
  shows "keeps I R A G P (bind_h look f) V"
proof (rule keepsI)
  fix J s0 s and ok :: "'a \<Rightarrow> ('c, 'e + 'v, 's) process" and err :: "'e \<Rightarrow> ('c, 'e + 'v, 's) process"
  assume s: "I s" "P s" "R s0 s" and J: "ends I R P J" and k: "goes_on I R A G P J V ok" "goes_on I R A G P J (\<lambda>_. True) err"
  have "safe I R A G (f s ok err) J s0 s"
    by (rule keepsD [OF assms(1) [OF s(1,2)], where s = s]) (use s J k assms(2) in \<open>auto simp: ends_def goes_on_def\<close>)
  then show "safe I R A G (bind_h look f ok err) J s0 s" by (simp add: bind_h_def look_def)
qed

lemma keeps_ask_then:
  fixes A :: "'s \<Rightarrow> 'c \<Rightarrow> 'e + 'v \<Rightarrow> bool"
  assumes "\<And>s. I s \<Longrightarrow> P s \<Longrightarrow> G s c" "\<And>s t. P s \<Longrightarrow> R s t \<Longrightarrow> P t" "\<And>s. R s s"
    and "\<And>v t. I t \<Longrightarrow> P t \<Longrightarrow> A t c (Inr v) \<Longrightarrow> keeps I R A G P (f v) W"
  shows "keeps I R A G P (bind_h (ask c) f) W"
  by (rule keeps_bind [where V = "\<lambda>v. \<exists>t. I t \<and> P t \<and> A t c (Inr v)"], rule keeps_ask) (use assms in blast)+

lemma keeps_ask_set:
  fixes A :: "'s \<Rightarrow> 'c \<Rightarrow> 'e + 'v \<Rightarrow> bool"
  assumes "\<And>s. I s \<Longrightarrow> P s \<Longrightarrow> G s c" "\<And>s t. P s \<Longrightarrow> R s t \<Longrightarrow> P t" "\<And>s. R s s"
    and "\<And>v t. I t \<Longrightarrow> P t \<Longrightarrow> A t c (Inr v) \<Longrightarrow> I (f v t) \<and> R t (f v t)" "V ()"
  shows "keeps I R A G P (bind_h (ask c) (\<lambda>v. set_h (f v))) V"
proof (rule keepsI)
  fix J s0 s and ok :: "unit \<Rightarrow> ('c, 'e + 'v, 's) process" and err :: "'e \<Rightarrow> ('c, 'e + 'v, 's) process"
  assume s: "I s" "P s" "R s0 s" and J: "ends I R P J" and k: "goes_on I R A G P J V ok" "goes_on I R A G P J (\<lambda>_. True) err"
  have "J s s" using J s assms(3) by (simp add: ends_def)
  moreover have "safe I R A G (case_sum err (\<lambda>v. Change (f v) (ok ())) r) (settled I R) t t" if "A t c r" "I t" "R s t" for r t
  proof -
    have t: "P t" using assms(2) [OF s(2) that(3)] .
    show ?thesis
    proof (cases r)
      case (Inl e)
      then show ?thesis using goes_onD [OF goes_on_settled [OF k(2)] TrueI that(2) t assms(3)] by simp
    next
      case (Inr v)
      have f: "I (f v t)" "R t (f v t)" using assms(4) [OF that(2) t] that(1) Inr by simp_all
      show ?thesis
        using goes_onD [OF goes_on_settled [OF k(1)] assms(5) f(1) assms(2) [OF t f(2)] f(2)] Inr by simp
    qed
  qed
  ultimately show "safe I R A G (bind_h (ask c) (\<lambda>v. set_h (f v)) ok err) J s0 s"
    using s assms(1) by (simp add: bind_h_def ask_def set_h_def)
qed

lemma keeps_look_set:
  fixes h :: "('c, 'e, 'v, 's, unit) handler"
  assumes "\<And>s. I s \<Longrightarrow> P s \<Longrightarrow> b s \<Longrightarrow> I (f s) \<and> R s (f s) \<and> P (f s)" "\<And>s t u. R s t \<Longrightarrow> R t u \<Longrightarrow> R s u"
    and "keeps I R A G P h V" "V ()"
  shows "keeps I R A G P (bind_h look (\<lambda>u. if_h (b u) (bind_h (set_h f) (\<lambda>_. h)))) V"
proof (rule keepsI)
  fix J s0 s and ok :: "unit \<Rightarrow> ('c, 'e + 'v, 's) process" and err :: "'e \<Rightarrow> ('c, 'e + 'v, 's) process"
  assume s: "I s" "P s" "R s0 s" and J: "ends I R P J" and k: "goes_on I R A G P J V ok" "goes_on I R A G P J (\<lambda>_. True) err"
  show "safe I R A G (bind_h look (\<lambda>u. if_h (b u) (bind_h (set_h f) (\<lambda>_. h))) ok err) J s0 s"
  proof (cases "b s")
    case True
    have f: "I (f s)" "R s (f s)" "P (f s)" using assms(1) [OF s(1,2) True] by simp_all
    have "R s0 (f s)" using s(3) f(2) by (rule assms(2))
    then have "safe I R A G (h ok err) J s0 (f s)" by (rule keepsD [OF assms(3) f(1) f(3) _ J k])
    with True show ?thesis by (simp add: bind_h_def look_def set_h_def if_h_def)
  next
    case False
    then show ?thesis using goes_onD [OF k(1) assms(4) s] by (simp add: bind_h_def look_def if_h_def give_def)
  qed
qed

definition stable :: "('s \<Rightarrow> 's \<Rightarrow> bool) \<Rightarrow> ('s \<Rightarrow> bool) \<Rightarrow> bool" where
  "stable R P \<longleftrightarrow> (\<forall>s t. P s \<longrightarrow> R s t \<longrightarrow> P t)"

lemma stable_True [simp]: "stable R (\<lambda>s. True)"
  by (simp add: stable_def)

lemma stable_since: "stable R P \<Longrightarrow> (\<And>s t u. R s t \<Longrightarrow> R t u \<Longrightarrow> R s u) \<Longrightarrow> stable R (\<lambda>s. P s \<and> R u s)"
  unfolding stable_def by blast

lemma keeps_set_look:
  fixes g :: "'s \<Rightarrow> ('c, 'e, 'v, 's, 'a) handler"
  assumes "\<And>s. I s \<Longrightarrow> P s \<Longrightarrow> I (f s) \<and> R s (f s) \<and> P (f s)" "\<And>s t u. R s t \<Longrightarrow> R t u \<Longrightarrow> R s u" "\<And>s. R s s"
    and "\<And>s. I s \<Longrightarrow> P s \<Longrightarrow> keeps I R A G (\<lambda>t. P t \<and> R (f s) t) (g (f s)) V"
  shows "keeps I R A G P (bind_h (set_h f) (\<lambda>_. bind_h look g)) V"
proof (rule keepsI)
  fix J s0 s and ok :: "'a \<Rightarrow> ('c, 'e + 'v, 's) process" and err :: "'e \<Rightarrow> ('c, 'e + 'v, 's) process"
  assume s: "I s" "P s" "R s0 s" and J: "ends I R P J" and k: "goes_on I R A G P J V ok" "goes_on I R A G P J (\<lambda>_. True) err"
  have f: "I (f s)" "R s (f s)" "P (f s)" using assms(1) [OF s(1,2)] by simp_all
  have "R s0 (f s)" using s(3) f(2) by (rule assms(2))
  then have "safe I R A G (g (f s) ok err) J s0 (f s)"
    by (intro keepsD [OF assms(4) [OF s(1,2)], where s = "f s"]) (use f J k assms(3) in \<open>auto simp: ends_def goes_on_def\<close>)
  then show "safe I R A G (bind_h (set_h f) (\<lambda>_. bind_h look g) ok err) J s0 s"
    by (simp add: bind_h_def look_def set_h_def)
qed

text \<open>A handler whose first request depends on the state it is called in: it starts in \<open>P\<close> and goes on in \<open>Q\<close>.\<close>

definition keeps_from :: "('s \<Rightarrow> bool) \<Rightarrow> ('s \<Rightarrow> 's \<Rightarrow> bool) \<Rightarrow> ('s \<Rightarrow> 'c \<Rightarrow> 'e + 'v \<Rightarrow> bool) \<Rightarrow> ('s \<Rightarrow> 'c \<Rightarrow> bool) \<Rightarrow> ('s \<Rightarrow> bool) \<Rightarrow> ('s \<Rightarrow> bool)
    \<Rightarrow> ('c, 'e, 'v, 's, 'a) handler \<Rightarrow> ('a \<Rightarrow> bool) \<Rightarrow> bool" where
  "keeps_from I R A G P Q h V \<longleftrightarrow>
     (\<forall>J ok err s0 s. I s \<longrightarrow> P s \<longrightarrow> R s0 s \<longrightarrow> ends I R Q J \<longrightarrow> goes_on I R A G Q J V ok \<longrightarrow> goes_on I R A G Q J (\<lambda>_. True) err
       \<longrightarrow> safe I R A G (h ok err) J s0 s)"

lemma keeps_fromI:
  assumes "\<And>J ok err s0 s. I s \<Longrightarrow> P s \<Longrightarrow> R s0 s \<Longrightarrow> ends I R Q J \<Longrightarrow> goes_on I R A G Q J V ok \<Longrightarrow> goes_on I R A G Q J (\<lambda>_. True) err
       \<Longrightarrow> safe I R A G (h ok err) J s0 s"
  shows "keeps_from I R A G P Q h V"
  unfolding keeps_from_def using assms by blast

lemma keeps_fromD:
  assumes "keeps_from I R A G P Q h V" "I s" "P s" "R s0 s" "ends I R Q J" "goes_on I R A G Q J V ok" "goes_on I R A G Q J (\<lambda>_. True) err"
  shows "safe I R A G (h ok err) J s0 s"
  using assms unfolding keeps_from_def by blast

lemma from_keeps: "keeps I R A G Q h V \<Longrightarrow> (\<And>s. I s \<Longrightarrow> P s \<Longrightarrow> Q s) \<Longrightarrow> keeps_from I R A G P Q h V"
  unfolding keeps_from_def keeps_def by blast

lemma keeps_from_self: "keeps_from I R A G P P h V \<Longrightarrow> keeps I R A G P h V"
  unfolding keeps_from_def keeps_def .

lemma from_set:
  fixes hs :: "('c, 'e, 'v, 's, unit) handler list"
  assumes "\<And>s. I s \<Longrightarrow> P s \<Longrightarrow> I (f s) \<and> R s (f s) \<and> P' (f s)" "\<And>s t u. R s t \<Longrightarrow> R t u \<Longrightarrow> R s u"
    and "keeps_from I R A G P' Q (block hs) V"
  shows "keeps_from I R A G P Q (block (set_h f # hs)) V"
proof (rule keeps_fromI)
  fix J s0 s and ok :: "unit \<Rightarrow> ('c, 'e + 'v, 's) process" and err :: "'e \<Rightarrow> ('c, 'e + 'v, 's) process"
  assume s: "I s" "P s" "R s0 s" and J: "ends I R Q J" "goes_on I R A G Q J V ok" "goes_on I R A G Q J (\<lambda>_. True) err"
  have f: "I (f s)" "P' (f s)" "R s0 (f s)" using assms(1) [OF s(1,2)] assms(2) [OF s(3)] by auto
  from keeps_fromD [OF assms(3) f J] show "safe I R A G (block (set_h f # hs) ok err) J s0 s"
    by (simp add: bind_h_def set_h_def)
qed

lemma from_ask:
  fixes A :: "'s \<Rightarrow> 'c \<Rightarrow> 'e + 'v \<Rightarrow> bool" and f :: "'v \<Rightarrow> ('c, 'e, 'v, 's, 'a) handler"
  assumes "\<And>s. I s \<Longrightarrow> P s \<Longrightarrow> G s c \<and> Q s" "\<And>s t. Q s \<Longrightarrow> R s t \<Longrightarrow> Q t" "\<And>s. R s s"
    and "\<And>v t. I t \<Longrightarrow> Q t \<Longrightarrow> A t c (Inr v) \<Longrightarrow> keeps I R A G Q (f v) V"
  shows "keeps_from I R A G P Q (bind_h (ask c) f) V"
proof (rule keeps_fromI)
  fix J s0 s and ok :: "'a \<Rightarrow> ('c, 'e + 'v, 's) process" and err :: "'e \<Rightarrow> ('c, 'e + 'v, 's) process"
  assume s: "I s" "P s" "R s0 s" and J: "ends I R Q J" and k: "goes_on I R A G Q J V ok" "goes_on I R A G Q J (\<lambda>_. True) err"
  have q: "G s c" "Q s" using assms(1) [OF s(1,2)] by simp_all
  have "J s s" using J s q assms(3) by (simp add: ends_def)
  moreover have "safe I R A G (case_sum err (\<lambda>v. f v ok err) r) (settled I R) t t" if "A t c r" "I t" "R s t" for r t
  proof -
    have t: "Q t" using assms(2) [OF q(2) that(3)] .
    show ?thesis
    proof (cases r)
      case (Inl e)
      then show ?thesis using goes_onD [OF goes_on_settled [OF k(2)] TrueI that(2) t assms(3)] by simp
    next
      case (Inr v)
      have "keeps I R A G Q (f v) V" using assms(4) [OF that(2) t] that(1) Inr by simp
      from keepsD [OF this that(2) t assms(3) ends_settled goes_on_settled [OF k(1)] goes_on_settled [OF k(2)]] Inr
      show ?thesis by simp
    qed
  qed
  ultimately show "safe I R A G (bind_h (ask c) f ok err) J s0 s" using s q by (simp add: bind_h_def ask_def)
qed

lemma from_try:
  fixes h :: "('c, 'e, 'v, 's, 'a) handler"
  assumes "keeps_from I R A G P Q h V" "\<And>e. keeps I R A G Q (c e) V"
  shows "keeps_from I R A G P Q (try_catch h c) V"
proof (rule keeps_fromI, unfold try_catch_def, rule keeps_fromD [OF assms(1)])
  fix J and ok :: "'a \<Rightarrow> ('c, 'e + 'v, 's) process" and err :: "'e \<Rightarrow> ('c, 'e + 'v, 's) process"
  assume J: "ends I R Q J" and k: "goes_on I R A G Q J V ok" "goes_on I R A G Q J (\<lambda>_. True) err"
  show "goes_on I R A G Q J (\<lambda>_. True) (\<lambda>e. c e ok err)"
    by (rule goes_onI [OF _ J], rule keepsD [OF assms(2)]) (auto intro: goes_on_either k)
qed

lemma from_finally:
  fixes h :: "('c, 'e, 'v, 's, 'a) handler"
  assumes "keeps_from I R A G P Q h V" "keeps I R A G Q f (\<lambda>_. True)"
  shows "keeps_from I R A G P Q (finally_do h f) V"
proof (rule keeps_fromI, unfold finally_do_def, rule keeps_fromD [OF assms(1)])
  fix J and ok :: "'a \<Rightarrow> ('c, 'e + 'v, 's) process" and err :: "'e \<Rightarrow> ('c, 'e + 'v, 's) process"
  assume J: "ends I R Q J" and k: "goes_on I R A G Q J V ok" "goes_on I R A G Q J (\<lambda>_. True) err"
  have c: "goes_on I R A G Q K (\<lambda>_. True) (\<lambda>_::unit. ok x)" if "V x" "K = J \<or> K = settled I R" for x K
    using goes_on_either [OF k(1) that(2)] that(1) by (simp add: goes_on_def)
  have d: "goes_on I R A G Q K (\<lambda>_. True) (\<lambda>_::unit. err e)" if "K = J \<or> K = settled I R" for e K
    using goes_on_either [OF k(2) that] by (simp add: goes_on_def)
  show "goes_on I R A G Q J V (\<lambda>x. f (\<lambda>_. ok x) err)"
    by (rule goes_onI [OF _ J], rule keepsD [OF assms(2)]) (auto intro: c goes_on_either k)
  show "goes_on I R A G Q J (\<lambda>_. True) (\<lambda>e. f (\<lambda>_. err e) err)"
    by (rule goes_onI [OF _ J], rule keepsD [OF assms(2)]) (auto intro: d goes_on_either k)
qed

lemma from_one:
  fixes h :: "('c, 'e, 'v, 's, unit) handler"
  assumes "keeps_from I R A G P Q h V"
  shows "keeps_from I R A G P Q (block [h]) V"
  using assms by (simp only: block_one)

lemma from_request:
  fixes k :: "'v \<Rightarrow> ('c, 'e, 'v, 's, unit) handler" and A :: "'s \<Rightarrow> 'c \<Rightarrow> 'e + 'v \<Rightarrow> bool"
  assumes "\<And>s. I s \<Longrightarrow> P s \<Longrightarrow> I (f s) \<and> R s (f s) \<and> P' (f s)" "\<And>s t u. R s t \<Longrightarrow> R t u \<Longrightarrow> R s u" "\<And>s. R s s"
    and "\<And>s. I s \<Longrightarrow> P' s \<Longrightarrow> G s c \<and> Q s" "\<And>s t. Q s \<Longrightarrow> R s t \<Longrightarrow> Q t"
    and "\<And>v t. I t \<Longrightarrow> Q t \<Longrightarrow> A t c (Inr v) \<Longrightarrow> keeps I R A G Q (k v) V"
    and "\<And>e. keeps I R A G Q (failed e) V" "keeps I R A G Q fin (\<lambda>_. True)"
  shows "keeps_from I R A G P Q (block [set_h f, finally_do (try_catch (bind_h (ask c) k) failed) fin]) V"
proof (rule from_set [where P' = P'])
  have "keeps_from I R A G P' Q (bind_h (ask c) k) V"
    by (rule from_ask [OF assms(4) assms(5) assms(3) assms(6)])
  then show "keeps_from I R A G P' Q (block [finally_do (try_catch (bind_h (ask c) k) failed) fin]) V"
    by (intro from_one from_finally from_try assms(7,8))
  show "I (f s) \<and> R s (f s) \<and> P' (f s)" if "I s" "P s" for s by (rule assms(1) [OF that])
  show "R s u" if "R s t" "R t u" for s t u by (rule assms(2) [OF that])
qed

lemma from_start:
  assumes "keeps_from I R A G P Q h V" "I s" "P s" "R s s"
  shows "safe I R A G (start h) (settled I R) s s"
  unfolding start_def by (rule keeps_fromD [OF assms]) (auto simp: settled_def goes_on_def)

lemma keeps_start:
  assumes "keeps I R A G P h V" "I s" "P s" "R s s"
  shows "safe I R A G (start h) (settled I R) s s"
  unfolding start_def by (rule keepsD [OF assms]) (auto simp: settled_def goes_on_def)

definition resumes :: "('s \<Rightarrow> bool) \<Rightarrow> ('s \<Rightarrow> 's \<Rightarrow> bool) \<Rightarrow> ('s \<Rightarrow> 'c \<Rightarrow> 'r \<Rightarrow> bool) \<Rightarrow> ('s \<Rightarrow> 'c \<Rightarrow> bool)
    \<Rightarrow> 's \<Rightarrow> 'c \<times> ('r \<Rightarrow> ('c, 'r, 's) process) \<Rightarrow> bool" where
  "resumes I R A G s w \<longleftrightarrow> (\<forall>r t. A t (fst w) r \<longrightarrow> I t \<longrightarrow> R s t \<longrightarrow> safe I R A G (snd w r) (settled I R) t t)"

text \<open>The requests are those the guard allows for the state in which their handler was called, the first argument of the
  guard.\<close>

locale handler_system =
  fixes handlers :: "'i \<Rightarrow> 's \<Rightarrow> ('c, 'r, 's) process"
    and inv :: "'s \<Rightarrow> bool"
    and rely :: "'s \<Rightarrow> 's \<Rightarrow> bool"
    and answers :: "'s \<Rightarrow> 'c \<Rightarrow> 'r \<Rightarrow> bool"
    and guard :: "'s \<Rightarrow> 's \<Rightarrow> 'c \<Rightarrow> bool"
  assumes rely_refl: "rely s s"
    and rely_trans: "rely s t \<Longrightarrow> rely t u \<Longrightarrow> rely s u"
    and handlers_safe: "inv s \<Longrightarrow> safe inv rely answers (guard s) (handlers i s) (settled inv rely) s s"
begin

abbreviation called_in :: "('c, 'r, 's) machine \<Rightarrow> ('c, 'r, 's) machine \<Rightarrow> ('c, 'r, 's) machine \<Rightarrow> bool" where
  \<comment> \<open>the second is on the way from the first to the third\<close>
  "called_in m0 n m \<equiv> reached handlers answers m0 n \<and> reached handlers answers n m"

definition fine :: "('c, 'r, 's) machine \<Rightarrow> ('c, 'r, 's) machine \<Rightarrow> bool" where
  "fine m0 m \<longleftrightarrow> inv (mc_view m)
     \<and> (\<forall>w\<in>set (mc_waiting m). \<exists>n. called_in m0 n m \<and> inv (mc_view n) \<and> resumes inv rely answers (guard (mc_view n)) (mc_view m) w)
     \<and> (\<forall>(s, c)\<in>set (mc_sent m). \<exists>n. called_in m0 n m \<and> guard (mc_view n) s c)"

lemma resumes_later: "resumes inv rely answers G s w \<Longrightarrow> rely s t \<Longrightarrow> resumes inv rely answers G t w"
  unfolding resumes_def using rely_trans by blast

lemma run_fine:
  assumes "safe inv rely answers G p (settled inv rely) s0 s" "run p s = (t, ws, cs)"
  shows "inv t \<and> rely s0 t \<and> (\<forall>w\<in>set ws. resumes inv rely answers G t w) \<and> (\<forall>(u, c)\<in>set cs. G u c)"
  using assms
proof (induction p arbitrary: s0 s t ws cs)
  case Halt
  then show ?case by (auto simp: settled_def)
next
  case (Await c k)
  then show ?case by (auto simp: resumes_def settled_def)
next
  case (Look k)
  from Look.IH [OF rangeI, of s s0 s t ws cs] Look.prems show ?case by simp
next
  case (Change f p)
  from Change.IH [of s0 "f s" t ws cs] Change.prems show ?case by simp
next
  case (Spawn c k p)
  obtain ws' cs' where r: "run p s = (t, ws', cs')" and ws: "ws = (c, k) # ws'" "cs = (s, c) # cs'"
    using Spawn.prems(2) by (auto split: prod.splits)
  have p: "safe inv rely answers G p (settled inv rely) s s" and c: "rely s0 s" "G s c" "resumes inv rely answers G s (c, k)"
    using Spawn.prems(1) by (auto simp: resumes_def)
  from Spawn.IH(2) [OF p r] c show ?case unfolding ws by (auto intro: resumes_later rely_trans)
qed

text \<open>One step: the first assumption on \<open>k\<close> says where the handler was called that runs now.\<close>

lemma proceed_fine:
  assumes m: "fine m0 m" and s: "safe inv rely answers (guard (mc_view k)) p (settled inv rely) (mc_view m) (mc_view m)"
    and ws: "set ws \<subseteq> set (mc_waiting m)" and k: "called_in m0 k m" "inv (mc_view k)"
    and n: "n = proceed p (m\<lparr>mc_waiting := ws\<rparr>)" and step: "\<And>n'. reached handlers answers n' m \<Longrightarrow> reached handlers answers n' n"
  shows "fine m0 n \<and> rely (mc_view m) (mc_view n)"
proof -
  obtain t vs cs where r: "run p (mc_view m) = (t, vs, cs)" by (metis prod_cases3)
  have n': "mc_view n = t" "mc_waiting n = ws @ vs" "mc_sent n = mc_sent m @ cs" using r by (simp_all add: n proceed_def)
  note run = run_fine [OF s r]
  have k': "called_in m0 k n" using k(1) step by blast
  have "\<exists>l. called_in m0 l n \<and> inv (mc_view l) \<and> resumes inv rely answers (guard (mc_view l)) t w" if "w \<in> set (ws @ vs)" for w
  proof (cases "w \<in> set vs")
    case True
    then show ?thesis using run k' k(2) by blast
  next
    case False
    then have "w \<in> set (mc_waiting m)" using that ws by auto
    then obtain l where "called_in m0 l m" "inv (mc_view l)" "resumes inv rely answers (guard (mc_view l)) (mc_view m) w"
      using m unfolding fine_def by blast
    then show ?thesis using step resumes_later run by blast
  qed
  moreover have "\<exists>l. called_in m0 l n \<and> guard (mc_view l) u c" if "(u, c) \<in> set (mc_sent m @ cs)" for u c
  proof (cases "(u, c) \<in> set cs")
    case True
    then show ?thesis using run k' by blast
  next
    case False
    then have "(u, c) \<in> set (mc_sent m)" using that by auto
    then obtain l where "called_in m0 l m" "guard (mc_view l) u c" using m unfolding fine_def by blast
    then show ?thesis using step by blast
  qed
  ultimately show ?thesis using run by (auto simp: fine_def n')
qed

lemma advance_fine:
  assumes m: "fine m0 m" "reached handlers answers m0 m" and e: "answered_by answers e m" "advance handlers e m = Some n"
  shows "fine m0 n \<and> rely (mc_view m) (mc_view n)"
proof -
  have step: "reached handlers answers n' n" if "reached handlers answers n' m" for n' by (rule reached_step [OF that e])
  have i: "inv (mc_view m)" using m(1) by (simp add: fine_def)
  show ?thesis
  proof (cases e)
    case (Invoke j)
    have k: "called_in m0 m m" using m(2) reached_refl by blast
    show ?thesis
      by (rule proceed_fine [OF m(1) handlers_safe [OF i] _ k i _ step, where ws = "mc_waiting m"]) (use Invoke e(2) in auto)
  next
    case (Answer k r)
    have k: "k < length (mc_waiting m)" and n: "n = proceed (snd (mc_waiting m ! k) r) (m\<lparr>mc_waiting := drop_at k (mc_waiting m)\<rparr>)"
      using e(2) Answer by (auto split: if_splits)
    obtain l where l: "called_in m0 l m" "inv (mc_view l)"
        "resumes inv rely answers (guard (mc_view l)) (mc_view m) (mc_waiting m ! k)"
      using m(1) k unfolding fine_def by (meson nth_mem)
    have "answers (mc_view m) (fst (mc_waiting m ! k)) r" using e(1) Answer k by (simp add: answered_by_def)
    with l(3) i have s: "safe inv rely answers (guard (mc_view l)) (snd (mc_waiting m ! k) r) (settled inv rely) (mc_view m) (mc_view m)"
      by (simp add: resumes_def rely_refl)
    show ?thesis
      by (rule proceed_fine [OF m(1) s _ l(1,2) n step]) (auto simp: drop_at_def dest: in_set_takeD in_set_dropD)
  qed
qed

lemma reached_fine:
  assumes "reached handlers answers m n" "reached handlers answers m0 m" "fine m0 m"
  shows "reached handlers answers m0 n \<and> fine m0 n \<and> rely (mc_view m) (mc_view n)"
  using assms
proof (induction rule: reached.induct)
  case (reached_refl m)
  then show ?case by (simp add: rely_refl)
next
  case (reached_step m n e n')
  then have n: "reached handlers answers m0 n" "fine m0 n" "rely (mc_view m) (mc_view n)" by blast+
  show ?case
    using advance_fine [OF n(2,1) reached_step.hyps(2,3)] reached.reached_step [OF n(1) reached_step.hyps(2,3)] n(3)
    by (blast intro: rely_trans)
qed

lemma idle_fine: "inv s \<Longrightarrow> fine (idle s) (idle s)"
  by (simp add: fine_def idle_def)

lemma always:
  assumes "reached handlers answers (idle s) m" "inv s"
  shows "inv (mc_view m) \<and> rely s (mc_view m) \<and> (\<forall>(t, c)\<in>set (mc_sent m). \<exists>n. called_in (idle s) n m \<and> guard (mc_view n) t c)"
  using reached_fine [OF assms(1) reached_refl idle_fine [OF assms(2)]] by (auto simp: fine_def idle_def)

lemma sent:
  assumes "reached handlers answers (idle s) m" "inv s" "(t, c) \<in> set (mc_sent m)"
  obtains n where "reached handlers answers (idle s) n" "reached handlers answers n m" "guard (mc_view n) t c"
  using always [OF assms(1,2)] assms(3) by blast

lemma later:
  assumes "reached handlers answers (idle s) m" "inv s" "reached handlers answers m n"
  shows "inv (mc_view n) \<and> rely (mc_view m) (mc_view n)"
proof -
  have m: "fine (idle s) m" using reached_fine [OF assms(1) reached_refl idle_fine [OF assms(2)]] by blast
  show ?thesis using reached_fine [OF assms(3,1) m] by (simp add: fine_def)
qed

end

primrec answered_all :: "('i \<Rightarrow> 's \<Rightarrow> ('c, 'r, 's) process) \<Rightarrow> ('s \<Rightarrow> 'c \<Rightarrow> 'r \<Rightarrow> bool) \<Rightarrow> ('i, 'r) event list \<Rightarrow> ('c, 'r, 's) machine \<Rightarrow> bool" where
  "answered_all handlers answers [] m = True"
| "answered_all handlers answers (e # es) m =
     (answered_by answers e m \<and> (case advance handlers e m of None \<Rightarrow> True | Some n \<Rightarrow> answered_all handlers answers es n))"

lemma advances_reached:
  assumes "advances handlers es n = Some m" "answered_all handlers answers es n" "reached handlers answers s n"
  shows "reached handlers answers s m"
  using assms
proof (induction es arbitrary: n)
  case (Cons e es)
  then obtain n' where n': "advance handlers e n = Some n'" "advances handlers es n' = Some m" by (auto split: option.splits)
  have "reached handlers answers s n'"
    using Cons.prems by (intro reached_step [OF Cons.prems(3) _ n'(1)]) simp
  with Cons.IH [OF n'(2)] Cons.prems(2) n'(1) show ?case by simp
qed simp

lemma advances_from: "advances handlers es n = Some m \<Longrightarrow> answered_all handlers answers es n \<Longrightarrow> reached handlers answers n m"
  by (rule advances_reached [OF _ _ reached_refl])

end
