(* ===== verification/Approval_View.thy ===== *)
theory Approval_View
  imports Approval Js_Async
begin

text \<open>
  The approval view of the web client (\<open>user-web/src/App.tsx\<close>): the documents, the selected one with its details,
  history and images, the menus and what follows an action. Its handlers are processes of \<open>Js_Async\<close>; requests to the
  server are the constructors of \<open>approval_call\<close>, in each of them the token it is sent with. Three fields are not in the
  program: \<open>vw_chosen\<close>, the document the latest numbered selection was for, and \<open>vw_freed\<close> and \<open>vw_made\<close>, the object
  URLs of images that were revoked and made.
\<close>

section \<open>Data\<close>

datatype shell_menu = Actual menu | Settings

record line_signature =
  sl_id :: jstring
  sl_hasSignature :: bool
  sl_signatureUrl :: "jstring option"

record approval_attachment =
  aa_id :: jstring
  aa_contentType :: jstring
  aa_sizeBytes :: int
  aa_previewUrl :: "jstring option"

record approval_detail = approval_document +
  ad_content :: jstring
  ad_signatures :: "line_signature list"
  ad_attachments :: "approval_attachment list"
  ad_references :: "jstring list"
  ad_viewers :: "jstring list"
  ad_urgent :: bool
  ad_shared :: bool

definition as_document :: "approval_detail \<Rightarrow> approval_document" where
  \<comment> \<open>a detail in the list of documents\<close>
  "as_document d = approval_document.truncate d"

record approval_preferences =
  pf_writingMethod :: jstring
  pf_display :: image_display
  pf_version :: int
  pf_hasSignature :: bool
  pf_signatureFileName :: "jstring option"
  pf_signatureUrl :: "jstring option"

record delegation =
  dg_id :: jstring
  dg_version :: int
  dg_draft :: delegation_draft

record draft_payload =
  pl_title :: jstring
  pl_content :: jstring
  pl_approvers :: "jstring list"
  pl_references :: "jstring list"
  pl_viewers :: "jstring list"
  pl_urgent :: bool
  pl_shared :: bool
  pl_uploads :: "jstring list"

datatype trash_action = To_trash | From_trash | Permanently

datatype approval_call =
    Get_documents jstring
  | Get_all_logs jstring
  | Load_notifications jstring
  | Get_detail jstring jstring \<comment> \<open>with the preferences, \<open>null\<close> where these fail\<close>
  | Mark_read jstring jstring
  | Get_images jstring "(jstring \<times> jstring) list" "(jstring \<times> jstring) list"
  | Get_logs jstring jstring
  | Get_editor jstring "jstring option"
  | Upload jstring nat
  | Create_document jstring draft_payload
  | Update_document jstring jstring draft_payload "jstring list"
  | Act jstring approval_action jstring jstring
  | Move_trash jstring trash_action jstring
  | Get_preferences jstring
  | Save_preferences jstring jstring image_display int bool bool
  | Get_signature jstring jstring
  | Get_approvers jstring
  | Get_delegations jstring nat
  | Create_delegation jstring delegation_draft
  | Update_delegation jstring jstring delegation_draft int
  | Delete_delegation jstring jstring int

fun call_token :: "approval_call \<Rightarrow> jstring" where
  "call_token (Get_documents t) = t"
| "call_token (Get_all_logs t) = t"
| "call_token (Load_notifications t) = t"
| "call_token (Get_detail t i) = t"
| "call_token (Mark_read t i) = t"
| "call_token (Get_images t ls as) = t"
| "call_token (Get_logs t i) = t"
| "call_token (Get_editor t i) = t"
| "call_token (Upload t n) = t"
| "call_token (Create_document t p) = t"
| "call_token (Update_document t i p rs) = t"
| "call_token (Act t a i r) = t"
| "call_token (Move_trash t a i) = t"
| "call_token (Get_preferences t) = t"
| "call_token (Save_preferences t w d v r f) = t"
| "call_token (Get_signature t u) = t"
| "call_token (Get_approvers t) = t"
| "call_token (Get_delegations t n) = t"
| "call_token (Create_delegation t d) = t"
| "call_token (Update_delegation t i d v) = t"
| "call_token (Delete_delegation t i v) = t"

datatype approval_reply =
    Documents "approval_document list"
  | Logs "jsval list"
  | Detail approval_detail "approval_preferences option"
  | Read_detail approval_detail
  | Images "(jstring \<times> jstring) option list" "(jstring \<times> jstring) option list"
  | Editor "jsval list" "approval_detail option"
  | Uploaded jstring
  | Created jstring
  | Updated approval_document
  | Preferences approval_preferences
  | Signature jstring
  | Approvers "jsval list"
  | Delegations "delegation list" nat nat
  | Done

record approval_view =
  vw_token :: jstring
  vw_me :: "jstring option"
  vw_active :: bool \<comment> \<open>\<open>activePortalMenu === "approval"\<close>\<close>
  vw_documents :: "approval_document list"
  vw_menu :: shell_menu
  vw_status_filter :: jstring
  vw_search :: jstring
  vw_selected :: jstring
  vw_detail :: "approval_detail option"
  vw_logs :: "jsval list"
  vw_detail_loading :: bool
  vw_logs_loading :: bool
  vw_detail_error :: bool
  vw_logs_error :: bool
  vw_attachment_error :: bool
  vw_sequence :: nat
  vw_urls :: "jstring list"
  vw_signature_urls :: "(jstring \<times> jstring) list"
  vw_preview_urls :: "(jstring \<times> jstring) list"
  vw_preferences :: "approval_preferences option"
  vw_chosen :: jstring
  vw_freed :: "jstring list"
  vw_made :: "jstring set"

type_synonym ('x, 'a) approval_handler = "(approval_call, int option, approval_reply, 'x approval_view_scheme, 'a) handler"

section \<open>The images of a document\<close>

definition release_urls :: "'x approval_view_scheme \<Rightarrow> 'x approval_view_scheme" where
  "release_urls v = v\<lparr>vw_freed := vw_freed v @ vw_urls v, vw_urls := [], vw_signature_urls := [], vw_preview_urls := []\<rparr>"

definition releaseApprovalDetailImages :: "('x, unit) approval_handler" where
  "releaseApprovalDetailImages = set_h release_urls"

definition signature_requests :: "approval_detail \<Rightarrow> (jstring \<times> jstring) list" where
  "signature_requests d = List.map_filter (\<lambda>l. if sl_hasSignature l \<and> set_text (sl_signatureUrl l)
     then Some (sl_id l, the (sl_signatureUrl l)) else None) (ad_signatures d)"

definition preview_requests :: "js_env \<Rightarrow> image_display \<Rightarrow> approval_detail \<Rightarrow> (jstring \<times> jstring) list" where
  "preview_requests E display d = List.map_filter (\<lambda>a. if set_text (aa_previewUrl a) \<and> shouldPreviewApprovalAttachment E (aa_contentType a) display
     then Some (aa_id a, the (aa_previewUrl a)) else None) (ad_attachments d)"

definition loaded_images :: "(jstring \<times> jstring) option list \<Rightarrow> (jstring \<times> jstring) list" where
  "loaded_images = List.map_filter id"

definition images_loaded :: "nat \<Rightarrow> (jstring \<times> jstring) option list \<Rightarrow> (jstring \<times> jstring) option list \<Rightarrow> 'x approval_view_scheme \<Rightarrow> 'x approval_view_scheme" where
  \<comment> \<open>with the object URLs of the images that could be loaded\<close>
  "images_loaded sequence lineEntries attachmentEntries v =
     (let ls = loaded_images lineEntries; as = loaded_images attachmentEntries; urls = map snd (ls @ as);
          v1 = v\<lparr>vw_made := vw_made v \<union> set urls\<rparr>
      in if sequence \<noteq> vw_sequence v then v1\<lparr>vw_freed := vw_freed v @ urls\<rparr>
         else v1\<lparr>vw_urls := urls, vw_signature_urls := ls, vw_preview_urls := as\<rparr>)"

definition loadApprovalDetailImages :: "js_env \<Rightarrow> jstring \<Rightarrow> approval_detail \<Rightarrow> image_display \<Rightarrow> nat \<Rightarrow> ('x, unit) approval_handler" where
  \<comment> \<open>the two groups of images are one request: nothing is read or written between them\<close>
  "loadApprovalDetailImages E targetToken detail display sequence = block
     [releaseApprovalDetailImages,
      bind_h (ask (Get_images targetToken (signature_requests detail) (preview_requests E display detail))) (\<lambda>r.
        set_h (case r of Images ls as \<Rightarrow> images_loaded sequence ls as | _ \<Rightarrow> id))]"

section \<open>Selecting a document\<close>

definition if_current :: "nat \<Rightarrow> ('x approval_view_scheme \<Rightarrow> 'x approval_view_scheme) \<Rightarrow> ('x, unit) approval_handler" where
  \<comment> \<open>\<open>if (sequence === approvalRequestSequence.current)\<close>\<close>
  "if_current sequence f = set_h (\<lambda>v. if sequence = vw_sequence v then f v else v)"

definition target_menu :: "'x approval_view_scheme \<Rightarrow> jstring \<Rightarrow> menu option" where
  \<comment> \<open>the menu that is opened for a document that is not in the current one\<close>
  "target_menu v documentId =
     (case (find (\<lambda>d. ad_id d = documentId) (vw_documents v), vw_me v) of
        (Some d, Some me) \<Rightarrow>
          (if (case vw_menu v of Actual k \<Rightarrow> group_of k (classifyApprovalDocuments [d] me) \<noteq> [] | Settings \<Rightarrow> False)
           then None else findApprovalDocumentMenu d me)
      | _ \<Rightarrow> None)"

definition replace_document :: "approval_detail \<Rightarrow> approval_document list \<Rightarrow> approval_document list" where
  "replace_document d = map (\<lambda>item. if ad_id item = ad_id d then as_document d else item)"

definition mark_document_read :: "jstring \<Rightarrow> jstring \<Rightarrow> nat \<Rightarrow> ('x, unit) approval_handler" where
  "mark_document_read token documentId sequence =
     try_catch (bind_h (ask (Mark_read token documentId)) (\<lambda>r.
       case r of
         Read_detail d \<Rightarrow> if_current sequence (\<lambda>v. v\<lparr>vw_detail := Some d, vw_documents := replace_document d (vw_documents v)\<rparr>)
       | _ \<Rightarrow> give ()))
     (\<lambda>e. give ())"

definition display_of :: "approval_preferences option \<Rightarrow> image_display" where
  "display_of p = (case p of None \<Rightarrow> Filename | Some q \<Rightarrow> pf_display q)"

definition show_detail :: "js_env \<Rightarrow> jstring \<Rightarrow> jstring \<Rightarrow> nat \<Rightarrow> approval_detail \<Rightarrow> approval_preferences option \<Rightarrow> ('x, unit) approval_handler" where
  "show_detail E token documentId sequence detail preferences =
     bind_h look (\<lambda>v.
       if_h (sequence = vw_sequence v) (block
         [set_h (\<lambda>v. v\<lparr>vw_detail := Some detail\<rparr>),
          if_h (set_text (ad_currentUserAudienceType detail) \<and> \<not> set_text (ad_currentUserReadAt detail))
            (void (mark_document_read token documentId sequence)),
          if_h (preferences \<noteq> None) (set_h (\<lambda>v. v\<lparr>vw_preferences := preferences\<rparr>)),
          void (loadApprovalDetailImages E token detail (display_of preferences) sequence)]))"

definition load_detail :: "js_env \<Rightarrow> jstring \<Rightarrow> jstring \<Rightarrow> nat \<Rightarrow> ('x, unit) approval_handler" where
  "load_detail E token documentId sequence =
     finally_do
       (try_catch (bind_h (ask (Get_detail token documentId)) (\<lambda>r.
          case r of Detail d p \<Rightarrow> show_detail E token documentId sequence d p | _ \<Rightarrow> give ()))
        (\<lambda>e. if_current sequence (\<lambda>v. v\<lparr>vw_detail_error := True\<rparr>)))
       (if_current sequence (\<lambda>v. v\<lparr>vw_detail_loading := False\<rparr>))"

definition load_logs :: "jstring \<Rightarrow> jstring \<Rightarrow> nat \<Rightarrow> bool \<Rightarrow> ('x, unit) approval_handler" where
  \<comment> \<open>where it fails, the selection empties the history, the repetition does not\<close>
  "load_logs token documentId sequence clears =
     finally_do
       (try_catch (bind_h (ask (Get_logs token documentId)) (\<lambda>r.
          case r of Logs ls \<Rightarrow> if_current sequence (\<lambda>v. v\<lparr>vw_logs := ls\<rparr>) | _ \<Rightarrow> give ()))
        (\<lambda>e. if_current sequence (\<lambda>v. v\<lparr>vw_logs_error := True, vw_logs := (if clears then [] else vw_logs v)\<rparr>)))
       (if_current sequence (\<lambda>v. v\<lparr>vw_logs_loading := False\<rparr>))"

definition begin_selection :: "jstring \<Rightarrow> 'x approval_view_scheme \<Rightarrow> 'x approval_view_scheme" where
  "begin_selection documentId v =
     v\<lparr>vw_sequence := vw_sequence v + 1, vw_chosen := documentId, vw_detail_loading := True, vw_logs_loading := True,
       vw_detail_error := False, vw_logs_error := False\<rparr>"

definition clear_selection :: "jstring \<Rightarrow> 'x approval_view_scheme \<Rightarrow> 'x approval_view_scheme" where
  "clear_selection documentId v = release_urls (v\<lparr>vw_selected := documentId, vw_detail := None, vw_attachment_error := False\<rparr>)"

definition selectApprovalDocument :: "js_env \<Rightarrow> 'x approval_view_scheme \<Rightarrow> jstring \<Rightarrow> bool \<Rightarrow> ('x, unit) approval_handler" where
  "selectApprovalDocument E s0 documentId preserveMenu = block
     [if_h (\<not> preserveMenu) (case target_menu s0 documentId of None \<Rightarrow> give () | Some k \<Rightarrow> set_h (\<lambda>v. v\<lparr>vw_menu := Actual k\<rparr>)),
      if vw_token s0 = [] \<or> documentId = [] then set_h (clear_selection documentId)
      else block
        [set_h (\<lambda>v. begin_selection documentId (clear_selection documentId v)),
         bind_h look (\<lambda>v. block
           [void (load_detail E (vw_token s0) documentId (vw_sequence v)),
            void (load_logs (vw_token s0) documentId (vw_sequence v) True)])]]"

definition retryApprovalDetail :: "js_env \<Rightarrow> 'x approval_view_scheme \<Rightarrow> ('x, unit) approval_handler" where
  "retryApprovalDetail E s0 = if_h (vw_selected s0 \<noteq> []) (void (selectApprovalDocument E s0 (vw_selected s0) True))"

definition retryApprovalLogs :: "'x approval_view_scheme \<Rightarrow> ('x, unit) approval_handler" where
  "retryApprovalLogs s0 = if_h (vw_token s0 \<noteq> [] \<and> vw_selected s0 \<noteq> []) (bind_h look (\<lambda>v. block
     [set_h (\<lambda>v. v\<lparr>vw_logs_loading := True, vw_logs_error := False\<rparr>),
      void (load_logs (vw_token s0) (vw_selected s0) (vw_sequence v) False)]))"

section \<open>The list, the menus and the selection that follows them\<close>

definition reload :: "'x approval_view_scheme \<Rightarrow> ('x, unit) approval_handler" where
  \<comment> \<open>of the history only the count is shown; notifications are another component\<close>
  "reload s0 = if_h (vw_token s0 \<noteq> []) (block
     [bind_h (ask (Get_documents (vw_token s0))) (\<lambda>r. case r of Documents ds \<Rightarrow> set_h (\<lambda>v. v\<lparr>vw_documents := ds\<rparr>) | _ \<Rightarrow> give ()),
      bind_h (ask (Get_all_logs (vw_token s0))) (\<lambda>r. give ()),
      try_catch (bind_h (ask (Load_notifications (vw_token s0))) (\<lambda>r. give ())) (\<lambda>e. give ())])"

definition visible_documents :: "js_env \<Rightarrow> menu \<Rightarrow> 'x approval_view_scheme \<Rightarrow> approval_document list" where
  "visible_documents E k v =
     filterApprovalDocuments E (group_of k (classifyApprovalDocuments (vw_documents v) (case vw_me v of None \<Rightarrow> [] | Some m \<Rightarrow> m)))
       (vw_status_filter v) (vw_search v)"

definition shown_document :: "js_env \<Rightarrow> menu \<Rightarrow> 'x approval_view_scheme \<Rightarrow> approval_detail option" where
  \<comment> \<open>the detail is shown where it is that of the selection that is effective in the list\<close>
  "shown_document E k v =
     (case vw_detail v of
        None \<Rightarrow> None
      | Some d \<Rightarrow> if ad_id d = resolveApprovalSelection (vw_selected v) (visible_documents E k v) then Some d else None)"

definition follow_list :: "js_env \<Rightarrow> 'x approval_view_scheme \<Rightarrow> ('x, unit) approval_handler" where
  \<comment> \<open>the effect that keeps the selection in the list that is shown\<close>
  "follow_list E s0 =
     (case vw_menu s0 of
        Settings \<Rightarrow> give ()
      | Actual k \<Rightarrow>
          (let nextId = resolveApprovalSelection (vw_selected s0) (visible_documents E k s0)
           in if_h (vw_active s0 \<and> nextId \<noteq> vw_selected s0)
                (if nextId \<noteq> [] then void (selectApprovalDocument E s0 nextId True)
                 else set_h (\<lambda>v. v\<lparr>vw_sequence := vw_sequence v + 1, vw_selected := [], vw_detail := None, vw_logs := []\<rparr>))))"

definition unselect :: "'x approval_view_scheme \<Rightarrow> 'x approval_view_scheme" where
  "unselect v = v\<lparr>vw_selected := [], vw_logs := []\<rparr>"

definition keepApprovalPostAction ::
  "js_env \<Rightarrow> 'x approval_view_scheme \<Rightarrow> post_action \<Rightarrow> jstring \<Rightarrow> approval_document option \<Rightarrow> ('x, unit) approval_handler" where
  "keepApprovalPostAction E s0 action documentId postActionDocument =
     (case resolveApprovalPostActionTarget action documentId postActionDocument (case vw_me s0 of None \<Rightarrow> [] | Some m \<Rightarrow> m) of
        (None, _) \<Rightarrow> block [reload s0, set_h unselect]
      | (Some k, i) \<Rightarrow> block [set_h (\<lambda>v. v\<lparr>vw_menu := Actual k\<rparr>), reload s0, selectApprovalDocument E s0 i True])"

section \<open>What the selection keeps\<close>

definition view_ok :: "'x approval_view_scheme \<Rightarrow> bool" where
  \<comment> \<open>the detail is that of the latest selection; no image that is shown has been revoked, and none was revoked twice\<close>
  "view_ok v \<longleftrightarrow> (\<forall>d\<in>set_option (vw_detail v). ad_id d = vw_chosen v)
     \<and> distinct (vw_freed v @ vw_urls v) \<and> set (vw_freed v @ vw_urls v) \<subseteq> vw_made v
     \<and> snd ` set (vw_signature_urls v @ vw_preview_urls v) \<subseteq> set (vw_urls v)"

definition view_moves :: "'x approval_view_scheme \<Rightarrow> 'x approval_view_scheme \<Rightarrow> bool" where
  \<comment> \<open>what every handler does to the view: numbers grow, and one number is for one document; what was revoked stays so\<close>
  "view_moves v w \<longleftrightarrow> vw_sequence v \<le> vw_sequence w \<and> (vw_sequence v = vw_sequence w \<longrightarrow> vw_chosen v = vw_chosen w)
     \<and> set (vw_freed v) \<subseteq> set (vw_freed w) \<and> vw_made v \<subseteq> vw_made w"

lemma view_moves_refl [simp, intro]: "view_moves v v"
  by (simp add: view_moves_def)

lemma view_moves_trans: "view_moves u v \<Longrightarrow> view_moves v w \<Longrightarrow> view_moves u w"
  by (auto simp: view_moves_def)

fun view_answers :: "'x approval_view_scheme \<Rightarrow> approval_call \<Rightarrow> int option + approval_reply \<Rightarrow> bool" where
  \<comment> \<open>the detail is about the document that was asked for, and object URLs are new\<close>
  "view_answers v (Get_detail t i) (Inr r) = (case r of Detail d p \<Rightarrow> ad_id d = i | _ \<Rightarrow> False)"
| "view_answers v (Mark_read t i) (Inr r) = (case r of Read_detail d \<Rightarrow> ad_id d = i | _ \<Rightarrow> False)"
| "view_answers v (Get_images t ls as) (Inr r) =
     (case r of Images xs ys \<Rightarrow> distinct (map snd (loaded_images xs @ loaded_images ys))
        \<and> snd ` set (loaded_images xs @ loaded_images ys) \<inter> vw_made v = {} | _ \<Rightarrow> False)"
| "view_answers v (Get_images t ls as) (Inl e) = False"
| "view_answers v c r = True"

lemma reply_cases [simp]:
  "(case r of Detail d p \<Rightarrow> Q d p | _ \<Rightarrow> False) \<longleftrightarrow> (\<exists>d p. r = Detail d p \<and> Q d p)"
  "(case r of Read_detail d \<Rightarrow> Q' d | _ \<Rightarrow> False) \<longleftrightarrow> (\<exists>d. r = Read_detail d \<and> Q' d)"
  "(case r of Images xs ys \<Rightarrow> Q'' xs ys | _ \<Rightarrow> False) \<longleftrightarrow> (\<exists>xs ys. r = Images xs ys \<and> Q'' xs ys)"
  by (cases r; simp)+

lemma view_answer_rules:
  "view_answers v (Get_detail t i) (Inr r) \<Longrightarrow> \<exists>d p. r = Detail d p \<and> ad_id d = i"
  "view_answers v (Mark_read t i) (Inr r) \<Longrightarrow> \<exists>d. r = Read_detail d \<and> ad_id d = i"
  by simp_all

definition allows :: "('x approval_view_scheme \<Rightarrow> approval_call \<Rightarrow> bool) \<Rightarrow> bool" where
  \<comment> \<open>what the requests of this theory must not be refused for\<close>
  "allows G \<longleftrightarrow> (\<forall>v t i ls as. t \<noteq> [] \<longrightarrow> G v (Get_documents t) \<and> G v (Get_all_logs t) \<and> G v (Load_notifications t)
     \<and> G v (Get_detail t i) \<and> G v (Mark_read t i) \<and> G v (Get_images t ls as) \<and> G v (Get_logs t i))"

definition numbered :: "nat \<Rightarrow> jstring \<Rightarrow> 'x approval_view_scheme \<Rightarrow> bool" where
  "numbered n i v \<longleftrightarrow> n \<le> vw_sequence v \<and> (vw_sequence v = n \<longrightarrow> vw_chosen v = i)"

abbreviation view_keeps :: "('x approval_view_scheme \<Rightarrow> approval_call \<Rightarrow> bool) \<Rightarrow> ('x approval_view_scheme \<Rightarrow> bool) \<Rightarrow> ('x, 'a) approval_handler \<Rightarrow> bool" where
  "view_keeps G P h \<equiv> keeps view_ok view_moves view_answers G P h (\<lambda>_. True)"

lemma view_set:
  assumes "stable view_moves P" "\<And>v. view_ok v \<Longrightarrow> P v \<Longrightarrow> view_ok (f v) \<and> view_moves v (f v)"
  shows "view_keeps G P (set_h f)"
  by (rule keeps_set) (use assms view_moves_trans in \<open>auto simp: stable_def\<close>)

lemma view_ask:
  assumes "stable view_moves P" "\<And>v. G v c"
    and "\<And>r v. view_ok v \<Longrightarrow> P v \<Longrightarrow> view_answers v c (Inr r) \<Longrightarrow> view_keeps G P (f r)"
  shows "view_keeps G P (bind_h (ask c) f)"
  by (rule keeps_ask_then) (use assms in \<open>auto simp: stable_def\<close>)

lemma view_give [simp]: "view_keeps G P (give x)"
  by (rule keeps_give) simp

lemma view_if [intro]: "(b \<Longrightarrow> view_keeps G P h) \<Longrightarrow> view_keeps G P (if_h b h)"
  by (rule keeps_if) simp_all

lemma view_void [intro]: "view_keeps G P h \<Longrightarrow> view_keeps G P (void h)"
  by (rule keeps_void) simp_all

lemma view_block [intro]: "view_keeps G P h \<Longrightarrow> view_keeps G P (block hs) \<Longrightarrow> view_keeps G P (block (h # hs))"
  by (rule keeps_block)

lemma view_nil [simp]: "view_keeps G P (block [])"
  by simp

lemma view_look:
  assumes "stable view_moves P"
    and "\<And>u Q. stable view_moves Q \<Longrightarrow> (\<And>v. Q v \<Longrightarrow> P v) \<Longrightarrow> (\<And>v. Q v \<Longrightarrow> view_moves u v) \<Longrightarrow> view_keeps G Q (f u)"
  shows "view_keeps G P (bind_h look f)"
  by (rule keeps_look, rule assms(2), rule stable_since [OF assms(1)]) (auto intro: view_moves_trans)

lemma view_look_set:
  assumes "stable view_moves P" "\<And>v. view_ok v \<Longrightarrow> P v \<Longrightarrow> b v \<Longrightarrow> view_ok (f v) \<and> view_moves v (f v)" "view_keeps G P (block hs)"
  shows "view_keeps G P (bind_h look (\<lambda>u. if_h (b u) (block (set_h f # hs))))"
  unfolding block.simps(2) by (rule keeps_look_set) (use assms in \<open>auto simp: stable_def dest: view_moves_trans\<close>)

lemma stable_numbered: "stable view_moves (numbered n i)"
  by (auto simp: stable_def numbered_def view_moves_def)

lemma release_ok: "view_ok v \<Longrightarrow> view_ok (release_urls v) \<and> view_moves v (release_urls v)"
  by (auto simp: view_ok_def release_urls_def view_moves_def)

lemma release_keeps: "stable view_moves P \<Longrightarrow> view_keeps G P releaseApprovalDetailImages"
  unfolding releaseApprovalDetailImages_def by (rule view_set) (auto simp: release_ok)

lemma if_current_keeps:
  assumes "stable view_moves P" "\<And>v. view_ok v \<Longrightarrow> P v \<Longrightarrow> n = vw_sequence v \<Longrightarrow> view_ok (f v) \<and> view_moves v (f v)"
  shows "view_keeps G P (if_current n f)"
  unfolding if_current_def by (rule view_set) (use assms in auto)

lemma images_ok:
  assumes "view_ok v" "distinct (map snd (loaded_images xs @ loaded_images ys))" "snd ` set (loaded_images xs @ loaded_images ys) \<inter> vw_made v = {}"
  shows "view_ok (images_loaded n xs ys v) \<and> view_moves v (images_loaded n xs ys v)"
proof -
  have u: "set (map snd (loaded_images xs @ loaded_images ys)) \<inter> (set (vw_urls v) \<union> set (vw_freed v)) = {}"
    using assms(1,3) by (auto simp: view_ok_def)
  show ?thesis
    using assms(1,2) u by (auto simp: view_ok_def images_loaded_def Let_def view_moves_def)
qed

lemma images_keeps:
  assumes "stable view_moves P" "allows G" "t \<noteq> []"
  shows "view_keeps G P (loadApprovalDetailImages E t d display n)"
  unfolding loadApprovalDetailImages_def
proof (intro view_block view_nil release_keeps assms(1), rule keeps_ask_set)
  fix r v
  assume v: "view_ok v" "view_answers v (Get_images t (signature_requests d) (preview_requests E display d)) (Inr r)"
  then obtain xs ys where "r = Images xs ys" "distinct (map snd (loaded_images xs @ loaded_images ys))"
    "snd ` set (loaded_images xs @ loaded_images ys) \<inter> vw_made v = {}" by auto
  with images_ok [OF v(1)] show "view_ok ((case r of Images ls as \<Rightarrow> images_loaded n ls as | _ \<Rightarrow> id) v)
      \<and> view_moves v ((case r of Images ls as \<Rightarrow> images_loaded n ls as | _ \<Rightarrow> id) v)" by simp
qed (use assms in \<open>auto simp: allows_def stable_def\<close>)

lemma read_keeps:
  assumes "stable view_moves P" "allows G" "t \<noteq> []" "\<And>v. P v \<Longrightarrow> numbered n i v"
  shows "view_keeps G P (mark_document_read t i n)"
  unfolding mark_document_read_def
  by (intro keeps_try view_ask view_give assms(1)) (use assms(2,3,4) in
      \<open>auto simp: allows_def numbered_def view_ok_def view_moves_def intro!: if_current_keeps assms(1)\<close>)

lemma show_keeps:
  assumes "stable view_moves P" "allows G" "t \<noteq> []" "\<And>v. P v \<Longrightarrow> numbered n i v" "ad_id d = i"
  shows "view_keeps G P (show_detail E t i n d p)"
  unfolding show_detail_def
proof (rule view_look_set [OF assms(1)])
  show "view_keeps G P (block [if_h (set_text (ad_currentUserAudienceType d) \<and> \<not> set_text (ad_currentUserReadAt d)) (void (mark_document_read t i n)),
          if_h (p \<noteq> None) (set_h (\<lambda>v. v\<lparr>vw_preferences := p\<rparr>)),
          void (loadApprovalDetailImages E t d (display_of p) n)])"
    by (intro view_if view_block view_nil view_void read_keeps images_keeps view_set assms)
      (auto simp: view_ok_def view_moves_def)
next
  fix v :: "'a approval_view_scheme"
  assume "view_ok v" "P v" "n = vw_sequence v"
  with assms(4) [of v] assms(5) show "view_ok (v\<lparr>vw_detail := Some d\<rparr>) \<and> view_moves v (v\<lparr>vw_detail := Some d\<rparr>)"
    by (auto simp: view_ok_def view_moves_def numbered_def)
qed

lemma detail_keeps:
  assumes "stable view_moves P" "allows G" "t \<noteq> []" "\<And>v. P v \<Longrightarrow> numbered n i v"
  shows "view_keeps G P (load_detail E t i n)"
  unfolding load_detail_def
  by (intro keeps_finally keeps_try view_ask if_current_keeps assms(1))
    (use assms in \<open>auto simp: allows_def view_ok_def view_moves_def intro!: show_keeps\<close>)

lemma logs_keeps:
  assumes "stable view_moves P" "allows G" "t \<noteq> []"
  shows "view_keeps G P (load_logs t i n clears)"
  unfolding load_logs_def
  by (intro keeps_finally keeps_try view_ask if_current_keeps assms(1))
    (use assms in \<open>auto simp: allows_def view_ok_def view_moves_def split: approval_reply.split intro!: if_current_keeps\<close>)

lemma view_set_look:
  assumes "stable view_moves P" "\<And>v. view_ok v \<Longrightarrow> P v \<Longrightarrow> view_ok (f v) \<and> view_moves v (f v)"
    and "\<And>v Q. stable view_moves Q \<Longrightarrow> (\<And>w. Q w \<Longrightarrow> P w) \<Longrightarrow> (\<And>w. Q w \<Longrightarrow> view_moves (f v) w) \<Longrightarrow> view_keeps G Q (g (f v))"
  shows "view_keeps G P (block [set_h f, bind_h look g])"
proof -
  have "view_keeps G P (bind_h (set_h f) (\<lambda>_. bind_h look g))"
  proof (rule keeps_set_look)
    fix v :: "'a approval_view_scheme"
    show "view_keeps G (\<lambda>t. P t \<and> view_moves (f v) t) (g (f v))"
      by (rule assms(3), rule stable_since [OF assms(1)]) (auto intro: view_moves_trans)
  qed (use assms in \<open>auto simp: stable_def dest: view_moves_trans\<close>)
  then show ?thesis by (simp add: bind_h_def give_def)
qed

lemma clear_ok: "view_ok v \<Longrightarrow> view_ok (clear_selection i v) \<and> view_moves v (clear_selection i v)"
  by (auto simp: clear_selection_def release_urls_def view_ok_def view_moves_def)

lemma begin_ok:
  "view_ok v \<Longrightarrow> view_ok (begin_selection i (clear_selection i v)) \<and> view_moves v (begin_selection i (clear_selection i v))"
  by (auto simp: begin_selection_def clear_selection_def release_urls_def view_ok_def view_moves_def)

lemma select_keeps:
  fixes P :: "'x approval_view_scheme \<Rightarrow> bool"
  assumes "stable view_moves P" "allows G"
  shows "view_keeps G P (selectApprovalDocument E s0 i preserve)"
proof -
  have b: "view_keeps G P (block [set_h (\<lambda>v. begin_selection i (clear_selection i v)), bind_h look (\<lambda>v. block
           [void (load_detail E (vw_token s0) i (vw_sequence v)), void (load_logs (vw_token s0) i (vw_sequence v) True)])])"
    if t: "vw_token s0 \<noteq> []"
  proof (rule view_set_look [OF assms(1) begin_ok])
    fix v and Q :: "'x approval_view_scheme \<Rightarrow> bool"
    assume Q: "stable view_moves Q" "\<And>w. Q w \<Longrightarrow> view_moves (begin_selection i (clear_selection i v)) w"
    let ?n = "vw_sequence (begin_selection i (clear_selection i v))"
    have "numbered ?n i w" if "Q w" for w
      using Q(2) [OF that] by (auto simp: view_moves_def numbered_def begin_selection_def)
    with Q(1) assms(2) t
    show "view_keeps G Q (block [void (load_detail E (vw_token s0) i ?n), void (load_logs (vw_token s0) i ?n True)])"
      by (intro view_block view_nil view_void detail_keeps logs_keeps) auto
  qed
  have c: "view_keeps G P (set_h (clear_selection i))" by (rule view_set [OF assms(1) clear_ok])
  have m: "view_keeps G P (case target_menu s0 i of None \<Rightarrow> give () | Some k \<Rightarrow> set_h (\<lambda>v. v\<lparr>vw_menu := Actual k\<rparr>))"
    by (auto split: option.split intro!: view_set assms(1) simp: view_ok_def view_moves_def)
  show ?thesis
    unfolding selectApprovalDocument_def using b c
    by (intro view_block view_nil view_if m) (simp del: block.simps split: if_split)
qed

lemma retry_detail_keeps: "stable view_moves P \<Longrightarrow> allows G \<Longrightarrow> view_keeps G P (retryApprovalDetail E s0)"
  unfolding retryApprovalDetail_def by (intro view_if view_void select_keeps)

lemma retry_logs_keeps: "stable view_moves P \<Longrightarrow> allows G \<Longrightarrow> view_keeps G P (retryApprovalLogs s0)"
  unfolding retryApprovalLogs_def
  by (intro view_if view_look view_block view_nil view_void logs_keeps view_set) (auto simp: view_ok_def view_moves_def)

lemma reload_keeps: "stable view_moves P \<Longrightarrow> allows G \<Longrightarrow> view_keeps G P (reload s0)"
  unfolding reload_def
  by (intro view_if view_block view_nil view_ask view_give keeps_try)
    (auto simp: allows_def view_ok_def view_moves_def split: approval_reply.split intro!: view_set)

lemma follow_keeps: "stable view_moves P \<Longrightarrow> allows G \<Longrightarrow> view_keeps G P (follow_list E s0)"
  unfolding follow_list_def
  by (auto simp: Let_def view_ok_def view_moves_def split: shell_menu.split intro!: view_if view_void select_keeps view_set)

lemma post_action_keeps: "stable view_moves P \<Longrightarrow> allows G \<Longrightarrow> view_keeps G P (keepApprovalPostAction E s0 a i d)"
  unfolding keepApprovalPostAction_def
  by (auto simp: unselect_def view_ok_def view_moves_def simp del: block.simps split: prod.split option.split
      intro!: view_block view_nil reload_keeps select_keeps view_set)

end
