(* ===== verification/Approval_Desk.thy ===== *)
theory Approval_Desk
  imports Approval_View
begin

text \<open>
  What is written and decided in the approval view (\<open>user-web/src/App.tsx\<close>): the editor of drafts, the actions on a
  document, the trash, the preferences with the signature, and delegations. The state extends that of \<open>Approval_View\<close>,
  and \<open>desk_handlers\<close> are all handlers of the view. Texts of messages are left out; whether an error is shown is kept.
\<close>

section \<open>State\<close>

record approval_form =
  fm_title :: jstring
  fm_content :: jstring
  fm_approvers :: "jstring list"
  fm_references :: "jstring list"
  fm_viewers :: "jstring list"
  fm_urgent :: bool
  fm_shared :: bool

record pending_file =
  pd_id :: nat
  pd_name :: jstring
  pd_size :: int

datatype desk_modal = No_modal | Create_modal | Edit_modal | Action_modal approval_action

record preference_draft =
  pr_writingMethod :: jstring
  pr_display :: image_display
  pr_signatureName :: jstring
  pr_removeSignature :: bool

datatype settings_tab = Basic | Delegation_tab

datatype popup_mode = No_popup | Create_popup | Edit_popup

record approval_desk = approval_view +
  dk_loading :: bool
  dk_error :: bool
  dk_modal :: desk_modal
  dk_form :: approval_form
  dk_editor_document :: jstring
  dk_retained :: "approval_attachment list"
  dk_pending :: "pending_file list"
  dk_baseline :: "(approval_form \<times> jstring list \<times> (jstring \<times> int) list) option"
  dk_target :: "action_target option"
  dk_reason :: jstring
  dk_approvers :: "jsval list"
  dk_draft :: preference_draft
  dk_draft_baseline :: "preference_draft option"
  dk_signature_file :: "nat option"
  dk_signature_preview :: jstring
  dk_signature_url :: jstring \<comment> \<open>\<open>approvalSettingsObjectUrl\<close>\<close>
  dk_preferences_loading :: bool
  dk_preferences_saving :: bool
  dk_preferences_error :: bool
  dk_tab :: settings_tab
  dk_pending_menu :: "shell_menu option"
  dk_delegations :: "delegation list"
  dk_delegations_total :: nat
  dk_delegations_page :: nat
  dk_delegations_loading :: bool
  dk_delegations_error :: bool
  dk_delegation :: jstring
  dk_popup :: popup_mode
  dk_delegation_draft :: delegation_draft
  dk_delegation_baseline :: "delegation_draft option"
  dk_delegation_saving :: bool
  dk_delegation_error :: bool
  dk_delete_target :: "delegation option"
  dk_candidates_request :: "(jstring \<times> nat) option" \<comment> \<open>with the number of the promise\<close>
  dk_candidates_next :: nat
  dk_candidates_token :: jstring
  dk_candidates_loading :: bool
  dk_candidates_error :: bool

type_synonym 'a desk_handler = "(approval_call, int option, approval_reply, approval_desk, 'a) handler"

definition empty_form :: approval_form where
  "empty_form = \<lparr>fm_title = [], fm_content = [], fm_approvers = [], fm_references = [], fm_viewers = [], fm_urgent = False, fm_shared = False\<rparr>"

definition actor_id :: "approval_desk \<Rightarrow> jstring" where
  "actor_id v = (case vw_me v of None \<Rightarrow> [] | Some m \<Rightarrow> m)"

section \<open>The editor\<close>

definition form_of :: "approval_detail \<Rightarrow> approval_form" where
  "form_of d = \<lparr>fm_title = ad_title d, fm_content = ad_content d, fm_approvers = map ln_approverUserId (ad_lines d),
     fm_references = ad_references d, fm_viewers = ad_viewers d, fm_urgent = ad_urgent d, fm_shared = ad_shared d\<rparr>"

definition editor_opened :: "desk_modal \<Rightarrow> jsval list \<Rightarrow> approval_detail option \<Rightarrow> approval_desk \<Rightarrow> approval_desk" where
  "editor_opened mode users detail v =
     (let form = (case detail of None \<Rightarrow> empty_form | Some d \<Rightarrow> form_of d);
          retained = (case detail of None \<Rightarrow> [] | Some d \<Rightarrow> ad_attachments d)
      in v\<lparr>dk_approvers := users, dk_form := form, dk_editor_document := (case detail of None \<Rightarrow> [] | Some d \<Rightarrow> ad_id d),
           dk_retained := retained, dk_pending := [], dk_baseline := Some (form, map aa_id retained, []), dk_modal := mode\<rparr>)"

definition openApprovalEditor :: "approval_desk \<Rightarrow> desk_modal \<Rightarrow> jstring option \<Rightarrow> unit desk_handler" where
  "openApprovalEditor s0 mode document = if_h (vw_token s0 \<noteq> []) (block
     [set_h (\<lambda>v. v\<lparr>dk_error := False, dk_loading := True\<rparr>),
      finally_do
        (try_catch
          (bind_h (ask (Get_editor (vw_token s0) document)) (\<lambda>r. case r of Editor users d \<Rightarrow> set_h (editor_opened mode users d) | _ \<Rightarrow> give ()))
          (\<lambda>e. set_h (\<lambda>v. v\<lparr>dk_error := True\<rparr>)))
        (set_h (\<lambda>v. v\<lparr>dk_loading := False\<rparr>))])"

definition close_modal :: "approval_desk \<Rightarrow> approval_desk" where
  "close_modal v = v\<lparr>dk_modal := No_modal, dk_editor_document := [], dk_retained := [], dk_pending := [], dk_baseline := None,
     dk_target := None, dk_reason := []\<rparr>"

definition compose_dirty :: "approval_desk \<Rightarrow> bool" where
  "compose_dirty v \<longleftrightarrow> dk_baseline v \<noteq> None
     \<and> dk_baseline v \<noteq> Some (dk_form v, map aa_id (dk_retained v), map (\<lambda>f. (pd_name f, pd_size f)) (dk_pending v))"

definition selectApprovalApprover :: "jstring \<Rightarrow> approval_desk \<Rightarrow> approval_desk" where
  "selectApprovalApprover userId v =
     (if userId \<in> set (fm_approvers (dk_form v)) then v
      else v\<lparr>dk_form := (dk_form v)\<lparr>fm_approvers := fm_approvers (dk_form v) @ [userId]\<rparr>\<rparr>)"

definition move_approver :: "jstring \<Rightarrow> int \<Rightarrow> approval_desk \<Rightarrow> approval_desk" where
  "move_approver userId direction v =
     v\<lparr>dk_form := (dk_form v)\<lparr>fm_approvers := moveApprovalApprover (fm_approvers (dk_form v)) userId direction\<rparr>\<rparr>"

definition attached_count :: "approval_desk \<Rightarrow> int" where
  "attached_count v = int (length (dk_retained v) + length (dk_pending v))"

definition attached_bytes :: "approval_desk \<Rightarrow> int" where
  "attached_bytes v = sum_list (map aa_sizeBytes (dk_retained v)) + sum_list (map pd_size (dk_pending v))"

definition addApprovalFiles :: "approval_desk \<Rightarrow> pending_file list \<Rightarrow> approval_desk \<Rightarrow> approval_desk" where
  "addApprovalFiles s0 files v =
     (if files = [] then v
      else if validateApprovalFiles (map pd_size files) (attached_count s0) (attached_bytes s0) \<noteq> Files_Ok then v\<lparr>dk_error := True\<rparr>
      else v\<lparr>dk_error := False, dk_pending := dk_pending v @ files\<rparr>)"

definition payload_of :: "approval_form \<Rightarrow> jstring list \<Rightarrow> draft_payload" where
  "payload_of form uploads =
     \<lparr>pl_title = js_trim (fm_title form), pl_content = js_trim (fm_content form), pl_approvers = fm_approvers form,
      pl_references = fm_references form, pl_viewers = fm_viewers form, pl_urgent = fm_urgent form, pl_shared = fm_shared form,
      pl_uploads = uploads\<rparr>"

definition upload_file :: "jstring \<Rightarrow> pending_file \<Rightarrow> jstring desk_handler" where
  "upload_file token f = bind_h (ask (Upload token (pd_id f))) (\<lambda>r. give (case r of Uploaded u \<Rightarrow> u | _ \<Rightarrow> []))"

definition draft_errors :: "approval_desk \<Rightarrow> draft_error list" where
  "draft_errors v = validateApprovalDraft
     \<lparr>df_title = fm_title (dk_form v), df_content = fm_content (dk_form v),
      df_attachmentCount = attached_count v, df_attachmentBytes = attached_bytes v\<rparr>"

definition handleCreate :: "js_env \<Rightarrow> approval_desk \<Rightarrow> unit desk_handler" where
  "handleCreate E s0 = if_h (vw_token s0 \<noteq> [])
     (if draft_errors s0 \<noteq> [] then set_h (\<lambda>v. v\<lparr>dk_error := True\<rparr>)
      else block
       [set_h (\<lambda>v. v\<lparr>dk_loading := True, dk_error := False\<rparr>),
        finally_do
          (try_catch
            (block
              [bind_h (for_each_h (upload_file (vw_token s0)) (dk_pending s0)) (\<lambda>uploads.
                 if dk_modal s0 = Edit_modal \<and> dk_editor_document s0 \<noteq> [] then
                   bind_h (ask (Update_document (vw_token s0) (dk_editor_document s0) (payload_of (dk_form s0) uploads) (map aa_id (dk_retained s0)))) (\<lambda>r.
                     case r of Updated d \<Rightarrow> keepApprovalPostAction E s0 Edit (dk_editor_document s0) (Some d) | _ \<Rightarrow> give ())
                 else
                   bind_h (ask (Create_document (vw_token s0) (payload_of (dk_form s0) uploads))) (\<lambda>r.
                     case r of
                       Created i \<Rightarrow> block [set_h (\<lambda>v. v\<lparr>vw_selected := i\<rparr>), keepApprovalPostAction E s0 Create i None]
                     | _ \<Rightarrow> give ())),
               set_h close_modal,
               set_h (\<lambda>v. v\<lparr>dk_form := empty_form\<rparr>)])
            (\<lambda>e. set_h (\<lambda>v. v\<lparr>dk_error := True\<rparr>)))
          (set_h (\<lambda>v. v\<lparr>dk_loading := False\<rparr>))])"

section \<open>Actions\<close>

definition openApprovalAction :: "approval_action \<Rightarrow> approval_document \<Rightarrow> approval_desk \<Rightarrow> approval_desk" where
  "openApprovalAction mode document v =
     v\<lparr>dk_reason := [], dk_target := Some (buildApprovalActionTarget document), dk_error := False, dk_modal := Action_modal mode\<rparr>"

fun post_action_of :: "approval_action \<Rightarrow> post_action" where
  "post_action_of A_Submit = Submit"
| "post_action_of A_Approve = Approve"
| "post_action_of A_Reject = Reject"
| "post_action_of A_Withdraw = Withdraw"
| "post_action_of A_Redraft = Redraft"

definition action_comment :: "approval_action \<Rightarrow> jstring \<Rightarrow> jstring" where
  \<comment> \<open>only approvals and rejections carry the opinion\<close>
  "action_comment action reason = (if action = A_Approve \<or> action = A_Reject then js_trim reason else [])"

definition executeApprovalAction :: "js_env \<Rightarrow> approval_desk \<Rightarrow> approval_action \<Rightarrow> unit desk_handler" where
  "executeApprovalAction E s0 action =
     (case dk_target s0 of
        None \<Rightarrow> give ()
      | Some target \<Rightarrow> if_h (vw_token s0 \<noteq> [])
          (if validateApprovalActionOpinion action (dk_reason s0) \<noteq> Opinion_Ok then set_h (\<lambda>v. v\<lparr>dk_error := True\<rparr>)
           else block
            [set_h (\<lambda>v. v\<lparr>dk_loading := True, dk_error := False\<rparr>),
             finally_do
               (try_catch
                 (bind_h (ask (Act (vw_token s0) action (at_documentId target) (action_comment action (dk_reason s0)))) (\<lambda>r.
                    case r of
                      Updated d \<Rightarrow> block
                        [set_h (\<lambda>v. v\<lparr>dk_reason := [], dk_target := None, dk_modal := No_modal\<rparr>),
                         keepApprovalPostAction E s0 (post_action_of action) (at_documentId target) (Some d)]
                    | _ \<Rightarrow> give ()))
                 (\<lambda>e. set_h (\<lambda>v. v\<lparr>dk_error := True\<rparr>)))
               (set_h (\<lambda>v. v\<lparr>dk_loading := False\<rparr>))]))"

definition handleApprovalTrashAction :: "approval_desk \<Rightarrow> trash_action \<Rightarrow> bool \<Rightarrow> unit desk_handler" where
  "handleApprovalTrashAction s0 action confirmed =
     (case vw_detail s0 of
        None \<Rightarrow> give ()
      | Some d \<Rightarrow> if_h (vw_token s0 \<noteq> [] \<and> (action = Permanently \<longrightarrow> confirmed)) (block
          [set_h (\<lambda>v. v\<lparr>dk_loading := True, dk_error := False\<rparr>),
           finally_do
             (try_catch
               (bind_h (ask (Move_trash (vw_token s0) action (ad_id d))) (\<lambda>_. block
                  [set_h (\<lambda>v. v\<lparr>vw_selected := [], vw_detail := None\<rparr>), reload s0]))
               (\<lambda>e. set_h (\<lambda>v. v\<lparr>dk_error := True\<rparr>)))
             (set_h (\<lambda>v. v\<lparr>dk_loading := False\<rparr>))]))"

section \<open>Preferences and the signature\<close>

definition draft_of :: "approval_preferences \<Rightarrow> preference_draft" where
  "draft_of value = \<lparr>pr_writingMethod = pf_writingMethod value, pr_display = pf_display value,
     pr_signatureName = (case pf_signatureFileName value of None \<Rightarrow> [] | Some n \<Rightarrow> n), pr_removeSignature = False\<rparr>"

definition drop_signature_url :: "approval_desk \<Rightarrow> approval_desk" where
  "drop_signature_url v = v\<lparr>dk_signature_url := []\<rparr>"

definition preferences_applied :: "approval_preferences \<Rightarrow> approval_desk \<Rightarrow> approval_desk" where
  "preferences_applied value v = (drop_signature_url v)
     \<lparr>vw_preferences := Some value, dk_draft := draft_of value, dk_draft_baseline := Some (draft_of value),
      dk_signature_file := None, dk_signature_preview := []\<rparr>"

definition applyApprovalPreferences :: "approval_desk \<Rightarrow> approval_preferences \<Rightarrow> bool \<Rightarrow> unit desk_handler" where
  "applyApprovalPreferences s0 value loadPreview = block
     [set_h (preferences_applied value),
      if_h (loadPreview \<and> vw_token s0 \<noteq> [] \<and> pf_hasSignature value \<and> set_text (pf_signatureUrl value))
        (try_catch
          (bind_h (ask (Get_signature (vw_token s0) (the (pf_signatureUrl value)))) (\<lambda>r.
             case r of Signature u \<Rightarrow> set_h (\<lambda>v. v\<lparr>dk_signature_url := u, dk_signature_preview := u\<rparr>) | _ \<Rightarrow> give ()))
          (\<lambda>e. set_h (\<lambda>v. v\<lparr>dk_preferences_error := True\<rparr>)))]"

definition loadApprovalPreferences :: "approval_desk \<Rightarrow> unit desk_handler" where
  "loadApprovalPreferences s0 = block
     [set_h (\<lambda>v. v\<lparr>dk_preferences_loading := True, dk_preferences_error := False\<rparr>),
      finally_do
        (try_catch
          (bind_h (ask (Get_preferences (vw_token s0))) (\<lambda>r. case r of Preferences p \<Rightarrow> applyApprovalPreferences s0 p True | _ \<Rightarrow> give ()))
          (\<lambda>e. set_h (\<lambda>v. v\<lparr>dk_preferences_error := True\<rparr>)))
        (set_h (\<lambda>v. v\<lparr>dk_preferences_loading := False\<rparr>))]"

definition signature_types :: "jstring list" where
  "signature_types = map lit [''image/png'', ''image/jpeg'', ''image/webp'']"

definition selectApprovalSignature :: "nat \<Rightarrow> jstring \<Rightarrow> jstring \<Rightarrow> int \<Rightarrow> jstring \<Rightarrow> approval_desk \<Rightarrow> approval_desk" where
  \<comment> \<open>a file with its name, type and size, and the object URL made for it\<close>
  "selectApprovalSignature file name type sz url v =
     (if type \<notin> set signature_types \<or> 512 * 1024 < sz then v\<lparr>dk_preferences_error := True\<rparr>
      else (drop_signature_url v)
        \<lparr>dk_signature_url := url, dk_signature_preview := url, dk_signature_file := Some file, dk_preferences_error := False,
         dk_draft := (dk_draft v)\<lparr>pr_signatureName := name, pr_removeSignature := False\<rparr>\<rparr>)"

definition removeApprovalSignature :: "approval_desk \<Rightarrow> approval_desk" where
  "removeApprovalSignature v = (drop_signature_url v)
     \<lparr>dk_signature_preview := [], dk_signature_file := None,
      dk_draft := (dk_draft v)\<lparr>pr_signatureName := [], pr_removeSignature := True\<rparr>\<rparr>"

definition cancelApprovalPreferences :: "approval_desk \<Rightarrow> unit desk_handler" where
  "cancelApprovalPreferences s0 =
     (case vw_preferences s0 of None \<Rightarrow> give () | Some p \<Rightarrow> void (applyApprovalPreferences s0 p True))"

definition saveApprovalPreferences :: "approval_desk \<Rightarrow> unit desk_handler" where
  \<comment> \<open>a conflict and any other error show different texts\<close>
  "saveApprovalPreferences s0 = if_h (vw_token s0 \<noteq> []) (block
     [set_h (\<lambda>v. v\<lparr>dk_preferences_saving := True, dk_preferences_error := False\<rparr>),
      finally_do
        (try_catch
          (bind_h (ask (Save_preferences (vw_token s0) (pr_writingMethod (dk_draft s0)) (pr_display (dk_draft s0))
               (case vw_preferences s0 of None \<Rightarrow> 0 | Some p \<Rightarrow> pf_version p) (pr_removeSignature (dk_draft s0)) (dk_signature_file s0 \<noteq> None))) (\<lambda>r.
             case r of Preferences p \<Rightarrow> applyApprovalPreferences s0 p True | _ \<Rightarrow> give ()))
          (\<lambda>e. set_h (\<lambda>v. v\<lparr>dk_preferences_error := True\<rparr>)))
        (set_h (\<lambda>v. v\<lparr>dk_preferences_saving := False\<rparr>))])"

definition preferences_dirty :: "approval_desk \<Rightarrow> bool" where
  "preferences_dirty v \<longleftrightarrow> dk_draft_baseline v \<noteq> None \<and> dk_draft_baseline v \<noteq> Some (dk_draft v)"

section \<open>Delegations\<close>

definition if_request :: "nat \<Rightarrow> (approval_desk \<Rightarrow> approval_desk) \<Rightarrow> unit desk_handler" where
  \<comment> \<open>\<open>if (approvalDelegationCandidatesRequestRef.current?.request === request)\<close>\<close>
  "if_request n f = set_h (\<lambda>v. if map_option snd (dk_candidates_request v) = Some n then f v else v)"

definition candidates_asked :: "approval_desk \<Rightarrow> bool \<Rightarrow> approval_desk \<Rightarrow> bool" where
  "candidates_asked s0 force v \<longleftrightarrow>
     (force \<or> dk_candidates_token v \<noteq> vw_token s0) \<and> map_option fst (dk_candidates_request v) \<noteq> Some (vw_token s0)"

definition loadApprovalDelegationCandidates :: "approval_desk \<Rightarrow> bool \<Rightarrow> unit desk_handler" where
  "loadApprovalDelegationCandidates s0 force = bind_h look (\<lambda>v.
     let n = dk_candidates_next v in
     if_h (candidates_asked s0 force v) (block
       [set_h (\<lambda>v. v\<lparr>dk_candidates_request := Some (vw_token s0, n), dk_candidates_next := n + 1,
                   dk_candidates_loading := True, dk_candidates_error := False\<rparr>),
        finally_do
          (try_catch
            (bind_h (ask (Get_approvers (vw_token s0))) (\<lambda>r.
               case r of
                 Approvers us \<Rightarrow> if_request n (\<lambda>v. v\<lparr>dk_approvers := us, dk_candidates_token := vw_token s0\<rparr>)
               | _ \<Rightarrow> give ()))
            (\<lambda>e. if_request n (\<lambda>v. v\<lparr>dk_candidates_error := True\<rparr>)))
          (if_request n (\<lambda>v. v\<lparr>dk_candidates_request := None, dk_candidates_loading := False\<rparr>))]))"

definition loadApprovalDelegations :: "approval_desk \<Rightarrow> nat \<Rightarrow> unit desk_handler" where
  "loadApprovalDelegations s0 page = block
     [set_h (\<lambda>v. v\<lparr>dk_delegations_loading := True, dk_delegations_error := False\<rparr>),
      finally_do
        (try_catch
          (bind_h (ask (Get_delegations (vw_token s0) page)) (\<lambda>r.
             case r of
               Delegations items n shown \<Rightarrow> set_h (\<lambda>v. v\<lparr>dk_delegations := items, dk_delegations_total := n, dk_delegations_page := shown,
                 dk_delegation := (if dk_delegation v \<in> dg_id ` set items then dk_delegation v else [])\<rparr>)
             | _ \<Rightarrow> give ()))
          (\<lambda>e. set_h (\<lambda>v. v\<lparr>dk_delegations_error := True\<rparr>)))
        (set_h (\<lambda>v. v\<lparr>dk_delegations_loading := False\<rparr>))]"

definition selectApprovalSettingsTab :: "approval_desk \<Rightarrow> settings_tab \<Rightarrow> unit desk_handler" where
  "selectApprovalSettingsTab s0 tab = block
     [set_h (\<lambda>v. v\<lparr>dk_tab := tab\<rparr>),
      if_h (vw_token s0 \<noteq> [])
        (case tab of
           Basic \<Rightarrow> if_h (vw_preferences s0 = None) (void (loadApprovalPreferences s0))
         | Delegation_tab \<Rightarrow> block [void (loadApprovalDelegations s0 1), void (loadApprovalDelegationCandidates s0 False)])]"

definition openApprovalDelegationCreate :: "jstring \<Rightarrow> approval_desk \<Rightarrow> unit desk_handler" where
  \<comment> \<open>with the date of the day in Seoul\<close>
  "openApprovalDelegationCreate today s0 =
     (let draft = \<lparr>dl_delegateUserId = [], dl_startDate = today, dl_endDate = today, dl_reason = [], dl_enabled = True\<rparr> in block
      [set_h (\<lambda>v. v\<lparr>dk_delegation_draft := draft, dk_delegation_baseline := Some draft, dk_delegation_error := False, dk_popup := Create_popup\<rparr>),
       if_h (vw_token s0 \<noteq> []) (void (loadApprovalDelegationCandidates s0 False))])"

definition edited_delegation :: "approval_desk \<Rightarrow> delegation option \<Rightarrow> delegation option" where
  "edited_delegation v item = (case item of Some d \<Rightarrow> Some d | None \<Rightarrow> find (\<lambda>d. dg_id d = dk_delegation v) (dk_delegations v))"

definition openApprovalDelegationEdit :: "approval_desk \<Rightarrow> delegation option \<Rightarrow> unit desk_handler" where
  "openApprovalDelegationEdit s0 item =
     (case edited_delegation s0 item of
        None \<Rightarrow> give ()
      | Some d \<Rightarrow> block
          [set_h (\<lambda>v. v\<lparr>dk_delegation := dg_id d, dk_delegation_draft := dg_draft d, dk_delegation_baseline := Some (dg_draft d),
                      dk_delegation_error := False, dk_popup := Edit_popup\<rparr>),
           if_h (vw_token s0 \<noteq> []) (void (loadApprovalDelegationCandidates s0 False))])"

definition trimmed_draft :: "delegation_draft \<Rightarrow> delegation_draft" where
  "trimmed_draft d = d\<lparr>dl_reason := js_trim (dl_reason d)\<rparr>"

definition saveApprovalDelegation :: "approval_desk \<Rightarrow> unit desk_handler" where
  "saveApprovalDelegation s0 = if_h (vw_token s0 \<noteq> [])
     (if validateApprovalDelegation (dk_delegation_draft s0) \<noteq> Delegation_Ok then set_h (\<lambda>v. v\<lparr>dk_delegation_error := True\<rparr>)
      else block
       [set_h (\<lambda>v. v\<lparr>dk_delegation_saving := True, dk_delegation_error := False\<rparr>),
        finally_do
          (try_catch
            (block
              [if dk_popup s0 = Create_popup then
                 bind_h (ask (Create_delegation (vw_token s0) (trimmed_draft (dk_delegation_draft s0)))) (\<lambda>_. give ())
               else (case edited_delegation s0 None of
                       None \<Rightarrow> throw None
                     | Some d \<Rightarrow> bind_h (ask (Update_delegation (vw_token s0) (dg_id d) (trimmed_draft (dk_delegation_draft s0)) (dg_version d))) (\<lambda>_. give ())),
               set_h (\<lambda>v. v\<lparr>dk_popup := No_popup\<rparr>),
               loadApprovalDelegations s0 (dk_delegations_page s0)])
            (\<lambda>e. set_h (\<lambda>v. v\<lparr>dk_delegation_error := True\<rparr>)))
          (set_h (\<lambda>v. v\<lparr>dk_delegation_saving := False\<rparr>))])"

definition page_after_delete :: "approval_desk \<Rightarrow> nat" where
  "page_after_delete v =
     (if length (dk_delegations v) = 1 \<and> 1 < dk_delegations_page v then dk_delegations_page v - 1 else dk_delegations_page v)"

definition confirmDeleteApprovalDelegation :: "approval_desk \<Rightarrow> unit desk_handler" where
  "confirmDeleteApprovalDelegation s0 =
     (case dk_delete_target s0 of
        None \<Rightarrow> give ()
      | Some d \<Rightarrow> if_h (vw_token s0 \<noteq> []) (block
          [set_h (\<lambda>v. v\<lparr>dk_delegation_saving := True, dk_delegations_error := False\<rparr>),
           finally_do
             (try_catch
               (bind_h (ask (Delete_delegation (vw_token s0) (dg_id d) (dg_version d))) (\<lambda>_. block
                  [set_h (\<lambda>v. v\<lparr>dk_delete_target := None\<rparr>), loadApprovalDelegations s0 (page_after_delete s0)]))
               (\<lambda>e. set_h (\<lambda>v. v\<lparr>dk_delegations_error := True, dk_delete_target := None\<rparr>)))
             (set_h (\<lambda>v. v\<lparr>dk_delegation_saving := False\<rparr>))]))"

section \<open>Menus\<close>

definition activateApprovalShellMenu :: "js_env \<Rightarrow> approval_desk \<Rightarrow> shell_menu \<Rightarrow> unit desk_handler" where
  "activateApprovalShellMenu E s0 nextMenu = block
     [set_h (\<lambda>v. v\<lparr>vw_menu := nextMenu\<rparr>),
      case nextMenu of
        Settings \<Rightarrow> block
          [if_h (vw_token s0 \<noteq> [])
             (if dk_tab s0 = Basic then void (loadApprovalPreferences s0)
              else block [void (loadApprovalDelegations s0 (dk_delegations_page s0)), void (loadApprovalDelegationCandidates s0 False)]),
           set_h unselect]
      | Actual k \<Rightarrow>
          (let docs = group_of k (classifyApprovalDocuments (vw_documents s0) (actor_id s0))
           in case (case find (\<lambda>d. ad_id d = vw_selected s0) docs of Some d \<Rightarrow> Some d | None \<Rightarrow> List.find (\<lambda>d. True) docs) of
                None \<Rightarrow> set_h unselect
              | Some d \<Rightarrow> if_h (ad_id d \<noteq> vw_selected s0) (void (selectApprovalDocument E s0 (ad_id d) True)))]"

definition openApprovalShellMenu :: "js_env \<Rightarrow> approval_desk \<Rightarrow> shell_menu \<Rightarrow> unit desk_handler" where
  "openApprovalShellMenu E s0 nextMenu =
     (if vw_menu s0 = Settings \<and> nextMenu \<noteq> Settings \<and> preferences_dirty s0 then set_h (\<lambda>v. v\<lparr>dk_pending_menu := Some nextMenu\<rparr>)
      else activateApprovalShellMenu E s0 nextMenu)"

definition discardApprovalPreferencesAndNavigate :: "js_env \<Rightarrow> approval_desk \<Rightarrow> unit desk_handler" where
  \<comment> \<open>within the approval view; leaving it for another one is not modelled\<close>
  "discardApprovalPreferencesAndNavigate E s0 = block
     [set_h (\<lambda>v. v\<lparr>dk_pending_menu := None\<rparr>),
      case vw_preferences s0 of None \<Rightarrow> give () | Some p \<Rightarrow> void (applyApprovalPreferences s0 p False),
      case dk_pending_menu s0 of None \<Rightarrow> give () | Some k \<Rightarrow> activateApprovalShellMenu E s0 k]"

section \<open>All handlers\<close>

datatype desk_event =
    Select jstring bool
  | Retry_detail
  | Retry_logs
  | Follow
  | Reload
  | Open_editor desk_modal "jstring option"
  | Close_modal
  | Pick_approver jstring
  | Move_approver jstring int
  | Add_files "pending_file list"
  | Write_form approval_form
  | Save_draft
  | Trash_action trash_action bool
  | Open_action approval_action approval_document
  | Write_reason jstring
  | Execute approval_action
  | Load_preferences
  | Pick_signature nat jstring jstring int jstring
  | Remove_signature
  | Cancel_preferences
  | Save_preferences_event
  | Open_tab settings_tab
  | New_delegation jstring
  | Edit_delegation "delegation option"
  | Write_delegation delegation_draft
  | Save_delegation
  | Ask_delete delegation
  | Confirm_delete
  | Retry_candidates
  | Open_menu shell_menu
  | Discard
  | Sign_in jstring "jstring option"

fun desk_handler :: "js_env \<Rightarrow> desk_event \<Rightarrow> approval_desk \<Rightarrow> unit desk_handler" where
  "desk_handler E (Select i p) s = selectApprovalDocument E s i p"
| "desk_handler E Retry_detail s = retryApprovalDetail E s"
| "desk_handler E Retry_logs s = retryApprovalLogs s"
| "desk_handler E Follow s = follow_list E s"
| "desk_handler E Reload s = reload s"
| "desk_handler E (Open_editor m d) s = openApprovalEditor s m d"
| "desk_handler E Close_modal s = set_h close_modal"
| "desk_handler E (Pick_approver i) s = set_h (selectApprovalApprover i)"
| "desk_handler E (Move_approver i d) s = set_h (move_approver i d)"
| "desk_handler E (Add_files fs) s = set_h (addApprovalFiles s fs)"
| "desk_handler E (Write_form f) s = set_h (\<lambda>v. v\<lparr>dk_form := f\<rparr>)"
| "desk_handler E Save_draft s = handleCreate E s"
| "desk_handler E (Trash_action a c) s = handleApprovalTrashAction s a c"
| "desk_handler E (Open_action a d) s = set_h (openApprovalAction a d)"
| "desk_handler E (Write_reason r) s = set_h (\<lambda>v. v\<lparr>dk_reason := r\<rparr>)"
| "desk_handler E (Execute a) s = executeApprovalAction E s a"
| "desk_handler E Load_preferences s = if_h (vw_token s \<noteq> []) (loadApprovalPreferences s)"
| "desk_handler E (Pick_signature f n t z u) s = set_h (selectApprovalSignature f n t z u)"
| "desk_handler E Remove_signature s = set_h removeApprovalSignature"
| "desk_handler E Cancel_preferences s = cancelApprovalPreferences s"
| "desk_handler E Save_preferences_event s = saveApprovalPreferences s"
| "desk_handler E (Open_tab t) s = selectApprovalSettingsTab s t"
| "desk_handler E (New_delegation d) s = openApprovalDelegationCreate d s"
| "desk_handler E (Edit_delegation d) s = openApprovalDelegationEdit s d"
| "desk_handler E (Write_delegation d) s = set_h (\<lambda>v. v\<lparr>dk_delegation_draft := d\<rparr>)"
| "desk_handler E Save_delegation s = saveApprovalDelegation s"
| "desk_handler E (Ask_delete d) s = set_h (\<lambda>v. v\<lparr>dk_delete_target := Some d\<rparr>)"
| "desk_handler E Confirm_delete s = confirmDeleteApprovalDelegation s"
| "desk_handler E Retry_candidates s = if_h (vw_token s \<noteq> []) (loadApprovalDelegationCandidates s True)"
| "desk_handler E (Open_menu m) s = openApprovalShellMenu E s m"
| "desk_handler E Discard s = discardApprovalPreferencesAndNavigate E s"
| "desk_handler E (Sign_in t m) s = set_h (\<lambda>v. v\<lparr>vw_token := t, vw_me := m\<rparr>)"

definition desk_handlers :: "js_env \<Rightarrow> desk_event \<Rightarrow> approval_desk \<Rightarrow> (approval_call, int option + approval_reply, approval_desk) process" where
  "desk_handlers E i s = start (desk_handler E i s)"

section \<open>What is sent\<close>

definition draft_fits :: "approval_desk \<Rightarrow> bool" where
  \<comment> \<open>a title, a content and attachments within their limits\<close>
  "draft_fits v \<longleftrightarrow>
     js_trim (fm_title (dk_form v)) \<noteq> [] \<and> length (js_trim (fm_title (dk_form v))) \<le> 200
     \<and> js_trim (fm_content (dk_form v)) \<noteq> [] \<and> length (js_trim (fm_content (dk_form v))) \<le> 20000
     \<and> length (dk_retained v) + length (dk_pending v) \<le> 10
     \<and> sum_list (map aa_sizeBytes (dk_retained v)) + sum_list (map pd_size (dk_pending v)) \<le> 25 * 1024 * 1024"

definition draft_sent :: "approval_desk \<Rightarrow> draft_payload \<Rightarrow> bool" where
  \<comment> \<open>what the form held and the files that were chosen, when the draft was saved\<close>
  "draft_sent v p \<longleftrightarrow> pl_title p = js_trim (fm_title (dk_form v)) \<and> pl_content p = js_trim (fm_content (dk_form v))
     \<and> pl_approvers p = fm_approvers (dk_form v) \<and> pl_references p = fm_references (dk_form v) \<and> pl_viewers p = fm_viewers (dk_form v)
     \<and> pl_urgent p = fm_urgent (dk_form v) \<and> pl_shared p = fm_shared (dk_form v) \<and> length (pl_uploads p) = length (dk_pending v)"

definition delegation_fits :: "delegation_draft \<Rightarrow> bool" where
  "delegation_fits d \<longleftrightarrow> dl_startDate d \<noteq> [] \<and> dl_endDate d \<noteq> [] \<and> dl_startDate d \<le> dl_endDate d \<and> dl_delegateUserId d \<noteq> []
     \<and> js_trim (dl_reason d) \<noteq> [] \<and> length (js_trim (dl_reason d)) \<le> 500"

lemma delegation_checked: "validateApprovalDelegation d = Delegation_Ok \<longleftrightarrow> delegation_fits d"
  by (auto simp: validateApprovalDelegation_def delegation_fits_def not_less)

definition target_id :: "approval_desk \<Rightarrow> jstring option" where
  "target_id v = map_option at_documentId (dk_target v)"

definition desk_guard :: "approval_desk \<Rightarrow> approval_desk \<Rightarrow> approval_call \<Rightarrow> bool" where
  \<comment> \<open>what a handler may send in the state \<open>v\<close> that was called in the state \<open>s\<close>\<close>
  "desk_guard s v c \<longleftrightarrow> call_token c \<noteq> [] \<and>
     (case c of
        Act t a i r \<Rightarrow> target_id v = Some i \<and> r = action_comment a (dk_reason v)
          \<and> (a = A_Approve \<or> a = A_Reject \<longrightarrow> r \<noteq> [] \<and> length r \<le> 500)
      | Create_document t p \<Rightarrow> draft_fits s \<and> draft_sent s p \<and> \<not> (dk_modal s = Edit_modal \<and> dk_editor_document s \<noteq> [])
      | Update_document t i p rs \<Rightarrow> draft_fits s \<and> draft_sent s p \<and> i \<noteq> [] \<and> i = dk_editor_document s \<and> rs = map aa_id (dk_retained s)
      | Move_trash t a i \<Rightarrow> map_option ad_id (vw_detail v) = Some i
      | Create_delegation t d \<Rightarrow> delegation_fits d
      | Update_delegation t i d n \<Rightarrow> delegation_fits d
      | _ \<Rightarrow> True)"

lemma desk_allows: "allows (desk_guard src)"
  by (simp add: allows_def desk_guard_def)

abbreviation desk_keeps :: "approval_desk \<Rightarrow> (approval_desk \<Rightarrow> bool) \<Rightarrow> 'a desk_handler \<Rightarrow> bool" where
  "desk_keeps src P h \<equiv> view_keeps (desk_guard src) P h"

lemma desk_set: "stable view_moves P \<Longrightarrow> (\<And>v. view_ok v \<Longrightarrow> P v \<Longrightarrow> view_ok (f v) \<and> view_moves v (f v)) \<Longrightarrow> desk_keeps src P (set_h f)"
  by (rule view_set)

lemmas desk_simps = view_ok_def view_moves_def desk_guard_def

lemma editor_keeps: "stable view_moves P \<Longrightarrow> desk_keeps src P (openApprovalEditor s0 m d)"
  unfolding openApprovalEditor_def
  by (intro view_if view_block view_nil keeps_finally keeps_try view_ask desk_set)
    (auto simp: desk_simps editor_opened_def Let_def split: approval_reply.split intro!: desk_set)

lemma upload_keeps: "stable view_moves P \<Longrightarrow> t \<noteq> [] \<Longrightarrow> desk_keeps src P (upload_file t f)"
  unfolding upload_file_def by (intro view_ask view_give) (auto simp: desk_guard_def)

lemma no_draft_errors: "draft_errors v = [] \<longleftrightarrow> draft_fits v"
  by (auto simp: draft_errors_def validateApprovalDraft_def draft_fits_def attached_count_def attached_bytes_def
      APPROVAL_ATTACHMENT_MAX_COUNT_def APPROVAL_ATTACHMENT_MAX_TOTAL_BYTES_def Let_def not_less split: if_splits)

lemma payload_checked:
  "draft_errors v = [] \<Longrightarrow> length us = length (dk_pending v) \<Longrightarrow> draft_fits v \<and> draft_sent v (payload_of (dk_form v) us)"
  by (simp add: draft_sent_def no_draft_errors payload_of_def)

lemma create_keeps:
  assumes "stable view_moves P"
  shows "desk_keeps s0 P (handleCreate E s0)"
proof -
  have body: "desk_keeps s0 P (bind_h (for_each_h (upload_file (vw_token s0)) (dk_pending s0)) (\<lambda>uploads.
                 if dk_modal s0 = Edit_modal \<and> dk_editor_document s0 \<noteq> [] then
                   bind_h (ask (Update_document (vw_token s0) (dk_editor_document s0) (payload_of (dk_form s0) uploads) (map aa_id (dk_retained s0)))) (\<lambda>r.
                     case r of Updated d \<Rightarrow> keepApprovalPostAction E s0 Edit (dk_editor_document s0) (Some d) | _ \<Rightarrow> give ())
                 else
                   bind_h (ask (Create_document (vw_token s0) (payload_of (dk_form s0) uploads))) (\<lambda>r.
                     case r of
                       Created i \<Rightarrow> block [set_h (\<lambda>v. v\<lparr>vw_selected := i\<rparr>), keepApprovalPostAction E s0 Create i None]
                     | _ \<Rightarrow> give ())))"
    if t: "vw_token s0 \<noteq> []" "draft_errors s0 = []"
  proof (rule keeps_bind [OF keeps_for_each, where V1 = "\<lambda>_. True"])
    fix uploads :: "jstring list"
    assume "length uploads = length (dk_pending s0) \<and> list_all (\<lambda>_. True) uploads"
    with payload_checked [OF t(2)] t(1) assms
    show "desk_keeps s0 P (if dk_modal s0 = Edit_modal \<and> dk_editor_document s0 \<noteq> [] then
                   bind_h (ask (Update_document (vw_token s0) (dk_editor_document s0) (payload_of (dk_form s0) uploads) (map aa_id (dk_retained s0)))) (\<lambda>r.
                     case r of Updated d \<Rightarrow> keepApprovalPostAction E s0 Edit (dk_editor_document s0) (Some d) | _ \<Rightarrow> give ())
                 else
                   bind_h (ask (Create_document (vw_token s0) (payload_of (dk_form s0) uploads))) (\<lambda>r.
                     case r of
                       Created i \<Rightarrow> block [set_h (\<lambda>v. v\<lparr>vw_selected := i\<rparr>), keepApprovalPostAction E s0 Create i None]
                     | _ \<Rightarrow> give ()))"
      by (auto simp: desk_simps simp del: block.simps split: approval_reply.split
          intro!: view_ask view_block view_nil post_action_keeps desk_set desk_allows)
  qed (use assms t in \<open>auto intro: upload_keeps\<close>)
  show ?thesis
    unfolding handleCreate_def using assms
    by (auto simp: desk_simps close_modal_def simp del: block.simps intro!: view_if desk_set view_block view_nil keeps_finally keeps_try body)
qed

lemma starts_here: "view_ok s \<Longrightarrow> keeps_from view_ok view_moves view_answers G (\<lambda>v. v = s) Q h V \<Longrightarrow>
    safe view_ok view_moves view_answers G (start h) (settled view_ok view_moves) s s"
  by (rule from_start [where P = "\<lambda>v. v = s"]) auto

lemma starts_stable: "view_ok s \<Longrightarrow> desk_keeps src (\<lambda>_. True) h \<Longrightarrow>
    safe view_ok view_moves view_answers (desk_guard src) (start h) (settled view_ok view_moves) s s"
  by (rule keeps_start) auto

abbreviation desk_from :: "approval_desk \<Rightarrow> (approval_desk \<Rightarrow> bool) \<Rightarrow> 'a desk_handler \<Rightarrow> bool" where
  "desk_from src P h \<equiv> keeps_from view_ok view_moves view_answers (desk_guard src) P (\<lambda>_. True) h (\<lambda>_. True)"

lemma desk_from_set:
  assumes "\<And>v. view_ok v \<Longrightarrow> P v \<Longrightarrow> view_ok (f v) \<and> view_moves v (f v) \<and> P' (f v)" "desk_from src P' (block hs)"
  shows "desk_from src P (block (set_h f # hs))"
  by (rule from_set [OF _ _ assms(2)]) (use assms(1) view_moves_trans in blast)+

lemma desk_from_ask:
  assumes "\<And>v. view_ok v \<Longrightarrow> P v \<Longrightarrow> desk_guard src v c" "\<And>r. desk_keeps src (\<lambda>_. True) (f r)"
  shows "desk_from src P (bind_h (ask c) f)"
  by (rule from_ask) (use assms in auto)

lemma desk_from_give: "desk_from src P (give x)"
  by (rule from_keeps) auto

lemma execute_safe:
  "desk_from s (\<lambda>v. v = s) (executeApprovalAction E s action)"
proof (cases "dk_target s")
  case None
  then show ?thesis by (simp add: executeApprovalAction_def from_keeps)
next
  case (Some target)
  have o: "action_comment action (dk_reason s) \<noteq> [] \<and> length (action_comment action (dk_reason s)) \<le> 500"
    if "validateApprovalActionOpinion action (dk_reason s) = Opinion_Ok" "action = A_Approve \<or> action = A_Reject"
    using that by (auto simp: validateApprovalActionOpinion_def action_comment_def Let_def split: if_splits)
  have step: "desk_from s (\<lambda>v. dk_target v = Some target \<and> dk_reason v = dk_reason s)
      (bind_h (ask (Act (vw_token s) action (at_documentId target) (action_comment action (dk_reason s)))) (\<lambda>r.
        case r of
          Updated d \<Rightarrow> block
            [set_h (\<lambda>v. v\<lparr>dk_reason := [], dk_target := None, dk_modal := No_modal\<rparr>),
             keepApprovalPostAction E s (post_action_of action) (at_documentId target) (Some d)]
        | _ \<Rightarrow> give ()))"
    if "vw_token s \<noteq> []" "validateApprovalActionOpinion action (dk_reason s) = Opinion_Ok"
    by (rule desk_from_ask)
      (use that o in \<open>auto simp: desk_simps target_id_def simp del: block.simps split: approval_reply.split
        intro!: view_block view_nil post_action_keeps desk_set desk_allows\<close>)
  have e: "desk_keeps s (\<lambda>_. True) (set_h (\<lambda>v. v\<lparr>dk_error := True\<rparr>))" "desk_keeps s (\<lambda>_. True) (set_h (\<lambda>v. v\<lparr>dk_loading := False\<rparr>))"
    by (auto simp: desk_simps intro!: desk_set)
  show ?thesis
  proof (cases "vw_token s \<noteq> [] \<and> validateApprovalActionOpinion action (dk_reason s) = Opinion_Ok")
    case True
    then show ?thesis
      unfolding executeApprovalAction_def
      by (auto simp: Some if_h_def desk_simps simp del: block.simps
          intro!: desk_from_set [where P' = "\<lambda>v. dk_target v = Some target \<and> dk_reason v = dk_reason s"] from_one from_finally from_try step e)
  next
    case False
    then show ?thesis
      unfolding executeApprovalAction_def using e(1) by (auto simp: Some if_h_def intro!: from_keeps)
  qed
qed

lemma trash_safe: "desk_from s (\<lambda>v. v = s) (handleApprovalTrashAction s action confirmed)"
proof (cases "vw_detail s")
  case None
  then show ?thesis by (simp add: handleApprovalTrashAction_def from_keeps)
next
  case (Some d)
  have step: "desk_from s (\<lambda>v. vw_detail v = Some d)
      (bind_h (ask (Move_trash (vw_token s) action (ad_id d))) (\<lambda>_. block
                  [set_h (\<lambda>v. v\<lparr>vw_selected := [], vw_detail := None\<rparr>), reload s]))" if "vw_token s \<noteq> []"
    by (rule desk_from_ask)
      (use that in \<open>auto simp: desk_simps simp del: block.simps intro!: view_block view_nil reload_keeps desk_set desk_allows\<close>)
  have e: "desk_keeps s (\<lambda>_. True) (set_h (\<lambda>v. v\<lparr>dk_error := True\<rparr>))" "desk_keeps s (\<lambda>_. True) (set_h (\<lambda>v. v\<lparr>dk_loading := False\<rparr>))"
    by (auto simp: desk_simps intro!: desk_set)
  show ?thesis
    unfolding handleApprovalTrashAction_def
    by (auto simp: Some if_h_def desk_simps simp del: block.simps
        intro!: desk_from_set [where P' = "\<lambda>v. vw_detail v = Some d"] from_one from_finally from_try step e desk_from_give)
qed

lemma apply_keeps: "stable view_moves P \<Longrightarrow> desk_keeps src P (applyApprovalPreferences s0 p b)"
  unfolding applyApprovalPreferences_def
  by (intro view_if view_block view_nil keeps_try view_ask desk_set)
    (auto simp: desk_simps preferences_applied_def drop_signature_url_def split: approval_reply.split intro!: desk_set)

lemma preferences_keeps: "stable view_moves P \<Longrightarrow> vw_token s0 \<noteq> [] \<Longrightarrow> desk_keeps src P (loadApprovalPreferences s0)"
  unfolding loadApprovalPreferences_def
  by (intro view_block view_nil keeps_finally keeps_try view_ask desk_set)
    (auto simp: desk_simps split: approval_reply.split intro!: desk_set apply_keeps)

lemma save_preferences_keeps: "stable view_moves P \<Longrightarrow> desk_keeps src P (saveApprovalPreferences s0)"
  unfolding saveApprovalPreferences_def
  by (intro view_if view_block view_nil keeps_finally keeps_try view_ask desk_set)
    (auto simp: desk_simps split: approval_reply.split intro!: desk_set apply_keeps)

lemma if_request_keeps:
  "stable view_moves P \<Longrightarrow> (\<And>v. view_ok v \<Longrightarrow> P v \<Longrightarrow> view_ok (f v) \<and> view_moves v (f v)) \<Longrightarrow> desk_keeps src P (if_request n f)"
  unfolding if_request_def by (rule desk_set) auto

lemma candidates_keeps: "stable view_moves P \<Longrightarrow> vw_token s0 \<noteq> [] \<Longrightarrow> desk_keeps src P (loadApprovalDelegationCandidates s0 b)"
  unfolding loadApprovalDelegationCandidates_def Let_def
  by (intro view_look view_if view_block view_nil keeps_finally keeps_try view_ask desk_set if_request_keeps)
    (auto simp: desk_simps split: approval_reply.split intro!: desk_set if_request_keeps)

lemma delegations_keeps: "stable view_moves P \<Longrightarrow> vw_token s0 \<noteq> [] \<Longrightarrow> desk_keeps src P (loadApprovalDelegations s0 n)"
  unfolding loadApprovalDelegations_def
  by (intro view_block view_nil keeps_finally keeps_try view_ask desk_set)
    (auto simp: desk_simps split: approval_reply.split intro!: desk_set)

lemma tab_keeps: "stable view_moves P \<Longrightarrow> desk_keeps src P (selectApprovalSettingsTab s0 t)"
  unfolding selectApprovalSettingsTab_def
  by (auto simp: desk_simps simp del: block.simps split: settings_tab.split
      intro!: view_block view_nil view_if view_void desk_set preferences_keeps delegations_keeps candidates_keeps)

lemma new_delegation_keeps: "stable view_moves P \<Longrightarrow> desk_keeps src P (openApprovalDelegationCreate d s0)"
  unfolding openApprovalDelegationCreate_def Let_def
  by (auto simp: desk_simps simp del: block.simps intro!: view_block view_nil view_if view_void desk_set candidates_keeps)

lemma edit_delegation_keeps: "stable view_moves P \<Longrightarrow> desk_keeps src P (openApprovalDelegationEdit s0 d)"
  unfolding openApprovalDelegationEdit_def
  by (auto simp: desk_simps simp del: block.simps split: option.split intro!: view_block view_nil view_if view_void desk_set candidates_keeps)


lemma save_delegation_keeps:
  assumes "stable view_moves P"
  shows "desk_keeps src P (saveApprovalDelegation s0)"
proof -
  have v: "delegation_fits (trimmed_draft d)" if "validateApprovalDelegation d = Delegation_Ok" for d
    using that by (simp add: delegation_checked delegation_fits_def trimmed_draft_def)
  have send: "desk_keeps src P (if dk_popup s0 = Create_popup then
                 bind_h (ask (Create_delegation (vw_token s0) (trimmed_draft (dk_delegation_draft s0)))) (\<lambda>_. give ())
               else (case edited_delegation s0 None of
                       None \<Rightarrow> throw None
                     | Some d \<Rightarrow> bind_h (ask (Update_delegation (vw_token s0) (dg_id d) (trimmed_draft (dk_delegation_draft s0)) (dg_version d))) (\<lambda>_. give ())))"
    if "vw_token s0 \<noteq> []" "validateApprovalDelegation (dk_delegation_draft s0) = Delegation_Ok"
    using assms that by (auto simp: desk_guard_def v split: option.split intro!: view_ask keeps_throw)
  show ?thesis
  proof (cases "validateApprovalDelegation (dk_delegation_draft s0) = Delegation_Ok")
    case True
    then show ?thesis
      unfolding saveApprovalDelegation_def using assms
      by (auto simp: desk_simps simp del: block.simps split del: if_split
          intro!: view_if desk_set view_block view_nil keeps_finally keeps_try send delegations_keeps)
  next
    case False
    then show ?thesis
      unfolding saveApprovalDelegation_def using assms by (auto simp: desk_simps intro!: view_if desk_set)
  qed
qed

lemma delete_delegation_keeps: "stable view_moves P \<Longrightarrow> desk_keeps src P (confirmDeleteApprovalDelegation s0)"
  unfolding confirmDeleteApprovalDelegation_def
  by (auto simp: desk_simps simp del: block.simps split: option.split
      intro!: view_if desk_set view_block view_nil view_ask keeps_finally keeps_try delegations_keeps)

lemma menu_keeps:
  assumes "stable view_moves P"
  shows "desk_keeps src P (activateApprovalShellMenu E s0 k)"
  unfolding activateApprovalShellMenu_def using assms
  by (auto simp: desk_simps unselect_def Let_def simp del: block.simps split: shell_menu.split option.split
      intro!: view_if view_void desk_set view_block view_nil select_keeps desk_allows delegations_keeps candidates_keeps preferences_keeps)

lemma discard_keeps: "stable view_moves P \<Longrightarrow> desk_keeps src P (discardApprovalPreferencesAndNavigate E s0)"
  unfolding discardApprovalPreferencesAndNavigate_def
  by (auto simp: desk_simps simp del: block.simps split: option.split
      intro!: view_void desk_set view_block view_nil menu_keeps apply_keeps)

lemmas desk_handlers_keep = select_keeps retry_detail_keeps retry_logs_keeps follow_keeps reload_keeps editor_keeps create_keeps
  preferences_keeps save_preferences_keeps tab_keeps new_delegation_keeps edit_delegation_keeps save_delegation_keeps
  delete_delegation_keeps candidates_keeps menu_keeps discard_keeps apply_keeps

lemma desk_handler_from: "desk_from s (\<lambda>v. v = s) (desk_handler E i s)"
proof (cases "(\<exists>a. i = Execute a) \<or> (\<exists>a b. i = Trash_action a b)")
  case True
  then show ?thesis using execute_safe trash_safe by auto
next
  case False
  have "desk_keeps s (\<lambda>_. True) (desk_handler E i s)"
    using False
    by (cases i)
      (auto simp: desk_simps close_modal_def selectApprovalApprover_def move_approver_def addApprovalFiles_def openApprovalAction_def
        selectApprovalSignature_def drop_signature_url_def removeApprovalSignature_def cancelApprovalPreferences_def openApprovalShellMenu_def
        split: option.split intro!: desk_handlers_keep desk_allows desk_set view_if view_void)
  then show ?thesis by (rule from_keeps) simp
qed

interpretation approval_handlers: handler_system "desk_handlers E" view_ok view_moves view_answers desk_guard
  by unfold_locales (auto simp: desk_handlers_def intro: view_moves_trans starts_here desk_handler_from)

section \<open>Properties\<close>

definition new_desk :: "jstring \<Rightarrow> approval_desk" where
  \<comment> \<open>the initial values of the state, with the date of the day\<close>
  "new_desk today =
     \<lparr>vw_token = [], vw_me = None, vw_active = False, vw_documents = [], vw_menu = Actual Pending, vw_status_filter = lit ''all'',
      vw_search = [], vw_selected = [], vw_detail = None, vw_logs = [], vw_detail_loading = False, vw_logs_loading = False,
      vw_detail_error = False, vw_logs_error = False, vw_attachment_error = False, vw_sequence = 0, vw_urls = [],
      vw_signature_urls = [], vw_preview_urls = [], vw_preferences = None, vw_chosen = [], vw_freed = [], vw_made = {},
      dk_loading = False, dk_error = False, dk_modal = No_modal, dk_form = empty_form, dk_editor_document = [], dk_retained = [],
      dk_pending = [], dk_baseline = None, dk_target = None, dk_reason = [], dk_approvers = [],
      dk_draft = \<lparr>pr_writingMethod = lit ''general'', pr_display = Thumbnail, pr_signatureName = [], pr_removeSignature = False\<rparr>,
      dk_draft_baseline = None, dk_signature_file = None, dk_signature_preview = [], dk_signature_url = [],
      dk_preferences_loading = False, dk_preferences_saving = False, dk_preferences_error = False, dk_tab = Basic,
      dk_pending_menu = None, dk_delegations = [], dk_delegations_total = 0, dk_delegations_page = 1,
      dk_delegations_loading = False, dk_delegations_error = False, dk_delegation = [], dk_popup = No_popup,
      dk_delegation_draft = \<lparr>dl_delegateUserId = [], dl_startDate = today, dl_endDate = today, dl_reason = [], dl_enabled = True\<rparr>,
      dk_delegation_baseline = None, dk_delegation_saving = False, dk_delegation_error = False, dk_delete_target = None,
      dk_candidates_request = None, dk_candidates_next = 0, dk_candidates_token = [], dk_candidates_loading = False,
      dk_candidates_error = False\<rparr>"

lemma new_desk_ok: "view_ok (new_desk today)"
  by (simp add: view_ok_def new_desk_def)

text \<open>C36. Whatever the handlers of the approval view and the answers of the server interleave to, every request is sent
  with a token; a decision is sent for the document the popup shows, an approval or rejection only with an opinion of at
  most 500 characters; a document moves to the trash only from its own detail; a delegation is sent only with a period that
  does not end before it starts, a delegate and a reason of at most 500 characters. A draft, new or edited, is sent only if, when
  it was saved, it had a title of at most 200 and a content of at most 20000 characters and at most ten attachments of at
  most 25 MiB together, those of the document that are kept included; what is sent is what the form held then, with one upload for
  each file chosen, and an edited document with the attachments kept then.\<close>

theorem approval_requests_checked:
  assumes "reached (desk_handlers E) view_answers (idle (new_desk today)) m" "(v, c) \<in> set (mc_sent m)"
  shows "call_token c \<noteq> []
    \<and> (\<forall>t a i r. c = Act t a i r \<longrightarrow> target_id v = Some i \<and> (a = A_Approve \<or> a = A_Reject \<longrightarrow> r \<noteq> [] \<and> length r \<le> 500 \<and> r = js_trim (dk_reason v)))
    \<and> (\<forall>t a i. c = Move_trash t a i \<longrightarrow> map_option ad_id (vw_detail v) = Some i)
    \<and> (\<forall>t d. c = Create_delegation t d \<or> (\<exists>i n. c = Update_delegation t i d n) \<longrightarrow> dl_startDate d \<noteq> [] \<and> dl_endDate d \<noteq> []
         \<and> dl_startDate d \<le> dl_endDate d \<and> dl_delegateUserId d \<noteq> [] \<and> js_trim (dl_reason d) \<noteq> [] \<and> length (js_trim (dl_reason d)) \<le> 500)
    \<and> (\<forall>t p. c = Create_document t p \<or> (\<exists>i rs. c = Update_document t i p rs) \<longrightarrow>
         (\<exists>n. reached (desk_handlers E) view_answers (idle (new_desk today)) n \<and> reached (desk_handlers E) view_answers n m
            \<and> draft_fits (mc_view n) \<and> draft_sent (mc_view n) p
            \<and> (\<forall>i rs. c = Update_document t i p rs \<longrightarrow> i = dk_editor_document (mc_view n) \<and> i \<noteq> [] \<and> rs = map aa_id (dk_retained (mc_view n)))))"
proof -
  obtain n where n: "reached (desk_handlers E) view_answers (idle (new_desk today)) n" "reached (desk_handlers E) view_answers n m"
      "desk_guard (mc_view n) v c"
    by (rule approval_handlers.sent [OF assms(1) new_desk_ok assms(2)])
  show ?thesis
  proof (intro conjI allI impI)
    fix t p
    assume "c = Create_document t p \<or> (\<exists>i rs. c = Update_document t i p rs)"
    then show "\<exists>n. reached (desk_handlers E) view_answers (idle (new_desk today)) n \<and> reached (desk_handlers E) view_answers n m
            \<and> draft_fits (mc_view n) \<and> draft_sent (mc_view n) p
            \<and> (\<forall>i rs. c = Update_document t i p rs \<longrightarrow> i = dk_editor_document (mc_view n) \<and> i \<noteq> [] \<and> rs = map aa_id (dk_retained (mc_view n)))"
      using n by (intro exI [of _ n]) (auto simp: desk_guard_def)
  qed (use n(3) in \<open>auto simp: desk_guard_def delegation_fits_def action_comment_def\<close>)
qed

definition letter :: approval_detail where
  "letter = \<lparr>ad_id = lit ''d'', ad_title = lit ''x'', ad_status = lit ''submitted'', ad_creatorUserId = lit ''u'', ad_creatorUserName = lit ''U'',
     ad_currentLineIndex = None, ad_lines = [], ad_canCurrentUserAct = True, ad_currentUserAudienceType = None,
     ad_currentUserReadAt = None, ad_currentUserDepartmentMember = False, ad_deletedForCurrentUser = False,
     ad_permanentlyDeletedForCurrentUser = False, ad_content = lit ''y'', ad_signatures = [], ad_attachments = [],
     ad_references = [], ad_viewers = [], ad_urgent = False, ad_shared = False\<rparr>"

definition decision :: "(desk_event, int option + approval_reply) event list" where
  \<comment> \<open>the document is rejected with a reason\<close>
  "decision = [Invoke (Sign_in (lit ''t'') None), Invoke (Open_action A_Reject (as_document letter)), Invoke (Write_reason (lit ''no'')),
     Invoke (Execute A_Reject)]"

lemma trim_no: "js_trim (lit ''no'') = lit ''no''"
  by (rule js_trim_fixed) (simp_all add: lit_def js_ws_def)

lemma decision_sends:
  "\<exists>m v. advances (desk_handlers E) decision (idle (new_desk today)) = Some m \<and> answered_all (desk_handlers E) view_answers decision (idle (new_desk today))
     \<and> (v, Act (lit ''t'') A_Reject (lit ''d'') (lit ''no'')) \<in> set (mc_sent m)"
  by (simp add: decision_def proceed_def desk_handlers_def handler_defs idle_def answered_by_def executeApprovalAction_def openApprovalAction_def
      buildApprovalActionTarget_def validateApprovalActionOpinion_def action_comment_def trim_no as_document_def letter_def
      approval_document.defs new_desk_def)

theorem approval_requests_checked_witness:
  "\<exists>v m. reached (desk_handlers undefined) view_answers (idle (new_desk [])) m \<and> (v, Act (lit ''t'') A_Reject (lit ''d'') (lit ''no'')) \<in> set (mc_sent m) \<and> target_id v = Some (lit ''d'') \<and> js_trim (dk_reason v) = lit ''no''"
proof -
  obtain m v where m: "advances (desk_handlers undefined) decision (idle (new_desk [])) = Some m"
      "answered_all (desk_handlers undefined) view_answers decision (idle (new_desk []))"
    and v: "(v, Act (lit ''t'') A_Reject (lit ''d'') (lit ''no'')) \<in> set (mc_sent m)"
    using decision_sends by blast
  from approval_requests_checked [OF advances_from [OF m] v]
  have "target_id v = Some (lit ''d'') \<and> js_trim (dk_reason v) = lit ''no''" by simp
  with v advances_from [OF m] show ?thesis by blast
qed

text \<open>C37. In every interleaving the document that is shown is the one the latest selection was for, however late the details of
  earlier ones arrive; no image that is shown has been revoked, none is revoked twice, and what is revoked stays so.\<close>

theorem shown_document_latest:
  assumes "reached (desk_handlers E) view_answers (idle (new_desk today)) m" "reached (desk_handlers E) view_answers m n"
  shows "(\<forall>k d. shown_document F k (mc_view m) = Some d \<longrightarrow> ad_id d = vw_chosen (mc_view m))
    \<and> snd ` set (vw_signature_urls (mc_view m) @ vw_preview_urls (mc_view m)) \<inter> set (vw_freed (mc_view m)) = {}
    \<and> distinct (vw_freed (mc_view m)) \<and> set (vw_freed (mc_view m)) \<subseteq> vw_made (mc_view m)
    \<and> set (vw_freed (mc_view m)) \<subseteq> set (vw_freed (mc_view n)) \<and> vw_sequence (mc_view m) \<le> vw_sequence (mc_view n)
    \<and> (vw_sequence (mc_view m) = vw_sequence (mc_view n) \<longrightarrow> vw_chosen (mc_view m) = vw_chosen (mc_view n))"
proof -
  have "view_ok (mc_view m)" using approval_handlers.always [OF assms(1) new_desk_ok] by simp
  moreover have "view_moves (mc_view m) (mc_view n)" using approval_handlers.later [OF assms(1) new_desk_ok assms(2)] by simp
  ultimately show ?thesis
    by (auto simp: view_ok_def view_moves_def shown_document_def split: option.splits if_splits)
qed

definition second_letter :: approval_detail where
  "second_letter = letter\<lparr>ad_id := lit ''e''\<rparr>"

definition two_selections :: "(desk_event, int option + approval_reply) event list" where
  \<comment> \<open>two documents are selected one after the other, and the detail of the first arrives last\<close>
  "two_selections = [Invoke (Sign_in (lit ''t'') None), Invoke (Select (lit ''d'') True), Invoke (Select (lit ''e'') True),
     Answer 2 (Inr (Detail second_letter None)), Answer 0 (Inr (Detail letter None))]"

lemma two_selections_run:
  "\<exists>m. advances (desk_handlers E) two_selections (idle (new_desk today)) = Some m \<and> answered_all (desk_handlers E) view_answers two_selections (idle (new_desk today))
     \<and> vw_detail (mc_view m) = Some second_letter \<and> vw_chosen (mc_view m) = lit ''e''"
  by (simp add: two_selections_def proceed_def desk_handlers_def handler_defs idle_def answered_by_def selectApprovalDocument_def
      load_detail_def load_logs_def show_detail_def if_current_def drop_at_def begin_selection_def clear_selection_def release_urls_def
      loadApprovalDetailImages_def releaseApprovalDetailImages_def second_letter_def letter_def set_text_def new_desk_def Let_def)

theorem shown_document_latest_witness:
  "\<exists>m. vw_detail (mc_view m) = Some second_letter \<and> vw_chosen (mc_view m) = lit ''e''
     \<and> snd ` set (vw_signature_urls (mc_view m) @ vw_preview_urls (mc_view m)) \<inter> set (vw_freed (mc_view m)) = {}
     \<and> reached (desk_handlers undefined) view_answers (idle (new_desk [])) m"
proof -
  obtain m where m: "advances (desk_handlers undefined) two_selections (idle (new_desk [])) = Some m"
      "answered_all (desk_handlers undefined) view_answers two_selections (idle (new_desk []))"
    and d: "vw_detail (mc_view m) = Some second_letter" "vw_chosen (mc_view m) = lit ''e''"
    using two_selections_run by blast
  have r: "reached (desk_handlers undefined) view_answers (idle (new_desk [])) m" by (rule advances_from [OF m])
  from shown_document_latest [OF r reached_refl] d r show ?thesis by blast
qed

section \<open>What the handlers do not order\<close>

definition stored_preferences :: approval_preferences where
  "stored_preferences = \<lparr>pf_writingMethod = lit ''general'', pf_display = Thumbnail, pf_version = 1, pf_hasSignature = True,
     pf_signatureFileName = Some (lit ''old''), pf_signatureUrl = Some (lit ''/old'')\<rparr>"

definition signature_race :: "(desk_event, int option + approval_reply) event list" where
  "signature_race = [Invoke (Sign_in (lit ''t'') None), Invoke Load_preferences, Answer 0 (Inr (Preferences stored_preferences)),
     Invoke (Pick_signature 7 (lit ''new'') (lit ''image/png'') 10 (lit ''blob:new'')), Answer 0 (Inr (Signature (lit ''blob:old'')))]"

lemma late_signature_hides_choice:
  \<comment> \<open>the file that will be saved is the chosen one, the preview that of the stored signature\<close>
  "\<exists>m. advances (desk_handlers E) signature_race (idle (new_desk today)) = Some m \<and> dk_signature_file (mc_view m) = Some 7
     \<and> dk_signature_preview (mc_view m) = lit ''blob:old'' \<and> pr_signatureName (dk_draft (mc_view m)) = lit ''new''"
  by (simp add: signature_race_def proceed_def desk_handlers_def handler_defs idle_def drop_at_def loadApprovalPreferences_def
      applyApprovalPreferences_def preferences_applied_def drop_signature_url_def draft_of_def stored_preferences_def set_text_def
      selectApprovalSignature_def signature_types_def new_desk_def Let_def)

definition short_form :: approval_form where
  "short_form = empty_form\<lparr>fm_title := lit ''no'', fm_content := lit ''no''\<rparr>"

definition saved_twice :: "(desk_event, int option + approval_reply) event list" where
  \<comment> \<open>the draft is stored, the list that is loaded afterwards fails, and the user saves again as the message says\<close>
  "saved_twice = [Invoke (Sign_in (lit ''t'') None), Invoke (Open_editor Create_modal None), Answer 0 (Inr (Editor [] None)),
     Invoke (Write_form short_form), Invoke Save_draft, Answer 0 (Inr (Created (lit ''d''))), Answer 0 (Inl (Some 503)), Invoke Save_draft]"

lemma failed_list_saves_twice:
  "\<exists>m. advances (desk_handlers E) saved_twice (idle (new_desk today)) = Some m
     \<and> length (filter (\<lambda>(v, c). c = Create_document (lit ''t'') (payload_of short_form [])) (mc_sent m)) = 2"
  by (simp add: saved_twice_def proceed_def desk_handlers_def handler_defs idle_def drop_at_def openApprovalEditor_def editor_opened_def
      handleCreate_def draft_errors_def validateApprovalDraft_def attached_count_def attached_bytes_def short_form_def empty_form_def trim_no
      payload_of_def keepApprovalPostAction_def resolveApprovalPostActionTarget_def reload_def new_desk_def Let_def
      APPROVAL_ATTACHMENT_MAX_COUNT_def APPROVAL_ATTACHMENT_MAX_TOTAL_BYTES_def)

end
