(* ===== verification/Web_Portal.thy ===== *)
theory Web_Portal
  imports Js_Async
begin

text \<open>
  The session of the web client and its messenger (\<open>user-web/src/App.tsx\<close>): login, the first change of a password, the
  effects that follow the token, the profile in the header, the home page, and the rooms of the messenger. Handlers are
  processes of \<open>Js_Async\<close>; an effect is a handler that may run whenever it likes. What these handlers load for other
  views is one request each (\<open>Load_work\<close>, \<open>Load_mail\<close>, \<open>Load_storage\<close>). \<open>pt_made\<close> and \<open>pt_freed\<close>, the object URLs of photos
  made and revoked, are not in the program. Texts of messages are left out.
\<close>

section \<open>Data\<close>

record session_user =
  us_id :: jstring
  us_mustChangePassword :: bool

record header_profile =
  wp_name :: jstring
  wp_photoAvailable :: bool

record start_preferences =
  sp_locale :: jstring
  sp_timezone :: jstring
  sp_startPage :: jstring

record login_form =
  lf_loginId :: jstring
  lf_password :: jstring

record password_form =
  ch_current :: jstring
  ch_new :: jstring
  ch_confirm :: jstring

record notice =
  nt_id :: jstring
  nt_is_read :: bool

record room_summary =
  rs_roomId :: jstring
  rs_unreadCount :: nat

record room_detail =
  rd_roomId :: jstring
  rd_createdByUserId :: jstring
  rd_participants :: "jstring list"
  rd_canLeave :: bool
  rd_canDelete :: bool
  rd_updatedAt :: jstring

record room_message =
  ms_roomId :: jstring
  ms_body :: jstring

datatype lifecycle = No_action | Transfer_owner | Leave_room | Delete_room

datatype portal_call =
    Login jstring jstring
  | Fetch_me jstring
  | Change_password jstring jstring jstring
  | Fetch_preferences jstring
  | Get_profile jstring
  | Get_photo jstring
  | Translation_status jstring
  | Delivery_status jstring
  | Load_work jstring
  | Load_mail jstring
  | Load_storage jstring
  | Get_schedules jstring
  | Get_notices jstring
  | Get_notice jstring jstring
  | Read_notice jstring jstring
  | Get_rooms jstring
  | Read_room jstring jstring
  | Get_room jstring jstring \<comment> \<open>with its messages\<close>
  | Send_message jstring jstring jstring
  | Transfer_room jstring jstring jstring jstring
  | Exit_room jstring jstring
  | Remove_room jstring jstring

datatype portal_reply =
    Logged_in jstring session_user
  | Me session_user
  | Start_preferences start_preferences
  | Profile header_profile
  | Photo jstring \<comment> \<open>the object URL made for it, empty where there is none\<close>
  | Status jsval
  | Schedules "jsval list"
  | Notices "notice list"
  | Notice notice
  | Rooms "room_summary list"
  | Room room_detail "room_message list"
  | Accepted

fun portal_token :: "portal_call \<Rightarrow> jstring option" where
  "portal_token (Login e p) = None"
| "portal_token (Fetch_me t) = Some t"
| "portal_token (Change_password t c n) = Some t"
| "portal_token (Fetch_preferences t) = Some t"
| "portal_token (Get_profile t) = Some t"
| "portal_token (Get_photo t) = Some t"
| "portal_token (Translation_status t) = Some t"
| "portal_token (Delivery_status t) = Some t"
| "portal_token (Load_work t) = Some t"
| "portal_token (Load_mail t) = Some t"
| "portal_token (Load_storage t) = Some t"
| "portal_token (Get_schedules t) = Some t"
| "portal_token (Get_notices t) = Some t"
| "portal_token (Get_notice t i) = Some t"
| "portal_token (Read_notice t i) = Some t"
| "portal_token (Get_rooms t) = Some t"
| "portal_token (Read_room t r) = Some t"
| "portal_token (Get_room t r) = Some t"
| "portal_token (Send_message t r b) = Some t"
| "portal_token (Transfer_room t r u a) = Some t"
| "portal_token (Exit_room t r) = Some t"
| "portal_token (Remove_room t r) = Some t"

record portal =
  pt_stored :: jstring \<comment> \<open>the token in the local storage\<close>
  pt_token :: jstring
  pt_me :: "session_user option"
  pt_header :: "header_profile option"
  pt_photo :: jstring \<comment> \<open>\<open>headerProfilePhotoUrlRef\<close>\<close>
  pt_photo_shown :: jstring
  pt_applied :: jstring \<comment> \<open>\<open>appliedPreferenceTokenRef\<close>\<close>
  pt_locale :: jstring
  pt_timezone :: jstring
  pt_menu :: jstring
  pt_translation :: "jsval option"
  pt_delivery :: "jsval option"
  pt_login :: login_form
  pt_change :: password_form
  pt_loading :: bool
  pt_error :: bool
  pt_schedules :: "jsval list"
  pt_notices :: "notice list"
  pt_notice :: "notice option"
  mg_rooms :: "room_summary list"
  mg_selected :: jstring
  mg_detail :: "room_detail option"
  mg_messages :: "room_message list"
  mg_draft :: jstring
  mg_loading :: bool
  mg_error :: bool
  mg_action :: lifecycle
  mg_owner :: jstring
  pt_made :: "jstring set"
  pt_freed :: "jstring list"

type_synonym 'a portal_handler = "(portal_call, unit, portal_reply, portal, 'a) handler"

definition signed_in :: "portal \<Rightarrow> bool" where
  \<comment> \<open>the views of the portal are shown, and its effects run\<close>
  "signed_in v \<longleftrightarrow> pt_token v \<noteq> [] \<and> (\<exists>u\<in>set_option (pt_me v). \<not> us_mustChangePassword u)"

section \<open>The messenger\<close>

definition show_room :: "jstring \<Rightarrow> room_detail \<Rightarrow> room_message list \<Rightarrow> portal \<Rightarrow> portal" where
  "show_room roomId d ms v = v\<lparr>mg_selected := roomId, mg_detail := Some d, mg_messages := ms\<rparr>"

definition no_room :: "portal \<Rightarrow> portal" where
  "no_room v = v\<lparr>mg_selected := [], mg_detail := None, mg_messages := []\<rparr>"

definition messenger_begin :: "portal \<Rightarrow> portal" where
  "messenger_begin v = v\<lparr>mg_loading := True, mg_error := False\<rparr>"

definition messenger_end :: "unit portal_handler" where
  "messenger_end = set_h (\<lambda>v. v\<lparr>mg_loading := False\<rparr>)"

definition messenger_error :: "unit portal_handler" where
  "messenger_error = set_h (\<lambda>v. v\<lparr>mg_error := True\<rparr>)"

definition target_room :: "jstring \<Rightarrow> room_summary list \<Rightarrow> jstring" where
  "target_room requested rooms =
     (if requested \<in> rs_roomId ` set rooms then requested else case rooms of [] \<Rightarrow> [] | r # rs \<Rightarrow> rs_roomId r)"

definition loadMessengerWorkspace :: "portal \<Rightarrow> jstring \<Rightarrow> unit portal_handler" where
  \<comment> \<open>no caller passes a preferred room; where it fails, the schedules of the home page are emptied, too\<close>
  "loadMessengerWorkspace s0 targetToken = block
     [set_h messenger_begin,
      finally_do
        (try_catch
          (bind_h (ask (Get_rooms targetToken)) (\<lambda>r. case r of
             Rooms rooms \<Rightarrow> block
               [set_h (\<lambda>v. v\<lparr>mg_rooms := rooms\<rparr>),
                if target_room (mg_selected s0) rooms \<noteq> [] then
                  bind_h (ask (Get_room targetToken (target_room (mg_selected s0) rooms))) (\<lambda>x. case x of
                    Room d ms \<Rightarrow> set_h (show_room (target_room (mg_selected s0) rooms) d ms) | _ \<Rightarrow> give ())
                else set_h no_room]
           | _ \<Rightarrow> give ()))
          (\<lambda>e. set_h (\<lambda>v. no_room (v\<lparr>mg_error := True, mg_rooms := [], pt_schedules := []\<rparr>))))
        messenger_end]"

definition room_read :: "jstring \<Rightarrow> portal \<Rightarrow> portal" where
  "room_read roomId v = v\<lparr>mg_rooms := map (\<lambda>r. if rs_roomId r = roomId then r\<lparr>rs_unreadCount := 0\<rparr> else r) (mg_rooms v)\<rparr>"

definition selectMessengerRoom :: "jstring \<Rightarrow> jstring \<Rightarrow> bool \<Rightarrow> unit portal_handler" where
  "selectMessengerRoom targetToken roomId markRead = block
     [set_h messenger_begin,
      finally_do
        (try_catch
          (block
            [if_h markRead (bind_h (ask (Read_room targetToken roomId)) (\<lambda>_. give ())),
             bind_h (ask (Get_room targetToken roomId)) (\<lambda>x. case x of
               Room d ms \<Rightarrow> set_h (\<lambda>v. (if markRead then room_read roomId else id) (show_room roomId d ms v))
             | _ \<Rightarrow> give ())])
          (\<lambda>e. messenger_error))
        messenger_end]"

definition handleMessengerSend :: "portal \<Rightarrow> unit portal_handler" where
  "handleMessengerSend s0 = if_h (pt_token s0 \<noteq> [] \<and> mg_selected s0 \<noteq> [] \<and> js_trim (mg_draft s0) \<noteq> []) (block
     [set_h messenger_begin,
      finally_do
        (try_catch
          (bind_h (ask (Send_message (pt_token s0) (mg_selected s0) (js_trim (mg_draft s0)))) (\<lambda>_. block
             [set_h (\<lambda>v. v\<lparr>mg_draft := []\<rparr>), selectMessengerRoom (pt_token s0) (mg_selected s0) True]))
          (\<lambda>e. messenger_error))
        messenger_end])"

definition handleMessengerOwnerTransfer :: "portal \<Rightarrow> unit portal_handler" where
  "handleMessengerOwnerTransfer s0 =
     (case mg_detail s0 of
        None \<Rightarrow> give ()
      | Some d \<Rightarrow> if_h (pt_token s0 \<noteq> [] \<and> mg_selected s0 \<noteq> [] \<and> mg_owner s0 \<noteq> []) (block
          [set_h messenger_begin,
           finally_do
             (try_catch
               (bind_h (ask (Transfer_room (pt_token s0) (mg_selected s0) (mg_owner s0) (rd_updatedAt d))) (\<lambda>_. block
                  [set_h (\<lambda>v. v\<lparr>mg_action := No_action, mg_owner := []\<rparr>), selectMessengerRoom (pt_token s0) (mg_selected s0) False]))
               (\<lambda>e. messenger_error))
             messenger_end]))"

definition end_of_room :: "portal \<Rightarrow> portal_call \<Rightarrow> unit portal_handler" where
  \<comment> \<open>leaving and deleting a room differ in the request only\<close>
  "end_of_room s0 c = if_h (pt_token s0 \<noteq> [] \<and> mg_selected s0 \<noteq> []) (block
     [set_h messenger_begin,
      finally_do
        (try_catch
          (bind_h (ask c) (\<lambda>_. block
             [set_h (\<lambda>v. no_room (v\<lparr>mg_action := No_action\<rparr>)), loadMessengerWorkspace s0 (pt_token s0)]))
          (\<lambda>e. messenger_error))
        messenger_end])"

definition handleMessengerLeave :: "portal \<Rightarrow> unit portal_handler" where
  "handleMessengerLeave s0 = end_of_room s0 (Exit_room (pt_token s0) (mg_selected s0))"

definition handleMessengerDelete :: "portal \<Rightarrow> unit portal_handler" where
  "handleMessengerDelete s0 = end_of_room s0 (Remove_room (pt_token s0) (mg_selected s0))"

definition open_lifecycle :: "lifecycle \<Rightarrow> portal \<Rightarrow> portal" where
  \<comment> \<open>the buttons beside the room, with the conditions they are shown and enabled under\<close>
  "open_lifecycle a v =
     (case mg_detail v of
        None \<Rightarrow> v
      | Some d \<Rightarrow>
          (case a of
             Transfer_owner \<Rightarrow>
               (if rd_canDelete d \<and> \<not> mg_loading v \<and> 2 \<le> length (rd_participants d)
                then v\<lparr>mg_owner := (case find (\<lambda>u. u \<noteq> rd_createdByUserId d) (rd_participants d) of None \<Rightarrow> [] | Some u \<Rightarrow> u),
                       mg_action := Transfer_owner\<rparr>
                else v)
           | Leave_room \<Rightarrow> (if rd_canLeave d \<and> \<not> mg_loading v then v\<lparr>mg_action := Leave_room\<rparr> else v)
           | Delete_room \<Rightarrow> (if rd_canDelete d \<and> \<not> mg_loading v then v\<lparr>mg_action := Delete_room\<rparr> else v)
           | No_action \<Rightarrow> v))"

definition confirm_lifecycle :: "portal \<Rightarrow> unit portal_handler" where
  \<comment> \<open>the button of the popup\<close>
  "confirm_lifecycle s0 = if_h (\<not> mg_loading s0 \<and> \<not> (mg_action s0 = Transfer_owner \<and> mg_owner s0 = []))
     (case mg_action s0 of
        Transfer_owner \<Rightarrow> handleMessengerOwnerTransfer s0
      | Leave_room \<Rightarrow> handleMessengerLeave s0
      | Delete_room \<Rightarrow> handleMessengerDelete s0
      | No_action \<Rightarrow> give ())"

section \<open>The header and the home page\<close>

definition drop_photo :: "portal \<Rightarrow> portal" where
  "drop_photo v = v\<lparr>pt_freed := pt_freed v @ (if pt_photo v \<noteq> [] then [pt_photo v] else []), pt_photo := [], pt_photo_shown := []\<rparr>"

definition drop_header :: "portal \<Rightarrow> portal" where
  "drop_header v = drop_photo (v\<lparr>pt_header := None\<rparr>)"

definition header_shown :: "header_profile \<Rightarrow> jstring \<Rightarrow> portal \<Rightarrow> portal" where
  "header_shown p url v = (drop_photo v)
     \<lparr>pt_header := Some p, pt_photo := url, pt_photo_shown := url, pt_made := pt_made v \<union> (if url = [] then {} else {url})\<rparr>"

definition refreshHeaderProfile :: "portal \<Rightarrow> unit portal_handler" where
  "refreshHeaderProfile s0 = if_h (pt_token s0 \<noteq> [] \<and> pt_me s0 \<noteq> None)
     (bind_h (ask (Get_profile (pt_token s0))) (\<lambda>r. case r of
        Profile p \<Rightarrow>
          (if wp_photoAvailable p then
             bind_h (ask (Get_photo (pt_token s0))) (\<lambda>x. set_h (case x of Photo u \<Rightarrow> header_shown p u | _ \<Rightarrow> id))
           else set_h (header_shown p []))
      | _ \<Rightarrow> give ()))"

definition loadTranslationState :: "jstring \<Rightarrow> unit portal_handler" where
  "loadTranslationState t = try_catch
     (bind_h (ask (Translation_status t)) (\<lambda>r. case r of Status x \<Rightarrow> set_h (\<lambda>v. v\<lparr>pt_translation := Some x\<rparr>) | _ \<Rightarrow> give ()))
     (\<lambda>e. set_h (\<lambda>v. v\<lparr>pt_translation := None\<rparr>))"

definition refreshMailDeliveryState :: "jstring \<Rightarrow> unit portal_handler" where
  "refreshMailDeliveryState t =
     (if t = [] then set_h (\<lambda>v. v\<lparr>pt_delivery := None\<rparr>)
      else try_catch
        (bind_h (ask (Delivery_status t)) (\<lambda>r. case r of Status x \<Rightarrow> set_h (\<lambda>v. v\<lparr>pt_delivery := Some x\<rparr>) | _ \<Rightarrow> give ()))
        (\<lambda>e. set_h (\<lambda>v. v\<lparr>pt_delivery := None\<rparr>)))"

definition loadHomeSchedules :: "jstring \<Rightarrow> unit portal_handler" where
  "loadHomeSchedules t = bind_h (ask (Get_schedules t)) (\<lambda>r. case r of Schedules xs \<Rightarrow> set_h (\<lambda>v. v\<lparr>pt_schedules := xs\<rparr>) | _ \<Rightarrow> give ())"

definition loadHomeNotices :: "jstring \<Rightarrow> unit portal_handler" where
  "loadHomeNotices t = bind_h (ask (Get_notices t)) (\<lambda>r. case r of Notices xs \<Rightarrow> set_h (\<lambda>v. v\<lparr>pt_notices := xs\<rparr>) | _ \<Rightarrow> give ())"

definition open_notice :: "portal \<Rightarrow> jstring \<Rightarrow> unit portal_handler" where
  "open_notice s0 itemId = bind_h (ask (Get_notice (pt_token s0) itemId)) (\<lambda>r. case r of
     Notice n \<Rightarrow> block
       [set_h (\<lambda>v. v\<lparr>pt_notice := Some n\<rparr>),
        if_h (\<not> nt_is_read n) (bind_h (ask (Read_notice (pt_token s0) itemId)) (\<lambda>x. case x of
          Notice m \<Rightarrow> block [set_h (\<lambda>v. v\<lparr>pt_notice := Some m\<rparr>), loadHomeNotices (pt_token s0)]
        | _ \<Rightarrow> give ()))]
   | _ \<Rightarrow> give ())"

section \<open>The session\<close>

definition logout :: "portal \<Rightarrow> portal" where
  "logout v = v\<lparr>pt_stored := [], pt_token := [], pt_me := None\<rparr>"

definition session_failed :: "portal \<Rightarrow> portal" where
  "session_failed v = (logout v)\<lparr>pt_translation := None, pt_error := True\<rparr>"

definition clear_session :: "portal \<Rightarrow> portal" where
  \<comment> \<open>of what the effect resets, the part that is in this state\<close>
  "clear_session v = drop_header (no_room
     (v\<lparr>pt_applied := [], pt_me := None, pt_translation := None, pt_delivery := None, mg_rooms := [], mg_error := False\<rparr>))"

definition mount :: "portal \<Rightarrow> portal" where
  "mount v = (if pt_stored v \<noteq> [] then v\<lparr>pt_token := pt_stored v\<rparr> else v)"

definition check_session :: "portal \<Rightarrow> unit portal_handler" where
  "check_session s0 =
     (if pt_token s0 = [] then set_h clear_session
      else void (try_catch
        (bind_h (ask (Fetch_me (pt_token s0))) (\<lambda>r. case r of Me u \<Rightarrow> set_h (\<lambda>v. v\<lparr>pt_me := Some u\<rparr>) | _ \<Rightarrow> give ()))
        (\<lambda>e. set_h session_failed)))"

definition reload_work :: "portal \<Rightarrow> unit portal_handler" where
  \<comment> \<open>\<open>reload\<close>, whose documents and notifications belong to other components\<close>
  "reload_work s0 = if_h (pt_token s0 \<noteq> []) (bind_h (ask (Load_work (pt_token s0))) (\<lambda>_. give ()))"

definition start_session :: "portal \<Rightarrow> unit portal_handler" where
  \<comment> \<open>the two loads of the home page run side by side; the marks of their common end are left out\<close>
  "start_session s0 = if_h (signed_in s0) (block
     [void (try_catch (reload_work s0) (\<lambda>e. set_h (\<lambda>v. v\<lparr>pt_error := True\<rparr>))),
      void (bind_h (ask (Load_mail (pt_token s0))) (\<lambda>_. give ())),
      void (bind_h (ask (Load_storage (pt_token s0))) (\<lambda>_. give ())),
      void (loadMessengerWorkspace s0 (pt_token s0)),
      void (loadHomeSchedules (pt_token s0)),
      void (loadHomeNotices (pt_token s0)),
      void (loadTranslationState (pt_token s0)),
      void (refreshMailDeliveryState (pt_token s0))])"

definition apply_preferences :: "portal \<Rightarrow> unit portal_handler" where
  "apply_preferences s0 = if_h (signed_in s0 \<and> pt_applied s0 \<noteq> pt_token s0) (block
     [set_h (\<lambda>v. v\<lparr>pt_applied := pt_token s0\<rparr>),
      void (try_catch
        (bind_h (ask (Fetch_preferences (pt_token s0))) (\<lambda>r. case r of
           Start_preferences p \<Rightarrow> set_h (\<lambda>v. v\<lparr>pt_locale := sp_locale p, pt_timezone := sp_timezone p, pt_menu := sp_startPage p\<rparr>)
         | _ \<Rightarrow> give ()))
        (\<lambda>e. set_h (\<lambda>v. v\<lparr>pt_applied := []\<rparr>)))])"

definition show_header :: "portal \<Rightarrow> unit portal_handler" where
  "show_header s0 = if_h (signed_in s0) (void (try_catch (refreshHeaderProfile s0) (\<lambda>e. set_h drop_header)))"

definition buildCompanyLoginEmail :: "js_env \<Rightarrow> jstring \<Rightarrow> jstring \<Rightarrow> jstring" where
  "buildCompanyLoginEmail E loginId companyDomain =
     js_lower E (js_trim loginId) @ lit ''@'' @ js_lower E (js_trim companyDomain)"

definition handleLogin :: "js_env \<Rightarrow> jstring \<Rightarrow> portal \<Rightarrow> unit portal_handler" where
  \<comment> \<open>with the domain of the company\<close>
  "handleLogin E domain s0 = block
     [set_h (\<lambda>v. v\<lparr>pt_loading := True, pt_error := False\<rparr>),
      finally_do
        (try_catch
          (if 64 \<in> set (lf_loginId (pt_login s0)) then set_h (\<lambda>v. v\<lparr>pt_error := True\<rparr>)
           else bind_h (ask (Login (buildCompanyLoginEmail E (lf_loginId (pt_login s0)) domain) (lf_password (pt_login s0)))) (\<lambda>r. case r of
             Logged_in t u \<Rightarrow> block
               [set_h (\<lambda>v. v\<lparr>pt_stored := t, pt_token := t, pt_me := Some u\<rparr>),
                if us_mustChangePassword u then
                  set_h (\<lambda>v. v\<lparr>pt_change := \<lparr>ch_current = lf_password (pt_login s0), ch_new = [], ch_confirm = []\<rparr>\<rparr>)
                else block [loadTranslationState t, refreshMailDeliveryState t, reload_work s0]]
           | _ \<Rightarrow> give ()))
          (\<lambda>e. set_h (\<lambda>v. v\<lparr>pt_error := True\<rparr>)))
        (set_h (\<lambda>v. v\<lparr>pt_loading := False\<rparr>))]"

definition password_changed :: "portal \<Rightarrow> session_user \<Rightarrow> portal \<Rightarrow> portal" where
  "password_changed s0 u v = v\<lparr>pt_me := Some u, pt_login := \<lparr>lf_loginId = lf_loginId (pt_login s0), lf_password = ch_new (pt_change s0)\<rparr>,
     pt_change := \<lparr>ch_current = [], ch_new = [], ch_confirm = []\<rparr>\<rparr>"

definition handleForcedPasswordChange :: "portal \<Rightarrow> unit portal_handler" where
  "handleForcedPasswordChange s0 = if_h (pt_token s0 \<noteq> [] \<and> pt_me s0 \<noteq> None)
     (if ch_new (pt_change s0) \<noteq> ch_confirm (pt_change s0) then set_h (\<lambda>v. v\<lparr>pt_error := True\<rparr>)
      else block
       [set_h (\<lambda>v. v\<lparr>pt_loading := True, pt_error := False\<rparr>),
        finally_do
          (try_catch
            (bind_h (ask (Change_password (pt_token s0) (ch_current (pt_change s0)) (ch_new (pt_change s0)))) (\<lambda>r. case r of
               Me u \<Rightarrow> block
                 [set_h (password_changed s0 u), loadTranslationState (pt_token s0), refreshMailDeliveryState (pt_token s0), reload_work s0]
             | _ \<Rightarrow> give ()))
            (\<lambda>e. set_h (\<lambda>v. v\<lparr>pt_error := True\<rparr>)))
          (set_h (\<lambda>v. v\<lparr>pt_loading := False\<rparr>))])"

section \<open>All handlers\<close>

datatype portal_event =
    Mount
  | Check_session
  | Start_session
  | Apply_preferences
  | Show_header
  | Write_login login_form
  | Log_in
  | Write_change password_form
  | Force_change
  | Log_out
  | Quit_change
  | Open_notice jstring
  | Select_room jstring bool
  | Write_message jstring
  | Send
  | Open_lifecycle lifecycle
  | Close_lifecycle bool
  | Choose_owner jstring
  | Confirm_lifecycle

fun portal_handler :: "js_env \<Rightarrow> jstring \<Rightarrow> portal_event \<Rightarrow> portal \<Rightarrow> unit portal_handler" where
  \<comment> \<open>what is in the views of the portal can be used where they are shown\<close>
  "portal_handler E domain Mount s = set_h mount"
| "portal_handler E domain Check_session s = check_session s"
| "portal_handler E domain Start_session s = start_session s"
| "portal_handler E domain Apply_preferences s = apply_preferences s"
| "portal_handler E domain Show_header s = show_header s"
| "portal_handler E domain (Write_login f) s = set_h (\<lambda>v. v\<lparr>pt_login := f\<rparr>)"
| "portal_handler E domain Log_in s = handleLogin E domain s"
| "portal_handler E domain (Write_change f) s = set_h (\<lambda>v. v\<lparr>pt_change := f\<rparr>)"
| "portal_handler E domain Force_change s = handleForcedPasswordChange s"
| "portal_handler E domain Log_out s = set_h logout"
| "portal_handler E domain Quit_change s = set_h (\<lambda>v. (logout v)\<lparr>pt_change := \<lparr>ch_current = [], ch_new = [], ch_confirm = []\<rparr>\<rparr>)"
| "portal_handler E domain (Open_notice i) s = if_h (signed_in s) (open_notice s i)"
| "portal_handler E domain (Select_room r m) s = if_h (signed_in s) (selectMessengerRoom (pt_token s) r m)"
| "portal_handler E domain (Write_message b) s = set_h (\<lambda>v. v\<lparr>mg_draft := b\<rparr>)"
| "portal_handler E domain Send s = if_h (\<not> mg_loading s) (handleMessengerSend s)"
| "portal_handler E domain (Open_lifecycle a) s = set_h (open_lifecycle a)"
| "portal_handler E domain (Close_lifecycle cancel) s = set_h (\<lambda>v. v\<lparr>mg_action := No_action, mg_owner := (if cancel then mg_owner v else [])\<rparr>)"
| "portal_handler E domain (Choose_owner u) s = set_h (\<lambda>v. v\<lparr>mg_owner := u\<rparr>)"
| "portal_handler E domain Confirm_lifecycle s = confirm_lifecycle s"

definition portal_handlers :: "js_env \<Rightarrow> jstring \<Rightarrow> portal_event \<Rightarrow> portal \<Rightarrow> (portal_call, unit + portal_reply, portal) process" where
  "portal_handlers E domain i s = start (portal_handler E domain i s)"

section \<open>What the handlers keep\<close>

definition photos :: "portal \<Rightarrow> jstring list" where
  "photos v = pt_freed v @ (if pt_photo v \<noteq> [] then [pt_photo v] else [])"

definition portal_ok :: "portal \<Rightarrow> bool" where
  \<comment> \<open>the token is the stored one; room, detail and messages belong together; every photo URL is revoked once or is the one shown\<close>
  "portal_ok v \<longleftrightarrow> (pt_token v \<noteq> [] \<longrightarrow> pt_stored v = pt_token v)
     \<and> (\<forall>d\<in>set_option (mg_detail v). rd_roomId d = mg_selected v) \<and> list_all (\<lambda>m. ms_roomId m = mg_selected v) (mg_messages v)
     \<and> pt_photo_shown v = pt_photo v \<and> distinct (photos v) \<and> pt_made v = set (photos v)"

fun portal_answers :: "portal \<Rightarrow> portal_call \<Rightarrow> unit + portal_reply \<Rightarrow> bool" where
  \<comment> \<open>a room is answered with its own messages, a login with a token, and object URLs are new\<close>
  "portal_answers v (Get_room t r) (Inr x) = (case x of Room d ms \<Rightarrow> rd_roomId d = r \<and> list_all (\<lambda>m. ms_roomId m = r) ms | _ \<Rightarrow> True)"
| "portal_answers v (Get_photo t) (Inr x) = (case x of Photo u \<Rightarrow> u \<notin> pt_made v | _ \<Rightarrow> True)"
| "portal_answers v (Login e p) (Inr x) = (case x of Logged_in t u \<Rightarrow> t \<noteq> [] | _ \<Rightarrow> True)"
| "portal_answers v c r = True"

definition portal_guard :: "js_env \<Rightarrow> jstring \<Rightarrow> portal \<Rightarrow> portal_call \<Rightarrow> bool" where
  "portal_guard E domain v c \<longleftrightarrow> portal_token c \<noteq> Some [] \<and>
     (case c of
        Login e p \<Rightarrow> 64 \<notin> set (lf_loginId (pt_login v)) \<and> e = buildCompanyLoginEmail E (lf_loginId (pt_login v)) domain \<and> p = lf_password (pt_login v)
      | Change_password t old new \<Rightarrow> old = ch_current (pt_change v) \<and> new = ch_new (pt_change v) \<and> new = ch_confirm (pt_change v)
      | Send_message t r b \<Rightarrow> r = mg_selected v \<and> r \<noteq> [] \<and> b = js_trim (mg_draft v) \<and> b \<noteq> []
      | Transfer_room t r u a \<Rightarrow> mg_action v = Transfer_owner \<and> u = mg_owner v \<and> u \<noteq> [] \<and> r = mg_selected v
          \<and> (\<exists>d\<in>set_option (mg_detail v). rd_roomId d = r \<and> rd_updatedAt d = a)
      | Exit_room t r \<Rightarrow> mg_action v = Leave_room \<and> r = mg_selected v \<and> r \<noteq> []
      | Remove_room t r \<Rightarrow> mg_action v = Delete_room \<and> r = mg_selected v \<and> r \<noteq> []
      | _ \<Rightarrow> True)"

abbreviation anything :: "portal \<Rightarrow> portal \<Rightarrow> bool" where
  "anything \<equiv> \<lambda>v w. True"

abbreviation portal_keeps :: "js_env \<Rightarrow> jstring \<Rightarrow> 'a portal_handler \<Rightarrow> bool" where
  "portal_keeps E domain h \<equiv> keeps portal_ok anything portal_answers (portal_guard E domain) (\<lambda>v. True) h (\<lambda>x. True)"

abbreviation portal_from :: "js_env \<Rightarrow> jstring \<Rightarrow> (portal \<Rightarrow> bool) \<Rightarrow> 'a portal_handler \<Rightarrow> bool" where
  "portal_from E domain P h \<equiv> keeps_from portal_ok anything portal_answers (portal_guard E domain) P (\<lambda>v. True) h (\<lambda>x. True)"

lemmas portal_simps = portal_ok_def portal_guard_def photos_def messenger_begin_def show_room_def no_room_def room_read_def
  drop_photo_def drop_header_def header_shown_def logout_def session_failed_def clear_session_def mount_def password_changed_def
  open_lifecycle_def

lemma portal_set: "(\<And>v. portal_ok v \<Longrightarrow> portal_ok (f v)) \<Longrightarrow> portal_keeps E domain (set_h f)"
  by (rule keeps_set) auto

lemma portal_ask:
  assumes "\<And>v. portal_ok v \<Longrightarrow> portal_guard E domain v c" "\<And>r v. portal_answers v c (Inr r) \<Longrightarrow> portal_keeps E domain (f r)"
  shows "portal_keeps E domain (bind_h (ask c) f)"
  by (rule keeps_ask_then) (use assms in auto)

lemma portal_rules:
  "portal_keeps E domain (give x)"
  "(b \<Longrightarrow> portal_keeps E domain h) \<Longrightarrow> portal_keeps E domain (if_h b h)"
  "portal_keeps E domain h \<Longrightarrow> portal_keeps E domain (void h)"
  "portal_keeps E domain (block [])"
  "portal_keeps E domain h \<Longrightarrow> portal_keeps E domain (block hs) \<Longrightarrow> portal_keeps E domain (block (h # hs))"
  by (auto intro: keeps_give keeps_if keeps_void keeps_block simp del: block.simps(2))

lemma messenger_marks: "portal_keeps E domain messenger_end" "portal_keeps E domain messenger_error"
  by (auto simp: messenger_end_def messenger_error_def portal_simps intro!: portal_set)

lemmas portal_intros = portal_rules portal_set portal_ask keeps_finally keeps_try messenger_marks

lemma workspace_keeps: "t \<noteq> [] \<Longrightarrow> portal_keeps E domain (loadMessengerWorkspace s0 t)"
  unfolding loadMessengerWorkspace_def
  by (auto simp: portal_simps simp del: block.simps split: portal_reply.splits if_splits intro!: portal_intros)

lemma select_room_keeps: "t \<noteq> [] \<Longrightarrow> portal_keeps E domain (selectMessengerRoom t r b)"
  unfolding selectMessengerRoom_def
  by (auto simp: portal_simps list_all_iff simp del: block.simps split: portal_reply.splits if_splits intro!: portal_intros)

lemma photo_keeps:
  assumes "t \<noteq> []"
  shows "portal_keeps E domain (bind_h (ask (Get_photo t)) (\<lambda>x. set_h (case x of Photo u \<Rightarrow> header_shown p u | _ \<Rightarrow> id)))"
  by (rule keeps_ask_set) (use assms in \<open>auto simp: portal_simps split: portal_reply.splits if_splits\<close>)

lemma header_keeps: "portal_keeps E domain (refreshHeaderProfile s0)"
  unfolding refreshHeaderProfile_def
  by (intro portal_rules(2) portal_ask)
    (auto simp: portal_simps split: portal_reply.split intro!: photo_keeps portal_set portal_rules(1))

lemma loads_keep:
  "t \<noteq> [] \<Longrightarrow> portal_keeps E domain (loadTranslationState t)"
  "portal_keeps E domain (refreshMailDeliveryState t)"
  "t \<noteq> [] \<Longrightarrow> portal_keeps E domain (loadHomeSchedules t)"
  "t \<noteq> [] \<Longrightarrow> portal_keeps E domain (loadHomeNotices t)"
  "portal_keeps E domain (reload_work s0)"
  unfolding loadTranslationState_def refreshMailDeliveryState_def loadHomeSchedules_def loadHomeNotices_def reload_work_def
  by (auto simp: portal_simps simp del: block.simps split: portal_reply.splits intro!: portal_intros)

lemma session_keeps:
  "portal_keeps E domain (check_session s0)"
  "portal_keeps E domain (start_session s0)"
  "portal_keeps E domain (apply_preferences s0)"
  "portal_keeps E domain (show_header s0)"
  "pt_token s0 \<noteq> [] \<Longrightarrow> portal_keeps E domain (open_notice s0 i)"
  unfolding check_session_def start_session_def apply_preferences_def show_header_def open_notice_def
  by (auto simp: portal_simps signed_in_def simp del: block.simps split: portal_reply.splits
      intro!: portal_intros loads_keep workspace_keeps header_keeps)

lemma portal_request:
  assumes "\<And>v. portal_ok v \<Longrightarrow> P v \<Longrightarrow> portal_ok (f v) \<and> P' (f v)" "\<And>v. portal_ok v \<Longrightarrow> P' v \<Longrightarrow> portal_guard E domain v c"
    and "\<And>v r. portal_answers v c (Inr r) \<Longrightarrow> portal_keeps E domain (k r)" "\<And>e. portal_keeps E domain (failed e)" "portal_keeps E domain fin"
  shows "portal_from E domain P (block [set_h f, finally_do (try_catch (bind_h (ask c) k) failed) fin])"
  by (rule from_request [where P' = P']) (use assms in auto)

lemma portal_from_keeps: "portal_keeps E domain h \<Longrightarrow> portal_from E domain P h"
  by (rule from_keeps) auto

lemma portal_from_if: "(b \<Longrightarrow> portal_from E domain P h) \<Longrightarrow> portal_from E domain P (if_h b h)"
  by (cases b) (auto simp: if_h_def intro: portal_from_keeps portal_rules)

lemma send_from: "portal_from E domain (\<lambda>v. v = s) (handleMessengerSend s)"
  unfolding handleMessengerSend_def
  by (rule portal_from_if, rule portal_request [where P' = "\<lambda>v. mg_selected v = mg_selected s \<and> mg_draft v = mg_draft s"])
    (auto simp: portal_simps simp del: block.simps intro!: portal_rules portal_set messenger_marks select_room_keeps)

lemma portal_from_simple: "portal_from E domain P (give x)" "(\<And>v. portal_ok v \<Longrightarrow> portal_ok (f v)) \<Longrightarrow> portal_from E domain P (set_h f)"
  by (auto intro: portal_from_keeps portal_rules portal_set)

lemma transfer_from:
  assumes "mg_action s = Transfer_owner" "portal_ok s"
  shows "portal_from E domain (\<lambda>v. v = s) (handleMessengerOwnerTransfer s)"
proof (cases "mg_detail s")
  case None
  then show ?thesis by (simp add: handleMessengerOwnerTransfer_def portal_from_simple)
next
  case (Some d)
  have d: "rd_roomId d = mg_selected s" using assms(2) Some by (simp add: portal_ok_def)
  show ?thesis
    unfolding handleMessengerOwnerTransfer_def Some option.case
    by (rule portal_from_if, rule portal_request [where P' = "\<lambda>v. mg_detail v = Some d \<and> mg_action v = Transfer_owner \<and> mg_owner v = mg_owner s \<and> mg_selected v = mg_selected s"])
      (use assms(1) Some d in \<open>auto simp: portal_simps simp del: block.simps intro!: portal_rules portal_set messenger_marks select_room_keeps\<close>)
qed

lemma end_of_room_from:
  assumes "mg_action s = Leave_room \<and> c = Exit_room (pt_token s) (mg_selected s) \<or> mg_action s = Delete_room \<and> c = Remove_room (pt_token s) (mg_selected s)"
  shows "portal_from E domain (\<lambda>v. v = s) (end_of_room s c)"
  unfolding end_of_room_def
  by (rule portal_from_if, rule portal_request [where P' = "\<lambda>v. mg_selected v = mg_selected s \<and> mg_action v = mg_action s"])
    (use assms in \<open>auto simp: portal_simps simp del: block.simps intro!: portal_rules portal_set messenger_marks workspace_keeps\<close>)

lemma confirm_from: "portal_ok s \<Longrightarrow> portal_from E domain (\<lambda>v. v = s) (confirm_lifecycle s)"
  unfolding confirm_lifecycle_def handleMessengerLeave_def handleMessengerDelete_def
  by (cases "mg_action s") (auto intro!: portal_from_if transfer_from end_of_room_from portal_from_simple)

lemma login_from: "portal_from E domain (\<lambda>v. v = s) (handleLogin E domain s)"
proof (cases "64 \<in> set (lf_loginId (pt_login s))")
  case True
  have "portal_keeps E domain (handleLogin E domain s)"
    unfolding handleLogin_def
    using True by (auto simp: portal_simps simp del: block.simps intro!: portal_intros)
  then show ?thesis by (rule portal_from_keeps)
next
  case False
  then show ?thesis
    unfolding handleLogin_def if_not_P [OF False]
    by (intro portal_request [where P' = "\<lambda>v. pt_login v = pt_login s"])
      (auto simp: portal_simps simp del: block.simps split: portal_reply.splits intro!: portal_rules portal_set loads_keep)
qed

lemma change_from: "portal_from E domain (\<lambda>v. v = s) (handleForcedPasswordChange s)"
proof (cases "ch_new (pt_change s) = ch_confirm (pt_change s)")
  case True
  then show ?thesis
    unfolding handleForcedPasswordChange_def
    by (auto simp: portal_simps simp del: block.simps split: portal_reply.splits
        intro!: portal_from_if portal_request [where P' = "\<lambda>v. pt_change v = pt_change s"] portal_rules(1,4,5) portal_set loads_keep)
next
  case False
  then show ?thesis
    unfolding handleForcedPasswordChange_def
    by (auto simp: portal_simps intro!: portal_from_if portal_from_simple)
qed

lemma updates_ok:
  assumes "portal_ok v"
  shows "portal_ok (mount v)" "portal_ok (logout v)" "portal_ok (open_lifecycle a v)"
proof -
  show "portal_ok (mount v)" "portal_ok (logout v)" using assms by (auto simp: portal_simps split: if_splits)
  show "portal_ok (open_lifecycle a v)"
    using assms by (cases a; cases "mg_detail v") (auto simp: portal_ok_def photos_def open_lifecycle_def)
qed

lemma portal_handler_from: "portal_ok s \<Longrightarrow> portal_from E domain (\<lambda>v. v = s) (portal_handler E domain i s)"
  by (cases i)
    (auto simp: signed_in_def updates_ok simp del: block.simps
      intro!: send_from confirm_from login_from change_from portal_from_if portal_from_simple
        portal_from_keeps [OF session_keeps(1)] portal_from_keeps [OF session_keeps(2)] portal_from_keeps [OF session_keeps(3)]
        portal_from_keeps [OF session_keeps(4)] portal_from_keeps [OF session_keeps(5)] portal_from_keeps [OF select_room_keeps],
      auto simp: portal_ok_def photos_def logout_def)

interpretation portal_system: handler_system "portal_handlers E domain" portal_ok anything portal_answers "\<lambda>_. portal_guard E domain"
proof
  fix s i
  assume s: "portal_ok s"
  show "safe portal_ok anything portal_answers (portal_guard E domain) (portal_handlers E domain i s) (settled portal_ok anything) s s"
    unfolding portal_handlers_def by (rule from_start [OF portal_handler_from [OF s]]) (use s in auto)
qed auto

section \<open>Properties\<close>

definition new_portal :: "jstring \<Rightarrow> portal" where
  \<comment> \<open>the state at the start, with the token of the local storage; locale and time zone, which come from there, too, are empty here\<close>
  "new_portal stored =
     \<lparr>pt_stored = stored, pt_token = [], pt_me = None, pt_header = None, pt_photo = [], pt_photo_shown = [], pt_applied = [],
      pt_locale = [], pt_timezone = [], pt_menu = lit ''home'', pt_translation = None, pt_delivery = None,
      pt_login = \<lparr>lf_loginId = [], lf_password = []\<rparr>, pt_change = \<lparr>ch_current = [], ch_new = [], ch_confirm = []\<rparr>, pt_loading = False,
      pt_error = False, pt_schedules = [], pt_notices = [], pt_notice = None, mg_rooms = [], mg_selected = [], mg_detail = None,
      mg_messages = [], mg_draft = [], mg_loading = False, mg_error = False, mg_action = No_action, mg_owner = [],
      pt_made = {}, pt_freed = []\<rparr>"

lemma new_portal_ok: "portal_ok (new_portal stored)"
  by (simp add: new_portal_def portal_ok_def photos_def)

text \<open>C38. Whatever the handlers of the session and the messenger and the answers interleave to, every request but the login
  carries a token; the login is for an identifier without an at sign, in the domain of the company; a password changes to
  the one that was confirmed; a message is sent to the room that is shown, and not blank; a room changes hands only where the
  popup for that is open, to the owner chosen there, for the room that is shown and with the version of that very room; it is
  left or deleted only where the popup for that is open, and then the room that is shown, for which no version is sent: it
  need not be the room the popup was opened for (\<open>other_room_removed\<close>).\<close>

theorem portal_requests_checked:
  assumes "reached (portal_handlers E domain) portal_answers (idle (new_portal stored)) m" "(v, c) \<in> set (mc_sent m)"
  shows "portal_token c \<noteq> Some []
    \<and> (\<forall>e p. c = Login e p \<longrightarrow> 64 \<notin> set (lf_loginId (pt_login v)) \<and> e = buildCompanyLoginEmail E (lf_loginId (pt_login v)) domain)
    \<and> (\<forall>t old new. c = Change_password t old new \<longrightarrow> new = ch_confirm (pt_change v))
    \<and> (\<forall>t r b. c = Send_message t r b \<longrightarrow> r = mg_selected v \<and> b \<noteq> [] \<and> b = js_trim (mg_draft v))
    \<and> (\<forall>t r u a. c = Transfer_room t r u a \<longrightarrow> mg_action v = Transfer_owner \<and> u = mg_owner v \<and> u \<noteq> [] \<and> r = mg_selected v
         \<and> (\<exists>d. mg_detail v = Some d \<and> rd_roomId d = r \<and> rd_updatedAt d = a))
    \<and> (\<forall>t r. c = Exit_room t r \<longrightarrow> mg_action v = Leave_room \<and> r = mg_selected v)
    \<and> (\<forall>t r. c = Remove_room t r \<longrightarrow> mg_action v = Delete_room \<and> r = mg_selected v)"
proof -
  have "portal_guard E domain v c" by (rule portal_system.sent [OF assms(1) new_portal_ok assms(2)])
  then show ?thesis by (auto simp: portal_guard_def)
qed

definition member :: session_user where
  "member = \<lparr>us_id = lit ''u'', us_mustChangePassword = False\<rparr>"

definition chat :: "jstring \<Rightarrow> room_detail" where
  "chat r = \<lparr>rd_roomId = r, rd_createdByUserId = lit ''u'', rd_participants = [lit ''u'', lit ''w''], rd_canLeave = True, rd_canDelete = True,
     rd_updatedAt = lit ''v1''\<rparr>"

definition room_handed_over :: "(portal_event, unit + portal_reply) event list" where
  \<comment> \<open>a room is opened, and its owner hands it to the other member\<close>
  "room_handed_over = [Invoke Mount, Invoke Check_session, Answer 0 (Inr (Me member)), Invoke (Select_room (lit ''a'') False),
     Answer 0 (Inr (Room (chat (lit ''a'')) [])), Invoke (Open_lifecycle Transfer_owner), Invoke Confirm_lifecycle]"

lemmas portal_run = proceed_def portal_handlers_def handler_defs idle_def drop_at_def answered_by_def mount_def check_session_def signed_in_def
  selectMessengerRoom_def messenger_begin_def messenger_end_def messenger_error_def show_room_def no_room_def new_portal_def member_def chat_def

lemma owner_changed:
  "\<exists>m v. advances (portal_handlers E domain) room_handed_over (idle (new_portal (lit ''t''))) = Some m
     \<and> answered_all (portal_handlers E domain) portal_answers room_handed_over (idle (new_portal (lit ''t'')))
     \<and> (v, Transfer_room (lit ''t'') (lit ''a'') (lit ''w'') (lit ''v1'')) \<in> set (mc_sent m)"
  by (simp add: room_handed_over_def portal_run open_lifecycle_def confirm_lifecycle_def handleMessengerOwnerTransfer_def lit_def)

theorem portal_requests_checked_witness:
  "\<exists>v m. reached (portal_handlers undefined []) portal_answers (idle (new_portal (lit ''t''))) m
     \<and> (v, Transfer_room (lit ''t'') (lit ''a'') (lit ''w'') (lit ''v1'')) \<in> set (mc_sent m) \<and> mg_action v = Transfer_owner \<and> mg_owner v = lit ''w''"
proof -
  obtain m v where m: "advances (portal_handlers undefined []) room_handed_over (idle (new_portal (lit ''t''))) = Some m"
      "answered_all (portal_handlers undefined []) portal_answers room_handed_over (idle (new_portal (lit ''t'')))"
    and v: "(v, Transfer_room (lit ''t'') (lit ''a'') (lit ''w'') (lit ''v1'')) \<in> set (mc_sent m)"
    using owner_changed by blast
  from portal_requests_checked [OF advances_from [OF m] v] have "mg_action v = Transfer_owner \<and> mg_owner v = lit ''w''" by simp
  with v advances_from [OF m] show ?thesis by blast
qed

text \<open>The popup for deleting a room may delete another one: the room that is shown when it is confirmed.\<close>

definition rooms_cross :: "(portal_event, unit + portal_reply) event list" where
  \<comment> \<open>two rooms are opened one after the other, the second answers first, and is to be deleted when the first answers\<close>
  "rooms_cross = [Invoke Mount, Invoke Check_session, Answer 0 (Inr (Me member)), Invoke (Select_room (lit ''a'') False),
     Invoke (Select_room (lit ''b'') False), Answer 1 (Inr (Room (chat (lit ''b'')) [])), Invoke (Open_lifecycle Delete_room),
     Answer 0 (Inr (Room (chat (lit ''a'')) [])), Invoke Confirm_lifecycle]"

lemma other_room_removed:
  "\<exists>m v. advances (portal_handlers E domain) rooms_cross (idle (new_portal (lit ''t''))) = Some m
     \<and> answered_all (portal_handlers E domain) portal_answers rooms_cross (idle (new_portal (lit ''t'')))
     \<and> (v, Remove_room (lit ''t'') (lit ''a'')) \<in> set (mc_sent m)"
  by (simp add: rooms_cross_def portal_run open_lifecycle_def confirm_lifecycle_def handleMessengerDelete_def end_of_room_def)

text \<open>C39. In every interleaving the token is the one that is stored, the room that is selected, its details and its messages
  are of one room, and the photo in the header is never one whose URL has been revoked: each URL that was made is either
  shown or revoked, and revoked once.\<close>

theorem portal_state_kept:
  assumes "reached (portal_handlers E domain) portal_answers (idle (new_portal stored)) m" "v = mc_view m"
  shows "(pt_token v \<noteq> [] \<longrightarrow> pt_stored v = pt_token v)
    \<and> (\<forall>d. mg_detail v = Some d \<longrightarrow> rd_roomId d = mg_selected v) \<and> (\<forall>x\<in>set (mg_messages v). ms_roomId x = mg_selected v)
    \<and> pt_photo_shown v \<notin> set (pt_freed v) - {[]} \<and> distinct (pt_freed v)
    \<and> pt_made v = set (pt_freed v) \<union> ({pt_photo_shown v} - {[]})"
proof -
  have "portal_ok v" using portal_system.always [OF assms(1) new_portal_ok] assms(2) by simp
  then show ?thesis by (auto simp: portal_ok_def photos_def list_all_iff split: if_splits)
qed

definition photo_twice :: "(portal_event, unit + portal_reply) event list" where
  \<comment> \<open>the profile is loaded twice, and the photo asked for first arrives last\<close>
  "photo_twice = [Invoke Mount, Invoke Check_session, Answer 0 (Inr (Me member)), Invoke Show_header, Invoke Show_header,
     Answer 0 (Inr (Profile \<lparr>wp_name = [], wp_photoAvailable = True\<rparr>)), Answer 0 (Inr (Profile \<lparr>wp_name = [], wp_photoAvailable = True\<rparr>)),
     Answer 1 (Inr (Photo (lit ''blob:2''))), Answer 0 (Inr (Photo (lit ''blob:1'')))]"

lemma photo_twice_runs:
  "\<exists>m. advances (portal_handlers E domain) photo_twice (idle (new_portal (lit ''t''))) = Some m
     \<and> answered_all (portal_handlers E domain) portal_answers photo_twice (idle (new_portal (lit ''t'')))
     \<and> pt_photo_shown (mc_view m) = lit ''blob:1'' \<and> pt_freed (mc_view m) = [lit ''blob:2''] \<and> pt_token (mc_view m) \<noteq> []"
  by (simp add: photo_twice_def portal_run show_header_def refreshHeaderProfile_def header_shown_def drop_photo_def)

theorem portal_state_kept_witness:
  "\<exists>m. reached (portal_handlers undefined []) portal_answers (idle (new_portal (lit ''t''))) m
     \<and> pt_stored (mc_view m) = pt_token (mc_view m) \<and> pt_made (mc_view m) = {lit ''blob:1'', lit ''blob:2''}"
proof -
  obtain m where m: "advances (portal_handlers undefined []) photo_twice (idle (new_portal (lit ''t''))) = Some m"
      "answered_all (portal_handlers undefined []) portal_answers photo_twice (idle (new_portal (lit ''t'')))"
    and p: "pt_photo_shown (mc_view m) = lit ''blob:1''" "pt_freed (mc_view m) = [lit ''blob:2'']" "pt_token (mc_view m) \<noteq> []"
    using photo_twice_runs by blast
  from portal_state_kept [OF advances_from [OF m] refl] p advances_from [OF m] show ?thesis by (auto intro!: exI [of _ m])
qed

section \<open>What the handlers do not order\<close>

definition two_users :: "(portal_event, unit + portal_reply) event list" where
  \<comment> \<open>a user logs in and opens a room, logs out, another one logs in, and then the answers for the first arrive\<close>
  "two_users = [Invoke Mount, Invoke Check_session, Answer 0 (Inr (Me member)), Invoke Check_session, Invoke (Select_room (lit ''a'') False),
     Invoke Log_out, Invoke Check_session, Invoke Log_in,
     Answer 2 (Inr (Logged_in (lit ''s'') \<lparr>us_id = lit ''w'', us_mustChangePassword = False\<rparr>)),
     Answer 0 (Inr (Me member)), Answer 0 (Inr (Room (chat (lit ''a'')) []))]"

lemma late_answers_of_earlier_user:
  "\<exists>m. advances (portal_handlers E domain) two_users (idle (new_portal (lit ''t''))) = Some m
     \<and> answered_all (portal_handlers E domain) portal_answers two_users (idle (new_portal (lit ''t'')))
     \<and> pt_token (mc_view m) = lit ''s'' \<and> pt_me (mc_view m) = Some member \<and> mg_detail (mc_view m) = Some (chat (lit ''a''))"
  by (simp add: two_users_def portal_run logout_def clear_session_def drop_header_def drop_photo_def handleLogin_def
      loadTranslationState_def refreshMailDeliveryState_def reload_work_def)

end
