(* ===== verification/Js_Exclusive.thy ===== *)
theory Js_Exclusive
  imports Js_Async
begin

text \<open>
  Handlers that exclude each other by a mark in the state: a handler returns where the mark is set, sets it otherwise, sends
  its requests, and removes it in a \<open>finally\<close>. The conditions on a handler are a recursive function over its process, as
  \<open>safe\<close> is; the locale \<open>exclusive_handlers\<close> concludes that of the requests under the mark at most one is pending.
\<close>

section \<open>Conditions\<close>

primrec excl :: "('s \<Rightarrow> bool) \<Rightarrow> ('c \<Rightarrow> bool) \<Rightarrow> ('c, 'r, 's) process \<Rightarrow> bool \<Rightarrow> 's \<Rightarrow> bool" where
  \<comment> \<open>a process that holds the mark \<open>f\<close> or not: it sends requests under the mark only while it holds it, takes it only where
     it is free, and removes it only where it is its own\<close>
  "excl f M Halt own s \<longleftrightarrow> \<not> own"
| "excl f M (Await c k) own s \<longleftrightarrow> (M c \<longrightarrow> own) \<and> (\<forall>r t. (own \<longrightarrow> f t) \<longrightarrow> excl f M (k r) own t)"
| "excl f M (Look k) own s \<longleftrightarrow> excl f M (k s) own s"
| "excl f M (Change g p) own s \<longleftrightarrow> (own \<or> \<not> f s \<or> f (g s)) \<and> excl f M p (if f (g s) = f s then own else f (g s)) (g s)"
| "excl f M (Spawn c k p) own s \<longleftrightarrow> \<not> M c \<and> (\<forall>r t. excl f M (k r) False t) \<and> excl f M p own s"

definition holds_over :: "('s \<Rightarrow> bool) \<Rightarrow> ('c \<Rightarrow> bool) \<Rightarrow> bool \<Rightarrow> ('c, 'e, 'v, 's, 'a) handler \<Rightarrow> bool \<Rightarrow> bool" where
  \<comment> \<open>a handler that starts with the mark or without it and ends so\<close>
  "holds_over f M o1 h o2 \<longleftrightarrow>
     (\<forall>ok err s. (o1 \<longrightarrow> f s) \<longrightarrow> (\<forall>x t. (o2 \<longrightarrow> f t) \<longrightarrow> excl f M (ok x) o2 t) \<longrightarrow> (\<forall>e t. (o2 \<longrightarrow> f t) \<longrightarrow> excl f M (err e) o2 t)
        \<longrightarrow> excl f M (h ok err) o1 s)"

lemma holds_overI:
  fixes h :: "('c, 'e, 'v, 's, 'a) handler"
  assumes "\<And>(ok::'a \<Rightarrow> ('c, 'e + 'v, 's) process) (err::'e \<Rightarrow> ('c, 'e + 'v, 's) process) s. (o1 \<longrightarrow> f s)
      \<Longrightarrow> (\<And>x t. (o2 \<longrightarrow> f t) \<Longrightarrow> excl f M (ok x) o2 t) \<Longrightarrow> (\<And>e t. (o2 \<longrightarrow> f t) \<Longrightarrow> excl f M (err e) o2 t) \<Longrightarrow> excl f M (h ok err) o1 s"
  shows "holds_over f M o1 h o2"
  unfolding holds_over_def using assms by simp

lemma holds_overD:
  "holds_over f M o1 h o2 \<Longrightarrow> (o1 \<longrightarrow> f s) \<Longrightarrow> (\<And>x t. (o2 \<longrightarrow> f t) \<Longrightarrow> excl f M (ok x) o2 t)
    \<Longrightarrow> (\<And>e t. (o2 \<longrightarrow> f t) \<Longrightarrow> excl f M (err e) o2 t) \<Longrightarrow> excl f M (h ok err) o1 s"
  unfolding holds_over_def by blast

lemma over_give: "holds_over f M b (give x) b"
  by (rule holds_overI) (simp add: give_def)

lemma over_throw: "holds_over f M b (throw e) b"
  by (rule holds_overI) (simp add: throw_def)

lemma over_bind:
  assumes "holds_over f M o1 h o2" "\<And>x. holds_over f M o2 (k x) o2"
  shows "holds_over f M o1 (bind_h h k) o2"
  unfolding bind_h_def
  by (rule holds_overI, rule holds_overD [OF assms(1)]) (assumption | rule holds_overD [OF assms(2)])+

lemma over_ask:
  fixes k :: "'v \<Rightarrow> ('c, 'e, 'v, 's, 'a) handler"
  assumes "M c \<longrightarrow> b" "\<And>v. holds_over f M b (k v) b"
  shows "holds_over f M b (bind_h (ask c) k) b"
proof (rule holds_overI)
  fix ok :: "'a \<Rightarrow> ('c, 'e + 'v, 's) process" and err :: "'e \<Rightarrow> ('c, 'e + 'v, 's) process" and s
  assume k: "\<And>x t. (b \<longrightarrow> f t) \<Longrightarrow> excl f M (ok x) b t" "\<And>e t. (b \<longrightarrow> f t) \<Longrightarrow> excl f M (err e) b t"
  have "excl f M (case_sum err (\<lambda>v. k v ok err) r) b t" if "b \<longrightarrow> f t" for r t
    by (cases r; simp) (rule k(2) [OF that], rule holds_overD [OF assms(2) that k])
  with assms(1) show "excl f M (bind_h (ask c) k ok err) b s" by (simp add: bind_h_def ask_def)
qed

lemma over_set: "(\<And>s. f (g s) = f s) \<Longrightarrow> holds_over f M b (set_h g) b"
  by (rule holds_overI) (simp add: set_h_def)

lemma over_release: "(\<And>s. \<not> f (g s)) \<Longrightarrow> holds_over f M True (set_h g) False"
  by (rule holds_overI) (auto simp: set_h_def)

lemma over_look:
  assumes "\<And>u. holds_over f M b (k u) b"
  shows "holds_over f M b (bind_h look k) b"
  unfolding bind_h_def look_def by (rule holds_overI) (simp, rule holds_overD [OF assms], assumption+)

lemma over_try:
  assumes "holds_over f M b h b" "\<And>e. holds_over f M b (c e) b"
  shows "holds_over f M b (try_catch h c) b"
  unfolding try_catch_def
  by (rule holds_overI, rule holds_overD [OF assms(1)]) (assumption | rule holds_overD [OF assms(2)])+

lemma over_finally:
  fixes h :: "('c, 'e, 'v, 's, 'a) handler"
  assumes "holds_over f M o1 h o1" "holds_over f M o1 fin o2"
  shows "holds_over f M o1 (finally_do h fin) o2"
  unfolding finally_do_def
  by (rule holds_overI, rule holds_overD [OF assms(1)]) (assumption | rule holds_overD [OF assms(2)])+

lemma over_if: "(b \<Longrightarrow> holds_over f M o1 h o1) \<Longrightarrow> holds_over f M o1 (if_h b h) o1"
  by (cases b) (auto simp: if_h_def intro: over_give)

lemma over_nil: "holds_over f M b (block []) b"
  by (simp add: over_give)

lemma over_block: "holds_over f M b h b \<Longrightarrow> holds_over f M b (block hs) b \<Longrightarrow> holds_over f M b (block (h # hs)) b"
  unfolding block.simps by (rule over_bind)

lemma over_last: "holds_over f M o1 h o2 \<Longrightarrow> holds_over f M o1 (block [h]) o2"
  by (simp only: block_one)

lemmas over_rules = over_give over_throw over_ask over_set over_look over_try over_finally over_if over_nil over_block

lemma excl_start:
  assumes "holds_over f M False h False"
  shows "excl f M (start h) False s"
  unfolding start_def using holds_overD [OF assms, of s "\<lambda>_. Halt" "\<lambda>_. Halt"] by simp

primrec neutral :: "('s \<Rightarrow> bool) \<Rightarrow> ('c \<Rightarrow> bool) \<Rightarrow> ('c, 'r, 's) process \<Rightarrow> bool" where
  \<comment> \<open>a process that never touches the mark\<close>
  "neutral f M Halt \<longleftrightarrow> True"
| "neutral f M (Await c k) \<longleftrightarrow> \<not> M c \<and> (\<forall>r. neutral f M (k r))"
| "neutral f M (Look k) \<longleftrightarrow> (\<forall>s. neutral f M (k s))"
| "neutral f M (Change g p) \<longleftrightarrow> (\<forall>s. f (g s) = f s) \<and> neutral f M p"
| "neutral f M (Spawn c k p) \<longleftrightarrow> \<not> M c \<and> (\<forall>r. neutral f M (k r)) \<and> neutral f M p"

lemma excl_neutral: "neutral f M p \<Longrightarrow> excl f M p False s"
  by (induction p arbitrary: s) auto

lemma excl_spawn:
  assumes "neutral f M p" "\<And>t. (own \<longrightarrow> f t) \<Longrightarrow> excl f M q own t" "own \<longrightarrow> f s"
  shows "excl f M (spawn p q) own s"
  using assms
proof (induction p arbitrary: s)
  case (Look k)
  then show ?case by simp
next
  case (Change g p)
  then show ?case by simp
qed (auto simp: excl_neutral)

lemma over_void:
  assumes "neutral f M (start h)"
  shows "holds_over f M b (void h) b"
  unfolding void_def by (rule holds_overI) (rule excl_spawn [OF assms])

lemma excl_take:
  \<comment> \<open>the mark is free when the handler is called, and taken before its first request\<close>
  assumes "\<not> f s" "f (g s)" "holds_over f M True h False"
  shows "excl f M (start (bind_h (set_h g) (\<lambda>_. h))) False s"
proof -
  have "excl f M (h (\<lambda>_. Halt) (\<lambda>_. Halt)) True (g s)" by (rule holds_overD [OF assms(3)]) (simp_all add: assms(2))
  with assms(1,2) show ?thesis by (simp add: start_def bind_h_def set_h_def)
qed

section \<open>What is pending\<close>

definition held :: "('s \<Rightarrow> bool) \<Rightarrow> ('c \<Rightarrow> bool) \<Rightarrow> bool \<Rightarrow> 'c \<times> ('r \<Rightarrow> ('c, 'r, 's) process) \<Rightarrow> bool" where
  "held f M own w \<longleftrightarrow> (M (fst w) \<longrightarrow> own) \<and> (\<forall>r t. (own \<longrightarrow> f t) \<longrightarrow> excl f M (snd w r) own t)"

definition shared_out :: "('s \<Rightarrow> bool) \<Rightarrow> ('c \<Rightarrow> bool) \<Rightarrow> bool list \<Rightarrow> ('c \<times> ('r \<Rightarrow> ('c, 'r, 's) process)) list \<Rightarrow> bool" where
  \<comment> \<open>who of those that wait holds the mark\<close>
  "shared_out f M os ws \<longleftrightarrow> list_all2 (held f M) os ws"

definition owners :: "bool list \<Rightarrow> nat" where
  "owners os = length (filter id os)"

lemma owners_simps [simp]: "owners [] = 0" "owners (b # os) = (if b then 1 else 0) + owners os" "owners (xs @ ys) = owners xs + owners ys"
  by (simp_all add: owners_def)

lemma excl_run:
  assumes "excl f M p own s" "run p s = (t, ws, cs)" "n + (if own then 1 else 0) \<le> 1" "0 < n \<or> own \<longrightarrow> f s"
  shows "\<exists>os. shared_out f M os ws \<and> n + owners os \<le> 1 \<and> (0 < n + owners os \<longrightarrow> f t)"
  using assms
proof (induction p arbitrary: own s t ws cs)
  case Halt
  then show ?case by (intro exI [of _ "[]"]) (auto simp: shared_out_def)
next
  case (Await c k)
  then show ?case by (intro exI [of _ "[own]"]) (auto simp: shared_out_def held_def)
next
  case (Look k)
  from Look.IH [OF rangeI, of s own s t ws cs] Look.prems show ?case by simp
next
  case (Change g p)
  let ?own = "if f (g s) = f s then own else f (g s)"
  have p: "excl f M p ?own (g s)" "run p (g s) = (t, ws, cs)" and o: "own \<or> \<not> f s \<or> f (g s)" using Change.prems(1,2) by auto
  have "n + (if ?own then 1 else 0) \<le> 1" "0 < n \<or> ?own \<longrightarrow> f (g s)"
    using Change.prems(3,4) o by (auto split: if_splits)
  from Change.IH [OF p this] show ?case .
next
  case (Spawn c k p)
  obtain ws' cs' where r: "run p s = (t, ws', cs')" and ws: "ws = (c, k) # ws'"
    using Spawn.prems(2) by (auto split: prod.splits)
  obtain os where os: "shared_out f M os ws'" "n + owners os \<le> 1" "0 < n + owners os \<longrightarrow> f t"
    using Spawn.IH(2) [OF _ r Spawn.prems(3,4)] Spawn.prems(1) by auto
  then show ?case
    using Spawn.prems(1) unfolding ws by (intro exI [of _ "False # os"]) (auto simp: shared_out_def held_def)
qed

definition exclusive :: "('s \<Rightarrow> bool) \<Rightarrow> ('c \<Rightarrow> bool) \<Rightarrow> ('c, 'r, 's) machine \<Rightarrow> bool" where
  "exclusive f M m \<longleftrightarrow> (\<exists>os. shared_out f M os (mc_waiting m) \<and> owners os \<le> 1 \<and> (0 < owners os \<longrightarrow> f (mc_view m)))"

lemma exclusive_proceed:
  assumes "shared_out f M os (mc_waiting m)" "owners os + (if own then 1 else 0) \<le> 1" "0 < owners os \<or> own \<longrightarrow> f (mc_view m)"
    and "excl f M p own (mc_view m)"
  shows "exclusive f M (proceed p m)"
proof -
  obtain t ws cs where r: "run p (mc_view m) = (t, ws, cs)" by (metis prod_cases3)
  obtain os' where os': "shared_out f M os' ws" "owners os + owners os' \<le> 1" "0 < owners os + owners os' \<longrightarrow> f t"
    using excl_run [OF assms(4) r assms(2,3)] by auto
  have "shared_out f M (os @ os') (mc_waiting m @ ws)"
    using assms(1) os'(1) unfolding shared_out_def by (rule list_all2_appendI)
  with os' r show ?thesis by (auto simp: exclusive_def proceed_def intro!: exI [of _ "os @ os'"])
qed

lemma exclusive_pending:
  assumes "exclusive f M m"
  shows "length (filter (\<lambda>w. M (fst w)) (mc_waiting m)) \<le> 1" "w \<in> set (mc_waiting m) \<Longrightarrow> M (fst w) \<Longrightarrow> f (mc_view m)"
proof -
  have le: "length (filter (\<lambda>w. M (fst w)) ws) \<le> owners os" if "shared_out f M os ws" for os ws
    using that unfolding shared_out_def by (induction rule: list_all2_induct) (auto simp: held_def)
  obtain os where os: "shared_out f M os (mc_waiting m)" "owners os \<le> 1" "0 < owners os \<longrightarrow> f (mc_view m)"
    using assms by (auto simp: exclusive_def)
  from le [OF os(1)] os(2) show "length (filter (\<lambda>w. M (fst w)) (mc_waiting m)) \<le> 1" by simp
  assume "w \<in> set (mc_waiting m)" "M (fst w)"
  then have "0 < length (filter (\<lambda>w. M (fst w)) (mc_waiting m))" by (auto simp: filter_empty_conv)
  with le [OF os(1)] os(3) show "f (mc_view m)" by simp
qed

lemma shared_out_drop:
  assumes "shared_out f M os ws" "n < length ws"
  shows "shared_out f M (drop_at n os) (drop_at n ws)" "held f M (os ! n) (ws ! n)"
    "owners os = owners (drop_at n os) + (if os ! n then 1 else 0)"
proof -
  have len: "length os = length ws" using assms(1) unfolding shared_out_def by (rule list_all2_lengthD)
  show "shared_out f M (drop_at n os) (drop_at n ws)"
    using assms(1) unfolding shared_out_def drop_at_def by (intro list_all2_appendI list_all2_takeI list_all2_dropI)
  show "held f M (os ! n) (ws ! n)" using assms len unfolding shared_out_def by (auto intro: list_all2_nthD)
  have "os = take n os @ os ! n # drop (Suc n) os" using assms(2) len by (simp add: id_take_nth_drop)
  then have "owners os = owners (take n os @ os ! n # drop (Suc n) os)" by (rule arg_cong)
  then show "owners os = owners (drop_at n os) + (if os ! n then 1 else 0)" by (simp add: drop_at_def)
qed

locale exclusive_handlers =
  fixes handlers :: "'i \<Rightarrow> 's \<Rightarrow> ('c, 'r, 's) process"
    and mark :: "'s \<Rightarrow> bool"
    and under :: "'c \<Rightarrow> bool"
  assumes handlers_excl: "excl mark under (handlers i s) False s"
begin

lemma advance_exclusive:
  assumes "exclusive mark under m" "advance handlers e m = Some n"
  shows "exclusive mark under n"
proof -
  obtain os where os: "shared_out mark under os (mc_waiting m)" "owners os \<le> 1" "0 < owners os \<longrightarrow> mark (mc_view m)"
    using assms(1) by (auto simp: exclusive_def)
  show ?thesis
  proof (cases e)
    case (Invoke i)
    with assms(2) os show ?thesis by (auto intro: exclusive_proceed [where own = False] handlers_excl)
  next
    case (Answer k r)
    let ?m = "m\<lparr>mc_waiting := drop_at k (mc_waiting m)\<rparr>"
    have k: "k < length (mc_waiting m)" and n: "n = proceed (snd (mc_waiting m ! k) r) ?m"
      using assms(2) Answer by (auto split: if_splits)
    note d = shared_out_drop [OF os(1) k]
    show ?thesis
      unfolding n
      by (rule exclusive_proceed [where os = "drop_at k os" and own = "os ! k"])
        (use d os in \<open>auto simp: held_def split: if_splits\<close>)
  qed
qed

lemma reached_exclusive: "reached handlers answers m n \<Longrightarrow> exclusive mark under m \<Longrightarrow> exclusive mark under n"
  by (induction rule: reached.induct) (auto intro: advance_exclusive)

lemma one_pending:
  assumes "reached handlers answers (idle s) m"
  shows "length (filter (\<lambda>w. under (fst w)) (mc_waiting m)) \<le> 1 \<and> (\<forall>w\<in>set (mc_waiting m). under (fst w) \<longrightarrow> mark (mc_view m))"
proof -
  have "exclusive mark under (idle s)" by (auto simp: exclusive_def idle_def shared_out_def)
  then have "exclusive mark under m" using reached_exclusive [OF assms] by blast
  then show ?thesis using exclusive_pending by blast
qed

end

end
