(* ===== verification/Mail_Settings.thy ===== *)
theory Mail_Settings
  imports Js_Exclusive
begin

text \<open>
  The settings of the mail view (\<open>user-web/src/App.tsx\<close>): mailboxes and backups, spam, automatic classification, forwarding,
  absence, external accounts, recent recipients, basic preferences and signatures. Seven areas have a mark for a change in
  progress, which the handlers of the area test before they send one; that they exclude each other is shown with
  \<open>Js_Exclusive\<close>. What the server keeps in the settings is opaque (\<open>jsval\<close>) where the handlers hand it on. Where a
  mailbox, a rule or a signature is handed on with its version, its id stands for both. Texts of messages
  are left out; a result tells whether the handler reports success.
\<close>

section \<open>Data\<close>

record api_error =
  ae_status :: int
  ae_code :: jstring
  ae_currentCount :: "int option"

datatype area = Mailbox | Spam | Classification | Forwarding | Out_of_office | External | Recent

datatype settings_tab = Basic_tab | Signature_tab | Area_tab area

record mailbox_row =
  mr_key :: jstring
  mr_type :: jstring
  mr_name :: jstring
  mr_total :: int

record mail_folder =
  fo_id :: jstring
  fo_name :: jstring
  fo_order :: nat
  fo_count :: int

record mailbox_settings =
  mb_storage :: jsval
  mb_rows :: "mailbox_row list"
  mb_tags :: jsval
  mb_jobs :: "jsval list"

record signature_settings =
  ss_default :: "jstring option"
  ss_rest :: jsval

record pane =
  pn_value :: "jsval option"
  pn_loading :: bool
  pn_error :: bool
  pn_busy :: bool

datatype settings_change =
    Update_account jstring jsval int
  | Create_account jsval
  | Delete_account jstring
  | Delete_accounts "jstring list"
  | Test_account jstring
  | Collect_account jstring
  | Delete_recipient jstring
  | Delete_recipients "jstring list option" bool
  | Update_policy jstring jsval
  | Empty_mailbox jstring bool
  | Create_backup jstring
  | Retry_backup jstring
  | Download_backup jstring
  | Update_spam jsval
  | Update_spam_rule jstring jsval
  | Create_spam_rule jsval
  | Delete_spam_rule jstring
  | Update_classification jsval
  | Update_class_rule jsval jsval
  | Create_class_rule jsval
  | Delete_class_rule jstring
  | Delete_class_rules "jstring list"
  | Reorder_rules jsval "jstring list"
  | Update_forwarding jsval
  | Create_targets "jstring list"
  | Delete_targets "jstring list"
  | Update_exception jsval jsval
  | Create_exception jsval
  | Delete_exceptions "jstring list"
  | Update_absence jsval
  | Update_basic jsval
  | Reset_basic
  | Update_signatures signature_settings
  | Update_signature jstring jsval
  | Create_signature jsval
  | Delete_signature jstring
  | Delete_signatures "jstring list"

fun area_of :: "settings_change \<Rightarrow> area option" where
  "area_of (Update_account i f n) = Some External"
| "area_of (Create_account f) = Some External"
| "area_of (Delete_account i) = Some External"
| "area_of (Delete_accounts is) = Some External"
| "area_of (Test_account i) = Some External"
| "area_of (Collect_account i) = Some External"
| "area_of (Delete_recipient i) = Some Recent"
| "area_of (Delete_recipients is b) = Some Recent"
| "area_of (Update_policy k x) = Some Mailbox"
| "area_of (Empty_mailbox k b) = Some Mailbox"
| "area_of (Create_backup k) = Some Mailbox"
| "area_of (Retry_backup i) = Some Mailbox"
| "area_of (Download_backup i) = Some Mailbox"
| "area_of (Update_spam x) = Some Spam"
| "area_of (Update_spam_rule i x) = Some Spam"
| "area_of (Create_spam_rule x) = Some Spam"
| "area_of (Delete_spam_rule i) = Some Spam"
| "area_of (Update_classification x) = Some Classification"
| "area_of (Update_class_rule r x) = Some Classification"
| "area_of (Create_class_rule x) = Some Classification"
| "area_of (Delete_class_rule i) = Some Classification"
| "area_of (Delete_class_rules is) = Some Classification"
| "area_of (Reorder_rules x is) = Some Classification"
| "area_of (Update_forwarding x) = Some Forwarding"
| "area_of (Create_targets es) = Some Forwarding"
| "area_of (Delete_targets is) = Some Forwarding"
| "area_of (Update_exception r x) = Some Forwarding"
| "area_of (Create_exception x) = Some Forwarding"
| "area_of (Delete_exceptions is) = Some Forwarding"
| "area_of (Update_absence x) = Some Out_of_office"
| "area_of c = None"

datatype settings_request =
    Fetch area
  | Fetch_jobs
  | Fetch_storage
  | Fetch_basic
  | Fetch_signatures
  | Fetch_both \<comment> \<open>basic preferences and signatures, both awaited\<close>
  | Refresh_mails
  | Change settings_change

type_synonym settings_call = "jstring \<times> settings_request" \<comment> \<open>with the token\<close>

datatype settings_reply =
    Mailbox_answer mailbox_settings
  | Value jsval
  | Jobs "jsval list"
  | Signature_answer signature_settings
  | Both_answer jsval signature_settings
  | Accepted

record mail_settings =
  st_token :: jstring
  st_open :: bool
  st_tab :: settings_tab
  st_panes :: "area \<Rightarrow> pane"
  st_busyKey :: jstring \<comment> \<open>\<open>mailboxSettingsBusyKey\<close>; the other areas have a Boolean mark\<close>
  st_mailbox :: "mailbox_settings option"
  st_folders :: "mail_folder list"
  st_tags :: jsval
  st_storage :: "jsval option"
  st_storage_loading :: bool
  st_storage_error :: bool
  st_saved_absence :: "jsval option"
  st_basic :: "jsval option"
  st_saved_basic :: "jsval option"
  st_basic_loading :: bool
  st_basic_error :: bool
  st_basic_conflict :: bool
  st_signatures :: "signature_settings option"
  st_saved_signatures :: "signature_settings option"
  st_signatures_loading :: bool
  st_signatures_error :: bool
  st_signatures_conflict :: bool

type_synonym 'a settings_handler = "(settings_call, api_error, settings_reply, mail_settings, 'a) handler"

definition pane_update :: "area \<Rightarrow> (pane \<Rightarrow> pane) \<Rightarrow> mail_settings \<Rightarrow> mail_settings" where
  "pane_update a f v = v\<lparr>st_panes := (st_panes v)(a := f (st_panes v a))\<rparr>"

definition set_error :: "area \<Rightarrow> bool \<Rightarrow> mail_settings \<Rightarrow> mail_settings" where
  "set_error a b = pane_update a (\<lambda>p. p\<lparr>pn_error := b\<rparr>)"

definition set_loading :: "area \<Rightarrow> bool \<Rightarrow> mail_settings \<Rightarrow> mail_settings" where
  "set_loading a b = pane_update a (\<lambda>p. p\<lparr>pn_loading := b\<rparr>)"

definition set_value :: "area \<Rightarrow> jsval \<Rightarrow> mail_settings \<Rightarrow> mail_settings" where
  "set_value a x = pane_update a (\<lambda>p. p\<lparr>pn_value := Some x\<rparr>)"

definition busy :: "area \<Rightarrow> mail_settings \<Rightarrow> bool" where
  "busy a v \<longleftrightarrow> (if a = Mailbox then st_busyKey v \<noteq> [] else pn_busy (st_panes v a))"

definition take_mark :: "area \<Rightarrow> jstring \<Rightarrow> mail_settings \<Rightarrow> mail_settings" where
  "take_mark a key v = (if a = Mailbox then v\<lparr>st_busyKey := key\<rparr> else pane_update a (\<lambda>p. p\<lparr>pn_busy := True\<rparr>) v)"

definition drop_mark :: "area \<Rightarrow> mail_settings \<Rightarrow> mail_settings" where
  "drop_mark a v = (if a = Mailbox then v\<lparr>st_busyKey := []\<rparr> else pane_update a (\<lambda>p. p\<lparr>pn_busy := False\<rparr>) v)"

section \<open>Loading\<close>

definition folders_of :: "mailbox_settings \<Rightarrow> mail_folder list" where
  "folders_of s = map (\<lambda>(i, r). \<lparr>fo_id = drop (length (lit ''folder:'')) (mr_key r), fo_name = mr_name r, fo_order = i, fo_count = mr_total r\<rparr>)
     (enumerate 0 (filter (\<lambda>r. mr_type r = lit ''folder'') (mb_rows s)))"

definition mailboxes_loaded :: "mailbox_settings \<Rightarrow> mail_settings \<Rightarrow> mail_settings" where
  "mailboxes_loaded s v = v\<lparr>st_mailbox := Some s, st_storage := Some (mb_storage s), st_folders := folders_of s, st_tags := mb_tags s\<rparr>"

definition absence_loaded :: "jsval \<Rightarrow> mail_settings \<Rightarrow> mail_settings" where
  "absence_loaded x v = (set_value Out_of_office x v)\<lparr>st_saved_absence := Some x\<rparr>"

definition area_loaded :: "area \<Rightarrow> settings_reply \<Rightarrow> mail_settings \<Rightarrow> mail_settings" where
  "area_loaded a r = (case r of
      Mailbox_answer s \<Rightarrow> (if a = Mailbox then mailboxes_loaded s else id)
    | Value x \<Rightarrow> (if a = Mailbox then id else if a = Out_of_office then absence_loaded x else set_value a x)
    | _ \<Rightarrow> id)"

definition load_area :: "area \<Rightarrow> jstring \<Rightarrow> bool \<Rightarrow> unit settings_handler" where
  \<comment> \<open>the seven functions from \<open>loadMailboxSettings\<close> to \<open>loadRecentRecipients\<close>, which differ in what they set\<close>
  "load_area a targetToken showLoading = block
     [set_h (\<lambda>v. set_error a False (if showLoading then set_loading a True v else v)),
      finally_do
        (try_catch
          (bind_h (ask (targetToken, Fetch a)) (\<lambda>r. set_h (area_loaded a r)))
          (\<lambda>e. set_h (set_error a True)))
        (set_h (\<lambda>v. if showLoading then set_loading a False v else v))]"

definition loadMailStorage :: "jstring \<Rightarrow> unit settings_handler" where
  "loadMailStorage targetToken = block
     [set_h (\<lambda>v. v\<lparr>st_storage_loading := True, st_storage_error := False\<rparr>),
      finally_do
        (try_catch
          (bind_h (ask (targetToken, Fetch_storage)) (\<lambda>r. case r of Value x \<Rightarrow> set_h (\<lambda>v. v\<lparr>st_storage := Some x\<rparr>) | _ \<Rightarrow> give ()))
          (\<lambda>e. set_h (\<lambda>v. v\<lparr>st_storage_error := True\<rparr>)))
        (set_h (\<lambda>v. v\<lparr>st_storage_loading := False\<rparr>))]"

definition refreshMailboxBackupJobs :: "jstring \<Rightarrow> unit settings_handler" where
  "refreshMailboxBackupJobs targetToken = try_catch
     (bind_h (ask (targetToken, Fetch_jobs)) (\<lambda>r. case r of
        Jobs js \<Rightarrow> set_h (\<lambda>v. v\<lparr>st_mailbox := map_option (\<lambda>m. m\<lparr>mb_jobs := js\<rparr>) (st_mailbox v)\<rparr>) | _ \<Rightarrow> give ()))
     (\<lambda>e. set_h (set_error Mailbox True))"

definition poll_backups :: "mail_settings \<Rightarrow> (jsval \<Rightarrow> bool) \<Rightarrow> unit settings_handler" where
  \<comment> \<open>the timer that runs while the tab shows a job that is not finished\<close>
  "poll_backups s0 active = if_h (st_token s0 \<noteq> [] \<and> st_open s0 \<and> st_tab s0 = Area_tab Mailbox
       \<and> (case st_mailbox s0 of None \<Rightarrow> False | Some m \<Rightarrow> list_ex active (mb_jobs m)))
     (refreshMailboxBackupJobs (st_token s0))"

section \<open>Changes under a mark\<close>

definition succeed :: "'a settings_handler \<Rightarrow> bool settings_handler" where
  "succeed h = bind_h h (\<lambda>_. give True)"

definition report :: "area \<Rightarrow> bool settings_handler" where
  "report a = bind_h (set_h (set_error a True)) (\<lambda>_. give False)"

definition under_mark :: "bool \<Rightarrow> area \<Rightarrow> jstring \<Rightarrow> mail_settings \<Rightarrow> bool settings_handler \<Rightarrow> (api_error \<Rightarrow> bool settings_handler) \<Rightarrow> bool settings_handler" where
  \<comment> \<open>the form of all handlers that change an area\<close>
  "under_mark clears a key s0 body failed =
     (if st_token s0 = [] \<or> busy a s0 then give False
      else bind_h (set_h (\<lambda>v. (if clears then set_error a False else id) (take_mark a key v))) (\<lambda>_.
        finally_do (try_catch body failed) (set_h (drop_mark a))))"

definition change_and_load :: "area \<Rightarrow> jstring \<Rightarrow> settings_change \<Rightarrow> unit settings_handler" where
  "change_and_load a token c = bind_h (ask (token, Change c)) (\<lambda>_. load_area a token False)"

definition mark_key :: "string \<Rightarrow> jstring \<Rightarrow> jstring" where
  "mark_key kind x = lit kind @ x"

definition saveExternalAccount :: "mail_settings \<Rightarrow> (jstring \<times> int) option \<Rightarrow> jsval \<Rightarrow> bool settings_handler" where
  "saveExternalAccount s0 item form = under_mark True External [] s0
     (succeed (change_and_load External (st_token s0) (case item of Some (i, n) \<Rightarrow> Update_account i form n | None \<Rightarrow> Create_account form)))
     (\<lambda>e. report External)"

definition external_change :: "mail_settings \<Rightarrow> settings_change \<Rightarrow> bool settings_handler" where
  \<comment> \<open>deleting, testing and collecting leave the last error in place when they begin\<close>
  "external_change s0 c = under_mark False External [] s0 (succeed (change_and_load External (st_token s0) c)) (\<lambda>e. report External)"

definition removeExternalAccount :: "mail_settings \<Rightarrow> jstring \<Rightarrow> bool \<Rightarrow> bool settings_handler" where
  "removeExternalAccount s0 i confirmed = (if confirmed then external_change s0 (Delete_account i) else give False)"

definition removeExternalAccounts :: "mail_settings \<Rightarrow> jstring list \<Rightarrow> bool \<Rightarrow> bool settings_handler" where
  "removeExternalAccounts s0 is confirmed = (if confirmed then external_change s0 (Delete_accounts is) else give False)"

definition runExternalTest :: "mail_settings \<Rightarrow> jstring \<Rightarrow> bool settings_handler" where
  "runExternalTest s0 i = external_change s0 (Test_account i)"

definition runExternalCollect :: "mail_settings \<Rightarrow> jstring \<Rightarrow> bool settings_handler" where
  "runExternalCollect s0 i = external_change s0 (Collect_account i)"

definition removeRecentRecipients :: "mail_settings \<Rightarrow> jstring list option \<Rightarrow> bool \<Rightarrow> bool settings_handler" where
  "removeRecentRecipients s0 recipientIds deleteAll = under_mark True Recent [] s0
     (succeed (change_and_load Recent (st_token s0)
        (case recipientIds of Some [i] \<Rightarrow> Delete_recipient i | _ \<Rightarrow> Delete_recipients recipientIds deleteAll)))
     (\<lambda>e. report Recent)"

definition saveMailboxPolicy :: "mail_settings \<Rightarrow> jstring \<Rightarrow> jsval \<Rightarrow> bool settings_handler" where
  "saveMailboxPolicy s0 mailboxKey retentionDays = under_mark True Mailbox (mark_key ''policy:'' mailboxKey) s0
     (succeed (change_and_load Mailbox (st_token s0) (Update_policy mailboxKey retentionDays))) (\<lambda>e. report Mailbox)"

definition reload_on_conflict :: "area \<Rightarrow> jstring \<Rightarrow> jstring \<Rightarrow> api_error \<Rightarrow> bool settings_handler" where
  \<comment> \<open>after a conflict the settings of the server are shown, with the error\<close>
  "reload_on_conflict a token code e =
     (if ae_code e = code then bind_h (load_area a token False) (\<lambda>_. report a) else report a)"

definition saveSpamPolicy :: "mail_settings \<Rightarrow> bool settings_handler" where
  "saveSpamPolicy s0 =
     (case pn_value (st_panes s0 Spam) of
        None \<Rightarrow> give False
      | Some x \<Rightarrow> under_mark True Spam [] s0 (succeed (change_and_load Spam (st_token s0) (Update_spam x)))
          (reload_on_conflict Spam (st_token s0) (lit ''MAIL_SPAM_SETTINGS_CONFLICT'')))"

definition saveSpamRule :: "mail_settings \<Rightarrow> jstring option \<Rightarrow> jsval \<Rightarrow> bool settings_handler" where
  \<comment> \<open>the message of an error is the result, it is not shown with the area\<close>
  "saveSpamRule s0 ruleId payload = under_mark True Spam [] s0
     (succeed (change_and_load Spam (st_token s0) (case ruleId of Some i \<Rightarrow> Update_spam_rule i payload | None \<Rightarrow> Create_spam_rule payload)))
     (\<lambda>e. give False)"

definition removeSpamRule :: "mail_settings \<Rightarrow> jstring \<Rightarrow> bool settings_handler" where
  "removeSpamRule s0 ruleId = under_mark True Spam [] s0 (succeed (change_and_load Spam (st_token s0) (Delete_spam_rule ruleId))) (\<lambda>e. report Spam)"

definition change_to_answer :: "area \<Rightarrow> jstring \<Rightarrow> settings_change \<Rightarrow> bool settings_handler" where
  \<comment> \<open>the answer to the change is the new value\<close>
  "change_to_answer a token c = succeed (bind_h (ask (token, Change c)) (\<lambda>r. case r of Value x \<Rightarrow> set_h (set_value a x) | _ \<Rightarrow> give ()))"

definition saveAutoClassificationPolicy :: "mail_settings \<Rightarrow> bool settings_handler" where
  "saveAutoClassificationPolicy s0 =
     (case pn_value (st_panes s0 Classification) of
        None \<Rightarrow> give False
      | Some x \<Rightarrow> under_mark True Classification [] s0 (change_to_answer Classification (st_token s0) (Update_classification x))
          (reload_on_conflict Classification (st_token s0) (lit ''MAIL_AUTO_CLASSIFICATION_POLICY_CONFLICT'')))"

definition saveAutoClassificationRule :: "mail_settings \<Rightarrow> jsval option \<Rightarrow> jsval \<Rightarrow> bool settings_handler" where
  "saveAutoClassificationRule s0 rule payload = under_mark True Classification [] s0
     (succeed (change_and_load Classification (st_token s0)
        (case rule of Some r \<Rightarrow> Update_class_rule r payload | None \<Rightarrow> Create_class_rule payload)))
     (\<lambda>e. give False)"

definition removeAutoClassificationRules :: "mail_settings \<Rightarrow> jstring list \<Rightarrow> bool settings_handler" where
  "removeAutoClassificationRules s0 ruleIds =
     (if ruleIds = [] then give False
      else under_mark True Classification [] s0
        (succeed (change_and_load Classification (st_token s0) (case ruleIds of [i] \<Rightarrow> Delete_class_rule i | _ \<Rightarrow> Delete_class_rules ruleIds)))
        (\<lambda>e. report Classification))"

definition reorderAutoRules :: "mail_settings \<Rightarrow> jstring list \<Rightarrow> bool settings_handler" where
  "reorderAutoRules s0 ruleIds =
     (case pn_value (st_panes s0 Classification) of
        None \<Rightarrow> give False
      | Some x \<Rightarrow> under_mark True Classification [] s0 (change_to_answer Classification (st_token s0) (Reorder_rules x ruleIds))
          (\<lambda>e. bind_h (load_area Classification (st_token s0) False) (\<lambda>_. report Classification)))"

definition saveAutoForwardPolicy :: "mail_settings \<Rightarrow> bool settings_handler" where
  "saveAutoForwardPolicy s0 =
     (case pn_value (st_panes s0 Forwarding) of
        None \<Rightarrow> give False
      | Some x \<Rightarrow> under_mark True Forwarding [] s0 (change_to_answer Forwarding (st_token s0) (Update_forwarding x))
          (reload_on_conflict Forwarding (st_token s0) (lit ''MAIL_AUTO_FORWARD_POLICY_CONFLICT'')))"

definition addAutoForwardTargets :: "mail_settings \<Rightarrow> jstring list \<Rightarrow> bool settings_handler" where
  "addAutoForwardTargets s0 emails =
     (if emails = [] then give False
      else under_mark True Forwarding [] s0 (succeed (change_and_load Forwarding (st_token s0) (Create_targets emails))) (\<lambda>e. give False))"

definition removeAutoForwardTargets :: "mail_settings \<Rightarrow> jstring list \<Rightarrow> bool settings_handler" where
  "removeAutoForwardTargets s0 is =
     (if is = [] then give False
      else under_mark True Forwarding [] s0 (succeed (change_and_load Forwarding (st_token s0) (Delete_targets is))) (\<lambda>e. report Forwarding))"

definition saveAutoForwardException :: "mail_settings \<Rightarrow> jsval option \<Rightarrow> jsval \<Rightarrow> bool settings_handler" where
  "saveAutoForwardException s0 item payload = under_mark True Forwarding [] s0
     (succeed (change_and_load Forwarding (st_token s0) (case item of Some i \<Rightarrow> Update_exception i payload | None \<Rightarrow> Create_exception payload)))
     (\<lambda>e. give False)"

definition removeAutoForwardExceptions :: "mail_settings \<Rightarrow> jstring list \<Rightarrow> bool settings_handler" where
  "removeAutoForwardExceptions s0 is =
     (if is = [] then give False
      else under_mark True Forwarding [] s0 (succeed (change_and_load Forwarding (st_token s0) (Delete_exceptions is))) (\<lambda>e. report Forwarding))"

definition saveOutOfOfficePolicy :: "mail_settings \<Rightarrow> bool settings_handler" where
  "saveOutOfOfficePolicy s0 =
     (case pn_value (st_panes s0 Out_of_office) of
        None \<Rightarrow> give False
      | Some x \<Rightarrow> under_mark True Out_of_office [] s0
          (succeed (bind_h (ask (st_token s0, Change (Update_absence x))) (\<lambda>_.
             bind_h (ask (st_token s0, Fetch Out_of_office)) (\<lambda>r. set_h (area_loaded Out_of_office r)))))
          (\<lambda>e. report Out_of_office))"

definition runEmptyMailbox :: "mail_settings \<Rightarrow> jstring \<Rightarrow> bool \<Rightarrow> bool settings_handler" where
  \<comment> \<open>of the three loads that are awaited together, the end is modelled by that of the settings\<close>
  "runEmptyMailbox s0 mailboxKey confirmPermanent = under_mark True Mailbox (mark_key ''empty:'' mailboxKey) s0
     (succeed (bind_h (ask (st_token s0, Change (Empty_mailbox mailboxKey confirmPermanent))) (\<lambda>_. block
        [void (bind_h (ask (st_token s0, Refresh_mails)) (\<lambda>_. give ())), void (loadMailStorage (st_token s0)),
         load_area Mailbox (st_token s0) False])))
     (\<lambda>e. if ae_status e = 409 \<and> ae_currentCount e \<noteq> None
          then bind_h (load_area Mailbox (st_token s0) False) (\<lambda>_. report Mailbox) else report Mailbox)"

definition startMailboxBackup :: "mail_settings \<Rightarrow> jstring \<Rightarrow> bool settings_handler" where
  "startMailboxBackup s0 mailboxKey = under_mark True Mailbox (mark_key ''backup:'' mailboxKey) s0
     (succeed (bind_h (ask (st_token s0, Change (Create_backup mailboxKey))) (\<lambda>_. refreshMailboxBackupJobs (st_token s0)))) (\<lambda>e. report Mailbox)"

definition rerunMailboxBackup :: "mail_settings \<Rightarrow> jstring \<Rightarrow> bool settings_handler" where
  "rerunMailboxBackup s0 jobId = under_mark True Mailbox (mark_key ''retry:'' jobId) s0
     (succeed (bind_h (ask (st_token s0, Change (Retry_backup jobId))) (\<lambda>_. refreshMailboxBackupJobs (st_token s0)))) (\<lambda>e. report Mailbox)"

definition saveMailboxBackupFile :: "mail_settings \<Rightarrow> jstring \<Rightarrow> bool settings_handler" where
  "saveMailboxBackupFile s0 jobId = under_mark True Mailbox (mark_key ''download:'' jobId) s0
     (succeed (bind_h (ask (st_token s0, Change (Download_backup jobId))) (\<lambda>_. give ()))) (\<lambda>e. report Mailbox)"

section \<open>Basic preferences and signatures\<close>

definition basic_begin :: "mail_settings \<Rightarrow> mail_settings" where
  "basic_begin v = v\<lparr>st_basic_loading := True, st_basic_error := False\<rparr>"

definition basic_loaded :: "jsval \<Rightarrow> mail_settings \<Rightarrow> mail_settings" where
  "basic_loaded x v = v\<lparr>st_basic := Some x, st_saved_basic := Some x\<rparr>"

definition fetch_basic :: "jstring \<Rightarrow> (mail_settings \<Rightarrow> mail_settings) \<Rightarrow> unit settings_handler" where
  "fetch_basic token f = bind_h (ask (token, Fetch_basic)) (\<lambda>r. case r of Value x \<Rightarrow> set_h (\<lambda>v. f (basic_loaded x v)) | _ \<Rightarrow> give ())"

definition basic_end :: "unit settings_handler" where
  "basic_end = set_h (\<lambda>v. v\<lparr>st_basic_loading := False\<rparr>)"

definition saveMailBasicSettings :: "mail_settings \<Rightarrow> unit settings_handler" where
  "saveMailBasicSettings s0 =
     (case st_basic s0 of
        None \<Rightarrow> give ()
      | Some x \<Rightarrow> if_h (st_token s0 \<noteq> []) (block
          [set_h (\<lambda>v. (basic_begin v)\<lparr>st_basic_conflict := False\<rparr>),
           finally_do
             (try_catch
               (bind_h (ask (st_token s0, Change (Update_basic x))) (\<lambda>_. fetch_basic (st_token s0) id))
               (\<lambda>e. set_h (\<lambda>v. v\<lparr>st_basic_conflict := (ae_status e = 409), st_basic_error := True\<rparr>)))
             basic_end]))"

definition resetMailBasicSettings :: "mail_settings \<Rightarrow> bool \<Rightarrow> unit settings_handler" where
  "resetMailBasicSettings s0 confirmed = if_h (st_token s0 \<noteq> [] \<and> confirmed) (block
     [set_h basic_begin,
      finally_do
        (try_catch
          (bind_h (ask (st_token s0, Change Reset_basic)) (\<lambda>_. fetch_basic (st_token s0) id))
          (\<lambda>e. set_h (\<lambda>v. v\<lparr>st_basic_error := True\<rparr>)))
        basic_end])"

definition reloadMailBasicSettings :: "mail_settings \<Rightarrow> unit settings_handler" where
  "reloadMailBasicSettings s0 = if_h (st_token s0 \<noteq> []) (block
     [set_h (\<lambda>v. v\<lparr>st_basic_loading := True\<rparr>),
      finally_do
        (try_catch
          (fetch_basic (st_token s0) (\<lambda>v. v\<lparr>st_basic_conflict := False, st_basic_error := False\<rparr>))
          (\<lambda>e. set_h (\<lambda>v. v\<lparr>st_basic_error := True\<rparr>)))
        basic_end])"

definition signatures_begin :: "mail_settings \<Rightarrow> mail_settings" where
  "signatures_begin v = v\<lparr>st_signatures_loading := True, st_signatures_error := False, st_signatures_conflict := False\<rparr>"

definition signatures_loaded :: "signature_settings \<Rightarrow> mail_settings \<Rightarrow> mail_settings" where
  "signatures_loaded x v = v\<lparr>st_signatures := Some x, st_saved_signatures := Some x\<rparr>"

definition fetch_signatures :: "jstring \<Rightarrow> (mail_settings \<Rightarrow> mail_settings) \<Rightarrow> unit settings_handler" where
  "fetch_signatures token f =
     bind_h (ask (token, Fetch_signatures)) (\<lambda>r. case r of Signature_answer x \<Rightarrow> set_h (\<lambda>v. f (signatures_loaded x v)) | _ \<Rightarrow> give ())"

definition signatures_end :: "unit settings_handler" where
  "signatures_end = set_h (\<lambda>v. v\<lparr>st_signatures_loading := False\<rparr>)"

definition signatures_failed :: "api_error \<Rightarrow> bool settings_handler" where
  "signatures_failed e =
     bind_h (set_h (\<lambda>v. v\<lparr>st_signatures_conflict := (ae_status e = 409), st_signatures_error := True\<rparr>)) (\<lambda>_. give False)"

definition reloadMailSignatures :: "mail_settings \<Rightarrow> unit settings_handler" where
  "reloadMailSignatures s0 = if_h (st_token s0 \<noteq> []) (block
     [set_h (\<lambda>v. v\<lparr>st_signatures_loading := True\<rparr>),
      finally_do
        (try_catch
          (fetch_signatures (st_token s0) (\<lambda>v. v\<lparr>st_signatures_conflict := False, st_signatures_error := False\<rparr>))
          (\<lambda>e. set_h (\<lambda>v. v\<lparr>st_signatures_error := True\<rparr>)))
        signatures_end])"

definition change_signatures :: "jstring \<Rightarrow> settings_change \<Rightarrow> unit settings_handler \<Rightarrow> bool settings_handler" where
  \<comment> \<open>the form of the handlers that change signatures; there is no mark for them\<close>
  "change_signatures token c andThen =
     bind_h (set_h signatures_begin) (\<lambda>_. finally_do
       (try_catch (succeed (bind_h (ask (token, Change c)) (\<lambda>_. andThen))) signatures_failed) signatures_end)"

definition saveMailSignaturePreferences :: "mail_settings \<Rightarrow> bool settings_handler" where
  "saveMailSignaturePreferences s0 =
     (case st_signatures s0 of
        None \<Rightarrow> give False
      | Some x \<Rightarrow>
          (if st_token s0 = [] then give False
           else change_signatures (st_token s0) (Update_signatures x) (fetch_signatures (st_token s0) id)))"

definition make_default :: "jstring \<Rightarrow> jstring \<Rightarrow> unit settings_handler" where
  \<comment> \<open>the list is fetched again only where the default had to change\<close>
  "make_default token signatureId =
     bind_h (ask (token, Fetch_signatures)) (\<lambda>r. case r of
       Signature_answer x \<Rightarrow>
         (if ss_default x \<noteq> Some signatureId then
            bind_h (ask (token, Change (Update_signatures (x\<lparr>ss_default := Some signatureId\<rparr>)))) (\<lambda>_. fetch_signatures token id)
          else set_h (signatures_loaded x))
     | _ \<Rightarrow> give ())"

definition saveMailSignature :: "mail_settings \<Rightarrow> jstring option \<Rightarrow> jsval \<Rightarrow> bool \<Rightarrow> bool settings_handler" where
  \<comment> \<open>the name and the text of the form, and whether it becomes the default\<close>
  "saveMailSignature s0 signatureId form makeDefault =
     (if st_token s0 = [] then give False
      else (case signatureId of
          None \<Rightarrow> change_signatures (st_token s0) (Create_signature form) (fetch_signatures (st_token s0) id)
        | Some i \<Rightarrow> change_signatures (st_token s0) (Update_signature i form)
            (if makeDefault then make_default (st_token s0) i else fetch_signatures (st_token s0) id)))"

definition removeMailSignatures :: "mail_settings \<Rightarrow> jstring list \<Rightarrow> bool settings_handler" where
  "removeMailSignatures s0 is =
     (if st_token s0 = [] \<or> is = [] then give False
      else change_signatures (st_token s0) (case is of [i] \<Rightarrow> Delete_signature i | _ \<Rightarrow> Delete_signatures is) (fetch_signatures (st_token s0) id))"

section \<open>Opening and closing\<close>

definition changed :: "'a option \<Rightarrow> 'a option \<Rightarrow> bool" where
  \<comment> \<open>both are there and differ as texts\<close>
  "changed x saved \<longleftrightarrow> x \<noteq> None \<and> saved \<noteq> None \<and> x \<noteq> saved"

definition absence_changed :: "mail_settings \<Rightarrow> bool" where
  "absence_changed v = changed (pn_value (st_panes v Out_of_office)) (st_saved_absence v)"

definition restore_absence :: "mail_settings \<Rightarrow> mail_settings" where
  "restore_absence v = pane_update Out_of_office (\<lambda>p. p\<lparr>pn_value := st_saved_absence v\<rparr>) v"

definition openMailSettings :: "mail_settings \<Rightarrow> settings_tab \<Rightarrow> bool \<Rightarrow> unit settings_handler" where
  "openMailSettings s0 tab confirmed =
     (let leaving = st_open s0 \<and> st_tab s0 = Area_tab Out_of_office \<and> tab \<noteq> Area_tab Out_of_office \<and> absence_changed s0
      in if_h (st_token s0 \<noteq> [] \<and> \<not> (leaving \<and> \<not> confirmed)) (block
        [if_h leaving (set_h (\<lambda>v. pane_update Out_of_office (\<lambda>p. p\<lparr>pn_value := st_saved_absence s0\<rparr>) v)),
         set_h (\<lambda>v. v\<lparr>st_open := True, st_tab := tab\<rparr>),
         case tab of
           Area_tab a \<Rightarrow> load_area a (st_token s0) True
         | _ \<Rightarrow> block
            [set_h (\<lambda>v. signatures_begin ((basic_begin v)\<lparr>st_basic_conflict := False\<rparr>)),
             finally_do
               (try_catch
                 (bind_h (ask (st_token s0, Fetch_both)) (\<lambda>r. case r of
                    Both_answer x y \<Rightarrow> set_h (\<lambda>v. signatures_loaded y (basic_loaded x v)) | _ \<Rightarrow> give ()))
                 (\<lambda>e. set_h (\<lambda>v. v\<lparr>st_basic_error := True, st_signatures_error := True\<rparr>)))
               (set_h (\<lambda>v. v\<lparr>st_basic_loading := False, st_signatures_loading := False\<rparr>))]]))"

definition settings_dirty :: "mail_settings \<Rightarrow> bool" where
  "settings_dirty v \<longleftrightarrow> changed (st_basic v) (st_saved_basic v) \<or> changed (st_signatures v) (st_saved_signatures v) \<or> absence_changed v"

definition closeMailBasicSettings :: "bool \<Rightarrow> mail_settings \<Rightarrow> mail_settings" where
  "closeMailBasicSettings confirmed v =
     (if settings_dirty v \<and> \<not> confirmed then v
      else (restore_absence v)\<lparr>st_basic := st_saved_basic v, st_signatures := st_saved_signatures v, st_open := False\<rparr>)"

section \<open>All handlers\<close>

datatype settings_event =
    Sign_in jstring
  | Open_settings settings_tab bool
  | Close_settings bool
  | Poll "jsval list"
  | Load_storage
  | Edit_area area jsval
  | Edit_basic jsval
  | Edit_signatures signature_settings
  | Save_account "(jstring \<times> int) option" jsval
  | Remove_account jstring bool
  | Remove_accounts "jstring list" bool
  | Try_account jstring
  | Collect jstring
  | Remove_recipients "jstring list option" bool
  | Save_policy jstring jsval
  | Save_spam
  | Save_spam_rule "jstring option" jsval
  | Remove_spam_rule jstring
  | Save_classification
  | Save_class_rule "jsval option" jsval
  | Remove_class_rules "jstring list"
  | Reorder "jstring list"
  | Save_forwarding
  | Add_targets "jstring list"
  | Remove_targets "jstring list"
  | Save_exception "jsval option" jsval
  | Remove_exceptions "jstring list"
  | Save_absence
  | Empty_box jstring bool
  | Backup jstring
  | Backup_again jstring
  | Backup_file jstring
  | Save_basic
  | Reset_preferences bool
  | Reload_basic
  | Reload_signatures
  | Save_signature_preferences
  | Save_signature "jstring option" jsval bool
  | Remove_signatures "jstring list"

fun settings_handler :: "settings_event \<Rightarrow> mail_settings \<Rightarrow> (settings_call, api_error + settings_reply, mail_settings) process" where
  "settings_handler (Sign_in t) s = start (set_h (\<lambda>v. v\<lparr>st_token := t\<rparr>))"
| "settings_handler (Open_settings t c) s = start (openMailSettings s t c)"
| "settings_handler (Close_settings c) s = start (set_h (closeMailBasicSettings c))"
| "settings_handler (Poll js) s = start (poll_backups s (\<lambda>j. j \<in> set js))"
| "settings_handler Load_storage s = start (if_h (st_token s \<noteq> []) (loadMailStorage (st_token s)))"
| "settings_handler (Edit_area a x) s = start (set_h (set_value a x))"
| "settings_handler (Edit_basic x) s = start (set_h (\<lambda>v. v\<lparr>st_basic := Some x\<rparr>))"
| "settings_handler (Edit_signatures x) s = start (set_h (\<lambda>v. v\<lparr>st_signatures := Some x\<rparr>))"
| "settings_handler (Save_account i f) s = start (saveExternalAccount s i f)"
| "settings_handler (Remove_account i c) s = start (removeExternalAccount s i c)"
| "settings_handler (Remove_accounts is c) s = start (removeExternalAccounts s is c)"
| "settings_handler (Try_account i) s = start (runExternalTest s i)"
| "settings_handler (Collect i) s = start (runExternalCollect s i)"
| "settings_handler (Remove_recipients is b) s = start (removeRecentRecipients s is b)"
| "settings_handler (Save_policy k d) s = start (saveMailboxPolicy s k d)"
| "settings_handler Save_spam s = start (saveSpamPolicy s)"
| "settings_handler (Save_spam_rule i x) s = start (saveSpamRule s i x)"
| "settings_handler (Remove_spam_rule i) s = start (removeSpamRule s i)"
| "settings_handler Save_classification s = start (saveAutoClassificationPolicy s)"
| "settings_handler (Save_class_rule r x) s = start (saveAutoClassificationRule s r x)"
| "settings_handler (Remove_class_rules is) s = start (removeAutoClassificationRules s is)"
| "settings_handler (Reorder is) s = start (reorderAutoRules s is)"
| "settings_handler Save_forwarding s = start (saveAutoForwardPolicy s)"
| "settings_handler (Add_targets es) s = start (addAutoForwardTargets s es)"
| "settings_handler (Remove_targets is) s = start (removeAutoForwardTargets s is)"
| "settings_handler (Save_exception i x) s = start (saveAutoForwardException s i x)"
| "settings_handler (Remove_exceptions is) s = start (removeAutoForwardExceptions s is)"
| "settings_handler Save_absence s = start (saveOutOfOfficePolicy s)"
| "settings_handler (Empty_box k c) s = start (runEmptyMailbox s k c)"
| "settings_handler (Backup k) s = start (startMailboxBackup s k)"
| "settings_handler (Backup_again j) s = start (rerunMailboxBackup s j)"
| "settings_handler (Backup_file j) s = start (saveMailboxBackupFile s j)"
| "settings_handler Save_basic s = start (saveMailBasicSettings s)"
| "settings_handler (Reset_preferences c) s = start (resetMailBasicSettings s c)"
| "settings_handler Reload_basic s = start (reloadMailBasicSettings s)"
| "settings_handler Reload_signatures s = start (reloadMailSignatures s)"
| "settings_handler Save_signature_preferences s = start (saveMailSignaturePreferences s)"
| "settings_handler (Save_signature i f d) s = start (saveMailSignature s i f d)"
| "settings_handler (Remove_signatures is) s = start (removeMailSignatures s is)"

section \<open>One change of an area at a time\<close>

definition changes :: "area \<Rightarrow> settings_call \<Rightarrow> bool" where
  "changes a c \<longleftrightarrow> (case snd c of Change x \<Rightarrow> area_of x = Some a | _ \<Rightarrow> False)"

abbreviation over :: "area \<Rightarrow> bool \<Rightarrow> 'a settings_handler \<Rightarrow> bool \<Rightarrow> bool" where
  "over a o1 h o2 \<equiv> holds_over (busy a) (changes a) o1 h o2"

lemma busy_panes [simp]:
  "busy a (set_error b x v) = busy a v" "busy a (set_loading b x v) = busy a v" "busy a (set_value b y v) = busy a v"
  "busy a (pane_update b (\<lambda>p. p\<lparr>pn_value := z\<rparr>) v) = busy a v"
  by (auto simp: busy_def set_error_def set_loading_def set_value_def pane_update_def)

lemma busy_marks [simp]:
  "busy a (drop_mark b v) = (a \<noteq> b \<and> busy a v)"
  "busy a (take_mark b k v) = (if a = b then a = Mailbox \<longrightarrow> k \<noteq> [] else busy a v)"
  by (auto simp: busy_def drop_mark_def take_mark_def pane_update_def)

lemma busy_loaded [simp]:
  "busy a (area_loaded b r v) = busy a v" "busy a (basic_loaded x v) = busy a v" "busy a (signatures_loaded y v) = busy a v"
  "busy a (basic_begin v) = busy a v" "busy a (signatures_begin v) = busy a v"
  by (auto simp: area_loaded_def mailboxes_loaded_def absence_loaded_def basic_loaded_def signatures_loaded_def basic_begin_def
      signatures_begin_def busy_def set_value_def pane_update_def split: settings_reply.split)

lemma mark_key_set [simp]: "mark_key (c # cs) x \<noteq> []"
  by (simp add: mark_key_def lit_def)

lemma busy_fields [simp]:
  "busy a (st_token_update h0 v) = busy a v"
  "busy a (st_open_update h1 v) = busy a v"
  "busy a (st_tab_update h2 v) = busy a v"
  "busy a (st_mailbox_update h3 v) = busy a v"
  "busy a (st_folders_update h4 v) = busy a v"
  "busy a (st_tags_update h5 v) = busy a v"
  "busy a (st_storage_update h6 v) = busy a v"
  "busy a (st_storage_loading_update h7 v) = busy a v"
  "busy a (st_storage_error_update h8 v) = busy a v"
  "busy a (st_saved_absence_update h9 v) = busy a v"
  "busy a (st_basic_update h10 v) = busy a v"
  "busy a (st_saved_basic_update h11 v) = busy a v"
  "busy a (st_basic_loading_update h12 v) = busy a v"
  "busy a (st_basic_error_update h13 v) = busy a v"
  "busy a (st_basic_conflict_update h14 v) = busy a v"
  "busy a (st_signatures_update h15 v) = busy a v"
  "busy a (st_saved_signatures_update h16 v) = busy a v"
  "busy a (st_signatures_loading_update h17 v) = busy a v"
  "busy a (st_signatures_error_update h18 v) = busy a v"
  "busy a (st_signatures_conflict_update h19 v) = busy a v"
  by (simp_all add: busy_def)

lemma over_set_then:
  assumes "\<And>s. f (g s) = f s" "holds_over f M b (k ()) b"
  shows "holds_over f M b (bind_h (set_h g) k) b"
  by (rule over_bind, rule over_set) (simp_all add: assms)

lemmas over_intros = over_rules over_set_then

lemma over_area: "over a b (load_area a' t l) b"
  unfolding load_area_def by (intro over_intros) (auto simp: changes_def)

lemma over_loads:
  "over a b (loadMailStorage t) b"
  "over a b (refreshMailboxBackupJobs t) b"
  "over a b (fetch_basic t id) b"
  "over a b (fetch_signatures t id) b"
  "over a b basic_end b" "over a b signatures_end b" "over a b (signatures_failed e) b" "over a b (report a') b"
  unfolding loadMailStorage_def refreshMailboxBackupJobs_def fetch_basic_def fetch_signatures_def basic_end_def signatures_end_def
    signatures_failed_def report_def
  by (auto simp: changes_def split: settings_reply.split simp del: block.simps intro!: over_intros)

lemma over_succeed: "over a b h b \<Longrightarrow> over a b (succeed h) b"
  unfolding succeed_def by (rule over_bind) (auto intro: over_intros)

lemma over_changed: "(area_of c = Some a \<longrightarrow> b) \<Longrightarrow> over a b (change_and_load a' t c) b"
  unfolding change_and_load_def by (rule over_ask) (auto simp: changes_def intro: over_area)

lemma over_answered: "(area_of c = Some a \<longrightarrow> b) \<Longrightarrow> over a b (change_to_answer a' t c) b"
  unfolding change_to_answer_def
  by (rule over_succeed, rule over_ask) (auto simp: changes_def split: settings_reply.split intro: over_intros)

lemma over_conflict: "over a b (reload_on_conflict a' t code e) b"
  unfolding reload_on_conflict_def by (auto intro: over_bind over_area over_loads)

lemma excl_under_mark:
  assumes "\<And>b. (a = a' \<longrightarrow> b) \<Longrightarrow> over a b body b" "\<And>e b. over a b (failed e) b" "a' = Mailbox \<longrightarrow> key \<noteq> []"
  shows "excl (busy a) (changes a) (start (under_mark clears a' key s0 body failed)) False s0"
proof (cases "st_token s0 = [] \<or> busy a' s0")
  case True
  then show ?thesis by (simp add: under_mark_def excl_start over_give)
next
  case False
  then have u: "under_mark clears a' key s0 body failed = bind_h (set_h (\<lambda>v. (if clears then set_error a' False else id) (take_mark a' key v))) (\<lambda>_.
        finally_do (try_catch body failed) (set_h (drop_mark a')))" by (simp add: under_mark_def)
  show ?thesis
  proof (cases "a = a'")
    case True
    have "over a True (finally_do (try_catch body failed) (set_h (drop_mark a'))) False"
      by (intro over_finally over_try assms(1,2) over_release) (simp_all add: True)
    then show ?thesis unfolding u using False assms(3) by (intro excl_take) (auto simp: True)
  next
    case other: False
    have "over a False (finally_do (try_catch body failed) (set_h (drop_mark a'))) False"
      by (intro over_finally over_try assms(1,2) over_set) (simp_all add: other)
    then show ?thesis unfolding u by (intro excl_start over_set_then) (simp_all add: other)
  qed
qed

lemmas marked_handlers = saveExternalAccount_def external_change_def removeExternalAccount_def removeExternalAccounts_def runExternalTest_def
  runExternalCollect_def removeRecentRecipients_def saveMailboxPolicy_def saveSpamPolicy_def saveSpamRule_def removeSpamRule_def
  saveAutoClassificationPolicy_def saveAutoClassificationRule_def removeAutoClassificationRules_def reorderAutoRules_def
  saveAutoForwardPolicy_def addAutoForwardTargets_def removeAutoForwardTargets_def saveAutoForwardException_def
  removeAutoForwardExceptions_def startMailboxBackup_def rerunMailboxBackup_def saveMailboxBackupFile_def

lemmas marked_intros = excl_under_mark over_succeed over_changed over_answered over_conflict over_loads over_give

lemma excl_give: "excl (busy a) (changes a) (start (give x)) False s"
  by (rule excl_start) (rule over_give)

lemma excl_external:
  "excl (busy a) (changes a) (start (saveExternalAccount s i f)) False s"
  "excl (busy a) (changes a) (start (removeExternalAccount s j c)) False s"
  "excl (busy a) (changes a) (start (removeExternalAccounts s is c)) False s"
  "excl (busy a) (changes a) (start (runExternalTest s j)) False s"
  "excl (busy a) (changes a) (start (runExternalCollect s j)) False s"
  "excl (busy a) (changes a) (start (removeRecentRecipients s js d)) False s"
  unfolding marked_handlers
  by (auto split: option.split list.split intro!: marked_intros excl_give)

lemma excl_spam:
  "excl (busy a) (changes a) (start (saveSpamPolicy s)) False s"
  "excl (busy a) (changes a) (start (saveSpamRule s i x)) False s"
  "excl (busy a) (changes a) (start (removeSpamRule s j)) False s"
  unfolding marked_handlers
  by (auto split: option.split intro!: marked_intros excl_give)

lemma excl_classification:
  "excl (busy a) (changes a) (start (saveAutoClassificationPolicy s)) False s"
  "excl (busy a) (changes a) (start (saveAutoClassificationRule s r x)) False s"
  "excl (busy a) (changes a) (start (removeAutoClassificationRules s is)) False s"
  "excl (busy a) (changes a) (start (reorderAutoRules s is)) False s"
  unfolding marked_handlers
  by (auto split: option.split list.split intro!: marked_intros excl_give over_bind over_area)

lemma excl_forwarding:
  "excl (busy a) (changes a) (start (saveAutoForwardPolicy s)) False s"
  "excl (busy a) (changes a) (start (addAutoForwardTargets s es)) False s"
  "excl (busy a) (changes a) (start (removeAutoForwardTargets s is)) False s"
  "excl (busy a) (changes a) (start (saveAutoForwardException s r x)) False s"
  "excl (busy a) (changes a) (start (removeAutoForwardExceptions s is)) False s"
  unfolding marked_handlers
  by (auto split: option.split intro!: marked_intros excl_give)

lemma over_change:
  assumes "area_of c = Some a \<longrightarrow> b" "\<And>r. over a b (k r) b"
  shows "over a b (bind_h (ask (t, Change c)) k) b"
  by (rule over_ask) (use assms in \<open>auto simp: changes_def\<close>)

lemma excl_absence: "excl (busy a) (changes a) (start (saveOutOfOfficePolicy s)) False s"
  unfolding saveOutOfOfficePolicy_def
  by (auto simp: changes_def split: option.split intro!: excl_give excl_under_mark over_succeed over_change over_ask over_set over_loads)

lemma neutral_loads:
  "neutral (busy a) (changes a) (start (loadMailStorage t))"
  "neutral (busy a) (changes a) (start (bind_h (ask (t, Refresh_mails)) (\<lambda>_. give ())))"
  by (auto simp: loadMailStorage_def handler_defs changes_def split: sum.split settings_reply.split)

lemma over_refresh: "over a b (block [void (bind_h (ask (t, Refresh_mails)) (\<lambda>_. give ())), void (loadMailStorage t), load_area Mailbox t False]) b"
  by (intro over_block over_nil over_void neutral_loads over_area)

lemma over_sent: "area_of c = Some a \<longrightarrow> b \<Longrightarrow> over a b (ask (t, Change c)) b"
proof -
  have "ask (t, Change c) = bind_h (ask (t, Change c)) give" by (simp add: bind_h_def give_def ask_def)
  then show "area_of c = Some a \<longrightarrow> b \<Longrightarrow> over a b (ask (t, Change c)) b" using over_change over_give by metis
qed

lemma excl_mailbox:
  "excl (busy a) (changes a) (start (saveMailboxPolicy s k d)) False s"
  "excl (busy a) (changes a) (start (runEmptyMailbox s k c)) False s"
  "excl (busy a) (changes a) (start (startMailboxBackup s k)) False s"
  "excl (busy a) (changes a) (start (rerunMailboxBackup s k)) False s"
  "excl (busy a) (changes a) (start (saveMailboxBackupFile s k)) False s"
  unfolding marked_handlers runEmptyMailbox_def
  by (auto simp del: block.simps intro!: excl_under_mark over_succeed over_sent over_changed over_refresh over_loads over_give over_bind over_area)

lemma over_signatures:
  assumes "area_of c = None" "over a False h False"
  shows "over a False (change_signatures t c h) False"
  unfolding change_signatures_def
  by (intro over_set_then over_finally over_try over_succeed over_change over_loads assms) (simp_all add: assms)

lemma excl_unmarked:
  "excl (busy a) (changes a) (start (openMailSettings s t c)) False s"
  "excl (busy a) (changes a) (start (poll_backups s p)) False s"
  "excl (busy a) (changes a) (start (saveMailBasicSettings s)) False s"
  "excl (busy a) (changes a) (start (resetMailBasicSettings s c)) False s"
  "excl (busy a) (changes a) (start (reloadMailBasicSettings s)) False s"
  "excl (busy a) (changes a) (start (reloadMailSignatures s)) False s"
  "excl (busy a) (changes a) (start (saveMailSignaturePreferences s)) False s"
  "excl (busy a) (changes a) (start (saveMailSignature s i f d)) False s"
  "excl (busy a) (changes a) (start (removeMailSignatures s is)) False s"
  unfolding openMailSettings_def poll_backups_def saveMailBasicSettings_def resetMailBasicSettings_def reloadMailBasicSettings_def
    reloadMailSignatures_def saveMailSignaturePreferences_def saveMailSignature_def removeMailSignatures_def make_default_def
    fetch_basic_def fetch_signatures_def basic_end_def signatures_end_def Let_def
  by (auto simp: changes_def split: option.split list.split settings_tab.split settings_reply.split simp del: block.simps
      intro!: excl_start over_intros over_signatures over_loads over_area)

lemma busy_close [simp]: "busy a (closeMailBasicSettings c v) = busy a v"
  by (simp add: closeMailBasicSettings_def restore_absence_def)

lemma settings_handler_excl: "excl (busy a) (changes a) (settings_handler i s) False s"
  by (cases i)
    (auto simp del: block.simps intro!: excl_external excl_spam excl_classification excl_forwarding excl_absence excl_mailbox excl_unmarked
      excl_start over_set over_if over_loads)

interpretation one_change: exclusive_handlers settings_handler "busy a" "changes a"
  by unfold_locales (rule settings_handler_excl)

section \<open>Properties\<close>

text \<open>C40. Changes of one area exclude each other: from any state, whatever the handlers of the settings and the answers of the
  server interleave to, at most one change of an area is pending, and while one is, the mark of the area is set, so that
  no handler sends another.\<close>

theorem one_change_of_area:
  assumes "reached settings_handler answers (idle s) m"
  shows "length (filter (\<lambda>w. changes a (fst w)) (mc_waiting m)) \<le> 1
    \<and> ((\<exists>w\<in>set (mc_waiting m). changes a (fst w)) \<longrightarrow> busy a (mc_view m))"
  using one_change.one_pending [OF assms] by blast

definition new_settings :: mail_settings where
  \<comment> \<open>the initial values of the state\<close>
  "new_settings =
     \<lparr>st_token = [], st_open = False, st_tab = Basic_tab,
      st_panes = (\<lambda>a. \<lparr>pn_value = None, pn_loading = False, pn_error = False, pn_busy = False\<rparr>), st_busyKey = [], st_mailbox = None,
      st_folders = [], st_tags = JArr [], st_storage = None, st_storage_loading = False, st_storage_error = False,
      st_saved_absence = None, st_basic = None, st_saved_basic = None, st_basic_loading = False, st_basic_error = False,
      st_basic_conflict = False, st_signatures = None, st_saved_signatures = None, st_signatures_loading = False,
      st_signatures_error = False, st_signatures_conflict = False\<rparr>"

definition two_rules :: "(settings_event, api_error + settings_reply) event list" where
  \<comment> \<open>two rules are saved one after the other, and a rule of another area\<close>
  "two_rules = [Invoke (Sign_in (lit ''t'')), Invoke (Save_spam_rule None (JArr [])), Invoke (Save_spam_rule (Some (lit ''r'')) (JArr [])),
     Invoke (Save_class_rule None (JArr []))]"

lemma two_rules_run:
  "\<exists>m. advances settings_handler two_rules (idle new_settings) = Some m \<and> answered_all settings_handler (\<lambda>v c r. True) two_rules (idle new_settings)
     \<and> map fst (mc_waiting m) = [(lit ''t'', Change (Create_spam_rule (JArr []))), (lit ''t'', Change (Create_class_rule (JArr [])))]"
  by (simp add: two_rules_def idle_def proceed_def answered_by_def handler_defs saveSpamRule_def saveAutoClassificationRule_def under_mark_def
      succeed_def change_and_load_def busy_def take_mark_def set_error_def pane_update_def new_settings_def)

theorem one_change_of_area_witness:
  "\<exists>m. reached settings_handler (\<lambda>v c r. True) (idle new_settings) m \<and> length (mc_waiting m) = 2
     \<and> length (filter (\<lambda>w. changes Spam (fst w)) (mc_waiting m)) \<le> 1 \<and> busy Spam (mc_view m)"
proof -
  obtain m where m: "advances settings_handler two_rules (idle new_settings) = Some m"
      "answered_all settings_handler (\<lambda>v c r. True) two_rules (idle new_settings)"
    and w: "map fst (mc_waiting m) = [(lit ''t'', Change (Create_spam_rule (JArr []))), (lit ''t'', Change (Create_class_rule (JArr [])))]"
    using two_rules_run by (elim exE conjE) (rule that)
  have l: "length (mc_waiting m) = 2" using arg_cong [OF w, of length] by simp
  have "(lit ''t'', Change (Create_spam_rule (JArr []))) \<in> fst ` set (mc_waiting m)"
    unfolding set_map [symmetric] w by simp
  then have x: "\<exists>x\<in>set (mc_waiting m). changes Spam (fst x)" by (force simp: changes_def)
  note r = advances_from [OF m]
  from one_change_of_area [OF r, of Spam] x r l show ?thesis by (intro exI [of _ m] conjI) simp_all
qed

section \<open>What has no mark\<close>

definition saved_twice :: "(settings_event, api_error + settings_reply) event list" where
  "saved_twice = [Invoke (Sign_in (lit ''t'')), Invoke (Save_signature None (JArr []) False), Invoke (Save_signature None (JArr []) False)]"

lemma signatures_created_twice:
  \<comment> \<open>the handlers of signatures do not test whether one of them is running\<close>
  "\<exists>m. advances settings_handler saved_twice (idle new_settings) = Some m
     \<and> map fst (mc_waiting m) = [(lit ''t'', Change (Create_signature (JArr []))), (lit ''t'', Change (Create_signature (JArr [])))]"
  by (simp add: saved_twice_def idle_def proceed_def handler_defs saveMailSignature_def change_signatures_def signatures_begin_def succeed_def new_settings_def)

end
