(* ===== verification/Spec2Isabelle.thy ===== *)
theory Spec2Isabelle
  imports Auth_Session Api_Broker Archive_Service Subagent_State Personal_Ai Mail_Rich_Text Business_Search Approval
    Schedule_Api Web_Api Admin_Api Outgoing_Translation Notification_Stream Mail_Compose Mail_Workspace
    Approval_Desk Web_Portal Mail_Settings
begin

text \<open>
  Verification of the client side logic of MoaWorks, a groupware of mail, approvals, messenger, calendars and files.

  The program. A server (not modelled, another language) is used by a web client (\<open>src/frontend/user-web\<close>), an
  administration client (\<open>src/frontend/admin-web\<close>), a mobile client (\<open>src/frontend/mobile-app\<close>) and a desktop shell
  (\<open>src/frontend/desktop-client\<close>); a script (\<open>scripts/moaworks-subagent-state.mjs\<close>) keeps the register of development
  tasks. The views are React components; what they decide is written in modules without rendering and in the event
  handlers of the components. The modules, and the handlers of the web client's mail view, settings, notifications,
  approvals, session and messenger, are modelled here as shallow definitions that follow the source function by function.
  A handler that waits for the server is cut at its awaits, either by hand (one definition for what it does before it
  asks, one for what it does with the answer) or as a process of \<open>Js_Async\<close>, whose runs interleave the handlers in every
  order the event loop allows.

  Theories and sources.

    \<^item> \<open>Js_Prelude\<close>: strings as lists of UTF-16 units (\<open>jstring\<close>), dynamic values (\<open>jsval\<close>), the string functions,
      results (\<open>error + value\<close>) and the services with data tables (\<open>js_env\<close>: case mapping, number texts), which are
      parameters. \<open>Interfaces\<close>: the locales \<open>epoch_session\<close>, \<open>action_gate\<close>, \<open>html_escaper\<close> and \<open>neighbour_mover\<close>, each
      interpreted on the definitions of the components that provide it.
    \<^item> \<open>Auth_Session\<close>: \<open>mobile-app/auth-session.js\<close>. The state is the controller (token, generation, phase); steps are
      the events of a login, of protected requests and of a logout in any order.
    \<^item> \<open>Api_Broker\<close>, \<open>Archive_Service\<close>: \<open>desktop-client/electron/api-broker.js\<close>, \<open>archive-service.js\<close> and its
      contract: the allowlist of endpoints with path patterns, the credential kept outside the renderer, local archives
      and their HTML.
    \<^item> \<open>Subagent_State\<close>: the task register, its commands as a step relation over a file system with events.
    \<^item> \<open>Personal_Ai\<close>: \<open>mobile-app/personal-ai-api.js\<close> and \<open>user-web/src/personalAi.ts\<close>, two implementations of one
      contract, compared.
    \<^item> \<open>Mail_Rich_Text\<close>: \<open>user-web/src/mailRichText.ts\<close>: check, HTML and text of mail documents, translation segments.
    \<^item> \<open>Business_Search\<close>: \<open>mobile-app/business-search.js\<close>.
    \<^item> \<open>Approval\<close>: \<open>approvalShell.ts\<close>, \<open>approvalCompose.ts\<close>, \<open>approvalAction.ts\<close>, \<open>approvalDelegation.ts\<close>,
      \<open>approvalDetail.ts\<close>, \<open>approvalPreferences.ts\<close> and \<open>calendarSettings.ts\<close> of \<open>user-web/src\<close>.
    \<^item> \<open>Js_Date\<close>: the dates of the language: civil days, \<open>Date.UTC\<close>, ISO texts, and the formatter of a time zone over a
      table of offsets (\<open>zone_env\<close>). \<open>Local_Time\<close>: the conversions between wall clock and instant of
      \<open>user-web/src/calendar.ts\<close> and \<open>scheduleForm.ts\<close>. \<open>Calendar\<close>: ranges, grids and events of \<open>calendar.ts\<close>.
      \<open>Schedule_Form\<close>: drafts, payloads and the expansion of repeated schedules of \<open>scheduleForm.ts\<close>. \<open>Schedule_Api\<close>:
      \<open>mobile-app/schedule-api.js\<close>.
    \<^item> \<open>Url_Text\<close>: encoding of components and queries, the API base and preview paths. \<open>Web_Request\<close>: the request layer of
      \<open>user-web/src/api.ts\<close>; \<open>Web_Api_Work\<close>, \<open>Web_Api_Mail\<close>, \<open>Web_Api\<close>: its exported functions, a constructor for each
      and a clause for the request it makes. \<open>Admin_Request\<close> and \<open>Admin_Api\<close>: the same for \<open>admin-web/src/api.ts\<close>.
    \<^item> The mail view of \<open>user-web/src/App.tsx\<close>. \<open>Mail_Recipients\<close>: recipient fields, replies, subjects, keys of the
      trash. \<open>Mail_Html\<close>: the filter for received HTML over a tree type \<open>dom\<close>, content ids, quoting. \<open>Mail_Document\<close>: the
      document of a new mail, reading HTML into one, the compose form. \<open>Outgoing_Translation\<close>:
      \<open>mailOutgoingTranslation.ts\<close> and the handlers of its panel. \<open>Inline_Images\<close>: \<open>mailInlineImages.ts\<close> and the lists of
      object URLs in the view, three interpretations of the locale \<open>url_owner\<close>. \<open>Mail_Compose\<close>: the compose window, a
      record of its state, with opening, attachments, submitting and closing. \<open>Mail_Workspace\<close>: folders, pages, the
      selected mail and the numbered requests, as a step relation.
    \<^item> \<open>Notification_Stream\<close>: the notifications of \<open>user-web/src/App.tsx\<close>: connection, text of the stream, reconnecting,
      repeated requests and the list, as a step relation.
    \<^item> Asynchronous handlers. \<open>Js_Async\<close>: a handler as a \<open>process\<close> (blocks between two awaits, the request it waits for), the
      step relation of a view whose handlers interleave, and the locale \<open>handler_system\<close> (a property of every state that
      all blocks keep holds in all runs, and a request is one the guard allows for the state in which its handler was called). \<open>Js_Exclusive\<close>: the locale \<open>exclusive_handlers\<close> for handlers
      that a flag of the state keeps apart. Both are interpreted on the handlers below.
    \<^item> \<open>Approval_View\<close> and \<open>Approval_Desk\<close>: the approval view of \<open>user-web/src/App.tsx\<close>, its state and pure helpers, then its
      handlers. \<open>Web_Portal\<close>: the session, the header, the home view and the messenger. \<open>Mail_Settings\<close>: the settings of
      mail (rules, signatures, folders, forwarding and the rest).

  What the lemmas show.

    \<^item> Sessions: no response of an ended session or of a superseded login changes the state, at most one login is
      pending, the credential of the desktop client goes to listed endpoints only; a login that the server confirms ends
      in a session (\<open>Auth_Session\<close>, \<open>Api_Broker\<close>).
    \<^item> The task register: the recorded events determine the state of a task (a refinement of the replay of its history),
      write locks exclude each other, the third formal failure hands the task over.
    \<^item> Texts that leave the client: archives and mails are well nested HTML without injected markup; documents written by
      the register stay inside the repository; segments of a mail can be taken out and put back.
    \<^item> Limits: chat payloads, archives, attachments and search results never exceed the limits of the source; what an
      archive may hold is stated as a schema of its own, and exactly that is accepted.
    \<^item> Calendars: for zones whose days do not jump (\<open>steady_days\<close>) the views are intervals of local midnights and the
      cell of a day in the month grid shows exactly the events of that day; local times and instants are inverse to each
      other wherever the wall clock shows the time (\<open>one_change\<close>); the loop that expands repeated schedules yields the days of
      a recurrence that is stated apart from it (\<open>recurs\<close>).
      Lemmas with a concrete zone show what happens at clock changes outside these assumptions.
    \<^item> Lemmas without a place among the properties show behaviour at the edges: error bodies of \<open>null\<close>, sessions that
      the desktop broker does not tie to responses, blank texts, comma names, edited drafts and schedules.
    \<^item> Requests: every call of the web and the administration client stays below the configured base, but for the two
      addresses of the web client that are written out, carries the token unless it is public, and announces its body;
      failures are reported alike by both.
    \<^item> Mail: what a received mail without templates shows has no script, frame or handler, and its links and images
      are restricted; a new mail's document satisfies the schema of mail bodies;
      a recipient field is accepted where each token has one meaning, and read back as these addresses; nothing incomplete is sent; a translation changes the texts
      it was made from and nothing else of the document; every object URL is held in one place or revoked once; the mail that
      is shown is the selected one, in whatever order answers arrive.
    \<^item> Notifications: at most one stream is alive, an outage ends in a bounded number of reconnections, the list is
      ordered and has one entry for every id.
    \<^item> Handlers in any order: every request of the approval view passes the checks of its action, and the document shown is
      that of the latest request; a draft is sent only as the form was when it was saved, and within the limits; requests of the session, home and messenger carry the token of the session and what they
      need; object URLs and lists of the portal keep their invariant; of the settings of mail at most one change of each
      area is under way. Further lemmas exhibit runs in which a late answer shows what belongs to another room or user,
      hides a choice, or is sent twice.

  Bounds. All loops of the modelled code end and are modelled as total functions: three corrections of an instant, at
  most 3700 occurrences of a schedule, seven days, 42 cells, 50 results are the constants of the source. There is no
  fuel; the recursion of mail documents and of path patterns is on the size of the data. Numbers that the source keeps
  as doubles are exact rationals or integers here; their values (milliseconds, counts, versions) stay below 2 to the 53.

  Parameters. Time zone offsets and names, locale formats, case mapping, the reader of date texts, the URL parser of
  the browser, its HTML parser and serializer, the comparison of names, the order of the platform's sort, number texts
  of fractions, the answers of the server and the file system of the scripts are arguments of the definitions; what is
  assumed of them are named predicates, and each property with such an assumption has a witness on a concrete table.

  Not modelled. The rendering of the React components (markup, styles, focus and layout effects), the handlers of the
  mobile and of the administration \<open>App.tsx\<close>, the shells of Electron and Expo, the saving of blobs through anchor elements,
  the bytes of streams and abort signals, label tables, the server, the deployment files and the scripts that drive
  browsers for evidence.

  What is left. The handlers of the mobile \<open>App.tsx\<close> over the session controller of \<open>Auth_Session\<close>, those of the
  administration \<open>App.tsx\<close>, and the small modules for delivery states, sender display, the directory and the navigation.
\<close>

end
